(* ===== verification/Py_Float.thy ===== *)
theory Py_Float
  imports Complex_Main
begin

text \<open>
  Python floats. A value is a finite number, one of the two infinities or the not-a-number
  value. Comparisons are those of Python: every order comparison with \<open>NaN\<close> is false, so a
  guard such as \<open>quantity <= 0\<close> lets \<open>NaN\<close> through, as it does in the code. Arithmetic on
  finite values is exact: rounding to 53 bits, signed zero and overflow of a finite result to an
  infinity are not modelled. Division by zero raises in Python; \<open>py_div\<close> has that branch,
  and the plain quotient is used where the code has checked the divisor.
\<close>

section \<open>Values and arithmetic\<close>

datatype pyfloat = Fin real | PInf | NInf | NaN

text \<open>The value is a number at all, respectively a finite one.\<close>

definition is_num :: "pyfloat \<Rightarrow> bool" where
  "is_num x \<longleftrightarrow> x \<noteq> NaN"

fun is_fin :: "pyfloat \<Rightarrow> bool" where
  "is_fin (Fin _) = True"
| "is_fin _ = False"

fun val_of :: "pyfloat \<Rightarrow> real" where
  "val_of (Fin r) = r"
| "val_of _ = 0"

lemma is_fin_iff: "is_fin x \<longleftrightarrow> (\<exists>r. x = Fin r)"
  by (cases x) auto

lemma Fin_val_of [simp]: "is_fin x \<Longrightarrow> Fin (val_of x) = x"
  by (cases x) auto

instantiation pyfloat :: "{plus, minus, uminus, times, abs, ord, inverse}"
begin

fun plus_pyfloat :: "pyfloat \<Rightarrow> pyfloat \<Rightarrow> pyfloat" where
  "plus_pyfloat NaN _ = NaN"
| "plus_pyfloat _ NaN = NaN"
| "plus_pyfloat (Fin a) (Fin b) = Fin (a + b)"
| "plus_pyfloat PInf NInf = NaN"
| "plus_pyfloat NInf PInf = NaN"
| "plus_pyfloat PInf _ = PInf"
| "plus_pyfloat _ PInf = PInf"
| "plus_pyfloat NInf _ = NInf"
| "plus_pyfloat _ NInf = NInf"

fun uminus_pyfloat :: "pyfloat \<Rightarrow> pyfloat" where
  "uminus_pyfloat (Fin a) = Fin (- a)"
| "uminus_pyfloat PInf = NInf"
| "uminus_pyfloat NInf = PInf"
| "uminus_pyfloat NaN = NaN"

definition minus_pyfloat :: "pyfloat \<Rightarrow> pyfloat \<Rightarrow> pyfloat" where
  "minus_pyfloat x y = x + (- y)"

definition signed_inf :: "real \<Rightarrow> pyfloat" where
  "signed_inf r = (if 0 < r then PInf else if r < 0 then NInf else NaN)"

fun times_pyfloat :: "pyfloat \<Rightarrow> pyfloat \<Rightarrow> pyfloat" where
  "times_pyfloat NaN _ = NaN"
| "times_pyfloat _ NaN = NaN"
| "times_pyfloat (Fin a) (Fin b) = Fin (a * b)"
| "times_pyfloat PInf (Fin b) = signed_inf b"
| "times_pyfloat NInf (Fin b) = signed_inf (- b)"
| "times_pyfloat (Fin a) PInf = signed_inf a"
| "times_pyfloat (Fin a) NInf = signed_inf (- a)"
| "times_pyfloat PInf PInf = PInf"
| "times_pyfloat NInf NInf = PInf"
| "times_pyfloat _ _ = NInf"

fun abs_pyfloat :: "pyfloat \<Rightarrow> pyfloat" where
  "abs_pyfloat (Fin a) = Fin \<bar>a\<bar>"
| "abs_pyfloat PInf = PInf"
| "abs_pyfloat NInf = PInf"
| "abs_pyfloat NaN = NaN"

fun less_eq_pyfloat :: "pyfloat \<Rightarrow> pyfloat \<Rightarrow> bool" where
  "less_eq_pyfloat (Fin a) (Fin b) = (a \<le> b)"
| "less_eq_pyfloat NInf y = (y \<noteq> NaN)"
| "less_eq_pyfloat x PInf = (x \<noteq> NaN)"
| "less_eq_pyfloat _ _ = False"

fun less_pyfloat :: "pyfloat \<Rightarrow> pyfloat \<Rightarrow> bool" where
  "less_pyfloat (Fin a) (Fin b) = (a < b)"
| "less_pyfloat NInf y = (y \<noteq> NaN \<and> y \<noteq> NInf)"
| "less_pyfloat x PInf = (x \<noteq> NaN \<and> x \<noteq> PInf)"
| "less_pyfloat _ _ = False"

fun divide_pyfloat :: "pyfloat \<Rightarrow> pyfloat \<Rightarrow> pyfloat" where
  "divide_pyfloat NaN _ = NaN"
| "divide_pyfloat _ NaN = NaN"
| "divide_pyfloat (Fin a) (Fin b) = (if b = 0 then NaN else Fin (a / b))"
| "divide_pyfloat (Fin a) _ = Fin 0"
| "divide_pyfloat PInf (Fin b) = (if 0 \<le> b then PInf else NInf)"
| "divide_pyfloat NInf (Fin b) = (if 0 \<le> b then NInf else PInf)"
| "divide_pyfloat _ _ = NaN"

definition inverse_pyfloat :: "pyfloat \<Rightarrow> pyfloat" where
  "inverse_pyfloat x = (Fin 1 :: pyfloat) div x"

instance ..

end

text \<open>Python's \<open>==\<close> on floats, and the built-in \<open>max(a, b)\<close> and \<open>min(a, b)\<close>, which
  keep the first argument unless the second compares as strictly better.\<close>

definition py_eq :: "pyfloat \<Rightarrow> pyfloat \<Rightarrow> bool" where
  "py_eq x y \<longleftrightarrow> x = y \<and> x \<noteq> NaN"

definition py_max :: "pyfloat \<Rightarrow> pyfloat \<Rightarrow> pyfloat" where
  "py_max a b = (if a < b then b else a)"

definition py_min :: "pyfloat \<Rightarrow> pyfloat \<Rightarrow> pyfloat" where
  "py_min a b = (if b < a then b else a)"

text \<open>\<open>sum(xs)\<close> adds from the left, starting at zero.\<close>

definition py_sum :: "pyfloat list \<Rightarrow> pyfloat" where
  "py_sum xs = foldl (+) (Fin 0) xs"

text \<open>Truth value of a float: everything but zero is true.\<close>

definition py_true :: "pyfloat \<Rightarrow> bool" where
  "py_true x \<longleftrightarrow> x \<noteq> Fin 0"

section \<open>Algebra\<close>

lemma minus_Fin [simp]: "Fin a - Fin b = Fin (a - b)"
  by (simp add: minus_pyfloat_def)

lemma minus_NaN [simp]: "NaN - x = NaN" "x - NaN = NaN"
  by (simp_all add: minus_pyfloat_def) (cases x; simp)

lemma plus_NaN_right [simp]: "x + NaN = NaN"
  by (cases x) auto

lemma times_NaN_right [simp]: "x * NaN = NaN"
  by (cases x) auto

lemma NaN_le [simp]: "\<not> NaN \<le> x" "\<not> x \<le> NaN"
  by (cases x; simp)+

lemma NaN_less [simp]: "\<not> NaN < x" "\<not> x < NaN"
  by (cases x; simp)+

lemma pyfloat_le_NInf [simp]: "x \<le> NInf \<longleftrightarrow> x = NInf" "NInf \<le> x \<longleftrightarrow> is_num x"
  by (cases x; simp add: is_num_def)+

lemma pyfloat_plus_zero [simp]: "Fin 0 + x = x" "x + Fin 0 = x"
  by (cases x; simp)+

lemma pyfloat_plus_commute: "(x :: pyfloat) + y = y + x"
  by (cases x; cases y; simp)

lemma pyfloat_plus_assoc: "(x :: pyfloat) + y + z = x + (y + z)"
  by (cases x; cases y; cases z; simp)

lemma pyfloat_less_le: "x < y \<longleftrightarrow> x \<le> y \<and> x \<noteq> (y :: pyfloat)"
  by (cases x; cases y; auto)

lemma pyfloat_le_trans: "x \<le> y \<Longrightarrow> y \<le> z \<Longrightarrow> x \<le> (z :: pyfloat)"
  by (cases x; cases y; cases z; auto)

lemma pyfloat_not_le: "is_num x \<Longrightarrow> is_num y \<Longrightarrow> \<not> x \<le> y \<longleftrightarrow> y < x"
  by (cases x; cases y; auto simp: is_num_def)

lemma pyfloat_not_less: "is_num x \<Longrightarrow> is_num y \<Longrightarrow> \<not> x < y \<longleftrightarrow> y \<le> x"
  by (cases x; cases y; auto simp: is_num_def)

lemma pyfloat_le_refl [simp]: "x \<le> x \<longleftrightarrow> is_num x"
  by (cases x) (auto simp: is_num_def)

lemma pyfloat_leD_num: "x \<le> y \<Longrightarrow> is_num x \<and> is_num y"
  by (cases x; cases y; auto simp: is_num_def)

lemma pyfloat_lessD_num: "x < y \<Longrightarrow> is_num x \<and> is_num (y :: pyfloat)"
  by (cases x; cases y; auto simp: is_num_def)

lemma pyfloat_irrefl [simp]: "\<not> x < (x :: pyfloat)"
  by (cases x) auto

lemma is_num_Fin [simp]: "is_num (Fin a)" "is_num PInf" "is_num NInf" "\<not> is_num NaN"
  by (simp_all add: is_num_def)

lemma is_fin_ops [simp]:
  "is_fin x \<Longrightarrow> is_fin y \<Longrightarrow> is_fin (x + y)"
  "is_fin x \<Longrightarrow> is_fin y \<Longrightarrow> is_fin (x - y)"
  "is_fin x \<Longrightarrow> is_fin y \<Longrightarrow> is_fin (x * y)"
  "is_fin (- x) \<longleftrightarrow> is_fin x"
  "is_fin \<bar>x\<bar> \<longleftrightarrow> is_fin x"
  by (cases x; cases y; simp)+

lemma is_fin_divide: "is_fin x \<Longrightarrow> is_fin y \<Longrightarrow> y \<noteq> Fin 0 \<Longrightarrow> is_fin (x / y)"
  by (cases x; cases y; simp)

lemma is_fin_num: "is_fin x \<Longrightarrow> is_num x"
  by (cases x) auto

lemma val_of_ops [simp]:
  "is_fin x \<Longrightarrow> is_fin y \<Longrightarrow> val_of (x + y) = val_of x + val_of y"
  "is_fin x \<Longrightarrow> is_fin y \<Longrightarrow> val_of (x - y) = val_of x - val_of y"
  "is_fin x \<Longrightarrow> is_fin y \<Longrightarrow> val_of (x * y) = val_of x * val_of y"
  "val_of (- x) = - val_of x"
  "is_fin x \<Longrightarrow> val_of \<bar>x\<bar> = \<bar>val_of x\<bar>"
  by (cases x; cases y; simp)+

lemma abs_pyfloat_nonneg: "is_num x \<Longrightarrow> Fin 0 \<le> \<bar>x\<bar>"
  by (cases x) auto

lemma abs_NaN_iff [simp]: "\<bar>x\<bar> = NaN \<longleftrightarrow> x = NaN"
  by (cases x) auto

lemma py_max_Fin [simp]: "py_max (Fin a) (Fin b) = Fin (max a b)"
  by (simp add: py_max_def)

lemma py_min_Fin [simp]: "py_min (Fin a) (Fin b) = Fin (min a b)"
  by (simp add: py_min_def)

lemma py_max_ge: "is_num a \<Longrightarrow> a \<le> py_max a b" "is_num a \<Longrightarrow> is_num b \<Longrightarrow> b \<le> py_max a b"
  by (cases a; cases b; auto simp: py_max_def)+

lemma py_sum_Nil [simp]: "py_sum [] = Fin 0"
  by (simp add: py_sum_def)

lemma foldl_plus_start: "foldl (+) (a + b) xs = a + foldl (+) (b :: pyfloat) xs"
  by (induction xs arbitrary: b) (simp_all add: pyfloat_plus_assoc)

lemma py_sum_Cons [simp]: "py_sum (x # xs) = x + py_sum xs"
  using foldl_plus_start [of x "Fin 0" xs] by (simp add: py_sum_def)

lemma py_sum_append: "py_sum (xs @ ys) = py_sum xs + py_sum ys"
  by (induction xs) (simp_all add: pyfloat_plus_assoc)

lemma py_sum_fin: "list_all is_fin xs \<Longrightarrow> py_sum xs = Fin (sum_list (map val_of xs))"
proof (induction xs)
  case (Cons x xs)
  then show ?case by (cases x) auto
qed simp

section \<open>Rounding\<close>

text \<open>
  \<open>round(x, n)\<close>: the nearest multiple of \<open>10^-n\<close>, ties to the even multiple. Python raises
  only when no digit count is given, so infinities and \<open>NaN\<close> round to themselves.
\<close>

definition round_half_even :: "real \<Rightarrow> int" where
  "round_half_even r =
     (let f = \<lfloor>r\<rfloor>; d = r - of_int f in
      if d < 1/2 then f
      else if 1/2 < d then f + 1
      else if even f then f else f + 1)"

fun py_round :: "pyfloat \<Rightarrow> nat \<Rightarrow> pyfloat" where
  "py_round (Fin r) n = Fin (of_int (round_half_even (r * 10 ^ n)) / 10 ^ n)"
| "py_round x n = x"

lemma round_half_even_close: "\<bar>of_int (round_half_even r) - r\<bar> \<le> 1/2"
proof -
  have "of_int \<lfloor>r\<rfloor> \<le> r" "r < of_int \<lfloor>r\<rfloor> + 1" by linarith+
  then show ?thesis by (auto simp: round_half_even_def Let_def)
qed

lemma round_half_even_of_int [simp]: "round_half_even (of_int i) = i"
  by (simp add: round_half_even_def)

lemma py_round_close:
  "\<bar>val_of (py_round (Fin r) n) - r\<bar> \<le> 1 / (2 * 10 ^ n)"
proof -
  let ?p = "(10::real) ^ n" and ?k = "of_int (round_half_even (r * 10 ^ n)) :: real"
  have p: "0 < ?p" by simp
  have eq: "?k / ?p - r = (?k - r * ?p) / ?p" using p by (simp add: diff_divide_distrib)
  have "\<bar>?k / ?p - r\<bar> = \<bar>?k - r * ?p\<bar> / ?p" using p unfolding eq by simp
  also have "\<dots> \<le> (1/2) / ?p"
    using round_half_even_close [of "r * ?p"] p by (intro divide_right_mono) simp_all
  finally show ?thesis by simp
qed

end
