(* ===== verification/Prelude.thy ===== *)
theory Prelude
  imports Py_Float "HOL-Library.AList" "HOL-Library.List_Lexorder" "HOL-Library.Char_ord"
begin

text \<open>
  What the components share: exceptions and results, messages, dictionaries in insertion order,
  dynamically typed values (parsed JSON and exchange payloads) with the conversions the code
  applies to them, and the few string functions it uses. The collections \<open>dict_simps\<close> and
  \<open>res_simps\<close> gather the rewrite rules for dictionaries and results.
\<close>

named_theorems dict_simps "lookup, keys and distinctness of dictionary operations"
named_theorems res_simps "evaluation of results and exceptions"

section \<open>Messages, exceptions, results\<close>

text \<open>
  An f-string is kept as the list of its parts: literal text, an inserted string, or a float
  formatted with a number of decimals. Nothing in the modelled code looks inside a message.
\<close>

datatype msg_part = Txt string | Str string | Flt pyfloat nat

type_synonym message = "msg_part list"

abbreviation text_msg :: "string \<Rightarrow> message" where
  "text_msg s \<equiv> [Txt s]"

datatype py_exc =
    ValueError message
  | TypeError message
  | RuntimeError message
  | KeyError string
  | AttributeError message
  | ZeroDivisionError
  | InvalidStateTransition message
  | OtherError message

type_synonym 'a res = "py_exc + 'a"

fun is_ok :: "'a res \<Rightarrow> bool" where
  "is_ok (Inr _) = True"
| "is_ok (Inl _) = False"

text \<open>\<open>str(exc)\<close>, and its truth value.\<close>

fun exc_message :: "py_exc \<Rightarrow> message" where
  "exc_message (ValueError m) = m"
| "exc_message (TypeError m) = m"
| "exc_message (RuntimeError m) = m"
| "exc_message (KeyError k) = [Txt [CHR 0x27], Str k, Txt [CHR 0x27]]"
| "exc_message (AttributeError m) = m"
| "exc_message ZeroDivisionError = text_msg ''float division by zero''"
| "exc_message (InvalidStateTransition m) = m"
| "exc_message (OtherError m) = m"

definition message_true :: "message \<Rightarrow> bool" where
  "message_true m \<longleftrightarrow> m \<noteq> [] \<and> (\<exists>p \<in> set m. p \<noteq> Txt [] \<and> p \<noteq> Str [])"

text \<open>Sequencing: the first exception is the result.\<close>

definition rbind :: "'a res \<Rightarrow> ('a \<Rightarrow> 'b res) \<Rightarrow> 'b res" where
  "rbind m f = (case m of Inl e \<Rightarrow> Inl e | Inr x \<Rightarrow> f x)"

lemma rbind_simps [simp, res_simps]:
  "rbind (Inl e) f = Inl e"
  "rbind (Inr x) f = f x"
  by (simp_all add: rbind_def)

lemma rbind_Inr_iff [res_simps]: "rbind m f = Inr y \<longleftrightarrow> (\<exists>x. m = Inr x \<and> f x = Inr y)"
  by (cases m) auto

lemma is_ok_iff [res_simps]: "is_ok r \<longleftrightarrow> (\<exists>x. r = Inr x)"
  by (cases r) auto

text \<open>A constructor's checks: the first that fails raises its \<open>ValueError\<close>.\<close>

fun check_all :: "(bool \<times> string) list \<Rightarrow> unit res" where
  "check_all [] = Inr ()"
| "check_all ((bad, msg) # cs) = (if bad then Inl (ValueError (text_msg msg)) else check_all cs)"

lemma check_all_ok [res_simps]: "check_all cs = Inr () \<longleftrightarrow> (\<forall>c \<in> set cs. \<not> fst c)"
  by (induction cs rule: check_all.induct) auto

text \<open>A loop over a list that an exception ends.\<close>

fun run_res :: "('s \<Rightarrow> 'x \<Rightarrow> 's res) \<Rightarrow> 's \<Rightarrow> 'x list \<Rightarrow> 's res" where
  "run_res f s [] = Inr s"
| "run_res f s (x # xs) = rbind (f s x) (\<lambda>s'. run_res f s' xs)"

lemma run_res_invariant:
  assumes "run_res f s xs = Inr s'" "P s" "\<And>s x s'. P s \<Longrightarrow> f s x = Inr s' \<Longrightarrow> P s'"
  shows "P s'"
  using assms(1,2)
proof (induction xs arbitrary: s)
  case (Cons x xs)
  then obtain t where "f s x = Inr t" "run_res f t xs = Inr s'" by (auto simp: rbind_Inr_iff)
  with Cons assms(3) show ?case by blast
qed simp

text \<open>
  A step of a method that mutates an object and may raise: the state is kept, with the effects
  so far, when an exception leaves it.
\<close>

type_synonym ('s, 'a) step = "'s \<Rightarrow> 's \<times> 'a res"

definition andthen :: "('s, 'a) step \<Rightarrow> ('a \<Rightarrow> ('s, 'b) step) \<Rightarrow> ('s, 'b) step" where
  "andthen m f s = (case m s of (s', Inl e) \<Rightarrow> (s', Inl e) | (s', Inr x) \<Rightarrow> f x s')"

definition query :: "('s \<Rightarrow> 'a res) \<Rightarrow> ('s, 'a) step" where
  "query f s = (s, f s)"

definition update_by :: "('s \<Rightarrow> 's res) \<Rightarrow> ('s, unit) step" where
  "update_by f s = (case f s of Inl e \<Rightarrow> (s, Inl e) | Inr s' \<Rightarrow> (s', Inr ()))"

lemma andthen_Inr:
  "andthen m f s = (s', Inr y) \<longleftrightarrow> (\<exists>s1 x. m s = (s1, Inr x) \<and> f x s1 = (s', Inr y))"
  by (auto simp: andthen_def split: prod.splits sum.splits)

lemma andthen_Inl:
  "andthen m f s = (s', Inl e) \<longleftrightarrow> m s = (s', Inl e) \<or> (\<exists>s1 x. m s = (s1, Inr x) \<and> f x s1 = (s', Inl e))"
  by (auto simp: andthen_def split: prod.splits sum.splits)

lemma query_iff: "query f s = (s', r) \<longleftrightarrow> s' = s \<and> f s = r"
  by (auto simp: query_def)

lemma update_by_iff:
  "update_by f s = (s', Inr u) \<longleftrightarrow> f s = Inr s'"
  "update_by f s = (s', Inl e) \<longleftrightarrow> s' = s \<and> f s = Inl e"
  by (auto simp: update_by_def split: sum.splits)

lemma andthen_run:
  "andthen (query f) g s = (case f s of Inl e \<Rightarrow> (s, Inl e) | Inr x \<Rightarrow> g x s)"
  "andthen (update_by h) k s = (case h s of Inl e \<Rightarrow> (s, Inl e) | Inr s' \<Rightarrow> k () s')"
  by (auto simp: andthen_def query_def update_by_def split: sum.splits)

lemmas step_simps = andthen_Inr andthen_Inl query_iff update_by_iff

text \<open>What every step keeps, the whole keeps, returning or raising.\<close>

definition keeps :: "('s \<Rightarrow> bool) \<Rightarrow> ('s, 'a) step \<Rightarrow> bool" where
  "keeps P m \<longleftrightarrow> (\<forall>s. P s \<longrightarrow> P (fst (m s)))"

lemma keeps_andthen: "keeps P m \<Longrightarrow> (\<And>x. keeps P (f x)) \<Longrightarrow> keeps P (andthen m f)"
  by (auto simp: keeps_def andthen_def split: prod.splits sum.splits)

lemma keeps_query: "keeps P (query f)"
  by (simp add: keeps_def query_def)

lemma keeps_update_by: "(\<And>s s'. P s \<Longrightarrow> f s = Inr s' \<Longrightarrow> P s') \<Longrightarrow> keeps P (update_by f)"
  by (auto simp: keeps_def update_by_def split: sum.splits)

lemma keepsI: "(\<And>s s' r. P s \<Longrightarrow> m s = (s', r) \<Longrightarrow> P s') \<Longrightarrow> keeps P m"
  by (metis keeps_def prod.collapse)

lemma keepsD: "keeps P m \<Longrightarrow> P s \<Longrightarrow> m s = (s', r) \<Longrightarrow> P s'"
  by (metis keeps_def fst_conv)

text \<open>Division as Python does it.\<close>

definition py_div :: "pyfloat \<Rightarrow> pyfloat \<Rightarrow> pyfloat res" where
  "py_div a b = (if b = Fin 0 then Inl ZeroDivisionError else Inr (a / b))"

lemma py_div_ok [simp]: "b \<noteq> Fin 0 \<Longrightarrow> py_div a b = Inr (a / b)"
  by (simp add: py_div_def)

text \<open>\<open>int(x)\<close> of a float truncates towards zero and raises on infinities and not-a-number.\<close>

definition py_trunc :: "real \<Rightarrow> int" where
  "py_trunc r = (if 0 \<le> r then \<lfloor>r\<rfloor> else \<lceil>r\<rceil>)"

definition py_int_of_float :: "pyfloat \<Rightarrow> int res" where
  "py_int_of_float x =
     (case x of
        Fin r \<Rightarrow> Inr (py_trunc r)
      | NaN \<Rightarrow> Inl (ValueError (text_msg ''cannot convert float NaN to integer''))
      | _ \<Rightarrow> Inl (OtherError (text_msg ''cannot convert float infinity to integer'')))"

section \<open>Dictionaries\<close>

text \<open>
  A dictionary is an association list with distinct keys in insertion order. Storing keeps the
  place of a key that is present and appends one that is not, as \<open>AList.update\<close> does.
\<close>

type_synonym ('k, 'v) pydict = "('k \<times> 'v) list"

abbreviation dict_set :: "'k \<Rightarrow> 'v \<Rightarrow> ('k, 'v) pydict \<Rightarrow> ('k, 'v) pydict" where
  "dict_set \<equiv> AList.update"

abbreviation dict_pop :: "'k \<Rightarrow> ('k, 'v) pydict \<Rightarrow> ('k, 'v) pydict" where
  "dict_pop \<equiv> AList.delete"

abbreviation dict_ok :: "('k, 'v) pydict \<Rightarrow> bool" where
  "dict_ok d \<equiv> distinct (map fst d)"

definition dict_get :: "('k, 'v) pydict \<Rightarrow> 'k \<Rightarrow> 'v \<Rightarrow> 'v" where
  "dict_get d k v = (case map_of d k of None \<Rightarrow> v | Some x \<Rightarrow> x)"

lemmas dict_lookup_simps [dict_simps] =
  AList.update_conv' AList.delete_conv' AList.update_keys AList.delete_keys
  AList.distinct_update AList.distinct_delete

lemma dict_get_set [dict_simps]: "dict_get (dict_set k x d) k' v = (if k' = k then x else dict_get d k' v)"
  by (simp add: dict_get_def AList.update_conv')

lemma dict_get_simps [dict_simps]:
  "dict_get [] k v = v"
  "dict_get ((k, x) # d) k' v = (if k' = k then x else dict_get d k' v)"
  by (simp_all add: dict_get_def)

lemma dict_set_new: "k \<notin> fst ` set d \<Longrightarrow> dict_set k v d = d @ [(k, v)]"
  by (induction d) auto

lemma set_dict_set_subset: "set (dict_set k v d) \<subseteq> insert (k, v) (set d)"
  by (induction d) auto

lemma set_dict_pop_subset: "set (dict_pop k d) \<subseteq> set d"
  by (auto simp: AList.delete_eq)

lemma dict_set_mem:
  "dict_ok d \<Longrightarrow> p \<in> set (dict_set k v d) \<longleftrightarrow> p = (k, v) \<or> (p \<in> set d \<and> fst p \<noteq> k)"
  by (induction d) (auto simp: image_iff)

lemma dict_pop_mem: "p \<in> set (dict_pop k d) \<longleftrightarrow> p \<in> set d \<and> fst p \<noteq> k"
  by (auto simp: AList.delete_eq)

text \<open>Sums over the entries of a dictionary when one entry changes.\<close>

lemma sum_dict_set:
  fixes f :: "'k \<times> 'v \<Rightarrow> real"
  assumes "dict_ok d"
  shows "sum_list (map f (dict_set k v d)) =
    sum_list (map f d) + f (k, v) - (case map_of d k of None \<Rightarrow> 0 | Some w \<Rightarrow> f (k, w))"
  using assms by (induction d) (auto split: option.splits dest: map_of_SomeD simp: image_iff)

lemma sum_dict_pop:
  fixes f :: "'k \<times> 'v \<Rightarrow> real"
  assumes "dict_ok d"
  shows "sum_list (map f (dict_pop k d)) =
    sum_list (map f d) - (case map_of d k of None \<Rightarrow> 0 | Some w \<Rightarrow> f (k, w))"
  using assms by (induction d) (auto split: option.splits dest: map_of_SomeD simp: image_iff)

section \<open>Strings\<close>

text \<open>Case conversion, stripping and digits on ASCII text.\<close>

definition upper_char :: "char \<Rightarrow> char" where
  "upper_char c = (let n = of_char c :: nat in if 97 \<le> n \<and> n \<le> 122 then char_of (n - 32) else c)"

definition lower_char :: "char \<Rightarrow> char" where
  "lower_char c = (let n = of_char c :: nat in if 65 \<le> n \<and> n \<le> 90 then char_of (n + 32) else c)"

definition str_upper :: "string \<Rightarrow> string" where
  "str_upper = map upper_char"

definition str_lower :: "string \<Rightarrow> string" where
  "str_lower = map lower_char"

definition is_space :: "char \<Rightarrow> bool" where
  "is_space c = (let n = of_char c :: nat in n = 32 \<or> (9 \<le> n \<and> n \<le> 13) \<or> (28 \<le> n \<and> n \<le> 31))"

definition str_strip :: "string \<Rightarrow> string" where
  "str_strip s = rev (dropWhile is_space (rev (dropWhile is_space s)))"

definition is_digit :: "char \<Rightarrow> bool" where
  "is_digit c = (let n = of_char c :: nat in 48 \<le> n \<and> n \<le> 57)"

definition digit_val :: "char \<Rightarrow> nat" where
  "digit_val c = of_char c - 48"

definition digit_char :: "nat \<Rightarrow> char" where
  "digit_char n = char_of (n + 48)"

lemma digit_char_roundtrip [simp]:
  assumes "n < 10" shows "is_digit (digit_char n)" "digit_val (digit_char n) = n"
  using assms by (simp_all add: is_digit_def digit_val_def digit_char_def Let_def)

lemma upper_char_idem [simp]: "upper_char (upper_char c) = upper_char c"
proof -
  have "of_char c < (256::nat)" by simp
  then show ?thesis by (auto simp: upper_char_def Let_def)
qed

lemma str_upper_idem [simp]: "str_upper (str_upper s) = str_upper s"
  by (simp add: str_upper_def)

lemmas str_simps =
  str_upper_def str_lower_def upper_char_def lower_char_def Let_def char_of_eq_iff

text \<open>The environment variables of the process.\<close>

type_synonym env = "string \<Rightarrow> string option"

section \<open>Parsing a float\<close>

text \<open>
  \<open>float(s)\<close>: surrounding white space, a sign, then \<open>inf\<close>, \<open>infinity\<close>, \<open>nan\<close> in any case,
  or a decimal literal with an optional exponent, with single underscores allowed between
  digits. \<open>None\<close> stands for the \<open>ValueError\<close>.
\<close>

fun span_digits :: "string \<Rightarrow> nat list \<times> string" where
  "span_digits [] = ([], [])"
| "span_digits [c] = (if is_digit c then ([digit_val c], []) else ([], [c]))"
| "span_digits (c # d # cs) =
     (if \<not> is_digit c then ([], c # d # cs)
      else if d = CHR ''_'' \<and> cs \<noteq> [] \<and> is_digit (hd cs)
      then (let (xs, r) = span_digits cs in (digit_val c # xs, r))
      else (let (xs, r) = span_digits (d # cs) in (digit_val c # xs, r)))"

definition digits_val :: "nat list \<Rightarrow> nat" where
  "digits_val ds = foldl (\<lambda>n d. 10 * n + d) 0 ds"

definition parse_exponent :: "string \<Rightarrow> int option" where
  "parse_exponent s =
     (case s of
        [] \<Rightarrow> Some 0
      | c # r \<Rightarrow>
          if c \<noteq> CHR ''e'' \<and> c \<noteq> CHR ''E'' then None
          else (let neg = (r \<noteq> [] \<and> hd r = CHR ''-'');
                    r' = (if r \<noteq> [] \<and> (hd r = CHR ''-'' \<or> hd r = CHR ''+'') then tl r else r);
                    (ds, rest) = span_digits r'
                in if ds = [] \<or> rest \<noteq> [] then None
                   else Some (if neg then - int (digits_val ds) else int (digits_val ds))))"

definition scale10 :: "real \<Rightarrow> int \<Rightarrow> real" where
  "scale10 r e = (if 0 \<le> e then r * 10 ^ nat e else r / 10 ^ nat (- e))"

definition parse_decimal :: "string \<Rightarrow> real option" where
  "parse_decimal s =
     (let (ip, r1) = span_digits s;
          (fp, r2) = (if r1 \<noteq> [] \<and> hd r1 = CHR ''.'' then span_digits (tl r1) else ([], r1))
      in if ip = [] \<and> fp = [] then None
         else map_option
           (\<lambda>e. scale10 (real (digits_val ip) + real (digits_val fp) / 10 ^ length fp) e)
           (parse_exponent r2))"

definition py_float_of_str :: "string \<Rightarrow> pyfloat option" where
  "py_float_of_str s =
     (let t = str_strip s;
          neg = (t \<noteq> [] \<and> hd t = CHR ''-'');
          u = (if t \<noteq> [] \<and> (hd t = CHR ''-'' \<or> hd t = CHR ''+'') then tl t else t);
          l = str_lower u
      in if l = ''inf'' \<or> l = ''infinity'' then Some (if neg then NInf else PInf)
         else if l = ''nan'' then Some NaN
         else map_option (\<lambda>r. Fin (if neg then - r else r)) (parse_decimal u))"

text \<open>\<open>int(s)\<close>: white space, a sign, digits with single underscores between them.\<close>

definition py_int_of_str :: "string \<Rightarrow> int option" where
  "py_int_of_str s =
     (let t = str_strip s;
          neg = (t \<noteq> [] \<and> hd t = CHR ''-'');
          (ds, r) = span_digits (if t \<noteq> [] \<and> (hd t = CHR ''-'' \<or> hd t = CHR ''+'') then tl t else t)
      in if ds = [] \<or> r \<noteq> [] then None
         else Some (if neg then - int (digits_val ds) else int (digits_val ds)))"

section \<open>Dynamically typed values\<close>

text \<open>
  The messages of exceptions and breaches never read as numbers, so a \<open>VMsg\<close> converts like any
  other text that is not a number.
\<close>

datatype pyval =
    VNone
  | VBool bool
  | VInt int
  | VFloat pyfloat
  | VStr string
  | VList "pyval list"
  | VDict "(string \<times> pyval) list"
  | VMsg message  \<comment> \<open>a text built by an f-string, kept by its parts\<close>

type_synonym payload = "(string \<times> pyval) list"

text \<open>\<open>d.get(key)\<close>, truth value, and the \<open>a or b\<close> of the language.\<close>

definition get_val :: "(string \<times> pyval) list \<Rightarrow> string \<Rightarrow> pyval" where
  "get_val d k = dict_get d k VNone"

fun truthy :: "pyval \<Rightarrow> bool" where
  "truthy VNone = False"
| "truthy (VBool b) = b"
| "truthy (VInt i) = (i \<noteq> 0)"
| "truthy (VFloat x) = py_true x"
| "truthy (VStr s) = (s \<noteq> [])"
| "truthy (VList xs) = (xs \<noteq> [])"
| "truthy (VDict d) = (d \<noteq> [])"
| "truthy (VMsg m) = True"

definition py_or :: "pyval \<Rightarrow> pyval \<Rightarrow> pyval" where
  "py_or a b = (if truthy a then a else b)"

text \<open>\<open>float(v)\<close> for \<open>isinstance(v, (int, float))\<close>; booleans are integers in Python.\<close>

fun as_number :: "pyval \<Rightarrow> pyfloat option" where
  "as_number (VBool b) = Some (Fin (if b then 1 else 0))"
| "as_number (VInt i) = Some (Fin (of_int i))"
| "as_number (VFloat x) = Some x"
| "as_number _ = None"

text \<open>\<open>float(v)\<close> of an arbitrary value, with its exceptions.\<close>

fun py_float :: "pyval \<Rightarrow> pyfloat res" where
  "py_float (VStr s) =
     (case py_float_of_str s of
        None \<Rightarrow> Inl (ValueError (text_msg ''could not convert string to float''))
      | Some x \<Rightarrow> Inr x)"
| "py_float (VMsg m) = Inl (ValueError (text_msg ''could not convert string to float''))"
| "py_float v =
     (case as_number v of
        None \<Rightarrow> Inl (TypeError (text_msg ''float() argument must be a string or a real number''))
      | Some x \<Rightarrow> Inr x)"

text \<open>\<open>int(v)\<close> of an arbitrary value.\<close>

definition py_int :: "pyval \<Rightarrow> int res" where
  "py_int v =
     (case v of
        VInt i \<Rightarrow> Inr i
      | VBool b \<Rightarrow> Inr (if b then 1 else 0)
      | VFloat x \<Rightarrow> py_int_of_float x
      | VStr s \<Rightarrow> (case py_int_of_str s of
                     None \<Rightarrow> Inl (ValueError (text_msg ''invalid literal for int() with base 10''))
                   | Some i \<Rightarrow> Inr i)
      | _ \<Rightarrow> Inl (TypeError (text_msg ''int() argument must be a string, a bytes-like object or a real number'')))"

text \<open>
  \<open>str(v)\<close>. Text, integers, booleans and \<open>None\<close> are exact; the text of a float, a list or a
  dictionary is not modelled and stands as a fixed placeholder.
\<close>

fun show_nat :: "nat \<Rightarrow> string" where
  "show_nat n = (if n < 10 then [digit_char n] else show_nat (n div 10) @ [digit_char (n mod 10)])"

declare show_nat.simps [simp del]

definition show_int :: "int \<Rightarrow> string" where
  "show_int i = (if i < 0 then CHR ''-'' # show_nat (nat (- i)) else show_nat (nat i))"

fun py_str :: "pyval \<Rightarrow> string" where
  "py_str (VStr s) = s"
| "py_str VNone = ''None''"
| "py_str (VBool b) = (if b then ''True'' else ''False'')"
| "py_str (VInt i) = show_int i"
| "py_str _ = ''<value>''"

definition str_msg :: "pyval \<Rightarrow> message" where
  "str_msg v = (case v of VMsg m \<Rightarrow> m | _ \<Rightarrow> text_msg (py_str v))"

text \<open>What a \<open>for\<close> loop over a value visits.\<close>

fun iter_values :: "pyval \<Rightarrow> pyval list res" where
  "iter_values (VList xs) = Inr xs"
| "iter_values (VStr s) = Inr (map (\<lambda>c. VStr [c]) s)"
| "iter_values (VDict d) = Inr (map (\<lambda>p. VStr (fst p)) d)"
| "iter_values (VMsg m) = Inr [VMsg m]"
| "iter_values _ = Inl (TypeError (text_msg ''object is not iterable''))"

lemma show_nat_digits: "list_all is_digit (show_nat n)"
  by (induction n rule: show_nat.induct) (subst show_nat.simps, auto)

lemma show_nat_inj:
  assumes "show_nat m = show_nat n" shows "m = n"
proof -
  have val: "foldl (\<lambda>v c. 10 * v + digit_val c) 0 (show_nat k) = k" for k
  proof (induction k rule: show_nat.induct)
    case (1 k)
    show ?case
    proof (cases "k < 10")
      case False
      with 1 have "foldl (\<lambda>v c. 10 * v + digit_val c) 0 (show_nat (k div 10)) = k div 10" by simp
      with False show ?thesis by (simp add: show_nat.simps [of k])
    qed (simp add: show_nat.simps [of k])
  qed
  from assms show ?thesis by (metis val)
qed

text \<open>
  The lookup several normalizers share: the first key whose value is a number, or text that
  parses as one; keys with other values are passed over.
\<close>

fun extract_float :: "(string \<times> pyval) list \<Rightarrow> string list \<Rightarrow> pyfloat \<Rightarrow> pyfloat" where
  "extract_float d [] dflt = dflt"
| "extract_float d (k # ks) dflt =
     (case get_val d k of
        VStr s \<Rightarrow> (case py_float_of_str s of Some x \<Rightarrow> x | None \<Rightarrow> extract_float d ks dflt)
      | v \<Rightarrow> (case as_number v of Some x \<Rightarrow> x | None \<Rightarrow> extract_float d ks dflt))"

lemma get_val_simps [dict_simps]:
  "get_val ((k, v) # d) k' = (if k' = k then v else get_val d k')"
  "get_val [] k' = VNone"
  by (simp_all add: get_val_def dict_get_def)

section \<open>Runs of an event handler\<close>

text \<open>
  An object that handles events one after the other: the state after all of them and the outcome
  of each. What every step keeps, a run keeps; this is the contract the strategies are used under.
\<close>

fun run_events :: "('s \<Rightarrow> 'e \<Rightarrow> 's \<times> 'o) \<Rightarrow> 's \<Rightarrow> 'e list \<Rightarrow> 's \<times> 'o list" where
  "run_events h s [] = (s, [])"
| "run_events h s (e # es) =
     (let (s1, r) = h s e; (s2, rs) = run_events h s1 es in (s2, r # rs))"

lemma length_run_events: "length (snd (run_events h s es)) = length es"
  by (induction es arbitrary: s) (auto simp: Let_def split: prod.splits, metis snd_conv)

lemma run_events_append:
  "run_events h s (es @ fs) =
     (let (s1, r) = run_events h s es; (s2, r') = run_events h s1 fs in (s2, r @ r'))"
  by (induction es arbitrary: s) (auto simp: Let_def split: prod.splits)

locale event_machine =
  fixes handle :: "'s \<Rightarrow> 'e \<Rightarrow> 's \<times> 'o"
    and inv :: "'s \<Rightarrow> bool"
    and ok :: "'e \<Rightarrow> bool"
  assumes handle_inv: "inv s \<Longrightarrow> ok e \<Longrightarrow> inv (fst (handle s e))"
begin

lemma run_inv: "inv s \<Longrightarrow> list_all ok es \<Longrightarrow> inv (fst (run_events handle s es))"
  by (induction es arbitrary: s) (auto simp: Let_def split: prod.splits, metis handle_inv fst_conv)

text \<open>What every step guarantees of its outcome from an invariant state, every outcome of a run has.\<close>

lemma run_outcomes:
  assumes "inv s" "list_all ok es"
    and "\<And>s e. inv s \<Longrightarrow> ok e \<Longrightarrow> Q e (snd (handle s e))"
  shows "list_all2 Q es (snd (run_events handle s es))"
  using assms(1,2)
proof (induction es arbitrary: s)
  case (Cons e es)
  obtain s1 r where h: "handle s e = (s1, r)" by fastforce
  obtain s2 rs where t: "run_events handle s1 es = (s2, rs)" by fastforce
  have "inv s1" using handle_inv [OF Cons.prems(1), of e] Cons.prems(2) by (simp add: h)
  then have "list_all2 Q es rs" using Cons.IH [of s1] Cons.prems(2) by (simp add: t)
  moreover have "Q e r" using assms(3) [OF Cons.prems(1), of e] Cons.prems(2) by (simp add: h)
  ultimately show ?case by (simp add: h t)
qed simp

end

end
