(* ===== verification/Resilience.thy ===== *)
theory Resilience
  imports Prelude
begin

text \<open>
  The guards around calls to an exchange: the token bucket of \<open>core/rate_limiter.py\<close>, the circuit
  breaker of \<open>core/circuit_breaker.py\<close>, the retry loops of \<open>core/retry_engine.py\<close> and
  \<open>core/retries/retry_handler.py\<close>, and the choice of \<open>core/failover_manager.py\<close>. Clock readings are
  arguments. The locale \<open>metered\<close> is the counting argument the bound of the bucket rests on.
\<close>

section \<open>Metered operations\<close>

text \<open>
  Operations that spend one unit of a credit when they succeed; each adds at most its gain to the
  credit. However the operations are chosen, the successes are paid by the first credit and the gains.
\<close>

locale metered =
  fixes step :: "'o \<Rightarrow> 's \<Rightarrow> 's \<times> bool"
    and ok :: "'s \<Rightarrow> 'o \<Rightarrow> bool"
    and inv :: "'s \<Rightarrow> bool"
    and credit :: "'s \<Rightarrow> real"
    and gain :: "'s \<Rightarrow> 'o \<Rightarrow> real"
  assumes step_inv: "inv s \<Longrightarrow> ok s x \<Longrightarrow> inv (fst (step x s))"
    and credit_nonneg: "inv s \<Longrightarrow> 0 \<le> credit s"
    and paid: "inv s \<Longrightarrow> ok s x \<Longrightarrow>
      credit (fst (step x s)) + (if snd (step x s) then 1 else 0) \<le> credit s + gain s x"
begin

fun successes :: "'o list \<Rightarrow> 's \<Rightarrow> nat" where
  "successes [] s = 0"
| "successes (x # xs) s = (if snd (step x s) then 1 else 0) + successes xs (fst (step x s))"

fun gains :: "'o list \<Rightarrow> 's \<Rightarrow> real" where
  "gains [] s = 0"
| "gains (x # xs) s = gain s x + gains xs (fst (step x s))"

fun all_ok :: "'o list \<Rightarrow> 's \<Rightarrow> bool" where
  "all_ok [] s = True"
| "all_ok (x # xs) s = (ok s x \<and> all_ok xs (fst (step x s)))"

lemma successes_bounded: "inv s \<Longrightarrow> all_ok xs s \<Longrightarrow> real (successes xs s) \<le> credit s + gains xs s"
proof (induction xs arbitrary: s)
  case (Cons x xs)
  have "real (successes xs (fst (step x s))) \<le> credit (fst (step x s)) + gains xs (fst (step x s))"
    using Cons.IH Cons.prems step_inv by simp
  with paid [of s x] Cons.prems show ?case by auto
qed (simp add: credit_nonneg)

end

section \<open>Rate limiter\<close>

record limiter =
  rl_rate :: pyfloat
  rl_capacity :: pyfloat
  rl_tokens :: pyfloat
  rl_last :: pyfloat

definition new_limiter :: "pyfloat \<Rightarrow> int option \<Rightarrow> pyfloat \<Rightarrow> limiter res" where
  "new_limiter calls_per_second burst now =
     rbind (case burst of
              Some b \<Rightarrow> Inr b
            | None \<Rightarrow> rbind (py_int_of_float calls_per_second) (\<lambda>n. Inr (max 1 n)))
       (\<lambda>n. Inr \<lparr>rl_rate = calls_per_second, rl_capacity = Fin (of_int n), rl_tokens = Fin (of_int n),
                  rl_last = now\<rparr>)"

definition refill :: "pyfloat \<Rightarrow> limiter \<Rightarrow> limiter" where
  "refill now l =
     l\<lparr>rl_tokens := py_min (rl_capacity l) (rl_tokens l + (now - rl_last l) * rl_rate l), rl_last := now\<rparr>"

definition wait_time :: "pyfloat \<Rightarrow> limiter \<Rightarrow> limiter \<times> pyfloat res" where
  "wait_time now l =
     (let l1 = refill now l in
      (l1, if Fin 1 \<le> rl_tokens l1 then Inr (Fin 0) else py_div (Fin 1 - rl_tokens l1) (rl_rate l1)))"

definition try_acquire :: "pyfloat \<Rightarrow> limiter \<Rightarrow> limiter \<times> bool" where
  "try_acquire now l =
     (let l1 = refill now l in
      if Fin 1 \<le> rl_tokens l1 then (l1\<lparr>rl_tokens := rl_tokens l1 - Fin 1\<rparr>, True) else (l1, False))"

definition available_tokens :: "pyfloat \<Rightarrow> limiter \<Rightarrow> limiter \<times> pyfloat" where
  "available_tokens now l = (let l1 = refill now l in (l1, rl_tokens l1))"

text \<open>
  The loop of \<open>acquire\<close> and \<open>acquire_sync\<close>, driven by the clock readings of its turns: \<open>Some t\<close> when
  the token was taken at \<open>t\<close>, \<open>None\<close> when it is still waiting after the last of them.
\<close>

fun acquire :: "pyfloat list \<Rightarrow> limiter \<Rightarrow> limiter \<times> pyfloat option res" where
  "acquire [] l = (l, Inr None)"
| "acquire (now # later) l =
     (case wait_time now l of
        (l1, Inl e) \<Rightarrow> (l1, Inl e)
      | (l1, Inr wait) \<Rightarrow>
          (if py_eq wait (Fin 0) then (l1\<lparr>rl_tokens := rl_tokens l1 - Fin 1\<rparr>, Inr (Some now))
           else acquire later l1))"

text \<open>A limiter with finite settings, a positive rate and no more tokens than its capacity.\<close>

definition limiter_ok :: "limiter \<Rightarrow> bool" where
  "limiter_ok l \<longleftrightarrow> is_fin (rl_rate l) \<and> is_fin (rl_capacity l) \<and> is_fin (rl_tokens l) \<and> is_fin (rl_last l) \<and>
     0 < val_of (rl_rate l) \<and> 0 \<le> val_of (rl_tokens l) \<and> val_of (rl_tokens l) \<le> val_of (rl_capacity l)"

lemma limiter_okE:
  assumes "limiter_ok l"
  obtains r c k t where "l = \<lparr>rl_rate = Fin r, rl_capacity = Fin c, rl_tokens = Fin k, rl_last = Fin t\<rparr>"
    "0 < r" "0 \<le> k" "k \<le> c"
  using assms by (cases l) (auto simp: limiter_ok_def is_fin_iff)

lemma new_limiter_ok:
  assumes "new_limiter (Fin r) burst (Fin t) = Inr l" "0 < r" "case burst of None \<Rightarrow> True | Some b \<Rightarrow> 0 \<le> b"
  shows "limiter_ok l \<and> rl_rate l = Fin r \<and> rl_last l = Fin t"
  using assms by (cases burst) (auto simp: new_limiter_def limiter_ok_def py_int_of_float_def)

lemma try_acquire_step:
  assumes "limiter_ok l" "rl_last l \<le> Fin t"
  shows "limiter_ok (fst (try_acquire (Fin t) l)) \<and> rl_last (fst (try_acquire (Fin t) l)) = Fin t \<and>
    rl_rate (fst (try_acquire (Fin t) l)) = rl_rate l \<and>
    rl_capacity (fst (try_acquire (Fin t) l)) = rl_capacity l \<and>
    val_of (rl_tokens (fst (try_acquire (Fin t) l))) + (if snd (try_acquire (Fin t) l) then 1 else 0) \<le>
      val_of (rl_tokens l) + val_of (rl_rate l) * (t - val_of (rl_last l))"
  using assms(1)
proof (rule limiter_okE)
  fix r c k t0
  assume l: "l = \<lparr>rl_rate = Fin r, rl_capacity = Fin c, rl_tokens = Fin k, rl_last = Fin t0\<rparr>"
    and pos: "0 < r" "0 \<le> k" "k \<le> c"
  have "0 \<le> (t - t0) * r" using assms(2) l pos(1) by simp
  then show ?thesis using pos
    by (auto simp: l try_acquire_def refill_def limiter_ok_def Let_def min_def mult.commute)
qed

text \<open>A turn of \<open>acquire\<close> is a \<open>try_acquire\<close>, repeated until it succeeds.\<close>

lemma acquire_turn:
  assumes "limiter_ok l"
  shows "acquire (Fin t # ts) l =
    (if snd (try_acquire (Fin t) l) then (fst (try_acquire (Fin t) l), Inr (Some (Fin t)))
     else acquire ts (fst (try_acquire (Fin t) l)))"
  using assms
  by (rule limiter_okE)
    (auto simp: wait_time_def try_acquire_def refill_def Let_def py_div_def py_eq_def min_def)

interpretation bucket: metered try_acquire
  "\<lambda>l now. is_fin now \<and> rl_last l \<le> now" limiter_ok "\<lambda>l. val_of (rl_tokens l)"
  "\<lambda>l now. val_of (rl_rate l) * (val_of now - val_of (rl_last l))"
proof
  fix l now assume "limiter_ok l" "is_fin now \<and> rl_last l \<le> now"
  then obtain t where now: "now = Fin t" "rl_last l \<le> Fin t" by (auto simp: is_fin_iff)
  note step = try_acquire_step [OF \<open>limiter_ok l\<close> now(2)]
  show "limiter_ok (fst (try_acquire now l))" using step by (simp add: now)
  show "val_of (rl_tokens (fst (try_acquire now l))) + (if snd (try_acquire now l) then 1 else 0)
      \<le> val_of (rl_tokens l) + val_of (rl_rate l) * (val_of now - val_of (rl_last l))"
    using step by (simp add: now)
qed (simp add: limiter_ok_def)

text \<open>The results of non-blocking acquisitions at the given times.\<close>

fun try_all :: "real list \<Rightarrow> limiter \<Rightarrow> bool list" where
  "try_all [] l = []"
| "try_all (t # ts) l = (case try_acquire (Fin t) l of (l', b) \<Rightarrow> b # try_all ts l')"

lemma try_all_successes:
  "length (filter id (try_all ts l)) = bucket.successes (map Fin ts) l"
  by (induction ts arbitrary: l) (auto split: prod.splits)

lemma gains_telescope:
  assumes "limiter_ok l" "rl_last l = Fin t0" "sorted (t0 # ts)"
  shows "bucket.all_ok (map Fin ts) l \<and>
    bucket.gains (map Fin ts) l = val_of (rl_rate l) * (last (t0 # ts) - t0)"
  using assms
proof (induction ts arbitrary: l t0)
  case (Cons t ts)
  have le: "rl_last l \<le> Fin t" using Cons.prems(2,3) by simp
  note step = try_acquire_step [OF Cons.prems(1) le]
  let ?l = "fst (try_acquire (Fin t) l)"
  have rest: "bucket.all_ok (map Fin ts) ?l \<and>
      bucket.gains (map Fin ts) ?l = val_of (rl_rate ?l) * (last (t # ts) - t)"
    by (rule Cons.IH) (use step Cons.prems(3) in simp_all)
  have "bucket.gains (map Fin (t # ts)) l = val_of (rl_rate l) * (t - t0) + bucket.gains (map Fin ts) ?l"
    by (simp add: Cons.prems(2))
  also have "\<dots> = val_of (rl_rate l) * (t - t0) + val_of (rl_rate l) * (last (t # ts) - t)"
    using rest step by simp
  also have "\<dots> = val_of (rl_rate l) * (last (t0 # t # ts) - t0)"
    by (simp add: right_diff_distrib)
  finally show ?case using rest le by simp
qed simp

text \<open>The limiter after acquisitions at the given times.\<close>

definition after_acquires :: "real list \<Rightarrow> limiter \<Rightarrow> limiter" where
  "after_acquires us l = foldl (\<lambda>l t. fst (try_acquire (Fin t) l)) l us"

lemma try_all_append: "try_all (us @ ts) l = try_all us l @ try_all ts (after_acquires us l)"
  by (induction us arbitrary: l) (auto simp: after_acquires_def split: prod.splits)

lemma length_try_all [simp]: "length (try_all ts l) = length ts"
  by (induction ts arbitrary: l) (auto split: prod.splits)

lemma after_acquires_ok:
  assumes "limiter_ok l" "rl_last l = Fin t0" "sorted (t0 # us)"
  shows "limiter_ok (after_acquires us l) \<and> rl_last (after_acquires us l) = Fin (last (t0 # us)) \<and>
    rl_rate (after_acquires us l) = rl_rate l \<and> rl_capacity (after_acquires us l) = rl_capacity l"
  using assms
proof (induction us arbitrary: l t0)
  case (Cons t us)
  have "rl_last l \<le> Fin t" using Cons.prems(2,3) by simp
  note step = try_acquire_step [OF Cons.prems(1) this]
  show ?case using Cons.IH [of "fst (try_acquire (Fin t) l)" t] step Cons.prems(3)
    by (simp add: after_acquires_def)
qed (simp add: after_acquires_def)

text \<open>
  The first acquisition of a window leaves, with what it grants, no more than a full bucket: this is
  where the cap at the capacity counts, however long the bucket has been idle.
\<close>

lemma try_acquire_capped:
  assumes "limiter_ok l" "rl_last l \<le> Fin t"
  shows "val_of (rl_tokens (fst (try_acquire (Fin t) l))) + (if snd (try_acquire (Fin t) l) then 1 else 0) \<le>
    val_of (rl_capacity l)"
  using assms(1)
  by (rule limiter_okE) (auto simp: try_acquire_def refill_def Let_def min_def)

lemma window_grants:
  assumes "limiter_ok l" "rl_last l \<le> Fin t" "sorted (t # ts)"
  shows "real (length (filter id (try_all (t # ts) l))) \<le>
    val_of (rl_capacity l) + val_of (rl_rate l) * (last (t # ts) - t)"
proof -
  let ?l = "fst (try_acquire (Fin t) l)" and ?b = "snd (try_acquire (Fin t) l)"
  note step = try_acquire_step [OF assms(1,2)]
  have rest: "real (length (filter id (try_all ts ?l))) \<le>
      val_of (rl_tokens ?l) + val_of (rl_rate l) * (last (t # ts) - t)"
    using bucket.successes_bounded [of ?l "map Fin ts"] gains_telescope [of ?l t ts] step assms(3)
    unfolding try_all_successes by simp
  have "length (filter id (try_all (t # ts) l)) = (if ?b then 1 else 0) + length (filter id (try_all ts ?l))"
    by (cases "try_acquire (Fin t) l") auto
  with rest try_acquire_capped [OF assms(1,2)] show ?thesis by (auto split: if_splits)
qed

text \<open>
  C19. The rate limit holds over every window of a run. Take any sequence of acquisitions at
  non-decreasing times on a limiter in order, and among them the acquisitions from one at time \<open>t\<close> on,
  after any number of earlier ones and any time of idling: at most the capacity plus the rate times the
  length of the window, from \<open>t\<close> to its last acquisition, are granted.
\<close>

theorem grants_bounded_by_rate:
  assumes "limiter_ok l" "rl_last l = Fin t0" "sorted (t0 # us @ t # ts)"
  shows "real (length (filter id (drop (length us) (try_all (us @ t # ts) l)))) \<le>
    val_of (rl_capacity l) + val_of (rl_rate l) * (last (t # ts) - t)"
proof -
  have times: "sorted (t0 # us)" "sorted (t # ts)" "last (t0 # us) \<le> t"
    using assms(3) last_in_set [of us] by (auto simp: sorted_append split: if_splits)
  note earlier = after_acquires_ok [OF assms(1,2) times(1)]
  have "drop (length us) (try_all (us @ t # ts) l) = try_all (t # ts) (after_acquires us l)"
    by (simp add: try_all_append del: try_all.simps)
  with window_grants [of "after_acquires us l" t ts] earlier times show ?thesis by simp
qed

text \<open>
  With room for a token, the loop that finds none computes how long to sleep, and its next turn takes one.
\<close>

lemma acquire_second_turn:
  assumes "limiter_ok l" "rl_last l \<le> Fin t" "1 \<le> val_of (rl_capacity l)"
  obtains l1 wait where "wait_time (Fin t) l = (l1, Inr (Fin wait))" "0 \<le> wait"
    "\<And>t'. t + wait \<le> t' \<Longrightarrow> \<exists>l2. acquire [Fin t, Fin t'] l = (l2, Inr (Some (if wait = 0 then Fin t else Fin t')))"
  using assms(1)
proof (rule limiter_okE)
  fix r c k t0
  assume l: "l = \<lparr>rl_rate = Fin r, rl_capacity = Fin c, rl_tokens = Fin k, rl_last = Fin t0\<rparr>"
    and pos: "0 < r" "0 \<le> k" "k \<le> c"
  define k1 where "k1 = min c (k + (t - t0) * r)"
  have c: "1 \<le> c" using assms(3) by (simp add: l)
  show thesis
  proof (cases "1 \<le> k1")
    case True
    then show ?thesis
      by (intro that [of _ 0]) (simp_all add: l wait_time_def refill_def k1_def [symmetric] Let_def py_eq_def)
  next
    case False
    have "1 \<le> min c (k1 + (t' - t) * r)" if "t + (1 - k1) / r \<le> t'" for t'
    proof -
      have "(1 - k1) / r \<le> t' - t" using that by simp
      then have "1 - k1 \<le> (t' - t) * r" using pos(1) by (simp add: pos_divide_le_eq)
      with c show ?thesis by simp
    qed
    with False pos(1) show ?thesis
      by (intro that [of _ "(1 - k1) / r"])
        (simp_all add: l wait_time_def refill_def k1_def [symmetric] Let_def py_eq_def)
  qed
qed

text \<open>A burst of zero starves: no token is ever granted, whatever the readings of the clock.\<close>

lemma zero_burst_starves:
  assumes "0 < r" "rl_rate l = Fin r" "rl_capacity l = Fin 0" "is_fin (rl_tokens l)" "is_fin (rl_last l)"
  shows "\<exists>l2. acquire (map Fin ts) l = (l2, Inr None)"
  using assms(2-5)
proof (induction ts arbitrary: l)
  case (Cons t ts)
  obtain k t0 where m: "rl_tokens l = Fin k" "rl_last l = Fin t0" using Cons.prems by (auto simp: is_fin_iff)
  show ?case
    using Cons.IH [of "refill (Fin t) l"] Cons.prems m assms(1)
    by (simp add: wait_time_def refill_def Let_def py_eq_def)
qed simp

text \<open>
  A blocking acquisition returns within two turns of its loop: a limiter built with a positive rate
  and the default burst, or one of at least one call, takes its token at once or after the sleep it
  computes. With a burst of zero it waits for ever.
\<close>

theorem acquire_returns:
  assumes "new_limiter (Fin r) burst (Fin t0) = Inr l0" "0 < r" "limiter_ok l" "rl_rate l = rl_rate l0"
    and "rl_capacity l = rl_capacity l0" "rl_last l \<le> Fin t"
  shows "if burst = Some 0 then \<forall>ts. \<exists>l2. acquire (map Fin ts) l = (l2, Inr None)
    else \<exists>l1 wait. wait_time (Fin t) l = (l1, Inr (Fin wait)) \<and> 0 \<le> wait \<and>
      (\<forall>t' \<ge> t + wait. \<exists>l2. acquire [Fin t, Fin t'] l = (l2, Inr (Some (if wait = 0 then Fin t else Fin t'))))"
proof (cases "burst = Some 0")
  case True
  then have "rl_capacity l = Fin 0" "rl_rate l = Fin r" using assms(1,4,5) by (auto simp: new_limiter_def)
  moreover have "is_fin (rl_tokens l)" "is_fin (rl_last l)" using assms(3) by (simp_all add: limiter_ok_def)
  ultimately show ?thesis using True zero_burst_starves [OF assms(2)] by simp
next
  case False
  have cap: "\<exists>n :: int. rl_capacity l = Fin (of_int n) \<and> (case burst of None \<Rightarrow> 1 \<le> n | Some b \<Rightarrow> n = b)"
    using assms(1,5) by (auto simp: new_limiter_def py_int_of_float_def split: option.splits)
  have "0 \<le> val_of (rl_capacity l)" using assms(3) by (simp add: limiter_ok_def)
  with cap False have "1 \<le> val_of (rl_capacity l)" by (auto split: option.splits)
  from acquire_second_turn [OF assms(3,6) this] False show ?thesis by (metis (no_types))
qed

section \<open>Circuit breaker\<close>

text \<open>The state is one of the three texts of the code.\<close>

datatype breaker_state = CLOSED | OPEN | HALF_OPEN

record breaker =
  cb_threshold :: int
  cb_timeout :: pyfloat
  cb_failures :: int
  cb_last :: "pyfloat option"
  cb_state :: breaker_state

definition new_breaker :: "int \<Rightarrow> pyfloat \<Rightarrow> breaker" where
  "new_breaker threshold timeout =
     \<lparr>cb_threshold = threshold, cb_timeout = timeout, cb_failures = 0, cb_last = None, cb_state = CLOSED\<rparr>"

text \<open>Subtracting a missing failure time would raise; an open breaker always has one.\<close>

definition call_allowed :: "pyfloat \<Rightarrow> breaker \<Rightarrow> breaker \<times> bool res" where
  "call_allowed now b =
     (if cb_state b = OPEN
      then (case cb_last b of
              None \<Rightarrow> (b, Inl (TypeError (text_msg ''unsupported operand type'')))
            | Some t \<Rightarrow>
                (if cb_timeout b \<le> now - t then (b\<lparr>cb_state := HALF_OPEN\<rparr>, Inr True) else (b, Inr False)))
      else (b, Inr True))"

definition record_success :: "breaker \<Rightarrow> breaker" where
  "record_success b = b\<lparr>cb_failures := 0, cb_last := None, cb_state := CLOSED\<rparr>"

definition record_failure :: "pyfloat \<Rightarrow> breaker \<Rightarrow> breaker" where
  "record_failure now b =
     (let b1 = b\<lparr>cb_failures := cb_failures b + 1, cb_last := Some now\<rparr> in
      if cb_threshold b1 \<le> cb_failures b1 \<or> cb_state b1 = HALF_OPEN then b1\<lparr>cb_state := OPEN\<rparr> else b1)"

text \<open>The calls a client makes on a breaker, and the answers it gets.\<close>

datatype breaker_op = Ask pyfloat | Success | Failure pyfloat

definition breaker_step :: "breaker \<Rightarrow> breaker_op \<Rightarrow> breaker \<times> bool res option" where
  "breaker_step b x =
     (case x of
        Ask t \<Rightarrow> (case call_allowed t b of (b', r) \<Rightarrow> (b', Some r))
      | Success \<Rightarrow> (record_success b, None)
      | Failure t \<Rightarrow> (record_failure t b, None))"

text \<open>
  What a circuit breaker promises, without its states: how many failures there have been since the last
  success, when the last one was, and whether a call has been let through since. A call is refused
  while there are enough failures, none has been let through, and the time is not over.
\<close>

record breaker_view =
  v_failures :: int
  v_last :: "pyfloat option"
  v_probed :: bool

definition view_step :: "int \<Rightarrow> pyfloat \<Rightarrow> breaker_view \<Rightarrow> breaker_op \<Rightarrow> breaker_view \<times> bool res option" where
  "view_step threshold timeout v x =
     (case x of
        Success \<Rightarrow> (\<lparr>v_failures = 0, v_last = None, v_probed = False\<rparr>, None)
      | Failure t \<Rightarrow> (\<lparr>v_failures = v_failures v + 1, v_last = Some t, v_probed = False\<rparr>, None)
      | Ask t \<Rightarrow>
          (case v_last v of
             None \<Rightarrow> (v, Some (Inr True))
           | Some t0 \<Rightarrow>
               (if v_failures v < threshold \<or> v_probed v then (v, Some (Inr True))
                else if timeout \<le> t - t0 then (v\<lparr>v_probed := True\<rparr>, Some (Inr True))
                else (v, Some (Inr False)))))"

definition view_of :: "breaker \<Rightarrow> breaker_view" where
  "view_of b = \<lparr>v_failures = cb_failures b, v_last = cb_last b, v_probed = (cb_state b = HALF_OPEN)\<rparr>"

definition breaker_ok :: "int \<Rightarrow> pyfloat \<Rightarrow> breaker \<Rightarrow> bool" where
  "breaker_ok threshold timeout b \<longleftrightarrow>
     cb_threshold b = threshold \<and> cb_timeout b = timeout \<and> 0 \<le> cb_failures b \<and>
     (cb_last b = None \<longleftrightarrow> cb_failures b = 0) \<and>
     (cb_state b = CLOSED \<longleftrightarrow> cb_failures b = 0 \<or> cb_failures b < threshold)"

lemma breaker_refines_step:
  assumes "breaker_ok n timeout b" "breaker_step b x = (b', r)"
  shows "breaker_ok n timeout b' \<and> view_step n timeout (view_of b) x = (view_of b', r)"
proof (cases x)
  case (Ask t)
  show ?thesis
    using assms Ask
    by (cases "cb_state b"; cases "cb_last b")
      (auto simp: breaker_step_def call_allowed_def breaker_ok_def view_step_def view_of_def split: if_splits)
next
  case Success
  then show ?thesis using assms
    by (auto simp: breaker_step_def record_success_def breaker_ok_def view_step_def view_of_def)
next
  case (Failure t)
  then show ?thesis using assms
    by (cases "cb_state b")
      (auto simp: breaker_step_def record_failure_def breaker_ok_def view_step_def view_of_def Let_def split: if_splits)
qed

text \<open>
  C18. The three-state breaker refines this promise: over any sequence of questions, successes and
  failures it gives exactly the promised answers and never raises; so the rule that a failure reopens a
  half-open breaker changes nothing that the failure count does not decide already.
\<close>

theorem breaker_refines_promise:
  "run_events breaker_step (new_breaker n timeout) xs = (b, rs) \<Longrightarrow>
   run_events (view_step n timeout) \<lparr>v_failures = 0, v_last = None, v_probed = False\<rparr> xs = (view_of b, rs) \<and>
   list_all (\<lambda>r. \<forall>e. r \<noteq> Some (Inl e)) rs"
proof -
  have raises: "snd (view_step n timeout v x) \<noteq> Some (Inl e)" for v x e
    by (auto simp: view_step_def split: breaker_op.splits option.splits)
  have "run_events breaker_step b0 xs = (b, rs) \<Longrightarrow> breaker_ok n timeout b0 \<Longrightarrow>
      run_events (view_step n timeout) (view_of b0) xs = (view_of b, rs) \<and>
      list_all (\<lambda>r. \<forall>e. r \<noteq> Some (Inl e)) rs" for b0
  proof (induction xs arbitrary: b0 rs)
    case (Cons x xs)
    obtain b1 r where st: "breaker_step b0 x = (b1, r)" by fastforce
    obtain b2 rs2 where rest: "run_events breaker_step b1 xs = (b2, rs2)" by fastforce
    note ref = breaker_refines_step [OF Cons.prems(2) st]
    have "r \<noteq> Some (Inl e)" for e using raises [of "view_of b0" x e] ref by simp
    moreover have "run_events (view_step n timeout) (view_of b1) xs = (view_of b, rs2) \<and>
        list_all (\<lambda>r. \<forall>e. r \<noteq> Some (Inl e)) rs2"
      using Cons.IH [of b1 rs2] Cons.prems(1) st rest ref by simp
    ultimately show ?case using Cons.prems(1) st rest ref by (auto simp: Let_def)
  qed simp
  from this [of "new_breaker n timeout"] show
    "run_events breaker_step (new_breaker n timeout) xs = (b, rs) \<Longrightarrow> ?thesis"
    by (simp add: breaker_ok_def new_breaker_def view_of_def)
qed

section \<open>Retrying\<close>

text \<open>
  The loop of both retry helpers: the function is called until it returns, at most as often as there
  are attempts, with a sleep after each failure, the last one included. The result holds the sleeps and
  the value, or the last exception if there was one.
\<close>

fun attempts ::
  "('w \<Rightarrow> 'w \<times> 'a res) \<Rightarrow> (nat \<Rightarrow> pyfloat) \<Rightarrow> nat \<Rightarrow> nat \<Rightarrow> py_exc option \<Rightarrow> 'w
     \<Rightarrow> 'w \<times> pyfloat list \<times> (py_exc option + 'a)" where
  "attempts f delay i 0 failed w = (w, [], Inl failed)"
| "attempts f delay i (Suc n) failed w =
     (case f w of
        (w1, Inr x) \<Rightarrow> (w1, [], Inr x)
      | (w1, Inl e) \<Rightarrow>
          (case attempts f delay (Suc i) n (Some e) w1 of (w2, sleeps, r) \<Rightarrow> (w2, delay i # sleeps, r)))"

definition engine_execute ::
  "int \<Rightarrow> pyfloat \<Rightarrow> ('w \<Rightarrow> 'w \<times> 'a res) \<Rightarrow> 'w \<Rightarrow> 'w \<times> pyfloat list \<times> 'a res" where
  "engine_execute retries base_delay f w =
     (case attempts f (\<lambda>i. base_delay * Fin (2 ^ i)) 0 (nat retries) None w of
        (w', sleeps, Inr x) \<Rightarrow> (w', sleeps, Inr x)
      | (w', sleeps, Inl _) \<Rightarrow>
          (w', sleeps, Inl (RuntimeError (text_msg ''Max retry attempts exceeded''))))"

text \<open>The decorator raises the last exception; with no attempt at all it raises \<open>None\<close>, a \<open>TypeError\<close>.\<close>

definition retry_wrapper ::
  "int \<Rightarrow> pyfloat \<Rightarrow> ('w \<Rightarrow> 'w \<times> 'a res) \<Rightarrow> 'w \<Rightarrow> 'w \<times> pyfloat list \<times> 'a res" where
  "retry_wrapper max_attempts delay f w =
     (case attempts f (\<lambda>_. delay) 0 (nat max_attempts) None w of
        (w', sleeps, Inr x) \<Rightarrow> (w', sleeps, Inr x)
      | (w', sleeps, Inl (Some e)) \<Rightarrow> (w', sleeps, Inl e)
      | (w', sleeps, Inl None) \<Rightarrow>
          (w', sleeps, Inl (TypeError (text_msg ''exceptions must derive from BaseException''))))"

text \<open>The world after \<open>k\<close> calls, and the result of the call made then.\<close>

definition world_after :: "('w \<Rightarrow> 'w \<times> 'a res) \<Rightarrow> nat \<Rightarrow> 'w \<Rightarrow> 'w" where
  "world_after f k = (fst \<circ> f) ^^ k"

definition result_at :: "('w \<Rightarrow> 'w \<times> 'a res) \<Rightarrow> nat \<Rightarrow> 'w \<Rightarrow> 'a res" where
  "result_at f k w = snd (f (world_after f k w))"

lemma world_after_Suc: "world_after f (Suc k) w = world_after f k (fst (f w))"
  by (simp add: world_after_def funpow_swap1)

lemma world_after_0 [simp]: "world_after f 0 w = w"
  by (simp add: world_after_def)

lemma result_at_Suc: "result_at f (Suc k) w = result_at f k (fst (f w))"
  by (simp add: result_at_def world_after_Suc)

lemma result_at_0: "result_at f 0 w = snd (f w)"
  by (simp add: result_at_def)

lemma attempts_success:
  assumes "k < n" "\<forall>j<k. \<not> is_ok (result_at f j w)" "result_at f k w = Inr x"
  shows "attempts f delay i n failed w = (world_after f (Suc k) w, map delay [i..<i + k], Inr x)"
  using assms
proof (induction n arbitrary: k i failed w)
  case (Suc n)
  obtain w1 r where f: "f w = (w1, r)" by fastforce
  show ?case
  proof (cases k)
    case 0
    with Suc.prems(3) f show ?thesis by (simp add: result_at_0 world_after_Suc)
  next
    case (Suc k')
    with Suc.prems(2) f obtain e where r: "r = Inl e" by (cases r) (auto simp: result_at_0)
    have "attempts f delay (Suc i) n (Some e) w1 = (world_after f (Suc k') w1, map delay [Suc i..<Suc i + k'], Inr x)"
      by (rule Suc.IH) (use Suc.prems \<open>k = Suc k'\<close> f in \<open>auto simp: result_at_Suc\<close>)
    then show ?thesis using f r \<open>k = Suc k'\<close> by (simp add: world_after_Suc upt_rec)
  qed
qed simp

lemma attempts_failure:
  assumes "\<forall>j<n. \<not> is_ok (result_at f j w)"
  shows "attempts f delay i n failed w = (world_after f n w, map delay [i..<i + n],
    Inl (if n = 0 then failed else case result_at f (n - 1) w of Inl e \<Rightarrow> Some e | Inr _ \<Rightarrow> None))"
  using assms
proof (induction n arbitrary: i failed w)
  case (Suc n)
  obtain w1 r where f: "f w = (w1, r)" by fastforce
  from Suc.prems f obtain e where r: "r = Inl e" by (cases r) (auto simp: result_at_0 dest: spec [of _ 0])
  have "\<forall>j<n. \<not> is_ok (result_at f j w1)" using Suc.prems f by (auto simp: result_at_Suc dest: spec [of _ "Suc _"])
  from Suc.IH [OF this, of "Suc i" "Some e"] f r show ?case
    by (cases n) (simp_all add: world_after_Suc result_at_0 result_at_Suc upt_rec)
qed simp

text \<open>
  Retrying ends after at most the configured attempts, whatever the function does. If some attempt
  succeeds, the first success is the result and there was one sleep per failure before it, doubling from
  the base delay; if none does, the engine raises its own error and the decorator the last exception.
\<close>

theorem retry_outcome:
  "if \<exists>k < nat n. is_ok (result_at f k w)
   then \<exists>k < nat n. \<exists>x. result_at f k w = Inr x \<and> (\<forall>j<k. \<not> is_ok (result_at f j w)) \<and>
     engine_execute n base f w = (world_after f (Suc k) w, map (\<lambda>i. base * Fin (2 ^ i)) [0..<k], Inr x) \<and>
     retry_wrapper n base f w = (world_after f (Suc k) w, replicate k base, Inr x)
   else engine_execute n base f w = (world_after f (nat n) w, map (\<lambda>i. base * Fin (2 ^ i)) [0..<nat n],
       Inl (RuntimeError (text_msg ''Max retry attempts exceeded''))) \<and>
     retry_wrapper n base f w = (world_after f (nat n) w, replicate (nat n) base,
       if nat n = 0 then Inl (TypeError (text_msg ''exceptions must derive from BaseException''))
       else result_at f (nat n - 1) w)"
proof (cases "\<exists>k < nat n. is_ok (result_at f k w)")
  case True
  define k where "k = (LEAST k. is_ok (result_at f k w))"
  have k: "is_ok (result_at f k w)" "\<forall>j<k. \<not> is_ok (result_at f j w)"
    unfolding k_def using LeastI_ex [of "\<lambda>k. is_ok (result_at f k w)"] True not_less_Least by blast+
  have lt: "k < nat n" using True Least_le le_less_trans unfolding k_def by metis
  obtain x where x: "result_at f k w = Inr x" using k(1) by (auto simp: is_ok_iff)
  have "engine_execute n base f w = (world_after f (Suc k) w, map (\<lambda>i. base * Fin (2 ^ i)) [0..<k], Inr x)"
    using attempts_success [OF lt k(2) x, of _ 0] by (simp add: engine_execute_def)
  moreover have "retry_wrapper n base f w = (world_after f (Suc k) w, replicate k base, Inr x)"
    using attempts_success [OF lt k(2) x, of _ 0] by (simp add: retry_wrapper_def map_replicate_const)
  ultimately show ?thesis using True lt x k(2) by auto
next
  case False
  then have fail: "\<forall>j < nat n. \<not> is_ok (result_at f j w)" by blast
  have last: "\<exists>e. result_at f (nat n - 1) w = Inl e" if "nat n \<noteq> 0"
  proof -
    have "\<not> is_ok (result_at f (nat n - 1) w)" using fail that by simp
    then show ?thesis by (cases "result_at f (nat n - 1) w") auto
  qed
  have "engine_execute n base f w = (world_after f (nat n) w, map (\<lambda>i. base * Fin (2 ^ i)) [0..<nat n],
       Inl (RuntimeError (text_msg ''Max retry attempts exceeded'')))"
    using attempts_failure [OF fail, of _ 0 None] by (simp add: engine_execute_def)
  moreover have "retry_wrapper n base f w = (world_after f (nat n) w, replicate (nat n) base,
       if nat n = 0 then Inl (TypeError (text_msg ''exceptions must derive from BaseException''))
       else result_at f (nat n - 1) w)"
    using attempts_failure [OF fail, of "\<lambda>_. base" 0 None] last
    by (auto simp: retry_wrapper_def map_replicate_const)
  ultimately show ?thesis using False by auto
qed

text \<open>\<open>FailoverManager.get_active_exchange\<close>: the primary venue if it answers, the backup otherwise.\<close>

definition active_exchange :: "('x \<Rightarrow> 'w \<Rightarrow> 'w \<times> pyval res) \<Rightarrow> 'x \<Rightarrow> 'x \<Rightarrow> 'w \<Rightarrow> 'w \<times> 'x" where
  "active_exchange fetch_balance primary backup w =
     (case fetch_balance primary w of (w', Inr _) \<Rightarrow> (w', primary) | (w', Inl _) \<Rightarrow> (w', backup))"

section \<open>Witnesses\<close>

definition sample_limiter :: limiter where
  "sample_limiter = \<lparr>rl_rate = Fin 2, rl_capacity = Fin 2, rl_tokens = Fin 2, rl_last = Fin 0\<rparr>"

lemma sample_limiter_ok: "limiter_ok sample_limiter" "new_limiter (Fin 2) None (Fin 0) = Inr sample_limiter"
  by (simp_all add: limiter_ok_def sample_limiter_def new_limiter_def py_int_of_float_def py_trunc_def)

theorem grants_bounded_by_rate_witness:
  "length (filter id (drop 3 (try_all [0, 0, 0, 100, 100, 100, 101] sample_limiter))) \<le> 4"
proof -
  have "real (length (filter id (drop (length [0, 0, 0 :: real])
      (try_all ([0, 0, 0] @ 100 # [100, 100, 101]) sample_limiter)))) \<le> 4"
    using grants_bounded_by_rate [OF sample_limiter_ok(1), of 0 "[0, 0, 0]" 100 "[100, 100, 101]"]
    by (simp add: sample_limiter_def del: try_all.simps)
  then show ?thesis by (simp add: numeral_3_eq_3 del: try_all.simps)
qed

theorem acquire_returns_witness:
  "\<exists>l1 wait. wait_time (Fin 0) (sample_limiter\<lparr>rl_tokens := Fin 0\<rparr>) = (l1, Inr (Fin wait)) \<and> 0 \<le> wait"
  using acquire_returns [OF sample_limiter_ok(2), of "sample_limiter\<lparr>rl_tokens := Fin 0\<rparr>" 0]
  by (auto simp: sample_limiter_def limiter_ok_def)

theorem breaker_refines_promise_witness:
  "run_events (view_step 2 (Fin 60)) \<lparr>v_failures = 0, v_last = None, v_probed = False\<rparr>
     [Failure (Fin 1), Failure (Fin 2), Ask (Fin 30), Ask (Fin 62), Failure (Fin 63), Ask (Fin 64)] =
   (\<lparr>v_failures = 3, v_last = Some (Fin 63), v_probed = False\<rparr>,
    [None, None, Some (Inr False), Some (Inr True), None, Some (Inr False)])"
  by (rule breaker_refines_promise [of 2 "Fin 60" _
      "\<lparr>cb_threshold = 2, cb_timeout = Fin 60, cb_failures = 3, cb_last = Some (Fin 63), cb_state = OPEN\<rparr>",
      THEN conjunct1, unfolded view_of_def, simplified])
    (simp add: breaker_step_def call_allowed_def record_failure_def new_breaker_def Let_def)

theorem retry_outcome_witness:
  "engine_execute 2 (Fin 1) (\<lambda>n. (Suc n, Inl (KeyError [])) :: nat \<times> unit res) 0 =
     (2, [Fin 1, Fin 2], Inl (RuntimeError (text_msg ''Max retry attempts exceeded'')))"
proof -
  let ?f = "\<lambda>n. (Suc n, Inl (KeyError [])) :: nat \<times> unit res"
  have r: "\<not> is_ok (result_at ?f k 0)" for k by (simp add: result_at_def)
  have w: "world_after ?f 2 0 = 2" by (simp add: world_after_def numeral_2_eq_2)
  have "nat 2 = 2" by simp
  from retry_outcome [of 2 ?f 0 "Fin 1"] show ?thesis by (simp add: r w upt_rec)
qed

end
