(* ===== verification/Py_Time.thy ===== *)
theory Py_Time
  imports Prelude
begin

text \<open>
  Python's \<open>datetime\<close> as far as the code uses it: the calendar fields with an optional
  offset from UTC in minutes, \<open>isoformat\<close>, \<open>fromisoformat\<close> on the formats of Python 3.10,
  and the instant in microseconds that comparisons and differences are about. The round trip
  \<open>fromisoformat_isoformat\<close> is what the order codec rests on.
\<close>

section \<open>Calendar\<close>

datatype datetime =
  DT (dt_year: nat) (dt_month: nat) (dt_day: nat)
     (dt_hour: nat) (dt_minute: nat) (dt_second: nat) (dt_micro: nat)
     (dt_offset: "int option")

definition leap_year :: "nat \<Rightarrow> bool" where
  "leap_year y = (y mod 4 = 0 \<and> (y mod 100 \<noteq> 0 \<or> y mod 400 = 0))"

definition days_in_month :: "nat \<Rightarrow> nat \<Rightarrow> nat" where
  "days_in_month y m =
     (if m = 2 then (if leap_year y then 29 else 28)
      else if m \<in> {4, 6, 9, 11} then 30 else 31)"

definition valid_datetime :: "datetime \<Rightarrow> bool" where
  "valid_datetime d \<longleftrightarrow>
     1 \<le> dt_year d \<and> dt_year d \<le> 9999 \<and> 1 \<le> dt_month d \<and> dt_month d \<le> 12 \<and>
     1 \<le> dt_day d \<and> dt_day d \<le> days_in_month (dt_year d) (dt_month d) \<and>
     dt_hour d < 24 \<and> dt_minute d < 60 \<and> dt_second d < 60 \<and> dt_micro d < 1000000 \<and>
     (case dt_offset d of None \<Rightarrow> True | Some z \<Rightarrow> - 1440 < z \<and> z < 1440)"

text \<open>Days before the given date, counted from the first of January of year one.\<close>

definition days_before_year :: "nat \<Rightarrow> nat" where
  "days_before_year y = (let p = y - 1 in p * 365 + p div 4 - p div 100 + p div 400)"

definition days_before_month :: "nat \<Rightarrow> nat \<Rightarrow> nat" where
  "days_before_month y m = sum_list (map (days_in_month y) [1..<m])"

text \<open>The instant in microseconds, the offset taken off.\<close>

definition instant :: "datetime \<Rightarrow> int" where
  "instant d =
     (let days = int (days_before_year (dt_year d) + days_before_month (dt_year d) (dt_month d) + dt_day d - 1);
          secs = days * 86400 + int (dt_hour d) * 3600 + int (dt_minute d) * 60 + int (dt_second d);
          off = (case dt_offset d of None \<Rightarrow> 0 | Some z \<Rightarrow> z * 60)
      in (secs - off) * 1000000 + int (dt_micro d))"

section \<open>Text form\<close>

fun pad_nat :: "nat \<Rightarrow> nat \<Rightarrow> string" where
  "pad_nat 0 n = []"
| "pad_nat (Suc k) n = pad_nat k (n div 10) @ [digit_char (n mod 10)]"

definition isoformat :: "datetime \<Rightarrow> string" where
  "isoformat d =
     pad_nat 4 (dt_year d) @ ''-'' @ pad_nat 2 (dt_month d) @ ''-'' @ pad_nat 2 (dt_day d) @ ''T'' @
     pad_nat 2 (dt_hour d) @ '':'' @ pad_nat 2 (dt_minute d) @ '':'' @ pad_nat 2 (dt_second d) @
     (if dt_micro d = 0 then [] else ''.'' @ pad_nat 6 (dt_micro d)) @
     (case dt_offset d of
        None \<Rightarrow> []
      | Some z \<Rightarrow> (if z < 0 then ''-'' else ''+'') @
          pad_nat 2 (nat \<bar>z\<bar> div 60) @ '':'' @ pad_nat 2 (nat \<bar>z\<bar> mod 60))"

text \<open>A field of exactly \<open>k\<close> digits, and a literal character.\<close>

definition take_num :: "nat \<Rightarrow> string \<Rightarrow> (nat \<times> string) option" where
  "take_num k s =
     (let t = take k s in
      if length t = k \<and> list_all is_digit t
      then Some (digits_val (map digit_val t), drop k s) else None)"

definition take_char :: "char \<Rightarrow> string \<Rightarrow> string option" where
  "take_char c s = (if s \<noteq> [] \<and> hd s = c then Some (tl s) else None)"

definition take_date :: "string \<Rightarrow> ((nat \<times> nat \<times> nat) \<times> string) option" where
  "take_date s =
     Option.bind (take_num 4 s) (\<lambda>(y, s). Option.bind (take_char CHR ''-'' s) (\<lambda>s.
     Option.bind (take_num 2 s) (\<lambda>(m, s). Option.bind (take_char CHR ''-'' s) (\<lambda>s.
     map_option (\<lambda>(d, s). ((y, m, d), s)) (take_num 2 s)))))"

text \<open>Hours, then optionally minutes, seconds and three or six digits of a second.\<close>

definition take_time :: "string \<Rightarrow> ((nat \<times> nat \<times> nat \<times> nat) \<times> string) option" where
  "take_time s =
     Option.bind (take_num 2 s) (\<lambda>(h, s).
       case take_char CHR '':'' s of None \<Rightarrow> Some ((h, 0, 0, 0), s) | Some s \<Rightarrow>
     Option.bind (take_num 2 s) (\<lambda>(mi, s).
       case take_char CHR '':'' s of None \<Rightarrow> Some ((h, mi, 0, 0), s) | Some s \<Rightarrow>
     Option.bind (take_num 2 s) (\<lambda>(sec, s).
       case take_char CHR ''.'' s of None \<Rightarrow> Some ((h, mi, sec, 0), s) | Some s \<Rightarrow>
     (case take_num 6 s of
        Some (us, s) \<Rightarrow> Some ((h, mi, sec, us), s)
      | None \<Rightarrow> map_option (\<lambda>(ms, s). ((h, mi, sec, 1000 * ms), s)) (take_num 3 s)))))"

definition take_offset :: "string \<Rightarrow> int option option" where
  "take_offset s =
     (if s = [] then Some None
      else if hd s \<noteq> CHR ''+'' \<and> hd s \<noteq> CHR ''-'' then None
      else Option.bind (take_num 2 (tl s)) (\<lambda>(h, t). Option.bind (take_char CHR '':'' t) (\<lambda>t.
           Option.bind (take_num 2 t) (\<lambda>(m, t).
             if t \<noteq> [] then None
             else Some (Some ((if hd s = CHR ''-'' then - 1 else 1) * int (60 * h + m)))))))"

text \<open>\<open>None\<close> is the \<open>ValueError\<close> of a malformed text or of fields out of range.\<close>

definition check_datetime :: "datetime \<Rightarrow> datetime option" where
  "check_datetime d = (if valid_datetime d then Some d else None)"

definition fromisoformat :: "string \<Rightarrow> datetime option" where
  "fromisoformat s =
     Option.bind (take_date s) (\<lambda>((y, m, d), s).
       if s = [] then check_datetime (DT y m d 0 0 0 0 None)
       else Option.bind (take_time (tl s)) (\<lambda>((h, mi, sec, us), s).
            Option.bind (take_offset s) (\<lambda>z. check_datetime (DT y m d h mi sec us z))))"

text \<open>\<open>s.replace("Z", "+00:00")\<close>.\<close>

definition replace_Z :: "string \<Rightarrow> string" where
  "replace_Z s = concat (map (\<lambda>c. if c = CHR ''Z'' then ''+00:00'' else [c]) s)"

section \<open>Round trip\<close>

lemma length_pad_nat [simp]: "length (pad_nat k n) = k"
  by (induction k arbitrary: n) auto

lemma pad_nat_digits [simp]: "list_all is_digit (pad_nat k n)"
  by (induction k arbitrary: n) auto

lemma digits_val_pad_nat: "n < 10 ^ k \<Longrightarrow> digits_val (map digit_val (pad_nat k n)) = n"
proof (induction k arbitrary: n)
  case (Suc k)
  then have "n div 10 < 10 ^ k" by (simp add: less_mult_imp_div_less mult.commute)
  then have "digits_val (map digit_val (pad_nat k (n div 10))) = n div 10" by (rule Suc.IH)
  then show ?case by (simp add: digits_val_def)
qed (simp add: digits_val_def)

lemma take_num_pad [simp]: "n < 10 ^ k \<Longrightarrow> take_num k (pad_nat k n @ s) = Some (n, s)"
  by (simp add: take_num_def digits_val_pad_nat)

lemma take_num_pad_end [simp]: "n < 10 ^ k \<Longrightarrow> take_num k (pad_nat k n) = Some (n, [])"
  using take_num_pad [of n k "[]"] by simp

lemma take_char_simps [simp]:
  "take_char c (c # s) = Some s"
  "d \<noteq> c \<Longrightarrow> take_char c (d # s) = None"
  "take_char c [] = None"
  by (simp_all add: take_char_def)

lemma isoformat_nonempty [simp]: "isoformat d \<noteq> []"
  by (simp add: isoformat_def)

lemma days_in_month_le: "days_in_month y m \<le> 31"
  by (simp add: days_in_month_def)

lemma take_date_iso:
  assumes "y < 10000" "m < 100" "d < 100"
  shows "take_date (pad_nat 4 y @ ''-'' @ pad_nat 2 m @ ''-'' @ pad_nat 2 d @ s) = Some ((y, m, d), s)"
  using assms by (simp add: take_date_def)

lemma take_offset_iso:
  assumes "case z of None \<Rightarrow> True | Some z \<Rightarrow> - 1440 < z \<and> z < 1440"
  shows "take_offset (case z of None \<Rightarrow> []
      | Some z \<Rightarrow> (if z < 0 then ''-'' else ''+'') @
          pad_nat 2 (nat \<bar>z\<bar> div 60) @ '':'' @ pad_nat 2 (nat \<bar>z\<bar> mod 60)) = Some z"
proof (cases z)
  case (Some i)
  define n where "n = nat \<bar>i\<bar>"
  have n: "n div 60 < 10 ^ 2" "n mod 60 < 10 ^ 2"
    using assms Some by (auto simp: n_def less_mult_imp_div_less intro: less_trans [of _ 60])
  have i: "i = (if i < 0 then - int n else int n)" by (simp add: n_def)
  have "take_offset ((if i < 0 then ''-'' else ''+'') @
      pad_nat 2 (n div 60) @ '':'' @ pad_nat 2 (n mod 60)) = Some (Some i)"
    using n by (subst (2) i) (simp add: take_offset_def)
  then show ?thesis by (simp add: Some n_def)
qed (simp add: take_offset_def)

lemma take_time_iso:
  assumes "h < 100" "mi < 100" "sec < 100" "us < 1000000"
    and "s = [] \<or> (hd s \<noteq> CHR ''.'' \<and> hd s \<noteq> CHR '':'')"
  shows "take_time (pad_nat 2 h @ '':'' @ pad_nat 2 mi @ '':'' @ pad_nat 2 sec @
    (if us = 0 then [] else ''.'' @ pad_nat 6 us) @ s) = Some ((h, mi, sec, us), s)"
  using assms by (cases s) (auto simp: take_time_def)

theorem fromisoformat_isoformat:
  assumes "valid_datetime d" shows "fromisoformat (isoformat d) = Some d"
proof -
  let ?off = "case dt_offset d of None \<Rightarrow> []
      | Some z \<Rightarrow> (if z < 0 then ''-'' else ''+'') @
          pad_nat 2 (nat \<bar>z\<bar> div 60) @ '':'' @ pad_nat 2 (nat \<bar>z\<bar> mod 60)"
  have day: "dt_day d \<le> 31"
    using assms days_in_month_le order_trans unfolding valid_datetime_def by blast
  have hd_off: "?off = [] \<or> (hd ?off \<noteq> CHR ''.'' \<and> hd ?off \<noteq> CHR '':'')"
    by (auto split: option.splits)
  have date: "take_date (isoformat d) = Some ((dt_year d, dt_month d, dt_day d),
      ''T'' @ pad_nat 2 (dt_hour d) @ '':'' @ pad_nat 2 (dt_minute d) @ '':'' @
      pad_nat 2 (dt_second d) @ (if dt_micro d = 0 then [] else ''.'' @ pad_nat 6 (dt_micro d)) @ ?off)"
    unfolding isoformat_def using assms day
    by (intro take_date_iso) (auto simp: valid_datetime_def)
  have time: "take_time (pad_nat 2 (dt_hour d) @ '':'' @ pad_nat 2 (dt_minute d) @ '':'' @
      pad_nat 2 (dt_second d) @ (if dt_micro d = 0 then [] else ''.'' @ pad_nat 6 (dt_micro d)) @ ?off)
      = Some ((dt_hour d, dt_minute d, dt_second d, dt_micro d), ?off)"
    using assms hd_off by (intro take_time_iso) (auto simp: valid_datetime_def)
  have off: "take_offset ?off = Some (dt_offset d)"
    using assms by (intro take_offset_iso) (simp add: valid_datetime_def)
  show ?thesis
    by (simp only: fromisoformat_def date) (simp add: time [simplified] off [simplified] check_datetime_def assms)
qed

section \<open>The calendar date of an instant\<close>

text \<open>
  \<open>datetime.fromtimestamp(seconds, tz=utc)\<close> and \<open>astimezone(utc)\<close> turn an instant back into
  calendar fields; outside the years one to 9999 they raise.
\<close>

definition year_length :: "nat \<Rightarrow> nat" where
  "year_length y = (if leap_year y then 366 else 365)"

function year_from :: "nat \<Rightarrow> nat \<Rightarrow> nat \<times> nat" where
  "year_from y d = (if d < year_length y then (y, d) else year_from (Suc y) (d - year_length y))"
  by auto
termination by (relation "measure snd") (auto simp: year_length_def split: if_splits)

function month_from :: "nat \<Rightarrow> nat \<Rightarrow> nat \<Rightarrow> nat \<times> nat" where
  "month_from y m d =
     (if 12 \<le> m \<or> d < days_in_month y m then (m, d) else month_from y (Suc m) (d - days_in_month y m))"
  by auto
termination by (relation "measure (\<lambda>(y, m, d). 12 - m)") auto

declare year_from.simps [simp del] month_from.simps [simp del]

definition datetime_of_instant :: "int \<Rightarrow> datetime option" where
  "datetime_of_instant i =
     (if i < 0 then None
      else (let us = nat (i mod 1000000); secs = nat (i div 1000000);
                (y, d) = year_from 1 (secs div 86400);
                (m, k) = month_from y 1 d;
                t = secs mod 86400
            in if 9999 < y then None
               else Some (DT y m (Suc k) (t div 3600) (t mod 3600 div 60) (t mod 60) us None)))"

text \<open>The instant of the first of January 1970.\<close>

definition epoch :: int where
  "epoch = instant (DT 1970 1 1 0 0 0 0 None)"

definition fromtimestamp :: "pyfloat \<Rightarrow> datetime res" where
  "fromtimestamp x =
     (case x of
        Fin r \<Rightarrow>
          (case datetime_of_instant (epoch + round_half_even (r * 1000000)) of
             None \<Rightarrow> Inl (ValueError (text_msg ''year is out of range''))
           | Some d \<Rightarrow> Inr d)
      | NaN \<Rightarrow> Inl (ValueError (text_msg ''cannot convert float NaN to integer''))
      | _ \<Rightarrow> Inl (OtherError (text_msg ''cannot convert float infinity to integer'')))"

lemma days_before_year_Suc: "1 \<le> y \<Longrightarrow> days_before_year (Suc y) = days_before_year y + year_length y"
proof -
  assume "1 \<le> y"
  then obtain p where y: "y = Suc p" by (cases y) auto
  have le: "p div 100 \<le> p div 4" by (intro div_le_mono2) simp_all
  have four: "Suc p mod 100 = 0 \<Longrightarrow> Suc p mod 4 = 0" "Suc p mod 400 = 0 \<Longrightarrow> Suc p mod 100 = 0"
    using dvd_trans [of 4 100 "Suc p"] dvd_trans [of 100 400 "Suc p"] by (auto simp: mod_eq_0_iff_dvd)
  show ?thesis unfolding y using le four
    by (auto simp: days_before_year_def year_length_def leap_year_def Let_def div_Suc algebra_simps)
qed

lemma year_from_ok:
  "1 \<le> y \<Longrightarrow> year_from y d = (y', d') \<Longrightarrow>
     y \<le> y' \<and> d' < year_length y' \<and> days_before_year y + d = days_before_year y' + d'"
proof (induction y d rule: year_from.induct)
  case (1 y d)
  show ?case
  proof (cases "d < year_length y")
    case True
    with 1 show ?thesis by (simp add: year_from.simps [of y d])
  next
    case False
    with 1 have "Suc y \<le> y' \<and> d' < year_length y' \<and>
        days_before_year (Suc y) + (d - year_length y) = days_before_year y' + d'"
      by (simp add: year_from.simps [of y d])
    with False days_before_year_Suc [OF 1(2)] show ?thesis by simp
  qed
qed

lemma days_before_month_Suc: "1 \<le> m \<Longrightarrow> days_before_month y (Suc m) = days_before_month y m + days_in_month y m"
  by (simp add: days_before_month_def)

lemma days_before_year_end: "days_before_month y 12 + 31 = year_length y"
  by (simp add: days_before_month_def days_in_month_def year_length_def upt_rec)

lemma month_from_ok:
  "1 \<le> m \<Longrightarrow> m \<le> 12 \<Longrightarrow> days_before_month y m + d < year_length y \<Longrightarrow> month_from y m d = (m', d') \<Longrightarrow>
     m \<le> m' \<and> m' \<le> 12 \<and> d' < days_in_month y m' \<and> days_before_month y m + d = days_before_month y m' + d'"
proof (induction y m d rule: month_from.induct)
  case (1 y m d)
  show ?case
  proof (cases "12 \<le> m \<or> d < days_in_month y m")
    case True
    with 1 days_before_year_end [of y] show ?thesis
      by (auto simp: month_from.simps [of y m d] days_in_month_def)
  next
    case False
    with 1 days_before_month_Suc [of m y] have "Suc m \<le> m' \<and> m' \<le> 12 \<and> d' < days_in_month y m' \<and>
        days_before_month y (Suc m) + (d - days_in_month y m) = days_before_month y m' + d'"
      by (simp add: month_from.simps [of y m d])
    with False 1(2) days_before_month_Suc [of m y] show ?thesis by simp
  qed
qed

lemma datetime_of_instant_ok:
  assumes "datetime_of_instant i = Some d"
  shows "valid_datetime d \<and> dt_offset d = None \<and> instant d = i"
proof -
  define us secs where "us = nat (i mod 1000000)" and "secs = nat (i div 1000000)"
  obtain y k where yk: "year_from 1 (secs div 86400) = (y, k)" by fastforce
  obtain m l where ml: "month_from y 1 k = (m, l)" by fastforce
  define t where "t = secs mod 86400"
  have i: "0 \<le> i" "y \<le> 9999" and d: "d = DT y m (Suc l) (t div 3600) (t mod 3600 div 60) (t mod 60) us None"
    using assms yk ml by (auto simp: datetime_of_instant_def us_def secs_def t_def Let_def split: if_splits)
  have y: "1 \<le> y \<and> k < year_length y \<and> secs div 86400 = days_before_year y + k"
    using year_from_ok [OF _ yk] by (simp add: days_before_year_def)
  have m: "1 \<le> m \<and> m \<le> 12 \<and> l < days_in_month y m \<and> k = days_before_month y m + l"
    using month_from_ok [OF _ _ _ ml] y by (simp add: days_before_month_def)
  have i_eq: "i = int secs * 1000000 + int us" using i(1) by (simp add: us_def secs_def pos_imp_zdiv_nonneg_iff)
  have "secs = (secs div 86400) * 86400 + t" by (simp add: t_def)
  moreover have "t = (t div 3600) * 3600 + (t mod 3600 div 60) * 60 + t mod 60"
  proof -
    have "t mod 3600 mod 60 = t mod 60" by (rule mod_mod_cancel) simp
    then show ?thesis
      using div_mult_mod_eq [of t 3600] div_mult_mod_eq [of "t mod 3600" 60] by linarith
  qed
  ultimately have "instant d = i"
    unfolding i_eq d instant_def using y m by (simp add: Let_def)
  moreover have "valid_datetime d"
    using y m i unfolding d valid_datetime_def by (auto simp: us_def t_def less_mult_imp_div_less)
  ultimately show ?thesis by (simp add: d)
qed

end
