(* ===== verification/Orders.thy ===== *)
theory Orders
  imports Py_Time
begin

text \<open>
  The data that travels between the components: orders, signals, execution reports and trades
  (\<open>models/order.py\<close>, \<open>models/signal.py\<close>, \<open>models/execution_report.py\<close>,
  \<open>models/trade.py\<close>). Fields the code fills from untyped payloads (\<open>exchange\<close>, the order
  and strategy ids) hold a \<open>pyval\<close>. Fresh identifiers and clock readings, which the code
  takes from \<open>uuid4\<close> and \<open>utcnow\<close>, are arguments.
\<close>

section \<open>Enumerations\<close>

datatype order_side = BUY | SELL

datatype order_type = MARKET | LIMIT

datatype order_status =
    CREATED | VALIDATED | ROUTED | SUBMITTED | PARTIALLY_FILLED
  | FILLED | CANCELLED | FAILED | REJECTED

text \<open>\<open>.value\<close> of a member, and the member of a value, which raises for any other text.\<close>

fun side_value :: "order_side \<Rightarrow> string" where
  "side_value BUY = ''BUY''"
| "side_value SELL = ''SELL''"

definition side_of :: "string \<Rightarrow> order_side res" where
  "side_of s = (if s = ''BUY'' then Inr BUY else if s = ''SELL'' then Inr SELL
                else Inl (ValueError [Str s, Txt '' is not a valid OrderSide'']))"

fun type_value :: "order_type \<Rightarrow> string" where
  "type_value MARKET = ''MARKET''"
| "type_value LIMIT = ''LIMIT''"

definition type_of :: "string \<Rightarrow> order_type res" where
  "type_of s = (if s = ''MARKET'' then Inr MARKET else if s = ''LIMIT'' then Inr LIMIT
                else Inl (ValueError [Str s, Txt '' is not a valid OrderType'']))"

fun status_value :: "order_status \<Rightarrow> string" where
  "status_value CREATED = ''CREATED''"
| "status_value VALIDATED = ''VALIDATED''"
| "status_value ROUTED = ''ROUTED''"
| "status_value SUBMITTED = ''SUBMITTED''"
| "status_value PARTIALLY_FILLED = ''PARTIALLY_FILLED''"
| "status_value FILLED = ''FILLED''"
| "status_value CANCELLED = ''CANCELLED''"
| "status_value FAILED = ''FAILED''"
| "status_value REJECTED = ''REJECTED''"

definition all_statuses :: "order_status list" where
  "all_statuses = [CREATED, VALIDATED, ROUTED, SUBMITTED, PARTIALLY_FILLED,
                   FILLED, CANCELLED, FAILED, REJECTED]"

definition status_of :: "string \<Rightarrow> order_status res" where
  "status_of s = (case find (\<lambda>st. status_value st = s) all_statuses of
                    Some st \<Rightarrow> Inr st
                  | None \<Rightarrow> Inl (ValueError [Str s, Txt '' is not a valid OrderStatus'']))"

lemma side_roundtrip [simp]: "side_of (side_value s) = Inr s"
  by (cases s) (simp_all add: side_of_def)

lemma type_roundtrip [simp]: "type_of (type_value t) = Inr t"
  by (cases t) (simp_all add: type_of_def)

lemma status_roundtrip [simp]: "status_of (status_value st) = Inr st"
  by (cases st) (simp_all add: status_of_def all_statuses_def)

lemma values_upper [simp]:
  "str_upper (side_value s) = side_value s"
  "str_upper (type_value t) = type_value t"
  "str_upper (status_value st) = status_value st"
  by (cases s; cases t; cases st; simp add: str_simps)+

section \<open>Orders\<close>

record order =
  o_symbol :: string
  o_side :: order_side
  o_quantity :: pyfloat
  o_type :: order_type
  o_price :: "pyfloat option"
  o_exchange :: pyval
  o_status :: order_status
  o_filled :: pyfloat
  o_avg_price :: pyfloat
  o_exchange_id :: pyval
  o_strategy_id :: pyval
  o_correlation_id :: "string option"
  o_created_at :: datetime
  o_updated_at :: datetime

text \<open>The constructor with the defaults of the dataclass.\<close>

definition new_order ::
  "string \<Rightarrow> order_side \<Rightarrow> pyfloat \<Rightarrow> order_type \<Rightarrow> pyfloat option \<Rightarrow> pyval \<Rightarrow> string \<Rightarrow> datetime \<Rightarrow> order" where
  "new_order symb side qty ty price strategy cid now =
     \<lparr>o_symbol = symb, o_side = side, o_quantity = qty, o_type = ty, o_price = price,
      o_exchange = VNone, o_status = CREATED, o_filled = Fin 0, o_avg_price = Fin 0,
      o_exchange_id = VNone, o_strategy_id = strategy, o_correlation_id = Some cid,
      o_created_at = now, o_updated_at = now\<rparr>"

definition terminal_status :: "order_status \<Rightarrow> bool" where
  "terminal_status st \<longleftrightarrow> st \<in> {FILLED, CANCELLED, REJECTED, FAILED}"

definition is_complete :: "order \<Rightarrow> bool" where
  "is_complete ord = terminal_status (o_status ord)"

section \<open>Signals\<close>

record trade_signal =
  s_symbol :: string
  s_side :: order_side
  s_quantity :: pyfloat
  s_type :: order_type
  s_price :: "pyfloat option"
  s_strategy_id :: pyval
  s_reason :: message
  s_confidence :: "pyfloat option"

text \<open>\<open>TradeSignal.validate\<close>: the checks in the code's order.\<close>

definition signal_validate :: "trade_signal \<Rightarrow> unit res" where
  "signal_validate s = check_all
     [(s_symbol s = [], ''Signal symbol is required''),
      (s_quantity s \<le> Fin 0, ''Signal quantity must be positive''),
      (s_type s = LIMIT \<and> (case s_price s of None \<Rightarrow> True | Some p \<Rightarrow> p \<le> Fin 0),
       ''Limit signal requires a positive price''),
      ((case s_confidence s of None \<Rightarrow> False | Some c \<Rightarrow> \<not> (Fin 0 \<le> c \<and> c \<le> Fin 1)),
       ''Signal confidence must be in [0, 1]'')]"

definition to_order :: "trade_signal \<Rightarrow> string \<Rightarrow> datetime \<Rightarrow> order res" where
  "to_order s cid now =
     rbind (signal_validate s) (\<lambda>_.
       Inr (new_order (s_symbol s) (s_side s) (s_quantity s) (s_type s) (s_price s)
              (s_strategy_id s) cid now))"

section \<open>Execution reports\<close>

record execution_report =
  r_symbol :: string
  r_side :: string
  r_requested :: pyfloat
  r_filled :: pyfloat
  r_avg_price :: pyfloat
  r_status :: order_status
  r_exchange :: pyval
  r_exchange_id :: pyval
  r_correlation_id :: "string option"
  r_fee :: pyfloat
  r_raw :: pyval
  r_timestamp :: datetime

definition has_fill :: "execution_report \<Rightarrow> bool" where
  "has_fill r \<longleftrightarrow> Fin 0 < r_filled r"

definition report_is_terminal :: "execution_report \<Rightarrow> bool" where
  "report_is_terminal r = terminal_status (r_status r)"

definition opt_str :: "string option \<Rightarrow> pyval" where
  "opt_str s = (case s of None \<Rightarrow> VNone | Some x \<Rightarrow> VStr x)"

definition opt_float :: "pyfloat option \<Rightarrow> pyval" where
  "opt_float x = (case x of None \<Rightarrow> VNone | Some f \<Rightarrow> VFloat f)"

definition report_to_dict :: "execution_report \<Rightarrow> (string \<times> pyval) list" where
  "report_to_dict r =
     [(''symbol'', VStr (r_symbol r)), (''side'', VStr (r_side r)),
      (''requested_quantity'', VFloat (r_requested r)),
      (''filled_quantity'', VFloat (r_filled r)),
      (''average_fill_price'', VFloat (r_avg_price r)),
      (''status'', VStr (status_value (r_status r))),
      (''exchange'', r_exchange r), (''exchange_order_id'', r_exchange_id r),
      (''correlation_id'', opt_str (r_correlation_id r)), (''fee'', VFloat (r_fee r)),
      (''timestamp'', VStr (isoformat (r_timestamp r)))]"

section \<open>Trades\<close>

record trade =
  t_symbol :: string
  t_side :: string
  t_quantity :: pyfloat
  t_price :: pyfloat
  t_exchange :: pyval
  t_pnl :: pyfloat
  t_fee :: pyfloat
  t_strategy_id :: pyval
  t_order_id :: pyval
  t_id :: string
  t_timestamp :: datetime

definition trade_notional :: "trade \<Rightarrow> pyfloat" where
  "trade_notional t = t_quantity t * t_price t"

definition trade_to_dict :: "trade \<Rightarrow> (string \<times> pyval) list" where
  "trade_to_dict t =
     [(''trade_id'', VStr (t_id t)), (''order_id'', t_order_id t), (''symbol'', VStr (t_symbol t)),
      (''side'', VStr (t_side t)), (''quantity'', VFloat (t_quantity t)), (''price'', VFloat (t_price t)),
      (''exchange'', t_exchange t), (''pnl'', VFloat (t_pnl t)), (''fee'', VFloat (t_fee t)),
      (''strategy_id'', t_strategy_id t), (''timestamp'', VStr (isoformat (t_timestamp t)))]"

section \<open>Lemmas\<close>

lemma signal_validate_ok:
  "signal_validate s = Inr () \<longleftrightarrow>
     s_symbol s \<noteq> [] \<and> \<not> s_quantity s \<le> Fin 0 \<and>
     (s_type s = LIMIT \<longrightarrow> (\<exists>p. s_price s = Some p \<and> \<not> p \<le> Fin 0)) \<and>
     (\<forall>c. s_confidence s = Some c \<longrightarrow> Fin 0 \<le> c \<and> c \<le> Fin 1)"
  by (auto simp: signal_validate_def res_simps split: option.splits)

lemma to_order_ok:
  "to_order s cid now = Inr ord \<longleftrightarrow>
     signal_validate s = Inr () \<and>
     ord = new_order (s_symbol s) (s_side s) (s_quantity s) (s_type s) (s_price s)
             (s_strategy_id s) cid now"
  by (auto simp: to_order_def res_simps)

lemma has_fill_num: "has_fill r \<Longrightarrow> is_num (r_filled r)"
  unfolding has_fill_def by (blast dest: pyfloat_lessD_num)

end
