(* ===== verification/Position_Ledger.thy ===== *)
theory Position_Ledger
  imports Orders
begin

text \<open>
  Positions (\<open>models/position.py\<close>) and the ledger that fills update
  (\<open>portfolio/position_ledger.py\<close>). The lemmas give the ledger's well-formedness invariant,
  the cash accounting of fills, and the snapshot round trip. The locale \<open>position_book\<close> is the
  contract the fill processor and the pipeline use.
\<close>

section \<open>Positions\<close>

record position =
  p_symbol :: string
  p_quantity :: pyfloat
  p_avg_entry :: pyfloat
  p_realized :: pyfloat
  p_unrealized :: pyfloat
  p_updated_at :: datetime

definition new_position :: "string \<Rightarrow> datetime \<Rightarrow> position" where
  "new_position s now =
     \<lparr>p_symbol = s, p_quantity = Fin 0, p_avg_entry = Fin 0, p_realized = Fin 0,
      p_unrealized = Fin 0, p_updated_at = now\<rparr>"

definition position_side :: "position \<Rightarrow> string" where
  "position_side p =
     (if Fin 0 < p_quantity p then ''LONG''
      else if p_quantity p < Fin 0 then ''SHORT'' else ''FLAT'')"

definition exposure :: "position \<Rightarrow> pyfloat option \<Rightarrow> pyfloat" where
  "exposure p mark =
     (let price = (case mark of None \<Rightarrow> p_avg_entry p | Some m \<Rightarrow> m) in \<bar>p_quantity p * price\<bar>)"

definition signed_notional :: "position \<Rightarrow> pyfloat option \<Rightarrow> pyfloat" where
  "signed_notional p mark =
     (let price = (case mark of None \<Rightarrow> p_avg_entry p | Some m \<Rightarrow> m) in p_quantity p * price)"

definition mark_to_market :: "position \<Rightarrow> pyfloat \<Rightarrow> datetime \<Rightarrow> position" where
  "mark_to_market p mark now =
     p\<lparr>p_unrealized :=
         (if Fin 0 < p_quantity p then (mark - p_avg_entry p) * p_quantity p
          else if p_quantity p < Fin 0 then (p_avg_entry p - mark) * \<bar>p_quantity p\<bar>
          else Fin 0),
       p_updated_at := now\<rparr>"

definition position_to_dict :: "position \<Rightarrow> (string \<times> pyval) list" where
  "position_to_dict p =
     [(''symbol'', VStr (p_symbol p)), (''quantity'', VFloat (p_quantity p)),
      (''average_entry'', VFloat (p_avg_entry p)), (''realized_pnl'', VFloat (p_realized p)),
      (''unrealized_pnl'', VFloat (p_unrealized p)), (''side'', VStr (position_side p)),
      (''updated_at'', VStr (isoformat (p_updated_at p)))]"

section \<open>The ledger\<close>

record ledger =
  l_positions :: "(string, position) pydict"
  l_trades :: "trade list"
  l_realized :: pyfloat

definition new_ledger :: ledger where
  "new_ledger = \<lparr>l_positions = [], l_trades = [], l_realized = Fin 0\<rparr>"

definition EPSILON :: pyfloat where
  "EPSILON = Fin (1 / 10 ^ 12)"

text \<open>\<open>_apply_signed_fill\<close>: the position after the fill, and the profit it realizes.\<close>

definition apply_signed_fill ::
  "position \<Rightarrow> pyfloat \<Rightarrow> pyfloat \<Rightarrow> pyfloat \<Rightarrow> position \<times> pyfloat" where
  "apply_signed_fill p delta price fee =
     (let current = p_quantity p in
      if \<bar>current\<bar> \<le> EPSILON
      then (p\<lparr>p_quantity := delta, p_avg_entry := price\<rparr>, - fee)
      else if (Fin 0 < current \<and> Fin 0 < delta) \<or> (current < Fin 0 \<and> delta < Fin 0)
      then (let new_abs = \<bar>current\<bar> + \<bar>delta\<bar>;
                cost = \<bar>current\<bar> * p_avg_entry p + \<bar>delta\<bar> * price
            in (p\<lparr>p_quantity := current + delta, p_avg_entry := cost / new_abs\<rparr>, - fee))
      else
        (let close_qty = py_min \<bar>current\<bar> \<bar>delta\<bar>;
             realized = (if Fin 0 < current then (price - p_avg_entry p) * close_qty
                         else (p_avg_entry p - price) * close_qty);
             remaining = current + delta;
             p' = (if \<bar>remaining\<bar> \<le> EPSILON
                   then p\<lparr>p_quantity := Fin 0, p_avg_entry := Fin 0\<rparr>
                   else if (Fin 0 < current \<and> remaining < Fin 0) \<or> (current < Fin 0 \<and> Fin 0 < remaining)
                   then p\<lparr>p_quantity := remaining, p_avg_entry := price\<rparr>
                   else p\<lparr>p_quantity := remaining\<rparr>);
             net = realized - fee
         in (p'\<lparr>p_realized := p_realized p + net\<rparr>, net)))"

text \<open>The arguments of \<open>apply_fill\<close>, and the identifier its trade gets from \<open>uuid4\<close>.\<close>

record fill =
  f_symbol :: string
  f_side :: string
  f_quantity :: pyfloat
  f_price :: pyfloat
  f_exchange :: pyval
  f_fee :: pyfloat
  f_strategy_id :: pyval
  f_order_id :: pyval
  f_uuid :: string

definition signed_delta :: "fill \<Rightarrow> pyfloat" where
  "signed_delta f = (if str_upper (f_side f) = ''BUY'' then f_quantity f else - f_quantity f)"

definition fill_checks :: "fill \<Rightarrow> unit res" where
  "fill_checks f = check_all
     [(f_symbol f = [], ''symbol is required''),
      (f_quantity f \<le> Fin 0, ''quantity must be positive''),
      (f_price f \<le> Fin 0, ''price must be positive''),
      (str_upper (f_side f) \<notin> {''BUY'', ''SELL''}, ''side must be BUY or SELL'')]"

definition apply_fill :: "ledger \<Rightarrow> fill \<Rightarrow> datetime \<Rightarrow> (ledger \<times> trade) res" where
  "apply_fill l f now =
     rbind (fill_checks f) (\<lambda>_.
       let position = (case map_of (l_positions l) (f_symbol f) of
                         None \<Rightarrow> new_position (f_symbol f) now | Some p \<Rightarrow> p);
           (p1, pnl) = apply_signed_fill position (signed_delta f) (f_price f) (f_fee f);
           p2 = p1\<lparr>p_updated_at := now\<rparr>;
           positions = (if \<bar>p_quantity p2\<bar> \<le> EPSILON
                        then dict_pop (f_symbol f) (l_positions l)
                        else dict_set (f_symbol f) p2 (l_positions l));
           trd = \<lparr>t_symbol = f_symbol f, t_side = str_upper (f_side f), t_quantity = f_quantity f,
                  t_price = f_price f, t_exchange = f_exchange f, t_pnl = pnl, t_fee = f_fee f,
                  t_strategy_id = f_strategy_id f, t_order_id = f_order_id f,
                  t_id = f_uuid f, t_timestamp = now\<rparr>
       in Inr (l\<lparr>l_positions := positions, l_trades := l_trades l @ [trd],
                 l_realized := l_realized l + pnl\<rparr>, trd))"

definition mark_positions :: "ledger \<Rightarrow> (string, pyfloat) pydict \<Rightarrow> datetime \<Rightarrow> ledger" where
  "mark_positions l prices now =
     l\<lparr>l_positions := map (\<lambda>(s, p). (s,
         case map_of prices s of
           None \<Rightarrow> p
         | Some m \<Rightarrow> (if Fin 0 < m then mark_to_market p m now else p))) (l_positions l)\<rparr>"

definition get_position :: "ledger \<Rightarrow> string \<Rightarrow> position option" where
  "get_position l s = map_of (l_positions l) s"

definition positions :: "ledger \<Rightarrow> (string, position) pydict" where
  "positions l = l_positions l"

definition position_quantities :: "ledger \<Rightarrow> (string, pyfloat) pydict" where
  "position_quantities l = map (\<lambda>(s, p). (s, p_quantity p)) (l_positions l)"

definition ledger_snapshot :: "ledger \<Rightarrow> (string \<times> pyval) list" where
  "ledger_snapshot l =
     [(''positions'', VDict (map (\<lambda>(s, p). (s, VDict (position_to_dict p))) (l_positions l))),
      (''trade_count'', VInt (int (length (l_trades l)))),
      (''realized_pnl_total'', VFloat (l_realized l))]"

text \<open>\<open>float(d.get(key, 0.0) or 0.0)\<close>.\<close>

definition float_field :: "(string \<times> pyval) list \<Rightarrow> string \<Rightarrow> pyfloat res" where
  "float_field d k = py_float (py_or (dict_get d k (VFloat (Fin 0))) (VFloat (Fin 0)))"

fun naive :: "datetime \<Rightarrow> datetime" where
  "naive (DT y m d h mi s us z) = DT y m d h mi s us None"

definition restore_time :: "pyval \<Rightarrow> datetime \<Rightarrow> datetime" where
  "restore_time v now =
     (case v of
        VStr s \<Rightarrow> (if s = [] then now
                    else case fromisoformat (replace_Z s) of None \<Rightarrow> now | Some d \<Rightarrow> naive d)
      | _ \<Rightarrow> now)"

text \<open>One entry of the payload; \<open>None\<close> where the loop continues without restoring it.\<close>

definition restore_position :: "string \<Rightarrow> pyval \<Rightarrow> datetime \<Rightarrow> position option" where
  "restore_position s raw now =
     (case raw of
        VDict d \<Rightarrow>
          (case (float_field d ''quantity'', float_field d ''average_entry'',
                 float_field d ''realized_pnl'', float_field d ''unrealized_pnl'') of
             (Inr q, Inr a, Inr r, Inr u) \<Rightarrow>
               if \<bar>q\<bar> \<le> EPSILON \<or> a \<le> Fin 0 then None
               else Some \<lparr>p_symbol = s, p_quantity = q, p_avg_entry = a, p_realized = r,
                          p_unrealized = u, p_updated_at = restore_time (get_val d ''updated_at'') now\<rparr>
           | _ \<Rightarrow> None)
      | _ \<Rightarrow> None)"

fun restore_positions ::
  "(string \<times> pyval) list \<Rightarrow> datetime \<Rightarrow> (string, position) pydict \<Rightarrow> (string, position) pydict" where
  "restore_positions [] now acc = acc"
| "restore_positions ((s, raw) # rest) now acc =
     restore_positions rest now
       (case restore_position s raw now of None \<Rightarrow> acc | Some p \<Rightarrow> dict_set s p acc)"

text \<open>
  \<open>restore_snapshot\<close> returns early on malformed payloads. The positions are replaced before the
  total is converted, so a total that does not convert raises with the positions already restored.
\<close>

definition restore_snapshot :: "ledger \<Rightarrow> pyval \<Rightarrow> datetime \<Rightarrow> ledger \<times> unit res" where
  "restore_snapshot l payload now =
     (case payload of
        VDict d \<Rightarrow>
          (case dict_get d ''positions'' (VDict []) of
             VDict ps \<Rightarrow>
               (let l' = l\<lparr>l_positions := restore_positions ps now []\<rparr> in
                case float_field d ''realized_pnl_total'' of
                  Inl e \<Rightarrow> (l', Inl e)
                | Inr x \<Rightarrow> (l'\<lparr>l_realized := x\<rparr>, Inr ()))
           | _ \<Rightarrow> (l, Inr ()))
      | _ \<Rightarrow> (l, Inr ()))"

section \<open>Well-formed ledgers\<close>

definition position_ok :: "string \<Rightarrow> position \<Rightarrow> bool" where
  "position_ok s p \<longleftrightarrow>
     p_symbol p = s \<and> s \<noteq> [] \<and> \<not> \<bar>p_quantity p\<bar> \<le> EPSILON \<and> \<not> p_avg_entry p \<le> Fin 0"

definition ledger_ok :: "ledger \<Rightarrow> bool" where
  "ledger_ok l \<longleftrightarrow> dict_ok (l_positions l) \<and> (\<forall>(s, p) \<in> set (l_positions l). position_ok s p)"

lemma new_ledger_ok [simp]: "ledger_ok new_ledger"
  by (simp add: ledger_ok_def new_ledger_def)

lemma ledger_ok_lookup:
  "ledger_ok l \<Longrightarrow> map_of (l_positions l) s = Some p \<Longrightarrow> position_ok s p"
  by (auto simp: ledger_ok_def dest!: map_of_SomeD)

lemma EPSILON_pos [simp]: "Fin 0 < EPSILON" "\<bar>Fin 0\<bar> \<le> EPSILON" "Fin 0 \<le> EPSILON"
  by (simp_all add: EPSILON_def)

lemma weighted_average_pos:
  assumes "Fin 0 < x" "Fin 0 < y" "\<not> a \<le> Fin 0" "\<not> b \<le> Fin 0"
  shows "\<not> (x * a + y * b) / (x + y) \<le> Fin 0"
proof (cases "is_fin x \<and> is_fin y \<and> is_fin a \<and> is_fin b")
  case True
  then obtain x' y' a' b' where eqs: "x = Fin x'" "y = Fin y'" "a = Fin a'" "b = Fin b'"
    by (auto simp: is_fin_iff)
  with assms have pos: "0 < x'" "0 < y'" "0 < a'" "0 < b'" by auto
  then have "0 < (x' * a' + y' * b') / (x' + y')" by (intro divide_pos_pos add_pos_pos mult_pos_pos)
  with pos show ?thesis by (simp add: eqs)
next
  case False
  with assms show ?thesis
    by (cases x; cases y; cases a; cases b) (auto simp: signed_inf_def)
qed

lemma apply_signed_fill_symbol:
  "apply_signed_fill p delta price fee = (p', pnl) \<Longrightarrow> p_symbol p' = p_symbol p"
  by (auto simp: apply_signed_fill_def Let_def split: if_splits)

lemma apply_signed_fill_avg:
  assumes step: "apply_signed_fill p delta price fee = (p', pnl)"
    and price: "\<not> price \<le> Fin 0"
    and open_pos: "\<bar>p_quantity p\<bar> \<le> EPSILON \<or> \<not> p_avg_entry p \<le> Fin 0"
    and left: "\<not> \<bar>p_quantity p'\<bar> \<le> EPSILON"
  shows "\<not> p_avg_entry p' \<le> Fin 0"
proof -
  consider (fresh) "\<bar>p_quantity p\<bar> \<le> EPSILON"
    | (adding) "\<not> \<bar>p_quantity p\<bar> \<le> EPSILON"
        "(Fin 0 < p_quantity p \<and> Fin 0 < delta) \<or> (p_quantity p < Fin 0 \<and> delta < Fin 0)"
    | (closing) "\<not> \<bar>p_quantity p\<bar> \<le> EPSILON"
        "\<not> ((Fin 0 < p_quantity p \<and> Fin 0 < delta) \<or> (p_quantity p < Fin 0 \<and> delta < Fin 0))"
    by blast
  then show ?thesis
  proof cases
    case adding
    have "Fin 0 < \<bar>p_quantity p\<bar>" "Fin 0 < \<bar>delta\<bar>"
      using adding(2) by (cases "p_quantity p"; cases delta; auto)+
    moreover have "\<not> p_avg_entry p \<le> Fin 0" using open_pos adding(1) by blast
    ultimately show ?thesis
      using step price adding weighted_average_pos [of "\<bar>p_quantity p\<bar>" "\<bar>delta\<bar>" "p_avg_entry p" price]
      by (auto simp: apply_signed_fill_def Let_def)
  next
    case closing
    then show ?thesis using step price open_pos left
      by (auto simp: apply_signed_fill_def Let_def split: if_splits)
  qed (use step price in \<open>auto simp: apply_signed_fill_def\<close>)
qed

lemma fill_checks_ok:
  "fill_checks f = Inr () \<longleftrightarrow>
     f_symbol f \<noteq> [] \<and> \<not> f_quantity f \<le> Fin 0 \<and> \<not> f_price f \<le> Fin 0 \<and>
     str_upper (f_side f) \<in> {''BUY'', ''SELL''}"
  by (simp add: fill_checks_def res_simps)

text \<open>What an accepted fill does, with the position it starts from named.\<close>

definition start_position :: "ledger \<Rightarrow> fill \<Rightarrow> datetime \<Rightarrow> position" where
  "start_position l f now =
     (case map_of (l_positions l) (f_symbol f) of None \<Rightarrow> new_position (f_symbol f) now | Some p \<Rightarrow> p)"

lemma apply_fillE:
  assumes "apply_fill l f now = Inr (l', trd)"
  obtains p1 pnl where
    "fill_checks f = Inr ()"
    "apply_signed_fill (start_position l f now) (signed_delta f) (f_price f) (f_fee f) = (p1, pnl)"
    "l_positions l' = (if \<bar>p_quantity p1\<bar> \<le> EPSILON then dict_pop (f_symbol f) (l_positions l)
       else dict_set (f_symbol f) (p1\<lparr>p_updated_at := now\<rparr>) (l_positions l))"
    "l_trades l' = l_trades l @ [trd]" "l_realized l' = l_realized l + pnl" "t_pnl trd = pnl"
  using assms unfolding apply_fill_def rbind_Inr_iff start_position_def
  by (auto simp: Let_def split: prod.splits)

lemma start_position_cases:
  assumes "ledger_ok l"
  shows "p_symbol (start_position l f now) = f_symbol f"
    and "\<bar>p_quantity (start_position l f now)\<bar> \<le> EPSILON \<or>
         \<not> p_avg_entry (start_position l f now) \<le> Fin 0"
  using ledger_ok_lookup [OF assms, of "f_symbol f"]
  by (auto simp: start_position_def new_position_def position_ok_def split: option.splits)

lemma apply_fill_ok_step:
  assumes ok: "ledger_ok l" and step: "apply_fill l f now = Inr (l', trd)"
  shows "ledger_ok l'"
  using step
proof (cases rule: apply_fillE)
  case (1 p1 pnl)
  note start = start_position_cases [OF ok, of f now]
  show ?thesis
  proof (cases "\<bar>p_quantity p1\<bar> \<le> EPSILON")
    case True
    with 1(3) ok show ?thesis
      by (auto simp: ledger_ok_def dict_simps distinct_removeAll dict_pop_mem)
  next
    case False
    have "\<not> p_avg_entry p1 \<le> Fin 0"
      using apply_signed_fill_avg [OF 1(2) _ start(2) False] 1(1) by (simp add: fill_checks_ok)
    then have "position_ok (f_symbol f) (p1\<lparr>p_updated_at := now\<rparr>)"
      using False 1(1) start(1) apply_signed_fill_symbol [OF 1(2)]
      by (simp add: position_ok_def fill_checks_ok)
    then show ?thesis
      using ok 1(3) False by (auto simp: ledger_ok_def dict_set_mem AList.distinct_update)
  qed
qed

lemma apply_fill_frame:
  assumes "apply_fill l f now = Inr (l', trd)" "s \<noteq> f_symbol f"
  shows "map_of (l_positions l') s = map_of (l_positions l) s"
  using assms(1) by (cases rule: apply_fillE) (use assms(2) in \<open>auto simp: dict_simps\<close>)

section \<open>The contract of a position book\<close>

locale position_book =
  fixes book_fill :: "'b \<Rightarrow> 'f \<Rightarrow> 'b res"
    and book_lookup :: "'b \<Rightarrow> string \<Rightarrow> position option"
    and book_inv :: "'b \<Rightarrow> bool"
    and fill_key :: "'f \<Rightarrow> string"
  assumes fill_inv: "book_inv b \<Longrightarrow> book_fill b f = Inr b' \<Longrightarrow> book_inv b'"
    and fill_frame: "book_fill b f = Inr b' \<Longrightarrow> s \<noteq> fill_key f \<Longrightarrow> book_lookup b' s = book_lookup b s"
begin

lemma run_inv: "book_inv b \<Longrightarrow> run_res book_fill b fs = Inr b' \<Longrightarrow> book_inv b'"
  by (rule run_res_invariant [where P = book_inv]) (auto intro: fill_inv)

lemma run_frame:
  "run_res book_fill b fs = Inr b' \<Longrightarrow> s \<notin> fill_key ` set fs \<Longrightarrow> book_lookup b' s = book_lookup b s"
proof (induction fs arbitrary: b)
  case (Cons f fs)
  then obtain c where "book_fill b f = Inr c" "run_res book_fill c fs = Inr b'"
    by (auto simp: rbind_Inr_iff)
  with Cons show ?case by (simp add: fill_frame)
qed simp

end

definition fill_step :: "ledger \<Rightarrow> fill \<times> datetime \<Rightarrow> ledger res" where
  "fill_step l x = rbind (apply_fill l (fst x) (snd x)) (\<lambda>(l', _). Inr l')"

lemma fill_step_Inr: "fill_step l x = Inr l' \<longleftrightarrow> (\<exists>trd. apply_fill l (fst x) (snd x) = Inr (l', trd))"
  by (auto simp: fill_step_def res_simps)

interpretation ledger_book: position_book fill_step get_position ledger_ok "\<lambda>x. f_symbol (fst x)"
  by unfold_locales (auto simp: fill_step_Inr get_position_def apply_fill_frame intro: apply_fill_ok_step)

section \<open>Cash accounting\<close>

definition position_fin :: "position \<Rightarrow> bool" where
  "position_fin p \<longleftrightarrow> is_fin (p_quantity p) \<and> is_fin (p_avg_entry p)"

definition open_value :: "real \<Rightarrow> position \<Rightarrow> real" where
  "open_value m p = (m - val_of (p_avg_entry p)) * val_of (p_quantity p)"

lemma apply_signed_fill_value:
  assumes step: "apply_signed_fill p (Fin d) (Fin price) (Fin fee) = (p', pnl)"
    and fin: "p_quantity p = Fin q" "p_avg_entry p = Fin a"
    and dust: "q = 0 \<or> 1 / 10 ^ 12 < \<bar>q\<bar>" "q + d = 0 \<or> 1 / 10 ^ 12 < \<bar>q + d\<bar>"
  shows "p_quantity p' = Fin (q + d) \<and> is_fin (p_avg_entry p') \<and> is_fin pnl \<and>
    val_of pnl + open_value m p' = open_value m p + (m - price) * d - fee"
proof -
  consider (fresh) "q = 0" | (adding) "(0 < q \<and> 0 < d) \<or> (q < 0 \<and> d < 0)" "1 / 10 ^ 12 < \<bar>q\<bar>"
    | (closing) "\<not> ((0 < q \<and> 0 < d) \<or> (q < 0 \<and> d < 0))" "1 / 10 ^ 12 < \<bar>q\<bar>"
    using dust(1) by blast
  then show ?thesis
  proof cases
    case fresh
    with step fin show ?thesis
      by (auto simp: apply_signed_fill_def EPSILON_def open_value_def algebra_simps)
  next
    case adding
    then have "\<bar>q\<bar> + \<bar>d\<bar> \<noteq> 0" by auto
    moreover have "(q + d) * ((\<bar>q\<bar> * a + \<bar>d\<bar> * price) / (\<bar>q\<bar> + \<bar>d\<bar>)) = q * a + d * price"
      using adding(1) by (auto simp: field_simps abs_if)
    ultimately show ?thesis
      using step fin adding
      by (auto simp: apply_signed_fill_def EPSILON_def open_value_def Let_def algebra_simps)
  next
    case closing
    show ?thesis
    proof (cases "q + d = 0")
      case True
      then have d: "d = - q" by simp
      from step fin closing(2) show ?thesis
        by (auto simp: d apply_signed_fill_def EPSILON_def open_value_def Let_def algebra_simps abs_if
            split: if_splits)
    next
      case False
      with step fin closing dust(2) show ?thesis
        by (auto simp: apply_signed_fill_def EPSILON_def open_value_def Let_def algebra_simps
            abs_if min_def split: if_splits)
    qed
  qed
qed

text \<open>
  The equity of a ledger at given marks: realized profit and the open value of every position.
  \<open>ledger_fin\<close> says the numbers involved are finite; \<open>fill_fin\<close> the same of a fill.
\<close>

definition ledger_fin :: "ledger \<Rightarrow> bool" where
  "ledger_fin l \<longleftrightarrow> is_fin (l_realized l) \<and> (\<forall>(s, p) \<in> set (l_positions l). position_fin p)"

definition fill_fin :: "fill \<Rightarrow> bool" where
  "fill_fin f \<longleftrightarrow> is_fin (f_quantity f) \<and> is_fin (f_price f) \<and> is_fin (f_fee f)"

definition ledger_equity :: "(string \<Rightarrow> real) \<Rightarrow> ledger \<Rightarrow> real" where
  "ledger_equity mk l =
     val_of (l_realized l) + sum_list (map (\<lambda>(s, p). open_value (mk s) p) (l_positions l))"

definition fill_cash :: "(string \<Rightarrow> real) \<Rightarrow> fill \<Rightarrow> real" where
  "fill_cash mk f = (mk (f_symbol f) - val_of (f_price f)) * val_of (signed_delta f) - val_of (f_fee f)"

text \<open>The quantity a fill leaves, and that it is not a residue the ledger throws away.\<close>

definition quantity_after :: "ledger \<Rightarrow> fill \<Rightarrow> real" where
  "quantity_after l f =
     (case get_position l (f_symbol f) of None \<Rightarrow> 0 | Some p \<Rightarrow> val_of (p_quantity p)) + val_of (signed_delta f)"

definition no_dust :: "ledger \<Rightarrow> fill \<Rightarrow> bool" where
  "no_dust l f \<longleftrightarrow> quantity_after l f = 0 \<or> 1 / 10 ^ 12 < \<bar>quantity_after l f\<bar>"

lemma start_position_fin:
  assumes "ledger_ok l" "ledger_fin l"
  obtains q a where "p_quantity (start_position l f now) = Fin q"
    "p_avg_entry (start_position l f now) = Fin a" "q = 0 \<or> 1 / 10 ^ 12 < \<bar>q\<bar>"
    "quantity_after l f = q + val_of (signed_delta f)"
    "open_value m (start_position l f now) =
      (case get_position l (f_symbol f) of None \<Rightarrow> 0 | Some p \<Rightarrow> open_value m p)"
proof (cases "map_of (l_positions l) (f_symbol f)")
  case None
  then show thesis
    by (intro that [of 0 0])
      (simp_all add: start_position_def new_position_def quantity_after_def get_position_def open_value_def)
next
  case (Some p)
  then have "position_ok (f_symbol f) p" "position_fin p"
    using assms ledger_ok_lookup by (auto simp: ledger_fin_def dest!: map_of_SomeD)
  then obtain q a where "p_quantity p = Fin q" "p_avg_entry p = Fin a" "1 / 10 ^ 12 < \<bar>q\<bar>"
    by (auto simp: position_fin_def position_ok_def is_fin_iff EPSILON_def)
  with Some show thesis
    by (intro that [of q a]) (simp_all add: start_position_def quantity_after_def get_position_def)
qed

lemma fill_equity:
  assumes ok: "ledger_ok l" and lfin: "ledger_fin l" and ffin: "fill_fin f" and dust: "no_dust l f"
    and step: "apply_fill l f now = Inr (l', trd)"
  shows "ledger_fin l' \<and> ledger_equity mk l' = ledger_equity mk l + fill_cash mk f"
  using step
proof (cases rule: apply_fillE)
  case (1 p1 pnl)
  let ?m = "mk (f_symbol f)" and ?p = "start_position l f now"
  have "is_fin (signed_delta f)" using ffin by (simp add: fill_fin_def signed_delta_def)
  then obtain d price fee where f: "signed_delta f = Fin d" "f_price f = Fin price" "f_fee f = Fin fee"
    using ffin by (auto simp: fill_fin_def is_fin_iff)
  obtain q a where start: "p_quantity ?p = Fin q" "p_avg_entry ?p = Fin a"
      "q = 0 \<or> 1 / 10 ^ 12 < \<bar>q\<bar>" "quantity_after l f = q + d"
      "open_value ?m ?p = (case get_position l (f_symbol f) of None \<Rightarrow> 0 | Some p \<Rightarrow> open_value ?m p)"
    using start_position_fin [OF ok lfin, of f now ?m] f by auto
  have left: "q + d = 0 \<or> 1 / 10 ^ 12 < \<bar>q + d\<bar>" using dust start(4) by (simp add: no_dust_def)
  have val: "p_quantity p1 = Fin (q + d)" "is_fin (p_avg_entry p1)" "is_fin pnl"
      "val_of pnl + open_value ?m p1 = open_value ?m ?p + (?m - price) * d - fee"
    using apply_signed_fill_value [OF 1(2) [unfolded f] start(1-3) left] by blast+
  have dict: "dict_ok (l_positions l)" using ok by (simp add: ledger_ok_def)
  have realized: "val_of (l_realized l') = val_of (l_realized l) + val_of pnl" "is_fin (l_realized l')"
    using 1(5) lfin val(3) by (simp_all add: ledger_fin_def)
  let ?val = "\<lambda>(s, p). open_value (mk s) p"
  have sums: "sum_list (map ?val (dict_pop (f_symbol f) (l_positions l))) =
        sum_list (map ?val (l_positions l)) - open_value ?m ?p"
      "sum_list (map ?val (dict_set (f_symbol f) v (l_positions l))) =
        sum_list (map ?val (l_positions l)) + open_value ?m v - open_value ?m ?p" for v
    using start(5) sum_dict_pop [OF dict, of ?val "f_symbol f"] sum_dict_set [OF dict, of ?val "f_symbol f" v]
    by (cases "map_of (l_positions l) (f_symbol f)"; simp add: get_position_def)+
  show ?thesis
  proof (cases "q + d = 0")
    case True
    then have "l_positions l' = dict_pop (f_symbol f) (l_positions l)" "open_value ?m p1 = 0"
      using 1(3) val(1) by (simp_all add: open_value_def)
    then show ?thesis using realized val(4) sums lfin f
      by (auto simp: ledger_equity_def fill_cash_def ledger_fin_def dict_pop_mem)
  next
    case False
    with left have "\<not> \<bar>p_quantity p1\<bar> \<le> EPSILON" by (simp add: val(1) EPSILON_def)
    then have "l_positions l' = dict_set (f_symbol f) (p1\<lparr>p_updated_at := now\<rparr>) (l_positions l)"
      using 1(3) by simp
    moreover have "open_value ?m (p1\<lparr>p_updated_at := now\<rparr>) = open_value ?m p1"
      "position_fin (p1\<lparr>p_updated_at := now\<rparr>)"
      using val by (simp_all add: open_value_def position_fin_def)
    ultimately show ?thesis using realized val(4) sums lfin f dict
      by (auto simp: ledger_equity_def fill_cash_def ledger_fin_def dict_set_mem)
  qed
qed

fun dust_free :: "ledger \<Rightarrow> (fill \<times> datetime) list \<Rightarrow> bool" where
  "dust_free l [] = True"
| "dust_free l (x # xs) =
     (no_dust l (fst x) \<and> (case fill_step l x of Inl _ \<Rightarrow> True | Inr l' \<Rightarrow> dust_free l' xs))"

lemma run_equity:
  assumes "run_res fill_step l fs = Inr l'" "ledger_ok l" "ledger_fin l"
    "\<forall>x \<in> set fs. fill_fin (fst x)" "dust_free l fs"
  shows "ledger_equity mk l' = ledger_equity mk l + sum_list (map (\<lambda>x. fill_cash mk (fst x)) fs)"
  using assms
proof (induction fs arbitrary: l)
  case (Cons x xs)
  then obtain l1 trd where x: "fill_step l x = Inr l1" "apply_fill l (fst x) (snd x) = Inr (l1, trd)"
      and rest: "run_res fill_step l1 xs = Inr l'"
    by (auto simp: rbind_Inr_iff fill_step_Inr)
  have "ledger_fin l1 \<and> ledger_equity mk l1 = ledger_equity mk l + fill_cash mk (fst x)"
    using Cons.prems x by (intro fill_equity) auto
  moreover have "ledger_ok l1" using Cons.prems(2) x(2) by (rule apply_fill_ok_step)
  ultimately show ?case using Cons.IH [OF rest] Cons.prems x(1) by simp
qed simp

section \<open>Snapshots\<close>

lemma float_field_simps [simp]:
  "float_field ((k', v) # d) k = (if k = k' then py_float (py_or v (VFloat (Fin 0))) else float_field d k)"
  by (simp add: float_field_def dict_get_def)

lemma py_float_or_zero [simp]: "py_float (py_or (VFloat x) (VFloat (Fin 0))) = Inr x"
  by (simp add: py_or_def py_true_def)

lemma pad_nat_no_Z: "CHR ''Z'' \<notin> set (pad_nat k n)"
proof
  assume "CHR ''Z'' \<in> set (pad_nat k n)"
  then have "is_digit (CHR ''Z'')" using pad_nat_digits [of k n] by (auto simp: list_all_iff)
  then show False by (simp add: is_digit_def)
qed

lemma replace_Z_iso: "dt_offset d = None \<Longrightarrow> replace_Z (isoformat d) = isoformat d"
proof -
  have id: "CHR ''Z'' \<notin> set s \<Longrightarrow> replace_Z s = s" for s
    by (induction s) (auto simp: replace_Z_def)
  assume "dt_offset d = None"
  then have "CHR ''Z'' \<notin> set (isoformat d)" using pad_nat_no_Z by (auto simp: isoformat_def)
  then show ?thesis by (rule id)
qed

lemma restore_time_iso:
  assumes "valid_datetime d" "dt_offset d = None"
  shows "restore_time (VStr (isoformat d)) now = d"
proof -
  have "naive d = d" using assms(2) by (cases d) simp
  with assms show ?thesis by (simp add: restore_time_def replace_Z_iso fromisoformat_isoformat)
qed

definition position_saved :: "position \<Rightarrow> bool" where
  "position_saved p \<longleftrightarrow> valid_datetime (p_updated_at p) \<and> dt_offset (p_updated_at p) = None"

lemma restore_position_to_dict:
  assumes "position_ok s p" "position_saved p"
  shows "restore_position s (VDict (position_to_dict p)) now = Some p"
  using assms
  by (simp add: restore_position_def position_to_dict_def position_ok_def position_saved_def
      restore_time_iso dict_simps)

text \<open>Whatever encoding of the positions the entries are, if each of them restores, all do.\<close>

lemma restore_positions_encoded:
  assumes "\<forall>(s, p) \<in> set ps. restore_position s (enc p) now = Some p" "dict_ok (acc @ ps)"
  shows "restore_positions (map (\<lambda>(s, p). (s, enc p)) ps) now acc = acc @ ps"
  using assms
proof (induction ps arbitrary: acc)
  case (Cons x ps)
  obtain s p where x: "x = (s, p)" by (cases x)
  then show ?case using Cons.prems Cons.IH [of "acc @ [x]"] by (auto simp: dict_set_new)
qed simp

lemma ledger_restores:
  assumes "ledger_ok l" and "\<forall>(s, p) \<in> set (l_positions l). position_saved p"
  shows "restore_snapshot l0 (VDict (ledger_snapshot l)) now =
    (l0\<lparr>l_positions := l_positions l, l_realized := l_realized l\<rparr>, Inr ())"
proof -
  have "restore_positions (map (\<lambda>(s, p). (s, VDict (position_to_dict p))) (l_positions l)) now [] =
      [] @ l_positions l"
    using assms by (intro restore_positions_encoded) (fastforce simp: ledger_ok_def intro: restore_position_to_dict)+
  then show ?thesis
    by (simp add: restore_snapshot_def ledger_snapshot_def dict_get_def [of "_ # _"])
qed

section \<open>Properties\<close>

text \<open>
  C1. Cash accounting: for a ledger built from finite fills that never leave a residue below the
  ledger's epsilon, realized profit plus the open value of all positions at any marks equals the
  sum over the fills of (mark minus fill price) times the signed quantity, less the fees. No fill
  sequence creates or destroys money, through partial closes, reversals and average entries.
\<close>
theorem fills_conserve_equity:
  assumes "run_res fill_step new_ledger fs = Inr l"
    and "\<forall>x \<in> set fs. fill_fin (fst x)" and "dust_free new_ledger fs"
  shows "ledger_equity mk l = sum_list (map (\<lambda>x. fill_cash mk (fst x)) fs)"
proof -
  have "ledger_fin new_ledger" "ledger_equity mk new_ledger = 0"
    by (simp_all add: ledger_fin_def new_ledger_def ledger_equity_def)
  with assms show ?thesis using run_equity [of new_ledger fs l mk] by simp
qed

text \<open>
  C2. Whatever fills are applied, a well-formed ledger stays well-formed: at most one position per
  symbol, filed under its own non-empty symbol, never smaller than the epsilon and never with a
  non-positive average entry; and a position whose symbol occurs in none of the fills is untouched.
\<close>
theorem ledger_invariant:
  assumes "ledger_ok l" and "run_res fill_step l fs = Inr l'"
  shows "ledger_ok l' \<and> (\<forall>s. s \<notin> (\<lambda>x. f_symbol (fst x)) ` set fs \<longrightarrow> get_position l' s = get_position l s)"
  using ledger_book.run_inv [OF assms] ledger_book.run_frame [OF assms(2)] by blast

text \<open>
  C22. Snapshot round trip: restoring the snapshot of a well-formed ledger, whose positions carry
  valid naive timestamps, gives back every position with all its fields in order, and the realized
  total; the trades of the restoring ledger are kept.
\<close>
theorem snapshot_restore_roundtrip:
  assumes "ledger_ok l" and "\<forall>(s, p) \<in> set (l_positions l). position_saved p"
  shows "restore_snapshot l0 (VDict (ledger_snapshot l)) now =
    (l0\<lparr>l_positions := l_positions l, l_realized := l_realized l\<rparr>, Inr ())"
  using assms by (rule ledger_restores)

text \<open>
  A fill is refused, with the ledger unchanged, exactly when the symbol is empty, the quantity
  or the price compares as not positive, or the side is not BUY or SELL in any case. A fill with a
  not-a-number quantity passes these guards; every position it touches gets the quantity
  not-a-number and keeps it under any later accepted fill.
\<close>
theorem fill_guards:
  "(is_ok (apply_fill l f now) \<longleftrightarrow>
      f_symbol f \<noteq> [] \<and> \<not> f_quantity f \<le> Fin 0 \<and> \<not> f_price f \<le> Fin 0 \<and>
      str_upper (f_side f) \<in> {''BUY'', ''SELL''}) \<and>
   (apply_fill l f now = Inr (l', trd) \<and>
      (f_quantity f = NaN \<or> map_option p_quantity (get_position l (f_symbol f)) = Some NaN)
    \<longrightarrow> map_option p_quantity (get_position l' (f_symbol f)) = Some NaN)"
proof (intro conjI impI)
  show "is_ok (apply_fill l f now) \<longleftrightarrow>
      f_symbol f \<noteq> [] \<and> \<not> f_quantity f \<le> Fin 0 \<and> \<not> f_price f \<le> Fin 0 \<and>
      str_upper (f_side f) \<in> {''BUY'', ''SELL''}"
    using fill_checks_ok [of f]
    by (cases "fill_checks f") (auto simp: apply_fill_def Let_def split: prod.splits)
  assume a: "apply_fill l f now = Inr (l', trd) \<and>
      (f_quantity f = NaN \<or> map_option p_quantity (get_position l (f_symbol f)) = Some NaN)"
  then obtain p1 pnl where
      step: "apply_signed_fill (start_position l f now) (signed_delta f) (f_price f) (f_fee f) = (p1, pnl)"
      and upd: "l_positions l' = (if \<bar>p_quantity p1\<bar> \<le> EPSILON then dict_pop (f_symbol f) (l_positions l)
       else dict_set (f_symbol f) (p1\<lparr>p_updated_at := now\<rparr>) (l_positions l))"
    by (auto elim: apply_fillE)
  have "signed_delta f = NaN \<or> p_quantity (start_position l f now) = NaN"
    using a by (auto simp: signed_delta_def start_position_def get_position_def)
  then have "p_quantity p1 = NaN"
    using step by (auto simp: apply_signed_fill_def Let_def split: if_splits)
  then show "map_option p_quantity (get_position l' (f_symbol f)) = Some NaN"
    using upd by (simp add: get_position_def dict_simps)
qed

section \<open>Witnesses\<close>

definition sample_time :: datetime where
  "sample_time = DT 2026 3 4 5 6 7 0 None"

definition sample_fill :: "string \<Rightarrow> real \<Rightarrow> real \<Rightarrow> fill \<times> datetime" where
  "sample_fill side q pr =
     (\<lparr>f_symbol = ''ETH'', f_side = side, f_quantity = Fin q, f_price = Fin pr, f_exchange = VNone,
       f_fee = Fin 1, f_strategy_id = VNone, f_order_id = VNone, f_uuid = ''t''\<rparr>, sample_time)"

text \<open>Buy two, buy two dearer, sell six: a position that is added to and then reversed.\<close>

definition sample_fills :: "(fill \<times> datetime) list" where
  "sample_fills = [sample_fill ''BUY'' 2 100, sample_fill ''buy'' 2 110, sample_fill ''SELL'' 6 120]"

lemmas sample_simps =
  sample_fills_def sample_fill_def sample_time_def new_ledger_def fill_step_def apply_fill_def
  fill_checks_def apply_signed_fill_def signed_delta_def new_position_def EPSILON_def str_simps

lemma sample_run:
  "\<exists>l. run_res fill_step new_ledger sample_fills = Inr l \<and> dust_free new_ledger sample_fills \<and>
     map_option p_quantity (get_position l ''ETH'') = Some (Fin (- 2)) \<and> l_realized l = Fin 57"
  by (simp add: sample_simps get_position_def no_dust_def quantity_after_def)

theorem fills_conserve_equity_witness:
  "\<exists>l. run_res fill_step new_ledger sample_fills = Inr l \<and>
     ledger_equity (\<lambda>_. 130) l = 37"
proof -
  obtain l where run: "run_res fill_step new_ledger sample_fills = Inr l" "dust_free new_ledger sample_fills"
    using sample_run by blast
  have "\<forall>x \<in> set sample_fills. fill_fin (fst x)"
    by (simp add: sample_fills_def sample_fill_def fill_fin_def)
  then have "ledger_equity (\<lambda>_. 130) l = sum_list (map (\<lambda>x. fill_cash (\<lambda>_. 130) (fst x)) sample_fills)"
    by (rule fills_conserve_equity [OF run(1) _ run(2)])
  also have "\<dots> = 37"
    by (simp add: sample_fills_def sample_fill_def fill_cash_def signed_delta_def str_simps)
  finally show ?thesis using run(1) by blast
qed

theorem ledger_invariant_witness:
  "\<exists>l. run_res fill_step new_ledger sample_fills = Inr l \<and> ledger_ok l"
  using sample_run ledger_invariant [OF new_ledger_ok] by blast

definition sample_ledger :: ledger where
  "sample_ledger =
     \<lparr>l_positions = [(''ETH'', \<lparr>p_symbol = ''ETH'', p_quantity = Fin 2, p_avg_entry = Fin 100,
        p_realized = Fin 0, p_unrealized = Fin (- 3), p_updated_at = sample_time\<rparr>)],
      l_trades = [], l_realized = Fin 7\<rparr>"

theorem snapshot_restore_roundtrip_witness:
  "restore_snapshot new_ledger (VDict (ledger_snapshot sample_ledger)) sample_time = (sample_ledger, Inr ())"
proof -
  have "ledger_ok sample_ledger"
    by (simp add: sample_ledger_def ledger_ok_def position_ok_def EPSILON_def)
  moreover have "\<forall>(s, p) \<in> set (l_positions sample_ledger). position_saved p"
    by (simp add: sample_ledger_def position_saved_def sample_time_def valid_datetime_def days_in_month_def)
  ultimately show ?thesis
    by (subst snapshot_restore_roundtrip) (simp_all add: sample_ledger_def new_ledger_def)
qed

theorem fill_guards_witness:
  "\<exists>l' trd. apply_fill sample_ledger ((fst (sample_fill ''BUY'' 1 100))\<lparr>f_quantity := NaN\<rparr>) sample_time
      = Inr (l', trd) \<and> map_option p_quantity (get_position l' ''ETH'') = Some NaN"
proof -
  let ?f = "(fst (sample_fill ''BUY'' 1 100))\<lparr>f_quantity := NaN\<rparr>"
  have sym: "f_symbol ?f = ''ETH''" "f_quantity ?f = NaN" by (simp_all add: sample_fill_def)
  have "is_ok (apply_fill sample_ledger ?f sample_time)"
    using fill_guards by (simp add: sample_fill_def str_simps)
  then obtain l' trd where "apply_fill sample_ledger ?f sample_time = Inr (l', trd)"
    by (auto simp: is_ok_iff)
  then show ?thesis using fill_guards [of sample_ledger ?f sample_time l' trd] sym by auto
qed

end
