(* ===== verification/Reconciliation.thy ===== *)
theory Reconciliation
  imports Position_Ledger
begin

text \<open>
  The comparison of the ledger with the positions an exchange reports (\<open>risk/reconciliation.py\<close>):
  normalizing the report, the mismatches and their severity. The lemmas say which mismatches are
  reported, and that a ledger agrees with its own snapshot.
\<close>

section \<open>Mismatches\<close>

record mismatch =
  mm_symbol :: string
  mm_local :: pyfloat
  mm_exchange :: pyfloat
  mm_difference :: pyfloat
  mm_relative :: pyfloat
  mm_severity :: string

definition mismatch_to_dict :: "mismatch \<Rightarrow> (string \<times> pyval) list" where
  "mismatch_to_dict m =
     [(''symbol'', VStr (mm_symbol m)), (''local_quantity'', VFloat (mm_local m)),
      (''exchange_quantity'', VFloat (mm_exchange m)), (''difference'', VFloat (mm_difference m)),
      (''relative_difference'', VFloat (mm_relative m)), (''severity'', VStr (mm_severity m))]"

record recon_report =
  rr_mismatches :: "mismatch list"
  rr_checked_at :: datetime

definition is_clean :: "recon_report \<Rightarrow> bool" where
  "is_clean r \<longleftrightarrow> length (rr_mismatches r) = 0"

definition critical_count :: "recon_report \<Rightarrow> nat" where
  "critical_count r = length (filter (\<lambda>m. mm_severity m = ''CRITICAL'') (rr_mismatches r))"

definition recon_to_dict :: "recon_report \<Rightarrow> (string \<times> pyval) list" where
  "recon_to_dict r =
     [(''is_clean'', VBool (is_clean r)), (''critical_count'', VInt (int (critical_count r))),
      (''checked_at'', VStr (isoformat (rr_checked_at r))),
      (''mismatches'', VList (map (\<lambda>m. VDict (mismatch_to_dict m)) (rr_mismatches r)))]"

section \<open>Comparison\<close>

record reconciler =
  rc_tolerance :: pyfloat
  rc_critical :: pyfloat

definition new_reconciler :: reconciler where
  "new_reconciler = \<lparr>rc_tolerance = Fin (1 / 10 ^ 8), rc_critical = Fin (1 / 5)\<rparr>"

text \<open>\<open>sorted(set(local) | set(exchange))\<close>.\<close>

definition all_symbols :: "(string, pyfloat) pydict \<Rightarrow> (string, pyfloat) pydict \<Rightarrow> string list" where
  "all_symbols loc exch = sort (remdups (map fst loc @ map fst exch))"

definition difference_of :: "(string, pyfloat) pydict \<Rightarrow> (string, pyfloat) pydict \<Rightarrow> string \<Rightarrow> pyfloat" where
  "difference_of loc exch s = dict_get exch s (Fin 0) - dict_get loc s (Fin 0)"

definition compare_symbol ::
  "reconciler \<Rightarrow> (string, pyfloat) pydict \<Rightarrow> (string, pyfloat) pydict \<Rightarrow> string \<Rightarrow> mismatch option res" where
  "compare_symbol rc loc exch s =
     (let lq = dict_get loc s (Fin 0); eq = dict_get exch s (Fin 0); d = difference_of loc exch s in
      if \<bar>d\<bar> \<le> rc_tolerance rc then Inr None
      else rbind (py_div \<bar>d\<bar> (py_max (py_max \<bar>lq\<bar> \<bar>eq\<bar>) (rc_tolerance rc))) (\<lambda>rel.
        Inr (Some \<lparr>mm_symbol = s, mm_local = lq, mm_exchange = eq, mm_difference = d, mm_relative = rel,
                   mm_severity = (if rc_critical rc \<le> rel then ''CRITICAL'' else ''WARNING'')\<rparr>)))"

definition recon_compare ::
  "reconciler \<Rightarrow> (string, pyfloat) pydict \<Rightarrow> (string, pyfloat) pydict \<Rightarrow> datetime \<Rightarrow> recon_report res" where
  "recon_compare rc loc exch now =
     rbind (run_res (\<lambda>ms s. rbind (compare_symbol rc loc exch s)
                       (\<lambda>m. Inr (case m of None \<Rightarrow> ms | Some x \<Rightarrow> ms @ [x]))) [] (all_symbols loc exch))
       (\<lambda>ms. Inr \<lparr>rr_mismatches = ms, rr_checked_at = now\<rparr>)"

section \<open>Normalizing a report\<close>

definition quantity_keys :: "string list" where
  "quantity_keys = [''quantity'', ''size'', ''contracts'', ''positionAmt'', ''amount'', ''net'']"

fun first_quantity :: "(string \<times> pyval) list \<Rightarrow> string list \<Rightarrow> pyfloat option" where
  "first_quantity d [] = None"
| "first_quantity d (k # ks) =
     (case get_val d k of
        VStr s \<Rightarrow> (case py_float_of_str s of Some x \<Rightarrow> Some x | None \<Rightarrow> first_quantity d ks)
      | v \<Rightarrow> (case as_number v of Some x \<Rightarrow> Some x | None \<Rightarrow> first_quantity d ks))"

definition extract_quantity :: "pyval \<Rightarrow> pyfloat option" where
  "extract_quantity v =
     (case as_number v of
        Some x \<Rightarrow> Some x
      | None \<Rightarrow> (case v of VDict d \<Rightarrow> first_quantity d quantity_keys | _ \<Rightarrow> None))"

fun store_entries :: "(string \<times> pyval) list \<Rightarrow> (string, pyfloat) pydict \<Rightarrow> (string, pyfloat) pydict" where
  "store_entries [] acc = acc"
| "store_entries ((s, v) # rest) acc =
     store_entries rest (case extract_quantity v of None \<Rightarrow> acc | Some q \<Rightarrow> dict_set s q acc)"

fun store_items :: "pyval list \<Rightarrow> (string, pyfloat) pydict \<Rightarrow> (string, pyfloat) pydict" where
  "store_items [] acc = acc"
| "store_items (v # rest) acc =
     store_items rest
       (case v of
          VDict d \<Rightarrow>
            (let symb = py_or (get_val d ''symbol'') (get_val d ''pair'') in
             case extract_quantity v of
               None \<Rightarrow> acc
             | Some q \<Rightarrow> (if truthy symb then dict_set (py_str symb) q acc else acc))
        | _ \<Rightarrow> acc)"

definition normalize_positions :: "pyval \<Rightarrow> (string, pyfloat) pydict res" where
  "normalize_positions raw =
     (case raw of
        VNone \<Rightarrow> Inr []
      | VDict d \<Rightarrow>
          (if list_all (\<lambda>(_, v). as_number v \<noteq> None) d then Inr (map (\<lambda>(k, v). (k, the (as_number v))) d)
           else Inr (store_entries d []))
      | VList vs \<Rightarrow> Inr (store_items vs [])
      | _ \<Rightarrow> Inl (TypeError (text_msg ''Unsupported exchange positions payload'')))"

text \<open>\<open>reconcile_with_exchange\<close>; the call to the exchange may raise.\<close>

definition reconcile_with_exchange ::
  "reconciler \<Rightarrow> ('w \<Rightarrow> 'w \<times> pyval res) \<Rightarrow> (string, pyfloat) pydict \<Rightarrow> datetime \<Rightarrow> 'w \<Rightarrow> 'w \<times> recon_report res" where
  "reconcile_with_exchange rc fetch_positions loc now w =
     (case fetch_positions w of
        (w', Inl e) \<Rightarrow> (w', Inl e)
      | (w', Inr raw) \<Rightarrow> (w', rbind (normalize_positions raw) (\<lambda>exch. recon_compare rc loc exch now)))"

section \<open>Which mismatches are reported\<close>

text \<open>The mismatch of a symbol, once its relative difference is defined.\<close>

definition mismatch_for ::
  "reconciler \<Rightarrow> (string, pyfloat) pydict \<Rightarrow> (string, pyfloat) pydict \<Rightarrow> string \<Rightarrow> mismatch" where
  "mismatch_for rc loc exch s =
     (let lq = dict_get loc s (Fin 0); eq = dict_get exch s (Fin 0); d = difference_of loc exch s;
          rel = \<bar>d\<bar> / py_max (py_max \<bar>lq\<bar> \<bar>eq\<bar>) (rc_tolerance rc)
      in \<lparr>mm_symbol = s, mm_local = lq, mm_exchange = eq, mm_difference = d, mm_relative = rel,
          mm_severity = (if rc_critical rc \<le> rel then ''CRITICAL'' else ''WARNING'')\<rparr>)"

lemma py_max_nonzero: "Fin 0 < c \<Longrightarrow> py_max a c \<noteq> Fin 0"
  by (cases a; cases c) (auto simp: py_max_def)

lemma compare_symbol_eq:
  assumes "Fin 0 < rc_tolerance rc"
  shows "compare_symbol rc loc exch s =
    Inr (if \<bar>difference_of loc exch s\<bar> \<le> rc_tolerance rc then None else Some (mismatch_for rc loc exch s))"
  using py_max_nonzero [OF assms] by (simp add: compare_symbol_def mismatch_for_def Let_def)

lemma run_collect:
  assumes "\<And>s. g s = Inr (if P s then None else Some (h s))"
  shows "run_res (\<lambda>ms s. rbind (g s) (\<lambda>m. Inr (case m of None \<Rightarrow> ms | Some x \<Rightarrow> ms @ [x]))) acc xs =
    Inr (acc @ map h (filter (\<lambda>s. \<not> P s) xs))"
  by (induction xs arbitrary: acc) (simp_all add: assms)

lemma recon_compare_eq:
  assumes "Fin 0 < rc_tolerance rc"
  shows "recon_compare rc loc exch now =
    Inr \<lparr>rr_mismatches = map (mismatch_for rc loc exch)
           (filter (\<lambda>s. \<not> \<bar>difference_of loc exch s\<bar> \<le> rc_tolerance rc) (all_symbols loc exch)),
         rr_checked_at = now\<rparr>"
  unfolding recon_compare_def by (subst run_collect [OF compare_symbol_eq [OF assms]]) simp

lemma difference_elsewhere: "s \<notin> set (all_symbols loc exch) \<Longrightarrow> difference_of loc exch s = Fin 0"
  by (auto simp: all_symbols_def difference_of_def dict_get_def map_of_eq_None_iff split: option.splits
      dest!: map_of_SomeD) (force)+

text \<open>
  C24. With a positive tolerance the comparison never raises and is exact: it reports each symbol once, in
  alphabetical order, if and only if the two quantities (zero where one side has none) do not agree
  within the tolerance, with both quantities and their difference; so the report is clean exactly when
  all symbols agree.
\<close>

theorem reconciliation_exact:
  assumes "Fin 0 < rc_tolerance rc"
  shows "\<exists>r. recon_compare rc loc exch now = Inr r \<and>
    sorted (map mm_symbol (rr_mismatches r)) \<and> distinct (map mm_symbol (rr_mismatches r)) \<and>
    set (map mm_symbol (rr_mismatches r)) = {s. \<not> \<bar>difference_of loc exch s\<bar> \<le> rc_tolerance rc} \<and>
    list_all (\<lambda>m. mm_local m = dict_get loc (mm_symbol m) (Fin 0) \<and>
      mm_exchange m = dict_get exch (mm_symbol m) (Fin 0) \<and>
      mm_difference m = mm_exchange m - mm_local m) (rr_mismatches r) \<and>
    (is_clean r \<longleftrightarrow> (\<forall>s. \<bar>difference_of loc exch s\<bar> \<le> rc_tolerance rc))"
proof -
  let ?bad = "filter (\<lambda>s. \<not> \<bar>difference_of loc exch s\<bar> \<le> rc_tolerance rc) (all_symbols loc exch)"
  have sym: "map (mm_symbol \<circ> mismatch_for rc loc exch) ?bad = ?bad"
    by (intro map_idI) (simp add: mismatch_for_def Let_def)
  have zero: "\<bar>Fin 0\<bar> \<le> rc_tolerance rc" using assms by (cases "rc_tolerance rc") auto
  have all: "\<bar>difference_of loc exch s\<bar> \<le> rc_tolerance rc" if "s \<notin> set (all_symbols loc exch)" for s
    using difference_elsewhere [OF that] zero by simp
  have set: "set ?bad = {s. \<not> \<bar>difference_of loc exch s\<bar> \<le> rc_tolerance rc}" using all by auto
  moreover have "sorted ?bad" "distinct ?bad" by (simp_all add: all_symbols_def sorted_wrt_filter)
  moreover have "?bad = [] \<longleftrightarrow> (\<forall>s. \<bar>difference_of loc exch s\<bar> \<le> rc_tolerance rc)"
    using set by (metis (mono_tags, lifting) empty_Collect_eq set_empty)
  moreover define r where "r = \<lparr>rr_mismatches = map (mismatch_for rc loc exch) ?bad, rr_checked_at = now\<rparr>"
  have "map mm_symbol (rr_mismatches r) = ?bad" using sym by (simp add: r_def)
  moreover have "is_clean r \<longleftrightarrow> ?bad = []" by (simp add: is_clean_def r_def)
  moreover have "list_all (\<lambda>m. mm_local m = dict_get loc (mm_symbol m) (Fin 0) \<and>
      mm_exchange m = dict_get exch (mm_symbol m) (Fin 0) \<and>
      mm_difference m = mm_exchange m - mm_local m) (rr_mismatches r)"
    by (simp add: r_def list_all_iff mismatch_for_def difference_of_def Let_def)
  moreover have "recon_compare rc loc exch now = Inr r" by (simp add: recon_compare_eq [OF assms] r_def)
  ultimately show ?thesis by (intro exI [of _ r]) (simp only:)
qed

text \<open>
  A difference is critical exactly when it is at least the configured share of the larger of the
  two quantities: for finite quantities that differ by more than the tolerance, neither of them tiny.
\<close>

theorem critical_difference:
  assumes "compare_symbol rc loc exch s = Inr (Some m)"
    and "dict_get loc s (Fin 0) = Fin a" "dict_get exch s (Fin 0) = Fin b"
    and "rc_tolerance rc = Fin t" "0 < t" "t \<le> max \<bar>a\<bar> \<bar>b\<bar>" "rc_critical rc = Fin c"
  shows "mm_severity m = (if c * max \<bar>a\<bar> \<bar>b\<bar> \<le> \<bar>b - a\<bar> then ''CRITICAL'' else ''WARNING'')"
proof -
  have "0 < max \<bar>a\<bar> \<bar>b\<bar>" using assms(5,6) by linarith
  moreover have "max (max \<bar>a\<bar> \<bar>b\<bar>) t = max \<bar>a\<bar> \<bar>b\<bar>" using assms(6) by linarith
  moreover have "m = mismatch_for rc loc exch s"
    using assms(1,4,5) compare_symbol_eq [of rc loc exch s] by (simp split: if_splits)
  ultimately show ?thesis
    using assms(2-4,7) by (auto simp: mismatch_for_def difference_of_def Let_def pos_le_divide_eq)
qed

section \<open>A ledger and its own snapshot\<close>

lemma store_entries_positions:
  assumes "distinct (map fst (acc @ map (\<lambda>(s, p). (s, p_quantity p)) ps))"
  shows "store_entries (map (\<lambda>(s, p). (s, VDict (position_to_dict p))) ps) acc =
    acc @ map (\<lambda>(s, p). (s, p_quantity p)) ps"
  using assms
proof (induction ps arbitrary: acc)
  case (Cons x ps)
  obtain s p where x: "x = (s, p)" by fastforce
  have q: "extract_quantity (VDict (position_to_dict p)) = Some (p_quantity p)"
    by (simp add: extract_quantity_def position_to_dict_def quantity_keys_def dict_simps)
  have "dict_set s (p_quantity p) acc = acc @ [(s, p_quantity p)]"
    by (rule dict_set_new) (use Cons.prems x in auto)
  with Cons.IH [of "acc @ [(s, p_quantity p)]"] Cons.prems show ?case by (simp add: x q)
qed simp

text \<open>
  The positions of a ledger's snapshot, read back as the report of an exchange, are the ledger's
  quantities; compared with the ledger they are clean for finite quantities and a positive tolerance.
\<close>

theorem ledger_reconciles_with_its_snapshot:
  assumes "ledger_ok l" "list_all (\<lambda>(s, p). is_fin (p_quantity p)) (l_positions l)" "Fin 0 < rc_tolerance rc"
  shows "normalize_positions (get_val (ledger_snapshot l) ''positions'') = Inr (position_quantities l) \<and>
    (\<exists>r. reconcile_with_exchange rc (\<lambda>w. (w, Inr (get_val (ledger_snapshot l) ''positions'')))
            (position_quantities l) now w = (w, Inr r) \<and> is_clean r \<and> critical_count r = 0)"
proof -
  have "distinct (map fst (map (\<lambda>(s, p). (s, p_quantity p)) (l_positions l)))"
    using assms(1) by (simp add: ledger_ok_def case_prod_unfold comp_def)
  then have n: "normalize_positions (get_val (ledger_snapshot l) ''positions'') = Inr (position_quantities l)"
    using store_entries_positions [of "[]" "l_positions l"]
    by (cases "l_positions l")
      (auto simp: normalize_positions_def ledger_snapshot_def position_quantities_def dict_simps)
  have fin: "is_fin (dict_get (position_quantities l) s (Fin 0))" for s
    using assms(2) by (auto simp: position_quantities_def dict_get_def list_all_iff split: option.splits
        dest!: map_of_SomeD)
  then have "difference_of (position_quantities l) (position_quantities l) s = Fin 0" for s
    by (metis difference_of_def Fin_val_of minus_Fin diff_self)
  moreover have "\<bar>Fin 0\<bar> \<le> rc_tolerance rc" using assms(3) by (cases "rc_tolerance rc") auto
  ultimately show ?thesis
    by (simp add: n reconcile_with_exchange_def recon_compare_eq [OF assms(3)] is_clean_def critical_count_def)
qed

section \<open>Witnesses\<close>

theorem reconciliation_exact_witness:
  "\<exists>r. recon_compare new_reconciler [(''A'', Fin 1), (''B'', Fin 2)] [(''B'', Fin 3)] (DT 2024 1 1 0 0 0 0 None) = Inr r \<and>
     set (map mm_symbol (rr_mismatches r)) =
       {s. \<not> \<bar>difference_of [(''A'', Fin 1), (''B'', Fin 2)] [(''B'', Fin 3)] s\<bar> \<le> Fin (1 / 10 ^ 8)}"
  using reconciliation_exact [of new_reconciler "[(''A'', Fin 1), (''B'', Fin 2)]" "[(''B'', Fin 3)]" "DT 2024 1 1 0 0 0 0 None"]
  by (auto simp: new_reconciler_def)

theorem critical_difference_witness:
  "\<exists>m. compare_symbol new_reconciler [(''B'', Fin 2)] [(''B'', Fin 3)] ''B'' = Inr (Some m) \<and>
     mm_severity m = ''CRITICAL''"
proof -
  have "compare_symbol new_reconciler [(''B'', Fin 2)] [(''B'', Fin 3)] ''B'' =
      Inr (Some (mismatch_for new_reconciler [(''B'', Fin 2)] [(''B'', Fin 3)] ''B''))"
    by (simp add: compare_symbol_eq new_reconciler_def difference_of_def dict_simps)
  from this critical_difference [OF this, of 2 3 "1 / 10 ^ 8" "1 / 5"] show ?thesis
    by (simp add: new_reconciler_def dict_simps)
qed

theorem ledger_reconciles_with_its_snapshot_witness:
  "normalize_positions (get_val (ledger_snapshot sample_ledger) ''positions'') =
     Inr (position_quantities sample_ledger)"
  by (rule ledger_reconciles_with_its_snapshot [THEN conjunct1, of sample_ledger new_reconciler])
    (simp_all add: sample_ledger_def ledger_ok_def position_ok_def EPSILON_def new_reconciler_def)

end
