(* ===== verification/Py_Statistics.thy ===== *)
theory Py_Statistics
  imports Prelude
begin

text \<open>
  What the code uses of the \<open>statistics\<close> and \<open>math\<close> modules and of bounded queues: square root, mean,
  the two standard deviations, and \<open>deque(maxlen=n)\<close>.
\<close>

section \<open>Statistics and bounded queues\<close>

fun py_sqrt :: "pyfloat \<Rightarrow> pyfloat" where
  "py_sqrt (Fin r) = Fin (sqrt r)"
| "py_sqrt x = x"

definition py_mean :: "pyfloat list \<Rightarrow> pyfloat" where
  "py_mean xs = py_sum xs / Fin (real (length xs))"

definition pstdev :: "pyfloat list \<Rightarrow> pyfloat" where
  "pstdev xs =
     (let m = py_mean xs in
      py_sqrt (py_sum (map (\<lambda>x. (x - m) * (x - m)) xs) / Fin (real (length xs))))"

text \<open>The last \<open>n\<close> entries, and \<open>deque(maxlen=n).append\<close>.\<close>

definition last_n :: "nat \<Rightarrow> 'a list \<Rightarrow> 'a list" where
  "last_n n xs = drop (length xs - n) xs"

definition push_bounded :: "nat \<Rightarrow> 'a list \<Rightarrow> 'a \<Rightarrow> 'a list" where
  "push_bounded n xs x = last_n n (xs @ [x])"

text \<open>\<open>statistics.stdev\<close>, used on at least two values.\<close>

definition stdev :: "pyfloat list \<Rightarrow> pyfloat" where
  "stdev xs =
     (let m = py_mean xs in
      py_sqrt (py_sum (map (\<lambda>x. (x - m) * (x - m)) xs) / Fin (real (length xs) - 1)))"

text \<open>\<open>max(xs)\<close> and \<open>min(xs)\<close> of a list with a first element.\<close>

definition py_max_list :: "pyfloat list \<Rightarrow> pyfloat" where
  "py_max_list xs = foldl py_max (hd xs) (tl xs)"

definition py_min_list :: "pyfloat list \<Rightarrow> pyfloat" where
  "py_min_list xs = foldl py_min (hd xs) (tl xs)"

lemma sum_list_over: "sum_list (map (\<lambda>x. f x / c) xs) = sum_list (map f xs) / (c :: real)"
  by (induction xs) (simp_all add: add_divide_distrib)

end
