(* ===== verification/Mean_Reversion.thy ===== *)
theory Mean_Reversion
  imports Position_Ledger Py_Statistics
begin

text \<open>
  The mean-reversion strategy (\<open>strategies/mean_reversion_imbalance.py\<close>). A strategy value holds its
  configuration, the settings its constructor read from the environment, its histories and clocks
  per symbol, and its counters. The kill switch and the ledger enter a call as their answers, the
  clock (\<open>time.monotonic\<close>) as one reading per call, and the environment as a function.
\<close>

section \<open>Environment\<close>

definition truth_words :: "string list" where
  "truth_words = [''1'', ''true'', ''yes'', ''y'', ''on'']"

definition bool_env :: "env \<Rightarrow> string \<Rightarrow> bool \<Rightarrow> bool" where
  "bool_env env name dflt =
     (case env name of None \<Rightarrow> dflt | Some raw \<Rightarrow> str_lower (str_strip raw) \<in> set truth_words)"

definition float_env :: "env \<Rightarrow> string \<Rightarrow> pyfloat \<Rightarrow> pyfloat" where
  "float_env env name dflt =
     (case env name of
        None \<Rightarrow> dflt
      | Some raw \<Rightarrow>
          (if str_strip raw = [] then dflt
           else case py_float_of_str raw of None \<Rightarrow> dflt | Some x \<Rightarrow> x))"

text \<open>Only the \<open>ValueError\<close> is caught: an infinity raises an \<open>OverflowError\<close>.\<close>

definition int_env :: "env \<Rightarrow> string \<Rightarrow> int \<Rightarrow> int res" where
  "int_env env name dflt =
     (case env name of
        None \<Rightarrow> Inr dflt
      | Some raw \<Rightarrow>
          (if str_strip raw = [] then Inr dflt
           else case py_float_of_str raw of
                  None \<Rightarrow> Inr dflt
                | Some x \<Rightarrow> (case py_int_of_float x of Inl (ValueError m) \<Rightarrow> Inr dflt | r \<Rightarrow> r)))"

section \<open>State\<close>

record mr_config =
  mc_target :: pyfloat
  mc_max_position :: pyfloat
  mc_window :: int
  mc_min_obs :: int
  mc_entry_z :: pyfloat
  mc_exit_z :: pyfloat
  mc_imbalance :: pyfloat
  mc_max_spread :: pyfloat
  mc_cooldown :: pyfloat
  mc_order_type :: string
  mc_min_order :: pyfloat
  mc_take_profit :: pyfloat
  mc_stop_loss :: pyfloat
  mc_min_profit :: pyfloat
  mc_max_hold :: pyfloat
  mc_exit_cooldown :: pyfloat
  mc_loss_cooldown :: pyfloat
  mc_bad_drop :: pyfloat

record mr_settings =
  me_type :: order_type
  me_round_trip :: pyfloat
  me_min_profit :: pyfloat
  me_min_edge :: pyfloat
  me_confirm :: int
  me_dynamic_stop :: bool
  me_stop_min :: pyfloat
  me_stop_max :: pyfloat
  me_stop_mult :: pyfloat
  me_stop_lookback :: int
  me_btc_filter :: bool
  me_btc_require :: bool
  me_btc_symbol :: string
  me_trade_btc :: bool
  me_btc_min_obs :: int
  me_btc_drop :: pyfloat
  me_btc_vol :: pyfloat

record mr_counters =
  n_ticks :: nat
  n_books :: nat
  n_signals :: nat
  n_entries :: nat
  n_exits :: nat
  n_take_profit :: nat
  n_stop_loss :: nat
  n_time_exit :: nat
  n_skip_cooldown :: nat
  n_skip_exit_cooldown :: nat
  n_skip_blocked :: nat
  n_skip_spread :: nat
  n_skip_trend :: nat
  n_skip_data :: nat
  n_skip_kill :: nat
  n_skip_btc :: nat
  n_skip_edge :: nat
  n_skip_confirm :: nat

record strategy =
  st_cfg :: mr_config
  st_set :: mr_settings
  st_mids :: "(string, pyfloat list) pydict"
  st_last_entry :: "(string, pyfloat) pydict"
  st_last_exit :: "(string, pyfloat) pydict"
  st_seen :: "(string, pyfloat) pydict"
  st_blocked :: "(string, pyfloat) pydict"
  st_imbalances :: "(string, pyfloat list) pydict"
  st_n :: mr_counters

abbreviation count :: "(mr_counters \<Rightarrow> mr_counters) \<Rightarrow> strategy \<Rightarrow> strategy" where
  "count f s \<equiv> s\<lparr>st_n := f (st_n s)\<rparr>"

definition no_counts :: mr_counters where
  "no_counts =
     \<lparr>n_ticks = 0, n_books = 0, n_signals = 0, n_entries = 0, n_exits = 0, n_take_profit = 0,
      n_stop_loss = 0, n_time_exit = 0, n_skip_cooldown = 0, n_skip_exit_cooldown = 0,
      n_skip_blocked = 0, n_skip_spread = 0, n_skip_trend = 0, n_skip_data = 0, n_skip_kill = 0,
      n_skip_btc = 0, n_skip_edge = 0, n_skip_confirm = 0\<rparr>"

definition config_checks :: "mr_config \<Rightarrow> unit res" where
  "config_checks c = check_all
     [(mc_target c \<le> Fin 0, ''target_notional must be positive''),
      (mc_max_position c \<le> Fin 0, ''max_position_notional must be positive''),
      (mc_min_order c < Fin 0, ''min_order_notional cannot be negative''),
      (mc_max_position c < mc_min_order c, ''max_position_notional must cover min_order_notional''),
      (mc_window c < 5, ''rolling_window must be at least 5''),
      (mc_min_obs c < 5, ''min_observations must be at least 5''),
      (mc_window c < mc_min_obs c, ''min_observations cannot exceed rolling_window''),
      (mc_entry_z c \<le> Fin 0, ''entry_zscore must be positive''),
      (mc_exit_z c < Fin 0, ''exit_zscore cannot be negative''),
      (mc_entry_z c \<le> mc_exit_z c, ''exit_zscore must be smaller than entry_zscore''),
      (\<not> (Fin 0 < mc_imbalance c \<and> mc_imbalance c \<le> Fin 1), ''imbalance_threshold must be in (0, 1]''),
      (mc_max_spread c \<le> Fin 0, ''max_spread_bps must be positive''),
      (mc_cooldown c < Fin 0, ''cooldown_seconds cannot be negative''),
      (mc_take_profit c \<le> Fin 0, ''take_profit_bps must be positive''),
      (mc_stop_loss c \<le> Fin 0, ''stop_loss_bps must be positive''),
      (mc_min_profit c < Fin 0, ''min_profit_after_fee_bps cannot be negative''),
      (mc_max_hold c < Fin 0, ''max_hold_seconds cannot be negative''),
      (mc_exit_cooldown c < Fin 0, ''cooldown_after_exit_seconds cannot be negative''),
      (mc_loss_cooldown c < Fin 0, ''loss_cooldown_seconds cannot be negative''),
      (mc_bad_drop c < Fin 0, ''bad_symbol_drop_bps cannot be negative''),
      (str_upper (mc_order_type c) \<notin> {''MARKET'', ''LIMIT''}, ''order_type must be MARKET or LIMIT'')]"

definition read_settings :: "mr_config \<Rightarrow> env \<Rightarrow> mr_settings res" where
  "read_settings c env =
     (let fee = float_env env ''AEGIS_STRATEGY_TAKER_FEE_BPS'' (Fin 0);
          slip = float_env env ''AEGIS_STRATEGY_SLIPPAGE_BPS'' (Fin 0);
          mult = float_env env ''AEGIS_STRATEGY_EXPECTED_EDGE_MULTIPLIER'' (Fin 1);
          trip = py_max (Fin 0) (fee * Fin 2 + slip);
          profit = py_max (mc_min_profit c) (trip + float_env env ''AEGIS_STRATEGY_PROFIT_BUFFER_BPS'' (Fin 0));
          edge = py_max profit (trip * mult)
      in rbind (type_of (str_upper (mc_order_type c))) (\<lambda>ty.
         rbind (int_env env ''AEGIS_STRATEGY_IMBALANCE_CONFIRM_SNAPSHOTS'' 1) (\<lambda>confirm.
         rbind (int_env env ''AEGIS_STRATEGY_DYNAMIC_STOP_LOOKBACK'' 20) (\<lambda>lookback.
         rbind (int_env env ''AEGIS_BTC_FILTER_MIN_OBSERVATIONS'' 10) (\<lambda>btc_obs.
         Inr \<lparr>me_type = ty, me_round_trip = trip, me_min_profit = profit, me_min_edge = edge,
              me_confirm = max 1 confirm,
              me_dynamic_stop = bool_env env ''AEGIS_STRATEGY_DYNAMIC_STOP_ENABLED'' False,
              me_stop_min = float_env env ''AEGIS_STRATEGY_DYNAMIC_STOP_MIN_BPS'' (mc_stop_loss c),
              me_stop_max = float_env env ''AEGIS_STRATEGY_DYNAMIC_STOP_MAX_BPS'' (mc_stop_loss c),
              me_stop_mult = float_env env ''AEGIS_STRATEGY_DYNAMIC_STOP_MULTIPLIER'' (Fin (3 / 2)),
              me_stop_lookback = max 5 lookback,
              me_btc_filter = bool_env env ''AEGIS_BTC_FILTER_ENABLED'' False,
              me_btc_require = bool_env env ''AEGIS_BTC_FILTER_REQUIRE_DATA'' False,
              me_btc_symbol =
                (let s = str_strip (case env ''AEGIS_BTC_FILTER_SYMBOL'' of None \<Rightarrow> ''BTC/USDT'' | Some x \<Rightarrow> x) in
                 if s = [] then ''BTC/USDT'' else s),
              me_trade_btc = bool_env env ''AEGIS_TRADE_BTC_SYMBOL'' True,
              me_btc_min_obs = max 5 btc_obs,
              me_btc_drop = float_env env ''AEGIS_BTC_FILTER_DANGER_DROP_BPS'' (Fin 40),
              me_btc_vol = float_env env ''AEGIS_BTC_FILTER_MAX_VOLATILITY_BPS'' (Fin 80)\<rparr>)))))"

definition new_strategy :: "mr_config \<Rightarrow> env \<Rightarrow> strategy res" where
  "new_strategy c env =
     rbind (config_checks c) (\<lambda>_.
     rbind (read_settings c env) (\<lambda>e.
     Inr \<lparr>st_cfg = c, st_set = e, st_mids = [], st_last_entry = [], st_last_exit = [], st_seen = [],
          st_blocked = [], st_imbalances = [], st_n = no_counts\<rparr>))"

lemma config_checks_facts:
  assumes "config_checks c = Inr ()"
  shows "\<not> mc_max_position c < mc_min_order c" "\<not> mc_take_profit c \<le> Fin 0"
    "\<not> mc_min_profit c < Fin 0" "\<not> mc_entry_z c \<le> Fin 0"
  using assms unfolding config_checks_def check_all_ok by simp_all

section \<open>Reading payloads\<close>

definition payload_symbol :: "payload \<Rightarrow> string" where
  "payload_symbol d = str_strip (py_str (dict_get d ''symbol'' (VStr [])))"

definition last_price :: "payload \<Rightarrow> pyfloat" where
  "last_price d = (case py_float (get_val d ''last'') of Inr x \<Rightarrow> if Fin 0 < x then x else Fin 0 | Inl _ \<Rightarrow> Fin 0)"

definition extract_mid :: "payload \<Rightarrow> pyfloat" where
  "extract_mid d =
     (let quoted =
        (case (py_float (py_or (get_val d ''bid'') (get_val d ''best_bid'')),
               py_float (py_or (get_val d ''ask'') (get_val d ''best_ask''))) of
           (Inr b, Inr a) \<Rightarrow> if Fin 0 < b \<and> Fin 0 < a then (b + a) / Fin 2 else last_price d
         | _ \<Rightarrow> last_price d)
      in case as_number (get_val d ''mid_price'') of
           Some m \<Rightarrow> if Fin 0 < m then m else quoted
         | None \<Rightarrow> quoted)"

definition extract_spread_bps :: "payload \<Rightarrow> pyfloat \<Rightarrow> pyfloat" where
  "extract_spread_bps d mid =
     (case as_number (get_val d ''spread_bps'') of
        Some x \<Rightarrow> x
      | None \<Rightarrow>
          (case py_float (get_val d ''spread'') of
             Inr s \<Rightarrow> if Fin 0 \<le> s \<and> Fin 0 < mid then (s / mid) * Fin 10000 else Fin 0
           | Inl _ \<Rightarrow> Fin 0))"

section \<open>Measures on a history\<close>

definition zscore :: "pyfloat list \<Rightarrow> pyfloat \<Rightarrow> pyfloat" where
  "zscore hist current =
     (let avg = py_mean hist; sigma = pstdev hist in
      if sigma \<le> Fin (1 / 10 ^ 12) then Fin 0 else (current - avg) / sigma)"

definition recent_return_bps :: "pyfloat list \<Rightarrow> pyfloat" where
  "recent_return_bps hist =
     (if length hist < 2 \<or> hd hist \<le> Fin 0 then Fin 0
      else ((last hist - hd hist) / hd hist) * Fin 10000)"

definition expected_edge_bps :: "pyfloat list \<Rightarrow> pyfloat \<Rightarrow> pyfloat" where
  "expected_edge_bps hist mid =
     (if hist = [] \<or> mid \<le> Fin 0 then Fin 0
      else let avg = py_mean hist in if avg \<le> mid then Fin 0 else ((avg - mid) / mid) * Fin 10000)"

definition volatility_bps :: "pyfloat list option \<Rightarrow> int \<Rightarrow> pyfloat" where
  "volatility_bps hist lookback =
     (case hist of
        None \<Rightarrow> Fin 0
      | Some h \<Rightarrow>
          (let vs = last_n (nat (max 2 lookback)) h in
           if length vs < 2 then Fin 0
           else let avg = py_mean vs in
                if avg \<le> Fin 0 then Fin 0 else (pstdev vs / avg) * Fin 10000))"

section \<open>Histories, cooldowns and blocks\<close>

definition append_mid :: "strategy \<Rightarrow> string \<Rightarrow> pyfloat \<Rightarrow> strategy" where
  "append_mid s symb mid =
     s\<lparr>st_mids := dict_set symb
         (push_bounded (nat (mc_window (st_cfg s))) (dict_get (st_mids s) symb []) mid) (st_mids s)\<rparr>"

definition on_cooldown :: "(string, pyfloat) pydict \<Rightarrow> string \<Rightarrow> pyfloat \<Rightarrow> pyfloat \<Rightarrow> bool" where
  "on_cooldown store symb seconds now =
     (if seconds \<le> Fin 0 then False
      else case map_of store symb of None \<Rightarrow> False | Some t \<Rightarrow> now - t < seconds)"

definition entry_on_cooldown :: "strategy \<Rightarrow> string \<Rightarrow> pyfloat \<Rightarrow> bool" where
  "entry_on_cooldown s symb now = on_cooldown (st_last_entry s) symb (mc_cooldown (st_cfg s)) now"

definition exit_on_cooldown :: "strategy \<Rightarrow> string \<Rightarrow> pyfloat \<Rightarrow> bool" where
  "exit_on_cooldown s symb now =
     on_cooldown (st_last_exit s) symb (py_max (Fin 5) (py_min (mc_cooldown (st_cfg s)) (Fin 30))) now"

definition block_symbol :: "string \<Rightarrow> pyfloat \<Rightarrow> pyfloat \<Rightarrow> strategy \<Rightarrow> strategy" where
  "block_symbol symb seconds now s =
     (if seconds \<le> Fin 0 then s
      else s\<lparr>st_blocked := dict_set symb (py_max (dict_get (st_blocked s) symb (Fin 0)) (now + seconds))
                            (st_blocked s)\<rparr>)"

text \<open>\<open>_is_symbol_blocked\<close> forgets a block that has expired.\<close>

definition symbol_blocked :: "strategy \<Rightarrow> string \<Rightarrow> pyfloat \<Rightarrow> strategy \<times> bool" where
  "symbol_blocked s symb now =
     (case map_of (st_blocked s) symb of
        None \<Rightarrow> (s, False)
      | Some till \<Rightarrow>
          (if till \<le> now then (s\<lparr>st_blocked := dict_pop symb (st_blocked s)\<rparr>, False) else (s, True)))"

definition imbalance_confirmed :: "strategy \<Rightarrow> string \<Rightarrow> pyfloat \<Rightarrow> bool \<Rightarrow> strategy \<times> bool" where
  "imbalance_confirmed s symb imb positive =
     (let n = nat (me_confirm (st_set s));
          limit = mc_imbalance (st_cfg s);
          h = push_bounded n (dict_get (st_imbalances s) symb []) imb;
          s' = s\<lparr>st_imbalances := dict_set symb h (st_imbalances s)\<rparr>
      in (s', if length h < n then False
              else if positive then list_all (\<lambda>v. limit \<le> v) h
              else list_all (\<lambda>v. v \<le> - limit) h))"

definition btc_market_ok :: "strategy \<Rightarrow> bool" where
  "btc_market_ok s =
     (let e = st_set s in
      if \<not> me_btc_filter e then True
      else case map_of (st_mids s) (me_btc_symbol e) of
        None \<Rightarrow> \<not> me_btc_require e
      | Some h \<Rightarrow>
          (if int (length h) < me_btc_min_obs e then \<not> me_btc_require e
           else if recent_return_bps h \<le> - \<bar>me_btc_drop e\<bar> then False
           else if me_btc_vol e \<le> volatility_bps (Some h) (me_btc_min_obs e) then False
           else True))"

section \<open>Sizes, prices and thresholds\<close>

definition entry_quantity :: "mr_config \<Rightarrow> pyfloat \<Rightarrow> pyfloat" where
  "entry_quantity c mid =
     (if mid \<le> Fin 0 then Fin 0
      else let bounded = py_min (py_max (mc_target c) (mc_min_order c)) (mc_max_position c) in
           if bounded < mc_min_order c then Fin 0 else py_round (bounded / mid) 8)"

definition entry_price :: "mr_settings \<Rightarrow> order_side \<Rightarrow> pyfloat \<Rightarrow> pyfloat \<Rightarrow> pyfloat option" where
  "entry_price e side bid ask =
     (if me_type e = MARKET then None
      else if side = BUY then (if Fin 0 < bid then Some bid else None)
      else (if Fin 0 < ask then Some ask else None))"

definition confidence :: "mr_config \<Rightarrow> pyfloat \<Rightarrow> pyfloat" where
  "confidence c z = py_min (Fin 1) (\<bar>z\<bar> / py_max (mc_entry_z c) (Fin (1 / 10 ^ 12)))"

definition fee_adjusted_take_profit :: "strategy \<Rightarrow> pyfloat" where
  "fee_adjusted_take_profit s =
     py_max (mc_take_profit (st_cfg s)) (me_round_trip (st_set s) + me_min_profit (st_set s))"

definition dynamic_stop_loss :: "strategy \<Rightarrow> pyfloat list option \<Rightarrow> pyfloat" where
  "dynamic_stop_loss s hist =
     (let e = st_set s in
      if \<not> me_dynamic_stop e then mc_stop_loss (st_cfg s)
      else py_max (me_stop_min e)
             (py_min (me_stop_max e) (volatility_bps hist (me_stop_lookback e) * me_stop_mult e)))"

section \<open>Signals\<close>

definition strategy_name :: string where
  "strategy_name = ''mean_reversion_imbalance''"

definition short_entries_allowed :: "env \<Rightarrow> bool" where
  "short_entries_allowed env = bool_env env ''AEGIS_ALLOW_SHORT_ENTRIES'' False"

definition entry_signal_of ::
  "strategy \<Rightarrow> order_side \<Rightarrow> string \<Rightarrow> pyfloat \<Rightarrow> pyfloat \<Rightarrow> pyfloat \<Rightarrow> pyfloat \<Rightarrow> pyfloat \<Rightarrow> trade_signal" where
  "entry_signal_of s side symb qty bid ask z imb =
     \<lparr>s_symbol = symb, s_side = side, s_quantity = qty, s_type = me_type (st_set s),
      s_price = entry_price (st_set s) side bid ask, s_strategy_id = VStr strategy_name,
      s_reason = [Txt (side_value side), Txt '' entry: zscore='', Flt z 4, Txt '', imbalance='', Flt imb 4],
      s_confidence = Some (confidence (st_cfg s) z)\<rparr>"

definition build_entry_signal ::
  "env \<Rightarrow> strategy \<Rightarrow> string \<Rightarrow> pyfloat \<Rightarrow> pyfloat \<Rightarrow> pyfloat \<Rightarrow> pyfloat \<Rightarrow> pyfloat \<Rightarrow> pyfloat
     \<Rightarrow> strategy \<times> trade_signal option" where
  "build_entry_signal env s symb mid bid ask z imb edge =
     (let c = st_cfg s; qty = entry_quantity c mid in
      if qty \<le> Fin 0 then (s, None)
      else if z \<le> - mc_entry_z c
      then (if edge < me_min_edge (st_set s) then (count (n_skip_edge_update Suc) s, None)
            else let (s1, confirmed) = imbalance_confirmed s symb imb True in
                 if \<not> confirmed then (count (n_skip_confirm_update Suc) s1, None)
                 else if imb < mc_imbalance c then (s1, None)
                 else (s1, Some (entry_signal_of s BUY symb qty bid ask z imb)))
      else if short_entries_allowed env \<and> mc_entry_z c \<le> z \<and> imb \<le> - mc_imbalance c
      then (s, Some (entry_signal_of s SELL symb qty bid ask z imb))
      else (s, None))"

text \<open>Why a position whose profit is \<open>pnl\<close> is closed; the two sides differ in the z-score test.\<close>

definition exit_reason ::
  "strategy \<Rightarrow> string \<Rightarrow> bool \<Rightarrow> pyfloat \<Rightarrow> pyfloat \<Rightarrow> string option" where
  "exit_reason s symb reverted pnl age =
     (if fee_adjusted_take_profit s \<le> pnl then Some ''take_profit''
      else if pnl \<le> - dynamic_stop_loss s (map_of (st_mids s) symb) then Some ''stop_loss''
      else if reverted \<and> me_min_profit (st_set s) \<le> pnl then Some ''mean_reversion_profit''
      else if Fin 0 < mc_max_hold (st_cfg s) \<and> mc_max_hold (st_cfg s) \<le> age \<and> Fin 0 \<le> pnl
      then Some ''time_stop''
      else None)"

definition exit_signal_of ::
  "strategy \<Rightarrow> order_side \<Rightarrow> string \<Rightarrow> position \<Rightarrow> pyfloat \<Rightarrow> pyfloat \<Rightarrow> string \<Rightarrow> string \<Rightarrow> pyfloat \<Rightarrow> pyfloat
     \<Rightarrow> trade_signal" where
  "exit_signal_of s side symb p bid ask text reason pnl z =
     \<lparr>s_symbol = symb, s_side = side, s_quantity = \<bar>p_quantity p\<bar>, s_type = me_type (st_set s),
      s_price = entry_price (st_set s) side bid ask, s_strategy_id = VStr strategy_name,
      s_reason = [Txt (side_value side), Txt text, Str reason, Txt ''): pnl_bps='', Flt pnl 2,
                  Txt '', zscore='', Flt z 4],
      s_confidence = Some (Fin 1)\<rparr>"

definition build_exit_signal ::
  "strategy \<Rightarrow> string \<Rightarrow> position \<Rightarrow> pyfloat \<Rightarrow> pyfloat \<Rightarrow> pyfloat \<Rightarrow> pyfloat \<Rightarrow> pyfloat
     \<Rightarrow> (trade_signal \<times> string) option" where
  "build_exit_signal s symb p bid ask mid z now =
     (let entry = p_avg_entry p;
          age = now - dict_get (st_seen s) symb now
      in if entry \<le> Fin 0 then None
         else if Fin 0 < p_quantity p
         then (let price = (if Fin 0 < bid then bid else mid);
                   pnl = ((price - entry) / entry) * Fin 10000
               in map_option (\<lambda>r. (exit_signal_of s SELL symb p bid ask '' exit long ('' r pnl z, r))
                    (exit_reason s symb (- mc_exit_z (st_cfg s) \<le> z) pnl age))
         else if p_quantity p < Fin 0
         then (let price = (if Fin 0 < ask then ask else mid);
                   pnl = ((entry - price) / entry) * Fin 10000
               in map_option (\<lambda>r. (exit_signal_of s BUY symb p bid ask '' exit short ('' r pnl z, r))
                    (exit_reason s symb (z \<le> mc_exit_z (st_cfg s)) pnl age))
         else None)"

section \<open>Handlers\<close>

definition on_market_tick :: "strategy \<Rightarrow> payload \<Rightarrow> strategy" where
  "on_market_tick s d =
     (let s1 = count (n_ticks_update Suc) s;
          symb = payload_symbol d;
          mid = extract_mid d
      in if symb = [] then s1 else if mid \<le> Fin 0 then s1 else append_mid s1 symb mid)"

text \<open>The two branches of \<open>on_orderbook\<close>: without and with an open position.\<close>

definition try_entry ::
  "env \<Rightarrow> pyfloat \<Rightarrow> payload \<Rightarrow> string \<Rightarrow> pyfloat \<Rightarrow> pyfloat list \<Rightarrow> pyfloat \<Rightarrow> pyfloat \<Rightarrow> strategy
     \<Rightarrow> strategy \<times> trade_signal list res" where
  "try_entry env now d symb mid hist z imb s =
     (let s1 = s\<lparr>st_seen := dict_pop symb (st_seen s)\<rparr>;
          (s2, blocked) = symbol_blocked s1 symb now
      in if blocked then (count (n_skip_blocked_update Suc) s2, Inr [])
         else if recent_return_bps hist \<le> - mc_bad_drop (st_cfg s)
         then (count (n_skip_trend_update Suc) (block_symbol symb (mc_loss_cooldown (st_cfg s)) now s2), Inr [])
         else if entry_on_cooldown s2 symb now then (count (n_skip_cooldown_update Suc) s2, Inr [])
         else if \<not> btc_market_ok s2 then (count (n_skip_btc_update Suc) s2, Inr [])
         else
           (case (py_float (dict_get d ''best_bid'' (VFloat (Fin 0))),
                  py_float (dict_get d ''best_ask'' (VFloat (Fin 0)))) of
              (Inl e, _) \<Rightarrow> (s2, Inl e)
            | (_, Inl e) \<Rightarrow> (s2, Inl e)
            | (Inr bid, Inr ask) \<Rightarrow>
                (case build_entry_signal env s2 symb mid bid ask z imb (expected_edge_bps hist mid) of
                   (s3, None) \<Rightarrow> (s3, Inr [])
                 | (s3, Some sig) \<Rightarrow>
                     (count (n_signals_update Suc)
                        ((count (n_entries_update Suc) s3)\<lparr>st_last_entry := dict_set symb now (st_last_entry s3)\<rparr>),
                      Inr [sig]))))"

definition after_exit :: "string \<Rightarrow> string \<Rightarrow> pyfloat \<Rightarrow> strategy \<Rightarrow> strategy" where
  "after_exit kind symb now s =
     (let s1 = (count (n_exits_update Suc) s)\<lparr>st_last_exit := dict_set symb now (st_last_exit s)\<rparr>;
          c = st_cfg s;
          s2 = (if kind = ''take_profit''
                then block_symbol symb (mc_exit_cooldown c) now (count (n_take_profit_update Suc) s1)
                else if kind = ''stop_loss''
                then block_symbol symb (mc_loss_cooldown c) now (count (n_stop_loss_update Suc) s1)
                else if kind = ''time_stop''
                then block_symbol symb (mc_exit_cooldown c) now (count (n_time_exit_update Suc) s1)
                else s1)
      in count (n_signals_update Suc) s2)"

definition try_exit ::
  "pyfloat \<Rightarrow> payload \<Rightarrow> string \<Rightarrow> position \<Rightarrow> pyfloat \<Rightarrow> pyfloat \<Rightarrow> strategy \<Rightarrow> strategy \<times> trade_signal list res" where
  "try_exit now d symb p mid z s =
     (if exit_on_cooldown s symb now then (count (n_skip_exit_cooldown_update Suc) s, Inr [])
      else
        (let s1 = s\<lparr>st_seen := dict_set symb (dict_get (st_seen s) symb now) (st_seen s)\<rparr> in
         case (py_float (dict_get d ''best_bid'' (VFloat (Fin 0))),
               py_float (dict_get d ''best_ask'' (VFloat (Fin 0)))) of
           (Inl e, _) \<Rightarrow> (s1, Inl e)
         | (_, Inl e) \<Rightarrow> (s1, Inl e)
         | (Inr bid, Inr ask) \<Rightarrow>
             (case build_exit_signal s1 symb p bid ask mid z now of
                None \<Rightarrow> (s1, Inr [])
              | Some (sig, kind) \<Rightarrow> (after_exit kind symb now s1, Inr [sig]))))"

definition on_orderbook ::
  "env \<Rightarrow> bool \<Rightarrow> ledger \<Rightarrow> pyfloat \<Rightarrow> payload \<Rightarrow> strategy \<Rightarrow> strategy \<times> trade_signal list res" where
  "on_orderbook env active l now d s0 =
     (let s = count (n_books_update Suc) s0;
          symb = payload_symbol d;
          mid = extract_mid d
      in if \<not> active then (count (n_skip_kill_update Suc) s, Inr [])
         else if symb = [] then (s, Inr [])
         else if mid \<le> Fin 0 then (s, Inr [])
         else
           (let s1 = append_mid s symb mid;
                hist = dict_get (st_mids s1) symb []
            in if int (length hist) < mc_min_obs (st_cfg s1)
               then (count (n_skip_data_update Suc) s1, Inr [])
               else if mc_max_spread (st_cfg s1) < extract_spread_bps d mid
               then (count (n_skip_spread_update Suc) s1, Inr [])
               else
                 (case py_float (dict_get d ''imbalance'' (VFloat (Fin 0))) of
                    Inl e \<Rightarrow> (s1, Inl e)
                  | Inr imb \<Rightarrow>
                      (if symb = me_btc_symbol (st_set s1) \<and> \<not> me_trade_btc (st_set s1) then (s1, Inr [])
                       else case get_position l symb of
                         None \<Rightarrow> try_entry env now d symb mid hist (zscore hist mid) imb s1
                       | Some p \<Rightarrow>
                           (if p_quantity p = Fin 0
                            then try_entry env now d symb mid hist (zscore hist mid) imb s1
                            else try_exit now d symb p mid (zscore hist mid) s1)))))"

definition mr_metrics :: "strategy \<Rightarrow> (string \<times> pyval) list" where
  "mr_metrics s =
     (let n = st_n s; num = (\<lambda>k. VInt (int k)) in
      [(''ticks_seen'', num (n_ticks n)), (''orderbooks_seen'', num (n_books n)),
       (''signals_generated'', num (n_signals n)), (''entries_generated'', num (n_entries n)),
       (''exits_generated'', num (n_exits n)),
       (''take_profit_exits_generated'', num (n_take_profit n)),
       (''stop_loss_exits_generated'', num (n_stop_loss n)),
       (''time_exits_generated'', num (n_time_exit n)),
       (''skipped_for_cooldown'', num (n_skip_cooldown n)),
       (''skipped_for_exit_cooldown'', num (n_skip_exit_cooldown n)),
       (''skipped_for_symbol_block'', num (n_skip_blocked n)),
       (''skipped_for_spread'', num (n_skip_spread n)), (''skipped_for_bad_trend'', num (n_skip_trend n)),
       (''skipped_for_insufficient_data'', num (n_skip_data n)),
       (''skipped_for_kill_switch'', num (n_skip_kill n)),
       (''skipped_for_btc_filter'', num (n_skip_btc n)), (''skipped_for_edge'', num (n_skip_edge n)),
       (''skipped_for_imbalance_confirmation'', num (n_skip_confirm n)),
       (''round_trip_cost_bps'', VFloat (me_round_trip (st_set s))),
       (''required_min_profit_bps'', VFloat (me_min_profit (st_set s))),
       (''required_expected_edge_bps'', VFloat (me_min_edge (st_set s))),
       (''fee_adjusted_take_profit_bps'', VFloat (fee_adjusted_take_profit s)),
       (''blocked_symbols'', num (length (st_blocked s)))])"

section \<open>What a handler does, by cases\<close>

text \<open>The state an order book is judged in, its history and its z-score.\<close>

definition observed :: "strategy \<Rightarrow> payload \<Rightarrow> strategy" where
  "observed s d = append_mid (count (n_books_update Suc) s) (payload_symbol d) (extract_mid d)"

definition book_history :: "strategy \<Rightarrow> payload \<Rightarrow> pyfloat list" where
  "book_history s d = dict_get (st_mids (observed s d)) (payload_symbol d) []"

definition book_zscore :: "strategy \<Rightarrow> payload \<Rightarrow> pyfloat" where
  "book_zscore s d = zscore (book_history s d) (extract_mid d)"

definition no_position :: "ledger \<Rightarrow> string \<Rightarrow> bool" where
  "no_position l symb \<longleftrightarrow> (case get_position l symb of None \<Rightarrow> True | Some p \<Rightarrow> p_quantity p = Fin 0)"

text \<open>The book passes the checks made before the position is looked at.\<close>

definition tradable :: "bool \<Rightarrow> strategy \<Rightarrow> payload \<Rightarrow> pyfloat \<Rightarrow> bool" where
  "tradable active s d imb \<longleftrightarrow>
     active \<and> payload_symbol d \<noteq> [] \<and> \<not> extract_mid d \<le> Fin 0 \<and>
     mc_min_obs (st_cfg s) \<le> int (length (book_history s d)) \<and>
     \<not> mc_max_spread (st_cfg s) < extract_spread_bps d (extract_mid d) \<and>
     py_float (dict_get d ''imbalance'' (VFloat (Fin 0))) = Inr imb \<and>
     \<not> (payload_symbol d = me_btc_symbol (st_set s) \<and> \<not> me_trade_btc (st_set s))"

lemma observed_frame [simp]:
  "st_cfg (observed s d) = st_cfg s" "st_set (observed s d) = st_set s"
  "st_last_entry (observed s d) = st_last_entry s" "st_last_exit (observed s d) = st_last_exit s"
  "st_blocked (observed s d) = st_blocked s" "st_imbalances (observed s d) = st_imbalances s"
  "st_seen (observed s d) = st_seen s"
  "st_n (observed s d) = n_books_update Suc (st_n s)"
  by (simp_all add: observed_def append_mid_def)

lemma on_orderbook_eq:
  "on_orderbook env active l now d s =
     (let s0 = count (n_books_update Suc) s; symb = payload_symbol d; mid = extract_mid d in
      if \<not> active then (count (n_skip_kill_update Suc) s0, Inr [])
      else if symb = [] \<or> mid \<le> Fin 0 then (s0, Inr [])
      else if int (length (book_history s d)) < mc_min_obs (st_cfg s)
      then (count (n_skip_data_update Suc) (observed s d), Inr [])
      else if mc_max_spread (st_cfg s) < extract_spread_bps d mid
      then (count (n_skip_spread_update Suc) (observed s d), Inr [])
      else case py_float (dict_get d ''imbalance'' (VFloat (Fin 0))) of
          Inl e \<Rightarrow> (observed s d, Inl e)
        | Inr imb \<Rightarrow>
            (if symb = me_btc_symbol (st_set s) \<and> \<not> me_trade_btc (st_set s) then (observed s d, Inr [])
             else if no_position l symb
             then try_entry env now d symb mid (book_history s d) (book_zscore s d) imb (observed s d)
             else try_exit now d symb (the (get_position l symb)) mid (book_zscore s d) (observed s d)))"
proof -
  have frame: "st_cfg (append_mid t symb mid) = st_cfg t" "st_set (append_mid t symb mid) = st_set t"
    for t symb mid by (simp_all add: append_mid_def)
  show ?thesis
    unfolding on_orderbook_def Let_def book_zscore_def book_history_def observed_def frame no_position_def
    by (auto split: option.splits sum.splits)
qed

lemma on_orderbook_cases:
  assumes "on_orderbook env active l now d s = (s', r)"
  obtains
    (quiet) "r = Inr []"
      "s' \<in> {count (n_skip_kill_update Suc) (count (n_books_update Suc) s), count (n_books_update Suc) s,
              count (n_skip_data_update Suc) (observed s d),
              count (n_skip_spread_update Suc) (observed s d), observed s d}"
  | (bad) e where "r = Inl e" "s' = observed s d"
  | (entry) imb where "tradable active s d imb" "no_position l (payload_symbol d)"
      "try_entry env now d (payload_symbol d) (extract_mid d) (book_history s d) (book_zscore s d) imb
         (observed s d) = (s', r)"
  | (exit) imb p where "tradable active s d imb" "get_position l (payload_symbol d) = Some p"
      "p_quantity p \<noteq> Fin 0"
      "try_exit now d (payload_symbol d) p (extract_mid d) (book_zscore s d) (observed s d) = (s', r)"
proof -
  have the: "\<exists>p. get_position l symb = Some p \<and> p_quantity p \<noteq> Fin 0 \<and> the (get_position l symb) = p"
    if "\<not> no_position l symb" for symb
    using that by (auto simp: no_position_def split: option.splits)
  show thesis
    using assms the [of "payload_symbol d"]
    by (auto simp: on_orderbook_eq Let_def tradable_def intro: quiet bad entry exit
        split: if_splits sum.splits)
qed

section \<open>Entries and exits, by cases\<close>

lemma symbol_blocked_eq:
  "symbol_blocked s symb now = (s', b) \<longleftrightarrow>
     (b \<longleftrightarrow> (\<exists>t. map_of (st_blocked s) symb = Some t \<and> \<not> t \<le> now)) \<and>
     s' = (if b \<or> map_of (st_blocked s) symb = None then s
           else s\<lparr>st_blocked := dict_pop symb (st_blocked s)\<rparr>)"
  by (auto simp: symbol_blocked_def split: option.splits if_splits)

lemma symbol_blocked_frame:
  assumes "symbol_blocked s symb now = (s', b)"
  shows "s' = s\<lparr>st_blocked := st_blocked s'\<rparr>"
  using assms by (auto simp: symbol_blocked_eq split: if_splits)

lemma symbol_blocked_keeps:
  assumes "symbol_blocked s symb now = (s', b)"
  shows "st_cfg s' = st_cfg s" "st_set s' = st_set s" "st_n s' = st_n s" "st_mids s' = st_mids s"
    "st_last_entry s' = st_last_entry s" "st_last_exit s' = st_last_exit s"
    "st_imbalances s' = st_imbalances s"
  using assms by (auto simp: symbol_blocked_eq)

lemma block_symbol_frame [simp]:
  "st_cfg (block_symbol symb t now s) = st_cfg s"
  "st_last_entry (block_symbol symb t now s) = st_last_entry s"
  by (simp_all add: block_symbol_def)

lemma imbalance_confirmed_keeps:
  assumes "imbalance_confirmed s symb imb pos = (s', b)"
  shows "st_cfg s' = st_cfg s" "st_set s' = st_set s" "st_n s' = st_n s" "st_mids s' = st_mids s"
    "st_last_entry s' = st_last_entry s" "st_last_exit s' = st_last_exit s" "st_blocked s' = st_blocked s"
  using assms by (auto simp: imbalance_confirmed_def Let_def)

lemma build_entry_cases:
  assumes "build_entry_signal env s symb mid bid ask z imb edge = (s', r)"
  obtains
    (quiet) "r = None" "s' \<in> {s, count (n_skip_edge_update Suc) s}"
  | (waiting) s1 b where "r = None" "imbalance_confirmed s symb imb True = (s1, b)"
      "s' \<in> {s1, count (n_skip_confirm_update Suc) s1}"
  | (long) "r = Some (entry_signal_of s' BUY symb (entry_quantity (st_cfg s) mid) bid ask z imb)"
      "\<not> entry_quantity (st_cfg s) mid \<le> Fin 0" "z \<le> - mc_entry_z (st_cfg s)"
      "\<not> edge < me_min_edge (st_set s)" "\<not> imb < mc_imbalance (st_cfg s)"
      "imbalance_confirmed s symb imb True = (s', True)"
  | (short) "r = Some (entry_signal_of s SELL symb (entry_quantity (st_cfg s) mid) bid ask z imb)"
      "s' = s" "\<not> entry_quantity (st_cfg s) mid \<le> Fin 0" "short_entries_allowed env"
      "mc_entry_z (st_cfg s) \<le> z" "imb \<le> - mc_imbalance (st_cfg s)"
proof -
  have same: "entry_signal_of t side symb q bid ask z imb = entry_signal_of s side symb q bid ask z imb"
    if "imbalance_confirmed s symb imb True = (t, True)" for t side q
    using imbalance_confirmed_keeps [OF that] by (simp add: entry_signal_of_def)
  show thesis
    using assms
    by (auto simp: build_entry_signal_def Let_def same split: if_splits prod.splits intro: quiet waiting long short)
qed

lemma try_entry_cases:
  assumes "try_entry env now d symb mid hist z imb s = (s', r)"
  obtains (silent) s2 b where "\<forall>sigs. r = Inr sigs \<longrightarrow> sigs = []"
      "symbol_blocked (s\<lparr>st_seen := dict_pop symb (st_seen s)\<rparr>) symb now = (s2, b)"
      "s' \<in> {s2, count (n_skip_blocked_update Suc) s2,
             count (n_skip_trend_update Suc) (block_symbol symb (mc_loss_cooldown (st_cfg s)) now s2),
             count (n_skip_cooldown_update Suc) s2, count (n_skip_btc_update Suc) s2}"
  | (built) s2 bid ask s3 r3 where
      "symbol_blocked (s\<lparr>st_seen := dict_pop symb (st_seen s)\<rparr>) symb now = (s2, False)"
      "\<not> recent_return_bps hist \<le> - mc_bad_drop (st_cfg s)" "\<not> entry_on_cooldown s2 symb now"
      "btc_market_ok s2"
      "py_float (dict_get d ''best_bid'' (VFloat (Fin 0))) = Inr bid"
      "py_float (dict_get d ''best_ask'' (VFloat (Fin 0))) = Inr ask"
      "build_entry_signal env s2 symb mid bid ask z imb (expected_edge_bps hist mid) = (s3, r3)"
      "(r3 = None \<and> s' = s3 \<and> r = Inr []) \<or>
       (\<exists>sig. r3 = Some sig \<and> r = Inr [sig] \<and>
         s' = count (n_signals_update Suc)
           ((count (n_entries_update Suc) s3)\<lparr>st_last_entry := dict_set symb now (st_last_entry s3)\<rparr>))"
proof -
  obtain s2 b where sb: "symbol_blocked (s\<lparr>st_seen := dict_pop symb (st_seen s)\<rparr>) symb now = (s2, b)"
    by fastforce
  let ?bid = "py_float (dict_get d ''best_bid'' (VFloat (Fin 0)))"
  let ?ask = "py_float (dict_get d ''best_ask'' (VFloat (Fin 0)))"
  let ?bad = "recent_return_bps hist \<le> - mc_bad_drop (st_cfg s)"
  note run = assms [unfolded try_entry_def Let_def sb prod.case]
  show thesis
  proof (cases "b \<or> ?bad \<or> entry_on_cooldown s2 symb now \<or> \<not> btc_market_ok s2")
    case True
    consider b | "\<not> b" ?bad | "\<not> b" "\<not> ?bad" "entry_on_cooldown s2 symb now"
      | "\<not> b" "\<not> ?bad" "\<not> entry_on_cooldown s2 symb now" "\<not> btc_market_ok s2"
      using True by blast
    then show ?thesis
    proof cases
      case 1
      show ?thesis by (rule silent [OF _ sb]; use run 1 in auto)
    next
      case 2
      show ?thesis by (rule silent [OF _ sb]; use run 2 in auto)
    next
      case 3
      show ?thesis by (rule silent [OF _ sb]; use run 3 in auto)
    next
      case 4
      show ?thesis by (rule silent [OF _ sb]; use run 4 in auto)
    qed
  next
    case go: False
    show ?thesis
    proof (cases ?bid)
      case (Inl e)
      show ?thesis by (rule silent [OF _ sb]; use run go Inl in auto)
    next
      case bid: (Inr x)
      show ?thesis
      proof (cases ?ask)
        case (Inl e)
        show ?thesis by (rule silent [OF _ sb]; use run go bid Inl in auto)
      next
        case ask: (Inr y)
        obtain s3 r3 where b3:
          "build_entry_signal env s2 symb mid x y z imb (expected_edge_bps hist mid) = (s3, r3)" by fastforce
        have nb: "b = False" using go by blast
        have res: "(s', r) = (case r3 of None \<Rightarrow> (s3, Inr []) | Some sig \<Rightarrow>
            (count (n_signals_update Suc)
               ((count (n_entries_update Suc) s3)\<lparr>st_last_entry := dict_set symb now (st_last_entry s3)\<rparr>),
             Inr [sig]))"
          using run go bid ask b3 by (cases r3) simp_all
        show ?thesis
          by (rule built [OF sb [unfolded nb] _ _ _ bid ask b3]; use go res in \<open>cases r3; simp\<close>)
      qed
    qed
  qed
qed

lemma try_exit_cases:
  assumes "try_exit now d symb p mid z s = (s', r)"
  obtains (silent) "\<forall>sigs. r = Inr sigs \<longrightarrow> sigs = []"
      "s' \<in> {count (n_skip_exit_cooldown_update Suc) s,
             s\<lparr>st_seen := dict_set symb (dict_get (st_seen s) symb now) (st_seen s)\<rparr>}"
  | (signal) s1 bid ask sig kind where "\<not> exit_on_cooldown s symb now"
      "s1 = s\<lparr>st_seen := dict_set symb (dict_get (st_seen s) symb now) (st_seen s)\<rparr>"
      "py_float (dict_get d ''best_bid'' (VFloat (Fin 0))) = Inr bid"
      "py_float (dict_get d ''best_ask'' (VFloat (Fin 0))) = Inr ask"
      "build_exit_signal s1 symb p bid ask mid z now = Some (sig, kind)"
      "s' = after_exit kind symb now s1" "r = Inr [sig]"
proof -
  let ?bid = "py_float (dict_get d ''best_bid'' (VFloat (Fin 0)))"
  let ?ask = "py_float (dict_get d ''best_ask'' (VFloat (Fin 0)))"
  define s1 where "s1 = s\<lparr>st_seen := dict_set symb (dict_get (st_seen s) symb now) (st_seen s)\<rparr>"
  note run = assms [unfolded try_exit_def Let_def, folded s1_def]
  show thesis
  proof (cases "exit_on_cooldown s symb now \<or> (\<exists>e. ?bid = Inl e) \<or> (\<exists>e. ?ask = Inl e)")
    case True
    then consider "exit_on_cooldown s symb now"
      | e where "\<not> exit_on_cooldown s symb now" "?bid = Inl e"
      | x e where "\<not> exit_on_cooldown s symb now" "?bid = Inr x" "?ask = Inl e"
      by (cases ?bid) blast+
    then show ?thesis
    proof cases
      case 1
      show ?thesis by (rule silent; use run 1 in auto)
    next
      case 2
      show ?thesis by (rule silent; use run 2 in \<open>auto simp: s1_def [symmetric]\<close>)
    next
      case 3
      show ?thesis by (rule silent; use run 3 in \<open>auto simp: s1_def [symmetric]\<close>)
    qed
  next
    case False
    then obtain x y where q: "?bid = Inr x" "?ask = Inr y" by (cases ?bid; cases ?ask; blast)
    show ?thesis
    proof (cases "build_exit_signal s1 symb p x y mid z now")
      case None
      show ?thesis by (rule silent; use run False q None in \<open>auto simp: s1_def [symmetric]\<close>)
    next
      case (Some out)
      obtain sig kind where "out = (sig, kind)" by fastforce
      then show ?thesis
        by (intro signal [OF _ s1_def q, of sig kind]) (use run False q Some in simp_all)
    qed
  qed
qed

section \<open>The invariant of the strategy\<close>

definition bounded_histories :: "strategy \<Rightarrow> bool" where
  "bounded_histories s \<longleftrightarrow>
     list_all (\<lambda>p. length (snd p) \<le> nat (mc_window (st_cfg s))) (st_mids s) \<and>
     list_all (\<lambda>p. length (snd p) \<le> nat (me_confirm (st_set s))) (st_imbalances s)"

text \<open>\<open>k\<close> books have been counted and are still being judged.\<close>

definition counts_ok :: "nat \<Rightarrow> mr_counters \<Rightarrow> bool" where
  "counts_ok k n \<longleftrightarrow>
     n_signals n = n_entries n + n_exits n \<and>
     n_take_profit n + n_stop_loss n + n_time_exit n \<le> n_exits n \<and>
     n_signals n + n_skip_cooldown n + n_skip_exit_cooldown n + n_skip_blocked n + n_skip_spread n +
       n_skip_trend n + n_skip_data n + n_skip_kill n + n_skip_btc n + n_skip_edge n +
       n_skip_confirm n + k \<le> n_books n"

definition mr_inv :: "nat \<Rightarrow> mr_config \<Rightarrow> mr_settings \<Rightarrow> strategy \<Rightarrow> bool" where
  "mr_inv k c e s \<longleftrightarrow> st_cfg s = c \<and> st_set s = e \<and> bounded_histories s \<and> counts_ok k (st_n s)"

lemma length_push_bounded: "length (push_bounded n h x) \<le> n"
  by (simp add: push_bounded_def last_n_def)

lemma list_all_dict_set:
  "list_all (\<lambda>p. Q (snd p)) d \<Longrightarrow> Q v \<Longrightarrow> list_all (\<lambda>p. Q (snd p)) (dict_set k v d)"
  by (induction d) auto

lemma bounded_append_mid: "bounded_histories s \<Longrightarrow> bounded_histories (append_mid s symb mid)"
  by (auto simp: bounded_histories_def append_mid_def intro!: list_all_dict_set length_push_bounded)

lemma bounded_imbalance_confirmed:
  "bounded_histories s \<Longrightarrow> imbalance_confirmed s symb imb pos = (s', b) \<Longrightarrow> bounded_histories s'"
  by (auto simp: bounded_histories_def imbalance_confirmed_def Let_def
      intro!: list_all_dict_set length_push_bounded)

lemma append_mid_frame [simp]:
  "st_cfg (append_mid s symb mid) = st_cfg s" "st_set (append_mid s symb mid) = st_set s"
  "st_n (append_mid s symb mid) = st_n s" "st_last_entry (append_mid s symb mid) = st_last_entry s"
  by (simp_all add: append_mid_def)

lemma bounded_frame [simp]:
  "bounded_histories (count f s) = bounded_histories s"
  "bounded_histories (s\<lparr>st_seen := a\<rparr>) = bounded_histories s"
  "bounded_histories (s\<lparr>st_blocked := a\<rparr>) = bounded_histories s"
  "bounded_histories (s\<lparr>st_last_entry := a\<rparr>) = bounded_histories s"
  "bounded_histories (s\<lparr>st_last_exit := a\<rparr>) = bounded_histories s"
  by (simp_all add: bounded_histories_def)

lemma mr_inv_weaken: "mr_inv (Suc k) c e s \<Longrightarrow> mr_inv k c e s"
  by (auto simp: mr_inv_def counts_ok_def)

lemma mr_inv_observed:
  "mr_inv 0 c e s \<Longrightarrow> mr_inv 1 c e (observed s d)"
  "mr_inv 0 c e s \<Longrightarrow> mr_inv 1 c e (count (n_books_update Suc) s)"
  unfolding mr_inv_def observed_def
  by (auto intro!: bounded_append_mid simp: counts_ok_def)

lemma mr_inv_skip:
  assumes "mr_inv 1 c e s"
  shows "mr_inv 0 c e (count (n_skip_cooldown_update Suc) s)"
    "mr_inv 0 c e (count (n_skip_exit_cooldown_update Suc) s)"
    "mr_inv 0 c e (count (n_skip_blocked_update Suc) s)"
    "mr_inv 0 c e (count (n_skip_spread_update Suc) s)"
    "mr_inv 0 c e (count (n_skip_trend_update Suc) s)"
    "mr_inv 0 c e (count (n_skip_data_update Suc) s)"
    "mr_inv 0 c e (count (n_skip_kill_update Suc) s)"
    "mr_inv 0 c e (count (n_skip_btc_update Suc) s)"
    "mr_inv 0 c e (count (n_skip_edge_update Suc) s)"
    "mr_inv 0 c e (count (n_skip_confirm_update Suc) s)"
  using assms by (simp_all add: mr_inv_def counts_ok_def)

text \<open>Clocks and blocks are not part of the invariant.\<close>

lemma mr_inv_frame:
  assumes "mr_inv k c e s"
  shows "mr_inv k c e (s\<lparr>st_seen := a\<rparr>)" "mr_inv k c e (s\<lparr>st_blocked := b\<rparr>)"
    "mr_inv k c e (s\<lparr>st_last_entry := b\<rparr>)" "mr_inv k c e (s\<lparr>st_last_exit := b\<rparr>)"
  using assms by (simp_all add: mr_inv_def counts_ok_def)

lemma mr_inv_block: "mr_inv k c e s \<Longrightarrow> mr_inv k c e (block_symbol symb t now s)"
  by (simp add: block_symbol_def mr_inv_frame)

lemma mr_inv_blocked: "mr_inv k c e s \<Longrightarrow> symbol_blocked s symb now = (s', b) \<Longrightarrow> mr_inv k c e s'"
  by (metis symbol_blocked_frame mr_inv_frame(2))

lemma mr_inv_confirmed:
  "mr_inv k c e s \<Longrightarrow> imbalance_confirmed s symb imb pos = (s', b) \<Longrightarrow> mr_inv k c e s'"
  unfolding mr_inv_def using bounded_imbalance_confirmed [of s symb imb pos s' b]
  by (simp add: imbalance_confirmed_keeps)

lemma mr_inv_entry:
  assumes "mr_inv 1 c e s" "build_entry_signal env s symb mid bid ask z imb edge = (s', r)"
  shows "mr_inv (if r = None then 0 else 1) c e s'"
  using assms(2)
proof (cases rule: build_entry_cases)
  case quiet
  then show ?thesis using assms(1) mr_inv_skip [OF assms(1)] mr_inv_weaken by auto
next
  case (waiting s1 b)
  have "mr_inv 1 c e s1" using mr_inv_confirmed [OF assms(1) waiting(2)] .
  then show ?thesis using waiting mr_inv_skip [OF \<open>mr_inv 1 c e s1\<close>] mr_inv_weaken by auto
next
  case long
  then show ?thesis using mr_inv_confirmed [OF assms(1)] by simp
qed (use assms(1) in simp)

lemma mr_inv_try_entry:
  assumes "mr_inv 1 c e s" "try_entry env now d symb mid hist z imb s = (s', r)"
  shows "mr_inv 0 c e s'"
  using assms(2)
proof (cases rule: try_entry_cases)
  case (silent s2 b)
  have i: "mr_inv 1 c e s2" using mr_inv_blocked [OF mr_inv_frame(1) [OF assms(1)] silent(2)] .
  show ?thesis using silent(3) mr_inv_skip [OF i] mr_inv_skip [OF mr_inv_block [OF i]] mr_inv_weaken i by auto
next
  case (built s2 bid ask s3 r3)
  have i: "mr_inv 1 c e s2" using mr_inv_blocked [OF mr_inv_frame(1) [OF assms(1)] built(1)] .
  have j: "mr_inv (if r3 = None then 0 else 1) c e s3" using mr_inv_entry [OF i built(7)] .
  show ?thesis using built(8) j
    by (auto simp: mr_inv_def counts_ok_def bounded_histories_def)
qed

lemma mr_inv_after_exit: "mr_inv 1 c e s \<Longrightarrow> mr_inv 0 c e (after_exit kind symb now s)"
  by (auto simp: after_exit_def Let_def mr_inv_def counts_ok_def bounded_histories_def block_symbol_def)

lemma mr_inv_try_exit:
  assumes "mr_inv 1 c e s" "try_exit now d symb p mid z s = (s', r)"
  shows "mr_inv 0 c e s'"
  using assms(2)
proof (cases rule: try_exit_cases)
  case silent
  then show ?thesis using assms(1) mr_inv_skip [OF assms(1)] mr_inv_weaken mr_inv_frame(1) by auto
next
  case (signal s1 bid ask sig kind)
  then show ?thesis using mr_inv_after_exit mr_inv_frame(1) [OF assms(1)] by auto
qed

lemma mr_inv_on_orderbook:
  assumes "mr_inv 0 c e s" "on_orderbook env active l now d s = (s', r)"
  shows "mr_inv 0 c e s'"
proof -
  note o = mr_inv_observed [OF assms(1)]
  from assms(2) show ?thesis
  proof (cases rule: on_orderbook_cases)
    case quiet
    then show ?thesis
      using o(1) [of d] o(2) mr_inv_skip [OF o(1) [of d]] mr_inv_skip [OF o(2)] mr_inv_weaken by auto
  next
    case bad
    then show ?thesis using o(1) [of d] mr_inv_weaken by auto
  next
    case entry
    then show ?thesis using mr_inv_try_entry [OF o(1)] by blast
  next
    case exit
    then show ?thesis using mr_inv_try_exit [OF o(1)] by blast
  qed
qed

lemma mr_inv_on_market_tick: "mr_inv 0 c e s \<Longrightarrow> mr_inv 0 c e (on_market_tick s d)"
  by (auto simp: on_market_tick_def Let_def mr_inv_def counts_ok_def intro!: bounded_append_mid)

section \<open>Runs\<close>

text \<open>The market events the strategy is driven by; a book comes with the kill switch, ledger and clock.\<close>

datatype mr_event = Tick_Event payload | Book_Event bool ledger pyfloat payload

definition handle_event :: "env \<Rightarrow> strategy \<Rightarrow> mr_event \<Rightarrow> strategy \<times> trade_signal list res" where
  "handle_event env s e =
     (case e of
        Tick_Event d \<Rightarrow> (on_market_tick s d, Inr [])
      | Book_Event active l now d \<Rightarrow> on_orderbook env active l now d s)"

interpretation mr: event_machine "handle_event env" "mr_inv 0 c e" "\<lambda>_. True" for env c e
proof
  fix s ev assume "mr_inv 0 c e s"
  then show "mr_inv 0 c e (fst (handle_event env s ev))"
    by (cases ev) (simp_all add: handle_event_def mr_inv_on_market_tick mr_inv_on_orderbook [OF _ prod.collapse [symmetric]])
qed

lemma new_strategy_inv:
  assumes "new_strategy c env = Inr s0"
  shows "config_checks c = Inr ()" "read_settings c env = Inr (st_set s0)" "mr_inv 0 c (st_set s0) s0"
  using assms by (auto simp: new_strategy_def rbind_Inr_iff mr_inv_def bounded_histories_def counts_ok_def no_counts_def)

lemma reached_inv:
  assumes "new_strategy c env = Inr s0" "run_events (handle_event env) s0 evs = (s, outs)"
  shows "mr_inv 0 c (st_set s0) s"
  using mr.run_inv [OF new_strategy_inv(3) [OF assms(1)], of evs env] assms(2) by (simp add: list_all_iff)

text \<open>The clock of the last entry changes only with an entry, which the cooldown must allow.\<close>

lemma on_orderbook_last_entry:
  assumes "on_orderbook env active l now d s = (s', r)"
  shows "st_cfg s' = st_cfg s \<and>
    (if no_position l (payload_symbol d) \<and> (\<exists>x xs. r = Inr (x # xs))
     then \<not> entry_on_cooldown s (payload_symbol d) now \<and>
          st_last_entry s' = dict_set (payload_symbol d) now (st_last_entry s)
     else st_last_entry s' = st_last_entry s)"
  using assms
proof (cases rule: on_orderbook_cases)
  case (entry imb)
  from entry(3) show ?thesis
  proof (cases rule: try_entry_cases)
    case (silent s2 b)
    have "st_cfg s2 = st_cfg s" "st_last_entry s2 = st_last_entry s"
      using symbol_blocked_keeps [OF silent(2)] by simp_all
    then show ?thesis using silent(1,3) by auto
  next
    case (built s2 bid ask s3 r3)
    have s2: "st_cfg s2 = st_cfg s" "st_last_entry s2 = st_last_entry s"
      using symbol_blocked_keeps [OF built(1)] by simp_all
    have s3: "st_cfg s3 = st_cfg s2" "st_last_entry s3 = st_last_entry s2"
      using built(7) by (auto elim!: build_entry_cases simp: imbalance_confirmed_keeps)
    show ?thesis using built(3,8) entry(2) by (auto simp: s2 s3 entry_on_cooldown_def)
  qed
next
  case (exit imb p)
  have "\<not> no_position l (payload_symbol d)" using exit(2,3) by (simp add: no_position_def)
  with exit(4) show ?thesis
    by (auto elim!: try_exit_cases simp: after_exit_def Let_def)
qed auto

section \<open>Spacing of entries\<close>

text \<open>Within the cooldown of an entry at \<open>t0\<close>: every book of \<open>evs\<close> is read before it has passed.\<close>

definition within_cooldown :: "pyfloat \<Rightarrow> pyfloat \<Rightarrow> mr_event \<Rightarrow> bool" where
  "within_cooldown cooldown t0 e =
     (case e of Tick_Event d \<Rightarrow> True | Book_Event active l now d \<Rightarrow> now - t0 < cooldown)"

text \<open>The event brings no entry for the symbol: it is for another one, or closes a position, or is silent.\<close>

definition no_entry :: "string \<Rightarrow> mr_event \<Rightarrow> trade_signal list res \<Rightarrow> bool" where
  "no_entry symb e r =
     (case e of
        Tick_Event d \<Rightarrow> True
      | Book_Event active l now d \<Rightarrow>
          payload_symbol d \<noteq> symb \<or> \<not> no_position l symb \<or> (case r of Inr (x # xs) \<Rightarrow> False | _ \<Rightarrow> True))"

definition entered_at :: "mr_config \<Rightarrow> string \<Rightarrow> pyfloat \<Rightarrow> strategy \<Rightarrow> bool" where
  "entered_at c symb t0 s \<longleftrightarrow>
     st_cfg s = c \<and> \<not> mc_cooldown c \<le> Fin 0 \<and> map_of (st_last_entry s) symb = Some t0"

lemma no_entry_step:
  assumes "entered_at c symb t0 s" "within_cooldown (mc_cooldown c) t0 e"
  shows "entered_at c symb t0 (fst (handle_event env s e)) \<and> no_entry symb e (snd (handle_event env s e))"
proof (cases e)
  case (Tick_Event d)
  with assms show ?thesis
    by (simp add: handle_event_def no_entry_def on_market_tick_def entered_at_def Let_def)
next
  case (Book_Event active l now d)
  obtain s' r where run: "on_orderbook env active l now d s = (s', r)" by fastforce
  have "entry_on_cooldown s symb now"
    using assms Book_Event by (simp add: entered_at_def within_cooldown_def entry_on_cooldown_def on_cooldown_def)
  then have "\<not> (payload_symbol d = symb \<and> no_position l symb \<and> (\<exists>x xs. r = Inr (x # xs)))"
    and "st_cfg s' = st_cfg s" "map_of (st_last_entry s') symb = map_of (st_last_entry s) symb"
    using on_orderbook_last_entry [OF run] by (auto simp: dict_simps split: if_splits)
  with assms(1) Book_Event run show ?thesis
    by (auto simp: handle_event_def no_entry_def entered_at_def split: sum.splits list.splits)
qed

interpretation spaced: event_machine "handle_event env" "entered_at c symb t0" "within_cooldown (mc_cooldown c) t0"
  for env c symb t0
  by unfold_locales (simp add: no_entry_step)

text \<open>
  C15. After an entry signal for a symbol, whatever ticks and books follow, no second entry for it
  is signalled before the configured cooldown has passed; books of other symbols and exits of
  positions are not held back.
\<close>

theorem entries_spaced_by_cooldown:
  assumes "on_orderbook env active l t0 d s = (s1, Inr [sig])" "no_position l (payload_symbol d)"
    and "Fin 0 < mc_cooldown (st_cfg s)"
    and "list_all (within_cooldown (mc_cooldown (st_cfg s)) t0) evs"
    and "run_events (handle_event env) s1 evs = (s2, outs)"
  shows "list_all2 (no_entry (payload_symbol d)) evs outs"
proof -
  have "entered_at (st_cfg s) (payload_symbol d) t0 s1"
    using on_orderbook_last_entry [OF assms(1)] assms(2,3)
    by (auto simp: entered_at_def dict_simps)
      (cases "mc_cooldown (st_cfg s)"; simp)
  from spaced.run_outcomes [OF this assms(4), of "no_entry (payload_symbol d)" env] no_entry_step assms(5)
  show ?thesis by simp
qed

section \<open>Bounds and counters of a run\<close>

text \<open>
  However many ticks and books arrive, a strategy keeps at most \<open>rolling_window\<close> prices and
  \<open>imbalance_confirm_snapshots\<close> imbalances per symbol, its signals are its entries and exits, and
  every book counts at most once among the signals and the reasons for skipping.
\<close>

theorem strategy_memory_and_counters:
  assumes "new_strategy c env = Inr s0" "run_events (handle_event env) s0 evs = (s, outs)"
  shows "st_cfg s = c \<and> bounded_histories s \<and> counts_ok 0 (st_n s) \<and> length outs = length evs"
  using reached_inv [OF assms] length_run_events [of "handle_event env" s0 evs] assms(2)
  by (simp add: mr_inv_def)

section \<open>Entry signals\<close>

text \<open>The last snapshots of the symbol's imbalance, as many as are asked for, all reach the threshold.\<close>

definition confirmed_imbalances :: "strategy \<Rightarrow> string \<Rightarrow> bool" where
  "confirmed_imbalances s symb =
     (case map_of (st_imbalances s) symb of
        None \<Rightarrow> False
      | Some h \<Rightarrow> length h = nat (me_confirm (st_set s)) \<and> list_all (\<lambda>v. mc_imbalance (st_cfg s) \<le> v) h)"

lemma imbalance_confirmed_True:
  "imbalance_confirmed s symb imb True = (s', True) \<Longrightarrow> confirmed_imbalances s' symb"
  using length_push_bounded [of "nat (me_confirm (st_set s))" "dict_get (st_imbalances s) symb []" imb]
  by (auto simp: imbalance_confirmed_def confirmed_imbalances_def Let_def dict_simps split: if_splits)

lemma btc_market_ok_cong:
  "st_set s = st_set t \<Longrightarrow> st_mids s = st_mids t \<Longrightarrow> btc_market_ok s = btc_market_ok t"
  by (simp only: btc_market_ok_def)

lemma entry_signal_cases:
  assumes "on_orderbook env active l now d s = (s', Inr (x # xs))" "no_position l (payload_symbol d)"
  obtains imb bid ask side where "tradable active s d imb" "xs = []"
    "x = entry_signal_of s side (payload_symbol d) (entry_quantity (st_cfg s) (extract_mid d)) bid ask
       (book_zscore s d) imb"
    "\<not> entry_quantity (st_cfg s) (extract_mid d) \<le> Fin 0"
    "\<not> recent_return_bps (book_history s d) \<le> - mc_bad_drop (st_cfg s)"
    "\<not> (\<exists>t. map_of (st_blocked s) (payload_symbol d) = Some t \<and> \<not> t \<le> now)"
    "if side = BUY
     then book_zscore s d \<le> - mc_entry_z (st_cfg s) \<and> \<not> imb < mc_imbalance (st_cfg s) \<and>
       \<not> expected_edge_bps (book_history s d) (extract_mid d) < me_min_edge (st_set s) \<and>
       confirmed_imbalances s' (payload_symbol d)
     else short_entries_allowed env \<and> mc_entry_z (st_cfg s) \<le> book_zscore s d \<and>
       imb \<le> - mc_imbalance (st_cfg s)"
    "py_float (dict_get d ''best_bid'' (VFloat (Fin 0))) = Inr bid"
    "py_float (dict_get d ''best_ask'' (VFloat (Fin 0))) = Inr ask"
    "\<not> entry_on_cooldown (observed s d) (payload_symbol d) now" "btc_market_ok (observed s d)"
  using assms(1)
proof (cases rule: on_orderbook_cases)
  case (entry imb)
  from entry(3) show ?thesis
  proof (cases rule: try_entry_cases)
    case (built s2 bid ask s3 r3)
    have keeps: "st_cfg s2 = st_cfg s" "st_set s2 = st_set s"
      using symbol_blocked_keeps [OF built(1)] by simp_all
    have sig: "entry_signal_of t side symb q b a z i = entry_signal_of s side symb q b a z i"
      if "st_cfg t = st_cfg s" "st_set t = st_set s" for t side symb q b a z i
      using that by (simp add: entry_signal_of_def)
    have free: "\<not> (\<exists>t. map_of (st_blocked s) (payload_symbol d) = Some t \<and> \<not> t \<le> now)"
      using built(1) by (auto simp: symbol_blocked_eq)
    have drop: "\<not> recent_return_bps (book_history s d) \<le> - mc_bad_drop (st_cfg s)" using built(2) by simp
    have calm: "\<not> entry_on_cooldown (observed s d) (payload_symbol d) now" "btc_market_ok (observed s d)"
      using built(3,4) symbol_blocked_keeps [OF built(1)]
        btc_market_ok_cong [of s2 "observed s d"]
      by (simp_all add: entry_on_cooldown_def)
    obtain sig where "r3 = Some sig \<and> Inr (x # xs) = (Inr [sig] :: trade_signal list res) \<and>
      s' = count (n_signals_update Suc) ((count (n_entries_update Suc) s3)
        \<lparr>st_last_entry := dict_set (payload_symbol d) now (st_last_entry s3)\<rparr>)"
      using built(8) by (elim disjE exE conjE) simp_all
    then have x: "r3 = Some x" "xs = []"
      "s' = count (n_signals_update Suc) ((count (n_entries_update Suc) s3)
        \<lparr>st_last_entry := dict_set (payload_symbol d) now (st_last_entry s3)\<rparr>)"
      by simp_all
    from built(7) show ?thesis
    proof (cases rule: build_entry_cases)
      case long
      have k3: "st_cfg s3 = st_cfg s" "st_set s3 = st_set s"
        using imbalance_confirmed_keeps [OF long(6)] keeps by simp_all
      have "confirmed_imbalances s' (payload_symbol d)"
        using imbalance_confirmed_True [OF long(6)] by (simp add: x(3) confirmed_imbalances_def cong: option.case_cong)
      then show ?thesis using long x(1) keeps drop free calm built(5,6)
        by (intro that [OF entry(1) x(2), of BUY bid ask]) (simp_all add: sig [OF k3] k3)
    next
      case short
      then show ?thesis using x(1) keeps drop free calm built(5,6)
        by (intro that [OF entry(1) x(2), of SELL bid ask]) (simp_all add: sig [OF keeps])
    qed (use x(1) in simp_all)
  qed auto
next
  case (exit imb p)
  then show ?thesis using assms(2) by (simp add: no_position_def)
qed auto

text \<open>What the filters say in terms of the data they read.\<close>

lemma entry_on_cooldown_False:
  "\<not> entry_on_cooldown s symb now \<longleftrightarrow>
     mc_cooldown (st_cfg s) \<le> Fin 0 \<or>
     (\<forall>t. map_of (st_last_entry s) symb = Some t \<longrightarrow> \<not> now - t < mc_cooldown (st_cfg s))"
  by (auto simp: entry_on_cooldown_def on_cooldown_def split: option.splits)

lemma btc_market_ok_iff:
  "btc_market_ok s \<longleftrightarrow>
     \<not> me_btc_filter (st_set s) \<or>
     (\<exists>h. map_of (st_mids s) (me_btc_symbol (st_set s)) = Some h \<and> me_btc_min_obs (st_set s) \<le> int (length h) \<and>
        \<not> recent_return_bps h \<le> - \<bar>me_btc_drop (st_set s)\<bar> \<and>
        \<not> me_btc_vol (st_set s) \<le> volatility_bps (Some h) (me_btc_min_obs (st_set s))) \<or>
     (\<not> me_btc_require (st_set s) \<and>
        (\<forall>h. map_of (st_mids s) (me_btc_symbol (st_set s)) = Some h \<longrightarrow> int (length h) < me_btc_min_obs (st_set s)))"
  by (auto simp: btc_market_ok_def Let_def not_less split: option.splits)

text \<open>
  C16. A signal for a symbol without an open position is the only one of its book and has passed every
  filter of the handler. The kill switch is active, the mid price is not zero or less, the history is
  long enough, the spread is not above the limit; the Bitcoin symbol itself is traded only if that is
  enabled. The symbol is not blocked, has not dropped too far, and its last entry is at least the
  cooldown ago. With the Bitcoin filter enabled, the history of the Bitcoin symbol, this book included,
  shows neither a drop nor a volatility beyond the limits, or it is too short and not required. The
  quantity is the configured size, the price comes from the quotes of the book, and a purchase comes at
  a z-score of at most minus the threshold with enough expected edge and the last imbalances confirmed,
  a sale only where short entries are enabled and for the mirrored reasons.
\<close>

theorem entry_signals_filtered:
  assumes "on_orderbook env active l now d s = (s', Inr (x # xs))" "no_position l (payload_symbol d)"
  shows "xs = [] \<and> active \<and> s_symbol x = payload_symbol d \<and> s_type x = me_type (st_set s) \<and>
    s_quantity x = entry_quantity (st_cfg s) (extract_mid d) \<and> \<not> s_quantity x \<le> Fin 0 \<and>
    \<not> extract_mid d \<le> Fin 0 \<and>
    mc_min_obs (st_cfg s) \<le> int (length (book_history s d)) \<and>
    \<not> mc_max_spread (st_cfg s) < extract_spread_bps d (extract_mid d) \<and>
    (payload_symbol d \<noteq> me_btc_symbol (st_set s) \<or> me_trade_btc (st_set s)) \<and>
    \<not> (\<exists>t. map_of (st_blocked s) (payload_symbol d) = Some t \<and> \<not> t \<le> now) \<and>
    \<not> recent_return_bps (book_history s d) \<le> - mc_bad_drop (st_cfg s) \<and>
    (mc_cooldown (st_cfg s) \<le> Fin 0 \<or>
     (\<forall>t. map_of (st_last_entry s) (payload_symbol d) = Some t \<longrightarrow> \<not> now - t < mc_cooldown (st_cfg s))) \<and>
    (\<not> me_btc_filter (st_set s) \<or>
     (\<exists>h. map_of (st_mids (observed s d)) (me_btc_symbol (st_set s)) = Some h \<and>
        me_btc_min_obs (st_set s) \<le> int (length h) \<and>
        \<not> recent_return_bps h \<le> - \<bar>me_btc_drop (st_set s)\<bar> \<and>
        \<not> me_btc_vol (st_set s) \<le> volatility_bps (Some h) (me_btc_min_obs (st_set s))) \<or>
     (\<not> me_btc_require (st_set s) \<and>
        (\<forall>h. map_of (st_mids (observed s d)) (me_btc_symbol (st_set s)) = Some h \<longrightarrow>
           int (length h) < me_btc_min_obs (st_set s)))) \<and>
    (\<exists>imb bid ask. py_float (dict_get d ''imbalance'' (VFloat (Fin 0))) = Inr imb \<and>
       py_float (dict_get d ''best_bid'' (VFloat (Fin 0))) = Inr bid \<and>
       py_float (dict_get d ''best_ask'' (VFloat (Fin 0))) = Inr ask \<and>
       s_price x = entry_price (st_set s) (s_side x) bid ask \<and>
       (if s_side x = BUY
        then book_zscore s d \<le> - mc_entry_z (st_cfg s) \<and> \<not> imb < mc_imbalance (st_cfg s) \<and>
          \<not> expected_edge_bps (book_history s d) (extract_mid d) < me_min_edge (st_set s) \<and>
          confirmed_imbalances s' (payload_symbol d)
        else short_entries_allowed env \<and> mc_entry_z (st_cfg s) \<le> book_zscore s d \<and>
          imb \<le> - mc_imbalance (st_cfg s)))"
  using assms
proof (rule entry_signal_cases)
  fix imb bid ask side
  assume tr: "tradable active s d imb" "xs = []"
    and x: "x = entry_signal_of s side (payload_symbol d) (entry_quantity (st_cfg s) (extract_mid d)) bid ask
      (book_zscore s d) imb"
    and filters: "\<not> entry_quantity (st_cfg s) (extract_mid d) \<le> Fin 0"
      "\<not> recent_return_bps (book_history s d) \<le> - mc_bad_drop (st_cfg s)"
      "\<not> (\<exists>t. map_of (st_blocked s) (payload_symbol d) = Some t \<and> \<not> t \<le> now)"
      "if side = BUY
       then book_zscore s d \<le> - mc_entry_z (st_cfg s) \<and> \<not> imb < mc_imbalance (st_cfg s) \<and>
         \<not> expected_edge_bps (book_history s d) (extract_mid d) < me_min_edge (st_set s) \<and>
         confirmed_imbalances s' (payload_symbol d)
       else short_entries_allowed env \<and> mc_entry_z (st_cfg s) \<le> book_zscore s d \<and>
         imb \<le> - mc_imbalance (st_cfg s)"
      "py_float (dict_get d ''best_bid'' (VFloat (Fin 0))) = Inr bid"
      "py_float (dict_get d ''best_ask'' (VFloat (Fin 0))) = Inr ask"
    and calm: "\<not> entry_on_cooldown (observed s d) (payload_symbol d) now" "btc_market_ok (observed s d)"
  have shape: "s_symbol x = payload_symbol d" "s_type x = me_type (st_set s)" "s_side x = side"
    "s_quantity x = entry_quantity (st_cfg s) (extract_mid d)" "s_price x = entry_price (st_set s) side bid ask"
    by (simp_all add: x entry_signal_of_def)
  note calm' = calm(1) [unfolded entry_on_cooldown_False observed_frame] calm(2) [unfolded btc_market_ok_iff observed_frame]
  show ?thesis
    unfolding shape using tr filters
    by (intro conjI calm' exI [of _ imb] exI [of _ bid] exI [of _ ask]) (simp_all add: tradable_def)
qed

text \<open>
  The size of an entry stays within the configured notional: for finite settings accepted by the
  constructor it differs from the smaller of the maximum and of the larger of target and minimum by
  no more than the rounding of the quantity to eight decimals.
\<close>

theorem entry_notional_bounded:
  assumes "config_checks c = Inr ()"
    and "mc_target c = Fin t" "mc_min_order c = Fin m" "mc_max_position c = Fin x" "0 < p"
  shows "\<exists>q. entry_quantity c (Fin p) = Fin q \<and> \<bar>q * p - min (max t m) x\<bar> \<le> p / (2 * 10 ^ 8) \<and>
    q * p \<le> x + p / (2 * 10 ^ 8) \<and> m - p / (2 * 10 ^ 8) \<le> q * p"
proof -
  let ?b = "min (max t m) x"
  have m: "m \<le> x" using config_checks_facts [OF assms(1)] assms(2-4) by simp
  define q where "q = val_of (py_round (Fin (?b / p)) 8)"
  have q: "entry_quantity c (Fin p) = Fin q"
  proof -
    have "\<not> ?b < m" using m by simp
    with assms(2-5) show ?thesis by (simp add: entry_quantity_def q_def)
  qed
  have close: "\<bar>q - ?b / p\<bar> \<le> 1 / (2 * 10 ^ 8)" unfolding q_def by (rule py_round_close)
  have "q * p - ?b = (q - ?b / p) * p" using assms(5) by (simp add: left_diff_distrib)
  then have "\<bar>q * p - ?b\<bar> = \<bar>q - ?b / p\<bar> * p" using assms(5) by (simp add: abs_mult)
  also have "\<dots> \<le> 1 / (2 * 10 ^ 8) * p" using close assms(5) by (intro mult_right_mono) simp_all
  finally have "\<bar>q * p - ?b\<bar> \<le> p / (2 * 10 ^ 8)" by simp
  moreover have "m \<le> ?b" "?b \<le> x" using m by simp_all
  ultimately show ?thesis unfolding q abs_le_iff by (intro exI [of _ q]) (simp; linarith)
qed

section \<open>Exit signals\<close>

lemma exit_signal_cases:
  assumes "on_orderbook env active l now d s = (s', Inr (x # xs))"
    and "get_position l (payload_symbol d) = Some p" "p_quantity p \<noteq> Fin 0"
  obtains imb s1 bid ask kind where "tradable active s d imb" "xs = []"
    "s1 = (observed s d)\<lparr>st_seen := dict_set (payload_symbol d)
       (dict_get (st_seen s) (payload_symbol d) now) (st_seen s)\<rparr>"
    "py_float (dict_get d ''best_bid'' (VFloat (Fin 0))) = Inr bid"
    "py_float (dict_get d ''best_ask'' (VFloat (Fin 0))) = Inr ask"
    "build_exit_signal s1 (payload_symbol d) p bid ask (extract_mid d) (book_zscore s d) now = Some (x, kind)"
    "s' = after_exit kind (payload_symbol d) now s1"
  using assms(1)
proof (cases rule: on_orderbook_cases)
  case (entry imb)
  then show ?thesis using assms(2,3) by (simp add: no_position_def)
next
  case (exit imb q)
  have "q = p" using exit(2) assms(2) by simp
  from exit(4) show ?thesis
  proof (cases rule: try_exit_cases)
    case (signal s1 bid ask sig kind)
    then show ?thesis unfolding \<open>q = p\<close> using exit(1) by (intro that) auto
  qed auto
qed auto

lemma build_exit_shape:
  assumes "build_exit_signal s symb p bid ask mid z now = Some (x, kind)"
  shows "s_symbol x = symb \<and> s_quantity x = \<bar>p_quantity p\<bar> \<and> s_type x = me_type (st_set s) \<and>
    s_confidence x = Some (Fin 1) \<and> p_quantity p \<noteq> NaN \<and>
    s_side x = (if Fin 0 < p_quantity p then SELL else BUY) \<and> \<bar>p_quantity p\<bar> \<noteq> Fin 0"
  using assms
  by (cases "p_quantity p")
    (auto simp: build_exit_signal_def exit_signal_of_def Let_def split: if_splits option.splits)

text \<open>
  A signal for a symbol with an open position closes exactly that position: the whole absolute
  quantity, on the opposite side, at most one signal per book. It never adds to the position.
\<close>

theorem exit_closes_the_position:
  assumes "on_orderbook env active l now d s = (s', Inr (x # xs))"
    and "get_position l (payload_symbol d) = Some p" "p_quantity p \<noteq> Fin 0"
  shows "xs = [] \<and> active \<and> s_symbol x = payload_symbol d \<and>
    p_quantity p + (if s_side x = BUY then s_quantity x else - s_quantity x) \<in> {Fin 0, NaN} \<and>
    s_side x = (if Fin 0 < p_quantity p then SELL else BUY) \<and>
    (is_fin (p_quantity p) \<longrightarrow>
       p_quantity p + (if s_side x = BUY then s_quantity x else - s_quantity x) = Fin 0)"
  using assms(1,2,3)
proof (rule exit_signal_cases)
  fix imb s1 bid ask kind
  assume "tradable active s d imb" "xs = []"
    "build_exit_signal s1 (payload_symbol d) p bid ask (extract_mid d) (book_zscore s d) now = Some (x, kind)"
  then show ?thesis using build_exit_shape [of s1 "payload_symbol d" p bid ask _ _ now x kind] assms(3)
    by (cases "p_quantity p") (auto simp: tradable_def)
qed

lemma market_signals_valid:
  assumes "on_orderbook env active l now d s = (s', Inr sigs)" "me_type (st_set s) = MARKET"
  shows "list_all (\<lambda>x. signal_validate x = Inr () \<and> s_type x = MARKET) sigs"
proof (cases sigs)
  case (Cons x xs)
  note run = assms(1) [unfolded Cons]
  have conf: "Fin 0 \<le> confidence c z \<and> confidence c z \<le> Fin 1" for c z
    by (cases z; cases "mc_entry_z c") (auto simp: confidence_def py_min_def py_max_def)
  show ?thesis
  proof (cases "no_position l (payload_symbol d)")
    case True
    from run True show ?thesis unfolding Cons
      by (rule entry_signal_cases)
        (auto simp: tradable_def entry_signal_of_def signal_validate_def check_all_ok assms(2) conf)
  next
    case False
    then obtain p where p: "get_position l (payload_symbol d) = Some p" "p_quantity p \<noteq> Fin 0"
      by (auto simp: no_position_def split: option.splits)
    from run p show ?thesis unfolding Cons
    proof (rule exit_signal_cases)
      fix imb s1 bid ask kind
      assume h: "tradable active s d imb" "xs = []"
        "s1 = (observed s d)\<lparr>st_seen := dict_set (payload_symbol d)
           (dict_get (st_seen s) (payload_symbol d) now) (st_seen s)\<rparr>"
        "build_exit_signal s1 (payload_symbol d) p bid ask (extract_mid d) (book_zscore s d) now = Some (x, kind)"
      then show "list_all (\<lambda>x. signal_validate x = Inr () \<and> s_type x = MARKET) (x # xs)"
        using build_exit_shape [OF h(4)] assms(2)
        by (cases "p_quantity p") (auto simp: tradable_def signal_validate_def check_all_ok)
    qed
  qed
qed simp

text \<open>
  The signals of a strategy that trades at market are well formed: \<open>TradeSignal.validate\<close> accepts
  every one of them, so \<open>to_order\<close> never raises on them.
\<close>

theorem market_signals_validate:
  assumes "on_orderbook env active l now d s = (s', Inr sigs)" "me_type (st_set s) = MARKET"
  shows "list_all (\<lambda>x. signal_validate x = Inr () \<and> s_type x = MARKET) sigs"
  using assms by (rule market_signals_valid)

section \<open>Selling at a loss\<close>

lemma read_settings_profit:
  assumes "read_settings c env = Inr e"
  shows "\<exists>y. me_min_profit e = py_max (mc_min_profit c) y"
  using assms by (auto simp: read_settings_def Let_def rbind_Inr_iff)

lemma py_max_keeps_positive:
  "\<not> a \<le> Fin 0 \<Longrightarrow> r < 0 \<Longrightarrow> \<not> py_max a b \<le> Fin r"
  "\<not> a < Fin 0 \<Longrightarrow> r < 0 \<Longrightarrow> \<not> py_max a b \<le> Fin r"
  by (cases a; cases b; simp add: py_max_def)+

lemma losing_exit_reason:
  assumes "\<not> mc_take_profit (st_cfg s) \<le> Fin 0" "\<not> mc_min_profit (st_cfg s) < Fin 0"
    and "me_min_profit (st_set s) = py_max (mc_min_profit (st_cfg s)) y"
    and "r < 0" "exit_reason s symb reverted (Fin r) age = Some kind"
  shows "kind = ''stop_loss'' \<and> Fin r \<le> - dynamic_stop_loss s (map_of (st_mids s) symb)"
proof -
  have "\<not> fee_adjusted_take_profit s \<le> Fin r"
    unfolding fee_adjusted_take_profit_def using py_max_keeps_positive(1) assms(1,4) by blast
  moreover have "\<not> me_min_profit (st_set s) \<le> Fin r"
    unfolding assms(3) using py_max_keeps_positive(2) assms(2,4) by blast
  moreover have "\<not> Fin 0 \<le> Fin r" using assms(4) by simp
  ultimately show ?thesis using assms(5) by (auto simp: exit_reason_def split: if_splits)
qed

text \<open>
  C14. A long position is sold below its entry price only by the stop: in every state a strategy can
  reach, a signal at a bid under the average entry is a stop loss, with the loss at least the stop
  distance. However long the position has been held, the time stop never closes it at a loss.
\<close>

theorem sold_at_a_loss_only_by_stop:
  assumes "new_strategy c env = Inr s0" "run_events (handle_event env) s0 evs = (s, outs)"
    and "on_orderbook env active l now d s = (s', Inr (x # xs))"
    and "get_position l (payload_symbol d) = Some p" "p_quantity p = Fin q" "0 < q"
    and "p_avg_entry p = Fin a" "dict_get d ''best_bid'' (VFloat (Fin 0)) = VFloat (Fin b)" "0 < b" "b < a"
  shows "Fin ((b - a) / a * 10000) \<le>
      - dynamic_stop_loss (observed s d) (map_of (st_mids (observed s d)) (payload_symbol d)) \<and>
    n_stop_loss (st_n s') = Suc (n_stop_loss (st_n s)) \<and> n_time_exit (st_n s') = n_time_exit (st_n s)"
proof -
  have inv: "st_cfg s = c" "st_set s = st_set s0"
    using reached_inv [OF assms(1,2)] by (simp_all add: mr_inv_def)
  note checks = config_checks_facts [OF new_strategy_inv(1) [OF assms(1)]]
  obtain y where y: "me_min_profit (st_set s0) = py_max (mc_min_profit c) y"
    using read_settings_profit [OF new_strategy_inv(2) [OF assms(1)]] by blast
  have "p_quantity p \<noteq> Fin 0" using assms(5,6) by simp
  with assms(3,4) show ?thesis
  proof (rule exit_signal_cases)
    fix imb s1 bid ask kind
    assume s1: "s1 = (observed s d)\<lparr>st_seen := dict_set (payload_symbol d)
        (dict_get (st_seen s) (payload_symbol d) now) (st_seen s)\<rparr>"
      and bid: "py_float (dict_get d ''best_bid'' (VFloat (Fin 0))) = Inr bid"
      and built: "build_exit_signal s1 (payload_symbol d) p bid ask (extract_mid d) (book_zscore s d) now = Some (x, kind)"
      and s': "s' = after_exit kind (payload_symbol d) now s1"
    have b: "bid = Fin b" using bid assms(8) by simp
    have neg: "(b - a) / a * 10000 < 0" using assms(9,10) by (simp add: divide_neg_pos mult_neg_pos)
    obtain age reverted where "exit_reason s1 (payload_symbol d) reverted (Fin ((b - a) / a * 10000)) age = Some kind"
      using built assms(5-7,9,10) by (auto simp: build_exit_signal_def Let_def b)
    from losing_exit_reason [OF _ _ _ neg this, of y] checks inv y
    have "kind = ''stop_loss''" and stop: "Fin ((b - a) / a * 10000) \<le>
        - dynamic_stop_loss s1 (map_of (st_mids s1) (payload_symbol d))"
      by (simp_all add: s1)
    moreover have "dynamic_stop_loss s1 h = dynamic_stop_loss (observed s d) h" for h
      by (simp add: s1 dynamic_stop_loss_def Let_def)
    ultimately show ?thesis
      by (simp add: s' s1 after_exit_def block_symbol_def Let_def)
  qed
qed

section \<open>A sample strategy\<close>

definition sample_env :: env where
  "sample_env = (\<lambda>_. None)"

definition sample_config :: mr_config where
  "sample_config =
     \<lparr>mc_target = Fin 18, mc_max_position = Fin 50, mc_window = 10, mc_min_obs = 5, mc_entry_z = Fin 2,
      mc_exit_z = Fin (1 / 2), mc_imbalance = Fin (1 / 5), mc_max_spread = Fin 50, mc_cooldown = Fin 60,
      mc_order_type = ''MARKET'', mc_min_order = Fin 10, mc_take_profit = Fin 60, mc_stop_loss = Fin 35,
      mc_min_profit = Fin 18, mc_max_hold = Fin 900, mc_exit_cooldown = Fin 900,
      mc_loss_cooldown = Fin 3600, mc_bad_drop = Fin 1200\<rparr>"

definition sample_settings :: mr_settings where
  "sample_settings =
     \<lparr>me_type = MARKET, me_round_trip = Fin 0, me_min_profit = Fin 18, me_min_edge = Fin 18,
      me_confirm = 1, me_dynamic_stop = False, me_stop_min = Fin 35, me_stop_max = Fin 35,
      me_stop_mult = Fin (3 / 2), me_stop_lookback = 20, me_btc_filter = False, me_btc_require = False,
      me_btc_symbol = ''BTC/USDT'', me_trade_btc = True, me_btc_min_obs = 10, me_btc_drop = Fin 40,
      me_btc_vol = Fin 80\<rparr>"

definition sample_start :: strategy where
  "sample_start =
     \<lparr>st_cfg = sample_config, st_set = sample_settings, st_mids = [], st_last_entry = [], st_last_exit = [],
      st_seen = [], st_blocked = [], st_imbalances = [], st_n = no_counts\<rparr>"

definition tick_at :: "real \<Rightarrow> mr_event" where
  "tick_at p = Tick_Event [(''symbol'', VStr ''A''), (''mid_price'', VFloat (Fin p))]"

definition book_at :: "real \<Rightarrow> payload" where
  "book_at p = [(''symbol'', VStr ''A''), (''mid_price'', VFloat (Fin p)), (''spread_bps'', VInt 10),
     (''imbalance'', VInt 1), (''best_bid'', VFloat (Fin p)), (''best_ask'', VFloat (Fin (p + 1)))]"

text \<open>Four ticks at 100; then a book at 90, a z-score of minus two.\<close>

definition sample_warm :: strategy where
  "sample_warm = sample_start\<lparr>st_mids := [(''A'', [Fin 100, Fin 100, Fin 100, Fin 100])],
     st_n := no_counts\<lparr>n_ticks := 4\<rparr>\<rparr>"

lemmas sample_simps =
  sample_env_def sample_config_def sample_settings_def sample_start_def sample_warm_def tick_at_def book_at_def

lemma sample_constructed: "new_strategy sample_config sample_env = Inr sample_start"
  by (simp add: new_strategy_def config_checks_def read_settings_def sample_simps float_env_def int_env_def
      bool_env_def type_of_def str_simps Let_def py_max_def str_strip_def is_space_def)

lemma sample_warmed:
  "run_events (handle_event sample_env) sample_start [tick_at 100, tick_at 100, tick_at 100, tick_at 100] =
     (sample_warm, [Inr [], Inr [], Inr [], Inr []])"
  by (simp add: handle_event_def on_market_tick_def sample_simps payload_symbol_def extract_mid_def Let_def
      dict_simps dict_get_def append_mid_def push_bounded_def last_n_def str_strip_def is_space_def
      no_counts_def numeral_eq_Suc)

lemma sample_observed:
  "st_mids (observed sample_warm (book_at 90)) = [(''A'', [Fin 100, Fin 100, Fin 100, Fin 100, Fin 90])]"
  "payload_symbol (book_at p) = ''A''" "0 < p \<Longrightarrow> extract_mid (book_at p) = Fin p"
  "extract_spread_bps (book_at p) m = Fin 10"
  by (simp_all add: observed_def append_mid_def sample_simps payload_symbol_def extract_mid_def dict_simps
      dict_get_def push_bounded_def last_n_def str_strip_def is_space_def numeral_eq_Suc extract_spread_bps_def)

lemma sample_zscore:
  "book_history sample_warm (book_at 90) = [Fin 100, Fin 100, Fin 100, Fin 100, Fin 90]"
  "book_zscore sample_warm (book_at 90) = Fin (- 2)"
proof -
  show h: "book_history sample_warm (book_at 90) = [Fin 100, Fin 100, Fin 100, Fin 100, Fin 90]"
    by (simp add: book_history_def sample_observed dict_get_def)
  have "sqrt 16 = (4 :: real)" using real_sqrt_abs [of 4] by simp
  then show "book_zscore sample_warm (book_at 90) = Fin (- 2)"
    by (simp add: book_zscore_def h sample_observed zscore_def pstdev_def py_mean_def Let_def)
qed

lemma sample_entry:
  "\<exists>s1 sig. on_orderbook sample_env True new_ledger (Fin 1000) (book_at 90) sample_warm = (s1, Inr [sig])"
proof -
  have frame: "st_cfg sample_warm = sample_config" "st_set sample_warm = sample_settings"
    "st_blocked sample_warm = []" "st_last_entry sample_warm = []" "st_imbalances sample_warm = []"
    by (simp_all add: sample_warm_def sample_start_def)
  have fields: "py_float (dict_get (book_at 90) ''imbalance'' (VFloat (Fin 0))) = Inr (Fin 1)"
    "py_float (dict_get (book_at 90) ''best_bid'' (VFloat (Fin 0))) = Inr (Fin 90)"
    "py_float (dict_get (book_at 90) ''best_ask'' (VFloat (Fin 0))) = Inr (Fin 91)"
    by (simp_all add: book_at_def dict_get_def)
  have qty: "entry_quantity sample_config (Fin 90) = Fin (1 / 5)"
    using round_half_even_of_int [of 20000000] by (simp add: entry_quantity_def sample_config_def)
  have none: "no_position new_ledger ''A''" by (simp add: no_position_def get_position_def new_ledger_def)
  have vals: "mc_min_obs sample_config = 5" "mc_max_spread sample_config = Fin 50"
    "me_trade_btc sample_settings" "mc_bad_drop sample_config = Fin 1200" "mc_entry_z sample_config = Fin 2"
    "mc_imbalance sample_config = Fin (1 / 5)" "me_confirm sample_settings = 1" "me_min_edge sample_settings = Fin 18"
    "\<not> me_btc_filter sample_settings"
    by (simp_all add: sample_config_def sample_settings_def)
  have "on_orderbook sample_env True new_ledger (Fin 1000) (book_at 90) sample_warm =
      try_entry sample_env (Fin 1000) (book_at 90) ''A'' (Fin 90) [Fin 100, Fin 100, Fin 100, Fin 100, Fin 90]
        (Fin (- 2)) (Fin 1) (observed sample_warm (book_at 90))"
    by (simp add: on_orderbook_eq Let_def frame sample_observed sample_zscore fields none vals)
  moreover have "\<exists>s1 sig. \<dots> = (s1, Inr [sig])"
    by (simp add: try_entry_def symbol_blocked_def frame fields recent_return_bps_def entry_on_cooldown_def
        on_cooldown_def btc_market_ok_def build_entry_signal_def qty vals Let_def expected_edge_bps_def
        py_mean_def imbalance_confirmed_def push_bounded_def last_n_def)
  ultimately show ?thesis by simp
qed

text \<open>The same book with a unit held since an entry at 100.\<close>

definition held_unit :: position where
  "held_unit = \<lparr>p_symbol = ''A'', p_quantity = Fin 1, p_avg_entry = Fin 100, p_realized = Fin 0,
     p_unrealized = Fin 0, p_updated_at = DT 2024 1 1 0 0 0 0 None\<rparr>"

definition held_ledger :: ledger where
  "held_ledger = new_ledger\<lparr>l_positions := [(''A'', held_unit)]\<rparr>"

lemma sample_exit:
  "\<exists>s1 sig. on_orderbook sample_env True held_ledger (Fin 1000) (book_at 90) sample_warm = (s1, Inr [sig])"
proof -
  have frame: "st_cfg sample_warm = sample_config" "st_set sample_warm = sample_settings"
    "st_last_exit sample_warm = []" "st_seen sample_warm = []"
    by (simp_all add: sample_warm_def sample_start_def)
  have fields: "py_float (dict_get (book_at 90) ''imbalance'' (VFloat (Fin 0))) = Inr (Fin 1)"
    "py_float (dict_get (book_at 90) ''best_bid'' (VFloat (Fin 0))) = Inr (Fin 90)"
    "py_float (dict_get (book_at 90) ''best_ask'' (VFloat (Fin 0))) = Inr (Fin 91)"
    by (simp_all add: book_at_def dict_get_def)
  have pos: "\<not> no_position held_ledger ''A''" "get_position held_ledger ''A'' = Some held_unit"
    by (simp_all add: no_position_def get_position_def held_ledger_def held_unit_def)
  have vals: "mc_min_obs sample_config = 5" "mc_max_spread sample_config = Fin 50"
    "me_trade_btc sample_settings" "mc_cooldown sample_config = Fin 60" "\<not> me_dynamic_stop sample_settings"
    "mc_take_profit sample_config = Fin 60" "mc_stop_loss sample_config = Fin 35"
    "me_round_trip sample_settings = Fin 0" "me_min_profit sample_settings = Fin 18"
    by (simp_all add: sample_config_def sample_settings_def)
  have "on_orderbook sample_env True held_ledger (Fin 1000) (book_at 90) sample_warm =
      try_exit (Fin 1000) (book_at 90) ''A'' held_unit (Fin 90) (Fin (- 2)) (observed sample_warm (book_at 90))"
    by (simp add: on_orderbook_eq Let_def frame sample_observed sample_zscore fields pos vals)
  moreover have "\<exists>s1 sig. \<dots> = (s1, Inr [sig])"
    by (simp add: try_exit_def exit_on_cooldown_def on_cooldown_def frame fields build_exit_signal_def
        exit_reason_def fee_adjusted_take_profit_def dynamic_stop_loss_def vals held_unit_def Let_def dict_simps)
  ultimately show ?thesis by simp
qed

lemma entries_spaced_by_cooldown_witness:
  "\<exists>s1 sig. on_orderbook sample_env True new_ledger (Fin 1000) (book_at 90) sample_warm = (s1, Inr [sig]) \<and>
     list_all2 (no_entry ''A'') [Book_Event True new_ledger (Fin 1030) (book_at 90)]
       (snd (run_events (handle_event sample_env) s1 [Book_Event True new_ledger (Fin 1030) (book_at 90)]))"
proof -
  obtain s1 sig where e: "on_orderbook sample_env True new_ledger (Fin 1000) (book_at 90) sample_warm = (s1, Inr [sig])"
    using sample_entry by blast
  have "list_all2 (no_entry (payload_symbol (book_at 90))) [Book_Event True new_ledger (Fin 1030) (book_at 90)]
       (snd (run_events (handle_event sample_env) s1 [Book_Event True new_ledger (Fin 1030) (book_at 90)]))"
    by (rule entries_spaced_by_cooldown [OF e _ _ _ prod.collapse [symmetric]])
      (simp_all add: no_position_def get_position_def new_ledger_def within_cooldown_def sample_warm_def
        sample_start_def sample_config_def)
  with e show ?thesis by (simp only: sample_observed) blast
qed

lemma strategy_memory_and_counters_witness:
  "bounded_histories sample_warm \<and> counts_ok 0 (st_n sample_warm)"
  using strategy_memory_and_counters [OF sample_constructed sample_warmed] by simp

lemma entry_signals_filtered_witness:
  "\<exists>s1 sig. on_orderbook sample_env True new_ledger (Fin 1000) (book_at 90) sample_warm = (s1, Inr [sig]) \<and>
     s_symbol sig = ''A'' \<and> s_quantity sig = entry_quantity sample_config (Fin 90)"
proof -
  obtain s1 sig where e: "on_orderbook sample_env True new_ledger (Fin 1000) (book_at 90) sample_warm = (s1, Inr [sig])"
    using sample_entry by blast
  have "no_position new_ledger (payload_symbol (book_at 90))"
    by (simp add: no_position_def get_position_def new_ledger_def)
  from e entry_signals_filtered [OF e this] show ?thesis
    by (intro exI [of _ s1] exI [of _ sig]) (simp add: sample_observed sample_warm_def sample_start_def)
qed

lemma entry_notional_bounded_witness:
  "\<exists>q. entry_quantity sample_config (Fin 90) = Fin q \<and> q * 90 \<le> 50 + 90 / (2 * 10 ^ 8)"
  using entry_notional_bounded [OF new_strategy_inv(1) [OF sample_constructed], of 18 10 50 90]
  by (auto simp: sample_config_def)

lemma exit_closes_the_position_witness:
  "\<exists>s1 sig. on_orderbook sample_env True held_ledger (Fin 1000) (book_at 90) sample_warm = (s1, Inr [sig]) \<and>
     s_side sig = SELL"
proof -
  obtain s1 sig where e: "on_orderbook sample_env True held_ledger (Fin 1000) (book_at 90) sample_warm = (s1, Inr [sig])"
    using sample_exit by blast
  have "get_position held_ledger (payload_symbol (book_at 90)) = Some held_unit" "p_quantity held_unit = Fin 1"
    by (simp_all add: get_position_def held_ledger_def held_unit_def sample_observed)
  with e exit_closes_the_position [OF e this(1)] show ?thesis by auto
qed

lemma market_signals_validate_witness:
  "\<exists>s1 sig. on_orderbook sample_env True held_ledger (Fin 1000) (book_at 90) sample_warm = (s1, Inr [sig]) \<and>
     signal_validate sig = Inr ()"
proof -
  obtain s1 sig where e: "on_orderbook sample_env True held_ledger (Fin 1000) (book_at 90) sample_warm = (s1, Inr [sig])"
    using sample_exit by blast
  have "me_type (st_set sample_warm) = MARKET" by (simp add: sample_warm_def sample_start_def sample_settings_def)
  with e market_signals_validate [OF e this] show ?thesis by auto
qed

lemma sold_at_a_loss_only_by_stop_witness:
  "\<exists>s1 sig. on_orderbook sample_env True held_ledger (Fin 1000) (book_at 90) sample_warm = (s1, Inr [sig]) \<and>
     n_stop_loss (st_n s1) = 1"
proof -
  obtain s1 sig where e: "on_orderbook sample_env True held_ledger (Fin 1000) (book_at 90) sample_warm = (s1, Inr [sig])"
    using sample_exit by blast
  have "get_position held_ledger (payload_symbol (book_at 90)) = Some held_unit"
    "p_quantity held_unit = Fin 1" "p_avg_entry held_unit = Fin 100"
    by (simp_all add: get_position_def held_ledger_def held_unit_def sample_observed)
  moreover have "dict_get (book_at 90) ''best_bid'' (VFloat (Fin 0)) = VFloat (Fin 90)"
    by (simp add: book_at_def dict_get_def)
  ultimately have "n_stop_loss (st_n s1) = Suc (n_stop_loss (st_n sample_warm))"
    using sold_at_a_loss_only_by_stop [OF sample_constructed sample_warmed e, of held_unit 1 100 90] by simp
  with e show ?thesis by (auto simp: sample_warm_def no_counts_def)
qed

end
