(* ===== verification/Py_Sequences.thy ===== *)
theory Py_Sequences
  imports Prelude "HOL-Library.Multiset"
begin

text \<open>
  What the code uses of Python's sequences: splitting and comparing text, stable sorting by a key, and
  prefixes of lists.
\<close>

section \<open>Text\<close>

text \<open>\<open>s.split(",")\<close>, which always has at least one part.\<close>

fun split_comma :: "string \<Rightarrow> string list" where
  "split_comma [] = [[]]"
| "split_comma (c # cs) =
     (if c = CHR '','' then [] # split_comma cs
      else (case split_comma cs of [] \<Rightarrow> [[c]] | p # ps \<Rightarrow> (c # p) # ps))"

definition ends_with :: "string \<Rightarrow> string \<Rightarrow> bool" where
  "ends_with s suffix = (drop (length s - length suffix) s = suffix)"

definition starts_with :: "string \<Rightarrow> string \<Rightarrow> bool" where
  "starts_with s p \<longleftrightarrow> take (length p) s = p"

text \<open>\<open>p in s\<close>: whether one text occurs in another.\<close>

fun str_contains :: "string \<Rightarrow> string \<Rightarrow> bool" where
  "str_contains p [] = (p = [])"
| "str_contains p (c # cs) = (starts_with (c # cs) p \<or> str_contains p cs)"

section \<open>Sorting and prefixes\<close>

text \<open>
  \<open>list.sort\<close> with a key: a stable sort by insertion. It is the language's sort wherever the keys
  are ordered; the result of sorting not-a-number keys depends on the interpreter's algorithm.
\<close>

fun insort_by :: "('a \<Rightarrow> 'a \<Rightarrow> bool) \<Rightarrow> 'a \<Rightarrow> 'a list \<Rightarrow> 'a list" where
  "insort_by before x [] = [x]"
| "insort_by before x (y # ys) = (if before x y then x # y # ys else y # insort_by before x ys)"

definition sort_by :: "('a \<Rightarrow> 'a \<Rightarrow> bool) \<Rightarrow> 'a list \<Rightarrow> 'a list" where
  "sort_by before xs = foldl (\<lambda>acc x. insort_by before x acc) [] xs"

text \<open>\<open>xs[:depth]\<close>; a negative depth counts from the end.\<close>

definition py_prefix :: "int \<Rightarrow> 'a list \<Rightarrow> 'a list" where
  "py_prefix n xs = (if 0 \<le> n then take (nat n) xs else take (length xs - nat (- n)) xs)"

lemma mset_insort_by [simp]: "mset (insort_by before x ys) = add_mset x (mset ys)"
  by (induction ys) auto

lemma mset_sort_by [simp]: "mset (sort_by before xs) = mset xs"
proof -
  have "mset (foldl (\<lambda>acc x. insort_by before x acc) ys xs) = mset ys + mset xs" for ys
    by (induction xs arbitrary: ys) auto
  then show ?thesis by (simp add: sort_by_def)
qed

lemma set_insort_by [simp]: "set (insort_by before x ys) = insert x (set ys)"
  by (induction ys) auto

text \<open>A comparison that orders the elements of \<open>A\<close> weakly sorts lists over \<open>A\<close>.\<close>

definition weak_order_on :: "'a set \<Rightarrow> ('a \<Rightarrow> 'a \<Rightarrow> bool) \<Rightarrow> bool" where
  "weak_order_on A before \<longleftrightarrow>
     (\<forall>x \<in> A. \<forall>y \<in> A. before x y \<longrightarrow> \<not> before y x) \<and>
     (\<forall>x \<in> A. \<forall>y \<in> A. \<forall>z \<in> A. \<not> before x y \<and> \<not> before y z \<longrightarrow> \<not> before x z)"

lemma weak_order_on_key:
  fixes key :: "'a \<Rightarrow> pyfloat"
  assumes num: "\<forall>x \<in> A. is_num (key x)"
  shows "weak_order_on A (\<lambda>a b. key a < key b)" "weak_order_on A (\<lambda>a b. key b < key a)"
proof -
  have asym: "x < y \<Longrightarrow> \<not> y < x" for x y :: pyfloat
    by (cases x; cases y; auto)
  have trans: "is_num x \<Longrightarrow> is_num y \<Longrightarrow> is_num z \<Longrightarrow> \<not> x < y \<Longrightarrow> \<not> y < z \<Longrightarrow> \<not> x < z" for x y z :: pyfloat
    by (cases x; cases y; cases z; auto)
  show "weak_order_on A (\<lambda>a b. key a < key b)"
    unfolding weak_order_on_def by (intro conjI ballI impI, erule asym) (elim conjE, rule trans, use num in auto)
  show "weak_order_on A (\<lambda>a b. key b < key a)"
    unfolding weak_order_on_def
    by (intro conjI ballI impI, erule asym) (elim conjE, rule_tac y = "key y" in trans, use num in auto)
qed

lemma sorted_insort_by:
  assumes "weak_order_on A before" "x \<in> A" "set ys \<subseteq> A" "sorted_wrt (\<lambda>a b. \<not> before b a) ys"
  shows "sorted_wrt (\<lambda>a b. \<not> before b a) (insort_by before x ys)"
  using assms(3,4)
proof (induction ys)
  case (Cons y ys)
  show ?case
  proof (cases "before x y")
    case True
    have mem: "y \<in> A" "set ys \<subseteq> A" using Cons.prems(1) by auto
    have yx: "\<not> before y x" using True mem(1) assms(1,2) unfolding weak_order_on_def by blast
    have "\<not> before z x" if "z \<in> set ys" for z
    proof -
      have "\<not> before z y" using that Cons.prems(2) by simp
      with yx mem that assms(1,2) show ?thesis unfolding weak_order_on_def by blast
    qed
    with yx have "\<forall>z \<in> set (y # ys). \<not> before z x" by simp
    with True Cons.prems(2) show ?thesis by simp
  next
    case False
    with Cons show ?thesis by auto
  qed
qed simp

lemma sorted_sort_by:
  assumes "weak_order_on (set xs) before"
  shows "sorted_wrt (\<lambda>a b. \<not> before b a) (sort_by before xs)"
proof -
  have "sorted_wrt (\<lambda>a b. \<not> before b a) (foldl (\<lambda>acc x. insort_by before x acc) ys zs)"
    if "sorted_wrt (\<lambda>a b. \<not> before b a) ys" "set ys \<subseteq> set xs" "set zs \<subseteq> set xs" for ys zs
    using that
  proof (induction zs arbitrary: ys)
    case (Cons z zs)
    then show ?case using sorted_insort_by [OF assms, of z ys] by auto
  qed simp
  from this [of "[]" xs] show ?thesis by (simp add: sort_by_def)
qed

lemma sort_by_head:
  assumes "weak_order_on (set xs) before" "sort_by before xs = y # ys" "x \<in> set xs"
  shows "\<not> before x y \<or> x = y"
proof -
  have "x \<in> set (y # ys)" using assms(2,3) mset_sort_by [of before xs] by (metis set_mset_mset)
  then show ?thesis using sorted_sort_by [OF assms(1)] assms(2) by auto
qed

lemma set_py_prefix: "set (py_prefix n xs) \<subseteq> set xs"
  by (auto simp: py_prefix_def dest: in_set_takeD)

lemma sorted_py_prefix: "sorted_wrt P xs \<Longrightarrow> sorted_wrt P (py_prefix n xs)"
  by (simp add: py_prefix_def sorted_wrt_take)

text \<open>Cutting a ranking after \<open>n\<close> places leaves out nothing that ranks before what is kept.\<close>

lemma cut_ranking:
  assumes "sorted_wrt R xs"
  shows "\<exists>rest. mset xs = mset (take n xs) + mset rest \<and> (rest \<noteq> [] \<longrightarrow> length (take n xs) = n) \<and>
    (\<forall>a \<in> set (take n xs). \<forall>c \<in> set rest. R a c)"
proof (intro exI [of _ "drop n xs"] conjI)
  show "mset xs = mset (take n xs) + mset (drop n xs)" by (metis append_take_drop_id mset_append)
  have "sorted_wrt R (take n xs @ drop n xs)" using assms by simp
  then show "\<forall>a \<in> set (take n xs). \<forall>c \<in> set (drop n xs). R a c" unfolding sorted_wrt_append by blast
qed simp

end
