(* ===== verification/Market_Data.thy ===== *)
theory Market_Data
  imports Orders Py_Sequences
begin

text \<open>
  Market data: ticks (\<open>models/market_tick.py\<close>), order books (\<open>models/orderbook.py\<close>), the
  normalizer of exchange payloads (\<open>feeds/market_data_normalizer.py\<close>), the state store
  (\<open>feeds/market_state_store.py\<close>) and the service that feeds it
  (\<open>microservices/market_data_service.py\<close>). The payload kept in \<open>raw\<close> is left out.
\<close>

section \<open>Ticks and order books\<close>

record market_tick =
  tk_symbol :: string
  tk_exchange :: string
  tk_bid :: pyfloat
  tk_ask :: pyfloat
  tk_last :: pyfloat
  tk_volume :: pyfloat
  tk_timestamp :: datetime

definition tick_mid :: "market_tick \<Rightarrow> pyfloat" where
  "tick_mid t =
     (if Fin 0 < tk_bid t \<and> Fin 0 < tk_ask t then (tk_bid t + tk_ask t) / Fin 2
      else if Fin 0 < tk_last t then tk_last t else Fin 0)"

definition tick_spread :: "market_tick \<Rightarrow> pyfloat" where
  "tick_spread t = (if Fin 0 < tk_bid t \<and> Fin 0 < tk_ask t then tk_ask t - tk_bid t else Fin 0)"

definition tick_spread_bps :: "market_tick \<Rightarrow> pyfloat" where
  "tick_spread_bps t = (if tick_mid t \<le> Fin 0 then Fin 0 else (tick_spread t / tick_mid t) * Fin 10000)"

definition tick_valid :: "market_tick \<Rightarrow> bool" where
  "tick_valid t \<longleftrightarrow> tk_symbol t \<noteq> [] \<and> tk_exchange t \<noteq> [] \<and> Fin 0 < tk_last t \<and>
     Fin 0 \<le> tk_bid t \<and> Fin 0 \<le> tk_ask t"

definition tick_to_dict :: "market_tick \<Rightarrow> (string \<times> pyval) list" where
  "tick_to_dict t =
     [(''symbol'', VStr (tk_symbol t)), (''exchange'', VStr (tk_exchange t)), (''bid'', VFloat (tk_bid t)),
      (''ask'', VFloat (tk_ask t)), (''last'', VFloat (tk_last t)), (''volume'', VFloat (tk_volume t)),
      (''mid_price'', VFloat (tick_mid t)), (''spread'', VFloat (tick_spread t)),
      (''spread_bps'', VFloat (tick_spread_bps t)), (''timestamp'', VStr (isoformat (tk_timestamp t)))]"

record level =
  lv_price :: pyfloat
  lv_quantity :: pyfloat

definition level_to_dict :: "level \<Rightarrow> (string \<times> pyval) list" where
  "level_to_dict l = [(''price'', VFloat (lv_price l)), (''quantity'', VFloat (lv_quantity l))]"

record orderbook =
  ob_symbol :: string
  ob_exchange :: string
  ob_bids :: "level list"
  ob_asks :: "level list"
  ob_sequence :: "int option"
  ob_timestamp :: datetime

definition best_bid :: "orderbook \<Rightarrow> pyfloat" where
  "best_bid b = (case ob_bids b of [] \<Rightarrow> Fin 0 | l # _ \<Rightarrow> lv_price l)"

definition best_ask :: "orderbook \<Rightarrow> pyfloat" where
  "best_ask b = (case ob_asks b of [] \<Rightarrow> Fin 0 | l # _ \<Rightarrow> lv_price l)"

definition book_spread :: "orderbook \<Rightarrow> pyfloat" where
  "book_spread b = (if best_bid b \<le> Fin 0 \<or> best_ask b \<le> Fin 0 then Fin 0 else best_ask b - best_bid b)"

definition book_mid :: "orderbook \<Rightarrow> pyfloat" where
  "book_mid b = (if best_bid b \<le> Fin 0 \<or> best_ask b \<le> Fin 0 then Fin 0
                 else (best_bid b + best_ask b) / Fin 2)"

definition bid_depth :: "orderbook \<Rightarrow> pyfloat" where
  "bid_depth b = py_sum (map lv_quantity (ob_bids b))"

definition ask_depth :: "orderbook \<Rightarrow> pyfloat" where
  "ask_depth b = py_sum (map lv_quantity (ob_asks b))"

definition imbalance :: "orderbook \<Rightarrow> pyfloat" where
  "imbalance b =
     (let depth = bid_depth b + ask_depth b in
      if depth \<le> Fin 0 then Fin 0 else (bid_depth b - ask_depth b) / depth)"

definition book_valid :: "orderbook \<Rightarrow> bool" where
  "book_valid b \<longleftrightarrow> ob_symbol b \<noteq> [] \<and> ob_exchange b \<noteq> [] \<and> 0 < length (ob_bids b) \<and>
     0 < length (ob_asks b) \<and> Fin 0 < best_bid b \<and> Fin 0 < best_ask b"

definition opt_int :: "int option \<Rightarrow> pyval" where
  "opt_int i = (case i of None \<Rightarrow> VNone | Some n \<Rightarrow> VInt n)"

definition book_to_dict :: "orderbook \<Rightarrow> (string \<times> pyval) list" where
  "book_to_dict b =
     [(''symbol'', VStr (ob_symbol b)), (''exchange'', VStr (ob_exchange b)),
      (''bids'', VList (map (\<lambda>l. VDict (level_to_dict l)) (ob_bids b))),
      (''asks'', VList (map (\<lambda>l. VDict (level_to_dict l)) (ob_asks b))),
      (''sequence'', opt_int (ob_sequence b)), (''best_bid'', VFloat (best_bid b)),
      (''best_ask'', VFloat (best_ask b)), (''spread'', VFloat (book_spread b)),
      (''mid_price'', VFloat (book_mid b)), (''bid_depth'', VFloat (bid_depth b)),
      (''ask_depth'', VFloat (ask_depth b)), (''imbalance'', VFloat (imbalance b)),
      (''timestamp'', VStr (isoformat (ob_timestamp b)))]"

section \<open>The normalizer\<close>

definition safe_float :: "pyval \<Rightarrow> pyfloat option" where
  "safe_float v = (case v of VStr s \<Rightarrow> py_float_of_str s | _ \<Rightarrow> as_number v)"

fun first_float :: "(string \<times> pyval) list \<Rightarrow> string list \<Rightarrow> pyfloat \<Rightarrow> pyfloat" where
  "first_float d [] dflt = dflt"
| "first_float d (k # ks) dflt =
     (case safe_float (get_val d k) of None \<Rightarrow> first_float d ks dflt | Some x \<Rightarrow> x)"

fun extract_int :: "(string \<times> pyval) list \<Rightarrow> string list \<Rightarrow> int option" where
  "extract_int d [] = None"
| "extract_int d (k # ks) =
     (case get_val d k of
        VInt i \<Rightarrow> Some i
      | VBool b \<Rightarrow> Some (if b then 1 else 0)
      | VStr s \<Rightarrow> (case py_int_of_str s of Some i \<Rightarrow> Some i | None \<Rightarrow> extract_int d ks)
      | _ \<Rightarrow> extract_int d ks)"

definition to_utc :: "datetime \<Rightarrow> datetime res" where
  "to_utc d =
     (case dt_offset d of
        None \<Rightarrow> Inr d
      | Some _ \<Rightarrow> (case datetime_of_instant (instant d) of
                     None \<Rightarrow> Inl (OtherError (text_msg ''date value out of range''))
                   | Some u \<Rightarrow> Inr u))"

definition extract_timestamp :: "pyval \<Rightarrow> datetime \<Rightarrow> datetime res" where
  "extract_timestamp v now =
     (case as_number v of
        Some seconds \<Rightarrow>
          fromtimestamp (if Fin 1000000000000 < seconds then seconds / Fin 1000 else seconds)
      | None \<Rightarrow>
          (case v of
             VStr s \<Rightarrow> (case fromisoformat (replace_Z s) of None \<Rightarrow> Inr now | Some d \<Rightarrow> to_utc d)
           | _ \<Rightarrow> Inr now))"

text \<open>One raw level: its price and quantity before they are parsed.\<close>

definition raw_level :: "pyval \<Rightarrow> pyval \<times> pyval" where
  "raw_level item =
     (case item of
        VList (p # q # _) \<Rightarrow> (p, q)
      | VDict d \<Rightarrow> (py_or (get_val d ''price'') (get_val d ''p''),
                    py_or (py_or (get_val d ''quantity'') (get_val d ''amount'')) (get_val d ''q''))
      | _ \<Rightarrow> (VNone, VNone))"

definition parse_level :: "pyval \<Rightarrow> level option" where
  "parse_level item =
     (case (safe_float (fst (raw_level item)), safe_float (snd (raw_level item))) of
        (Some p, Some q) \<Rightarrow>
          (if p \<le> Fin 0 \<or> q \<le> Fin 0 then None else Some \<lparr>lv_price = p, lv_quantity = q\<rparr>)
      | _ \<Rightarrow> None)"

definition level_before :: "bool \<Rightarrow> level \<Rightarrow> level \<Rightarrow> bool" where
  "level_before rvs a b = (if rvs then lv_price b < lv_price a else lv_price a < lv_price b)"

definition normalize_levels :: "pyval \<Rightarrow> bool \<Rightarrow> int \<Rightarrow> level list" where
  "normalize_levels levels rvs depth =
     (case levels of
        VList items \<Rightarrow> py_prefix depth (sort_by (level_before rvs) (List.map_filter parse_level items))
      | _ \<Rightarrow> [])"

definition normalize_ticker :: "string \<Rightarrow> string \<Rightarrow> pyval \<Rightarrow> datetime \<Rightarrow> market_tick res" where
  "normalize_ticker exch symb payload now =
     (case payload of
        VDict d \<Rightarrow>
          (let bid = first_float d [''bid'', ''bestBid'', ''best_bid''] (Fin 0);
               ask = first_float d [''ask'', ''bestAsk'', ''best_ask''] (Fin 0);
               last0 = first_float d [''last'', ''close'', ''mark'', ''price''] (Fin 0);
               last = (if last0 \<le> Fin 0 \<and> Fin 0 < bid \<and> Fin 0 < ask then (bid + ask) / Fin 2 else last0);
               volume = first_float d [''baseVolume'', ''volume'', ''quoteVolume''] (Fin 0)
           in rbind (extract_timestamp (py_or (get_val d ''timestamp'') (get_val d ''datetime'')) now) (\<lambda>ts.
              let tick = \<lparr>tk_symbol = symb, tk_exchange = exch, tk_bid = bid, tk_ask = ask, tk_last = last,
                          tk_volume = volume, tk_timestamp = ts\<rparr>
              in if \<not> tick_valid tick
                 then Inl (ValueError [Txt ''Invalid normalized ticker for '', Str exch, Txt '':'', Str symb])
                 else Inr tick))
      | _ \<Rightarrow> Inl (TypeError (text_msg ''Ticker payload must be a dictionary'')))"

definition normalize_orderbook :: "string \<Rightarrow> string \<Rightarrow> pyval \<Rightarrow> int \<Rightarrow> datetime \<Rightarrow> orderbook res" where
  "normalize_orderbook exch symb payload depth now =
     (case payload of
        VDict d \<Rightarrow>
          (let bids = normalize_levels (dict_get d ''bids'' (VList [])) True depth;
               asks = normalize_levels (dict_get d ''asks'' (VList [])) False depth;
               sequence = extract_int d [''nonce'', ''sequence'', ''lastUpdateId'']
           in rbind (extract_timestamp (py_or (get_val d ''timestamp'') (get_val d ''datetime'')) now) (\<lambda>ts.
              let book = \<lparr>ob_symbol = symb, ob_exchange = exch, ob_bids = bids, ob_asks = asks,
                          ob_sequence = sequence, ob_timestamp = ts\<rparr>
              in if \<not> book_valid book
                 then Inl (ValueError [Txt ''Invalid normalized order book for '', Str exch, Txt '':'', Str symb])
                 else Inr book))
      | _ \<Rightarrow> Inl (TypeError (text_msg ''Order book payload must be a dictionary'')))"

section \<open>The state store\<close>

record market_store =
  ms_stale_after :: pyfloat
  ms_ticks :: "(string, market_tick) pydict"
  ms_books :: "(string, orderbook) pydict"
  ms_updated :: "(string, pyfloat) pydict"

definition new_market_store :: "pyfloat \<Rightarrow> market_store res" where
  "new_market_store stale_after =
     rbind (check_all [(stale_after \<le> Fin 0, ''stale_after_seconds must be positive'')])
       (\<lambda>_. Inr \<lparr>ms_stale_after = stale_after, ms_ticks = [], ms_books = [], ms_updated = []\<rparr>)"

definition market_key :: "string \<Rightarrow> string \<Rightarrow> string" where
  "market_key exch symb = exch @ '':'' @ symb"

text \<open>Keys are unambiguous as long as the names of the exchanges hold no colon.\<close>

lemma market_key_inj:
  assumes "CHR '':'' \<notin> set e" "CHR '':'' \<notin> set e'"
  shows "market_key e s = market_key e' s' \<longleftrightarrow> e = e' \<and> s = s'"
proof -
  have "takeWhile (\<lambda>c. c \<noteq> CHR '':'') (market_key e s) = e" if "CHR '':'' \<notin> set e" for e s
    unfolding market_key_def by (subst takeWhile_append2) (use that in auto)
  with assms show ?thesis by (metis append_same_eq market_key_def same_append_eq append_Cons)
qed

lemma normalized_names:
  "normalize_ticker exch symb v now = Inr t \<Longrightarrow> tk_exchange t = exch \<and> tk_symbol t = symb"
  "normalize_orderbook exch symb v depth now = Inr b \<Longrightarrow> ob_exchange b = exch \<and> ob_symbol b = symb"
  by (cases v; auto simp: normalize_ticker_def normalize_orderbook_def rbind_Inr_iff Let_def split: if_splits)+

definition update_tick :: "market_tick \<Rightarrow> pyfloat \<Rightarrow> market_store \<Rightarrow> market_store" where
  "update_tick t now m =
     (let k = market_key (tk_exchange t) (tk_symbol t) in
      m\<lparr>ms_ticks := dict_set k t (ms_ticks m), ms_updated := dict_set k now (ms_updated m)\<rparr>)"

definition update_orderbook :: "orderbook \<Rightarrow> pyfloat \<Rightarrow> market_store \<Rightarrow> market_store" where
  "update_orderbook b now m =
     (let k = market_key (ob_exchange b) (ob_symbol b) in
      m\<lparr>ms_books := dict_set k b (ms_books m), ms_updated := dict_set k now (ms_updated m)\<rparr>)"

definition latest_tick :: "string \<Rightarrow> string \<Rightarrow> market_store \<Rightarrow> market_tick option" where
  "latest_tick exch symb m = map_of (ms_ticks m) (market_key exch symb)"

definition latest_orderbook :: "string \<Rightarrow> string \<Rightarrow> market_store \<Rightarrow> orderbook option" where
  "latest_orderbook exch symb m = map_of (ms_books m) (market_key exch symb)"

definition tick_mark :: "market_tick \<Rightarrow> pyfloat" where
  "tick_mark t = (if py_true (tick_mid t) then tick_mid t else tk_last t)"

definition mark_prices :: "market_store \<Rightarrow> (string, pyfloat) pydict" where
  "mark_prices m = foldl (\<lambda>prices (_, t). dict_set (tk_symbol t) (tick_mark t) prices) [] (ms_ticks m)"

definition stale_keys :: "pyfloat \<Rightarrow> market_store \<Rightarrow> string list" where
  "stale_keys now m = map fst (filter (\<lambda>(k, since). ms_stale_after m < now - since) (ms_updated m))"

definition store_snapshot :: "pyfloat \<Rightarrow> market_store \<Rightarrow> (string \<times> pyval) list" where
  "store_snapshot now m =
     [(''ticks'', VDict (map (\<lambda>(k, t). (k, VDict (tick_to_dict t))) (ms_ticks m))),
      (''orderbooks'', VDict (map (\<lambda>(k, b). (k, VDict (book_to_dict b))) (ms_books m))),
      (''stale_keys'', VList (map VStr (stale_keys now m)))]"

section \<open>The market data service\<close>

record packet =
  pk_kind :: string
  pk_exchange :: string
  pk_symbol :: string
  pk_payload :: pyval

datatype market_event = TickEvent "(string \<times> pyval) list" | BookEvent "(string \<times> pyval) list"

record market_service =
  mk_depth :: int
  mk_store :: market_store
  mk_published :: "market_event list"
  mk_ticks :: nat
  mk_books :: nat
  mk_failures :: nat

definition handle_ticker :: "packet \<Rightarrow> datetime \<Rightarrow> pyfloat \<Rightarrow> market_service \<Rightarrow> market_service res" where
  "handle_ticker p now clock s =
     rbind (normalize_ticker (pk_exchange p) (pk_symbol p) (pk_payload p) now) (\<lambda>t.
       Inr (s\<lparr>mk_store := update_tick t clock (mk_store s),
              mk_published := mk_published s @ [TickEvent (tick_to_dict t)], mk_ticks := mk_ticks s + 1\<rparr>))"

definition handle_orderbook :: "packet \<Rightarrow> datetime \<Rightarrow> pyfloat \<Rightarrow> market_service \<Rightarrow> market_service res" where
  "handle_orderbook p now clock s =
     rbind (normalize_orderbook (pk_exchange p) (pk_symbol p) (pk_payload p) (mk_depth s) now) (\<lambda>b.
       Inr (s\<lparr>mk_store := update_orderbook b clock (mk_store s),
              mk_published := mk_published s @ [BookEvent (book_to_dict b)], mk_books := mk_books s + 1\<rparr>))"

text \<open>The body of the loop over the stream: an exception is counted and the loop goes on.\<close>

definition on_packet :: "packet \<Rightarrow> datetime \<Rightarrow> pyfloat \<Rightarrow> market_service \<Rightarrow> market_service" where
  "on_packet p now clock s =
     (case (if pk_kind p = ''ticker'' then handle_ticker p now clock s
            else if pk_kind p = ''orderbook'' then handle_orderbook p now clock s
            else Inr s) of
        Inl _ \<Rightarrow> s\<lparr>mk_failures := mk_failures s + 1\<rparr>
      | Inr s' \<Rightarrow> s')"

section \<open>Sorting\<close>

lemma level_before_weak: "\<forall>l \<in> A. is_num (lv_price l) \<Longrightarrow> weak_order_on A (level_before rvs)"
  using weak_order_on_key [of A lv_price] by (cases rvs) (simp_all add: level_before_def [abs_def])

section \<open>Lemmas\<close>

lemma first_float_extract: "first_float d ks dflt = extract_float d ks dflt"
proof (induction ks)
  case (Cons k ks)
  then show ?case by (cases "get_val d k") (auto simp: safe_float_def split: option.splits)
qed simp

lemma parse_level_pos: "parse_level i = Some l \<Longrightarrow> \<not> lv_price l \<le> Fin 0 \<and> \<not> lv_quantity l \<le> Fin 0"
  by (auto simp: parse_level_def split: option.splits if_splits)

definition raw_levels :: "(string \<times> pyval) list \<Rightarrow> string \<Rightarrow> level list" where
  "raw_levels d side = (case dict_get d side (VList []) of VList items \<Rightarrow> List.map_filter parse_level items | _ \<Rightarrow> [])"

lemma normalize_levels_raw:
  "normalize_levels (dict_get d side (VList [])) rvs depth = py_prefix depth (sort_by (level_before rvs) (raw_levels d side))"
  by (auto simp: normalize_levels_def raw_levels_def py_prefix_def sort_by_def split: pyval.splits)

section \<open>Properties\<close>

text \<open>
  C32. A normalized order book. If \<open>normalize_orderbook\<close> returns and no parsed price is a not-a-number, each
  side is non-empty and consists of the best levels of its side of the payload: among the levels that
  can be read, with positive price and quantity, each as often as it occurs there, the highest bids from
  the highest price down and the lowest asks from the lowest up. Levels are left out only when the depth
  is reached, and none that is left out is better than one that is kept; so the best bid and ask of the
  book are the best of the whole payload.
\<close>
theorem normalized_orderbook:
  assumes "normalize_orderbook exch symb (VDict d) depth now = Inr b" and "0 \<le> depth"
    and "\<forall>l \<in> set (raw_levels d ''bids'') \<union> set (raw_levels d ''asks''). is_num (lv_price l)"
  shows "ob_symbol b = symb \<and> ob_exchange b = exch \<and> ob_bids b \<noteq> [] \<and> ob_asks b \<noteq> [] \<and>
    int (length (ob_bids b)) \<le> depth \<and> int (length (ob_asks b)) \<le> depth \<and>
    (\<forall>l \<in> set (ob_bids b) \<union> set (ob_asks b). Fin 0 < lv_price l \<and> \<not> lv_quantity l \<le> Fin 0) \<and>
    sorted_wrt (\<lambda>x y. lv_price y \<le> lv_price x) (ob_bids b) \<and>
    sorted_wrt (\<lambda>x y. lv_price x \<le> lv_price y) (ob_asks b) \<and>
    (\<exists>rest. mset (raw_levels d ''bids'') = mset (ob_bids b) + mset rest \<and>
       (rest \<noteq> [] \<longrightarrow> int (length (ob_bids b)) = depth) \<and>
       (\<forall>k \<in> set (ob_bids b). \<forall>l \<in> set rest. lv_price l \<le> lv_price k)) \<and>
    (\<exists>rest. mset (raw_levels d ''asks'') = mset (ob_asks b) + mset rest \<and>
       (rest \<noteq> [] \<longrightarrow> int (length (ob_asks b)) = depth) \<and>
       (\<forall>k \<in> set (ob_asks b). \<forall>l \<in> set rest. lv_price k \<le> lv_price l)) \<and>
    (\<forall>l \<in> set (raw_levels d ''bids''). lv_price l \<le> best_bid b) \<and>
    (\<forall>l \<in> set (raw_levels d ''asks''). best_ask b \<le> lv_price l)"
proof -
  define side where "side rvs key = sort_by (level_before rvs) (raw_levels d key)" for rvs key
  have b: "ob_bids b = take (nat depth) (side True ''bids'')" "ob_asks b = take (nat depth) (side False ''asks'')"
      "book_valid b"
    using assms(1,2) by (auto simp: normalize_orderbook_def normalize_levels_raw rbind_Inr_iff py_prefix_def
        side_def Let_def split: if_splits)
  have mem: "set (side rvs key) = set (raw_levels d key)" for rvs key
    unfolding side_def by (metis mset_sort_by set_mset_mset)
  have nonempty: "ob_bids b \<noteq> []" "ob_asks b \<noteq> []" using b(3) by (auto simp: book_valid_def)
  have weak: "weak_order_on (set (raw_levels d key)) (level_before rvs)" if "key \<in> {''bids'', ''asks''}" for rvs key
    using assms(3) that by (intro level_before_weak) auto
  have srt: "sorted_wrt (\<lambda>x y. \<not> level_before rvs y x) (side rvs key)" if "key \<in> {''bids'', ''asks''}" for rvs key
    unfolding side_def using weak [OF that] by (rule sorted_sort_by)
  have num: "is_num (lv_price l)" if "l \<in> set (side rvs key)" "key \<in> {''bids'', ''asks''}" for l rvs key
    using assms(3) that by (auto simp: mem)
  have "\<And>x y. x \<in> set (side True ''bids'') \<Longrightarrow> y \<in> set (side True ''bids'') \<Longrightarrow> \<not> level_before True y x \<Longrightarrow>
      lv_price y \<le> lv_price x"
    using num [of _ True "''bids''"] by (simp add: level_before_def pyfloat_not_less)
  then have ord1: "sorted_wrt (\<lambda>x y. lv_price y \<le> lv_price x) (side True ''bids'')"
    using srt [of "''bids''" True] by (rule sorted_wrt_mono_rel) simp_all
  have "\<And>x y. x \<in> set (side False ''asks'') \<Longrightarrow> y \<in> set (side False ''asks'') \<Longrightarrow> \<not> level_before False y x \<Longrightarrow>
      lv_price x \<le> lv_price y"
    using num [of _ False "''asks''"] by (simp add: level_before_def pyfloat_not_less)
  then have ord2: "sorted_wrt (\<lambda>x y. lv_price x \<le> lv_price y) (side False ''asks'')"
    using srt [of "''asks''" False] by (rule sorted_wrt_mono_rel) simp_all
  note ord = ord1 ord2
  obtain l1 ls1 where bids: "side True ''bids'' = l1 # ls1" "best_bid b = lv_price l1"
    using nonempty(1) b(1) by (cases "side True ''bids''"; cases "nat depth") (auto simp: best_bid_def)
  obtain l2 ls2 where asks: "side False ''asks'' = l2 # ls2" "best_ask b = lv_price l2"
    using nonempty(2) b(2) by (cases "side False ''asks''"; cases "nat depth") (auto simp: best_ask_def)
  have head: "\<forall>l \<in> set (side True ''bids''). lv_price l \<le> best_bid b"
      "\<forall>l \<in> set (side False ''asks''). best_ask b \<le> lv_price l"
    using ord num [of l1 True "''bids''"] num [of l2 False "''asks''"] by (auto simp: bids asks)
  have pos: "Fin 0 < lv_price l \<and> \<not> lv_quantity l \<le> Fin 0" if "l \<in> set (raw_levels d key)" "is_num (lv_price l)" for l key
    using that parse_level_pos pyfloat_not_le [of "lv_price l" "Fin 0"]
    by (auto simp: raw_levels_def List.map_filter_def split: pyval.splits)
  have sub: "set (ob_bids b) \<subseteq> set (raw_levels d ''bids'')" "set (ob_asks b) \<subseteq> set (raw_levels d ''asks'')"
    unfolding b mem [symmetric, of _ True] mem [symmetric, of _ False] by (auto simp: mem dest: in_set_takeD)
  have "\<forall>l \<in> set (ob_bids b) \<union> set (ob_asks b). Fin 0 < lv_price l \<and> \<not> lv_quantity l \<le> Fin 0"
    using sub pos assms(3) by blast
  moreover have "sorted_wrt (\<lambda>x y. lv_price y \<le> lv_price x) (ob_bids b)"
      "sorted_wrt (\<lambda>x y. lv_price x \<le> lv_price y) (ob_asks b)"
    unfolding b using ord by (simp_all add: sorted_wrt_take)
  moreover have raw: "mset (side rvs key) = mset (raw_levels d key)" for rvs key by (simp add: side_def)
  moreover have int_depth: "n = nat depth \<longleftrightarrow> int n = depth" for n using assms(2) by auto
  moreover have "int (length (ob_bids b)) \<le> depth" "int (length (ob_asks b)) \<le> depth"
    using assms(2) by (simp_all add: b)
  moreover have "\<exists>rest. mset (raw_levels d ''bids'') = mset (ob_bids b) + mset rest \<and>
      (rest \<noteq> [] \<longrightarrow> int (length (ob_bids b)) = depth) \<and>
      (\<forall>k \<in> set (ob_bids b). \<forall>l \<in> set rest. lv_price l \<le> lv_price k)"
    using cut_ranking [OF ord1, of "nat depth", folded b(1), unfolded raw int_depth] .
  moreover have "\<exists>rest. mset (raw_levels d ''asks'') = mset (ob_asks b) + mset rest \<and>
      (rest \<noteq> [] \<longrightarrow> int (length (ob_asks b)) = depth) \<and>
      (\<forall>k \<in> set (ob_asks b). \<forall>l \<in> set rest. lv_price k \<le> lv_price l)"
    using cut_ranking [OF ord2, of "nat depth", folded b(2), unfolded raw int_depth] .
  moreover have "ob_symbol b = symb" "ob_exchange b = exch" using normalized_names(2) [OF assms(1)] by simp_all
  ultimately show ?thesis using nonempty head [unfolded mem] by (intro conjI) assumption+
qed

text \<open>
  The mark price of a symbol is not the latest one. Of the exchanges that have sent ticks of a
  symbol, the store takes the one that was heard of last for the first time: when exchange \<open>b\<close> has
  followed exchange \<open>a\<close> once, later ticks from \<open>a\<close> never change the mark.
\<close>
theorem mark_price_ignores_earlier_exchange:
  assumes "market_key a symb \<noteq> market_key b symb" and "tk_symbol ta = symb" "tk_exchange ta = a"
    and "tk_symbol tb = symb" "tk_exchange tb = b"
    and "\<forall>t \<in> set ts. tk_symbol t = symb \<and> tk_exchange t = a" and "ms_ticks m = []"
  shows "map_of (mark_prices (fold (\<lambda>t. update_tick t now) (ta # tb # ts) m)) symb = Some (tick_mark tb)"
proof -
  have "\<exists>ta'. tk_symbol ta' = symb \<and> ms_ticks (fold (\<lambda>t. update_tick t now) ts m') =
      [(market_key a symb, ta'), (market_key b symb, tb)]"
    if "\<exists>ta'. tk_symbol ta' = symb \<and> ms_ticks m' = [(market_key a symb, ta'), (market_key b symb, tb)]" for m'
    using that assms(6)
  proof (induction ts arbitrary: m')
    case (Cons t ts)
    have "ms_ticks (update_tick t now m') = dict_set (market_key a symb) t (ms_ticks m')"
      using Cons.prems(2) by (simp add: update_tick_def Let_def)
    with Cons.prems(1) have "ms_ticks (update_tick t now m') = [(market_key a symb, t), (market_key b symb, tb)]" by auto
    with Cons.prems(2) show ?case using Cons.IH [of "update_tick t now m'"] by (simp only: fold_simps o_apply) simp
  qed simp
  moreover have "ms_ticks (update_tick tb now (update_tick ta now m)) =
      [(market_key a symb, ta), (market_key b symb, tb)]"
    using assms(1) by (simp add: update_tick_def Let_def assms(2-5,7))
  ultimately obtain ta' where "tk_symbol ta' = symb"
      "ms_ticks (fold (\<lambda>t. update_tick t now) (ta # tb # ts) m) = [(market_key a symb, ta'), (market_key b symb, tb)]"
    using assms(2) by fastforce
  then show ?thesis using assms(4) by (simp add: mark_prices_def)
qed

text \<open>
  Every packet is accounted for. From zero, over any stream of packets, each ticker packet is
  counted as published or failed and each order-book packet likewise, one event is published per
  published packet, packets of other kinds do nothing, and the store changes with published packets only.
\<close>
theorem packets_accounted:
  assumes "mk_ticks s = 0" "mk_books s = 0" "mk_failures s = 0" "mk_published s = []"
  shows "(let s' = fold (\<lambda>(p, now, clock). on_packet p now clock) ps s;
              kind = (\<lambda>k. length (filter (\<lambda>(p, _). pk_kind p = k) ps))
          in mk_ticks s' + mk_books s' + mk_failures s' = kind ''ticker'' + kind ''orderbook'' \<and>
             length (mk_published s') = mk_ticks s' + mk_books s' \<and>
             (mk_ticks s' + mk_books s' = 0 \<longrightarrow> mk_store s' = mk_store s))"
proof -
  have "mk_ticks s' + mk_books s' + mk_failures s' = mk_ticks s + mk_books s + mk_failures s +
        length (filter (\<lambda>(p, _). pk_kind p = ''ticker'') ps) + length (filter (\<lambda>(p, _). pk_kind p = ''orderbook'') ps) \<and>
      length (mk_published s') + mk_ticks s + mk_books s = length (mk_published s) + mk_ticks s' + mk_books s' \<and>
      mk_ticks s \<le> mk_ticks s' \<and> mk_books s \<le> mk_books s' \<and>
      (mk_ticks s' + mk_books s' = mk_ticks s + mk_books s \<longrightarrow> mk_store s' = mk_store s)"
    if "s' = fold (\<lambda>(p, now, clock). on_packet p now clock) ps s" for s s'
    using that
  proof (induction ps arbitrary: s)
    case (Cons x ps)
    obtain p now clock where x: "x = (p, now, clock)" by (cases x)
    define s1 where "s1 = on_packet p now clock s"
    have step: "mk_ticks s1 + mk_books s1 + mk_failures s1 = mk_ticks s + mk_books s + mk_failures s +
          (if pk_kind p \<in> {''ticker'', ''orderbook''} then 1 else 0) \<and>
        length (mk_published s1) + mk_ticks s + mk_books s = length (mk_published s) + mk_ticks s1 + mk_books s1 \<and>
        mk_ticks s \<le> mk_ticks s1 \<and> mk_books s \<le> mk_books s1 \<and>
        (mk_ticks s1 + mk_books s1 = mk_ticks s + mk_books s \<longrightarrow> mk_store s1 = mk_store s)"
      unfolding s1_def on_packet_def
      by (auto simp: handle_ticker_def handle_orderbook_def rbind_def split: sum.splits)
    have "s' = fold (\<lambda>(p, now, clock). on_packet p now clock) ps s1" using Cons.prems by (simp add: x s1_def)
    from Cons.IH [OF this] step show ?case by (auto simp: x)
  qed simp
  from this [OF refl, of s] assms show ?thesis by (simp add: Let_def)
qed

section \<open>Witnesses\<close>

definition sample_book_dict :: "(string \<times> pyval) list" where
  "sample_book_dict =
     [(''bids'', VList [VList [VInt 99, VInt 1], VList [VInt 100, VInt 2], VInt 3]),
      (''asks'', VList [VDict [(''p'', VInt 102), (''q'', VInt 1)]])]"

definition sample_day :: datetime where
  "sample_day = DT 2024 2 29 0 0 0 0 None"

lemma sample_raw_levels:
  "raw_levels sample_book_dict ''bids'' = [\<lparr>lv_price = Fin 99, lv_quantity = Fin 1\<rparr>, \<lparr>lv_price = Fin 100, lv_quantity = Fin 2\<rparr>]"
  "raw_levels sample_book_dict ''asks'' = [\<lparr>lv_price = Fin 102, lv_quantity = Fin 1\<rparr>]"
  by (simp_all add: raw_levels_def sample_book_dict_def dict_get_def map_filter_simps parse_level_def raw_level_def
      safe_float_def py_or_def dict_simps)

theorem normalized_orderbook_witness:
  "\<exists>b. normalize_orderbook ''X'' ''BTC'' (VDict sample_book_dict) 1 sample_day = Inr b \<and>
     Fin 100 \<le> best_bid b \<and> length (ob_bids b) \<le> 1"
proof -
  have "\<exists>b. normalize_orderbook ''X'' ''BTC'' (VDict sample_book_dict) 1 sample_day = Inr b"
    by (simp add: normalize_orderbook_def normalize_levels_raw sample_raw_levels py_prefix_def sort_by_def
        level_before_def book_valid_def best_bid_def best_ask_def extract_timestamp_def py_or_def Let_def)
      (simp add: sample_book_dict_def dict_simps)
  then obtain b where b: "normalize_orderbook ''X'' ''BTC'' (VDict sample_book_dict) 1 sample_day = Inr b" by blast
  from normalized_orderbook [OF b] b show ?thesis by (auto simp: sample_raw_levels)
qed

definition sample_tick :: "string \<Rightarrow> real \<Rightarrow> market_tick" where
  "sample_tick exch p = \<lparr>tk_symbol = ''BTC'', tk_exchange = exch, tk_bid = Fin p, tk_ask = Fin p, tk_last = Fin p,
     tk_volume = Fin 1, tk_timestamp = sample_day\<rparr>"

definition sample_store :: market_store where
  "sample_store = \<lparr>ms_stale_after = Fin 30, ms_ticks = [], ms_books = [], ms_updated = []\<rparr>"

theorem mark_price_ignores_earlier_exchange_witness:
  "map_of (mark_prices (fold (\<lambda>t. update_tick t (Fin 0))
     [sample_tick ''A'' 100, sample_tick ''B'' 90, sample_tick ''A'' 200] sample_store)) ''BTC'' = Some (Fin 90)"
proof -
  have "market_key ''A'' ''BTC'' \<noteq> market_key ''B'' ''BTC''" by (simp add: market_key_def)
  then have "map_of (mark_prices (fold (\<lambda>t. update_tick t (Fin 0))
     [sample_tick ''A'' 100, sample_tick ''B'' 90, sample_tick ''A'' 200] sample_store)) ''BTC'' =
      Some (tick_mark (sample_tick ''B'' 90))"
    by (rule mark_price_ignores_earlier_exchange) (simp_all add: sample_tick_def sample_store_def)
  then show ?thesis by (simp add: tick_mark_def tick_mid_def sample_tick_def py_true_def)
qed

theorem packets_accounted_witness:
  "(let s' = on_packet \<lparr>pk_kind = ''ticker'', pk_exchange = ''X'', pk_symbol = ''BTC'', pk_payload = VNone\<rparr> sample_day (Fin 0)
        \<lparr>mk_depth = 5, mk_store = sample_store, mk_published = [], mk_ticks = 0, mk_books = 0, mk_failures = 0\<rparr>
    in mk_ticks s' + mk_books s' + mk_failures s' = 1)"
  using packets_accounted [of "\<lparr>mk_depth = 5, mk_store = sample_store, mk_published = [], mk_ticks = 0, mk_books = 0,
      mk_failures = 0\<rparr>" "[(\<lparr>pk_kind = ''ticker'', pk_exchange = ''X'', pk_symbol = ''BTC'', pk_payload = VNone\<rparr>,
      sample_day, Fin 0)]"]
  by (simp add: Let_def)

end
