(* ===== verification/Order_Lifecycle.thy ===== *)
theory Order_Lifecycle
  imports Orders
begin

text \<open>
  The order state machine (\<open>execution/order_state_machine.py\<close>) and the order validator
  (\<open>execution/execution_validator.py\<close>). The locale \<open>lifecycle\<close> is what the machine's
  clients rely on: terminal states have no successor and every step climbs a bounded rank. It is
  interpreted on the transition table, and the bounds on runs of an order come from there.
\<close>

section \<open>Lifecycles\<close>

text \<open>The states a run visits after its first, each a step from the one before.\<close>

fun step_path :: "('s \<Rightarrow> 's \<Rightarrow> bool) \<Rightarrow> 's \<Rightarrow> 's list \<Rightarrow> bool" where
  "step_path step s [] = True"
| "step_path step s (t # ts) = (step s t \<and> step_path step t ts)"

locale lifecycle =
  fixes step :: "'s \<Rightarrow> 's \<Rightarrow> bool"
    and terminal :: "'s \<Rightarrow> bool"
    and rank :: "'s \<Rightarrow> nat"
    and top :: nat
  assumes terminal_stuck: "terminal s \<Longrightarrow> \<not> step s t"
    and rank_step: "step s t \<Longrightarrow> rank s < rank t"
    and rank_top: "rank s \<le> top"
begin

lemma path_rank: "step_path step s ts \<Longrightarrow> rank s + length ts \<le> rank (last (s # ts))"
proof (induction ts arbitrary: s)
  case (Cons t ts)
  then have "rank s < rank t" "rank t + length ts \<le> rank (last (t # ts))"
    by (auto dest: rank_step)
  then show ?case by (simp split: if_splits)
qed simp

lemma path_bounded: "step_path step s ts \<Longrightarrow> rank s + length ts \<le> top"
  using path_rank [of s ts] rank_top [of "last (s # ts)"] by linarith

lemma path_terminal: "step_path step s ts \<Longrightarrow> terminal s \<Longrightarrow> ts = []"
  by (cases ts) (auto dest: terminal_stuck)

lemma path_increasing: "step_path step s ts \<Longrightarrow> t \<in> set ts \<Longrightarrow> rank s < rank t"
proof (induction ts arbitrary: s)
  case (Cons u us)
  then show ?case by (auto dest: rank_step intro: less_trans)
qed simp

lemma path_distinct: "step_path step s ts \<Longrightarrow> distinct (s # ts)"
proof (induction ts arbitrary: s)
  case (Cons t ts)
  then show ?case using path_increasing [OF Cons.prems] by (auto simp del: step_path.simps)
      (auto simp: Cons)
qed simp

lemma path_no_return: "step_path step s ts \<Longrightarrow> s \<notin> set ts"
  using path_increasing by blast

end

section \<open>The transition table\<close>

fun valid_transitions :: "order_status \<Rightarrow> order_status list" where
  "valid_transitions CREATED = [VALIDATED, REJECTED]"
| "valid_transitions VALIDATED = [ROUTED, FAILED, REJECTED]"
| "valid_transitions ROUTED = [SUBMITTED, FAILED, REJECTED]"
| "valid_transitions SUBMITTED = [PARTIALLY_FILLED, FILLED, CANCELLED, FAILED]"
| "valid_transitions PARTIALLY_FILLED = [FILLED, CANCELLED]"
| "valid_transitions _ = []"

definition transition :: "order \<Rightarrow> order_status \<Rightarrow> order res" where
  "transition ord new_state =
     (if new_state \<notin> set (valid_transitions (o_status ord))
      then Inl (InvalidStateTransition
             [Txt ''Invalid transition '', Str (status_value (o_status ord)), Txt '' -> '',
              Str (status_value new_state)])
      else Inr (ord\<lparr>o_status := new_state\<rparr>))"

text \<open>Successive transitions of one order, stopped by the first that is refused.\<close>

fun transitions :: "order \<Rightarrow> order_status list \<Rightarrow> order res" where
  "transitions ord [] = Inr ord"
| "transitions ord (st # sts) = rbind (transition ord st) (\<lambda>ord'. transitions ord' sts)"

inductive status_step :: "order_status \<Rightarrow> order_status \<Rightarrow> bool" where
  "t \<in> set (valid_transitions s) \<Longrightarrow> status_step s t"

inductive_simps status_step_simps [simp]:
  "status_step CREATED t" "status_step VALIDATED t" "status_step ROUTED t"
  "status_step SUBMITTED t" "status_step PARTIALLY_FILLED t" "status_step FILLED t"
  "status_step CANCELLED t" "status_step FAILED t" "status_step REJECTED t"

fun status_rank :: "order_status \<Rightarrow> nat" where
  "status_rank CREATED = 0"
| "status_rank VALIDATED = 1"
| "status_rank ROUTED = 2"
| "status_rank SUBMITTED = 3"
| "status_rank PARTIALLY_FILLED = 4"
| "status_rank _ = 5"

interpretation order_lifecycle: lifecycle status_step terminal_status status_rank 5
proof unfold_locales
  show "terminal_status s \<Longrightarrow> \<not> status_step s t" for s t
    by (cases s) (auto simp: terminal_status_def)
  show "status_step s t \<Longrightarrow> status_rank s < status_rank t" for s t
    by (cases s) auto
  show "status_rank s \<le> 5" for s by (cases s) auto
qed

section \<open>The order validator\<close>

definition validate_order :: "order \<Rightarrow> bool res" where
  "validate_order ord =
     (if o_symbol ord = [] then Inl (ValueError (text_msg ''Missing symbol''))
      else if o_quantity ord \<le> Fin 0 then Inl (ValueError (text_msg ''Invalid quantity''))
      else if o_type ord = LIMIT \<and> o_price ord = None
      then Inl (ValueError (text_msg ''Limit order requires price''))
      else Inr True)"

section \<open>Lemmas\<close>

lemma transition_ok [res_simps]:
  "transition ord st = Inr ord' \<longleftrightarrow>
     st \<in> set (valid_transitions (o_status ord)) \<and> ord' = ord\<lparr>o_status := st\<rparr>"
  by (auto simp: transition_def)

lemma transition_simps [simp]:
  "st \<in> set (valid_transitions (o_status ord)) \<Longrightarrow> transition ord st = Inr (ord\<lparr>o_status := st\<rparr>)"
  by (simp add: transition_def)

lemma transitions_path: "transitions ord sts = Inr ord' \<Longrightarrow> step_path status_step (o_status ord) sts"
proof (induction sts arbitrary: ord)
  case (Cons st sts)
  then obtain ord1 where "transition ord st = Inr ord1" and "transitions ord1 sts = Inr ord'"
    by (auto simp: rbind_Inr_iff)
  then show ?case using Cons.IH [of ord1] by (auto simp: transition_ok intro: status_step.intros)
qed simp

lemma transitions_status:
  "transitions ord sts = Inr ord' \<Longrightarrow> ord' = ord\<lparr>o_status := last (o_status ord # sts)\<rparr>"
proof (induction sts arbitrary: ord)
  case (Cons st sts)
  then obtain ord1 where "transition ord st = Inr ord1" and "transitions ord1 sts = Inr ord'"
    by (auto simp: rbind_Inr_iff)
  then show ?case using Cons.IH [of ord1] by (auto simp: transition_ok)
qed simp

lemma stuck_iff_terminal: "valid_transitions st = [] \<longleftrightarrow> terminal_status st"
  by (cases st) (simp_all add: terminal_status_def)

text \<open>The transition sequences that end in FILLED, by the status they start from.\<close>

fun routes_to_filled :: "order_status \<Rightarrow> order_status list list" where
  "routes_to_filled FILLED = [[]]"
| "routes_to_filled PARTIALLY_FILLED = [[FILLED]]"
| "routes_to_filled SUBMITTED = [[FILLED], [PARTIALLY_FILLED, FILLED]]"
| "routes_to_filled ROUTED = map ((#) SUBMITTED) [[FILLED], [PARTIALLY_FILLED, FILLED]]"
| "routes_to_filled VALIDATED = map (\<lambda>r. ROUTED # SUBMITTED # r) [[FILLED], [PARTIALLY_FILLED, FILLED]]"
| "routes_to_filled CREATED =
     map (\<lambda>r. VALIDATED # ROUTED # SUBMITTED # r) [[FILLED], [PARTIALLY_FILLED, FILLED]]"
| "routes_to_filled _ = []"

lemma path_to_filled:
  "step_path status_step s sts \<Longrightarrow> last (s # sts) = FILLED \<Longrightarrow> sts \<in> set (routes_to_filled s)"
proof (induction sts arbitrary: s)
  case (Cons t ts)
  then have "status_step s t" "ts \<in> set (routes_to_filled t)" by auto
  then show ?case by (cases s rule: order_status.exhaust) auto
qed simp

lemma validate_order_ok:
  "validate_order ord = Inr b \<longleftrightarrow>
     b \<and> o_symbol ord \<noteq> [] \<and> \<not> o_quantity ord \<le> Fin 0 \<and> \<not> (o_type ord = LIMIT \<and> o_price ord = None)"
  by (auto simp: validate_order_def)

section \<open>Properties\<close>

text \<open>
  C8. An order that starts as CREATED and is driven by the state machine to FILLED has gone
  through VALIDATED, ROUTED and SUBMITTED in that order, and then to FILLED directly or through
  exactly one PARTIALLY_FILLED; no other sequence of transitions reaches FILLED.
\<close>
theorem filled_only_through_submission:
  assumes "o_status ord = CREATED"
  shows "(\<exists>ord'. transitions ord sts = Inr ord' \<and> o_status ord' = FILLED) \<longleftrightarrow>
    sts = [VALIDATED, ROUTED, SUBMITTED, FILLED] \<or>
    sts = [VALIDATED, ROUTED, SUBMITTED, PARTIALLY_FILLED, FILLED]"
proof
  assume "\<exists>ord'. transitions ord sts = Inr ord' \<and> o_status ord' = FILLED"
  then obtain ord' where run: "transitions ord sts = Inr ord'" and fin: "o_status ord' = FILLED"
    by blast
  have "sts \<in> set (routes_to_filled CREATED)"
    using transitions_path [OF run] transitions_status [OF run] fin assms
    by (intro path_to_filled) simp_all
  then show "sts = [VALIDATED, ROUTED, SUBMITTED, FILLED] \<or>
    sts = [VALIDATED, ROUTED, SUBMITTED, PARTIALLY_FILLED, FILLED]" by auto
next
  show "sts = [VALIDATED, ROUTED, SUBMITTED, FILLED] \<or>
    sts = [VALIDATED, ROUTED, SUBMITTED, PARTIALLY_FILLED, FILLED] \<Longrightarrow>
    \<exists>ord'. transitions ord sts = Inr ord' \<and> o_status ord' = FILLED"
    using assms by (auto simp: transition_def)
qed

text \<open>
  C9. Every run of transitions accepted for an order has at most five steps and never visits a
  status twice; and no further transition is accepted exactly when the order is complete (FILLED,
  CANCELLED, REJECTED or FAILED).
\<close>
theorem transitions_bounded:
  assumes "transitions ord sts = Inr ord'"
  shows "length sts \<le> 5 \<and> distinct (o_status ord # sts) \<and>
    (is_complete ord' \<longleftrightarrow> (\<forall>st. \<not> is_ok (transition ord' st)))"
proof -
  have path: "step_path status_step (o_status ord) sts" by (rule transitions_path [OF assms])
  have "is_complete ord' \<longleftrightarrow> valid_transitions (o_status ord') = []"
    by (simp add: is_complete_def stuck_iff_terminal)
  also have "\<dots> \<longleftrightarrow> (\<forall>st. \<not> is_ok (transition ord' st))"
    by (cases "valid_transitions (o_status ord')") (auto simp: transition_def)
  finally show ?thesis
    using order_lifecycle.path_bounded [OF path] order_lifecycle.path_distinct [OF path] by simp
qed

definition sample_order :: order where
  "sample_order = new_order ''BTC/USDT'' BUY (Fin 2) MARKET None VNone ''cid''
     (DT 2026 1 2 3 4 5 0 None)"

theorem filled_only_through_submission_witness:
  "\<exists>ord'. transitions sample_order [VALIDATED, ROUTED, SUBMITTED, FILLED] = Inr ord' \<and>
     o_status ord' = FILLED"
  using filled_only_through_submission [of sample_order "[VALIDATED, ROUTED, SUBMITTED, FILLED]"]
  by (simp add: sample_order_def new_order_def)

theorem transitions_bounded_witness:
  "\<exists>ord'. transitions sample_order [VALIDATED, REJECTED] = Inr ord' \<and> is_complete ord' \<and>
     (\<forall>st. \<not> is_ok (transition ord' st))"
proof -
  let ?o = "sample_order\<lparr>o_status := REJECTED\<rparr>"
  have run: "transitions sample_order [VALIDATED, REJECTED] = Inr ?o"
    by (simp add: sample_order_def new_order_def)
  have "is_complete ?o" by (simp add: is_complete_def terminal_status_def)
  then show ?thesis using run transitions_bounded [OF run] by blast
qed

end
