(* ===== verification/Exchange_Reports.thy ===== *)
theory Exchange_Reports
  imports Orders
begin

text \<open>
  What comes back from an exchange and what travels on the bus: the normalizer that turns a raw
  response into an execution report (\<open>execution/exchange_response_normalizer.py\<close>) and the codec of
  order events (\<open>execution/order_event_codec.py\<close>). A raw response is a \<open>pyval\<close>. The text of a float,
  a list or a dictionary is not modelled: where the code stores \<open>str(value)\<close> of one, the model
  stores the value itself, and no such text is a key of the status table.
\<close>

section \<open>The response normalizer\<close>

definition status_map :: "(string, order_status) pydict" where
  "status_map =
     [(''open'', SUBMITTED), (''new'', SUBMITTED), (''submitted'', SUBMITTED), (''pending'', SUBMITTED),
      (''partial'', PARTIALLY_FILLED), (''partially_filled'', PARTIALLY_FILLED),
      (''partiallyfilled'', PARTIALLY_FILLED),
      (''closed'', FILLED), (''filled'', FILLED), (''done'', FILLED),
      (''cancelled'', CANCELLED), (''canceled'', CANCELLED),
      (''rejected'', REJECTED), (''failed'', FAILED)]"

definition payload_of :: "pyval \<Rightarrow> (string \<times> pyval) list" where
  "payload_of raw = (case raw of VDict d \<Rightarrow> d | _ \<Rightarrow> [])"

definition mapped_status :: "(string \<times> pyval) list \<Rightarrow> order_status" where
  "mapped_status d =
     dict_get status_map (str_lower (py_str (dict_get d ''status'' (VStr ''submitted'')))) SUBMITTED"

text \<open>\<open>str(v)\<close> of a stored identifier.\<close>

definition id_text :: "pyval \<Rightarrow> pyval" where
  "id_text v = (case v of
      VBool b \<Rightarrow> VStr (py_str v) | VInt i \<Rightarrow> VStr (py_str v) | VNone \<Rightarrow> VStr (py_str v) | _ \<Rightarrow> v)"

text \<open>\<open>add_fee_value\<close> of the nested function, on the running total.\<close>

definition add_fee_value :: "pyfloat \<Rightarrow> pyval \<Rightarrow> pyfloat" where
  "add_fee_value acc v =
     (case v of
        VStr s \<Rightarrow> (case py_float_of_str s of Some x \<Rightarrow> acc + x | None \<Rightarrow> acc)
      | _ \<Rightarrow> (case as_number v of Some x \<Rightarrow> acc + x | None \<Rightarrow> acc))"

text \<open>A loop that adds the entry \<open>key\<close> of every dictionary in a list.\<close>

definition add_entries :: "string \<Rightarrow> pyfloat \<Rightarrow> pyval \<Rightarrow> pyfloat" where
  "add_entries key acc v =
     (case v of
        VList xs \<Rightarrow> foldl (\<lambda>t item. case item of VDict d \<Rightarrow> add_fee_value t (get_val d key) | _ \<Rightarrow> t) acc xs
      | _ \<Rightarrow> acc)"

definition extract_fee :: "(string \<times> pyval) list \<Rightarrow> pyfloat" where
  "extract_fee d =
     (let t0 = Fin 0;
          t1 = (case get_val d ''fee'' of
                  VDict f \<Rightarrow> add_fee_value t0 (get_val f ''cost'')
                | v \<Rightarrow> add_fee_value t0 v);
          t2 = add_entries ''cost'' t1 (get_val d ''fees'')
      in case get_val d ''info'' of
           VDict info \<Rightarrow> add_fee_value (add_entries ''commission'' t2 (get_val info ''fills''))
                          (get_val info ''commission'')
         | _ \<Rightarrow> t2)"

definition final_status :: "order_status \<Rightarrow> pyfloat \<Rightarrow> pyfloat \<Rightarrow> order_status" where
  "final_status st filled quantity =
     (let st1 = (if Fin 0 < filled \<and> filled < quantity \<and> st = SUBMITTED then PARTIALLY_FILLED else st)
      in if quantity \<le> filled \<and> Fin 0 < quantity then FILLED else st1)"

definition normalize_response :: "order \<Rightarrow> pyval \<Rightarrow> pyval \<Rightarrow> datetime \<Rightarrow> execution_report" where
  "normalize_response ord exchange_name raw now =
     (let d = payload_of raw;
          status = mapped_status d;
          filled = extract_float d [''filled'', ''filled_quantity'', ''executedQty'', ''amount_filled''] (Fin 0);
          average = extract_float d [''average'', ''avgPrice'', ''average_fill_price'', ''price''] (Fin 0);
          xid = py_or (py_or (get_val d ''id'') (get_val d ''orderId'')) (get_val d ''clientOrderId'')
      in \<lparr>r_symbol = o_symbol ord, r_side = side_value (o_side ord), r_requested = o_quantity ord,
          r_filled = filled, r_avg_price = average,
          r_status = final_status status filled (o_quantity ord),
          r_exchange = exchange_name, r_exchange_id = (if truthy xid then id_text xid else VNone),
          r_correlation_id = o_correlation_id ord, r_fee = extract_fee d, r_raw = raw,
          r_timestamp = now\<rparr>)"

section \<open>The order codec\<close>

definition encode_order :: "order \<Rightarrow> (string \<times> pyval) list" where
  "encode_order ord =
     [(''symbol'', VStr (o_symbol ord)), (''side'', VStr (side_value (o_side ord))),
      (''quantity'', VFloat (o_quantity ord)), (''order_type'', VStr (type_value (o_type ord))),
      (''price'', opt_float (o_price ord)), (''exchange'', o_exchange ord),
      (''status'', VStr (status_value (o_status ord))), (''filled_quantity'', VFloat (o_filled ord)),
      (''average_fill_price'', VFloat (o_avg_price ord)), (''exchange_order_id'', o_exchange_id ord),
      (''strategy_id'', o_strategy_id ord), (''correlation_id'', opt_str (o_correlation_id ord)),
      (''created_at'', VStr (isoformat (o_created_at ord))),
      (''updated_at'', VStr (isoformat (o_updated_at ord)))]"

text \<open>\<open>payload[key]\<close>.\<close>

definition dict_index :: "(string \<times> pyval) list \<Rightarrow> string \<Rightarrow> pyval res" where
  "dict_index d k = (case map_of d k of None \<Rightarrow> Inl (KeyError k) | Some v \<Rightarrow> Inr v)"

definition optional_float :: "pyval \<Rightarrow> pyfloat option res" where
  "optional_float v = (if v = VNone then Inr None else rbind (py_float v) (\<lambda>x. Inr (Some x)))"

text \<open>Only a \<open>ValueError\<close> is caught: a true value that is not text raises a \<open>TypeError\<close>.\<close>

definition parse_datetime :: "pyval \<Rightarrow> datetime option res" where
  "parse_datetime v =
     (if \<not> truthy v then Inr None
      else case v of
             VStr s \<Rightarrow> Inr (fromisoformat s)
           | VMsg _ \<Rightarrow> Inr None
           | _ \<Rightarrow> Inl (TypeError (text_msg ''fromisoformat: argument must be str'')))"

definition decode_order :: "pyval \<Rightarrow> datetime \<Rightarrow> order res" where
  "decode_order payload now =
     (case payload of
        VDict d \<Rightarrow>
          rbind (parse_datetime (get_val d ''created_at'')) (\<lambda>created.
          rbind (parse_datetime (get_val d ''updated_at'')) (\<lambda>updated.
          rbind (dict_index d ''symbol'') (\<lambda>symb.
          rbind (rbind (dict_index d ''side'') (\<lambda>v. side_of (str_upper (py_str v)))) (\<lambda>side.
          rbind (rbind (dict_index d ''quantity'') py_float) (\<lambda>quantity.
          rbind (rbind (dict_index d ''order_type'') (\<lambda>v. type_of (str_upper (py_str v)))) (\<lambda>ty.
          rbind (optional_float (get_val d ''price'')) (\<lambda>price.
          rbind (status_of (str_upper (py_str (dict_get d ''status'' (VStr ''CREATED''))))) (\<lambda>status.
          rbind (py_float (dict_get d ''filled_quantity'' (VFloat (Fin 0)))) (\<lambda>filled.
          rbind (py_float (dict_get d ''average_fill_price'' (VFloat (Fin 0)))) (\<lambda>average.
          Inr \<lparr>o_symbol = py_str symb, o_side = side, o_quantity = quantity, o_type = ty, o_price = price,
               o_exchange = get_val d ''exchange'', o_status = status, o_filled = filled,
               o_avg_price = average, o_exchange_id = get_val d ''exchange_order_id'',
               o_strategy_id = get_val d ''strategy_id'',
               o_correlation_id =
                 (let c = get_val d ''correlation_id'' in if truthy c then Some (py_str c) else None),
               o_created_at = (case created of None \<Rightarrow> now | Some t \<Rightarrow> t),
               o_updated_at = (case updated of None \<Rightarrow> now | Some t \<Rightarrow> t)\<rparr>))))))))))
      | _ \<Rightarrow> Inl (TypeError (text_msg ''Order event payload must be a dictionary'')))"

section \<open>Lemmas\<close>

lemma add_fee_value_sum: "add_fee_value acc v = acc + add_fee_value (Fin 0) v"
  by (auto simp: add_fee_value_def split: pyval.splits option.splits)

lemma foldl_additive:
  assumes g: "\<And>t x. g t x = t + g (Fin 0) x"
  shows "foldl g a xs = a + foldl g (Fin 0) xs"
proof (induction xs arbitrary: a)
  case (Cons x xs)
  have "foldl g a (x # xs) = g a x + foldl g (Fin 0) xs"
    unfolding foldl.simps by (rule Cons.IH)
  also have "\<dots> = a + (g (Fin 0) x + foldl g (Fin 0) xs)" unfolding g [of a x] by (rule pyfloat_plus_assoc)
  also have "g (Fin 0) x + foldl g (Fin 0) xs = foldl g (Fin 0) (x # xs)"
    unfolding foldl.simps by (rule Cons.IH [symmetric])
  finally show ?case .
qed simp

lemma add_entries_sum: "add_entries key acc v = acc + add_entries key (Fin 0) v"
proof (cases v)
  case (VList xs)
  let ?g = "\<lambda>t item. case item of VDict d \<Rightarrow> add_fee_value t (get_val d key) | _ \<Rightarrow> t"
  have "?g t x = t + ?g (Fin 0) x" for t x
    by (cases x) (simp_all, rule add_fee_value_sum)
  from foldl_additive [of ?g, OF this] show ?thesis unfolding add_entries_def VList pyval.case .
qed (simp_all add: add_entries_def)

lemma parse_datetime_iso: "valid_datetime d \<Longrightarrow> parse_datetime (VStr (isoformat d)) = Inr (Some d)"
  by (simp add: parse_datetime_def isoformat_nonempty fromisoformat_isoformat)

lemma optional_float_opt [simp]: "optional_float (opt_float p) = Inr p"
  by (cases p) (simp_all add: optional_float_def opt_float_def)

text \<open>
  The fee of a report is the sum of four places, each with its own loop and type checks: the
  entry \<open>fee\<close>, the list \<open>fees\<close>, the list \<open>info.fills\<close> and \<open>info.commission\<close>. Whatever
  order the places are read in, an exchange that repeats its fee in two of them is charged twice.
\<close>
lemma fee_is_sum_of_places:
  "extract_fee d =
     (case get_val d ''fee'' of VDict f \<Rightarrow> add_fee_value (Fin 0) (get_val f ''cost'')
        | v \<Rightarrow> add_fee_value (Fin 0) v) +
     add_entries ''cost'' (Fin 0) (get_val d ''fees'') +
     (case get_val d ''info'' of
        VDict info \<Rightarrow> add_entries ''commission'' (Fin 0) (get_val info ''fills'') +
                      add_fee_value (Fin 0) (get_val info ''commission'')
      | _ \<Rightarrow> Fin 0) \<and>
   extract_fee [(''fee'', VDict [(''cost'', VFloat (Fin c))]),
                (''fees'', VList [VDict [(''cost'', VFloat (Fin c))]])] = Fin (2 * c)"
proof
  let ?fee = "case get_val d ''fee'' of VDict f \<Rightarrow> add_fee_value (Fin 0) (get_val f ''cost'')
        | v \<Rightarrow> add_fee_value (Fin 0) v"
  let ?fees = "add_entries ''cost'' (Fin 0) (get_val d ''fees'')"
  let ?fills = "\<lambda>info. add_entries ''commission'' (Fin 0) (get_val info ''fills'')"
  show "extract_fee d = ?fee + ?fees +
     (case get_val d ''info'' of
        VDict info \<Rightarrow> ?fills info + add_fee_value (Fin 0) (get_val info ''commission'')
      | _ \<Rightarrow> Fin 0)"
  proof -
    define t2 where "t2 = ?fee + ?fees"
    have t2: "add_entries ''cost'' ?fee (get_val d ''fees'') = t2"
      unfolding t2_def by (rule add_entries_sum)
    have info: "add_fee_value (add_entries ''commission'' t2 (get_val info ''fills'')) (get_val info ''commission'') =
        t2 + (?fills info + add_fee_value (Fin 0) (get_val info ''commission''))" for info
      by (subst add_fee_value_sum, subst add_entries_sum) (rule pyfloat_plus_assoc)
    show ?thesis unfolding extract_fee_def Let_def t2 info t2_def [symmetric]
      by (cases "get_val d ''info''") (simp_all only: pyval.case pyfloat_plus_zero)
  qed
  show "extract_fee [(''fee'', VDict [(''cost'', VFloat (Fin c))]),
                (''fees'', VList [VDict [(''cost'', VFloat (Fin c))]])] = Fin (2 * c)"
    by (simp add: extract_fee_def get_val_def dict_get_def add_fee_value_def add_entries_def)
qed

section \<open>Properties\<close>

text \<open>
  The status of a report. With a positive requested quantity and numbers on both sides, a
  response whose filled quantity reaches the request is FILLED whatever its status text says,
  and one that does not keeps the status of its text, except that a positive fill makes an open
  order PARTIALLY_FILLED. The report always carries the order's symbol, side, requested quantity
  and correlation id.
\<close>
theorem report_status:
  assumes "Fin 0 < o_quantity ord" and "r = normalize_response ord exch raw now" and "is_num (r_filled r)"
  shows "(r_status r = (if o_quantity ord \<le> r_filled r then FILLED
       else if mapped_status (payload_of raw) = SUBMITTED \<and> has_fill r then PARTIALLY_FILLED
       else mapped_status (payload_of raw))) \<and>
    r_symbol r = o_symbol ord \<and> r_side r = side_value (o_side ord) \<and>
    r_requested r = o_quantity ord \<and> r_correlation_id r = o_correlation_id ord"
proof -
  define f where "f = r_filled r"
  have status: "r_status r = final_status (mapped_status (payload_of raw)) f (o_quantity ord)"
    by (simp add: f_def assms(2) normalize_response_def Let_def)
  have "\<not> o_quantity ord \<le> f \<longleftrightarrow> f < o_quantity ord"
    using assms(1,3) by (intro pyfloat_not_le) (auto simp: f_def dest: pyfloat_lessD_num)
  then have "final_status st f (o_quantity ord) =
      (if o_quantity ord \<le> f then FILLED else if st = SUBMITTED \<and> has_fill r then PARTIALLY_FILLED else st)" for st
    using assms(1) by (auto simp: final_status_def has_fill_def f_def)
  then show ?thesis unfolding status by (simp add: assms(2) normalize_response_def Let_def f_def)
qed

text \<open>
  A report can be FILLED without a fill: a response that says \<open>closed\<close>, \<open>filled\<close> or \<open>done\<close> and
  carries no quantity gives, for every order of positive quantity, a FILLED report that no fill
  will be booked for.
\<close>
theorem closed_without_quantity_is_filled:
  assumes "str_lower st \<in> {''closed'', ''filled'', ''done''}"
  shows "r_status (normalize_response ord exch (VDict [(''status'', VStr st)]) now) = FILLED \<and>
    \<not> has_fill (normalize_response ord exch (VDict [(''status'', VStr st)]) now)"
  using assms
  by (auto simp: normalize_response_def payload_of_def mapped_status_def status_map_def dict_get_def
      get_val_def final_status_def has_fill_def Let_def)

text \<open>
  Decoding an encoded order gives the order back, for every order whose two dates are dates of
  the calendar and whose correlation id, where it has one, is not the empty text.
\<close>
theorem order_codec_roundtrip:
  assumes "valid_datetime (o_created_at ord)" "valid_datetime (o_updated_at ord)"
    and "o_correlation_id ord \<noteq> Some []"
  shows "decode_order (VDict (encode_order ord)) now = Inr ord"
  using assms
  by (cases "o_correlation_id ord")
    (simp_all add: decode_order_def encode_order_def get_val_def dict_get_def dict_index_def
      parse_datetime_iso opt_str_def Let_def)

section \<open>Witnesses\<close>

definition sample_buy :: order where
  "sample_buy = new_order ''BTC/USDT'' BUY (Fin 2) LIMIT (Some (Fin 100)) (VStr ''s1'') ''cid''
     (DT 2024 2 29 23 59 0 5 None)"

theorem report_status_witness:
  "r_status (normalize_response sample_buy VNone
     (VDict [(''status'', VStr ''canceled''), (''executedQty'', VInt 2)]) (o_created_at sample_buy)) = FILLED"
proof -
  have "is_num (r_filled (normalize_response sample_buy VNone
     (VDict [(''status'', VStr ''canceled''), (''executedQty'', VInt 2)]) (o_created_at sample_buy)))"
    "o_quantity sample_buy \<le> r_filled (normalize_response sample_buy VNone
     (VDict [(''status'', VStr ''canceled''), (''executedQty'', VInt 2)]) (o_created_at sample_buy))"
    by (simp_all add: normalize_response_def payload_of_def dict_simps sample_buy_def new_order_def Let_def)
  with report_status [OF _ refl, of sample_buy VNone
      "VDict [(''status'', VStr ''canceled''), (''executedQty'', VInt 2)]" "o_created_at sample_buy"]
  show ?thesis by (simp add: sample_buy_def new_order_def)
qed

theorem closed_without_quantity_is_filled_witness:
  "r_status (normalize_response sample_buy VNone (VDict [(''status'', VStr ''Closed'')])
     (o_created_at sample_buy)) = FILLED"
  by (rule closed_without_quantity_is_filled [THEN conjunct1]) (simp add: str_simps)

theorem order_codec_roundtrip_witness:
  "decode_order (VDict (encode_order sample_buy)) (o_created_at sample_buy) = Inr sample_buy"
  by (rule order_codec_roundtrip)
    (simp_all add: sample_buy_def new_order_def valid_datetime_def days_in_month_def leap_year_def)

end
