(* ===== verification/Risk_Checks.thy ===== *)
theory Risk_Checks
  imports Position_Ledger
begin

text \<open>
  Exposure, the portfolio guard and the pre-trade validator
  (\<open>portfolio/exposure_engine.py\<close>, \<open>risk/portfolio_guard.py\<close>,
  \<open>risk/pre_trade_risk.py\<close>), with the small sizing helpers beside them. The lemmas compute the
  engine's figures as sums over the positions, show that the validator's projection is what the
  engine reports after the order, and give the meaning of an approval.
\<close>

section \<open>Exposure engine\<close>

record exposure_snapshot =
  e_gross :: pyfloat
  e_net :: pyfloat
  e_long :: pyfloat
  e_short :: pyfloat
  e_symbol :: "(string, pyfloat) pydict"
  e_weights :: "(string, pyfloat) pydict"

definition float_dict :: "(string, pyfloat) pydict \<Rightarrow> pyval" where
  "float_dict d = VDict (map (\<lambda>(k, x). (k, VFloat x)) d)"

definition exposure_to_dict :: "exposure_snapshot \<Rightarrow> (string \<times> pyval) list" where
  "exposure_to_dict e =
     [(''gross_exposure'', VFloat (e_gross e)), (''net_exposure'', VFloat (e_net e)),
      (''long_exposure'', VFloat (e_long e)), (''short_exposure'', VFloat (e_short e)),
      (''symbol_exposure'', float_dict (e_symbol e)), (''symbol_weights'', float_dict (e_weights e))]"

definition marked_notional :: "(string, pyfloat) pydict \<Rightarrow> string \<Rightarrow> position \<Rightarrow> pyfloat" where
  "marked_notional marks s p = signed_notional p (Some (dict_get marks s (p_avg_entry p)))"

text \<open>The loop over the positions: long, short and net totals, and the exposure per symbol.\<close>

fun exposure_loop ::
  "(string, pyfloat) pydict \<Rightarrow> (string, position) pydict \<Rightarrow>
   pyfloat \<times> pyfloat \<times> pyfloat \<times> (string, pyfloat) pydict \<Rightarrow>
   pyfloat \<times> pyfloat \<times> pyfloat \<times> (string, pyfloat) pydict" where
  "exposure_loop marks [] acc = acc"
| "exposure_loop marks ((s, p) # ps) (long, short, net, by_symbol) =
     (let signed = marked_notional marks s p in
      exposure_loop marks ps
        (if Fin 0 \<le> signed then long + signed else long,
         if Fin 0 \<le> signed then short else short + \<bar>signed\<bar>,
         net + signed,
         dict_set s \<bar>signed\<bar> by_symbol))"

definition exposure_calculate ::
  "(string, position) pydict \<Rightarrow> (string, pyfloat) pydict \<Rightarrow> exposure_snapshot" where
  "exposure_calculate ps marks =
     (let (long, short, net, by_symbol) = exposure_loop marks ps (Fin 0, Fin 0, Fin 0, []);
          gross = long + short;
          weights = (if Fin 0 < gross then map (\<lambda>(s, x). (s, x / gross)) by_symbol
                     else map (\<lambda>(s, x). (s, Fin 0)) by_symbol)
      in \<lparr>e_gross = gross, e_net = net, e_long = long, e_short = short,
          e_symbol = by_symbol, e_weights = weights\<rparr>)"

section \<open>Portfolio guard\<close>

record risk_breach =
  b_code :: string
  b_message :: message
  b_severity :: string

record portfolio_guard =
  g_max_gross :: pyfloat
  g_max_net :: pyfloat
  g_max_weight :: pyfloat

definition new_portfolio_guard :: "pyfloat \<Rightarrow> pyfloat \<Rightarrow> pyfloat \<Rightarrow> portfolio_guard res" where
  "new_portfolio_guard gross net weight =
     rbind (check_all
       [(gross \<le> Fin 0, ''max_gross_exposure must be positive''),
        (net \<le> Fin 0, ''max_net_exposure must be positive''),
        (\<not> (Fin 0 < weight \<and> weight \<le> Fin 1), ''max_symbol_weight must be in (0, 1]'')])
       (\<lambda>_. Inr \<lparr>g_max_gross = gross, g_max_net = net, g_max_weight = weight\<rparr>)"

definition guard_validate :: "portfolio_guard \<Rightarrow> exposure_snapshot \<Rightarrow> risk_breach list" where
  "guard_validate g e =
     (if g_max_gross g < e_gross e
      then [\<lparr>b_code = ''GROSS_EXPOSURE_LIMIT'',
             b_message = [Txt ''Gross exposure '', Flt (e_gross e) 8, Txt '' exceeds limit '',
                          Flt (g_max_gross g) 8],
             b_severity = ''CRITICAL''\<rparr>] else []) @
     (if g_max_net g < \<bar>e_net e\<bar>
      then [\<lparr>b_code = ''NET_EXPOSURE_LIMIT'',
             b_message = [Txt ''Net exposure '', Flt (e_net e) 8, Txt '' exceeds limit '',
                          Flt (g_max_net g) 8],
             b_severity = ''CRITICAL''\<rparr>] else []) @
     map (\<lambda>(s, w). \<lparr>b_code = ''SYMBOL_WEIGHT_LIMIT'',
             b_message = [Str s, Txt '' exposure weight '', Flt w 4, Txt '' exceeds limit '',
                          Flt (g_max_weight g) 4],
             b_severity = ''HIGH''\<rparr>)
       (filter (\<lambda>(s, w). g_max_weight g < w) (e_weights e))"

section \<open>Pre-trade validator\<close>

record risk_decision =
  d_allowed :: bool
  d_reasons :: "message list"
  d_gross :: pyfloat
  d_net :: pyfloat
  d_weight :: pyfloat

definition decision_to_dict :: "risk_decision \<Rightarrow> (string \<times> pyval) list" where
  "decision_to_dict d =
     [(''allowed'', VBool (d_allowed d)), (''reasons'', VList (map VMsg (d_reasons d))),
      (''projected_gross_exposure'', VFloat (d_gross d)), (''projected_net_exposure'', VFloat (d_net d)),
      (''projected_symbol_weight'', VFloat (d_weight d))]"

record pre_trade =
  pt_guard :: portfolio_guard
  pt_max_order :: pyfloat
  pt_min_order :: pyfloat

definition new_pre_trade :: "portfolio_guard \<Rightarrow> pyfloat \<Rightarrow> pyfloat \<Rightarrow> pre_trade res" where
  "new_pre_trade g max_order min_order =
     rbind (check_all
       [(max_order \<le> Fin 0, ''max_order_notional must be positive''),
        (min_order < Fin 0, ''min_order_notional cannot be negative''),
        (max_order < min_order, ''min_order_notional cannot exceed max_order_notional'')])
       (\<lambda>_. Inr \<lparr>pt_guard = g, pt_max_order = max_order, pt_min_order = min_order\<rparr>)"

definition order_notional :: "order \<Rightarrow> pyfloat \<Rightarrow> pyfloat" where
  "order_notional ord price = o_quantity ord * price"

definition effective_min :: "pre_trade \<Rightarrow> pyfloat option \<Rightarrow> pyfloat" where
  "effective_min v override =
     (case override of None \<Rightarrow> pt_min_order v | Some m \<Rightarrow> py_max (pt_min_order v) m)"

text \<open>Where the order would take the portfolio: gross and net exposure, and the symbol's weight.\<close>

definition projection ::
  "order \<Rightarrow> pyfloat \<Rightarrow> (string, position) pydict \<Rightarrow> (string, pyfloat) pydict \<Rightarrow>
   pyfloat \<times> pyfloat \<times> pyfloat" where
  "projection ord price ps marks =
     (let snap = exposure_calculate ps marks;
          current = (case map_of ps (o_symbol ord) of
                       None \<Rightarrow> Fin 0
                     | Some p \<Rightarrow> marked_notional marks (o_symbol ord) p);
          notional = order_notional ord price;
          incoming = (if o_side ord = BUY then notional else - notional);
          projected = current + incoming;
          net = e_net snap + incoming;
          gross = e_gross snap - \<bar>current\<bar> + \<bar>projected\<bar>;
          weight = (if Fin 0 < gross then \<bar>projected\<bar> / gross else Fin 0)
      in (gross, net, weight))"

definition pre_trade_reasons ::
  "pre_trade \<Rightarrow> order \<Rightarrow> pyfloat \<Rightarrow> pyfloat option \<Rightarrow> pyfloat \<times> pyfloat \<times> pyfloat \<Rightarrow> message list" where
  "pre_trade_reasons v ord price override pr =
     (let notional = order_notional ord price;
          emin = effective_min v override;
          g = pt_guard v;
          (gross, net, weight) = pr
      in (if price \<le> Fin 0 then [text_msg ''Reference price must be positive''] else []) @
         (if o_quantity ord \<le> Fin 0 then [text_msg ''Order quantity must be positive''] else []) @
         (if Fin 0 < emin \<and> notional < emin
          then [[Txt ''Order notional '', Flt notional 8, Txt '' is below minimum '', Flt emin 8]] else []) @
         (if pt_max_order v < notional
          then [[Txt ''Order notional '', Flt notional 8, Txt '' exceeds limit '', Flt (pt_max_order v) 8]]
          else []) @
         (if g_max_gross g < gross
          then [[Txt ''Projected gross exposure '', Flt gross 8, Txt '' exceeds limit '', Flt (g_max_gross g) 8]]
          else []) @
         (if g_max_net g < \<bar>net\<bar>
          then [[Txt ''Projected net exposure '', Flt net 8, Txt '' exceeds limit '', Flt (g_max_net g) 8]]
          else []) @
         (if g_max_weight g < weight
          then [[Txt ''Projected symbol weight '', Flt weight 4, Txt '' exceeds limit '', Flt (g_max_weight g) 4]]
          else []))"

definition pre_trade_validate ::
  "pre_trade \<Rightarrow> order \<Rightarrow> pyfloat \<Rightarrow> (string, position) pydict \<Rightarrow> (string, pyfloat) pydict \<Rightarrow>
   pyfloat option \<Rightarrow> risk_decision" where
  "pre_trade_validate v ord price ps marks override =
     (let pr = projection ord price ps marks;
          reasons = pre_trade_reasons v ord price override pr;
          (gross, net, weight) = pr
      in \<lparr>d_allowed = (reasons = []), d_reasons = reasons, d_gross = gross, d_net = net,
          d_weight = weight\<rparr>)"

section \<open>The engine's figures as sums\<close>

definition marks_fin :: "(string, pyfloat) pydict \<Rightarrow> bool" where
  "marks_fin marks \<longleftrightarrow> (\<forall>(s, x) \<in> set marks. is_fin x)"

definition positions_fin :: "(string, position) pydict \<Rightarrow> bool" where
  "positions_fin ps \<longleftrightarrow> (\<forall>(s, p) \<in> set ps. position_fin p)"

text \<open>The signed notional of an entry as a real number.\<close>

definition entry_value :: "(string, pyfloat) pydict \<Rightarrow> string \<times> position \<Rightarrow> real" where
  "entry_value marks e = val_of (marked_notional marks (fst e) (snd e))"

lemma dict_get_fin: "marks_fin marks \<Longrightarrow> is_fin x \<Longrightarrow> is_fin (dict_get marks s x)"
  by (auto simp: dict_get_def marks_fin_def split: option.splits dest!: map_of_SomeD)

lemma marked_notional_fin:
  "marks_fin marks \<Longrightarrow> position_fin p \<Longrightarrow> marked_notional marks s p = Fin (entry_value marks (s, p))"
proof -
  assume "marks_fin marks" "position_fin p"
  then have "is_fin (marked_notional marks s p)"
    by (simp add: marked_notional_def signed_notional_def position_fin_def dict_get_fin)
  then show ?thesis by (simp add: entry_value_def)
qed

lemma exposure_loop_fin:
  assumes "marks_fin marks" "positions_fin ps" "dict_ok (by_symbol @ map (\<lambda>(s, p). (s, Fin 0)) ps)"
  shows "exposure_loop marks ps (Fin l, Fin sh, Fin n, by_symbol) =
    (Fin (l + sum_list (map (\<lambda>e. max 0 (entry_value marks e)) ps)),
     Fin (sh + sum_list (map (\<lambda>e. max 0 (- entry_value marks e)) ps)),
     Fin (n + sum_list (map (entry_value marks) ps)),
     by_symbol @ map (\<lambda>e. (fst e, Fin \<bar>entry_value marks e\<bar>)) ps)"
  using assms
proof (induction ps arbitrary: l sh n by_symbol)
  case (Cons e ps)
  obtain s p where e: "e = (s, p)" by (cases e)
  have "positions_fin ps" "position_fin p" using Cons.prems(2) by (auto simp: positions_fin_def e)
  note notional = marked_notional_fin [OF Cons.prems(1) this(2), of s]
  have new: "s \<notin> fst ` set by_symbol" using Cons.prems(3) by (auto simp: e)
  have dict: "dict_ok ((by_symbol @ [(s, y)]) @ map (\<lambda>(s, p). (s, Fin 0)) ps)" for y :: pyfloat
    using Cons.prems(3) by (auto simp: e)
  show ?case
    using Cons.IH [OF Cons.prems(1) \<open>positions_fin ps\<close> dict]
    by (simp add: e notional dict_set_new [OF new] Let_def max_def)
qed simp

lemma exposure_calculate_fin:
  assumes "marks_fin marks" "positions_fin ps" "dict_ok ps"
  defines "g \<equiv> sum_list (map (\<lambda>e. \<bar>entry_value marks e\<bar>) ps)"
  shows "e_gross (exposure_calculate ps marks) = Fin g"
    and "e_net (exposure_calculate ps marks) = Fin (sum_list (map (entry_value marks) ps))"
    and "e_long (exposure_calculate ps marks) = Fin (sum_list (map (\<lambda>e. max 0 (entry_value marks e)) ps))"
    and "e_short (exposure_calculate ps marks) = Fin (sum_list (map (\<lambda>e. max 0 (- entry_value marks e)) ps))"
    and "e_weights (exposure_calculate ps marks) =
      map (\<lambda>e. (fst e, Fin (if 0 < g then \<bar>entry_value marks e\<bar> / g else 0))) ps"
proof -
  have d: "dict_ok ([] @ map (\<lambda>(s, p). (s, Fin 0)) ps)"
    using assms(3) by (simp add: case_prod_unfold comp_def)
  have g: "g = sum_list (map (\<lambda>e. max 0 (entry_value marks e)) ps) +
      sum_list (map (\<lambda>e. max 0 (- entry_value marks e)) ps)"
    unfolding g_def sum_list_addf [symmetric] by (rule arg_cong [where f = sum_list]) (simp add: max_def abs_if)
  note calc = exposure_calculate_def exposure_loop_fin [OF assms(1,2) d] Let_def g [symmetric]
  show "e_gross (exposure_calculate ps marks) = Fin g" by (simp add: calc)
  show "e_net (exposure_calculate ps marks) = Fin (sum_list (map (entry_value marks) ps))" by (simp add: calc)
  show "e_long (exposure_calculate ps marks) = Fin (sum_list (map (\<lambda>e. max 0 (entry_value marks e)) ps))"
    by (simp add: calc)
  show "e_short (exposure_calculate ps marks) = Fin (sum_list (map (\<lambda>e. max 0 (- entry_value marks e)) ps))"
    by (simp add: calc)
  show "e_weights (exposure_calculate ps marks) =
      map (\<lambda>e. (fst e, Fin (if 0 < g then \<bar>entry_value marks e\<bar> / g else 0))) ps"
    by (simp add: calc comp_def)
qed

lemma map_pair_zip: "map (\<lambda>x. (f x, h x)) xs = zip (map f xs) (map h xs)"
  by (induction xs) auto

lemma sum_list_abs_le: "\<bar>sum_list (map f xs)\<bar> \<le> sum_list (map (\<lambda>x. \<bar>f x\<bar>) xs)" for f :: "'a \<Rightarrow> real"
  by (induction xs) auto

lemma member_le_sum_list_abs: "x \<in> set xs \<Longrightarrow> \<bar>f x\<bar> \<le> sum_list (map (\<lambda>x. \<bar>f x\<bar>) xs)" for f :: "'a \<Rightarrow> real"
proof (induction xs)
  case (Cons y ys)
  have "0 \<le> sum_list (map (\<lambda>x. \<bar>f x\<bar>) ys)" by (rule sum_list_nonneg) auto
  with Cons show ?case by auto
qed simp

lemma new_portfolio_guard_ok:
  "new_portfolio_guard mg mn mw = Inr g \<longleftrightarrow>
     \<not> mg \<le> Fin 0 \<and> \<not> mn \<le> Fin 0 \<and> Fin 0 < g_max_weight g \<and> g_max_weight g \<le> Fin 1 \<and>
     g = \<lparr>g_max_gross = mg, g_max_net = mn, g_max_weight = mw\<rparr>"
  by (auto simp: new_portfolio_guard_def rbind_Inr_iff check_all_ok simp del: check_all.simps)

lemma guard_validate_critical:
  "(\<exists>b \<in> set (guard_validate g e). b_severity b = ''CRITICAL'') \<longleftrightarrow>
     g_max_gross g < e_gross e \<or> g_max_net g < \<bar>e_net e\<bar>"
  by (auto simp: guard_validate_def)

section \<open>The validator's projection\<close>

definition order_delta :: "order \<Rightarrow> real" where
  "order_delta ord = (if o_side ord = BUY then val_of (o_quantity ord) else - val_of (o_quantity ord))"

definition held :: "(string, position) pydict \<Rightarrow> string \<Rightarrow> real" where
  "held ps s = (case map_of ps s of None \<Rightarrow> 0 | Some p \<Rightarrow> val_of (p_quantity p))"

text \<open>The portfolio after the order: the symbol's quantity moved by the order, nothing else.\<close>

definition moved :: "(string, position) pydict \<Rightarrow> order \<Rightarrow> (string, position) pydict \<Rightarrow> bool" where
  "moved ps ord ps' \<longleftrightarrow>
     (let s = o_symbol ord; q = held ps s + order_delta ord in
      (q = 0 \<and> ps' = dict_pop s ps) \<or>
      (\<exists>p. p_quantity p = Fin q \<and> position_fin p \<and> ps' = dict_set s p ps))"

lemma entry_value_marked:
  "map_of marks s = Some (Fin m) \<Longrightarrow> is_fin (p_quantity p) \<Longrightarrow>
   entry_value marks (s, p) = val_of (p_quantity p) * m"
  by (simp add: entry_value_def marked_notional_def signed_notional_def dict_get_def)

lemma projection_fin:
  assumes fin: "marks_fin marks" "positions_fin ps" "dict_ok ps"
    and ord: "o_quantity ord = Fin q" "price = Fin m" "map_of marks (o_symbol ord) = Some price"
  defines "c \<equiv> held ps (o_symbol ord) * m" and "x \<equiv> order_delta ord * m"
  defines "g \<equiv> sum_list (map (\<lambda>e. \<bar>entry_value marks e\<bar>) ps) - \<bar>c\<bar> + \<bar>c + x\<bar>"
  shows "projection ord price ps marks =
    (Fin g, Fin (sum_list (map (entry_value marks) ps) + x), Fin (if 0 < g then \<bar>c + x\<bar> / g else 0))"
proof -
  have cur: "(case map_of ps (o_symbol ord) of None \<Rightarrow> Fin 0
      | Some p \<Rightarrow> marked_notional marks (o_symbol ord) p) = Fin c"
  proof (cases "map_of ps (o_symbol ord)")
    case (Some p)
    then have p: "position_fin p" using fin(2) by (auto simp: positions_fin_def dest!: map_of_SomeD)
    then have "entry_value marks (o_symbol ord, p) = c"
      using Some ord by (simp add: entry_value_marked position_fin_def c_def held_def)
    with Some show ?thesis by (simp add: marked_notional_fin [OF fin(1) p])
  qed (simp add: c_def held_def)
  have inc: "(if o_side ord = BUY then order_notional ord price else - order_notional ord price) = Fin x"
    using ord by (simp add: order_notional_def x_def order_delta_def)
  show ?thesis
    unfolding projection_def Let_def cur inc exposure_calculate_fin(1,2) [OF fin] g_def by simp
qed

lemma moved_sums:
  assumes fin: "positions_fin ps" "dict_ok ps" and mark: "map_of marks (o_symbol ord) = Some (Fin m)"
    and moved: "moved ps ord ps'" and zero: "f 0 = 0"
  shows "sum_list (map (\<lambda>e. f (entry_value marks e)) ps') =
    sum_list (map (\<lambda>e. f (entry_value marks e)) ps) - f (held ps (o_symbol ord) * m) +
    (f ((held ps (o_symbol ord) + order_delta ord) * m) :: real)"
proof -
  let ?s = "o_symbol ord" and ?F = "\<lambda>e. f (entry_value marks e)"
  have old: "(case map_of ps ?s of None \<Rightarrow> 0 | Some w \<Rightarrow> ?F (?s, w)) = f (held ps ?s * m)"
  proof (cases "map_of ps ?s")
    case (Some p)
    then have "is_fin (p_quantity p)"
      using fin(1) by (auto simp: positions_fin_def position_fin_def dest!: map_of_SomeD)
    with Some show ?thesis by (simp add: entry_value_marked [OF mark] held_def)
  qed (simp add: held_def zero)
  from moved consider (closed) "held ps ?s + order_delta ord = 0" "ps' = dict_pop ?s ps"
    | (kept) p where "p_quantity p = Fin (held ps ?s + order_delta ord)" "ps' = dict_set ?s p ps"
    unfolding moved_def Let_def by blast
  then show ?thesis
  proof cases
    case closed
    then show ?thesis using sum_dict_pop [OF fin(2), of ?F ?s] old zero by simp
  next
    case kept
    then have "?F (?s, p) = f ((held ps ?s + order_delta ord) * m)"
      by (simp add: entry_value_marked [OF mark])
    then show ?thesis using kept(2) sum_dict_set [OF fin(2), of ?F ?s p] old by simp
  qed
qed

lemma moved_wf:
  assumes "positions_fin ps" "dict_ok ps" "moved ps ord ps'"
  shows "positions_fin ps'" "dict_ok ps'"
  using assms
  by (auto simp: moved_def Let_def positions_fin_def dict_set_mem dict_pop_mem dict_simps
      distinct_removeAll AList.distinct_update)

lemma projection_exposure:
  assumes fin: "marks_fin marks" "positions_fin ps" "dict_ok ps"
    and ord: "o_quantity ord = Fin q" "map_of marks (o_symbol ord) = Some (Fin m)"
    and moved: "moved ps ord ps'"
  shows "fst (projection ord (Fin m) ps marks) = e_gross (exposure_calculate ps' marks)"
    and "fst (snd (projection ord (Fin m) ps marks)) = e_net (exposure_calculate ps' marks)"
  using moved_sums [OF fin(2,3) ord(2) moved, of abs] moved_sums [OF fin(2,3) ord(2) moved, of "\<lambda>x. x"]
    projection_fin [OF fin ord(1) refl ord(2)]
  by (simp_all add: exposure_calculate_fin [OF fin(1) moved_wf [OF fin(2,3) moved]] algebra_simps)

text \<open>A complete fill of the order moves the ledger's positions as projected.\<close>

definition fills_order :: "fill \<Rightarrow> order \<Rightarrow> bool" where
  "fills_order f ord \<longleftrightarrow>
     f_symbol f = o_symbol ord \<and> f_side f = side_value (o_side ord) \<and> f_quantity f = o_quantity ord"

lemma fills_order_delta:
  "fills_order f ord \<Longrightarrow> is_fin (o_quantity ord) \<Longrightarrow> signed_delta f = Fin (order_delta ord)"
  by (cases "o_side ord"; cases "o_quantity ord")
     (auto simp: fills_order_def signed_delta_def order_delta_def str_simps)

lemma apply_fill_moved:
  assumes ok: "ledger_ok l" "ledger_fin l" and f: "fill_fin f" "no_dust l f" "fills_order f ord"
    and step: "apply_fill l f now = Inr (l', trd)"
  shows "moved (l_positions l) ord (l_positions l')"
  using step
proof (cases rule: apply_fillE)
  case (1 p1 pnl)
  have ofin: "is_fin (o_quantity ord)" and sym: "f_symbol f = o_symbol ord"
    using f by (auto simp: fill_fin_def fills_order_def)
  note delta = fills_order_delta [OF f(3) ofin]
  obtain price fee where pf: "f_price f = Fin price" "f_fee f = Fin fee"
    using f(1) by (auto simp: fill_fin_def is_fin_iff)
  obtain q a where start: "p_quantity (start_position l f now) = Fin q"
      "p_avg_entry (start_position l f now) = Fin a" "q = 0 \<or> 1 / 10 ^ 12 < \<bar>q\<bar>"
      "quantity_after l f = q + order_delta ord"
    by (rule start_position_fin [OF ok, of f now 0]) (auto simp: delta)
  have left: "q + order_delta ord = 0 \<or> 1 / 10 ^ 12 < \<bar>q + order_delta ord\<bar>"
    using f(2) start(4) by (simp add: no_dust_def)
  have p1: "p_quantity p1 = Fin (q + order_delta ord)" "is_fin (p_avg_entry p1)"
    using apply_signed_fill_value [OF 1(2) [unfolded delta pf] start(1-3) left] by blast+
  have "q = held (l_positions l) (o_symbol ord)"
    using start(1) sym
    by (auto simp: start_position_def held_def new_position_def split: option.splits)
  note q = this
  show ?thesis
  proof (cases "q + order_delta ord = 0")
    case True
    then show ?thesis using 1(3) p1 q sym by (simp add: moved_def Let_def)
  next
    case False
    with left 1(3) p1(1) sym have "l_positions l' = dict_set (o_symbol ord) (p1\<lparr>p_updated_at := now\<rparr>) (l_positions l)"
      by (simp add: EPSILON_def)
    moreover have "p_quantity (p1\<lparr>p_updated_at := now\<rparr>) = Fin (held (l_positions l) (o_symbol ord) + order_delta ord)"
        "position_fin (p1\<lparr>p_updated_at := now\<rparr>)"
      using p1 q by (simp_all add: position_fin_def)
    ultimately show ?thesis unfolding moved_def Let_def by blast
  qed
qed

section \<open>Properties\<close>

text \<open>
  The exposure figures agree with each other: gross is long plus short, net is long minus short
  and never exceeds gross in size; the weights are filed under the symbols of the positions in
  order, lie between zero and one, and add up to one as soon as there is any exposure.
\<close>
theorem exposure_figures:
  assumes "marks_fin marks" and "positions_fin ps" and "dict_ok ps"
  shows "\<exists>g n lo sh w.
    e_gross (exposure_calculate ps marks) = Fin g \<and> e_net (exposure_calculate ps marks) = Fin n \<and>
    e_long (exposure_calculate ps marks) = Fin lo \<and> e_short (exposure_calculate ps marks) = Fin sh \<and>
    e_weights (exposure_calculate ps marks) = zip (map fst ps) (map Fin w) \<and>
    g = lo + sh \<and> n = lo - sh \<and> \<bar>n\<bar> \<le> g \<and> length w = length ps \<and>
    (\<forall>x \<in> set w. 0 \<le> x \<and> x \<le> 1) \<and> sum_list w = (if 0 < g then 1 else 0)"
proof -
  let ?v = "entry_value marks"
  define g where "g = sum_list (map (\<lambda>e. \<bar>?v e\<bar>) ps)"
  define w where "w = map (\<lambda>e. if 0 < g then \<bar>?v e\<bar> / g else 0) ps"
  note calc = exposure_calculate_fin [OF assms, folded g_def]
  have le: "\<bar>?v e\<bar> \<le> g" if "e \<in> set ps" for e
    using member_le_sum_list_abs [OF that, of ?v] by (simp add: g_def)
  have add: "sum_list (map f ps) + sum_list (map h ps) = sum_list (map (\<lambda>e. f e + h e) ps)"
      "sum_list (map f ps) - sum_list (map h ps) = sum_list (map (\<lambda>e. f e - h e) ps)" for f h :: "_ \<Rightarrow> real"
    by (simp_all add: sum_list_addf sum_list_subtractf)
  have "g = sum_list (map (\<lambda>e. max 0 (?v e)) ps) + sum_list (map (\<lambda>e. max 0 (- ?v e)) ps)"
    unfolding add g_def by (rule arg_cong [where f = sum_list]) (simp add: max_def abs_if)
  moreover have "sum_list (map ?v ps) =
      sum_list (map (\<lambda>e. max 0 (?v e)) ps) - sum_list (map (\<lambda>e. max 0 (- ?v e)) ps)"
    unfolding add by (rule arg_cong [where f = sum_list]) (simp add: max_def)
  moreover have "\<bar>sum_list (map ?v ps)\<bar> \<le> g" unfolding g_def by (rule sum_list_abs_le)
  moreover have "e_weights (exposure_calculate ps marks) = zip (map fst ps) (map Fin w)"
    unfolding calc w_def by (simp add: map_pair_zip comp_def)
  moreover have "\<forall>x \<in> set w. 0 \<le> x \<and> x \<le> 1" using le by (auto simp: w_def)
  moreover have "sum_list w = (if 0 < g then 1 else 0)"
  proof (cases "0 < g")
    case True
    then have "sum_list w = sum_list (map (\<lambda>e. \<bar>?v e\<bar> * (1 / g)) ps)" by (simp add: w_def)
    also have "\<dots> = g * (1 / g)" unfolding g_def by (rule sum_list_mult_const)
    finally show ?thesis using True by simp
  qed (simp add: w_def)
  moreover have "length w = length ps" by (simp add: w_def)
  ultimately show ?thesis using calc(1-4) by blast
qed

text \<open>
  C3. An approved order keeps the limits. For finite figures, a mark for the symbol equal to the
  reference price, and a complete fill at whatever price: if the validator allowed the order, then
  its price and quantity were positive and its notional between the effective minimum and the
  maximum, and after the ledger has applied the fill the portfolio guard reports no CRITICAL breach.
\<close>
theorem approved_order_keeps_limits:
  assumes approved: "d_allowed (pre_trade_validate v ord (Fin m) (positions l) marks ov)"
    and wf: "ledger_ok l" "ledger_fin l" "marks_fin marks" "map_of marks (o_symbol ord) = Some (Fin m)"
    and fill: "fill_fin f" "no_dust l f" "fills_order f ord"
    and step: "apply_fill l f now = Inr (l', trd)"
  shows "0 < m \<and> Fin 0 < o_quantity ord \<and>
    \<not> pt_max_order v < order_notional ord (Fin m) \<and>
    \<not> (Fin 0 < effective_min v ov \<and> order_notional ord (Fin m) < effective_min v ov) \<and>
    (\<forall>b \<in> set (guard_validate (pt_guard v) (exposure_calculate (positions l') marks)).
       b_severity b \<noteq> ''CRITICAL'')"
proof -
  obtain q where q: "o_quantity ord = Fin q"
    using fill(1,3) by (auto simp: fill_fin_def fills_order_def is_fin_iff)
  have ps: "positions_fin (l_positions l)" "dict_ok (l_positions l)"
    using wf(1,2) by (auto simp: ledger_ok_def ledger_fin_def positions_fin_def)
  note moved = apply_fill_moved [OF wf(1,2) fill step]
  note proj = projection_exposure [OF wf(3) ps q wf(4) moved]
  have "pre_trade_reasons v ord (Fin m) ov (projection ord (Fin m) (l_positions l) marks) = []"
    using approved by (simp add: pre_trade_validate_def positions_def Let_def split: prod.splits)
  then have checks: "\<not> Fin m \<le> Fin 0" "\<not> o_quantity ord \<le> Fin 0"
      "\<not> (Fin 0 < effective_min v ov \<and> order_notional ord (Fin m) < effective_min v ov)"
      "\<not> pt_max_order v < order_notional ord (Fin m)"
      "\<not> g_max_gross (pt_guard v) < fst (projection ord (Fin m) (l_positions l) marks)"
      "\<not> g_max_net (pt_guard v) < \<bar>fst (snd (projection ord (Fin m) (l_positions l) marks))\<bar>"
    by (auto simp: pre_trade_reasons_def Let_def split: prod.splits if_splits)
  from checks(5,6) have "\<not> (\<exists>b \<in> set (guard_validate (pt_guard v)
      (exposure_calculate (positions l') marks)). b_severity b = ''CRITICAL'')"
    unfolding guard_validate_critical proj positions_def by blast
  with checks(1-4) show ?thesis by (auto simp: q)
qed

lemma nan_price_allowed:
  assumes "new_portfolio_guard mg mn mw = Inr (pt_guard v)" and "\<not> o_quantity ord \<le> Fin 0"
  shows "d_allowed (pre_trade_validate v ord NaN ps marks ov)"
proof -
  have "Fin 0 < g_max_weight (pt_guard v)"
    using assms(1) unfolding new_portfolio_guard_ok by blast
  then have w: "\<not> g_max_weight (pt_guard v) < Fin 0" by (cases "g_max_weight (pt_guard v)") auto
  have notional: "order_notional ord NaN = NaN" by (simp add: order_notional_def)
  have "projection ord NaN ps marks = (NaN, NaN, Fin 0)"
    by (simp add: projection_def notional Let_def)
  then show ?thesis using assms(2) w
    by (simp add: pre_trade_validate_def pre_trade_reasons_def notional)
qed

text \<open>
  The limits do not hold against a not-a-number reference price: whatever the limits of a
  validator whose guard was accepted by its constructor, an order of positive quantity is then
  allowed, in any portfolio and of any size.
\<close>
theorem nan_price_is_approved:
  assumes "new_portfolio_guard mg mn mw = Inr (pt_guard v)" and "\<not> o_quantity ord \<le> Fin 0"
  shows "d_allowed (pre_trade_validate v ord NaN ps marks ov)"
  using assms by (rule nan_price_allowed)

text \<open>A book of six A and four B, each marked at one, and limits it just respects.\<close>

definition book_position :: "string \<Rightarrow> real \<Rightarrow> position" where
  "book_position s q = \<lparr>p_symbol = s, p_quantity = Fin q, p_avg_entry = Fin 1, p_realized = Fin 0,
     p_unrealized = Fin 0, p_updated_at = sample_time\<rparr>"

definition book_ledger :: ledger where
  "book_ledger = \<lparr>l_positions = [(''A'', book_position ''A'' 6), (''B'', book_position ''B'' 4)],
     l_trades = [], l_realized = Fin 0\<rparr>"

definition book_marks :: "(string, pyfloat) pydict" where
  "book_marks = [(''A'', Fin 1), (''B'', Fin 1)]"

definition book_validator :: pre_trade where
  "book_validator = \<lparr>pt_guard = \<lparr>g_max_gross = Fin 20, g_max_net = Fin 20, g_max_weight = Fin (3 / 5)\<rparr>,
     pt_max_order = Fin 10, pt_min_order = Fin 1\<rparr>"

definition book_sale :: order where
  "book_sale = new_order ''A'' SELL (Fin 5) MARKET None VNone ''cid'' sample_time"

definition book_fill :: fill where
  "book_fill = \<lparr>f_symbol = ''A'', f_side = ''SELL'', f_quantity = Fin 5, f_price = Fin 1,
     f_exchange = VNone, f_fee = Fin 0, f_strategy_id = VNone, f_order_id = VNone, f_uuid = ''t''\<rparr>"

lemmas book_simps =
  book_position_def book_ledger_def book_marks_def book_validator_def book_sale_def book_fill_def
  new_order_def positions_def exposure_calculate_def marked_notional_def signed_notional_def
  dict_get_def guard_validate_def projection_def order_notional_def effective_min_def
  pre_trade_validate_def pre_trade_reasons_def Let_def

lemma book_fill_applied:
  "\<exists>l' trd. apply_fill book_ledger book_fill sample_time = Inr (l', trd) \<and>
     l_positions l' = [(''A'', (book_position ''A'' 1)\<lparr>p_realized := Fin 0\<rparr>), (''B'', book_position ''B'' 4)]"
  by (simp add: book_simps apply_fill_def fill_checks_def apply_signed_fill_def signed_delta_def
      EPSILON_def str_simps sample_time_def)

text \<open>
  The validator weighs only the ordered symbol: in this book, within all limits, the sale of
  five A is approved, and after its complete fill the guard reports a weight breach, of symbol B.
\<close>
theorem approval_ignores_other_weights:
  "guard_validate (pt_guard book_validator) (exposure_calculate (positions book_ledger) book_marks) = [] \<and>
   d_allowed (pre_trade_validate book_validator book_sale (Fin 1) (positions book_ledger) book_marks None) \<and>
   (\<exists>l' trd. apply_fill book_ledger book_fill sample_time = Inr (l', trd) \<and>
      map b_code (guard_validate (pt_guard book_validator)
        (exposure_calculate (positions l') book_marks)) = [''SYMBOL_WEIGHT_LIMIT''])"
proof (intro conjI)
  show "guard_validate (pt_guard book_validator)
      (exposure_calculate (positions book_ledger) book_marks) = []"
    by (simp add: book_simps)
  show "d_allowed (pre_trade_validate book_validator book_sale (Fin 1) (positions book_ledger) book_marks None)"
    by (simp add: book_simps)
  obtain l' trd where l': "apply_fill book_ledger book_fill sample_time = Inr (l', trd)"
      "l_positions l' = [(''A'', (book_position ''A'' 1)\<lparr>p_realized := Fin 0\<rparr>), (''B'', book_position ''B'' 4)]"
    using book_fill_applied by blast
  have "map b_code (guard_validate (pt_guard book_validator)
      (exposure_calculate (positions l') book_marks)) = [''SYMBOL_WEIGHT_LIMIT'']"
    by (simp add: positions_def l'(2)) (simp add: book_simps)
  with l'(1) show "\<exists>l' trd. apply_fill book_ledger book_fill sample_time = Inr (l', trd) \<and>
      map b_code (guard_validate (pt_guard book_validator)
        (exposure_calculate (positions l') book_marks)) = [''SYMBOL_WEIGHT_LIMIT'']"
    by (intro exI [of _ l'] exI [of _ trd] conjI)
qed

section \<open>Witnesses\<close>

lemma book_wf:
  "ledger_ok book_ledger" "ledger_fin book_ledger" "marks_fin book_marks"
  "positions_fin (l_positions book_ledger)" "dict_ok (l_positions book_ledger)"
  by (simp_all add: ledger_ok_def position_ok_def ledger_fin_def marks_fin_def positions_fin_def
      position_fin_def book_ledger_def book_position_def book_marks_def EPSILON_def)

theorem exposure_figures_witness:
  "\<exists>g n lo sh w.
    e_gross (exposure_calculate (l_positions book_ledger) book_marks) = Fin g \<and>
    e_weights (exposure_calculate (l_positions book_ledger) book_marks) = zip [''A'', ''B''] (map Fin w) \<and>
    e_net (exposure_calculate (l_positions book_ledger) book_marks) = Fin n \<and>
    \<bar>n\<bar> \<le> g \<and> g = lo + sh \<and> sum_list w = (if 0 < g then 1 else 0)"
proof -
  have keys: "map fst (l_positions book_ledger) = [''A'', ''B'']" by (simp add: book_ledger_def)
  show ?thesis using exposure_figures [OF book_wf(3-5)] unfolding keys by blast
qed

theorem approved_order_keeps_limits_witness:
  "\<exists>l' trd. apply_fill book_ledger book_fill sample_time = Inr (l', trd) \<and>
    (\<forall>b \<in> set (guard_validate (pt_guard book_validator) (exposure_calculate (positions l') book_marks)).
       b_severity b \<noteq> ''CRITICAL'')"
proof -
  obtain l' trd where l': "apply_fill book_ledger book_fill sample_time = Inr (l', trd)"
    using book_fill_applied by blast
  have approved: "d_allowed (pre_trade_validate book_validator book_sale (Fin 1) (positions book_ledger) book_marks None)"
    by (simp add: book_simps)
  have mark: "map_of book_marks (o_symbol book_sale) = Some (Fin 1)"
    by (simp add: book_marks_def book_sale_def new_order_def)
  have fill: "fill_fin book_fill" "fills_order book_fill book_sale"
    by (simp_all add: fill_fin_def fills_order_def book_fill_def book_sale_def new_order_def)
  have dust: "no_dust book_ledger book_fill"
    by (simp add: no_dust_def quantity_after_def get_position_def signed_delta_def book_ledger_def
        book_fill_def book_position_def str_simps)
  show ?thesis
    using approved_order_keeps_limits [OF approved book_wf(1-3) mark fill(1) dust fill(2) l'] l' by blast
qed

theorem nan_price_is_approved_witness:
  "d_allowed (pre_trade_validate book_validator (book_sale\<lparr>o_quantity := Fin 1000000\<rparr>) NaN [] [] None)"
proof (rule nan_price_is_approved)
  show "new_portfolio_guard (Fin 20) (Fin 20) (Fin (3 / 5)) = Inr (pt_guard book_validator)"
    by (simp add: new_portfolio_guard_def book_validator_def)
  show "\<not> o_quantity (book_sale\<lparr>o_quantity := Fin 1000000\<rparr>) \<le> Fin 0" by simp
qed

end
