(* ===== verification/Kill_Switch.thy ===== *)
theory Kill_Switch
  imports Risk_Checks
begin

text \<open>
  The kill switch (\<open>risk/kill_switch.py\<close>) and the risk service that trips it on critical
  breaches (\<open>microservices/risk_service.py\<close>). The locale \<open>latch\<close> is the contract of a device
  that stays tripped until it is reset; the switch is its instance.
\<close>

section \<open>Latches\<close>

locale latch =
  fixes op :: "'e \<Rightarrow> 's \<Rightarrow> 's"
    and tripped :: "'s \<Rightarrow> bool"
    and cause :: "'s \<Rightarrow> 'c"
    and resets :: "'e \<Rightarrow> bool"
  assumes stays: "tripped s \<Longrightarrow> \<not> resets e \<Longrightarrow> tripped (op e s)"
    and cause_kept: "tripped s \<Longrightarrow> \<not> resets e \<Longrightarrow> cause (op e s) = cause s"
    and reset_clears: "resets e \<Longrightarrow> \<not> tripped (op e s)"
begin

lemma run_stays:
  "tripped s \<Longrightarrow> \<forall>e \<in> set es. \<not> resets e \<Longrightarrow> tripped (fold op es s) \<and> cause (fold op es s) = cause s"
  by (induction es arbitrary: s) (auto simp: stays cause_kept)

lemma run_untripped_reset:
  assumes "tripped s" "\<not> tripped (fold op es s)" shows "\<exists>e \<in> set es. resets e"
  using run_stays [OF assms(1)] assms(2) by blast

lemma run_prefix:
  assumes "\<not> tripped (fold op (xs @ ys) s)" "\<forall>e \<in> set ys. \<not> resets e"
  shows "\<not> tripped (fold op xs s)"
  using run_stays [of "fold op xs s" ys] assms by auto

end

section \<open>The kill switch\<close>

record kill_switch =
  k_max_loss :: pyfloat
  k_max_drawdown :: pyfloat
  k_daily_pnl :: pyfloat
  k_peak :: "pyfloat option"
  k_triggered :: bool
  k_reason :: "message option"
  k_triggered_at :: "datetime option"

definition new_kill_switch :: "pyfloat \<Rightarrow> pyfloat \<Rightarrow> kill_switch res" where
  "new_kill_switch max_loss max_drawdown =
     rbind (check_all
       [(max_loss \<le> Fin 0, ''max_daily_loss must be positive''),
        (max_drawdown \<le> Fin 0, ''max_drawdown_pct must be positive'')])
       (\<lambda>_. Inr \<lparr>k_max_loss = max_loss, k_max_drawdown = max_drawdown, k_daily_pnl = Fin 0,
                k_peak = None, k_triggered = False, k_reason = None, k_triggered_at = None\<rparr>)"

definition ks_trigger :: "message \<Rightarrow> datetime \<Rightarrow> kill_switch \<Rightarrow> kill_switch" where
  "ks_trigger reason now k =
     (if k_triggered k then k
      else k\<lparr>k_triggered := True, k_reason := Some reason, k_triggered_at := Some now\<rparr>)"

definition ks_reset :: "kill_switch \<Rightarrow> kill_switch" where
  "ks_reset k = k\<lparr>k_triggered := False, k_reason := None, k_triggered_at := None,
                  k_daily_pnl := Fin 0, k_peak := None\<rparr>"

text \<open>
  \<open>update_balance\<close>. The peak is a balance that was not zero or negative when it was stored, so
  the division in the code does not raise.
\<close>

definition ks_update_balance :: "pyfloat \<Rightarrow> datetime \<Rightarrow> kill_switch \<Rightarrow> kill_switch \<times> bool" where
  "ks_update_balance balance now k =
     (if balance \<le> Fin 0
      then (ks_trigger (text_msg ''Current balance is zero or negative'') now k, False)
      else
        (let p0 = (case k_peak k of None \<Rightarrow> balance | Some p \<Rightarrow> p);
             peak = (if p0 < balance then balance else p0);
             k1 = k\<lparr>k_peak := Some peak\<rparr>;
             drawdown = ((peak - balance) / peak) * Fin 100
         in if k_max_drawdown k \<le> drawdown
            then (ks_trigger [Txt ''Drawdown '', Flt drawdown 4, Txt ''% exceeded limit '',
                              Flt (k_max_drawdown k) 4, Txt ''%''] now k1, False)
            else (k1, \<not> k_triggered k1)))"

definition ks_update_pnl :: "pyfloat \<Rightarrow> datetime \<Rightarrow> kill_switch \<Rightarrow> kill_switch \<times> bool" where
  "ks_update_pnl pnl now k =
     (let k1 = k\<lparr>k_daily_pnl := k_daily_pnl k + pnl\<rparr>;
          limit = - \<bar>k_max_loss k\<bar>
      in if k_daily_pnl k1 \<le> limit
         then (ks_trigger [Txt ''Daily loss '', Flt (k_daily_pnl k1) 8, Txt '' exceeded limit '',
                           Flt limit 8] now k1, False)
         else (k1, \<not> k_triggered k1))"

definition ks_is_active :: "kill_switch \<Rightarrow> bool" where
  "ks_is_active k = (\<not> k_triggered k)"

definition ks_status :: "kill_switch \<Rightarrow> (string \<times> pyval) list" where
  "ks_status k =
     [(''active'', VBool (ks_is_active k)), (''triggered'', VBool (k_triggered k)),
      (''reason'', (case k_reason k of None \<Rightarrow> VNone | Some m \<Rightarrow> VMsg m)),
      (''triggered_at'', (case k_triggered_at k of None \<Rightarrow> VNone | Some d \<Rightarrow> VStr (isoformat d))),
      (''daily_pnl'', VFloat (k_daily_pnl k)), (''peak_balance'', opt_float (k_peak k))]"

text \<open>The calls a switch receives, as events.\<close>

datatype ks_event = Trigger message datetime | Reset | Balance pyfloat datetime | Pnl pyfloat datetime

fun ks_step :: "ks_event \<Rightarrow> kill_switch \<Rightarrow> kill_switch" where
  "ks_step (Trigger m now) k = ks_trigger m now k"
| "ks_step Reset k = ks_reset k"
| "ks_step (Balance b now) k = fst (ks_update_balance b now k)"
| "ks_step (Pnl p now) k = fst (ks_update_pnl p now k)"

interpretation ks_latch: latch ks_step k_triggered "\<lambda>k. (k_reason k, k_triggered_at k)" "\<lambda>e. e = Reset"
proof unfold_locales
  show "k_triggered s \<Longrightarrow> \<not> e = Reset \<Longrightarrow> k_triggered (ks_step e s)" for s :: kill_switch and e
    by (cases e) (auto simp: ks_trigger_def ks_update_balance_def ks_update_pnl_def Let_def)
  show "k_triggered s \<Longrightarrow> \<not> e = Reset \<Longrightarrow>
      (k_reason (ks_step e s), k_triggered_at (ks_step e s)) = (k_reason s, k_triggered_at s)"
    for s :: kill_switch and e
    by (cases e) (auto simp: ks_trigger_def ks_update_balance_def ks_update_pnl_def Let_def)
  show "e = Reset \<Longrightarrow> \<not> k_triggered (ks_step e s)" for s :: kill_switch and e
    by (simp add: ks_reset_def)
qed

section \<open>The risk service\<close>

record risk_event =
  re_correlation_id :: "string option"
  re_severity :: string
  re_code :: string
  re_message :: message
  re_metadata :: "(string \<times> pyval) list"

record risk_service =
  rs_reports_seen :: nat
  rs_events_emitted :: nat
  rs_critical :: nat
  rs_switch :: kill_switch
  rs_published :: "risk_event list"

text \<open>An \<open>ExecutionEvent\<close> carries the dictionaries of the report and of the fill result.\<close>

record execution_event =
  ee_correlation_id :: "string option"
  ee_report :: "(string \<times> pyval) list"
  ee_fill_result :: "(string \<times> pyval) list"

text \<open>
  The body of the loop over the breaches. A breach that is not a dictionary has no \<open>get\<close>; the
  exception leaves the loop with the effects of the breaches before it.
\<close>

definition on_breach :: "execution_event \<Rightarrow> datetime \<Rightarrow> risk_service \<Rightarrow> pyval \<Rightarrow> risk_service \<times> unit res" where
  "on_breach ev now rs breach =
     (case breach of
        VDict d \<Rightarrow>
          (let severity = str_upper (py_str (dict_get d ''severity'' (VStr ''WARNING'')));
               code = py_str (dict_get d ''code'' (VStr ''UNKNOWN_RISK_BREACH''));
               msg = str_msg (dict_get d ''message'' (VStr ''Risk breach detected''));
               rs1 = (if severity = ''CRITICAL''
                      then rs\<lparr>rs_critical := rs_critical rs + 1,
                              rs_switch := ks_trigger msg now (rs_switch rs)\<rparr>
                      else rs);
               e = \<lparr>re_correlation_id = ee_correlation_id ev, re_severity = severity, re_code = code,
                    re_message = msg,
                    re_metadata = [(''execution_report'', VDict (ee_report ev)), (''breach'', breach),
                                   (''kill_switch'', VDict (ks_status (rs_switch rs1)))]\<rparr>
           in (rs1\<lparr>rs_published := rs_published rs1 @ [e], rs_events_emitted := rs_events_emitted rs1 + 1\<rparr>,
               Inr ()))
      | _ \<Rightarrow> (rs, Inl (AttributeError (text_msg ''object has no attribute get''))))"

fun on_breaches :: "execution_event \<Rightarrow> datetime \<Rightarrow> risk_service \<Rightarrow> pyval list \<Rightarrow> risk_service \<times> unit res" where
  "on_breaches ev now rs [] = (rs, Inr ())"
| "on_breaches ev now rs (b # bs) =
     (case on_breach ev now rs b of
        (rs', Inl e) \<Rightarrow> (rs', Inl e)
      | (rs', Inr _) \<Rightarrow> on_breaches ev now rs' bs)"

definition rs_on_execution_report ::
  "execution_event \<Rightarrow> datetime \<Rightarrow> risk_service \<Rightarrow> risk_service \<times> unit res" where
  "rs_on_execution_report ev now rs =
     (let rs1 = rs\<lparr>rs_reports_seen := rs_reports_seen rs + 1\<rparr>;
          breaches = dict_get (ee_fill_result ev) ''breaches'' (VList [])
      in if \<not> truthy breaches then (rs1, Inr ())
         else (case iter_values breaches of
                 Inl e \<Rightarrow> (rs1, Inl e)
               | Inr bs \<Rightarrow> on_breaches ev now rs1 bs))"

definition breach_to_dict :: "risk_breach \<Rightarrow> (string \<times> pyval) list" where
  "breach_to_dict b =
     [(''code'', VStr (b_code b)), (''message'', VMsg (b_message b)), (''severity'', VStr (b_severity b))]"

section \<open>Limits of an untripped switch\<close>

fun balances :: "ks_event list \<Rightarrow> pyfloat list" where
  "balances [] = []"
| "balances (Balance b _ # es) = b # balances es"
| "balances (_ # es) = balances es"

fun pnls :: "ks_event list \<Rightarrow> pyfloat list" where
  "pnls [] = []"
| "pnls (Pnl p _ # es) = p # pnls es"
| "pnls (_ # es) = pnls es"

lemma balances_append [simp]: "balances (xs @ ys) = balances xs @ balances ys"
  by (induction xs rule: balances.induct) auto

lemma pnls_append [simp]: "pnls (xs @ ys) = pnls xs @ pnls ys"
  by (induction xs rule: pnls.induct) auto

lemma drawdown_mono:
  fixes x m b :: real
  assumes "0 < x" "x \<le> m" "0 < b"
  shows "(x - b) / x * 100 \<le> (m - b) / m * 100"
  using assms by (simp add: field_simps mult_left_mono)

text \<open>
  What is known of a switch that has seen the events without tripping: its running figures, and
  that no balance and no running loss reached a limit. \<open>bs\<close> and \<open>ps\<close> are the finite values.
\<close>

definition within_limits :: "real \<Rightarrow> real \<Rightarrow> real list \<Rightarrow> real list \<Rightarrow> bool" where
  "within_limits L D bs ps \<longleftrightarrow>
     (\<forall>b \<in> set bs. 0 < b) \<and>
     (\<forall>i j. i \<le> j \<and> j < length bs \<longrightarrow> (bs ! i - bs ! j) / bs ! i * 100 < D) \<and>
     (\<forall>n \<le> length ps. - L < sum_list (take n ps))"

definition tracks :: "real \<Rightarrow> real \<Rightarrow> real list \<Rightarrow> real list \<Rightarrow> kill_switch \<Rightarrow> bool" where
  "tracks L D bs ps k \<longleftrightarrow>
     k_max_loss k = Fin L \<and> k_max_drawdown k = Fin D \<and> k_daily_pnl k = Fin (sum_list ps) \<and>
     k_peak k = (if bs = [] then None else Some (Fin (Max (set bs)))) \<and> within_limits L D bs ps"

lemma ks_trigger_simps [simp]:
  "k_triggered (ks_trigger m now k)"
  "k_daily_pnl (ks_trigger m now k) = k_daily_pnl k"
  "k_peak (ks_trigger m now k) = k_peak k"
  by (simp_all add: ks_trigger_def)

lemma untriggered_if: "\<not> k_triggered (if P then ks_trigger m now k else k') \<Longrightarrow> \<not> P"
  by (cases P) simp_all

lemma max_if: "max x y = (if y < x then x else (y :: real))"
  by (simp add: max_def)

lemma tracks_balance:
  assumes "tracks L D bs ps k" "\<not> k_triggered (fst (ks_update_balance (Fin b) now k))" "0 < D"
  shows "tracks L D (bs @ [b]) ps (fst (ks_update_balance (Fin b) now k))"
proof -
  define m where "m = Max (set (bs @ [b]))"
  have b: "0 < b" using assms(2) by (auto simp: ks_update_balance_def ks_trigger_def split: if_splits)
  have k': "fst (ks_update_balance (Fin b) now k) = k\<lparr>k_peak := Some (Fin m)\<rparr>" "(m - b) / m * 100 < D"
  proof -
    obtain p0 where p0: "(case k_peak k of None \<Rightarrow> Fin b | Some p \<Rightarrow> p) = Fin p0"
        and m: "m = (if p0 < b then b else p0)"
    proof (cases "bs = []")
      case True
      with assms(1) that [of b] show ?thesis by (simp add: tracks_def m_def)
    next
      case False
      then have "m = max b (Max (set bs))" by (simp add: m_def)
      then have "m = (if Max (set bs) < b then b else Max (set bs))" by (rule ssubst) (rule max_if)
      moreover have "(case k_peak k of None \<Rightarrow> Fin b | Some p \<Rightarrow> p) = Fin (Max (set bs))"
        using False assms(1) by (simp add: tracks_def)
      ultimately show ?thesis by (rule that [rotated])
    qed
    have "0 < m" using b by (simp add: m split: if_splits)
    moreover have "k_max_drawdown k = Fin D" using assms(1) by (simp add: tracks_def)
    ultimately have run: "fst (ks_update_balance (Fin b) now k) =
        (if D \<le> (m - b) / m * 100
         then ks_trigger [Txt ''Drawdown '', Flt (Fin ((m - b) / m * 100)) 4, Txt ''% exceeded limit '',
                Flt (Fin D) 4, Txt ''%''] now (k\<lparr>k_peak := Some (Fin m)\<rparr>)
         else k\<lparr>k_peak := Some (Fin m)\<rparr>)"
      using b by (simp add: ks_update_balance_def p0 m Let_def)
    have below: "\<not> D \<le> (m - b) / m * 100"
      using assms(2) unfolding run by (rule untriggered_if)
    then show "(m - b) / m * 100 < D" by (rule not_le_imp_less)
    from below show "fst (ks_update_balance (Fin b) now k) = k\<lparr>k_peak := Some (Fin m)\<rparr>"
      unfolding run by (rule if_not_P)
  qed
  have le: "x \<le> m" if "x \<in> set (bs @ [b])" for x using that unfolding m_def by (intro Max_ge) auto
  have pos: "\<forall>x \<in> set (bs @ [b]). 0 < x" using assms(1) b by (auto simp: tracks_def within_limits_def)
  have "((bs @ [b]) ! i - (bs @ [b]) ! j) / (bs @ [b]) ! i * 100 < D"
    if ij: "i \<le> j" "j < length (bs @ [b])" for i j
  proof (cases "j < length bs")
    case True
    with ij assms(1) show ?thesis by (auto simp: nth_append tracks_def within_limits_def)
  next
    case False
    with ij have j: "(bs @ [b]) ! j = b" by (simp add: nth_append less_Suc_eq)
    have "(bs @ [b]) ! i \<in> set (bs @ [b])" using ij by (intro nth_mem) simp
    then have "((bs @ [b]) ! i - b) / (bs @ [b]) ! i * 100 \<le> (m - b) / m * 100"
      using le pos b by (intro drawdown_mono) auto
    with k'(2) show ?thesis by (simp only: j)
  qed
  with pos assms(1) k'(1) show ?thesis by (simp add: tracks_def within_limits_def m_def)
qed

lemma tracks_pnl:
  assumes "tracks L D bs ps k" "\<not> k_triggered (fst (ks_update_pnl (Fin p) now k))" "0 < L"
  shows "tracks L D bs (ps @ [p]) (fst (ks_update_pnl (Fin p) now k))"
  using assms
  by (auto simp: ks_update_pnl_def tracks_def within_limits_def ks_trigger_def Let_def le_Suc_eq
      split: if_splits)

lemma tracks_run:
  assumes k: "new_kill_switch (Fin L) (Fin D) = Inr k"
    and "\<forall>e \<in> set es. e \<noteq> Reset" "\<not> k_triggered (fold ks_step es k)"
    and "list_all is_fin (balances es)" "list_all is_fin (pnls es)"
  shows "tracks L D (map val_of (balances es)) (map val_of (pnls es)) (fold ks_step es k)"
  using assms(2-)
proof (induction es rule: rev_induct)
  case Nil
  have "0 < L" "0 < D" using k by (auto simp: new_kill_switch_def split: if_splits)
  with k show ?case by (auto simp: new_kill_switch_def tracks_def within_limits_def)
next
  case (snoc e es)
  have limits: "0 < L" "0 < D" using k by (auto simp: new_kill_switch_def split: if_splits)
  have "\<not> k_triggered (fold ks_step es k)"
    using ks_latch.run_prefix [of es "[e]" k] snoc.prems by auto
  with snoc have IH: "tracks L D (map val_of (balances es)) (map val_of (pnls es)) (fold ks_step es k)"
    by simp
  show ?case
  proof (cases e)
    case (Balance b now)
    then have "Fin (val_of b) = b" using snoc.prems(3) by simp
    then show ?thesis
      using tracks_balance [OF IH _ limits(2), of "val_of b" now] snoc.prems(2) Balance by simp
  next
    case (Pnl p now)
    then have "Fin (val_of p) = p" using snoc.prems(4) by simp
    then show ?thesis
      using tracks_pnl [OF IH _ limits(1), of "val_of p" now] snoc.prems(2) Pnl by simp
  qed (use IH snoc.prems in \<open>auto simp: ks_trigger_def split: if_splits\<close>)
qed

section \<open>The service over a list of breaches\<close>

lemma on_breach_switch:
  "k_daily_pnl (rs_switch (fst (on_breach ev now rs b))) = k_daily_pnl (rs_switch rs) \<and>
   k_peak (rs_switch (fst (on_breach ev now rs b))) = k_peak (rs_switch rs)"
  by (auto simp: on_breach_def Let_def split: pyval.splits)

lemma on_breaches_switch:
  "k_daily_pnl (rs_switch (fst (on_breaches ev now rs bs))) = k_daily_pnl (rs_switch rs) \<and>
   k_peak (rs_switch (fst (on_breaches ev now rs bs))) = k_peak (rs_switch rs)"
proof (induction bs arbitrary: rs)
  case (Cons b bs)
  show ?case
    using Cons.IH [of "fst (on_breach ev now rs b)"] on_breach_switch [of ev now rs b]
    by (cases "on_breach ev now rs b") (auto split: sum.splits)
qed simp

lemma on_breaches_seen: "rs_reports_seen (fst (on_breaches ev now rs bs)) = rs_reports_seen rs"
proof (induction bs arbitrary: rs)
  case (Cons b bs)
  have "rs_reports_seen (fst (on_breach ev now rs b)) = rs_reports_seen rs"
    by (auto simp: on_breach_def Let_def split: pyval.splits)
  then show ?case
    using Cons.IH [of "fst (on_breach ev now rs b)"]
    by (cases "on_breach ev now rs b") (auto split: sum.splits)
qed simp

definition critical_breach :: "risk_breach \<Rightarrow> bool" where
  "critical_breach b \<longleftrightarrow> str_upper (b_severity b) = ''CRITICAL''"

lemma on_breaches_dicts:
  "\<exists>rs'. on_breaches ev now rs (map (\<lambda>b. VDict (breach_to_dict b)) bs) = (rs', Inr ()) \<and>
     (k_triggered (rs_switch rs') \<longleftrightarrow> k_triggered (rs_switch rs) \<or> (\<exists>b \<in> set bs. critical_breach b)) \<and>
     rs_events_emitted rs' = rs_events_emitted rs + length bs \<and>
     map re_code (rs_published rs') = map re_code (rs_published rs) @ map b_code bs"
proof (induction bs arbitrary: rs)
  case (Cons b bs)
  obtain rs1 where step: "on_breach ev now rs (VDict (breach_to_dict b)) = (rs1, Inr ())"
      and rs1: "k_triggered (rs_switch rs1) \<longleftrightarrow> k_triggered (rs_switch rs) \<or> critical_breach b"
        "rs_events_emitted rs1 = rs_events_emitted rs + 1"
        "map re_code (rs_published rs1) = map re_code (rs_published rs) @ [b_code b]"
    by (auto simp: on_breach_def breach_to_dict_def dict_get_def critical_breach_def Let_def)
  then show ?case using Cons.IH [of rs1] by auto
qed simp

lemma guard_breach_critical:
  "(\<exists>b \<in> set (guard_validate g e). critical_breach b) \<longleftrightarrow> g_max_gross g < e_gross e \<or> g_max_net g < \<bar>e_net e\<bar>"
  by (auto simp: guard_validate_def critical_breach_def str_simps)

section \<open>When a switch trips\<close>

lemma balance_trips:
  assumes "tracks L D bs ps k" "k_triggered (fst (ks_update_balance (Fin b) now k))" "\<not> k_triggered k"
  shows "\<not> within_limits L D (bs @ [b]) ps"
proof (cases "0 < b")
  case True
  define xs where "xs = bs @ [b]"
  have "\<exists>i < length xs. D \<le> (xs ! i - b) / xs ! i * 100"
  proof (cases "bs = [] \<or> Max (set bs) < b")
    case True
    with assms \<open>0 < b\<close> have "D \<le> 0"
      by (auto simp: ks_update_balance_def tracks_def Let_def split: if_splits)
    then show ?thesis by (intro exI [of _ "length bs"]) (simp add: xs_def)
  next
    case False
    then obtain i where i: "i < length bs" "bs ! i = Max (set bs)"
      by (metis List.finite_set Max_in in_set_conv_nth set_empty)
    have "Fin D \<le> Fin ((bs ! i - b) / bs ! i * 100)"
      using assms False \<open>0 < b\<close> i
      by (auto simp: ks_update_balance_def tracks_def Let_def split: if_splits)
    with i show ?thesis by (intro exI [of _ i]) (simp add: xs_def nth_append)
  qed
  then obtain i where i: "i < length xs" "D \<le> (xs ! i - b) / xs ! i * 100" by blast
  have last: "xs ! length bs = b" "i \<le> length bs" "length bs < length xs"
    using i(1) by (simp_all add: xs_def)
  have "(xs ! i - xs ! length bs) / xs ! i * 100 < D" if "within_limits L D xs ps"
    using that last unfolding within_limits_def by blast
  then show ?thesis using i(2) last(1) by (auto simp: xs_def)
qed (auto simp: within_limits_def)

lemma pnl_trips:
  assumes "tracks L D bs ps k" "k_triggered (fst (ks_update_pnl (Fin p) now k))" "\<not> k_triggered k" "0 < L"
  shows "\<not> within_limits L D bs (ps @ [p])"
proof -
  have "sum_list (take (Suc (length ps)) (ps @ [p])) \<le> - L"
    using assms by (auto simp: ks_update_pnl_def tracks_def Let_def split: if_splits)
  then show ?thesis unfolding within_limits_def
    by (metis length_append_singleton linorder_not_less order_refl)
qed

lemma within_limits_prefix:
  assumes "within_limits L D (bs @ bs') (ps @ ps')" shows "within_limits L D bs ps"
  unfolding within_limits_def
proof (intro conjI allI impI ballI)
  show "0 < b" if "b \<in> set bs" for b using assms that by (auto simp: within_limits_def)
  show "(bs ! i - bs ! j) / bs ! i * 100 < D" if "i \<le> j \<and> j < length bs" for i j
    using assms that
    by (auto simp: within_limits_def nth_append dest!: spec [of _ i] dest: spec [of _ j] split: if_splits)
  show "- L < sum_list (take n ps)" if "n \<le> length ps" for n
    using assms that by (auto simp: within_limits_def dest!: spec [of _ n])
qed

text \<open>An event sequence that calls \<open>trigger\<close> nowhere and reached no limit.\<close>

definition harmless :: "real \<Rightarrow> real \<Rightarrow> ks_event list \<Rightarrow> bool" where
  "harmless L D es \<longleftrightarrow>
     (\<forall>m now. Trigger m now \<notin> set es) \<and>
     within_limits L D (map val_of (balances es)) (map val_of (pnls es))"

lemma untripped_harmless:
  assumes k: "new_kill_switch (Fin L) (Fin D) = Inr k"
    and "Reset \<notin> set es" "list_all is_fin (balances es)" "list_all is_fin (pnls es)"
  shows "\<not> k_triggered (fold ks_step es k) \<longleftrightarrow> harmless L D es"
  using assms(2-)
proof (induction es rule: rev_induct)
  case Nil
  have "0 < L" using k by (auto simp: new_kill_switch_def split: if_splits)
  with k show ?case by (auto simp: new_kill_switch_def harmless_def within_limits_def split: if_splits)
next
  case (snoc e es)
  have limits: "0 < L" "0 < D" using k by (auto simp: new_kill_switch_def split: if_splits)
  have no_reset: "\<forall>e' \<in> set (es @ [e]). e' \<noteq> Reset" using snoc.prems(1) by auto
  have IH: "\<not> k_triggered (fold ks_step es k) \<longleftrightarrow> harmless L D es" using snoc by simp
  show ?case
  proof
    assume un: "\<not> k_triggered (fold ks_step (es @ [e]) k)"
    have "Trigger m now \<notin> set (es @ [e])" for m now
    proof -
      have "harmless L D es" using un IH ks_latch.run_prefix [of es "[e]" k] no_reset by auto
      then show ?thesis using un by (auto simp: harmless_def)
    qed
    with tracks_run [OF k no_reset un snoc.prems(2,3)] show "harmless L D (es @ [e])"
      by (simp only: harmless_def tracks_def) blast
  next
    assume h: "harmless L D (es @ [e])"
    then have un: "\<not> k_triggered (fold ks_step es k)"
      using IH within_limits_prefix unfolding harmless_def by (simp only: balances_append pnls_append map_append) auto
    have track: "tracks L D (map val_of (balances es)) (map val_of (pnls es)) (fold ks_step es k)"
      using tracks_run [OF k _ un] snoc.prems by auto
    show "\<not> k_triggered (fold ks_step (es @ [e]) k)"
    proof (cases e)
      case (Balance b now)
      then have "Fin (val_of b) = b" using snoc.prems(2) by simp
      then show ?thesis
        using balance_trips [OF track _ un, of "val_of b" now] h Balance by (auto simp: harmless_def)
    next
      case (Pnl p now)
      then have "Fin (val_of p) = p" using snoc.prems(3) by simp
      then show ?thesis
        using pnl_trips [OF track _ un limits(1), of "val_of p" now] h Pnl by (auto simp: harmless_def)
    qed (use h un no_reset in \<open>auto simp: harmless_def\<close>)
  qed
qed

section \<open>Properties\<close>

text \<open>
  C11. The switch trips exactly on a trigger or a reached limit. From a new switch and over any
  finite figures without a reset, it is untripped if and only if \<open>trigger\<close> was never called, every
  balance was positive, no balance lay \<open>D\<close> percent or more below an earlier one, and the running
  sum of the profits and losses never was \<open>-L\<close> or less.
\<close>
theorem kill_switch_trips_exactly:
  assumes "new_kill_switch (Fin L) (Fin D) = Inr k"
    and "Reset \<notin> set es" "list_all is_fin (balances es)" "list_all is_fin (pnls es)"
  shows "\<not> k_triggered (fold ks_step es k) \<longleftrightarrow>
    (\<forall>m now. Trigger m now \<notin> set es) \<and>
    (\<forall>b \<in> set (balances es). 0 < val_of b) \<and>
    (\<forall>i j. i \<le> j \<and> j < length (balances es) \<longrightarrow>
       (val_of (balances es ! i) - val_of (balances es ! j)) / val_of (balances es ! i) * 100 < D) \<and>
    (\<forall>n \<le> length (pnls es). - L < sum_list (take n (map val_of (pnls es))))"
  using untripped_harmless [OF assms] by (auto simp: harmless_def within_limits_def)

text \<open>
  A tripped switch stays tripped, with the reason and the time of the first cause, over any
  calls but a reset; every update then answers that trading is off; a reset clears the switch
  and its running figures.
\<close>
theorem kill_switch_latched:
  assumes "k_triggered k" and "Reset \<notin> set es"
  shows "k_triggered (fold ks_step es k) \<and> k_reason (fold ks_step es k) = k_reason k \<and>
    k_triggered_at (fold ks_step es k) = k_triggered_at k \<and>
    \<not> snd (ks_update_balance b now (fold ks_step es k)) \<and>
    \<not> snd (ks_update_pnl p now (fold ks_step es k)) \<and>
    ks_is_active (ks_reset (fold ks_step es k)) \<and> k_daily_pnl (ks_reset (fold ks_step es k)) = Fin 0"
proof -
  have run: "k_triggered (fold ks_step es k) \<and>
      (k_reason (fold ks_step es k), k_triggered_at (fold ks_step es k)) = (k_reason k, k_triggered_at k)"
    using ks_latch.run_stays [OF assms(1), of es] assms(2) by auto
  moreover have "\<not> snd (ks_update_balance b now s) \<and> \<not> snd (ks_update_pnl p now s)"
    if "k_triggered s" for s
    using that by (auto simp: ks_update_balance_def ks_update_pnl_def ks_trigger_def Let_def)
  ultimately show ?thesis by (auto simp: ks_reset_def ks_is_active_def)
qed

text \<open>
  One not-a-number profit disables the daily-loss limit: whatever the later profits and
  losses are, an untripped switch then stays untripped.
\<close>
theorem nan_pnl_disables_loss_limit:
  assumes "\<not> k_triggered k"
  shows "\<not> k_triggered (fold ks_step (map (\<lambda>p. Pnl p now) (NaN # ps)) k)"
proof -
  have "\<not> k_triggered k' \<and> k_daily_pnl k' = NaN \<Longrightarrow>
      \<not> k_triggered (fold ks_step (map (\<lambda>p. Pnl p now) ps) k')" for k'
    by (induction ps arbitrary: k') (auto simp: ks_update_pnl_def Let_def)
  then show ?thesis using assms by (simp add: ks_update_pnl_def Let_def)
qed

text \<open>
  The risk service and the guard. When an execution event carries the breaches the guard
  found in a portfolio, the service emits one event per breach, in order, and trips the switch
  exactly when gross or net exposure is over its limit; it never feeds the switch a balance or a
  profit, so the drawdown and daily-loss figures stay as they were.
\<close>
theorem risk_service_trips_on_exposure:
  assumes "dict_get (ee_fill_result ev) ''breaches'' (VList []) =
    VList (map (\<lambda>b. VDict (breach_to_dict b)) (guard_validate g e))"
  shows "\<exists>rs'. rs_on_execution_report ev now rs = (rs', Inr ()) \<and>
    (k_triggered (rs_switch rs') \<longleftrightarrow>
       k_triggered (rs_switch rs) \<or> g_max_gross g < e_gross e \<or> g_max_net g < \<bar>e_net e\<bar>) \<and>
    rs_reports_seen rs' = rs_reports_seen rs + 1 \<and>
    rs_events_emitted rs' = rs_events_emitted rs + length (guard_validate g e) \<and>
    map re_code (rs_published rs') = map re_code (rs_published rs) @ map b_code (guard_validate g e) \<and>
    k_daily_pnl (rs_switch rs') = k_daily_pnl (rs_switch rs) \<and> k_peak (rs_switch rs') = k_peak (rs_switch rs)"
proof -
  define rs1 where "rs1 = rs\<lparr>rs_reports_seen := rs_reports_seen rs + 1\<rparr>"
  define bs where "bs = guard_validate g e"
  obtain rs' where rs': "on_breaches ev now rs1 (map (\<lambda>b. VDict (breach_to_dict b)) bs) = (rs', Inr ())"
      "k_triggered (rs_switch rs') \<longleftrightarrow> k_triggered (rs_switch rs1) \<or> (\<exists>b \<in> set bs. critical_breach b)"
      "rs_events_emitted rs' = rs_events_emitted rs1 + length bs"
      "map re_code (rs_published rs') = map re_code (rs_published rs1) @ map b_code bs"
    using on_breaches_dicts by blast
  have run: "rs_on_execution_report ev now rs = (rs', Inr ())"
    using assms rs'(1) by (cases "bs = []") (simp_all add: rs_on_execution_report_def rs1_def bs_def)
  have "rs_reports_seen rs' = rs_reports_seen rs + 1"
    using on_breaches_seen [of ev now rs1 "map (\<lambda>b. VDict (breach_to_dict b)) bs"] rs'(1) by (simp add: rs1_def)
  with run rs'(2-) on_breaches_switch [of ev now rs1 "map (\<lambda>b. VDict (breach_to_dict b)) bs"] rs'(1)
  show ?thesis by (simp add: rs1_def bs_def guard_breach_critical)
qed

section \<open>Witnesses\<close>

definition sample_switch :: kill_switch where
  "sample_switch = \<lparr>k_max_loss = Fin 100, k_max_drawdown = Fin 10, k_daily_pnl = Fin 0,
     k_peak = None, k_triggered = False, k_reason = None, k_triggered_at = None\<rparr>"

theorem kill_switch_trips_exactly_witness:
  "\<not> k_triggered (fold ks_step [Pnl (Fin (-60)) sample_time] sample_switch) \<and>
   k_triggered (fold ks_step [Balance (Fin 200) sample_time, Balance (Fin 180) sample_time] sample_switch)"
proof
  have k: "new_kill_switch (Fin 100) (Fin 10) = Inr sample_switch"
    by (simp add: new_kill_switch_def sample_switch_def)
  have "n \<le> Suc 0 \<Longrightarrow> n = 0 \<or> n = Suc 0" for n by auto
  then show "\<not> k_triggered (fold ks_step [Pnl (Fin (-60)) sample_time] sample_switch)"
    using kill_switch_trips_exactly [OF k, of "[Pnl (Fin (-60)) sample_time]"] by fastforce
  show "k_triggered (fold ks_step [Balance (Fin 200) sample_time, Balance (Fin 180) sample_time] sample_switch)"
  proof (rule ccontr)
    assume "\<not> ?thesis"
    then have "\<forall>i j. i \<le> j \<and> j < 2 \<longrightarrow> (val_of ([Fin 200, Fin 180] ! i) - val_of ([Fin 200, Fin 180] ! j)) /
        val_of ([Fin 200, Fin 180] ! i) * 100 < (10::real)"
      using kill_switch_trips_exactly [OF k, of "[Balance (Fin 200) sample_time, Balance (Fin 180) sample_time]"]
      by (simp add: numeral_2_eq_2)
    from this [rule_format, of 0 1] show False by simp
  qed
qed

theorem kill_switch_latched_witness:
  "k_triggered (fold ks_step [Pnl (Fin 500) sample_time, Balance (Fin 900) sample_time,
     Trigger (text_msg ''again'') sample_time] (ks_trigger (text_msg ''first'') sample_time sample_switch))"
  by (rule kill_switch_latched [THEN conjunct1]) (simp_all add: ks_trigger_def)

theorem nan_pnl_disables_loss_limit_witness:
  "\<not> k_triggered (fold ks_step (map (\<lambda>p. Pnl p sample_time) (NaN # [Fin (-1000000)])) sample_switch)"
  by (rule nan_pnl_disables_loss_limit) (simp add: sample_switch_def)

definition sample_service :: risk_service where
  "sample_service = \<lparr>rs_reports_seen = 0, rs_events_emitted = 0, rs_critical = 0,
     rs_switch = sample_switch, rs_published = []\<rparr>"

theorem risk_service_trips_on_exposure_witness:
  "\<exists>rs'. rs_on_execution_report \<lparr>ee_correlation_id = None, ee_report = [],
      ee_fill_result = [(''breaches'', VList (map (\<lambda>b. VDict (breach_to_dict b))
        (guard_validate \<lparr>g_max_gross = Fin 5, g_max_net = Fin 20, g_max_weight = Fin 1\<rparr>
          (exposure_calculate (positions book_ledger) book_marks))))]\<rparr> sample_time sample_service = (rs', Inr ()) \<and>
    k_triggered (rs_switch rs')"
proof -
  define e where "e = exposure_calculate (positions book_ledger) book_marks"
  define g where "g = \<lparr>g_max_gross = Fin 5, g_max_net = Fin 20, g_max_weight = Fin 1\<rparr>"
  have over: "g_max_gross g < e_gross e" by (simp add: e_def g_def book_simps)
  define ev where "ev = \<lparr>ee_correlation_id = None, ee_report = [],
      ee_fill_result = [(''breaches'', VList (map (\<lambda>b. VDict (breach_to_dict b)) (guard_validate g e)))]\<rparr>"
  have "dict_get (ee_fill_result ev) ''breaches'' (VList []) =
      VList (map (\<lambda>b. VDict (breach_to_dict b)) (guard_validate g e))"
    by (simp add: ev_def dict_get_def)
  from risk_service_trips_on_exposure [OF this, of sample_time sample_service] over
  show ?thesis by (auto simp: ev_def e_def g_def)
qed

end
