(* ===== verification/Fill_Processing.thy ===== *)
theory Fill_Processing
  imports Kill_Switch
begin

text \<open>
  The fill processor (\<open>execution/fill_processor.py\<close>): it books the fill of an execution report
  in the ledger, records the trade, marks the positions, measures the exposure, asks the
  portfolio guard, and saves the state. The database and the state store may raise; what they do
  is a parameter, and each keeps the list of what it accepted.
\<close>

section \<open>Stores\<close>

text \<open>
  A sink is a call that may raise: \<open>None\<close> for a call that returns, \<open>Some e\<close> for one that raises
  \<open>e\<close>. The database is optional, as in the code.
\<close>

type_synonym 'a sink = "'a \<Rightarrow> py_exc option"

definition send :: "'a sink \<Rightarrow> 'a \<Rightarrow> unit res" where
  "send f x = (case f x of None \<Rightarrow> Inr () | Some e \<Rightarrow> Inl e)"

record processor =
  fp_guard :: portfolio_guard
  fp_database :: "trade sink option"
  fp_store :: "(string \<times> pyval) list sink"

record fill_state =
  fs_ledger :: ledger
  fs_trades :: "trade list"  \<comment> \<open>rows of the database\<close>
  fs_saved :: "(string \<times> pyval) list option"  \<comment> \<open>the state file\<close>

record fill_result =
  fr_processed :: bool
  fr_trade :: "trade option"
  fr_exposure :: "exposure_snapshot option"
  fr_breaches :: "risk_breach list"

definition fill_result_to_dict :: "fill_result \<Rightarrow> (string \<times> pyval) list" where
  "fill_result_to_dict r =
     [(''processed'', VBool (fr_processed r)),
      (''trade'', (case fr_trade r of None \<Rightarrow> VNone | Some t \<Rightarrow> VDict (trade_to_dict t))),
      (''exposure_snapshot'', (case fr_exposure r of None \<Rightarrow> VNone | Some e \<Rightarrow> VDict (exposure_to_dict e))),
      (''breaches'', VList (map (\<lambda>b. VDict (breach_to_dict b)) (fr_breaches r)))]"

section \<open>Processing a report\<close>

definition fill_of_report :: "execution_report \<Rightarrow> pyval \<Rightarrow> string \<Rightarrow> fill" where
  "fill_of_report r strategy_id uuid =
     \<lparr>f_symbol = r_symbol r, f_side = r_side r, f_quantity = r_filled r, f_price = r_avg_price r,
      f_exchange = r_exchange r, f_fee = r_fee r, f_strategy_id = strategy_id,
      f_order_id = r_exchange_id r, f_uuid = uuid\<rparr>"

definition state_payload :: "ledger \<Rightarrow> exposure_snapshot \<Rightarrow> risk_breach list \<Rightarrow> execution_report \<Rightarrow>
    (string \<times> pyval) list" where
  "state_payload l e bs r =
     [(''portfolio'', VDict (ledger_snapshot l)), (''exposure'', VDict (exposure_to_dict e)),
      (''breaches'', VList (map (\<lambda>b. VDict (breach_to_dict b)) bs)),
      (''last_execution_report'', VDict (report_to_dict r))]"

definition record_trade :: "processor \<Rightarrow> trade \<Rightarrow> fill_state \<Rightarrow> fill_state \<times> unit res" where
  "record_trade p t s =
     (case fp_database p of
        None \<Rightarrow> (s, Inr ())
      | Some db \<Rightarrow> (case send db t of
                     Inl e \<Rightarrow> (s, Inl e)
                   | Inr _ \<Rightarrow> (s\<lparr>fs_trades := fs_trades s @ [t]\<rparr>, Inr ())))"

definition save_state :: "processor \<Rightarrow> (string \<times> pyval) list \<Rightarrow> fill_state \<Rightarrow> fill_state \<times> unit res" where
  "save_state p payload s =
     (case send (fp_store p) payload of
        Inl e \<Rightarrow> (s, Inl e)
      | Inr _ \<Rightarrow> (s\<lparr>fs_saved := Some payload\<rparr>, Inr ()))"

definition process_fill ::
  "processor \<Rightarrow> execution_report \<Rightarrow> (string, pyfloat) pydict \<Rightarrow> pyval \<Rightarrow> string \<Rightarrow> datetime \<Rightarrow>
   fill_state \<Rightarrow> fill_state \<times> fill_result res" where
  "process_fill p r marks strategy_id uuid now s =
     (if \<not> has_fill r
      then (s, Inr \<lparr>fr_processed = False, fr_trade = None, fr_exposure = None, fr_breaches = []\<rparr>)
      else if r_avg_price r \<le> Fin 0
      then (s, Inl (ValueError (text_msg ''Execution report has fill quantity but no valid fill price'')))
      else case apply_fill (fs_ledger s) (fill_of_report r strategy_id uuid) now of
             Inl e \<Rightarrow> (s, Inl e)
           | Inr (l1, trd) \<Rightarrow>
               (let s1 = s\<lparr>fs_ledger := l1\<rparr> in
                case record_trade p trd s1 of
                  (s2, Inl e) \<Rightarrow> (s2, Inl e)
                | (s2, Inr _) \<Rightarrow>
                    (let l2 = mark_positions (fs_ledger s2) marks now;
                         s3 = s2\<lparr>fs_ledger := l2\<rparr>;
                         exposure = exposure_calculate (positions l2) marks;
                         breaches = guard_validate (fp_guard p) exposure
                     in case save_state p (state_payload l2 exposure breaches r) s3 of
                          (s4, Inl e) \<Rightarrow> (s4, Inl e)
                        | (s4, Inr _) \<Rightarrow>
                            (s4, Inr \<lparr>fr_processed = True, fr_trade = Some trd,
                                     fr_exposure = Some exposure, fr_breaches = breaches\<rparr>))))"

section \<open>Lemmas\<close>

lemma mark_positions_pos: "\<forall>(s, p) \<in> set (l_positions (mark_positions l marks now)).
    \<exists>p0. (s, p0) \<in> set (l_positions l) \<and> p_symbol p = p_symbol p0 \<and> p_quantity p = p_quantity p0 \<and>
      p_avg_entry p = p_avg_entry p0 \<and> (p_updated_at p = p_updated_at p0 \<or> p_updated_at p = now)"
  by (fastforce simp: mark_positions_def mark_to_market_def split: option.splits)

lemma mark_positions_keys: "map fst (l_positions (mark_positions l marks now)) = map fst (l_positions l)"
  by (auto simp: mark_positions_def)

lemma mark_positions_ok: "ledger_ok l \<Longrightarrow> ledger_ok (mark_positions l marks now)"
  using mark_positions_pos [of l marks now]
  by (fastforce simp: ledger_ok_def mark_positions_keys position_ok_def)

lemma mark_positions_other [simp]:
  "l_trades (mark_positions l marks now) = l_trades l" "l_realized (mark_positions l marks now) = l_realized l"
  by (simp_all add: mark_positions_def)

definition saved_times :: "ledger \<Rightarrow> bool" where
  "saved_times l \<longleftrightarrow> (\<forall>(s, p) \<in> set (l_positions l). position_saved p)"

definition now_saved :: "datetime \<Rightarrow> bool" where
  "now_saved now \<longleftrightarrow> valid_datetime now \<and> dt_offset now = None"

lemma mark_positions_saved: "saved_times l \<Longrightarrow> now_saved now \<Longrightarrow> saved_times (mark_positions l marks now)"
  using mark_positions_pos [of l marks now]
  by (fastforce simp: saved_times_def position_saved_def now_saved_def)

lemma apply_fill_saved:
  assumes "apply_fill l f now = Inr (l', trd)" "ledger_ok l" "saved_times l" "now_saved now"
  shows "saved_times l'"
  using assms(1)
proof (cases rule: apply_fillE)
  case (1 p1 pnl)
  have "position_saved (p1\<lparr>p_updated_at := now\<rparr>)" using assms(4) by (simp add: position_saved_def now_saved_def)
  then show ?thesis using 1(3) assms(2,3)
    by (auto simp: saved_times_def ledger_ok_def dict_set_mem dict_pop_mem)
qed

lemma record_trade_ledger: "record_trade p t s = (s', r) \<Longrightarrow> fs_ledger s' = fs_ledger s \<and> fs_saved s' = fs_saved s"
  by (auto simp: record_trade_def split: option.splits sum.splits)

lemma save_state_ledger: "save_state p x s = (s', r) \<Longrightarrow> fs_ledger s' = fs_ledger s \<and> fs_trades s' = fs_trades s"
  by (auto simp: save_state_def split: sum.splits)

text \<open>A report that is booked: what every later step of the processor sees.\<close>

lemma process_fill_processed:
  assumes "process_fill p r marks strat uuid now s = (s', Inr res)" "fr_processed res"
  obtains l1 trd where
    "apply_fill (fs_ledger s) (fill_of_report r strat uuid) now = Inr (l1, trd)"
    "fs_ledger s' = mark_positions l1 marks now" "fr_trade res = Some trd" "has_fill r"
    "fr_exposure res = Some (exposure_calculate (positions (fs_ledger s')) marks)"
    "fr_breaches res = guard_validate (fp_guard p) (exposure_calculate (positions (fs_ledger s')) marks)"
    "fs_saved s' = Some (state_payload (fs_ledger s') (exposure_calculate (positions (fs_ledger s')) marks)
       (fr_breaches res) r)"
    "fs_trades s' = fs_trades s @ (if fp_database p = None then [] else [trd])"
proof (cases "\<not> has_fill r \<or> r_avg_price r \<le> Fin 0")
  case True
  with assms show thesis by (auto simp: process_fill_def split: if_splits)
next
  case False
  then obtain l1 trd where fill: "apply_fill (fs_ledger s) (fill_of_report r strat uuid) now = Inr (l1, trd)"
    using assms(1) by (auto simp: process_fill_def split: sum.splits)
  obtain s2 r2 where rec: "record_trade p trd (s\<lparr>fs_ledger := l1\<rparr>) = (s2, r2)" by fastforce
  with assms(1) False fill obtain u where r2: "r2 = Inr u"
    by (cases r2) (auto simp: process_fill_def Let_def)
  have s2: "fs_ledger s2 = l1" "fs_trades s2 = fs_trades s @ (if fp_database p = None then [] else [trd])"
    using rec r2 by (auto simp: record_trade_def split: option.splits sum.splits)
  with assms(1) False fill rec r2 show thesis
    by (intro that [OF fill]) (auto simp: process_fill_def Let_def save_state_def split: prod.splits sum.splits)
qed

section \<open>Properties\<close>

lemma process_fill_books:
  assumes "process_fill p r marks strat uuid now s = (s', res)"
  shows "length (l_trades (fs_ledger s')) = length (l_trades (fs_ledger s)) +
      (if has_fill r \<and> \<not> r_avg_price r \<le> Fin 0 \<and>
          is_ok (apply_fill (fs_ledger s) (fill_of_report r strat uuid) now) then 1 else 0) \<and>
    (\<not> has_fill r \<longrightarrow> s' = s \<and> is_ok res) \<and>
    (has_fill r \<and> (\<forall>x. fp_store p x \<noteq> None) \<longrightarrow> \<not> is_ok res \<and> fs_saved s' = fs_saved s)"
proof (cases "\<not> has_fill r \<or> r_avg_price r \<le> Fin 0 \<or> \<not> is_ok (apply_fill (fs_ledger s) (fill_of_report r strat uuid) now)")
  case True
  with assms show ?thesis
    by (auto simp: process_fill_def is_ok_iff split: if_splits sum.splits)
next
  case False
  then obtain l1 trd where fill: "apply_fill (fs_ledger s) (fill_of_report r strat uuid) now = Inr (l1, trd)"
    by (auto simp: is_ok_iff)
  have trades: "l_trades l1 = l_trades (fs_ledger s) @ [trd]" using fill by (auto elim: apply_fillE)
  obtain s2 r2 where rec: "record_trade p trd (s\<lparr>fs_ledger := l1\<rparr>) = (s2, r2)" by fastforce
  note s2 = record_trade_ledger [OF rec]
  show ?thesis
  proof (cases r2)
    case (Inl e)
    with assms False fill rec s2 trades show ?thesis by (auto simp: process_fill_def Let_def)
  next
    case (Inr u)
    define l2 where "l2 = mark_positions l1 marks now"
    define e where "e = exposure_calculate (positions l2) marks"
    define pl where "pl = state_payload l2 e (guard_validate (fp_guard p) e) r"
    from Inr assms False fill rec s2
    have save: "save_state p pl (s2\<lparr>fs_ledger := l2\<rparr>) = (s', map_sum id (\<lambda>_. ()) res)"
      by (auto simp: process_fill_def Let_def l2_def e_def pl_def split: prod.splits sum.splits)
    have books: "l_trades (fs_ledger s') = l_trades (fs_ledger s) @ [trd]"
      using save_state_ledger [OF save] s2 trades by (simp add: l2_def)
    have failing: "\<not> is_ok res \<and> fs_saved s' = fs_saved s" if "fp_store p pl \<noteq> None"
      using save that s2 by (cases res) (auto simp: save_state_def send_def)
    from False books failing show ?thesis by auto
  qed
qed

text \<open>
  The processor over a sequence of calls. What a call must do is said from the report alone: which
  reports are bookable, and which trade books one.
\<close>

type_synonym booking = "execution_report \<times> (string, pyfloat) pydict \<times> pyval \<times> string \<times> datetime"

definition book_step :: "processor \<Rightarrow> fill_state \<Rightarrow> booking \<Rightarrow> fill_state \<times> fill_result res" where
  "book_step p s b = (case b of (r, marks, strat, uuid, now) \<Rightarrow> process_fill p r marks strat uuid now s)"

definition bookable :: "execution_report \<Rightarrow> bool" where
  "bookable r \<longleftrightarrow>
     has_fill r \<and> \<not> r_filled r \<le> Fin 0 \<and> \<not> r_avg_price r \<le> Fin 0 \<and> r_symbol r \<noteq> [] \<and>
     (str_upper (r_side r) = ''BUY'' \<or> str_upper (r_side r) = ''SELL'')"

definition booked_as :: "booking \<Rightarrow> trade \<Rightarrow> bool" where
  "booked_as b t \<longleftrightarrow>
     (case b of (r, marks, strat, uuid, now) \<Rightarrow>
        t_symbol t = r_symbol r \<and> t_side t = str_upper (r_side r) \<and> t_quantity t = r_filled r \<and>
        t_price t = r_avg_price r \<and> t_exchange t = r_exchange r \<and> t_fee t = r_fee r \<and>
        t_strategy_id t = strat \<and> t_order_id t = r_exchange_id r \<and> t_id t = uuid \<and> t_timestamp t = now)"

text \<open>
  What a call answers, given the trades it booked: without a fill, that nothing was processed; for a
  fill that cannot be booked, an exception; otherwise the trade, and an exception exactly if the database
  raised on the trade or the state store on a state that carries the report.
\<close>

definition call_outcome :: "processor \<Rightarrow> booking \<Rightarrow> fill_result res \<Rightarrow> trade list \<Rightarrow> bool" where
  "call_outcome p b res ts \<longleftrightarrow>
     (if \<not> has_fill (fst b) then ts = [] \<and> (\<exists>fr. res = Inr fr \<and> \<not> fr_processed fr \<and> fr_trade fr = None)
      else if \<not> bookable (fst b) then ts = [] \<and> \<not> is_ok res
      else \<exists>t l e breaches. ts = [t] \<and> booked_as b t \<and>
        (is_ok res \<longleftrightarrow> (\<forall>db. fp_database p = Some db \<longrightarrow> db t = None) \<and>
           fp_store p (state_payload l e breaches (fst b)) = None) \<and>
        (\<forall>fr. res = Inr fr \<longrightarrow> fr_processed fr \<and> fr_trade fr = Some t))"

definition accepted_rows :: "processor \<Rightarrow> trade list \<Rightarrow> trade list" where
  "accepted_rows p ts = (case fp_database p of None \<Rightarrow> [] | Some db \<Rightarrow> filter (\<lambda>t. db t = None) ts)"

lemma apply_report_ok:
  "is_ok (apply_fill l (fill_of_report r strat uuid) now) \<longleftrightarrow>
     r_symbol r \<noteq> [] \<and> \<not> r_filled r \<le> Fin 0 \<and> \<not> r_avg_price r \<le> Fin 0 \<and>
     (str_upper (r_side r) = ''BUY'' \<or> str_upper (r_side r) = ''SELL'')"
  by (auto simp: apply_fill_def fill_checks_def fill_of_report_def Let_def is_ok_iff rbind_Inr_iff split: prod.splits)

lemma apply_report_trade:
  assumes "apply_fill l (fill_of_report r strat uuid) now = Inr (l1, t)"
  shows "booked_as (r, marks, strat, uuid, now) t" "l_trades l1 = l_trades l @ [t]"
  using assms
  by (auto simp: apply_fill_def rbind_Inr_iff Let_def fill_of_report_def booked_as_def split: prod.splits)

lemma process_fill_outcome:
  assumes "process_fill p r marks strat uuid now s = (s', res)"
  shows "\<exists>ts. l_trades (fs_ledger s') = l_trades (fs_ledger s) @ ts \<and> fs_trades s' = fs_trades s @ accepted_rows p ts \<and>
    call_outcome p (r, marks, strat, uuid, now) res ts"
proof (cases "bookable r")
  case False
  then show ?thesis
    using assms apply_report_ok [of "fs_ledger s" r strat uuid now]
    by (auto simp: process_fill_def call_outcome_def accepted_rows_def bookable_def is_ok_iff
        split: if_splits sum.splits option.splits)
next
  case True
  then obtain l1 t where fill: "apply_fill (fs_ledger s) (fill_of_report r strat uuid) now = Inr (l1, t)"
    using apply_report_ok [of "fs_ledger s" r strat uuid now] by (auto simp: bookable_def is_ok_iff)
  note t = apply_report_trade [OF fill]
  have go: "has_fill r" "\<not> r_avg_price r \<le> Fin 0" using True by (simp_all add: bookable_def)
  obtain s2 r2 where rec: "record_trade p t (s\<lparr>fs_ledger := l1\<rparr>) = (s2, r2)" by fastforce
  note s2 = record_trade_ledger [OF rec]
  show ?thesis
  proof (cases r2)
    case (Inl e)
    obtain db where db: "fp_database p = Some db" "db t = Some e" "fs_trades s2 = fs_trades s"
      using rec Inl by (auto simp: record_trade_def send_def split: option.splits)
    have "s' = s2" "res = Inl e" using assms go fill rec Inl by (simp_all add: process_fill_def Let_def)
    with t db s2 go True show ?thesis
      by (intro exI [of _ "[t]"]) (auto simp: call_outcome_def accepted_rows_def)
  next
    case (Inr u)
    have db: "\<forall>db. fp_database p = Some db \<longrightarrow> db t = None" "fs_trades s2 = fs_trades s @ accepted_rows p [t]"
      using rec Inr by (auto simp: record_trade_def send_def accepted_rows_def split: option.splits)
    define l2 where "l2 = mark_positions l1 marks now"
    define e where "e = exposure_calculate (positions l2) marks"
    define pl where "pl = state_payload l2 e (guard_validate (fp_guard p) e) r"
    obtain s4 r4 where save: "save_state p pl (s2\<lparr>fs_ledger := l2\<rparr>) = (s4, r4)" by fastforce
    have "s' = s4 \<and> res = (case r4 of Inl e \<Rightarrow> Inl e | Inr _ \<Rightarrow> Inr \<lparr>fr_processed = True, fr_trade = Some t,
        fr_exposure = Some e, fr_breaches = guard_validate (fp_guard p) e\<rparr>)"
      using assms go fill rec Inr s2 save
      by (auto simp: process_fill_def Let_def l2_def e_def pl_def split: sum.splits)
    then have res: "is_ok res \<longleftrightarrow> fp_store p pl = None"
        "\<forall>fr. res = Inr fr \<longrightarrow> fr_processed fr \<and> fr_trade fr = Some t" and s': "s' = s4"
      using save by (auto simp: save_state_def send_def is_ok_iff split: option.splits)
    have "call_outcome p (r, marks, strat, uuid, now) res [t]"
      using res t(1) [of marks] db(1) go True unfolding call_outcome_def pl_def by auto
    then show ?thesis using s' save_state_ledger [OF save] t(2) db(2)
      by (intro exI [of _ "[t]"]) (simp add: l2_def)
  qed
qed

text \<open>
  C10. Over any sequence of reports, every call books its own report, completely and no other. The ledger
  gains for each call the trades \<open>ts\<close> of that call, in order: none without a fill, none for a fill without a
  positive quantity and price, a symbol and a side, and otherwise exactly one trade, whose symbol, side,
  quantity, price, fee, exchange, order and strategy are those of the report. There is no memory of
  reports, so one that is given twice is booked twice. The trade stays in the ledger when the call
  raises, which it does exactly if the database raises on the trade or the state store on the state saved
  for this report; the table gets exactly the trades the database accepted.
\<close>
theorem reports_booked_each_call:
  assumes "run_events (book_step p) s bs = (s', rs)"
  shows "\<exists>tss. l_trades (fs_ledger s') = l_trades (fs_ledger s) @ concat tss \<and>
    fs_trades s' = fs_trades s @ accepted_rows p (concat tss) \<and>
    length rs = length bs \<and> list_all2 (\<lambda>(b, r) ts. call_outcome p b r ts) (zip bs rs) tss"
  using assms
proof (induction bs arbitrary: s rs)
  case Nil
  then show ?case by (intro exI [of _ "[]"]) (simp add: accepted_rows_def split: option.splits)
next
  case (Cons b bs)
  obtain s1 r1 where b: "book_step p s b = (s1, r1)" by fastforce
  obtain rs1 where rest: "run_events (book_step p) s1 bs = (s', rs1)" "rs = r1 # rs1"
    using Cons.prems b by (auto simp: Let_def split: prod.splits)
  obtain ts where ts: "l_trades (fs_ledger s1) = l_trades (fs_ledger s) @ ts"
      "fs_trades s1 = fs_trades s @ accepted_rows p ts" "call_outcome p b r1 ts"
    using process_fill_outcome b by (cases b) (auto simp: book_step_def, blast)
  obtain tss where "l_trades (fs_ledger s') = l_trades (fs_ledger s1) @ concat tss"
      "fs_trades s' = fs_trades s1 @ accepted_rows p (concat tss)"
      "length rs1 = length bs" "list_all2 (\<lambda>(b, r) ts. call_outcome p b r ts) (zip bs rs1) tss"
    using Cons.IH [OF rest(1)] by blast
  moreover have "accepted_rows p (ts @ us) = accepted_rows p ts @ accepted_rows p us" for us
    by (simp add: accepted_rows_def split: option.splits)
  ultimately show ?case using ts rest(2) by (intro exI [of _ "ts # tss"]) simp
qed

text \<open>What a processed report leaves behind.\<close>

lemma processed_state:
  assumes "process_fill p r marks strat uuid now s = (s', Inr res)" "fr_processed res"
    and "ledger_ok (fs_ledger s)" "saved_times (fs_ledger s)" "now_saved now"
  shows "(\<exists>e bs. fs_saved s' = Some (state_payload (fs_ledger s') e bs r)) \<and>
    ledger_ok (fs_ledger s') \<and> saved_times (fs_ledger s')"
proof -
  obtain l1 trd where fill: "apply_fill (fs_ledger s) (fill_of_report r strat uuid) now = Inr (l1, trd)"
      and l': "fs_ledger s' = mark_positions l1 marks now"
      and saved: "fs_saved s' = Some (state_payload (fs_ledger s')
        (exposure_calculate (positions (fs_ledger s')) marks) (fr_breaches res) r)"
    using process_fill_processed [OF assms(1,2)] by metis
  have "ledger_ok (fs_ledger s')" unfolding l' using apply_fill_ok_step [OF assms(3) fill] by (rule mark_positions_ok)
  moreover have "saved_times (fs_ledger s')" unfolding l'
    using apply_fill_saved [OF fill assms(3-5)] assms(5) by (rule mark_positions_saved)
  ultimately show ?thesis using saved by blast
qed

lemma processed_state_restores:
  assumes "process_fill p r marks strat uuid now s = (s', Inr res)" "fr_processed res"
    and "ledger_ok (fs_ledger s)" "saved_times (fs_ledger s)" "now_saved now"
  shows "\<exists>payload. fs_saved s' = Some payload \<and>
    restore_snapshot l0 (get_val payload ''portfolio'') later =
      (l0\<lparr>l_positions := l_positions (fs_ledger s'), l_realized := l_realized (fs_ledger s')\<rparr>, Inr ())"
proof -
  have "restore_snapshot l0 (VDict (ledger_snapshot (fs_ledger s'))) later =
      (l0\<lparr>l_positions := l_positions (fs_ledger s'), l_realized := l_realized (fs_ledger s')\<rparr>, Inr ())"
    using processed_state [OF assms] unfolding saved_times_def by (intro ledger_restores) blast+
  then show ?thesis using processed_state [OF assms] by (auto simp: state_payload_def dict_simps)
qed

text \<open>
  What the processor saves can be restored. After a processed report, the portfolio part of the
  state file restores, in any ledger, exactly the positions and the realized total that the
  processor's ledger has, provided the ledger was well-formed with restorable time stamps and
  the clock gives such a stamp.
\<close>
theorem saved_portfolio_restores:
  assumes "process_fill p r marks strat uuid now s = (s', Inr res)" "fr_processed res"
    and "ledger_ok (fs_ledger s)" "saved_times (fs_ledger s)" "now_saved now"
  shows "\<exists>payload. fs_saved s' = Some payload \<and>
    restore_snapshot l0 (get_val payload ''portfolio'') later =
      (l0\<lparr>l_positions := l_positions (fs_ledger s'), l_realized := l_realized (fs_ledger s')\<rparr>, Inr ())"
  using assms by (rule processed_state_restores)

section \<open>Witnesses\<close>

definition sample_report :: execution_report where
  "sample_report = \<lparr>r_symbol = ''BTC'', r_side = ''BUY'', r_requested = Fin 2, r_filled = Fin 2,
     r_avg_price = Fin 5, r_status = FILLED, r_exchange = VStr ''X'', r_exchange_id = VStr ''7'',
     r_correlation_id = Some ''c'', r_fee = Fin 0, r_raw = VNone, r_timestamp = sample_time\<rparr>"

definition sample_processor :: "py_exc option \<Rightarrow> processor" where
  "sample_processor store =
     \<lparr>fp_guard = \<lparr>g_max_gross = Fin 20, g_max_net = Fin 20, g_max_weight = Fin 1\<rparr>,
      fp_database = Some (\<lambda>_. None), fp_store = (\<lambda>_. store)\<rparr>"

definition empty_fill_state :: fill_state where
  "empty_fill_state = \<lparr>fs_ledger = new_ledger, fs_trades = [], fs_saved = None\<rparr>"

lemmas process_simps =
  process_fill_def sample_report_def sample_processor_def empty_fill_state_def has_fill_def
  fill_of_report_def apply_fill_def fill_checks_def apply_signed_fill_def signed_delta_def
  new_ledger_def new_position_def EPSILON_def record_trade_def save_state_def send_def

text \<open>The same report twice, with a disk that is full: both calls raise and both trades stay.\<close>

theorem reports_booked_each_call_witness:
  "\<exists>s' rs t t'. run_events (book_step (sample_processor (Some (RuntimeError (text_msg ''disk full'')))))
      empty_fill_state [(sample_report, [], VNone, ''t'', sample_time), (sample_report, [], VNone, ''u'', sample_time)] =
        (s', rs) \<and>
    l_trades (fs_ledger s') = [t, t'] \<and> t_quantity t = Fin 2 \<and> t_quantity t' = Fin 2 \<and> list_all (\<lambda>r. \<not> is_ok r) rs"
proof -
  let ?p = "sample_processor (Some (RuntimeError (text_msg ''disk full'')))"
  let ?b = "\<lambda>u. (sample_report, [], VNone, u, sample_time) :: booking"
  obtain s' rs where run: "run_events (book_step ?p) empty_fill_state [?b ''t'', ?b ''u''] = (s', rs)" by fastforce
  have fill: "has_fill sample_report" "bookable sample_report"
    by (simp_all add: bookable_def sample_report_def has_fill_def str_simps)
  have store: "\<forall>x. fp_store ?p x \<noteq> None" by (simp add: sample_processor_def)
  have one: "\<exists>t. ts = [t] \<and> booked_as (?b u) t \<and> \<not> is_ok r" if "call_outcome ?p (?b u) r ts" for u r ts
    using that fill store by (auto simp: call_outcome_def)
  obtain tss where tss: "l_trades (fs_ledger s') = concat tss" "length rs = 2"
      "list_all2 (\<lambda>(b, r) ts. call_outcome ?p b r ts) (zip [?b ''t'', ?b ''u''] rs) tss"
    using reports_booked_each_call [OF run] by (auto simp: empty_fill_state_def new_ledger_def)
  then obtain r r' where rs: "rs = [r, r']" by (auto simp: length_Suc_conv numeral_2_eq_2)
  with tss(3) obtain ts ts' where ts: "tss = [ts, ts']" "call_outcome ?p (?b ''t'') r ts" "call_outcome ?p (?b ''u'') r' ts'"
    by (auto simp: list_all2_Cons1)
  from one [OF ts(2)] one [OF ts(3)] show ?thesis
    using run tss(1) rs ts(1) by (auto simp: booked_as_def sample_report_def)
qed

theorem saved_portfolio_restores_witness:
  "\<exists>s' res payload. process_fill (sample_processor None) sample_report [] VNone ''t'' sample_time
      empty_fill_state = (s', Inr res) \<and> fs_saved s' = Some payload \<and>
    restore_snapshot new_ledger (get_val payload ''portfolio'') sample_time =
      (new_ledger\<lparr>l_positions := l_positions (fs_ledger s'), l_realized := l_realized (fs_ledger s')\<rparr>, Inr ())"
proof -
  have "\<exists>s' res. process_fill (sample_processor None) sample_report [] VNone ''t'' sample_time
      empty_fill_state = (s', Inr res) \<and> fr_processed res"
    by (simp add: process_simps Let_def str_simps)
  then obtain s' res where run: "process_fill (sample_processor None) sample_report [] VNone ''t'' sample_time
      empty_fill_state = (s', Inr res)" "fr_processed res" by blast
  have "ledger_ok (fs_ledger empty_fill_state)" "saved_times (fs_ledger empty_fill_state)" "now_saved sample_time"
    by (simp_all add: empty_fill_state_def new_ledger_def ledger_ok_def saved_times_def now_saved_def
        sample_time_def valid_datetime_def days_in_month_def)
  from saved_portfolio_restores [OF run this, of new_ledger sample_time] run(1) show ?thesis by blast
qed

end
