(* ===== verification/Routing.thy ===== *)
theory Routing
  imports Orders Py_Sequences
begin

text \<open>
  Exchanges as the router and the pipeline see them, the registry that holds them
  (\<open>core/exchange_registry.py\<close>) and the smart order router (\<open>core/smart_order_router.py\<close>).
  An exchange is a record of its operations over a world \<open>'w\<close>, the state of everything behind it;
  an operation the code probes for with \<open>hasattr\<close> or \<open>getattr\<close> is optional. Queries do not
  change the world. The locale \<open>preference\<close> is what makes a scan for the best entry return one.
\<close>

section \<open>Exchanges and the registry\<close>

record 'w exchange =
  x_id :: string
  x_disabled :: bool  \<comment> \<open>\<open>execution_enabled is False\<close>\<close>
  x_best_ask :: "(string \<Rightarrow> 'w \<Rightarrow> pyval res) option"
  x_best_bid :: "(string \<Rightarrow> 'w \<Rightarrow> pyval res) option"
  x_fetch_ticker :: "string \<Rightarrow> 'w \<Rightarrow> pyval res"
  x_amount_precision :: "(string \<Rightarrow> pyfloat \<Rightarrow> 'w \<Rightarrow> pyval res) option"
  x_price_precision :: "(string \<Rightarrow> pyfloat \<Rightarrow> 'w \<Rightarrow> pyval res) option"
  x_min_notional :: "(string \<Rightarrow> 'w \<Rightarrow> pyval res) option"
  x_create_order :: "string \<Rightarrow> string \<Rightarrow> string \<Rightarrow> pyfloat \<Rightarrow> pyfloat option \<Rightarrow> 'w \<Rightarrow> 'w \<times> pyval res"

type_synonym 'w registry = "(string, 'w exchange) pydict"

definition reg_register :: "string \<Rightarrow> 'w exchange \<Rightarrow> 'w registry \<Rightarrow> 'w registry" where
  "reg_register name x r = dict_set name x r"

definition reg_get :: "string \<Rightarrow> 'w registry \<Rightarrow> 'w exchange option" where
  "reg_get name r = map_of r name"

definition reg_all :: "'w registry \<Rightarrow> 'w registry" where
  "reg_all r = r"

section \<open>The router\<close>

text \<open>The exchanges \<open>AEGIS_EXECUTION_EXCHANGES\<close> allows; the empty list allows all.\<close>

definition allowed_exchanges :: "string \<Rightarrow> string list" where
  "allowed_exchanges raw =
     map (\<lambda>p. str_lower (str_strip p)) (filter (\<lambda>p. str_strip p \<noteq> []) (split_comma (str_strip raw)))"

definition skipped :: "string list \<Rightarrow> string \<Rightarrow> 'w exchange \<Rightarrow> bool" where
  "skipped allowed name x \<longleftrightarrow>
     (allowed \<noteq> [] \<and> str_lower name \<notin> set allowed \<and> str_upper name \<noteq> ''SIMULATED'') \<or> x_disabled x"

definition extract_price :: "'w exchange \<Rightarrow> string \<Rightarrow> string \<Rightarrow> 'w \<Rightarrow> pyfloat option res" where
  "extract_price x symb side w =
     (let book = (if side = ''BUY'' then x_best_ask x else if side = ''SELL'' then x_best_bid x else None);
          from_ticker =
            rbind (x_fetch_ticker x symb w) (\<lambda>ticker.
              case ticker of
                VDict d \<Rightarrow>
                  (let v = get_val d (if side = ''BUY'' then ''ask'' else ''bid'') in
                   if v = VNone \<or> v = VStr [] then Inr None
                   else rbind (py_float v) (\<lambda>p. Inr (Some p)))
              | _ \<Rightarrow> Inr None)
      in case book of
           None \<Rightarrow> from_ticker
         | Some q \<Rightarrow>
             rbind (q symb w) (\<lambda>price.
               if truthy price then rbind (py_float price) (\<lambda>p. Inr (Some p)) else from_ticker))"

text \<open>A quote the loop goes on with: not skipped, no exception, a price that is not zero or less.\<close>

definition usable_quote :: "string list \<Rightarrow> string \<Rightarrow> string \<Rightarrow> 'w \<Rightarrow> string \<times> 'w exchange \<Rightarrow> pyfloat option" where
  "usable_quote allowed symb side w e =
     (if skipped allowed (fst e) (snd e) then None
      else case extract_price (snd e) symb side w of
             Inr (Some p) \<Rightarrow> (if p \<le> Fin 0 then None else Some p)
           | _ \<Rightarrow> None)"

definition better :: "string \<Rightarrow> pyfloat \<Rightarrow> pyfloat \<Rightarrow> bool" where
  "better side p best \<longleftrightarrow> (side = ''BUY'' \<and> p < best) \<or> (side = ''SELL'' \<and> best < p)"

fun scan_exchanges ::
  "string list \<Rightarrow> string \<Rightarrow> string \<Rightarrow> 'w \<Rightarrow> ('w exchange \<times> pyfloat) option \<Rightarrow> 'w registry \<Rightarrow>
   ('w exchange \<times> pyfloat) option" where
  "scan_exchanges allowed symb side w best [] = best"
| "scan_exchanges allowed symb side w best (e # es) =
     scan_exchanges allowed symb side w
       (case usable_quote allowed symb side w e of
          None \<Rightarrow> best
        | Some p \<Rightarrow>
            (case best of
               None \<Rightarrow> Some (snd e, p)
             | Some (_, q) \<Rightarrow> if better side p q then Some (snd e, p) else best)) es"

definition find_best_exchange ::
  "'w registry \<Rightarrow> string \<Rightarrow> string \<Rightarrow> string \<Rightarrow> 'w \<Rightarrow> ('w exchange \<times> pyfloat) res" where
  "find_best_exchange reg allowed_raw symb side w =
     (let s = str_upper side in
      if s \<notin> {''BUY'', ''SELL''} then Inl (ValueError (text_msg ''side must be BUY or SELL''))
      else case scan_exchanges (allowed_exchanges allowed_raw) symb s w None (reg_all reg) of
             None \<Rightarrow> Inl (RuntimeError [Txt ''No routable exchange price found for '', Str symb, Txt '' '', Str s])
           | Some best \<Rightarrow> Inr best)"

section \<open>Scanning for the best\<close>

text \<open>A scan keeps the first entry and replaces it by a strictly better one.\<close>

locale preference =
  fixes beats :: "'p \<Rightarrow> 'p \<Rightarrow> bool"
    and num :: "'p \<Rightarrow> bool"
  assumes irrefl: "num p \<Longrightarrow> \<not> beats p p"
    and trans_not: "num p \<Longrightarrow> num q \<Longrightarrow> num r \<Longrightarrow> \<not> beats p q \<Longrightarrow> beats r q \<Longrightarrow> \<not> beats p r"
    and chain: "num p \<Longrightarrow> num q \<Longrightarrow> num r \<Longrightarrow> \<not> beats p q \<Longrightarrow> \<not> beats q r \<Longrightarrow> \<not> beats p r"
begin

definition keep :: "('a \<times> 'p) \<Rightarrow> ('a \<times> 'p) \<Rightarrow> 'a \<times> 'p" where
  "keep best new = (if beats (snd new) (snd best) then new else best)"

lemma scan_best:
  assumes "num (snd x)" "\<forall>y \<in> set xs. num (snd y)"
  shows "foldl keep x xs \<in> set (x # xs) \<and> (\<forall>y \<in> set (x # xs). \<not> beats (snd y) (snd (foldl keep x xs)))"
  using assms
proof (induction xs arbitrary: x)
  case Nil
  then show ?case by (simp add: irrefl)
next
  case (Cons z zs)
  let ?k = "keep x z" and ?b = "foldl keep (keep x z) zs"
  have k: "num (snd ?k)" "?k = x \<or> ?k = z" using Cons.prems by (auto simp: keep_def)
  have IH: "?b \<in> set (?k # zs)" "\<forall>y \<in> set (?k # zs). \<not> beats (snd y) (snd ?b)"
    using Cons.IH [OF k(1)] Cons.prems(2) by auto
  have b: "num (snd ?b)" using IH(1) k(1) Cons.prems(2) by auto
  have "\<not> beats (snd x) (snd ?k) \<and> \<not> beats (snd z) (snd ?k)"
    using Cons.prems trans_not [of "snd x" "snd x" "snd z"] by (auto simp: keep_def irrefl)
  with IH(2) b k(1) Cons.prems chain show ?case
    by (metis (no_types, lifting) IH(1) foldl_Cons k(2) list.set_intros(1) set_ConsD list.set_intros(2))
qed

end

interpretation cheapest: preference "(<) :: pyfloat \<Rightarrow> pyfloat \<Rightarrow> bool" is_num
proof unfold_locales
  show "is_num p \<Longrightarrow> \<not> p < p" for p :: pyfloat by simp
  show "is_num p \<Longrightarrow> is_num q \<Longrightarrow> is_num r \<Longrightarrow> \<not> p < q \<Longrightarrow> r < q \<Longrightarrow> \<not> p < r" for p q r :: pyfloat
    by (cases p; cases q; cases r) auto
  show "is_num p \<Longrightarrow> is_num q \<Longrightarrow> is_num r \<Longrightarrow> \<not> p < q \<Longrightarrow> \<not> q < r \<Longrightarrow> \<not> p < r" for p q r :: pyfloat
    by (cases p; cases q; cases r) auto
qed

interpretation dearest: preference "\<lambda>p q. q < (p :: pyfloat)" is_num
proof unfold_locales
  show "is_num p \<Longrightarrow> \<not> p < p" for p :: pyfloat by simp
  show "is_num p \<Longrightarrow> is_num q \<Longrightarrow> is_num r \<Longrightarrow> \<not> q < p \<Longrightarrow> q < r \<Longrightarrow> \<not> r < p" for p q r :: pyfloat
    by (cases p; cases q; cases r) auto
  show "is_num p \<Longrightarrow> is_num q \<Longrightarrow> is_num r \<Longrightarrow> \<not> q < p \<Longrightarrow> \<not> r < q \<Longrightarrow> \<not> r < p" for p q r :: pyfloat
    by (cases p; cases q; cases r) auto
qed

text \<open>The usable quotes of a registry, in its order, and the scan over them.\<close>

definition quotes :: "string list \<Rightarrow> string \<Rightarrow> string \<Rightarrow> 'w \<Rightarrow> 'w registry \<Rightarrow> ('w exchange \<times> pyfloat) list" where
  "quotes allowed symb side w reg =
     List.map_filter (\<lambda>e. map_option (\<lambda>p. (snd e, p)) (usable_quote allowed symb side w e)) reg"

lemma scan_exchanges_Some:
  "scan_exchanges allowed symb side w (Some b) reg =
     Some (foldl (\<lambda>best new. if better side (snd new) (snd best) then new else best) b
             (quotes allowed symb side w reg))"
  by (induction reg arbitrary: b) (auto simp: quotes_def map_filter_simps split: option.splits)

lemma scan_exchanges_None:
  "scan_exchanges allowed symb side w None reg =
     (case quotes allowed symb side w reg of
        [] \<Rightarrow> None
      | q # qs \<Rightarrow> Some (foldl (\<lambda>best new. if better side (snd new) (snd best) then new else best) q qs))"
proof (induction reg)
  case (Cons e es)
  then show ?case
    by (cases "usable_quote allowed symb side w e")
      (simp_all add: scan_exchanges_Some quotes_def map_filter_simps)
qed (simp add: quotes_def map_filter_simps)

lemma better_keep:
  "side = ''BUY'' \<Longrightarrow> (\<lambda>best new. if better side (snd new) (snd best) then new else best) = cheapest.keep"
  "side = ''SELL'' \<Longrightarrow> (\<lambda>best new. if better side (snd new) (snd best) then new else best) = dearest.keep"
  by (auto simp: better_def cheapest.keep_def dearest.keep_def fun_eq_iff)

lemma quotes_mem:
  "(x, p) \<in> set (quotes allowed symb side w reg) \<longleftrightarrow>
     (\<exists>name. (name, x) \<in> set reg \<and> usable_quote allowed symb side w (name, x) = Some p)"
  by (force simp: quotes_def List.map_filter_def)

section \<open>Properties\<close>

lemma found_usable:
  assumes "find_best_exchange reg raw symb side w = Inr (x, p)"
  shows "\<exists>name. (name, x) \<in> set reg \<and> usable_quote (allowed_exchanges raw) symb (str_upper side) w (name, x) = Some p"
proof -
  have fold: "foldl (\<lambda>best new. if better s (snd new) (snd best) then new else best) q qs \<in> set (q # qs)" for s qs
    and q :: "'a exchange \<times> pyfloat"
    by (induction qs arbitrary: q) auto
  obtain q qs where qs: "quotes (allowed_exchanges raw) symb (str_upper side) w reg = q # qs"
    and "foldl (\<lambda>best new. if better (str_upper side) (snd new) (snd best) then new else best) q qs = (x, p)"
    using assms by (auto simp: find_best_exchange_def scan_exchanges_None reg_all_def Let_def split: list.splits if_splits)
  then have "(x, p) \<in> set (quotes (allowed_exchanges raw) symb (str_upper side) w reg)" using fold [of "str_upper side" q qs] by simp
  then show ?thesis by (simp add: quotes_mem)
qed

lemma found_registered:
  assumes "find_best_exchange reg raw symb side w = Inr (x, p)"
  shows "\<exists>name. (name, x) \<in> set reg \<and> \<not> x_disabled x"
  using found_usable [OF assms] by (auto simp: usable_quote_def skipped_def split: if_splits)

lemma best_execution:
  assumes "\<forall>(x, p) \<in> set (quotes (allowed_exchanges raw) symb (str_upper side) w reg). is_num p"
  shows "(find_best_exchange reg raw symb side w = Inr (x, p) \<longrightarrow>
      (\<exists>name. (name, x) \<in> set reg \<and> \<not> skipped (allowed_exchanges raw) name x) \<and>
      extract_price x symb (str_upper side) w = Inr (Some p) \<and> Fin 0 < p \<and>
      (\<forall>(y, q) \<in> set (quotes (allowed_exchanges raw) symb (str_upper side) w reg).
         if str_upper side = ''BUY'' then p \<le> q else q \<le> p)) \<and>
    (is_ok (find_best_exchange reg raw symb side w) \<longleftrightarrow>
      str_upper side \<in> {''BUY'', ''SELL''} \<and>
      quotes (allowed_exchanges raw) symb (str_upper side) w reg \<noteq> [])"
proof -
  define s where "s = str_upper side"
  define qs where "qs = quotes (allowed_exchanges raw) symb s w reg"
  have num: "\<forall>q \<in> set qs. is_num (snd q)" using assms by (auto simp: qs_def s_def)
  have best: "(x, p) \<in> set qs \<and> (\<forall>(y, q) \<in> set qs. if s = ''BUY'' then p \<le> q else q \<le> p)"
    if found: "find_best_exchange reg raw symb side w = Inr (x, p)"
  proof -
    obtain q qs' where qs: "qs = q # qs'" and side: "s = ''BUY'' \<or> s = ''SELL''"
        and fold: "foldl (\<lambda>best new. if better s (snd new) (snd best) then new else best) q qs' = (x, p)"
      using found by (auto simp: find_best_exchange_def scan_exchanges_None reg_all_def qs_def [symmetric]
          s_def [symmetric] Let_def split: list.splits if_splits)
    have n: "is_num (snd q)" "\<forall>y \<in> set qs'. is_num (snd y)" using num qs by auto
    from side show ?thesis
    proof
      assume s: "s = ''BUY''"
      from cheapest.scan_best [OF n] fold have res: "(x, p) \<in> set qs" "\<forall>y \<in> set qs. \<not> snd y < p"
        unfolding better_keep(1) [OF s] qs by auto
      then have "is_num p" using num by auto
      with res num show ?thesis unfolding s by (auto simp: pyfloat_not_less)
    next
      assume s: "s = ''SELL''"
      from dearest.scan_best [OF n] fold have res: "(x, p) \<in> set qs" "\<forall>y \<in> set qs. \<not> p < snd y"
        unfolding better_keep(2) [OF s] qs by auto
      then have "is_num p" using num by auto
      with res num show ?thesis unfolding s by (auto simp: pyfloat_not_less)
    qed
  qed
  have usable: "(\<exists>name. (name, x) \<in> set reg \<and> \<not> skipped (allowed_exchanges raw) name x) \<and>
      extract_price x symb s w = Inr (Some p) \<and> Fin 0 < p" if "(x, p) \<in> set qs"
  proof -
    have "is_num p" using num that by auto
    then show ?thesis using that pyfloat_not_le [of p "Fin 0"]
      by (auto simp: qs_def quotes_mem usable_quote_def split: if_splits sum.splits option.splits)
  qed
  have "scan_exchanges (allowed_exchanges raw) symb s w None reg = None \<longleftrightarrow> qs = []"
    by (cases qs) (simp_all add: scan_exchanges_None qs_def [symmetric])
  then have "is_ok (find_best_exchange reg raw symb side w) \<longleftrightarrow> s \<in> {''BUY'', ''SELL''} \<and> qs \<noteq> []"
    by (cases "scan_exchanges (allowed_exchanges raw) symb s w None reg")
      (simp_all add: find_best_exchange_def reg_all_def s_def Let_def)
  with best usable show ?thesis unfolding s_def qs_def by blast
qed

text \<open>
  C13. Best execution. If every usable quote is a number, the router answers with an exchange of the
  registry and its own usable quote, and no usable quote is better: none is lower for a buy, none
  higher for a sell. It raises exactly when the side is not BUY or SELL in any case, or when no
  exchange has a usable quote, that is, none that is allowed, enabled and quotes without an
  exception a price that is not zero or less.
\<close>
theorem router_best_execution:
  assumes "\<forall>(x, p) \<in> set (quotes (allowed_exchanges raw) symb (str_upper side) w reg). is_num p"
  shows "(find_best_exchange reg raw symb side w = Inr (x, p) \<longrightarrow>
      (\<exists>name. (name, x) \<in> set reg \<and> \<not> skipped (allowed_exchanges raw) name x) \<and>
      extract_price x symb (str_upper side) w = Inr (Some p) \<and> Fin 0 < p \<and>
      (\<forall>(y, q) \<in> set (quotes (allowed_exchanges raw) symb (str_upper side) w reg).
         if str_upper side = ''BUY'' then p \<le> q else q \<le> p)) \<and>
    (is_ok (find_best_exchange reg raw symb side w) \<longleftrightarrow>
      str_upper side \<in> {''BUY'', ''SELL''} \<and>
      quotes (allowed_exchanges raw) symb (str_upper side) w reg \<noteq> [])"
  using assms by (rule best_execution)

lemma nan_quote_wins:
  assumes "str_upper side \<in> {''BUY'', ''SELL''}"
    and "quotes (allowed_exchanges raw) symb (str_upper side) w reg = (x, NaN) # rest"
  shows "find_best_exchange reg raw symb side w = Inr (x, NaN)"
proof -
  have "foldl (\<lambda>best new. if better s (snd new) (snd best) then new else best) (x, NaN) rest = (x, NaN)" for s
    by (induction rest) (auto simp: better_def)
  with assms show ?thesis
    by (auto simp: find_best_exchange_def scan_exchanges_None reg_all_def Let_def)
qed

text \<open>
  A not-a-number quote that comes first wins against every other quote: the router then
  answers with it, whatever the other exchanges offer.
\<close>
theorem router_nan_quote_wins:
  assumes "str_upper side \<in> {''BUY'', ''SELL''}"
    and "quotes (allowed_exchanges raw) symb (str_upper side) w reg = (x, NaN) # rest"
  shows "find_best_exchange reg raw symb side w = Inr (x, NaN)"
  using assms by (rule nan_quote_wins)

section \<open>Witnesses\<close>

text \<open>A venue with one ask for everything.\<close>

definition asking :: "string \<Rightarrow> pyfloat \<Rightarrow> unit exchange" where
  "asking name p =
     \<lparr>x_id = name, x_disabled = False, x_best_ask = Some (\<lambda>_ _. Inr (VFloat p)), x_best_bid = None,
      x_fetch_ticker = (\<lambda>_ _. Inr VNone), x_amount_precision = None, x_price_precision = None,
      x_min_notional = None, x_create_order = (\<lambda>_ _ _ _ _ w. (w, Inr VNone))\<rparr>"

lemmas routing_simps =
  quotes_def map_filter_simps usable_quote_def skipped_def asking_def extract_price_def
  allowed_exchanges_def str_strip_def py_true_def

theorem router_best_execution_witness:
  "find_best_exchange [(''A'', asking ''A'' (Fin 101)), (''B'', asking ''B'' (Fin 100))] [] ''BTC'' ''buy'' () =
     Inr (asking ''B'' (Fin 100), Fin 100)"
proof -
  let ?reg = "[(''A'', asking ''A'' (Fin 101)), (''B'', asking ''B'' (Fin 100))]"
  have up: "str_upper ''buy'' = ''BUY''" by (simp add: str_simps)
  have qs: "quotes (allowed_exchanges []) ''BTC'' ''BUY'' () ?reg =
      [(asking ''A'' (Fin 101), Fin 101), (asking ''B'' (Fin 100), Fin 100)]"
    by (simp add: routing_simps)
  have "is_ok (find_best_exchange ?reg [] ''BTC'' ''buy'' ())"
    by (subst router_best_execution [THEN conjunct2]) (simp_all add: up qs)
  then obtain x p where found: "find_best_exchange ?reg [] ''BTC'' ''buy'' () = Inr (x, p)" by (auto simp: is_ok_iff)
  have "p \<le> Fin 100" "extract_price x ''BTC'' ''BUY'' () = Inr (Some p)" "\<exists>name. (name, x) \<in> set ?reg"
    using router_best_execution [of "[]" "''BTC''" "''buy''" "()" ?reg x p] found
    by (auto simp: up qs)
  then have "x = asking ''B'' (Fin 100) \<and> p = Fin 100"
    by (auto simp: extract_price_def asking_def py_true_def)
  with found show ?thesis by simp
qed

theorem router_nan_quote_wins_witness:
  "find_best_exchange [(''A'', asking ''A'' NaN), (''B'', asking ''B'' (Fin 100))] [] ''BTC'' ''buy'' () =
     Inr (asking ''A'' NaN, NaN)"
  by (rule router_nan_quote_wins [where rest = "[(asking ''B'' (Fin 100), Fin 100)]"])
    (simp_all add: routing_simps str_simps)

end
