(* ===== verification/Execution_Pipeline.thy ===== *)
theory Execution_Pipeline
  imports Order_Lifecycle Exchange_Reports Fill_Processing Routing
begin

text \<open>
  The execution pipeline (\<open>execution/execution_pipeline.py\<close>), the execution service that feeds it
  from the bus (\<open>microservices/execution_service.py\<close>) and the older gateway
  (\<open>execution/execution_gateway.py\<close>). One call of \<open>submit\<close> is one step on the world behind the
  exchanges, the books, the recorded reports and the published events; all its clock readings are
  one argument. The ledger of the pipeline is that of its fill processor, as the runtime builds it.
\<close>

section \<open>State\<close>

record 'w pipeline =
  pl_registry :: "'w registry"
  pl_allowed :: string  \<comment> \<open>\<open>AEGIS_EXECUTION_EXCHANGES\<close>\<close>
  pl_risk :: pre_trade
  pl_fills :: processor
  pl_database :: "execution_report sink option"
  pl_bus :: "execution_event sink option"

record 'w pipe_state =
  ps_world :: 'w
  ps_fills :: fill_state
  ps_reports :: "execution_report list"
  ps_events :: "execution_event list"

record pipeline_result =
  pr_accepted :: bool
  pr_order :: order
  pr_decision :: "risk_decision option"
  pr_report :: "execution_report option"
  pr_fill :: "fill_result option"
  pr_error :: "message option"

definition pipeline_result_to_dict :: "pipeline_result \<Rightarrow> (string \<times> pyval) list" where
  "pipeline_result_to_dict r =
     [(''accepted'', VBool (pr_accepted r)), (''order_status'', VStr (status_value (o_status (pr_order r)))),
      (''correlation_id'', opt_str (o_correlation_id (pr_order r))),
      (''risk_decision'', (case pr_decision r of None \<Rightarrow> VNone | Some d \<Rightarrow> VDict (decision_to_dict d))),
      (''execution_report'', (case pr_report r of None \<Rightarrow> VNone | Some x \<Rightarrow> VDict (report_to_dict x))),
      (''fill_result'', (case pr_fill r of None \<Rightarrow> VNone | Some f \<Rightarrow> VDict (fill_result_to_dict f))),
      (''error'', (case pr_error r of None \<Rightarrow> VNone | Some m \<Rightarrow> VMsg m))]"

section \<open>Up to the risk decision\<close>

definition move_order :: "order_status \<Rightarrow> (order, unit) step" where
  "move_order st = update_by (\<lambda>ord. transition ord st)"

definition precise_amount :: "'w exchange \<Rightarrow> 'w \<Rightarrow> order \<Rightarrow> order res" where
  "precise_amount x w ord =
     (case x_amount_precision x of
        None \<Rightarrow> Inr ord
      | Some f \<Rightarrow> rbind (f (o_symbol ord) (o_quantity ord) w) (\<lambda>v.
                   rbind (py_float v) (\<lambda>q. Inr (ord\<lparr>o_quantity := q\<rparr>))))"

definition precise_price :: "'w exchange \<Rightarrow> 'w \<Rightarrow> order \<Rightarrow> order res" where
  "precise_price x w ord =
     (case o_price ord of
        None \<Rightarrow> Inr ord
      | Some p \<Rightarrow>
          (case x_price_precision x of
             None \<Rightarrow> Inr ord
           | Some f \<Rightarrow> rbind (f (o_symbol ord) p w) (\<lambda>v.
                        rbind (py_float v) (\<lambda>q. Inr (ord\<lparr>o_price := Some q\<rparr>)))))"

definition apply_precision :: "'w exchange \<Rightarrow> 'w \<Rightarrow> (order, unit) step" where
  "apply_precision x w =
     andthen (update_by (precise_amount x w)) (\<lambda>_. update_by (precise_price x w))"

definition exchange_min_notional :: "'w exchange \<Rightarrow> string \<Rightarrow> 'w \<Rightarrow> pyfloat option" where
  "exchange_min_notional x symb w =
     (case x_min_notional x of
        None \<Rightarrow> None
      | Some f \<Rightarrow>
          (case f symb w of
             Inl _ \<Rightarrow> None
           | Inr v \<Rightarrow>
               (if v = VNone then None
                else case py_float v of
                       Inl _ \<Rightarrow> None
                     | Inr q \<Rightarrow> if q \<le> Fin 0 then None else Some q)))"

definition prepare_order ::
  "'w pipeline \<Rightarrow> (string, pyfloat) pydict \<Rightarrow> 'w pipe_state \<Rightarrow> (order, 'w exchange \<times> risk_decision) step" where
  "prepare_order pl marks ps =
     andthen (query validate_order) (\<lambda>_.
     andthen (move_order VALIDATED) (\<lambda>_.
     andthen (query (\<lambda>ord. find_best_exchange (pl_registry pl) (pl_allowed pl) (o_symbol ord)
                              (side_value (o_side ord)) (ps_world ps))) (\<lambda>(x, price).
     andthen (query (\<lambda>_. if price \<le> Fin 0
                         then Inl (RuntimeError (text_msg ''Router returned invalid reference price''))
                         else Inr ())) (\<lambda>_.
     andthen (apply_precision x (ps_world ps)) (\<lambda>_.
     query (\<lambda>ord. Inr (x, pre_trade_validate (pl_risk pl) ord price (positions (fs_ledger (ps_fills ps)))
                            marks (exchange_min_notional x (o_symbol ord) (ps_world ps)))))))))"

section \<open>From the exchange to the books\<close>

type_synonym 'w in_flight = "order \<times> 'w pipe_state"

definition on_order :: "(order, 'a) step \<Rightarrow> ('w in_flight, 'a) step" where
  "on_order m = (\<lambda>(ord, ps). case m ord of (ord', r) \<Rightarrow> ((ord', ps), r))"

definition create_at :: "'w exchange \<Rightarrow> ('w in_flight, pyval) step" where
  "create_at x = (\<lambda>(ord, ps).
     case x_create_order x (o_symbol ord) (str_lower (type_value (o_type ord)))
            (str_lower (side_value (o_side ord))) (o_quantity ord) (o_price ord) (ps_world ps) of
       (w', r) \<Rightarrow> ((ord, ps\<lparr>ps_world := w'\<rparr>), r))"

definition on_books :: "('w pipe_state \<Rightarrow> 'w pipe_state res) \<Rightarrow> ('w in_flight, unit) step" where
  "on_books f = update_by (\<lambda>(ord, ps). rbind (f ps) (\<lambda>ps'. Inr (ord, ps')))"

definition record_report :: "'w pipeline \<Rightarrow> execution_report \<Rightarrow> 'w pipe_state \<Rightarrow> 'w pipe_state res" where
  "record_report pl rep ps =
     (case pl_database pl of
        None \<Rightarrow> Inr ps
      | Some db \<Rightarrow> rbind (send db rep) (\<lambda>_. Inr (ps\<lparr>ps_reports := ps_reports ps @ [rep]\<rparr>)))"

definition apply_report_status :: "execution_report \<Rightarrow> order \<Rightarrow> order" where
  "apply_report_status rep ord =
     (if r_status rep = SUBMITTED then ord
      else (case transition ord (r_status rep) of
              Inl _ \<Rightarrow> ord\<lparr>o_status := r_status rep\<rparr>
            | Inr ord' \<Rightarrow> ord')
           \<lparr>o_filled := r_filled rep, o_avg_price := r_avg_price rep, o_exchange_id := r_exchange_id rep\<rparr>)"

definition book_report :: "'w pipeline \<Rightarrow> execution_report \<Rightarrow> (string, pyfloat) pydict \<Rightarrow> string \<Rightarrow> datetime \<Rightarrow>
    ('w in_flight, fill_result) step" where
  "book_report pl rep marks uuid now = (\<lambda>(ord, ps).
     case process_fill (pl_fills pl) rep marks (o_strategy_id ord) uuid now (ps_fills ps) of
       (fs', r) \<Rightarrow> ((ord, ps\<lparr>ps_fills := fs'\<rparr>), r))"

definition event_of :: "execution_report \<Rightarrow> fill_result \<Rightarrow> execution_event" where
  "event_of rep fr =
     \<lparr>ee_correlation_id = r_correlation_id rep, ee_report = report_to_dict rep,
      ee_fill_result = fill_result_to_dict fr\<rparr>"

definition publish_event :: "'w pipeline \<Rightarrow> execution_event \<Rightarrow> 'w pipe_state \<Rightarrow> 'w pipe_state res" where
  "publish_event pl ev ps =
     (case pl_bus pl of
        None \<Rightarrow> Inr ps
      | Some bus \<Rightarrow> rbind (send bus ev) (\<lambda>_. Inr (ps\<lparr>ps_events := ps_events ps @ [ev]\<rparr>)))"

definition send_order ::
  "'w pipeline \<Rightarrow> 'w exchange \<Rightarrow> (string, pyfloat) pydict \<Rightarrow> string \<Rightarrow> datetime \<Rightarrow>
   ('w in_flight, execution_report \<times> fill_result) step" where
  "send_order pl x marks uuid now =
     andthen (on_order (move_order ROUTED)) (\<lambda>_.
     andthen (on_order (update_by (\<lambda>ord. Inr (ord\<lparr>o_exchange := VStr (x_id x)\<rparr>)))) (\<lambda>_.
     andthen (create_at x) (\<lambda>raw.
     andthen (on_order (move_order SUBMITTED)) (\<lambda>_.
     andthen (query (\<lambda>(ord, _). Inr (normalize_response ord (o_exchange ord) raw now))) (\<lambda>rep.
     andthen (on_books (record_report pl rep)) (\<lambda>_.
     andthen (on_order (update_by (\<lambda>ord. Inr (apply_report_status rep ord)))) (\<lambda>_.
     andthen (book_report pl rep marks uuid now) (\<lambda>fr.
     andthen (on_books (publish_event pl (event_of rep fr))) (\<lambda>_.
     query (\<lambda>_. Inr (rep, fr)))))))))))"

section \<open>Submitting\<close>

definition failed_result :: "order \<Rightarrow> py_exc \<Rightarrow> pipeline_result" where
  "failed_result ord e =
     \<lparr>pr_accepted = False, pr_order = ord\<lparr>o_status := FAILED\<rparr>, pr_decision = None, pr_report = None,
      pr_fill = None, pr_error = Some (exc_message e)\<rparr>"

definition submit ::
  "'w pipeline \<Rightarrow> order \<Rightarrow> (string, pyfloat) pydict \<Rightarrow> string \<Rightarrow> datetime \<Rightarrow> 'w pipe_state \<Rightarrow>
   'w pipe_state \<times> pipeline_result" where
  "submit pl ord marks uuid now ps =
     (case prepare_order pl marks ps ord of
        (ord1, Inl e) \<Rightarrow> (ps, failed_result ord1 e)
      | (ord1, Inr (x, decision)) \<Rightarrow>
          if \<not> d_allowed decision
          then (case transition ord1 REJECTED of
                  Inl e \<Rightarrow> (ps, failed_result ord1 e)
                | Inr ord2 \<Rightarrow>
                    (ps, \<lparr>pr_accepted = False, pr_order = ord2, pr_decision = Some decision,
                          pr_report = None, pr_fill = None, pr_error = None\<rparr>))
          else (case send_order pl x marks uuid now (ord1, ps) of
                  ((ord2, ps'), Inl e) \<Rightarrow> (ps', failed_result ord2 e)
                | ((ord2, ps'), Inr (rep, fr)) \<Rightarrow>
                    (ps', \<lparr>pr_accepted = True, pr_order = ord2, pr_decision = Some decision,
                           pr_report = Some rep, pr_fill = Some fr, pr_error = None\<rparr>)))"

section \<open>The execution service\<close>

record 'w execution_service =
  es_received :: nat
  es_accepted :: nat
  es_rejected :: nat
  es_failed :: nat
  es_pipe :: "'w pipe_state"

record order_request =
  or_payload :: pyval
  or_marks :: "(string, pyfloat) pydict"

definition on_order_request ::
  "'w pipeline \<Rightarrow> order_request \<Rightarrow> string \<Rightarrow> datetime \<Rightarrow> 'w execution_service \<Rightarrow> 'w execution_service" where
  "on_order_request pl ev uuid now es =
     (let es1 = es\<lparr>es_received := es_received es + 1\<rparr> in
      case decode_order (or_payload ev) now of
        Inl _ \<Rightarrow> es1\<lparr>es_failed := es_failed es1 + 1\<rparr>
      | Inr ord \<Rightarrow>
          (case submit pl ord (or_marks ev) uuid now (es_pipe es1) of
             (ps', res) \<Rightarrow>
               (let es2 = es1\<lparr>es_pipe := ps'\<rparr>;
                    es3 = (if pr_accepted res then es2\<lparr>es_accepted := es_accepted es2 + 1\<rparr>
                           else es2\<lparr>es_rejected := es_rejected es2 + 1\<rparr>)
                in (if (case pr_error res of None \<Rightarrow> False | Some m \<Rightarrow> message_true m)
                    then es3\<lparr>es_failed := es_failed es3 + 1\<rparr> else es3))))"

definition es_metrics :: "'w execution_service \<Rightarrow> (string \<times> pyval) list" where
  "es_metrics es =
     [(''received_requests'', VInt (int (es_received es))), (''accepted_requests'', VInt (int (es_accepted es))),
      (''rejected_requests'', VInt (int (es_rejected es))), (''failed_requests'', VInt (int (es_failed es)))]"

section \<open>The gateway\<close>

text \<open>
  The gateway hands its router the \<open>OrderSide\<close> member itself. \<open>OrderSide\<close> derives from \<open>str\<close> and
  \<open>Enum\<close>; \<open>str()\<close> of a member is then the name of the class and of the member.
\<close>

fun side_text :: "order_side \<Rightarrow> string" where
  "side_text BUY = ''OrderSide.BUY''"
| "side_text SELL = ''OrderSide.SELL''"

definition response_id :: "pyval \<Rightarrow> pyval res" where
  "response_id v = (case v of VDict d \<Rightarrow> Inr (get_val d ''id'')
                    | _ \<Rightarrow> Inl (AttributeError (text_msg ''object has no attribute get'')))"

definition gateway_steps ::
  "(string \<Rightarrow> string \<Rightarrow> pyfloat \<Rightarrow> 'w \<Rightarrow> ('w exchange \<times> pyfloat) res) \<Rightarrow> (order \<times> 'w, unit) step" where
  "gateway_steps router =
     andthen (query (\<lambda>(ord, _). validate_order ord)) (\<lambda>_.
     andthen (update_by (\<lambda>(ord, w). rbind (transition ord VALIDATED) (\<lambda>ord'. Inr (ord', w)))) (\<lambda>_.
     andthen (query (\<lambda>(ord, w). router (o_symbol ord) (side_text (o_side ord)) (o_quantity ord) w)) (\<lambda>(x, _).
     andthen (update_by (\<lambda>(ord, w). rbind (transition ord ROUTED)
               (\<lambda>ord'. Inr (ord'\<lparr>o_exchange := VStr (x_id x)\<rparr>, w)))) (\<lambda>_.
     andthen (\<lambda>(ord, w).
        case x_create_order x (o_symbol ord) (str_lower (type_value (o_type ord)))
               (str_lower (side_value (o_side ord))) (o_quantity ord) (o_price ord) w of
          (w', r) \<Rightarrow> ((ord, w'), r)) (\<lambda>response.
     update_by (\<lambda>(ord, w). rbind (response_id response) (\<lambda>i.
               rbind (transition (ord\<lparr>o_exchange_id := i\<rparr>) SUBMITTED) (\<lambda>ord'. Inr (ord', w)))))))))"

definition gateway_execute ::
  "(string \<Rightarrow> string \<Rightarrow> pyfloat \<Rightarrow> 'w \<Rightarrow> ('w exchange \<times> pyfloat) res) \<Rightarrow> order \<Rightarrow> 'w \<Rightarrow> order \<times> 'w" where
  "gateway_execute router ord w =
     (case gateway_steps router (ord, w) of
        ((ord', w'), Inl _) \<Rightarrow> (ord'\<lparr>o_status := FAILED\<rparr>, w')
      | ((ord', w'), Inr _) \<Rightarrow> (ord', w'))"

section \<open>Lemmas\<close>

definition same_request :: "order \<Rightarrow> order \<Rightarrow> bool" where
  "same_request a b \<longleftrightarrow> o_symbol a = o_symbol b \<and> o_side a = o_side b \<and> o_type a = o_type b \<and>
     o_strategy_id a = o_strategy_id b \<and> o_correlation_id a = o_correlation_id b"

lemma precise_request:
  "precise_amount x w ord = Inr ord' \<Longrightarrow> same_request ord' ord \<and> o_status ord' = o_status ord"
  "precise_price x w ord = Inr ord' \<Longrightarrow> same_request ord' ord \<and> o_status ord' = o_status ord"
  by (auto simp: precise_amount_def precise_price_def same_request_def res_simps split: option.splits)

lemma apply_precision_request:
  assumes "apply_precision x w ord = (ord', Inr u)"
  shows "same_request ord' ord \<and> o_status ord' = o_status ord"
  using assms by (auto simp: apply_precision_def step_simps same_request_def dest!: precise_request)

lemma prepare_orderE:
  assumes "prepare_order pl marks ps ord = (ord1, Inr (x, decision))"
  obtains price where
    "find_best_exchange (pl_registry pl) (pl_allowed pl) (o_symbol ord) (side_value (o_side ord)) (ps_world ps) =
       Inr (x, price)"
    "\<not> price \<le> Fin 0" "same_request ord1 ord" "o_status ord1 = VALIDATED" "o_status ord = CREATED"
    "decision = pre_trade_validate (pl_risk pl) ord1 price (positions (fs_ledger (ps_fills ps))) marks
       (exchange_min_notional x (o_symbol ord) (ps_world ps))"
proof -
  obtain ord0 price where steps:
      "transition ord VALIDATED = Inr ord0"
      "find_best_exchange (pl_registry pl) (pl_allowed pl) (o_symbol ord0) (side_value (o_side ord0)) (ps_world ps) =
         Inr (x, price)" "\<not> price \<le> Fin 0"
      "apply_precision x (ps_world ps) ord0 = (ord1, Inr ())"
      "decision = pre_trade_validate (pl_risk pl) ord1 price (positions (fs_ledger (ps_fills ps))) marks
         (exchange_min_notional x (o_symbol ord1) (ps_world ps))"
    using assms by (auto simp: prepare_order_def step_simps move_order_def split: if_splits)
  note prec = apply_precision_request [OF steps(4)]
  have "VALIDATED \<in> set (valid_transitions (o_status ord)) \<longleftrightarrow> o_status ord = CREATED"
    by (cases "o_status ord") auto
  with steps prec show thesis
    by (intro that [of price]) (auto simp: transition_ok same_request_def)
qed

text \<open>The order as it is sent, and as it is when the exchange has answered.\<close>

definition routed :: "'w exchange \<Rightarrow> order \<Rightarrow> order" where
  "routed x ord = ord\<lparr>o_status := ROUTED, o_exchange := VStr (x_id x)\<rparr>"

definition sent :: "'w exchange \<Rightarrow> order \<Rightarrow> 'w \<Rightarrow> 'w \<times> pyval res" where
  "sent x ord w = x_create_order x (o_symbol ord) (str_lower (type_value (o_type ord)))
     (str_lower (side_value (o_side ord))) (o_quantity ord) (o_price ord) w"

definition report_on :: "'w exchange \<Rightarrow> order \<Rightarrow> pyval \<Rightarrow> datetime \<Rightarrow> execution_report" where
  "report_on x ord raw now = normalize_response ((routed x ord)\<lparr>o_status := SUBMITTED\<rparr>) (VStr (x_id x)) raw now"

definition after_report :: "'w pipeline \<Rightarrow> execution_report \<Rightarrow> (string, pyfloat) pydict \<Rightarrow> string \<Rightarrow> datetime \<Rightarrow>
    ('w in_flight, execution_report \<times> fill_result) step" where
  "after_report pl rep marks uuid now =
     andthen (on_books (record_report pl rep)) (\<lambda>_.
     andthen (on_order (update_by (\<lambda>ord. Inr (apply_report_status rep ord)))) (\<lambda>_.
     andthen (book_report pl rep marks uuid now) (\<lambda>fr.
     andthen (on_books (publish_event pl (event_of rep fr))) (\<lambda>_.
     query (\<lambda>_. Inr (rep, fr))))))"

lemma send_order_eq:
  assumes "o_status ord = VALIDATED"
  shows "send_order pl x marks uuid now (ord, ps) =
    (case sent x ord (ps_world ps) of
       (w', Inl e) \<Rightarrow> ((routed x ord, ps\<lparr>ps_world := w'\<rparr>), Inl e)
     | (w', Inr raw) \<Rightarrow> after_report pl (report_on x ord raw now) marks uuid now
         ((routed x ord)\<lparr>o_status := SUBMITTED\<rparr>, ps\<lparr>ps_world := w'\<rparr>))"
proof -
  have step: "andthen (on_order (update_by f)) g (o1, p1) =
      (case f o1 of Inl e \<Rightarrow> ((o1, p1), Inl e) | Inr o2 \<Rightarrow> g () (o2, p1))" for f g o1 and p1 :: "'a pipe_state"
    by (auto simp: andthen_def on_order_def update_by_def split: sum.splits)
  have create: "andthen (create_at x) g (o1, p1) =
      (case sent x o1 (ps_world p1) of
         (w', Inl e) \<Rightarrow> ((o1, p1\<lparr>ps_world := w'\<rparr>), Inl e) | (w', Inr raw) \<Rightarrow> g raw (o1, p1\<lparr>ps_world := w'\<rparr>))"
    for g o1 and p1 :: "'a pipe_state"
    by (auto simp: andthen_def create_at_def sent_def split: prod.splits sum.splits)
  have same: "sent x (ord\<lparr>o_status := ROUTED, o_exchange := e\<rparr>) = sent x ord" for e
    by (simp add: sent_def fun_eq_iff)
  show ?thesis using assms unfolding after_report_def [symmetric]
    by (simp add: send_order_def move_order_def step create same routed_def report_on_def after_report_def
        split: prod.split sum.split) (simp add: andthen_run)
qed

lemma record_report_frame:
  assumes "record_report pl rep ps = Inr ps'"
  shows "ps_world ps' = ps_world ps \<and> ps_fills ps' = ps_fills ps \<and> ps_events ps' = ps_events ps \<and>
    ps_reports ps' = ps_reports ps @ (if pl_database pl = None then [] else [rep])"
  using assms by (auto simp: record_report_def rbind_Inr_iff split: option.splits)

lemma publish_event_frame:
  assumes "publish_event pl ev ps = Inr ps'"
  shows "ps_world ps' = ps_world ps \<and> ps_fills ps' = ps_fills ps \<and> ps_reports ps' = ps_reports ps \<and>
    ps_events ps' = ps_events ps @ (if pl_bus pl = None then [] else [ev])"
  using assms by (auto simp: publish_event_def rbind_Inr_iff split: option.splits)

lemma after_report_eq:
  "after_report pl rep marks uuid now (ord, ps) =
    (case record_report pl rep ps of
       Inl e \<Rightarrow> ((ord, ps), Inl e)
     | Inr ps1 \<Rightarrow>
         (case process_fill (pl_fills pl) rep marks (o_strategy_id ord) uuid now (ps_fills ps1) of
            (fs', Inl e) \<Rightarrow> ((apply_report_status rep ord, ps1\<lparr>ps_fills := fs'\<rparr>), Inl e)
          | (fs', Inr fr) \<Rightarrow>
              (case publish_event pl (event_of rep fr) (ps1\<lparr>ps_fills := fs'\<rparr>) of
                 Inl e \<Rightarrow> ((apply_report_status rep ord, ps1\<lparr>ps_fills := fs'\<rparr>), Inl e)
               | Inr ps2 \<Rightarrow> ((apply_report_status rep ord, ps2), Inr (rep, fr)))))"
proof -
  have books: "andthen (on_books f) g (o1, p1) =
      (case f p1 of Inl e \<Rightarrow> ((o1, p1), Inl e) | Inr p2 \<Rightarrow> g () (o1, p2))" for f g o1 and p1 :: "'a pipe_state"
    by (auto simp: andthen_def on_books_def update_by_def rbind_def split: sum.splits)
  have ord1: "andthen (on_order (update_by (\<lambda>ord. Inr (h ord)))) g (o1, p1) = g () (h o1, p1)"
    for h g o1 and p1 :: "'a pipe_state"
    by (simp add: andthen_def on_order_def update_by_def)
  have book: "andthen (book_report pl rep marks uuid now) g (o1, p1) =
      (case process_fill (pl_fills pl) rep marks (o_strategy_id o1) uuid now (ps_fills p1) of
         (fs', Inl e) \<Rightarrow> ((o1, p1\<lparr>ps_fills := fs'\<rparr>), Inl e) | (fs', Inr fr) \<Rightarrow> g fr (o1, p1\<lparr>ps_fills := fs'\<rparr>))"
    for g o1 and p1 :: "'a pipe_state"
    by (auto simp: andthen_def book_report_def split: prod.splits sum.splits)
  have strat: "o_strategy_id (apply_report_status rep ord) = o_strategy_id ord"
    by (auto simp: apply_report_status_def transition_def)
  show ?thesis
    unfolding after_report_def books ord1 book strat query_def ..
qed

lemma after_report_world:
  "ps_world (snd (fst (after_report pl rep marks uuid now (ord, ps)))) = ps_world ps"
  using record_report_frame publish_event_frame
  by (fastforce simp: after_report_eq split: sum.splits prod.splits)

lemma after_report_bus:
  assumes "pl_bus pl = Some bus" "\<forall>ev. bus ev \<noteq> None"
  shows "snd (fst (after_report pl rep marks uuid now s)) =
      snd (fst (after_report (pl\<lparr>pl_bus := None\<rparr>) rep marks uuid now s)) \<and>
    \<not> is_ok (snd (after_report pl rep marks uuid now s))"
proof (cases s)
  case (Pair o1 p1)
  let ?q = "pl\<lparr>pl_bus := None\<rparr>"
  have rec: "record_report ?q = record_report pl" by (simp add: record_report_def fun_eq_iff)
  have pub: "publish_event ?q ev p = Inr p" "\<exists>e. publish_event pl ev p = Inl e" for ev p
    using assms by (auto simp: publish_event_def send_def split: option.splits)
  obtain e where e: "publish_event pl ev p = Inl (e ev p)" for ev p using pub(2) by metis
  show ?thesis unfolding Pair after_report_eq rec pub(1) e by (auto split: sum.splits prod.splits)
qed

lemma apply_report_status_status [simp]: "o_status ord = SUBMITTED \<Longrightarrow> o_status (apply_report_status rep ord) = r_status rep"
  by (auto simp: apply_report_status_def transition_def)

text \<open>What an accepted order has been through after the exchange answered.\<close>

lemma after_reportE:
  assumes "after_report pl rep marks uuid now (ord, ps) = ((ord', ps'), Inr (rep', fr))"
  obtains fs' where "rep' = rep" "ord' = apply_report_status rep ord"
    "process_fill (pl_fills pl) rep marks (o_strategy_id ord) uuid now (ps_fills ps) = (fs', Inr fr)"
    "ps_fills ps' = fs'" "ps_world ps' = ps_world ps"
    "ps_reports ps' = ps_reports ps @ (if pl_database pl = None then [] else [rep])"
    "ps_events ps' = ps_events ps @ (if pl_bus pl = None then [] else [event_of rep fr])"
proof -
  obtain ps1 where rec: "record_report pl rep ps = Inr ps1"
    using assms by (auto simp: after_report_eq split: sum.splits)
  note ps1 = record_report_frame [OF rec]
  obtain fs' r where book: "process_fill (pl_fills pl) rep marks (o_strategy_id ord) uuid now (ps_fills ps) = (fs', r)"
    by fastforce
  with assms rec ps1 obtain fr1 where r: "r = Inr fr1" by (cases r) (auto simp: after_report_eq)
  with assms rec ps1 book obtain ps2 where "publish_event pl (event_of rep fr1) (ps1\<lparr>ps_fills := fs'\<rparr>) = Inr ps2"
    by (cases "publish_event pl (event_of rep fr1) (ps1\<lparr>ps_fills := fs'\<rparr>)") (auto simp: after_report_eq)
  with assms rec ps1 book r publish_event_frame [OF this] show thesis
    by (intro that [of fs']) (auto simp: after_report_eq)
qed

lemma prepare_order_untouched:
  assumes "prepare_order pl marks ps ord = (ord1, Inr v)"
  shows "o_exchange_id ord1 = o_exchange_id ord \<and> o_filled ord1 = o_filled ord"
proof -
  have prec: "precise_amount x w a = Inr b \<or> precise_price x w a = Inr b \<Longrightarrow>
      o_exchange_id b = o_exchange_id a \<and> o_filled b = o_filled a" for x w a b
    by (auto simp: precise_amount_def precise_price_def res_simps split: option.splits)
  show ?thesis
    using assms by (auto simp: prepare_order_def step_simps move_order_def apply_precision_def transition_ok
        dest!: prec [OF disjI1] prec [OF disjI2] split: if_splits)
qed

lemma prepare_keeps_quantity:
  assumes "prepare_order pl marks ps ord = (ord1, Inr (x, decision))" "x_amount_precision x = None"
  shows "o_quantity ord1 = o_quantity ord"
proof -
  have "precise_price x w a = Inr b \<Longrightarrow> o_quantity b = o_quantity a" for w a b
    by (auto simp: precise_price_def res_simps split: option.splits)
  then show ?thesis
    using assms by (auto simp: prepare_order_def step_simps move_order_def apply_precision_def transition_ok
        precise_amount_def split: if_splits)
qed

lemma report_status_final:
  "r_status (normalize_response ord exch raw now) \<in> {SUBMITTED, PARTIALLY_FILLED, FILLED, CANCELLED, REJECTED, FAILED}"
proof -
  have "mapped_status d \<in> {SUBMITTED, PARTIALLY_FILLED, FILLED, CANCELLED, REJECTED, FAILED}" for d
    by (auto simp: mapped_status_def dict_get_def status_map_def)
  then show ?thesis by (auto simp: normalize_response_def final_status_def Let_def)
qed

text \<open>The two ways a call ends without an order at an exchange, and the way it goes through.\<close>

lemma submit_cases:
  assumes "submit pl ord marks uuid now ps = (ps', res)"
  obtains (unprepared) e ord1 where "prepare_order pl marks ps ord = (ord1, Inl e)" "ps' = ps" "res = failed_result ord1 e"
    | (refused) ord1 x decision where "prepare_order pl marks ps ord = (ord1, Inr (x, decision))"
        "\<not> d_allowed decision" "ps' = ps"
        "res = \<lparr>pr_accepted = False, pr_order = ord1\<lparr>o_status := REJECTED\<rparr>, pr_decision = Some decision,
                pr_report = None, pr_fill = None, pr_error = None\<rparr>"
    | (unanswered) ord1 x decision w' e where "prepare_order pl marks ps ord = (ord1, Inr (x, decision))"
        "d_allowed decision" "sent x ord1 (ps_world ps) = (w', Inl e)" "ps' = ps\<lparr>ps_world := w'\<rparr>"
        "res = failed_result (routed x ord1) e"
    | (answered) ord1 x decision w' raw r ord2 where "prepare_order pl marks ps ord = (ord1, Inr (x, decision))"
        "d_allowed decision" "sent x ord1 (ps_world ps) = (w', Inr raw)"
        "after_report pl (report_on x ord1 raw now) marks uuid now
           ((routed x ord1)\<lparr>o_status := SUBMITTED\<rparr>, ps\<lparr>ps_world := w'\<rparr>) = ((ord2, ps'), r)"
        "res = (case r of Inl e \<Rightarrow> failed_result ord2 e
                | Inr (rep, fr) \<Rightarrow> \<lparr>pr_accepted = True, pr_order = ord2, pr_decision = Some decision,
                           pr_report = Some rep, pr_fill = Some fr, pr_error = None\<rparr>)"
proof (cases "snd (prepare_order pl marks ps ord)")
  case (Inl e)
  with assms unprepared show thesis by (cases "prepare_order pl marks ps ord") (auto simp: submit_def)
next
  case (Inr v)
  then obtain ord1 x decision where prep: "prepare_order pl marks ps ord = (ord1, Inr (x, decision))"
    by (metis prod.collapse)
  then have valid: "o_status ord1 = VALIDATED" by (auto elim: prepare_orderE)
  show thesis
  proof (cases "d_allowed decision")
    case False
    with assms prep valid show thesis by (intro refused [OF prep False]) (auto simp: submit_def)
  next
    case True
    obtain w' r where at: "sent x ord1 (ps_world ps) = (w', r)" by fastforce
    show thesis
    proof (cases r)
      case (Inl e)
      with assms prep True at valid show thesis
        by (intro unanswered [OF prep True]) (auto simp: submit_def send_order_eq)
    next
      case (Inr raw)
      obtain ord2 ps2 r2 where rest: "after_report pl (report_on x ord1 raw now) marks uuid now
          ((routed x ord1)\<lparr>o_status := SUBMITTED\<rparr>, ps\<lparr>ps_world := w'\<rparr>) = ((ord2, ps2), r2)"
        by (metis prod.collapse)
      from assms prep True at Inr valid rest have "ps' = ps2" "res = (case r2 of Inl e \<Rightarrow> failed_result ord2 e
                | Inr (rep, fr) \<Rightarrow> \<lparr>pr_accepted = True, pr_order = ord2, pr_decision = Some decision,
                           pr_report = Some rep, pr_fill = Some fr, pr_error = None\<rparr>)"
        by (auto simp: submit_def send_order_eq split: sum.splits)
      with answered [OF prep True] at Inr rest show thesis by simp
    qed
  qed
qed

section \<open>Properties\<close>

lemma sent_only_approved:
  assumes "submit pl ord marks uuid now ps = (ps', res)"
  shows "ps' = ps \<or>
    (\<exists>x price ord1.
       o_status ord = CREATED \<and> same_request ord1 ord \<and>
       find_best_exchange (pl_registry pl) (pl_allowed pl) (o_symbol ord) (side_value (o_side ord)) (ps_world ps) =
         Inr (x, price) \<and> \<not> price \<le> Fin 0 \<and>
       d_allowed (pre_trade_validate (pl_risk pl) ord1 price (positions (fs_ledger (ps_fills ps))) marks
         (exchange_min_notional x (o_symbol ord) (ps_world ps))) \<and>
       ps_world ps' = fst (x_create_order x (o_symbol ord) (str_lower (type_value (o_type ord)))
         (str_lower (side_value (o_side ord))) (o_quantity ord1) (o_price ord1) (ps_world ps)))"
  using assms
proof (cases rule: submit_cases)
  case (unanswered ord1 x decision w' e)
  from unanswered(1) obtain price where p: "o_status ord = CREATED" "same_request ord1 ord" "\<not> price \<le> Fin 0"
      "find_best_exchange (pl_registry pl) (pl_allowed pl) (o_symbol ord) (side_value (o_side ord)) (ps_world ps) = Inr (x, price)"
      "decision = pre_trade_validate (pl_risk pl) ord1 price (positions (fs_ledger (ps_fills ps))) marks
         (exchange_min_notional x (o_symbol ord) (ps_world ps))"
    by (rule prepare_orderE)
  with unanswered(2-4) show ?thesis
    by (intro disjI2 exI [of _ x] exI [of _ price] exI [of _ ord1]) (auto simp: sent_def same_request_def)
next
  case (answered ord1 x decision w' raw r ord2)
  from answered(1) obtain price where p: "o_status ord = CREATED" "same_request ord1 ord" "\<not> price \<le> Fin 0"
      "find_best_exchange (pl_registry pl) (pl_allowed pl) (o_symbol ord) (side_value (o_side ord)) (ps_world ps) = Inr (x, price)"
      "decision = pre_trade_validate (pl_risk pl) ord1 price (positions (fs_ledger (ps_fills ps))) marks
         (exchange_min_notional x (o_symbol ord) (ps_world ps))"
    by (rule prepare_orderE)
  have "ps_world ps' = w'"
    using answered(4) after_report_world [of pl "report_on x ord1 raw now" marks uuid now
        "(routed x ord1)\<lparr>o_status := SUBMITTED\<rparr>" "ps\<lparr>ps_world := w'\<rparr>"] by simp
  with p answered(2,3) show ?thesis
    by (intro disjI2 exI [of _ x] exI [of _ price] exI [of _ ord1]) (auto simp: sent_def same_request_def)
qed auto

text \<open>
  C4. No order reaches an exchange unapproved. Whatever \<open>submit\<close> returns, either nothing at all
  changed outside the order, or the order was new and valid, the router chose an exchange with a price
  that is not zero or less, the pre-trade validator allowed the very order that was sent, against the
  books as they were, and the world is what one \<open>create_order\<close> at that exchange made of it.
\<close>
theorem no_order_without_approval:
  assumes "submit pl ord marks uuid now ps = (ps', res)"
  shows "ps' = ps \<or>
    (\<exists>x price ord1.
       o_status ord = CREATED \<and> same_request ord1 ord \<and>
       find_best_exchange (pl_registry pl) (pl_allowed pl) (o_symbol ord) (side_value (o_side ord)) (ps_world ps) =
         Inr (x, price) \<and> \<not> price \<le> Fin 0 \<and>
       d_allowed (pre_trade_validate (pl_risk pl) ord1 price (positions (fs_ledger (ps_fills ps))) marks
         (exchange_min_notional x (o_symbol ord) (ps_world ps))) \<and>
       ps_world ps' = fst (x_create_order x (o_symbol ord) (str_lower (type_value (o_type ord)))
         (str_lower (side_value (o_side ord))) (o_quantity ord1) (o_price ord1) (ps_world ps)))"
  using assms by (rule sent_only_approved)

text \<open>
  C6. The three outcomes. An accepted order carries the status of its execution report, which is never
  an unsubmitted one; its fill, if the report has any, is booked as exactly one trade, and the bus,
  if there is one, gets exactly one event. A refusal without an error leaves the order REJECTED and
  everything else untouched, and the validator gave it at least one reason. An error leaves the
  order FAILED and not accepted.
\<close>
theorem submit_outcomes:
  assumes "submit pl ord marks uuid now ps = (ps', res)"
  shows "(pr_accepted res \<longrightarrow> (\<exists>rep fr. pr_report res = Some rep \<and> pr_fill res = Some fr \<and> pr_error res = None \<and>
       o_status (pr_order res) = r_status rep \<and>
       r_status rep \<in> {SUBMITTED, PARTIALLY_FILLED, FILLED, CANCELLED, REJECTED, FAILED} \<and>
       length (l_trades (fs_ledger (ps_fills ps'))) =
         length (l_trades (fs_ledger (ps_fills ps))) + (if has_fill rep then 1 else 0) \<and>
       length (ps_events ps') = length (ps_events ps) + (if pl_bus pl = None then 0 else 1))) \<and>
    (\<not> pr_accepted res \<and> pr_error res = None \<longrightarrow> o_status (pr_order res) = REJECTED \<and> ps' = ps \<and>
       (\<exists>d. pr_decision res = Some d \<and> d_reasons d \<noteq> [])) \<and>
    (pr_error res \<noteq> None \<longrightarrow> \<not> pr_accepted res \<and> o_status (pr_order res) = FAILED)"
  using assms
proof (cases rule: submit_cases)
  case (refused ord1 x decision)
  then have "d_reasons decision \<noteq> []"
    by (auto elim!: prepare_orderE simp: pre_trade_validate_def Let_def split: prod.splits)
  with refused show ?thesis by simp
next
  case (answered ord1 x decision w' raw r ord2)
  show ?thesis
  proof (cases r)
    case (Inr v)
    then obtain rep fr where v: "r = Inr (rep, fr)" by (cases v) auto
    from answered(4) [unfolded v] show ?thesis
    proof (cases rule: after_reportE)
      case (1 fs')
      have rep: "rep = report_on x ord1 raw now" using 1(1) by simp
      note books = process_fill_books [OF 1(3) [folded rep]]
      have "has_fill rep \<longrightarrow> is_ok (apply_fill (fs_ledger (ps_fills ps))
          (fill_of_report rep (o_strategy_id (routed x ord1\<lparr>o_status := SUBMITTED\<rparr>)) uuid) now) \<and>
          \<not> r_avg_price rep \<le> Fin 0"
        using 1(3) by (auto simp: rep process_fill_def is_ok_iff split: sum.splits if_splits)
      with books have "length (l_trades (fs_ledger fs')) =
          length (l_trades (fs_ledger (ps_fills ps))) + (if has_fill rep then 1 else 0)" by auto
      moreover have "r_status rep \<in> {SUBMITTED, PARTIALLY_FILLED, FILLED, CANCELLED, REJECTED, FAILED}"
        unfolding rep report_on_def by (rule report_status_final)
      ultimately show ?thesis using answered(5) v 1 by auto
    qed
  qed (use answered in \<open>auto simp: failed_result_def\<close>)
qed (auto simp: failed_result_def)

text \<open>
  C27. A failing bus hides bookings. If the bus raises on every event, then \<open>submit\<close> sends, records and
  books exactly what it does without a bus, and yet accepts no order: every order that would have
  been accepted comes back FAILED, with its fill in the ledger.
\<close>
theorem failing_bus_hides_bookings:
  assumes "pl_bus pl = Some bus" and "\<forall>ev. bus ev \<noteq> None"
  shows "fst (submit pl ord marks uuid now ps) = fst (submit (pl\<lparr>pl_bus := None\<rparr>) ord marks uuid now ps) \<and>
    \<not> pr_accepted (snd (submit pl ord marks uuid now ps)) \<and>
    (pr_accepted (snd (submit (pl\<lparr>pl_bus := None\<rparr>) ord marks uuid now ps)) \<longrightarrow>
       o_status (pr_order (snd (submit pl ord marks uuid now ps))) = FAILED)"
proof -
  let ?q = "pl\<lparr>pl_bus := None\<rparr>"
  have prep: "prepare_order ?q marks ps = prepare_order pl marks ps" by (simp add: prepare_order_def)
  note after = after_report_bus [OF assms]
  show ?thesis
  proof (cases "prepare_order pl marks ps ord")
    case (Pair ord1 r)
    show ?thesis
    proof (cases r)
      case (Inl e)
      then show ?thesis by (simp add: submit_def prep Pair failed_result_def)
    next
      case (Inr v)
      obtain x decision where v: "v = (x, decision)" by (cases v)
      then have valid: "o_status ord1 = VALIDATED" using Pair Inr by (auto elim: prepare_orderE)
      show ?thesis
      proof (cases "sent x ord1 (ps_world ps)")
        case (Pair w' answer)
        let ?run = "\<lambda>pl. after_report pl (report_on x ord1 (projr answer) now) marks uuid now
            ((routed x ord1)\<lparr>o_status := SUBMITTED\<rparr>, ps\<lparr>ps_world := w'\<rparr>)"
        obtain o2 p2 e where run: "?run pl = ((o2, p2), Inl e)"
          using after by (metis is_ok.elims(3) prod.collapse)
        obtain o3 r3 where silent: "?run ?q = ((o3, p2), r3)" using after run by (metis fst_conv prod.collapse snd_conv)
        show ?thesis
          using Pair \<open>prepare_order pl marks ps ord = (ord1, r)\<close> Inr v valid run silent
          by (cases answer; cases r3)
            (auto simp: submit_def prep send_order_eq failed_result_def split: sum.splits)
      qed
    qed
  qed
qed

text \<open>
  A resting order keeps no trace of its exchange order: when the report of an accepted order is
  still SUBMITTED, the order keeps the exchange id and the filled quantity it came with, whatever
  id the exchange gave it.
\<close>
theorem resting_order_has_no_id:
  assumes "submit pl ord marks uuid now ps = (ps', res)"
    and "pr_report res = Some rep" and "r_status rep = SUBMITTED"
  shows "o_status (pr_order res) = SUBMITTED \<and> o_exchange_id (pr_order res) = o_exchange_id ord \<and>
    o_filled (pr_order res) = o_filled ord"
  using assms(1)
proof (cases rule: submit_cases)
  case (answered ord1 x decision w' raw r ord2)
  then obtain fr where r: "r = Inr (rep, fr)" and res: "pr_order res = ord2"
    using assms(2) by (cases r) (auto simp: failed_result_def)
  have ord1: "o_exchange_id ord1 = o_exchange_id ord \<and> o_filled ord1 = o_filled ord"
    using prepare_order_untouched [OF answered(1)] .
  from answered(4) [unfolded r] have "ord2 = apply_report_status rep ((routed x ord1)\<lparr>o_status := SUBMITTED\<rparr>)"
    by (auto elim: after_reportE)
  with ord1 res assms(3) show ?thesis by (simp add: apply_report_status_def routed_def)
qed (use assms(2) in \<open>auto simp: failed_result_def\<close>)

text \<open>
  A not-a-number quote opens the gate. If the first usable quote for a new, valid order is not a
  number and the exchange rounds nothing, then an order of any size is sent to that exchange, past
  every limit of a validator whose guard its constructor accepted.
\<close>
theorem nan_quote_sends_any_size:
  assumes "new_portfolio_guard mg mn mw = Inr (pt_guard (pl_risk pl))"
    and "quotes (allowed_exchanges (pl_allowed pl)) (o_symbol ord) (side_value (o_side ord)) (ps_world ps)
           (pl_registry pl) = (x, NaN) # rest"
    and "validate_order ord = Inr True" and "o_status ord = CREATED"
    and "x_amount_precision x = None" and "x_price_precision x = None"
  shows "ps_world (fst (submit pl ord marks uuid now ps)) =
    fst (x_create_order x (o_symbol ord) (str_lower (type_value (o_type ord)))
      (str_lower (side_value (o_side ord))) (o_quantity ord) (o_price ord) (ps_world ps))"
proof -
  let ?ord = "ord\<lparr>o_status := VALIDATED\<rparr>"
  have sides: "side_value sd \<in> {''BUY'', ''SELL''}" for sd by (cases sd) simp_all
  have route: "find_best_exchange (pl_registry pl) (pl_allowed pl) (o_symbol ord) (side_value (o_side ord))
      (ps_world ps) = Inr (x, NaN)"
    using assms(2) sides by (intro nan_quote_wins) (simp_all only: values_upper)
  have prec: "apply_precision x w o1 = (o1, Inr ())" for w o1
    using assms(5,6) by (auto simp: apply_precision_def andthen_def update_by_def precise_amount_def
        precise_price_def split: option.splits)
  have pos: "\<not> o_quantity ?ord \<le> Fin 0" using assms(3) by (auto simp: validate_order_def split: if_splits)
  obtain decision where prep: "prepare_order pl marks ps ord = (?ord, Inr (x, decision))" "d_allowed decision"
    using nan_price_allowed [OF assms(1) pos]
    by (simp add: prepare_order_def andthen_run move_order_def assms(3,4) route
        andthen_def [of "apply_precision _ _"] prec query_def)
  have same: "x_create_order x (o_symbol ord) (str_lower (type_value (o_type ord)))
      (str_lower (side_value (o_side ord))) (o_quantity ord) (o_price ord) (ps_world ps) = sent x ?ord (ps_world ps)"
    by (simp add: sent_def)
  obtain ps' res where run: "submit pl ord marks uuid now ps = (ps', res)" by fastforce
  then have "ps_world ps' = fst (sent x ?ord (ps_world ps))"
  proof (cases rule: submit_cases)
    case (answered ord1 x' decision' w' raw r ord2)
    then have "ps_world ps' = w'"
      using after_report_world [of pl "report_on x' ord1 raw now" marks uuid now
        "(routed x' ord1)\<lparr>o_status := SUBMITTED\<rparr>" "ps\<lparr>ps_world := w'\<rparr>"] by simp
    then show ?thesis using answered(1,3) prep by auto
  qed (use prep in auto)
  then show ?thesis by (simp add: run same)
qed

text \<open>
  The gateway cannot submit through the smart router. It hands the router the text of the enum
  member, which is no side the router knows: every order comes back FAILED and no exchange is asked.
\<close>
theorem gateway_never_submits:
  "snd (gateway_execute (\<lambda>symb side quantity. find_best_exchange reg allowed symb side) ord w) = w \<and>
   o_status (fst (gateway_execute (\<lambda>symb side quantity. find_best_exchange reg allowed symb side) ord w)) = FAILED"
proof -
  have bad: "find_best_exchange reg allowed symb (side_text sd) w =
      Inl (ValueError (text_msg ''side must be BUY or SELL''))" for symb sd w
    by (cases sd) (simp_all add: find_best_exchange_def str_simps)
  show ?thesis
    by (auto simp: gateway_execute_def gateway_steps_def andthen_run bad rbind_Inr_iff split: sum.splits)
qed

text \<open>A sequence of requests, each with its fresh identifier and clock, and those that do not decode.\<close>

definition serve_requests ::
  "'w pipeline \<Rightarrow> (order_request \<times> string \<times> datetime) list \<Rightarrow> 'w execution_service \<Rightarrow> 'w execution_service" where
  "serve_requests pl = fold (\<lambda>(ev, uuid, now). on_order_request pl ev uuid now)"

definition undecodable :: "(order_request \<times> string \<times> datetime) list \<Rightarrow> nat" where
  "undecodable reqs = length (filter (\<lambda>(ev, uuid, now). \<not> is_ok (decode_order (or_payload ev) now)) reqs)"

text \<open>
  The service counts every request once. Over any sequence of requests from zero, the accepted and
  the rejected requests and those that do not decode are all that were received; the failed ones are
  at least the undecodable ones, and at most those and the rejected ones.
\<close>
theorem service_counts_requests:
  assumes "es_received es = 0" "es_accepted es = 0" "es_rejected es = 0" "es_failed es = 0"
  shows "es_received (serve_requests pl reqs es) = length reqs \<and>
    es_accepted (serve_requests pl reqs es) + es_rejected (serve_requests pl reqs es) + undecodable reqs = length reqs \<and>
    undecodable reqs \<le> es_failed (serve_requests pl reqs es) \<and>
    es_failed (serve_requests pl reqs es) \<le> undecodable reqs + es_rejected (serve_requests pl reqs es)"
proof (induction reqs rule: rev_induct)
  case Nil
  then show ?case using assms(1-4) by (simp add: serve_requests_def undecodable_def)
next
  case (snoc req reqs)
  obtain ev uuid now where req: "req = (ev, uuid, now)" by (cases req)
  define s where "s = serve_requests pl reqs es"
  have step: "serve_requests pl (reqs @ [req]) es = on_order_request pl ev uuid now s"
    by (simp add: serve_requests_def s_def req)
  have undec: "undecodable (reqs @ [req]) = undecodable reqs + (if is_ok (decode_order (or_payload ev) now) then 0 else 1)"
    by (simp add: undecodable_def req)
  note IH = snoc.IH [folded s_def]
  show ?case
  proof (cases "decode_order (or_payload ev) now")
    case (Inl e)
    then show ?thesis unfolding step undec using IH by (simp add: on_order_request_def Let_def)
  next
    case (Inr ord)
    obtain ps' res where sub: "submit pl ord (or_marks ev) uuid now (es_pipe s) = (ps', res)" by fastforce
    have "pr_error res \<noteq> None \<Longrightarrow> \<not> pr_accepted res"
      using sub by (cases rule: submit_cases) (auto simp: failed_result_def split: sum.splits prod.splits)
    then show ?thesis unfolding step undec using IH Inr sub
      by (auto simp: on_order_request_def Let_def split: option.splits)
  qed
qed

section \<open>Witnesses\<close>

text \<open>A venue with one ask that fills every order at it; its world is the list of what it was sent.\<close>

definition filling :: "pyfloat \<Rightarrow> string \<Rightarrow> pyfloat list exchange" where
  "filling p st =
     \<lparr>x_id = ''X'', x_disabled = False, x_best_ask = Some (\<lambda>_ _. Inr (VFloat p)), x_best_bid = None,
      x_fetch_ticker = (\<lambda>_ _. Inr VNone), x_amount_precision = None, x_price_precision = None,
      x_min_notional = None,
      x_create_order = (\<lambda>_ _ _ q _ w. (w @ [q], Inr (VDict [(''id'', VInt 7), (''status'', VStr st),
         (''filled'', VFloat (if st = ''closed'' then q else Fin 0)), (''average'', VFloat (Fin 5))])))\<rparr>"

definition sample_pipeline :: "pyfloat \<Rightarrow> string \<Rightarrow> execution_event sink option \<Rightarrow> pyfloat list pipeline" where
  "sample_pipeline p st bus =
     \<lparr>pl_registry = [(''X'', filling p st)], pl_allowed = [],
      pl_risk = \<lparr>pt_guard = \<lparr>g_max_gross = Fin 20, g_max_net = Fin 20, g_max_weight = Fin 1\<rparr>,
                 pt_max_order = Fin 10, pt_min_order = Fin 1\<rparr>,
      pl_fills = sample_processor None, pl_database = None, pl_bus = bus\<rparr>"

definition sample_market :: "real \<Rightarrow> order" where
  "sample_market q = new_order ''BTC'' BUY (Fin q) MARKET None VNone ''cid'' sample_time"

definition empty_pipe :: "pyfloat list pipe_state" where
  "empty_pipe = \<lparr>ps_world = [], ps_fills = empty_fill_state, ps_reports = [], ps_events = []\<rparr>"

lemma sample_route:
  "find_best_exchange [(''X'', filling p st)] [] ''BTC'' ''BUY'' w =
     (if p \<le> Fin 0 \<or> p = Fin 0
      then Inl (RuntimeError [Txt ''No routable exchange price found for '', Str ''BTC'', Txt '' '', Str ''BUY''])
      else Inr (filling p st, p))"
  by (auto simp: find_best_exchange_def reg_all_def usable_quote_def skipped_def filling_def extract_price_def
      allowed_exchanges_def str_strip_def py_true_def str_simps)

lemma sample_prepare:
  "prepare_order (sample_pipeline (Fin 5) st bus) [] empty_pipe (sample_market 2) =
     ((sample_market 2)\<lparr>o_status := VALIDATED\<rparr>,
      Inr (filling (Fin 5) st, \<lparr>d_allowed = True, d_reasons = [], d_gross = Fin 10, d_net = Fin 10, d_weight = Fin 1\<rparr>))"
  by (simp add: prepare_order_def andthen_run move_order_def sample_market_def new_order_def validate_order_def
      sample_pipeline_def empty_pipe_def sample_route)
    (simp add: andthen_def apply_precision_def update_by_def precise_amount_def precise_price_def filling_def
      query_def exchange_min_notional_def empty_fill_state_def new_ledger_def positions_def
      pre_trade_validate_def projection_def exposure_calculate_def order_notional_def pre_trade_reasons_def
      effective_min_def Let_def)

definition sample_sent_report :: "string \<Rightarrow> execution_report" where
  "sample_sent_report st = report_on (filling (Fin 5) st) ((sample_market 2)\<lparr>o_status := VALIDATED\<rparr>)
     (VDict [(''id'', VInt 7), (''status'', VStr st),
         (''filled'', VFloat (if st = ''closed'' then Fin 2 else Fin 0)), (''average'', VFloat (Fin 5))]) sample_time"

lemma sample_report_fields:
  "r_symbol (sample_sent_report st) = ''BTC''" "r_side (sample_sent_report st) = ''BUY''"
  "r_filled (sample_sent_report st) = (if st = ''closed'' then Fin 2 else Fin 0)"
  "r_avg_price (sample_sent_report st) = Fin 5" "r_fee (sample_sent_report st) = Fin 0"
  "r_status (sample_sent_report ''closed'') = FILLED" "r_status (sample_sent_report ''open'') = SUBMITTED"
  by (simp_all add: sample_sent_report_def report_on_def normalize_response_def payload_of_def dict_simps
      Let_def routed_def sample_market_def new_order_def mapped_status_def dict_get_def status_map_def
      final_status_def extract_fee_def add_fee_value_def add_entries_def str_simps)

lemma sample_fill_processed:
  "\<exists>fs' fr. process_fill (sample_processor None) (sample_sent_report ''closed'') [] VNone ''t'' sample_time
      empty_fill_state = (fs', Inr fr) \<and> length (l_trades (fs_ledger fs')) = 1"
  by (simp add: process_fill_def sample_report_fields sample_processor_def empty_fill_state_def has_fill_def
      fill_of_report_def apply_fill_def fill_checks_def apply_signed_fill_def signed_delta_def mark_positions_def
      new_ledger_def new_position_def EPSILON_def record_trade_def save_state_def send_def Let_def str_simps)

text \<open>The sample order, filled or resting, on a pipeline without a bus.\<close>

lemma sample_submit:
  "\<exists>ps' res. submit (sample_pipeline (Fin 5) ''closed'' None) (sample_market 2) [] ''t'' sample_time empty_pipe =
      (ps', res) \<and> pr_accepted res \<and> ps_world ps' = [Fin 2] \<and> length (l_trades (fs_ledger (ps_fills ps'))) = 1"
  "\<exists>ps' res. submit (sample_pipeline (Fin 5) ''open'' None) (sample_market 2) [] ''t'' sample_time empty_pipe =
      (ps', res) \<and> pr_report res = Some (sample_sent_report ''open'')"
proof -
  have sent: "sent (filling (Fin 5) st) ((sample_market 2)\<lparr>o_status := VALIDATED\<rparr>) [] =
      ([Fin 2], Inr (VDict [(''id'', VInt 7), (''status'', VStr st),
         (''filled'', VFloat (if st = ''closed'' then Fin 2 else Fin 0)), (''average'', VFloat (Fin 5))]))" for st
    by (simp add: sent_def filling_def sample_market_def new_order_def)
  have valid: "o_status ((sample_market 2)\<lparr>o_status := VALIDATED\<rparr>) = VALIDATED" by simp
  have strat: "o_strategy_id ((routed x ((sample_market 2)\<lparr>o_status := VALIDATED\<rparr>))\<lparr>o_status := SUBMITTED\<rparr>) = VNone"
    for x :: "pyfloat list exchange"
    by (simp add: routed_def sample_market_def new_order_def)
  have empty: "ps_world empty_pipe = []" "ps_fills empty_pipe = empty_fill_state" by (simp_all add: empty_pipe_def)
  have pipe: "pl_database (sample_pipeline p st b) = None" "pl_bus (sample_pipeline p st b) = b"
      "pl_fills (sample_pipeline p st b) = sample_processor None" for p st b
    by (simp_all add: sample_pipeline_def)
  have quiet: "record_report (sample_pipeline p st None) rep q = Inr q"
      "publish_event (sample_pipeline p st None) ev q = Inr q" for p st rep ev q
    by (simp_all add: record_report_def publish_event_def pipe)
  have reports: "report_on (filling (Fin 5) ''closed'') ((sample_market 2)\<lparr>o_status := VALIDATED\<rparr>)
        (VDict [(''id'', VInt 7), (''status'', VStr ''closed''), (''filled'', VFloat (Fin 2)), (''average'', VFloat (Fin 5))])
        sample_time = sample_sent_report ''closed''"
      "report_on (filling (Fin 5) ''open'') ((sample_market 2)\<lparr>o_status := VALIDATED\<rparr>)
        (VDict [(''id'', VInt 7), (''status'', VStr ''open''), (''filled'', VFloat (Fin 0)), (''average'', VFloat (Fin 5))])
        sample_time = sample_sent_report ''open''"
    by (simp_all add: sample_sent_report_def)
  note run = submit_def sample_prepare send_order_eq [OF valid] sent empty after_report_eq quiet strat pipe reports
  obtain fs' fr where "process_fill (sample_processor None) (sample_sent_report ''closed'') [] VNone ''t'' sample_time
      empty_fill_state = (fs', Inr fr)" "length (l_trades (fs_ledger fs')) = 1"
    using sample_fill_processed by blast
  then show "\<exists>ps' res. submit (sample_pipeline (Fin 5) ''closed'' None) (sample_market 2) [] ''t'' sample_time empty_pipe =
      (ps', res) \<and> pr_accepted res \<and> ps_world ps' = [Fin 2] \<and> length (l_trades (fs_ledger (ps_fills ps'))) = 1"
    by (simp add: run)
  have "process_fill (sample_processor None) (sample_sent_report ''open'') [] VNone ''t'' sample_time
      empty_fill_state = (empty_fill_state, Inr \<lparr>fr_processed = False, fr_trade = None, fr_exposure = None, fr_breaches = []\<rparr>)"
    by (simp add: process_fill_def sample_report_fields has_fill_def)
  then show "\<exists>ps' res. submit (sample_pipeline (Fin 5) ''open'' None) (sample_market 2) [] ''t'' sample_time empty_pipe =
      (ps', res) \<and> pr_report res = Some (sample_sent_report ''open'')"
    by (simp add: run)
qed

theorem no_order_without_approval_witness:
  "\<exists>x price. find_best_exchange [(''X'', filling (Fin 5) ''closed'')] [] ''BTC'' ''BUY'' [] = Inr (x, price) \<and>
     \<not> price \<le> Fin 0"
proof -
  obtain ps' res where run: "submit (sample_pipeline (Fin 5) ''closed'' None) (sample_market 2) [] ''t'' sample_time
      empty_pipe = (ps', res)" "ps_world ps' = [Fin 2]"
    using sample_submit(1) by blast
  then have "ps' \<noteq> empty_pipe" by (auto simp: empty_pipe_def)
  with no_order_without_approval [OF run(1)] show ?thesis
    by (auto simp: sample_pipeline_def sample_market_def new_order_def empty_pipe_def)
qed

theorem submit_outcomes_witness:
  "\<exists>ps' res rep. submit (sample_pipeline (Fin 5) ''closed'' None) (sample_market 2) [] ''t'' sample_time empty_pipe =
     (ps', res) \<and> pr_report res = Some rep \<and> o_status (pr_order res) = r_status rep"
proof -
  obtain ps' res where run: "submit (sample_pipeline (Fin 5) ''closed'' None) (sample_market 2) [] ''t'' sample_time
      empty_pipe = (ps', res)" "pr_accepted res"
    using sample_submit(1) by blast
  from submit_outcomes [OF run(1)] run show ?thesis by blast
qed

theorem failing_bus_hides_bookings_witness:
  "\<exists>ps' res. submit (sample_pipeline (Fin 5) ''closed'' (Some (\<lambda>_. Some (RuntimeError []))))
      (sample_market 2) [] ''t'' sample_time empty_pipe = (ps', res) \<and>
    o_status (pr_order res) = FAILED \<and> length (l_trades (fs_ledger (ps_fills ps'))) = 1"
proof -
  let ?pl = "sample_pipeline (Fin 5) ''closed'' (Some (\<lambda>_. Some (RuntimeError [])))"
  have quiet: "?pl\<lparr>pl_bus := None\<rparr> = sample_pipeline (Fin 5) ''closed'' None" by (simp add: sample_pipeline_def)
  have bus: "pl_bus ?pl = Some (\<lambda>_. Some (RuntimeError []))" by (simp add: sample_pipeline_def)
  have "\<forall>ev :: execution_event. Some (RuntimeError []) \<noteq> None" by simp
  from failing_bus_hides_bookings [OF bus this, of "sample_market 2" "[]" "''t''" sample_time empty_pipe]
    sample_submit(1) show ?thesis
    unfolding quiet by (cases "submit ?pl (sample_market 2) [] ''t'' sample_time empty_pipe") auto
qed

theorem resting_order_has_no_id_witness:
  "\<exists>ps' res rep. submit (sample_pipeline (Fin 5) ''open'' None) (sample_market 2) [] ''t'' sample_time empty_pipe =
     (ps', res) \<and> pr_report res = Some rep \<and> o_exchange_id (pr_order res) = VNone"
proof -
  obtain ps' res where run: "submit (sample_pipeline (Fin 5) ''open'' None) (sample_market 2) [] ''t'' sample_time
      empty_pipe = (ps', res)" "pr_report res = Some (sample_sent_report ''open'')"
    using sample_submit(2) by blast
  have "o_exchange_id (sample_market 2) = VNone" by (simp add: sample_market_def new_order_def)
  with resting_order_has_no_id [OF run sample_report_fields(7)] run show ?thesis by auto
qed

theorem nan_quote_sends_any_size_witness:
  "ps_world (fst (submit (sample_pipeline NaN ''closed'' None) (sample_market 1000000) [] ''t'' sample_time
     empty_pipe)) = [Fin 1000000]"
proof -
  have "new_portfolio_guard (Fin 20) (Fin 20) (Fin 1) = Inr (pt_guard (pl_risk (sample_pipeline NaN ''closed'' None)))"
    by (simp add: new_portfolio_guard_def sample_pipeline_def)
  moreover have "quotes (allowed_exchanges (pl_allowed (sample_pipeline NaN ''closed'' None))) (o_symbol (sample_market 1000000))
      (side_value (o_side (sample_market 1000000))) (ps_world empty_pipe)
      (pl_registry (sample_pipeline NaN ''closed'' None)) = [(filling NaN ''closed'', NaN)]"
    by (simp add: sample_pipeline_def sample_market_def new_order_def empty_pipe_def quotes_def map_filter_simps
        usable_quote_def skipped_def filling_def extract_price_def allowed_exchanges_def str_strip_def py_true_def)
  moreover have "validate_order (sample_market 1000000) = Inr True" "o_status (sample_market 1000000) = CREATED"
      "x_amount_precision (filling NaN ''closed'') = None" "x_price_precision (filling NaN ''closed'') = None"
    by (simp_all add: validate_order_def sample_market_def new_order_def filling_def)
  ultimately have "ps_world (fst (submit (sample_pipeline NaN ''closed'' None) (sample_market 1000000) [] ''t''
      sample_time empty_pipe)) = fst (x_create_order (filling NaN ''closed'') (o_symbol (sample_market 1000000))
      (str_lower (type_value (o_type (sample_market 1000000)))) (str_lower (side_value (o_side (sample_market 1000000))))
      (o_quantity (sample_market 1000000)) (o_price (sample_market 1000000)) (ps_world empty_pipe))"
    by (rule nan_quote_sends_any_size)
  then show ?thesis by (simp add: filling_def sample_market_def new_order_def empty_pipe_def)
qed

theorem service_counts_requests_witness:
  "es_failed (serve_requests (sample_pipeline (Fin 5) ''closed'' None)
     [(\<lparr>or_payload = VNone, or_marks = []\<rparr>, ''t'', sample_time)]
     \<lparr>es_received = 0, es_accepted = 0, es_rejected = 0, es_failed = 0, es_pipe = empty_pipe\<rparr>) \<ge> 1"
proof -
  let ?es = "\<lparr>es_received = 0, es_accepted = 0, es_rejected = 0, es_failed = 0, es_pipe = empty_pipe\<rparr>"
  let ?reqs = "[(\<lparr>or_payload = VNone, or_marks = []\<rparr>, ''t'', sample_time)]"
  have zero: "es_received ?es = 0" "es_accepted ?es = 0" "es_rejected ?es = 0" "es_failed ?es = 0" by simp_all
  have "undecodable ?reqs = 1" by (simp add: undecodable_def decode_order_def)
  with service_counts_requests [OF zero, of "sample_pipeline (Fin 5) ''closed'' None" ?reqs] show ?thesis by simp
qed

end
