(* ===== verification/Live_Strategy.thy ===== *)
theory Live_Strategy
  imports Mean_Reversion Market_Data Execution_Pipeline
begin

text \<open>
  The service that drives a strategy with market events and publishes its signals as order requests
  (\<open>microservices/live_strategy_service.py\<close>). The strategy enters as its two methods, which may
  raise. The bus is the list of the published requests; a published request is what
  \<open>ExecutionService\<close> receives. The \<open>k\<close>-th order of the service gets the correlation id \<open>ids k\<close>.
\<close>

section \<open>The service\<close>

record 's live_service =
  lv_strategy :: 's
  lv_ticks :: nat
  lv_books :: nat
  lv_requests :: nat
  lv_errors :: nat
  lv_published :: "order_request list"

definition new_live_service :: "'s \<Rightarrow> 's live_service" where
  "new_live_service s =
     \<lparr>lv_strategy = s, lv_ticks = 0, lv_books = 0, lv_requests = 0, lv_errors = 0, lv_published = []\<rparr>"

definition live_on_tick ::
  "('s \<Rightarrow> payload \<Rightarrow> 's \<times> unit res) \<Rightarrow> payload \<Rightarrow> 's live_service \<Rightarrow> 's live_service" where
  "live_on_tick on_tick d svc =
     (case on_tick (lv_strategy svc) d of
        (s', r) \<Rightarrow>
          (let svc1 = svc\<lparr>lv_ticks := lv_ticks svc + 1, lv_strategy := s'\<rparr> in
           if is_ok r then svc1 else svc1\<lparr>lv_errors := lv_errors svc1 + 1\<rparr>))"

definition publish_order ::
  "(string, pyfloat) pydict \<Rightarrow> order \<Rightarrow> 's live_service \<Rightarrow> 's live_service" where
  "publish_order marks ord svc =
     svc\<lparr>lv_published := lv_published svc @ [\<lparr>or_payload = VDict (encode_order ord), or_marks = marks\<rparr>],
         lv_requests := lv_requests svc + 1\<rparr>"

fun publish_signals ::
  "(string, pyfloat) pydict \<Rightarrow> (nat \<Rightarrow> string) \<Rightarrow> datetime \<Rightarrow> trade_signal list \<Rightarrow> 's live_service
     \<Rightarrow> 's live_service \<times> unit res" where
  "publish_signals marks ids now [] svc = (svc, Inr ())"
| "publish_signals marks ids now (sig # sigs) svc =
     (case to_order sig (ids (lv_requests svc)) now of
        Inl e \<Rightarrow> (svc, Inl e)
      | Inr ord \<Rightarrow> publish_signals marks ids now sigs (publish_order marks ord svc))"

definition live_on_orderbook ::
  "('s \<Rightarrow> payload \<Rightarrow> 's \<times> trade_signal list res) \<Rightarrow> market_store \<Rightarrow> (nat \<Rightarrow> string) \<Rightarrow> datetime \<Rightarrow> payload
     \<Rightarrow> 's live_service \<Rightarrow> 's live_service" where
  "live_on_orderbook on_book store ids now d svc =
     (case on_book (lv_strategy svc) d of
        (s', r) \<Rightarrow>
          (let svc1 = svc\<lparr>lv_books := lv_books svc + 1, lv_strategy := s'\<rparr>;
               (svc2, out) = (case r of Inl e \<Rightarrow> (svc1, Inl e)
                              | Inr sigs \<Rightarrow> publish_signals (mark_prices store) ids now sigs svc1)
           in if is_ok out then svc2 else svc2\<lparr>lv_errors := lv_errors svc2 + 1\<rparr>))"

definition live_metrics :: "('s \<Rightarrow> (string \<times> pyval) list) option \<Rightarrow> 's live_service \<Rightarrow> (string \<times> pyval) list" where
  "live_metrics strategy_metrics svc =
     [(''market_ticks_seen'', VInt (int (lv_ticks svc))), (''orderbooks_seen'', VInt (int (lv_books svc))),
      (''order_requests_published'', VInt (int (lv_requests svc))),
      (''strategy_errors'', VInt (int (lv_errors svc)))] @
     (case strategy_metrics of None \<Rightarrow> [] | Some f \<Rightarrow> [(''strategy'', VDict (f (lv_strategy svc)))])"

section \<open>From signals to decoded orders\<close>

text \<open>The order a signal stands for, and that it travels: the request decodes to it again.\<close>

definition order_of :: "trade_signal \<Rightarrow> string \<Rightarrow> datetime \<Rightarrow> order" where
  "order_of s cid now =
     new_order (s_symbol s) (s_side s) (s_quantity s) (s_type s) (s_price s) (s_strategy_id s) cid now"

definition carries :: "order_request \<Rightarrow> (string, pyfloat) pydict \<Rightarrow> order \<Rightarrow> bool" where
  "carries req marks ord \<longleftrightarrow> or_marks req = marks \<and> (\<forall>t. decode_order (or_payload req) t = Inr ord)"

lemma codec_inverts:
  assumes "valid_datetime (o_created_at ord)" "valid_datetime (o_updated_at ord)"
    and "o_correlation_id ord \<noteq> Some []"
  shows "decode_order (VDict (encode_order ord)) now = Inr ord"
  using assms
  by (cases "o_correlation_id ord")
    (simp_all add: decode_order_def encode_order_def get_val_def dict_get_def dict_index_def
      parse_datetime_iso opt_str_def Let_def)

lemma published_carries:
  assumes "valid_datetime now" "cid \<noteq> []"
  shows "carries \<lparr>or_payload = VDict (encode_order (order_of s cid now)), or_marks = marks\<rparr> marks (order_of s cid now)"
  using codec_inverts [of "order_of s cid now"] assms by (simp add: carries_def order_of_def new_order_def)

lemma to_order_eq: "to_order s cid now = rbind (signal_validate s) (\<lambda>_. Inr (order_of s cid now))"
  by (simp add: to_order_def order_of_def)

text \<open>The leading signals that pass their validation are published, and nothing after the first that does not.\<close>

definition leading_valid :: "trade_signal list \<Rightarrow> trade_signal list" where
  "leading_valid = takeWhile (\<lambda>s. signal_validate s = Inr ())"

lemma publish_signals_spec:
  assumes "publish_signals marks ids now sigs svc = (svc', r)" "valid_datetime now" "\<forall>k. ids k \<noteq> []"
  shows "\<exists>new. lv_published svc' = lv_published svc @ new \<and>
    list_all2 (\<lambda>req (k, s). carries req marks (order_of s (ids k) now)) new
      (zip [lv_requests svc..<lv_requests svc + length (leading_valid sigs)] (leading_valid sigs)) \<and>
    lv_requests svc' = lv_requests svc + length (leading_valid sigs) \<and>
    (is_ok r \<longleftrightarrow> leading_valid sigs = sigs) \<and>
    lv_strategy svc' = lv_strategy svc \<and> lv_errors svc' = lv_errors svc \<and> lv_books svc' = lv_books svc"
  using assms(1)
proof (induction sigs arbitrary: svc)
  case (Cons s sigs)
  show ?case
  proof (cases "signal_validate s")
    case (Inl e)
    have "r = Inl e" "svc' = svc" using Cons.prems by (simp_all add: to_order_eq Inl)
    moreover have "leading_valid (s # sigs) = []" by (simp add: leading_valid_def Inl)
    ultimately show ?thesis by simp
  next
    case (Inr u)
    let ?svc = "publish_order marks (order_of s (ids (lv_requests svc)) now) svc"
    have "publish_signals marks ids now sigs ?svc = (svc', r)" using Cons.prems Inr by (simp add: to_order_eq)
    from Cons.IH [OF this] obtain new where new: "lv_published svc' = lv_published ?svc @ new"
      "list_all2 (\<lambda>req (k, s). carries req marks (order_of s (ids k) now)) new
        (zip [Suc (lv_requests svc)..<Suc (lv_requests svc) + length (leading_valid sigs)] (leading_valid sigs))"
      "lv_requests svc' = Suc (lv_requests svc) + length (leading_valid sigs)"
      "is_ok r \<longleftrightarrow> leading_valid sigs = sigs" "lv_strategy svc' = lv_strategy svc" "lv_errors svc' = lv_errors svc"
      "lv_books svc' = lv_books svc"
      by (auto simp: publish_order_def)
    have lv: "leading_valid (s # sigs) = s # leading_valid sigs" using Inr by (simp add: leading_valid_def)
    have car: "carries \<lparr>or_payload = VDict (encode_order (order_of s (ids (lv_requests svc)) now)), or_marks = marks\<rparr>
        marks (order_of s (ids (lv_requests svc)) now)"
      using assms(2,3) published_carries by blast
    show ?thesis
      using new car unfolding lv
      by (intro exI [of _ "\<lparr>or_payload = VDict (encode_order (order_of s (ids (lv_requests svc)) now)), or_marks = marks\<rparr> # new"])
        (simp add: publish_order_def upt_rec)
  qed
qed (auto simp: leading_valid_def)

lemma live_on_orderbook_spec:
  assumes "on_book (lv_strategy svc) d = (s', r)" "valid_datetime now" "\<forall>k. ids k \<noteq> []"
    and "svc' = live_on_orderbook on_book store ids now d svc"
    and "sigs = (case r of Inl _ \<Rightarrow> [] | Inr xs \<Rightarrow> xs)"
  shows "\<exists>new. lv_published svc' = lv_published svc @ new \<and>
    list_all2 (\<lambda>req (k, s). carries req (mark_prices store) (order_of s (ids k) now)) new
      (zip [lv_requests svc..<lv_requests svc + length (leading_valid sigs)] (leading_valid sigs)) \<and>
    lv_requests svc' = lv_requests svc + length (leading_valid sigs) \<and>
    lv_errors svc' = lv_errors svc + (if is_ok r \<and> leading_valid sigs = sigs then 0 else 1) \<and>
    lv_strategy svc' = s' \<and> lv_books svc' = lv_books svc + 1"
proof (cases r)
  case (Inl e)
  then show ?thesis using assms(1,4,5) by (simp add: live_on_orderbook_def leading_valid_def)
next
  case (Inr xs)
  define svc1 where "svc1 = svc\<lparr>lv_books := lv_books svc + 1, lv_strategy := s'\<rparr>"
  obtain svc2 out where p: "publish_signals (mark_prices store) ids now xs svc1 = (svc2, out)" by fastforce
  have sigs: "sigs = xs" using assms(5) Inr by simp
  have "svc' = (if is_ok out then svc2 else svc2\<lparr>lv_errors := lv_errors svc2 + 1\<rparr>)"
    using assms(1,4) Inr p by (simp add: live_on_orderbook_def svc1_def Let_def)
  with publish_signals_spec [OF p assms(2,3)] show ?thesis
    unfolding sigs by (auto simp: svc1_def Inr)
qed

text \<open>
  What the strategy signals is what the execution side receives. For any strategy and any book, the
  requests published are exactly the leading valid signals, in order: each carries the current mark
  prices and decodes, whenever it is read, to the order of its signal under a fresh id. A failing
  strategy or an invalid signal counts one error, and the signals before it stay published.
\<close>

theorem live_requests_carry_the_signals:
  assumes "on_book (lv_strategy svc) d = (s', r)" "valid_datetime now" "\<forall>k. ids k \<noteq> []"
    and "svc' = live_on_orderbook on_book store ids now d svc"
    and "sigs = (case r of Inl _ \<Rightarrow> [] | Inr xs \<Rightarrow> xs)"
  shows "\<exists>new. lv_published svc' = lv_published svc @ new \<and>
    list_all2 (\<lambda>req (k, s). carries req (mark_prices store) (order_of s (ids k) now)) new
      (zip [lv_requests svc..<lv_requests svc + length (leading_valid sigs)] (leading_valid sigs)) \<and>
    lv_requests svc' = lv_requests svc + length (leading_valid sigs) \<and>
    lv_errors svc' = lv_errors svc + (if is_ok r \<and> leading_valid sigs = sigs then 0 else 1) \<and>
    lv_strategy svc' = s' \<and> lv_books svc' = lv_books svc + 1"
  using assms by (rule live_on_orderbook_spec)

text \<open>The mean-reversion strategy at one reading of the kill switch, the ledger and the clock.\<close>

definition mean_reversion_book ::
  "env \<Rightarrow> bool \<Rightarrow> ledger \<Rightarrow> pyfloat \<Rightarrow> strategy \<Rightarrow> payload \<Rightarrow> strategy \<times> trade_signal list res" where
  "mean_reversion_book env active l clock s d = on_orderbook env active l clock d s"

lemma leading_valid_market:
  assumes "on_orderbook env active l clock d s = (s', Inr sigs)" "me_type (st_set s) = MARKET"
  shows "leading_valid sigs = sigs"
  using market_signals_valid [OF assms] by (simp add: leading_valid_def list_all_iff takeWhile_eq_all_conv)

lemma book_signals_at_most_one:
  assumes "on_orderbook env active l clock d s = (s', Inr sigs)"
  shows "length sigs \<le> 1 \<and> (\<not> active \<longrightarrow> sigs = [])"
proof (cases sigs)
  case (Cons x xs)
  note run = assms [unfolded Cons]
  have "xs = [] \<and> active"
  proof (cases "no_position l (payload_symbol d)")
    case True
    from run True show ?thesis by (rule entry_signal_cases) (simp add: tradable_def)
  next
    case False
    then obtain p where "get_position l (payload_symbol d) = Some p" "p_quantity p \<noteq> Fin 0"
      by (auto simp: no_position_def split: option.splits)
    with run show ?thesis by (rule exit_signal_cases) (simp add: tradable_def)
  qed
  with Cons show ?thesis by simp
qed simp

text \<open>
  C17. The live strategy, composed: a mean-reversion strategy trading at market turns a book into at most
  one order request, and into none while the kill switch is tripped. When the execution service serves
  that request, at whatever time, it submits to the pipeline the very order of the signal.
\<close>

theorem live_signal_reaches_the_pipeline:
  assumes "on_orderbook env active l clock d s = (s', Inr sigs)" "me_type (st_set s) = MARKET"
    and "valid_datetime now" "\<forall>k. ids k \<noteq> []" "lv_strategy svc = s"
    and "svc' = live_on_orderbook (mean_reversion_book env active l clock) store ids now d svc"
  shows "length sigs \<le> 1 \<and> (\<not> active \<longrightarrow> sigs = []) \<and> lv_errors svc' = lv_errors svc \<and>
    (\<exists>new. lv_published svc' = lv_published svc @ new \<and> length new = length sigs \<and>
      (\<forall>req \<in> set new. \<forall>pl uuid t es. \<exists>x. sigs = [x] \<and>
         es_pipe (on_order_request pl req uuid t es) =
           fst (submit pl (order_of x (ids (lv_requests svc)) now) (mark_prices store) uuid t (es_pipe es))))"
proof -
  have run: "mean_reversion_book env active l clock (lv_strategy svc) d = (s', Inr sigs)"
    using assms(1,5) by (simp add: mean_reversion_book_def)
  note lead = leading_valid_market [OF assms(1,2)]
  note one = book_signals_at_most_one [OF assms(1)]
  obtain new where new: "lv_published svc' = lv_published svc @ new" "lv_errors svc' = lv_errors svc"
    "list_all2 (\<lambda>req (k, s). carries req (mark_prices store) (order_of s (ids k) now)) new
      (zip [lv_requests svc..<lv_requests svc + length sigs] sigs)"
    using live_on_orderbook_spec [OF run assms(3,4,6) refl] lead by auto
  have len: "length new = length sigs" using list_all2_lengthD [OF new(3)] by simp
  have "\<forall>req \<in> set new. \<forall>pl uuid t es. \<exists>x. sigs = [x] \<and>
         es_pipe (on_order_request pl req uuid t es) =
           fst (submit pl (order_of x (ids (lv_requests svc)) now) (mark_prices store) uuid t (es_pipe es))"
  proof (cases sigs)
    case (Cons x xs)
    with one have sigs: "sigs = [x]" by simp
    with len obtain req where r: "new = [req]" by (cases new) auto
    have "carries req (mark_prices store) (order_of x (ids (lv_requests svc)) now)"
      using new(3) by (simp add: r sigs)
    then show ?thesis unfolding r sigs
      by (auto simp: carries_def on_order_request_def Let_def split: prod.splits option.splits)
  qed (use len in simp)
  with new(1,2) one len show ?thesis by blast
qed

section \<open>Witnesses\<close>

definition sample_signal :: "real \<Rightarrow> trade_signal" where
  "sample_signal q = \<lparr>s_symbol = ''A'', s_side = BUY, s_quantity = Fin q, s_type = MARKET, s_price = None,
     s_strategy_id = VStr ''x'', s_reason = [], s_confidence = Some (Fin 1)\<rparr>"

definition empty_store :: market_store where
  "empty_store = \<lparr>ms_stale_after = Fin 15, ms_ticks = [], ms_books = [], ms_updated = []\<rparr>"

lemma sample_time_valid: "valid_datetime sample_time"
  by (simp add: sample_time_def valid_datetime_def days_in_month_def)

theorem live_requests_carry_the_signals_witness:
  "lv_requests (live_on_orderbook (\<lambda>(_ :: unit) _. ((), Inr [sample_signal 1, sample_signal 0, sample_signal 2]))
     empty_store (\<lambda>_. ''id'') sample_time [] (new_live_service ())) = 1"
  using live_requests_carry_the_signals [OF _ sample_time_valid _ refl refl,
      of "\<lambda>(_ :: unit) _. ((), Inr [sample_signal 1, sample_signal 0, sample_signal 2])" "new_live_service ()" "[]"
         "()" "Inr [sample_signal 1, sample_signal 0, sample_signal 2]" "\<lambda>_. ''id''" empty_store]
  by (auto simp: new_live_service_def leading_valid_def sample_signal_def signal_validate_def)

theorem live_signal_reaches_the_pipeline_witness:
  "\<exists>req. lv_published (live_on_orderbook (mean_reversion_book sample_env True new_ledger (Fin 1000))
     empty_store (\<lambda>_. ''id'') sample_time (book_at 90) (new_live_service sample_warm)) = [req]"
proof -
  obtain s1 sig where e: "on_orderbook sample_env True new_ledger (Fin 1000) (book_at 90) sample_warm = (s1, Inr [sig])"
    using sample_entry by blast
  have "me_type (st_set sample_warm) = MARKET" by (simp add: sample_warm_def sample_start_def sample_settings_def)
  from live_signal_reaches_the_pipeline [OF e this sample_time_valid, of "\<lambda>_. ''id''" "new_live_service sample_warm" _ empty_store]
  show ?thesis by (auto simp: new_live_service_def length_Suc_conv)
qed

end
