(* ===== verification/Simulated_Exchange.thy ===== *)
theory Simulated_Exchange
  imports Market_Data Execution_Pipeline
begin

text \<open>
  The exchange of the backtests (\<open>backtesting/simulated_exchange.py\<close>) with its fee and slippage
  models (\<open>backtesting/fee_model.py\<close>, \<open>backtesting/slippage_model.py\<close>), and its operations as an
  exchange of the pipeline. The locale \<open>venue\<close> is what the pipeline can rely on when an exchange
  fills all of an order or nothing of it; the simulated exchange is its instance.
\<close>

section \<open>Fees and slippage\<close>

definition new_fee_model :: "pyfloat \<Rightarrow> pyfloat res" where
  "new_fee_model rate =
     rbind (check_all [(rate < Fin 0, ''Fee rate cannot be negative'')]) (\<lambda>_. Inr rate)"

definition fee_calculate :: "pyfloat \<Rightarrow> pyfloat \<Rightarrow> pyfloat \<Rightarrow> pyfloat" where
  "fee_calculate rate quantity price =
     (if quantity \<le> Fin 0 \<or> price \<le> Fin 0 then Fin 0 else quantity * price * rate)"

definition new_slippage_model :: "pyfloat \<Rightarrow> pyfloat res" where
  "new_slippage_model bps =
     rbind (check_all [(bps < Fin 0, ''Slippage basis points cannot be negative'')]) (\<lambda>_. Inr bps)"

definition slippage_apply :: "pyfloat \<Rightarrow> string \<Rightarrow> pyfloat \<Rightarrow> pyfloat res" where
  "slippage_apply bps side reference =
     (if reference \<le> Fin 0 then Inl (ValueError (text_msg ''Reference price must be positive''))
      else (let multiplier = bps / Fin 10000; s = str_upper side in
            if s = ''BUY'' then Inr (reference * (Fin 1 + multiplier))
            else if s = ''SELL'' then Inr (reference * (Fin 1 - multiplier))
            else Inl (ValueError (text_msg ''side must be BUY or SELL''))))"

section \<open>The exchange\<close>

record sim_order =
  so_id :: string
  so_symbol :: string
  so_side :: string
  so_type :: string
  so_amount :: pyfloat
  so_price :: "pyfloat option"
  so_status :: string
  so_filled :: pyfloat
  so_average :: pyfloat
  so_fee :: pyfloat

definition sim_payload :: "sim_order \<Rightarrow> (string \<times> pyval) list" where
  "sim_payload o1 =
     [(''id'', VStr (so_id o1)), (''symbol'', VStr (so_symbol o1)), (''side'', VStr (so_side o1)),
      (''type'', VStr (so_type o1)), (''amount'', VFloat (so_amount o1)), (''price'', opt_float (so_price o1)),
      (''status'', VStr (so_status o1)), (''filled'', VFloat (so_filled o1)),
      (''average'', VFloat (so_average o1)), (''fee'', VDict [(''cost'', VFloat (so_fee o1))])]"

text \<open>\<open>sx_zone\<close> is the offset of the local time of the process, in minutes, for naive time stamps.\<close>

record sim_exchange =
  sx_fee :: pyfloat
  sx_bps :: pyfloat
  sx_ticks :: "(string, market_tick) pydict"
  sx_books :: "(string, orderbook) pydict"
  sx_orders :: "(string, sim_order) pydict"
  sx_next :: nat
  sx_zone :: int

definition new_sim_exchange :: "pyfloat \<Rightarrow> pyfloat \<Rightarrow> int \<Rightarrow> sim_exchange" where
  "new_sim_exchange fee bps zone =
     \<lparr>sx_fee = fee, sx_bps = bps, sx_ticks = [], sx_books = [], sx_orders = [], sx_next = 1, sx_zone = zone\<rparr>"

definition sx_update_tick :: "market_tick \<Rightarrow> sim_exchange \<Rightarrow> sim_exchange" where
  "sx_update_tick t x = x\<lparr>sx_ticks := dict_set (tk_symbol t) t (sx_ticks x)\<rparr>"

definition sx_update_orderbook :: "orderbook \<Rightarrow> sim_exchange \<Rightarrow> sim_exchange" where
  "sx_update_orderbook b x = x\<lparr>sx_books := dict_set (ob_symbol b) b (sx_books x)\<rparr>"

definition epoch_ms :: "int \<Rightarrow> datetime \<Rightarrow> int" where
  "epoch_ms zone d =
     (let us = instant d - epoch - (if dt_offset d = None then zone * 60000000 else 0) in
      if 0 \<le> us then us div 1000 else - ((- us) div 1000))"

definition sx_fetch_ticker :: "string \<Rightarrow> sim_exchange \<Rightarrow> pyval res" where
  "sx_fetch_ticker symb x =
     (case map_of (sx_ticks x) symb of
        None \<Rightarrow> Inl (RuntimeError [Txt ''No simulated ticker available for '', Str symb])
      | Some t \<Rightarrow> Inr (VDict
          [(''symbol'', VStr symb), (''bid'', VFloat (tk_bid t)), (''ask'', VFloat (tk_ask t)),
           (''last'', VFloat (tk_last t)), (''baseVolume'', VFloat (tk_volume t)),
           (''timestamp'', VInt (epoch_ms (sx_zone x) (tk_timestamp t)))]))"

definition sx_fetch_order_book :: "string \<Rightarrow> int option \<Rightarrow> sim_exchange \<Rightarrow> pyval res" where
  "sx_fetch_order_book symb limit x =
     (case map_of (sx_books x) symb of
        None \<Rightarrow> Inl (RuntimeError [Txt ''No simulated orderbook available for '', Str symb])
      | Some b \<Rightarrow>
          (let cut = (case limit of Some n \<Rightarrow> if 0 < n then take (nat n) else (\<lambda>ls. ls) | None \<Rightarrow> (\<lambda>ls. ls));
               rows = (\<lambda>ls. VList (map (\<lambda>l. VList [VFloat (lv_price l), VFloat (lv_quantity l)]) ls))
           in Inr (VDict
                [(''symbol'', VStr symb), (''bids'', rows (cut (ob_bids b))), (''asks'', rows (cut (ob_asks b))),
                 (''nonce'', opt_int (ob_sequence b)),
                 (''timestamp'', VInt (epoch_ms (sx_zone x) (ob_timestamp b)))])))"

text \<open>The book's best price if it is positive, else the tick's, else an exception.\<close>

definition sx_quote :: "(orderbook \<Rightarrow> pyfloat) \<Rightarrow> (market_tick \<Rightarrow> pyfloat) \<Rightarrow> string \<Rightarrow> string \<Rightarrow> sim_exchange \<Rightarrow> pyfloat res" where
  "sx_quote of_book of_tick what symb x =
     (case map_of (sx_books x) symb of
        Some b \<Rightarrow> if Fin 0 < of_book b then Inr (of_book b) else
          (case map_of (sx_ticks x) symb of
             Some t \<Rightarrow> if Fin 0 < of_tick t then Inr (of_tick t)
                       else Inl (RuntimeError [Txt what, Str symb])
           | None \<Rightarrow> Inl (RuntimeError [Txt what, Str symb]))
      | None \<Rightarrow>
          (case map_of (sx_ticks x) symb of
             Some t \<Rightarrow> if Fin 0 < of_tick t then Inr (of_tick t)
                       else Inl (RuntimeError [Txt what, Str symb])
           | None \<Rightarrow> Inl (RuntimeError [Txt what, Str symb])))"

definition sx_best_bid :: "string \<Rightarrow> sim_exchange \<Rightarrow> pyfloat res" where
  "sx_best_bid = sx_quote best_bid tk_bid ''No simulated bid available for ''"

definition sx_best_ask :: "string \<Rightarrow> sim_exchange \<Rightarrow> pyfloat res" where
  "sx_best_ask = sx_quote best_ask tk_ask ''No simulated ask available for ''"

definition sx_fill_price ::
  "string \<Rightarrow> string \<Rightarrow> string \<Rightarrow> pyfloat option \<Rightarrow> sim_exchange \<Rightarrow> pyfloat option res" where
  "sx_fill_price symb ty side limit x =
     (if ty = ''market''
      then rbind (if side = ''buy'' then sx_best_ask symb x else sx_best_bid symb x) (\<lambda>reference.
           rbind (slippage_apply (sx_bps x) (str_upper side) reference) (\<lambda>p. Inr (Some p)))
      else case limit of
             None \<Rightarrow> Inl (ValueError (text_msg ''Limit order requires a positive price''))
           | Some l \<Rightarrow>
               if l \<le> Fin 0 then Inl (ValueError (text_msg ''Limit order requires a positive price''))
               else if side = ''buy''
               then rbind (sx_best_ask symb x) (\<lambda>ask. Inr (if ask \<le> l then Some (py_min l ask) else None))
               else rbind (sx_best_bid symb x) (\<lambda>bid. Inr (if l \<le> bid then Some (py_max l bid) else None)))"

definition sx_build_order ::
  "string \<Rightarrow> string \<Rightarrow> string \<Rightarrow> pyfloat \<Rightarrow> pyfloat option \<Rightarrow> string \<Rightarrow> pyfloat \<Rightarrow> pyfloat \<Rightarrow> pyfloat \<Rightarrow>
   sim_exchange \<Rightarrow> sim_exchange \<times> sim_order" where
  "sx_build_order symb side ty amount price status filled average fee x =
     (let oid = ''sim-'' @ show_nat (sx_next x);
          o1 = \<lparr>so_id = oid, so_symbol = symb, so_side = side, so_type = ty, so_amount = amount,
               so_price = price, so_status = status, so_filled = filled, so_average = average, so_fee = fee\<rparr>
      in (x\<lparr>sx_next := sx_next x + 1, sx_orders := dict_set oid o1 (sx_orders x)\<rparr>, o1))"

definition sx_create_order ::
  "string \<Rightarrow> string \<Rightarrow> string \<Rightarrow> pyfloat \<Rightarrow> pyfloat option \<Rightarrow> sim_exchange \<Rightarrow> sim_exchange \<times> pyval res" where
  "sx_create_order symb ty side amount price x =
     (let t = str_lower ty; s = str_lower side in
      if amount \<le> Fin 0 then (x, Inl (ValueError (text_msg ''amount must be positive'')))
      else if s \<notin> {''buy'', ''sell''} then (x, Inl (ValueError (text_msg ''side must be buy or sell'')))
      else if t \<notin> {''market'', ''limit''} then (x, Inl (ValueError (text_msg ''type must be market or limit'')))
      else (case sx_fill_price symb t s price x of
              Inl e \<Rightarrow> (x, Inl e)
            | Inr None \<Rightarrow>
                (let (x', o1) = sx_build_order symb s t amount price ''open'' (Fin 0) (Fin 0) (Fin 0) x
                 in (x', Inr (VDict (sim_payload o1))))
            | Inr (Some p) \<Rightarrow>
                (let fee = fee_calculate (sx_fee x) amount p;
                     (x', o1) = sx_build_order symb s t amount price ''closed'' amount p fee x
                 in (x', Inr (VDict (sim_payload o1))))))"

definition sx_order_snapshot :: "sim_exchange \<Rightarrow> (string \<times> pyval) list" where
  "sx_order_snapshot x = map (\<lambda>(k, o1). (k, VDict (sim_payload o1))) (sx_orders x)"

text \<open>The simulated exchange as an exchange of the pipeline.\<close>

definition simulated :: "sim_exchange exchange" where
  "simulated =
     \<lparr>x_id = ''SIMULATED'', x_disabled = False,
      x_best_ask = Some (\<lambda>symb x. rbind (sx_best_ask symb x) (\<lambda>p. Inr (VFloat p))),
      x_best_bid = Some (\<lambda>symb x. rbind (sx_best_bid symb x) (\<lambda>p. Inr (VFloat p))),
      x_fetch_ticker = sx_fetch_ticker, x_amount_precision = None, x_price_precision = None,
      x_min_notional = None, x_create_order = sx_create_order\<rparr>"

section \<open>Venues that fill all or nothing\<close>

locale venue =
  fixes create :: "string \<Rightarrow> string \<Rightarrow> string \<Rightarrow> pyfloat \<Rightarrow> pyfloat option \<Rightarrow> 'w \<Rightarrow> 'w \<times> pyval res"
    and sane :: "'w \<Rightarrow> bool"
  assumes answer: "sane w \<Longrightarrow> is_num q \<Longrightarrow> create symb ty side q price w = (w', Inr raw) \<Longrightarrow>
      Fin 0 < q \<and> (\<exists>d. raw = VDict d \<and>
        ((dict_get d ''status'' VNone = VStr ''open'' \<and> get_val d ''filled'' = VFloat (Fin 0)) \<or>
         (dict_get d ''status'' VNone = VStr ''closed'' \<and> get_val d ''filled'' = VFloat q)))"
begin

text \<open>What the normalizer makes of such an answer.\<close>

lemma report:
  assumes "sane w" "is_num (o_quantity ord)" "create symb ty side (o_quantity ord) price w = (w', Inr raw)"
  shows "(r_status (normalize_response ord exch raw now) = FILLED \<and>
          r_filled (normalize_response ord exch raw now) = o_quantity ord) \<or>
         (r_status (normalize_response ord exch raw now) = SUBMITTED \<and>
          \<not> has_fill (normalize_response ord exch raw now))"
proof -
  obtain d where d: "raw = VDict d" "Fin 0 < o_quantity ord"
      and st: "(dict_get d ''status'' VNone = VStr ''open'' \<and> get_val d ''filled'' = VFloat (Fin 0)) \<or>
         (dict_get d ''status'' VNone = VStr ''closed'' \<and> get_val d ''filled'' = VFloat (o_quantity ord))"
    using answer [OF assms] by blast
  have nle: "\<not> o_quantity ord \<le> Fin 0" "o_quantity ord \<le> o_quantity ord"
    using d(2) by (cases "o_quantity ord"; simp)+
  have status: "dict_get d ''status'' (VStr ''submitted'') = v" if "dict_get d ''status'' VNone = v" "v \<noteq> VNone" for v
    using that by (auto simp: dict_get_def split: option.splits)
  from st show ?thesis
  proof
    assume "dict_get d ''status'' VNone = VStr ''open'' \<and> get_val d ''filled'' = VFloat (Fin 0)"
    then show ?thesis using nle status
      by (simp add: normalize_response_def payload_of_def d mapped_status_def status_map_def dict_get_def [of "_ # _"]
          final_status_def has_fill_def str_simps)
  next
    assume "dict_get d ''status'' VNone = VStr ''closed'' \<and> get_val d ''filled'' = VFloat (o_quantity ord)"
    then show ?thesis using nle status d(2)
      by (simp add: normalize_response_def payload_of_def d mapped_status_def status_map_def dict_get_def [of "_ # _"]
          final_status_def has_fill_def str_simps)
  qed
qed

end

lemma sim_payload_simps:
  "dict_get (sim_payload o1) ''status'' VNone = VStr (so_status o1)"
  "get_val (sim_payload o1) ''filled'' = VFloat (so_filled o1)"
  by (simp_all add: sim_payload_def dict_get_def get_val_def)

lemma sx_create_orderE:
  assumes "sx_create_order symb ty side q price x = (x', Inr raw)"
  obtains (resting) o1 where "sx_build_order symb (str_lower side) (str_lower ty) q price ''open'' (Fin 0) (Fin 0) (Fin 0) x = (x', o1)"
      "sx_fill_price symb (str_lower ty) (str_lower side) price x = Inr None"
      "raw = VDict (sim_payload o1)" "\<not> q \<le> Fin 0" "str_lower side \<in> {''buy'', ''sell''}" "str_lower ty \<in> {''market'', ''limit''}"
    | (filled) o1 p where "sx_build_order symb (str_lower side) (str_lower ty) q price ''closed'' q p
          (fee_calculate (sx_fee x) q p) x = (x', o1)"
      "sx_fill_price symb (str_lower ty) (str_lower side) price x = Inr (Some p)"
      "raw = VDict (sim_payload o1)" "\<not> q \<le> Fin 0" "str_lower side \<in> {''buy'', ''sell''}" "str_lower ty \<in> {''market'', ''limit''}"
proof -
  have ok: "\<not> q \<le> Fin 0" "str_lower side \<in> {''buy'', ''sell''}" "str_lower ty \<in> {''market'', ''limit''}"
    using assms by (simp_all add: sx_create_order_def Let_def split: if_splits)
  show thesis
  proof (cases "sx_fill_price symb (str_lower ty) (str_lower side) price x")
    case (Inl e)
    with assms ok show thesis by (simp add: sx_create_order_def Let_def split: if_splits)
  next
    case (Inr fp)
    obtain x1 o1 where rest: "sx_build_order symb (str_lower side) (str_lower ty) q price ''open'' (Fin 0) (Fin 0) (Fin 0) x = (x1, o1)"
      by fastforce
    show thesis
    proof (cases fp)
      case None
      with assms ok Inr rest show thesis
        by (intro resting [OF _ _ _ ok]) (auto simp: sx_create_order_def Let_def)
    next
      case (Some p)
      obtain x2 o2 where full: "sx_build_order symb (str_lower side) (str_lower ty) q price ''closed'' q p
          (fee_calculate (sx_fee x) q p) x = (x2, o2)" by fastforce
      with assms ok Inr Some show thesis
        by (intro filled [OF _ _ _ ok]) (auto simp: sx_create_order_def Let_def)
    qed
  qed
qed

lemma sx_build_order_fields:
  assumes "sx_build_order symb side ty q price status f a fee x = (x', o1)"
  shows "so_status o1 = status" "so_filled o1 = f" "so_average o1 = a" "so_fee o1 = fee" "so_amount o1 = q"
    "so_id o1 = ''sim-'' @ show_nat (sx_next x)" "sx_next x' = sx_next x + 1"
    "sx_orders x' = dict_set (so_id o1) o1 (sx_orders x)"
  using assms by (auto simp: sx_build_order_def Let_def)

interpretation sim_venue: venue sx_create_order "\<lambda>_. True"
proof unfold_locales
  fix symb ty side q price w w' raw
  assume num: "is_num q" and made: "sx_create_order symb ty side q price w = (w', Inr raw)"
  have pos: "Fin 0 < q" if "\<not> q \<le> Fin 0" using num that pyfloat_not_le [of q "Fin 0"] by simp
  from made show "Fin 0 < q \<and> (\<exists>d. raw = VDict d \<and>
        ((dict_get d ''status'' VNone = VStr ''open'' \<and> get_val d ''filled'' = VFloat (Fin 0)) \<or>
         (dict_get d ''status'' VNone = VStr ''closed'' \<and> get_val d ''filled'' = VFloat q)))"
  proof (cases rule: sx_create_orderE)
    case (resting o1)
    with pos sx_build_order_fields [OF resting(1)] show ?thesis by (simp add: sim_payload_simps)
  next
    case (filled o1 p)
    with pos sx_build_order_fields [OF filled(1)] show ?thesis by (simp add: sim_payload_simps)
  qed
qed

lemma slippage_fin:
  assumes "slippage_apply (Fin b) side (Fin a) = Inr p"
  shows "p = Fin (if str_upper side = ''BUY'' then a * (1 + b / 10000) else a * (1 - b / 10000))"
  using assms by (auto simp: slippage_apply_def Let_def split: if_splits)

lemma sx_fill_price_fin:
  assumes "sx_fill_price symb ty side price x = Inr (Some p)" "ty \<in> {''market'', ''limit''}" "side \<in> {''buy'', ''sell''}"
    and "(if side = ''buy'' then sx_best_ask symb x else sx_best_bid symb x) = Inr (Fin a)" "sx_bps x = Fin b"
    and "case price of None \<Rightarrow> True | Some l \<Rightarrow> is_num l"
  shows "p = Fin (if ty = ''market'' then (if side = ''buy'' then a * (1 + b / 10000) else a * (1 - b / 10000)) else a)"
    and "ty = ''limit'' \<Longrightarrow> \<exists>l. price = Some l \<and> Fin 0 < l \<and> (if side = ''buy'' then p \<le> l else l \<le> p)"
proof -
  have up: "str_upper ''buy'' = ''BUY''" "str_upper ''sell'' = ''SELL''" "str_upper ''BUY'' = ''BUY''"
      "str_upper ''SELL'' = ''SELL''" by (simp_all add: str_simps)
  have mm: "py_min l (Fin a) = Fin a" if "Fin a \<le> l" for l using that by (cases l) (auto simp: py_min_def)
  have mx: "py_max l (Fin a) = Fin a" if "l \<le> Fin a" for l using that by (cases l) (auto simp: py_max_def)
  have pos: "Fin 0 < l" if "\<not> l \<le> Fin 0" "is_num l" for l using that pyfloat_not_le [of l "Fin 0"] by simp
  show "p = Fin (if ty = ''market'' then (if side = ''buy'' then a * (1 + b / 10000) else a * (1 - b / 10000)) else a)"
    using assms by (auto simp: sx_fill_price_def rbind_Inr_iff up mm mx dest!: slippage_fin split: if_splits option.splits)
  then show "ty = ''limit'' \<Longrightarrow> \<exists>l. price = Some l \<and> Fin 0 < l \<and> (if side = ''buy'' then p \<le> l else l \<le> p)"
    using assms pos by (auto simp: sx_fill_price_def split: if_splits option.splits)
qed

section \<open>Runs of the exchange\<close>

datatype sim_event = TickIn market_tick | BookIn orderbook
  | OrderIn string string string pyfloat "pyfloat option"

fun sim_step :: "sim_event \<Rightarrow> sim_exchange \<Rightarrow> sim_exchange" where
  "sim_step (TickIn t) x = sx_update_tick t x"
| "sim_step (BookIn b) x = sx_update_orderbook b x"
| "sim_step (OrderIn symb ty side q price) x = fst (sx_create_order symb ty side q price x)"

definition sim_id :: "nat \<Rightarrow> string" where
  "sim_id n = ''sim-'' @ show_nat n"

lemma sim_id_inj [simp]: "sim_id m = sim_id n \<longleftrightarrow> m = n"
  by (auto simp: sim_id_def dest: show_nat_inj)

text \<open>The ids issued are the numbers up to the counter, in the order they were issued.\<close>

definition ids_issued :: "sim_exchange \<Rightarrow> bool" where
  "ids_issued x \<longleftrightarrow> 1 \<le> sx_next x \<and> map fst (sx_orders x) = map sim_id [1..<sx_next x] \<and>
     (\<forall>(k, o1) \<in> set (sx_orders x). so_id o1 = k \<and>
        ((so_status o1 = ''open'' \<and> so_filled o1 = Fin 0) \<or> (so_status o1 = ''closed'' \<and> so_filled o1 = so_amount o1)))"

lemma sx_create_order_appends:
  assumes "ids_issued x"
  shows "ids_issued (fst (sx_create_order symb ty side q price x)) \<and>
    (\<exists>new. sx_orders (fst (sx_create_order symb ty side q price x)) = sx_orders x @ new)"
proof (cases "sx_create_order symb ty side q price x")
  case (Pair x' r)
  have build: "ids_issued x' \<and> (\<exists>new. sx_orders x' = sx_orders x @ new)"
    if made: "sx_build_order symb s t q price st f a fee x = (x', o1)"
      and st: "(st = ''open'' \<and> f = Fin 0) \<or> (st = ''closed'' \<and> f = q)" for s t st f a fee o1
  proof -
    note new = sx_build_order_fields [OF made]
    have fresh: "so_id o1 \<notin> fst ` set (sx_orders x)"
    proof -
      have "fst ` set (sx_orders x) = sim_id ` {1..<sx_next x}"
        using assms unfolding ids_issued_def by (metis list.set_map set_upt)
      moreover have "so_id o1 = sim_id (sx_next x)" using new(6) by (simp add: sim_id_def)
      ultimately show ?thesis by auto
    qed
    have "sx_orders x' = sx_orders x @ [(so_id o1, o1)]" using new(8) fresh by (simp add: dict_set_new)
    moreover have "map sim_id [1..<sx_next x'] = map sim_id [1..<sx_next x] @ [so_id o1]"
      using assms new(6,7) by (simp add: ids_issued_def sim_id_def)
    ultimately show ?thesis using assms new st by (auto simp: ids_issued_def)
  qed
  show ?thesis
  proof (cases r)
    case (Inl e)
    have "x' = x" using Pair Inl
      by (auto simp: sx_create_order_def Let_def split: if_splits sum.splits option.splits prod.splits)
    with Pair assms show ?thesis by simp
  next
    case (Inr raw)
    from Pair [unfolded Inr] show ?thesis
      by (cases rule: sx_create_orderE) (use build Pair in auto)
  qed
qed

lemma sim_run_appends:
  "ids_issued x \<Longrightarrow> ids_issued (fold sim_step es x) \<and> (\<exists>new. sx_orders (fold sim_step es x) = sx_orders x @ new)"
proof (induction es arbitrary: x)
  case (Cons e es)
  have "ids_issued (sim_step e x) \<and> (\<exists>new. sx_orders (sim_step e x) = sx_orders x @ new)"
    using Cons.prems sx_create_order_appends
    by (cases e) (auto simp: sx_update_tick_def sx_update_orderbook_def ids_issued_def)
  with Cons.IH [of "sim_step e x"] show ?case by auto
qed simp

section \<open>Properties\<close>

text \<open>
  Fill prices of the simulated exchange. For finite figures, an order it fills is filled at the quote
  of the other side: a market order at that quote moved against it by the slippage, a limit order at
  the quote itself, which is then no worse than its limit; and the fee is the rate on the notional.
\<close>
theorem simulated_fill_price:
  assumes "sx_create_order symb ty side (Fin q) price x = (x', Inr (VDict d))" and "get_val d ''status'' = VStr ''closed''"
    and "(if str_lower side = ''buy'' then sx_best_ask symb x else sx_best_bid symb x) = Inr (Fin a)"
    and "sx_bps x = Fin b" "sx_fee x = Fin r" "case price of None \<Rightarrow> True | Some l \<Rightarrow> is_num l"
  shows "\<exists>p. get_val d ''average'' = VFloat (Fin p) \<and> get_val d ''filled'' = VFloat (Fin q) \<and>
    get_val d ''fee'' = VDict [(''cost'', VFloat (Fin (if 0 < p then q * p * r else 0)))] \<and>
    (str_lower ty = ''market'' \<longrightarrow> p = (if str_lower side = ''buy'' then a * (1 + b / 10000) else a * (1 - b / 10000))) \<and>
    (str_lower ty = ''limit'' \<longrightarrow> p = a \<and> (\<exists>l. price = Some l \<and> (if str_lower side = ''buy'' then Fin p \<le> l else l \<le> Fin p)))"
  using assms(1)
proof (cases rule: sx_create_orderE)
  case (resting o1)
  then show ?thesis using assms(2) sx_build_order_fields [OF resting(1)] by (simp add: sim_payload_def dict_simps)
next
  case (filled o1 p)
  note o1 = sx_build_order_fields [OF filled(1)]
  note price = sx_fill_price_fin [OF filled(2,6,5) assms(3,4,6)]
  have fee: "fee_calculate (Fin r) (Fin q) (Fin pr) = Fin (if 0 < pr then q * pr * r else 0)" for pr
    using filled(4) by (auto simp: fee_calculate_def)
  obtain pr where pr: "p = Fin pr" "pr = (if str_lower ty = ''market''
      then (if str_lower side = ''buy'' then a * (1 + b / 10000) else a * (1 - b / 10000)) else a)"
    using price(1) by simp
  have "d = sim_payload o1" using filled(3) by simp
  then have "get_val d ''average'' = VFloat (Fin pr)" "get_val d ''filled'' = VFloat (Fin q)"
      "get_val d ''fee'' = VDict [(''cost'', VFloat (Fin (if 0 < pr then q * pr * r else 0)))]"
    using o1 by (simp_all add: sim_payload_def dict_simps pr(1) assms(5) fee)
  moreover have "str_lower ty = ''limit'' \<longrightarrow> pr = a \<and>
      (\<exists>l. price = Some l \<and> (if str_lower side = ''buy'' then Fin pr \<le> l else l \<le> Fin pr))"
  proof
    assume ty: "str_lower ty = ''limit''"
    then have "pr = a" using pr(2) by simp
    moreover obtain l where "price = Some l" "if str_lower side = ''buy'' then Fin pr \<le> l else l \<le> Fin pr"
      using price(2) [OF ty] unfolding pr(1) by blast
    ultimately show "pr = a \<and> (\<exists>l. price = Some l \<and>
      (if str_lower side = ''buy'' then Fin pr \<le> l else l \<le> Fin pr))" by blast
  qed
  ultimately show ?thesis using pr(2) by (intro exI [of _ pr]) simp
qed

text \<open>
  Issued ids and resting orders. Over any sequence of ticks, books and orders from an empty exchange the
  orders are named by consecutive numbers without repetition, each is wholly filled or not at all,
  and no later event changes an order: an order that rests when it is placed never fills.
\<close>
theorem simulated_orders_immutable:
  shows "distinct (map fst (sx_orders (fold sim_step es (new_sim_exchange fee bps zone)))) \<and>
    (\<forall>(k, o1) \<in> set (sx_orders (fold sim_step es (new_sim_exchange fee bps zone))).
       so_filled o1 = Fin 0 \<and> so_status o1 = ''open'' \<or> so_filled o1 = so_amount o1 \<and> so_status o1 = ''closed'') \<and>
    (\<forall>k o1. map_of (sx_orders (fold sim_step es (new_sim_exchange fee bps zone))) k = Some o1 \<longrightarrow>
       map_of (sx_orders (fold sim_step (es @ later) (new_sim_exchange fee bps zone))) k = Some o1)"
proof -
  let ?x = "fold sim_step es (new_sim_exchange fee bps zone)"
  have "ids_issued (new_sim_exchange fee bps zone)" by (simp add: ids_issued_def new_sim_exchange_def)
  from sim_run_appends [OF this, of es] have x: "ids_issued ?x" ..
  obtain new where "sx_orders (fold sim_step later ?x) = sx_orders ?x @ new" using sim_run_appends [OF x] by blast
  then have later: "map_of (sx_orders (fold sim_step (es @ later) (new_sim_exchange fee bps zone))) k = Some o1"
    if "map_of (sx_orders ?x) k = Some o1" for k o1
    using that by (simp add: map_add_Some_iff)
  have "distinct (map fst (sx_orders ?x))" using x by (simp add: ids_issued_def distinct_map inj_on_def)
  with later x show ?thesis by (auto simp: ids_issued_def)
qed

text \<open>
  Orders through the pipeline in a backtest. When every registered exchange is the simulated one, an
  accepted order of a numeric quantity is FILLED for exactly its quantity, or it is SUBMITTED and the
  ledger, its positions and its trades, is what it was; no partial fill ever occurs.
\<close>
theorem backtest_all_or_nothing:
  assumes "submit pl ord marks uuid now ps = (ps', res)" and "pr_accepted res"
    and "\<forall>(name, x) \<in> set (pl_registry pl). x = simulated" and "is_num (o_quantity ord)"
  shows "(o_status (pr_order res) = FILLED \<and> o_filled (pr_order res) = o_quantity ord) \<or>
    (o_status (pr_order res) = SUBMITTED \<and> fs_ledger (ps_fills ps') = fs_ledger (ps_fills ps))"
  using assms(1)
proof (cases rule: submit_cases)
  case (answered ord1 x decision w' raw r ord2)
  then obtain rep fr where r: "r = Inr (rep, fr)" and res: "pr_order res = ord2"
    using assms(2) by (cases r) (auto simp: failed_result_def)
  from answered(1) obtain price where route: "find_best_exchange (pl_registry pl) (pl_allowed pl) (o_symbol ord)
      (side_value (o_side ord)) (ps_world ps) = Inr (x, price)" and "same_request ord1 ord"
    by (rule prepare_orderE)
  have x: "x = simulated" using found_registered [OF route] assms(3) by auto
  have q: "o_quantity ord1 = o_quantity ord"
    using answered(1) unfolding x by (rule prepare_keeps_quantity) (simp add: simulated_def)
  from answered(4) [unfolded r] obtain fs' where after:
      "rep = report_on x ord1 raw now" "ord2 = apply_report_status rep ((routed x ord1)\<lparr>o_status := SUBMITTED\<rparr>)"
      "process_fill (pl_fills pl) rep marks (o_strategy_id ((routed x ord1)\<lparr>o_status := SUBMITTED\<rparr>)) uuid now (ps_fills ps) = (fs', Inr fr)"
      "ps_fills ps' = fs'"
    by (auto elim: after_reportE)
  have made: "sx_create_order (o_symbol ord1) (str_lower (type_value (o_type ord1))) (str_lower (side_value (o_side ord1)))
      (o_quantity ((routed x ord1)\<lparr>o_status := SUBMITTED\<rparr>)) (o_price ord1) (ps_world ps) = (w', Inr raw)"
    using answered(3) by (simp add: sent_def x simulated_def routed_def)
  have "is_num (o_quantity ((routed x ord1)\<lparr>o_status := SUBMITTED\<rparr>))" using assms(4) q by (simp add: routed_def)
  from sim_venue.report [OF TrueI this made] after(1)
  have "(r_status rep = FILLED \<and> r_filled rep = o_quantity ord1) \<or> (r_status rep = SUBMITTED \<and> \<not> has_fill rep)"
    by (simp add: report_on_def routed_def)
  then show ?thesis
  proof
    assume "r_status rep = FILLED \<and> r_filled rep = o_quantity ord1"
    then show ?thesis using after(2) res q by (simp add: apply_report_status_def routed_def)
  next
    assume "r_status rep = SUBMITTED \<and> \<not> has_fill rep"
    then show ?thesis using after(2-4) res by (simp add: apply_report_status_def process_fill_def)
  qed
qed (use assms(2) in \<open>auto simp: failed_result_def\<close>)

section \<open>Witnesses\<close>

definition sample_sim :: sim_exchange where
  "sample_sim = sx_update_tick (sample_tick ''SIM'' 100) (new_sim_exchange (Fin (1 / 1000)) (Fin 2) 0)"

lemma sample_sim_simps:
  "sx_best_ask ''BTC'' sample_sim = Inr (Fin 100)" "sx_bps sample_sim = Fin 2" "sx_fee sample_sim = Fin (1 / 1000)"
  by (simp_all add: sx_best_ask_def sx_quote_def sample_sim_def new_sim_exchange_def sx_update_tick_def sample_tick_def)

lemma sample_limit_filled:
  "\<exists>x' d. sx_create_order ''BTC'' ''limit'' ''buy'' (Fin 3) (Some (Fin 120)) sample_sim = (x', Inr (VDict d)) \<and>
     get_val d ''status'' = VStr ''closed''"
  by (simp add: sx_create_order_def sx_fill_price_def sample_sim_simps sx_build_order_def sim_payload_def dict_simps
      str_simps)

theorem simulated_fill_price_witness:
  "\<exists>x' d. sx_create_order ''BTC'' ''limit'' ''buy'' (Fin 3) (Some (Fin 120)) sample_sim = (x', Inr (VDict d)) \<and>
     get_val d ''average'' = VFloat (Fin 100)"
proof -
  obtain x' d where d: "sx_create_order ''BTC'' ''limit'' ''buy'' (Fin 3) (Some (Fin 120)) sample_sim = (x', Inr (VDict d))"
      "get_val d ''status'' = VStr ''closed''"
    using sample_limit_filled by blast
  have low: "str_lower ''buy'' = ''buy''" "str_lower ''limit'' = ''limit''" by (simp_all add: str_simps)
  have quote: "(if str_lower ''buy'' = ''buy'' then sx_best_ask ''BTC'' sample_sim else sx_best_bid ''BTC'' sample_sim) =
      Inr (Fin 100)" by (simp add: low sample_sim_simps)
  have "case Some (Fin 120) of None \<Rightarrow> True | Some l \<Rightarrow> is_num l" by simp
  from simulated_fill_price [OF d quote sample_sim_simps(2,3) this] d(1) show ?thesis by (auto simp: low)
qed

definition sim_pipeline :: "sim_exchange pipeline" where
  "sim_pipeline =
     \<lparr>pl_registry = [(''SIMULATED'', simulated)], pl_allowed = [],
      pl_risk = \<lparr>pt_guard = \<lparr>g_max_gross = Fin 1000, g_max_net = Fin 1000, g_max_weight = Fin 1\<rparr>,
                 pt_max_order = Fin 1000, pt_min_order = Fin 1\<rparr>,
      pl_fills = sample_processor None, pl_database = None, pl_bus = None\<rparr>"

definition sim_state :: "sim_exchange pipe_state" where
  "sim_state = \<lparr>ps_world = sample_sim, ps_fills = empty_fill_state, ps_reports = [], ps_events = []\<rparr>"

text \<open>A limit order below the ask rests.\<close>

definition sim_bid :: order where
  "sim_bid = new_order ''BTC'' BUY (Fin 2) LIMIT (Some (Fin 90)) VNone ''cid'' sample_time"

lemma sim_prepare:
  "prepare_order sim_pipeline [] sim_state sim_bid =
     (sim_bid\<lparr>o_status := VALIDATED\<rparr>,
      Inr (simulated, \<lparr>d_allowed = True, d_reasons = [], d_gross = Fin 200, d_net = Fin 200, d_weight = Fin 1\<rparr>))"
proof -
  have "find_best_exchange [(''SIMULATED'', simulated)] [] ''BTC'' ''BUY'' sample_sim = Inr (simulated, Fin 100)"
    by (simp add: find_best_exchange_def reg_all_def usable_quote_def skipped_def simulated_def extract_price_def
        allowed_exchanges_def str_strip_def py_true_def str_simps sample_sim_simps)
  moreover have "apply_precision simulated w o1 = (o1, Inr ())" for w o1
    by (simp add: apply_precision_def andthen_def update_by_def precise_amount_def precise_price_def simulated_def
        split: option.split)
  ultimately show ?thesis
    by (simp add: prepare_order_def andthen_run move_order_def sim_bid_def new_order_def validate_order_def
        sim_pipeline_def sim_state_def andthen_def [of "apply_precision _ _"] query_def)
      (simp add: exchange_min_notional_def simulated_def empty_fill_state_def new_ledger_def positions_def
        pre_trade_validate_def projection_def exposure_calculate_def order_notional_def pre_trade_reasons_def
        effective_min_def Let_def)
qed

lemma sim_bid_rests:
  "\<exists>x' o1. sent simulated (sim_bid\<lparr>o_status := VALIDATED\<rparr>) sample_sim = (x', Inr (VDict (sim_payload o1))) \<and>
     so_status o1 = ''open'' \<and> so_filled o1 = Fin 0"
  by (simp add: sent_def sim_bid_def new_order_def simulated_def sx_create_order_def sx_fill_price_def sample_sim_simps
      sx_build_order_def str_simps) (rule exI, rule conjI, rule refl, simp)

theorem backtest_all_or_nothing_witness:
  "\<exists>ps' res. submit sim_pipeline sim_bid [] ''t'' sample_time sim_state = (ps', res) \<and>
     ((o_status (pr_order res) = FILLED \<and> o_filled (pr_order res) = Fin 2) \<or>
      (o_status (pr_order res) = SUBMITTED \<and> fs_ledger (ps_fills ps') = new_ledger))"
proof -
  obtain ps' res where run: "submit sim_pipeline sim_bid [] ''t'' sample_time sim_state = (ps', res)" by fastforce
  have reg: "\<forall>(name, x) \<in> set (pl_registry sim_pipeline). x = simulated" by (simp add: sim_pipeline_def)
  have num: "is_num (o_quantity sim_bid)" by (simp add: sim_bid_def new_order_def)
  from run have accepted: "pr_accepted res"
  proof (cases rule: submit_cases)
    case (answered ord1 x decision w' raw r ord2)
    have o1: "ord1 = sim_bid\<lparr>o_status := VALIDATED\<rparr>" "x = simulated" using answered(1) sim_prepare by auto
    have "ps_world sim_state = sample_sim" by (simp add: sim_state_def)
    then obtain o2 where "raw = VDict (sim_payload o2)" "so_filled o2 = Fin 0"
      using sim_bid_rests answered(3) unfolding o1 by auto
    then have "r_filled (report_on x ord1 raw sample_time) = Fin 0"
      by (simp add: report_on_def normalize_response_def payload_of_def sim_payload_def dict_simps Let_def)
    then have "\<not> has_fill (report_on x ord1 raw sample_time)" by (simp add: has_fill_def)
    then have "is_ok r" using answered(4)
      by (auto simp: after_report_eq record_report_def publish_event_def sim_pipeline_def process_fill_def)
    with answered(5) show ?thesis by (auto simp: is_ok_iff)
  qed (use sim_prepare sim_bid_rests in \<open>auto simp: sim_state_def\<close>)
  from backtest_all_or_nothing [OF run accepted reg num] run show ?thesis
    by (auto simp: sim_bid_def new_order_def sim_state_def empty_fill_state_def)
qed

text \<open>The price falls through the limit, and the order still rests.\<close>

theorem simulated_orders_immutable_witness:
  "\<exists>o1. map_of (sx_orders (fold sim_step ([TickIn (sample_tick ''SIM'' 100),
       OrderIn ''BTC'' ''limit'' ''buy'' (Fin 2) (Some (Fin 90))] @ [TickIn (sample_tick ''SIM'' 80)])
       (new_sim_exchange (Fin 0) (Fin 0) 0))) ''sim-1'' = Some o1 \<and> so_status o1 = ''open''"
proof -
  let ?es = "[TickIn (sample_tick ''SIM'' 100), OrderIn ''BTC'' ''limit'' ''buy'' (Fin 2) (Some (Fin 90))]"
  have one: "show_nat (Suc 0) = ''1''" by (simp add: show_nat.simps digit_char_def char_of_eq_iff)
  have "\<exists>o1. map_of (sx_orders (fold sim_step ?es (new_sim_exchange (Fin 0) (Fin 0) 0))) ''sim-1'' = Some o1 \<and>
      so_status o1 = ''open''"
    by (simp add: sx_create_order_def sx_fill_price_def sx_best_ask_def sx_quote_def sx_update_tick_def
        new_sim_exchange_def sample_tick_def sx_build_order_def str_simps one)
  then obtain o1 where "map_of (sx_orders (fold sim_step ?es (new_sim_exchange (Fin 0) (Fin 0) 0))) ''sim-1'' = Some o1"
      "so_status o1 = ''open''" by blast
  with simulated_orders_immutable [of ?es "Fin 0" "Fin 0" 0 "[TickIn (sample_tick ''SIM'' 80)]"] show ?thesis by blast
qed

end
