(* ===== verification/Backtest_Metrics.thy ===== *)
theory Backtest_Metrics
  imports Position_Ledger Py_Statistics
begin

text \<open>
  The figures of a backtest and the small helpers around it: the equity curve
  (\<open>backtesting/equity_curve.py\<close>), the performance figures (\<open>backtesting/performance_metrics.py\<close>), the
  candle engine (\<open>backtesting/backtest_engine.py\<close>), the replay clock (\<open>backtesting/replay_clock.py\<close>) and
  the split of \<open>backtesting/walk_forward.py\<close>.
\<close>

section \<open>Equity curve\<close>

record equity_point =
  ep_timestamp :: datetime
  ep_equity :: pyfloat
  ep_realized :: pyfloat
  ep_unrealized :: pyfloat
  ep_gross :: pyfloat
  ep_net :: pyfloat

definition point_to_dict :: "equity_point \<Rightarrow> (string \<times> pyval) list" where
  "point_to_dict p =
     [(''timestamp'', VStr (isoformat (ep_timestamp p))), (''equity'', VFloat (ep_equity p)),
      (''realized_pnl'', VFloat (ep_realized p)), (''unrealized_pnl'', VFloat (ep_unrealized p)),
      (''gross_exposure'', VFloat (ep_gross p)), (''net_exposure'', VFloat (ep_net p))]"

record equity_tracker =
  eq_initial :: pyfloat
  eq_points :: "equity_point list"

definition new_tracker :: "pyfloat \<Rightarrow> equity_tracker res" where
  "new_tracker initial =
     rbind (check_all [(initial \<le> Fin 0, ''initial_equity must be positive'')]) (\<lambda>_.
       Inr \<lparr>eq_initial = initial, eq_points = []\<rparr>)"

definition tracker_record ::
  "datetime \<Rightarrow> pyfloat \<Rightarrow> pyfloat \<Rightarrow> pyfloat \<Rightarrow> pyfloat \<Rightarrow> equity_tracker \<Rightarrow> equity_tracker \<times> equity_point" where
  "tracker_record ts realized unrealized gross net t =
     (let p = \<lparr>ep_timestamp = ts, ep_equity = eq_initial t + realized + unrealized, ep_realized = realized,
               ep_unrealized = unrealized, ep_gross = gross, ep_net = net\<rparr>
      in (t\<lparr>eq_points := eq_points t @ [p]\<rparr>, p))"

definition tracker_values :: "equity_tracker \<Rightarrow> pyfloat list" where
  "tracker_values t = map ep_equity (eq_points t)"

definition tracker_to_dict :: "equity_tracker \<Rightarrow> pyval list" where
  "tracker_to_dict t = map (\<lambda>p. VDict (point_to_dict p)) (eq_points t)"

section \<open>Performance figures\<close>

definition equity_from_trade_pnls :: "pyfloat list \<Rightarrow> pyfloat list" where
  "equity_from_trade_pnls pnls = foldl (\<lambda>curve pnl. curve @ [last curve + pnl]) [Fin 1] pnls"

fun equity_returns :: "pyfloat list \<Rightarrow> pyfloat list" where
  "equity_returns (previous # current # rest) =
     (if previous \<le> Fin 0 then equity_returns (current # rest)
      else (current - previous) / previous # equity_returns (current # rest))"
| "equity_returns _ = []"

definition sharpe :: "pyfloat list \<Rightarrow> pyfloat" where
  "sharpe returns =
     (if length returns < 2 then Fin 0
      else let sd = stdev returns in
           if sd = Fin 0 then Fin 0
           else py_mean returns / sd * Fin (sqrt (real (length returns))))"

definition sortino :: "pyfloat list \<Rightarrow> pyfloat" where
  "sortino returns =
     (if returns = [] then Fin 0
      else let downside = filter (\<lambda>v. v < Fin 0) returns in
           if length downside < 2 then Fin 0
           else let sd = stdev downside in
                if sd = Fin 0 then Fin 0
                else py_mean returns / sd * Fin (sqrt (real (length returns))))"

text \<open>The loop of \<open>_max_drawdown_pct\<close>: peak and largest drawdown so far.\<close>

fun drawdown_loop :: "pyfloat \<Rightarrow> pyfloat \<Rightarrow> pyfloat list \<Rightarrow> pyfloat" where
  "drawdown_loop peak worst [] = worst"
| "drawdown_loop peak worst (v # vs) =
     (let peak' = (if peak < v then v else peak) in
      if peak' \<le> Fin 0 then drawdown_loop peak' worst vs
      else let drawdown = (peak' - v) / peak' * Fin 100 in
           drawdown_loop peak' (if worst < drawdown then drawdown else worst) vs)"

definition max_drawdown_pct :: "pyfloat list \<Rightarrow> pyfloat" where
  "max_drawdown_pct values = drawdown_loop (hd values) (Fin 0) values"

text \<open>What the constructor arguments of \<open>calculate\<close> mean: the equity values and the trade profits.\<close>

definition floats_of :: "pyval list \<Rightarrow> pyfloat list res" where
  "floats_of vs = run_res (\<lambda>xs v. rbind (py_float v) (\<lambda>x. Inr (xs @ [x]))) [] vs"

definition trade_pnl :: "pyval \<Rightarrow> pyfloat res" where
  "trade_pnl v =
     (case v of
        VDict d \<Rightarrow> py_float (dict_get d ''pnl'' (VFloat (Fin 0)))
      | _ \<Rightarrow> Inl (AttributeError (text_msg ''object has no attribute get'')))"

definition read_series :: "pyval list \<Rightarrow> pyval list option \<Rightarrow> (pyfloat list \<times> pyfloat list) res" where
  "read_series source trade_pnls =
     (case trade_pnls of
        Some ts \<Rightarrow> rbind (floats_of source) (\<lambda>es. rbind (floats_of ts) (\<lambda>ps. Inr (es, ps)))
      | None \<Rightarrow>
          (case source of
             VDict d # _ \<Rightarrow>
               rbind (run_res (\<lambda>xs v. rbind (trade_pnl v) (\<lambda>x. Inr (xs @ [x]))) [] source)
                 (\<lambda>ps. Inr (equity_from_trade_pnls ps, ps))
           | _ \<Rightarrow> rbind (floats_of source) (\<lambda>es. Inr (es, []))))"

record performance =
  pf_total_pnl :: pyfloat
  pf_win_rate :: pyfloat
  pf_average :: pyfloat
  pf_max_win :: pyfloat
  pf_max_loss :: pyfloat
  pf_profit_factor :: pyfloat
  pf_trade_count :: nat
  pf_total_return :: pyfloat
  pf_max_drawdown :: pyfloat
  pf_sharpe :: pyfloat
  pf_sortino :: pyfloat
  pf_final_equity :: pyfloat

definition performance_of :: "pyfloat list \<Rightarrow> pyfloat list \<Rightarrow> performance" where
  "performance_of equity pnls =
     (let wins = filter (\<lambda>p. Fin 0 < p) pnls;
          losses = filter (\<lambda>p. p < Fin 0) pnls;
          n = length pnls;
          gross_profit = py_sum wins;
          gross_loss = \<bar>py_sum losses\<bar>;
          returns = equity_returns equity
      in \<lparr>pf_total_pnl = py_sum pnls,
          pf_win_rate = (if 0 < n then Fin (real (length wins)) / Fin (real n) * Fin 100 else Fin 0),
          pf_average = (if pnls = [] then Fin 0 else py_mean pnls),
          pf_max_win = (if wins = [] then Fin 0 else py_max_list wins),
          pf_max_loss = (if losses = [] then Fin 0 else py_min_list losses),
          pf_profit_factor =
            (if Fin 0 < gross_loss then gross_profit / gross_loss
             else if Fin 0 < gross_profit then PInf else Fin 0),
          pf_trade_count = n,
          pf_total_return =
            (if equity = [] then Fin 0
             else if Fin 0 < hd equity then (last equity - hd equity) / hd equity * Fin 100 else Fin 0),
          pf_max_drawdown = (if equity = [] then Fin 0 else max_drawdown_pct equity),
          pf_sharpe = (if equity = [] then Fin 0 else sharpe returns),
          pf_sortino = (if equity = [] then Fin 0 else sortino returns),
          pf_final_equity = (if equity = [] then Fin 0 else last equity)\<rparr>)"

text \<open>\<open>equity_values\<close>, when given, takes the place of the first argument.\<close>

definition calculate_performance ::
  "pyval list option \<Rightarrow> pyval list option \<Rightarrow> pyval list option \<Rightarrow> performance res" where
  "calculate_performance first trade_pnls equity_values =
     (let chosen = (case equity_values of Some vs \<Rightarrow> Some vs | None \<Rightarrow> first);
          source = (case chosen of None \<Rightarrow> [] | Some vs \<Rightarrow> vs)
      in rbind (read_series source trade_pnls) (\<lambda>(equity, pnls). Inr (performance_of equity pnls)))"

section \<open>Candle engine\<close>

record engine_trade =
  et_action :: string
  et_price :: pyfloat
  et_pnl :: "pyfloat option"

record engine =
  en_balance :: pyfloat
  en_position :: int
  en_trades :: "engine_trade list"

definition new_engine :: "pyfloat \<Rightarrow> engine" where
  "new_engine balance = \<lparr>en_balance = balance, en_position = 0, en_trades = []\<rparr>"

text \<open>One candle: the signal of the strategy and the closing price.\<close>

definition engine_step :: "engine \<Rightarrow> string \<times> pyfloat \<Rightarrow> engine" where
  "engine_step en candle =
     (case candle of (signal, price) \<Rightarrow>
        if signal = ''BUY''
        then en\<lparr>en_position := en_position en + 1,
                en_trades := en_trades en @ [\<lparr>et_action = ''BUY'', et_price = price, et_pnl = None\<rparr>]\<rparr>
        else if signal = ''SELL'' \<and> 0 < en_position en
        then (let pnl = price - et_price (last (en_trades en)) in
              en\<lparr>en_position := en_position en - 1, en_balance := en_balance en + pnl,
                 en_trades := en_trades en @ [\<lparr>et_action = ''SELL'', et_price = price, et_pnl = Some pnl\<rparr>]\<rparr>)
        else en)"

definition engine_run :: "engine \<Rightarrow> (string \<times> pyfloat) list \<Rightarrow> engine" where
  "engine_run = foldl engine_step"

section \<open>Replay clock\<close>

record replay_clock =
  rk_speed :: pyfloat
  rk_current :: "datetime option"
  rk_last :: "datetime option"

definition new_clock :: "pyfloat \<Rightarrow> replay_clock res" where
  "new_clock speed =
     rbind (check_all [(speed < Fin 0, ''Replay speed cannot be negative'')]) (\<lambda>_.
       Inr \<lparr>rk_speed = speed, rk_current = None, rk_last = None\<rparr>)"

text \<open>Times are compared as instants; the result holds the seconds slept.\<close>

definition seconds_between :: "datetime \<Rightarrow> datetime \<Rightarrow> real" where
  "seconds_between a b = of_int (instant b - instant a) / 1000000"

definition advance_to :: "datetime \<Rightarrow> replay_clock \<Rightarrow> replay_clock \<times> pyfloat res" where
  "advance_to t c =
     (case rk_last c of
        None \<Rightarrow> (c\<lparr>rk_last := Some t, rk_current := Some t\<rparr>, Inr (Fin 0))
      | Some l \<Rightarrow>
          (if instant t < instant l
           then (c, Inl (ValueError (text_msg ''Replay event timestamp moved backwards'')))
           else (let delta = seconds_between l t;
                     slept = (if Fin 0 < rk_speed c \<and> 0 < delta then Fin delta / rk_speed c else Fin 0)
                 in (c\<lparr>rk_last := Some t, rk_current := Some t\<rparr>, Inr slept))))"

section \<open>Walk-forward split\<close>

text \<open>\<open>int(len(data) * train_ratio)\<close> and the two slices at that index, which may be negative.\<close>

definition slice_index :: "int \<Rightarrow> nat \<Rightarrow> nat" where
  "slice_index i n = (if i < 0 then nat (max 0 (int n + i)) else min (nat i) n)"

definition split_data :: "'a list \<Rightarrow> pyfloat \<Rightarrow> ('a list \<times> 'a list) res" where
  "split_data data train_ratio =
     rbind (py_int_of_float (Fin (real (length data)) * train_ratio)) (\<lambda>i.
       let k = slice_index i (length data) in Inr (take k data, drop k data))"

lemma split_data_whole: "split_data data r = Inr (train, test) \<Longrightarrow> train @ test = data"
  by (auto simp: split_data_def rbind_Inr_iff Let_def)

section \<open>Drawdown\<close>

text \<open>The drop from a value to a later one, in percent of the first.\<close>

definition drop_pct :: "real \<Rightarrow> real \<Rightarrow> real" where
  "drop_pct p v = (p - v) / p * 100"

lemma drop_pct_mono: "0 < p \<Longrightarrow> p \<le> q \<Longrightarrow> 0 < v \<Longrightarrow> drop_pct p v \<le> drop_pct q v"
proof -
  assume p: "0 < p" "p \<le> q" "0 < v"
  then have "v / q \<le> v / p" by (intro divide_left_mono mult_pos_pos) simp_all
  then have "(p - v) / p \<le> (q - v) / q" using p by (simp add: diff_divide_distrib)
  then show ?thesis unfolding drop_pct_def by (rule mult_right_mono) simp
qed

fun worst_drop :: "real \<Rightarrow> real \<Rightarrow> real list \<Rightarrow> real" where
  "worst_drop p w [] = w"
| "worst_drop p w (v # vs) = worst_drop (max p v) (max w (drop_pct (max p v) v)) vs"

lemma drawdown_step:
  "0 < max p v \<Longrightarrow> drawdown_loop (Fin p) (Fin w) (Fin v # xs) =
     drawdown_loop (Fin (max p v)) (Fin (max w (drop_pct (max p v) v))) xs"
  by (cases "p < v") (simp_all add: Let_def drop_pct_def max_def not_less)

lemma drawdown_loop_real:
  "0 < p \<Longrightarrow> list_all (\<lambda>v. 0 < v) vs \<Longrightarrow> drawdown_loop (Fin p) (Fin w) (map Fin vs) = Fin (worst_drop p w vs)"
proof (induction vs arbitrary: p w)
  case (Cons v vs)
  have "0 < max p v" using Cons.prems(1) by simp
  from drawdown_step [OF this] Cons.IH [OF this] Cons.prems(2) show ?case
    by (simp del: drawdown_loop.simps)
qed simp

lemma worst_drop_upper:
  assumes "0 < p" "list_all (\<lambda>v. 0 < v) vs"
  shows "w \<le> worst_drop p w vs \<and> (\<forall>j < length vs. drop_pct p (vs ! j) \<le> worst_drop p w vs) \<and>
    (\<forall>j < length vs. \<forall>i \<le> j. drop_pct (vs ! i) (vs ! j) \<le> worst_drop p w vs)"
  using assms
proof (induction vs arbitrary: p w)
  case (Cons v vs)
  let ?q = "max p v" and ?W = "worst_drop p w (v # vs)"
  have q: "0 < ?q" "list_all (\<lambda>v. 0 < v) vs" "0 < v" using Cons.prems by auto
  have mono: "drop_pct p u \<le> drop_pct ?q u" "drop_pct v u \<le> drop_pct ?q u" if "0 < u" for u
    using drop_pct_mono [of p ?q u] drop_pct_mono [of v ?q u] Cons.prems(1) q(3) that by simp_all
  have IH: "max w (drop_pct ?q v) \<le> ?W" "\<forall>j < length vs. drop_pct ?q (vs ! j) \<le> ?W"
    "\<forall>j < length vs. \<forall>i \<le> j. drop_pct (vs ! i) (vs ! j) \<le> ?W"
    using Cons.IH [OF q(1,2), of "max w (drop_pct ?q v)"] by simp_all
  have later: "drop_pct p (vs ! k) \<le> ?W" "drop_pct v (vs ! k) \<le> ?W" if "k < length vs" for k
  proof -
    have "0 < vs ! k" using q(2) that by (simp add: list_all_length)
    from mono [OF this] IH(2) that show "drop_pct p (vs ! k) \<le> ?W" "drop_pct v (vs ! k) \<le> ?W"
      by (meson order_trans)+
  qed
  have first: "w \<le> ?W" "drop_pct p v \<le> ?W" "drop_pct v v \<le> ?W"
    using IH(1) mono [OF q(3)] by linarith+
  have "drop_pct p ((v # vs) ! j) \<le> ?W" if "j < length (v # vs)" for j
    using that first(2) later(1) by (cases j) auto
  moreover have "drop_pct ((v # vs) ! i) ((v # vs) ! j) \<le> ?W" if "j < length (v # vs)" "i \<le> j" for i j
    using that first(3) later(2) IH(3) by (cases i; cases j) auto
  ultimately show ?case using first(1) by blast
qed simp

lemma worst_drop_attained:
  "worst_drop p w vs = w \<or> (\<exists>j < length vs. worst_drop p w vs = drop_pct p (vs ! j)) \<or>
   (\<exists>j < length vs. \<exists>i \<le> j. worst_drop p w vs = drop_pct (vs ! i) (vs ! j))"
proof (induction vs arbitrary: p w)
  case (Cons v vs)
  let ?q = "max p v" and ?x = "max w (drop_pct (max p v) v)"
  consider (first) "worst_drop ?q ?x vs = ?x"
    | (peak) j where "j < length vs" "worst_drop ?q ?x vs = drop_pct ?q (vs ! j)"
    | (pair) i j where "i \<le> j" "j < length vs" "worst_drop ?q ?x vs = drop_pct (vs ! i) (vs ! j)"
    using Cons.IH [of ?q ?x] by blast
  then show ?case
  proof cases
    case first
    then consider "worst_drop p w (v # vs) = w" | "worst_drop p w (v # vs) = drop_pct p v"
      | "worst_drop p w (v # vs) = drop_pct v v"
      by (fastforce simp: max_def split: if_splits)
    then show ?thesis by cases (auto intro: exI [of _ 0])
  next
    case peak
    show ?thesis
    proof (cases "p \<le> v")
      case True
      then have "worst_drop p w (v # vs) = drop_pct ((v # vs) ! 0) ((v # vs) ! Suc j)"
        using peak by (simp add: max_def)
      then show ?thesis using peak(1) by (metis Suc_less_eq length_Cons le0)
    next
      case False
      then have "worst_drop p w (v # vs) = drop_pct p ((v # vs) ! Suc j)"
        using peak by (simp add: max_def)
      then show ?thesis using peak(1) by (metis Suc_less_eq length_Cons)
    qed
  next
    case pair
    then have "worst_drop p w (v # vs) = drop_pct ((v # vs) ! Suc i) ((v # vs) ! Suc j)" by simp
    then show ?thesis using pair(1,2) by (metis Suc_less_eq Suc_le_mono length_Cons)
  qed
qed simp

text \<open>
  C26. The one-pass drawdown is the right one: for a curve of positive finite values it is the largest
  percentage drop from any value to any later one, it is attained, and it lies between 0 and 100.
\<close>

theorem drawdown_is_largest_drop:
  assumes "vs \<noteq> []" "list_all (\<lambda>v. 0 < v) vs"
  shows "\<exists>m. max_drawdown_pct (map Fin vs) = Fin m \<and> 0 \<le> m \<and> m < 100 \<and>
    (\<forall>j < length vs. \<forall>i \<le> j. drop_pct (vs ! i) (vs ! j) \<le> m) \<and>
    (\<exists>j < length vs. \<exists>i \<le> j. m = drop_pct (vs ! i) (vs ! j))"
proof -
  have hd: "0 < hd vs" "hd (map Fin vs) = Fin (hd vs)" "hd vs = vs ! 0" "0 < length vs"
    using assms by (cases vs; simp)+
  define m where "m = worst_drop (hd vs) 0 vs"
  have run: "max_drawdown_pct (map Fin vs) = Fin m"
    using drawdown_loop_real [OF hd(1) assms(2), of 0] hd(2) by (simp add: max_drawdown_pct_def m_def)
  note upper = worst_drop_upper [OF hd(1) assms(2), of 0, folded m_def]
  have self: "drop_pct (vs ! 0) (vs ! 0) = 0" by (simp add: drop_pct_def)
  have "\<exists>j < length vs. \<exists>i \<le> j. m = drop_pct (vs ! i) (vs ! j)"
    using worst_drop_attained [of "hd vs" 0 vs, folded m_def] hd(3,4) self by (metis le0)
  moreover have "drop_pct (vs ! i) (vs ! j) < 100" if "i \<le> j" "j < length vs" for i j
  proof -
    have "0 < vs ! i" "0 < vs ! j" using assms(2) that by (simp_all add: list_all_length)
    then show ?thesis by (simp add: drop_pct_def diff_divide_distrib)
  qed
  ultimately show ?thesis using run upper by (intro exI [of _ m]) metis
qed

section \<open>Consistency of the figures\<close>

lemma equity_from_pnls_last:
  "last (equity_from_trade_pnls (map Fin ps)) = Fin (1 + sum_list ps) \<and> equity_from_trade_pnls (map Fin ps) \<noteq> []"
proof (induction ps rule: rev_induct)
  case (snoc p ps)
  then show ?case by (simp add: equity_from_trade_pnls_def add.assoc)
qed (simp add: equity_from_trade_pnls_def)

lemma py_sum_reals: "py_sum (map Fin ps) = Fin (sum_list ps)"
  by (induction ps) simp_all

lemma sum_split_signs:
  "sum_list (filter (\<lambda>p. 0 < p) ps) + sum_list (filter (\<lambda>p. p < 0) ps) = sum_list (ps :: real list)"
  by (induction ps) auto

lemma sum_signs:
  "0 \<le> sum_list (filter (\<lambda>p. 0 < p) (ps :: real list))" "sum_list (filter (\<lambda>p. p < 0) (ps :: real list)) \<le> 0"
  by (induction ps) auto

text \<open>
  The figures of a list of finite trade profits agree with each other: the total is the sum, the
  equity built from the trades ends at one plus the total, the win rate is between 0 and 100, and where
  there are losses the profit factor is above one exactly when the total is positive.
\<close>

theorem performance_consistent:
  defines "pf \<equiv> \<lambda>ps. performance_of (equity_from_trade_pnls (map Fin ps)) (map Fin ps)"
  shows "pf_total_pnl (pf ps) = Fin (sum_list ps) \<and> pf_final_equity (pf ps) = Fin (1 + sum_list ps) \<and>
    pf_trade_count (pf ps) = length ps \<and>
    Fin 0 \<le> pf_win_rate (pf ps) \<and> pf_win_rate (pf ps) \<le> Fin 100 \<and>
    ((\<exists>p \<in> set ps. p < 0) \<longrightarrow> (Fin 1 < pf_profit_factor (pf ps) \<longleftrightarrow> Fin 0 < pf_total_pnl (pf ps)))"
proof -
  have filt: "filter (\<lambda>p. Fin 0 < p) (map Fin ps) = map Fin (filter (\<lambda>p. 0 < p) ps)"
    "filter (\<lambda>p. p < Fin 0) (map Fin ps) = map Fin (filter (\<lambda>p. p < 0) ps)"
    by (simp_all add: filter_map comp_def)
  let ?w = "sum_list (filter (\<lambda>p. 0 < p) ps)" and ?l = "sum_list (filter (\<lambda>p. p < 0) ps)"
  have rate: "real (length (filter (\<lambda>p. 0 < p) ps)) / real (length ps) \<le> 1" by (simp add: divide_le_eq_1)
  have loss: "?l < 0" if "\<exists>p \<in> set ps. p < 0"
  proof -
    from that obtain p where "p \<in> set ps" "p < 0" by blast
    then show ?thesis
    proof (induction ps)
      case (Cons q qs)
      then show ?case using sum_signs(2) [of qs] by auto
    qed simp
  qed
  have factor: "Fin 1 < pf_profit_factor (pf ps) \<longleftrightarrow> 0 < sum_list ps" if "\<exists>p \<in> set ps. p < 0"
  proof -
    have "pf_profit_factor (pf ps) = Fin (?w / \<bar>?l\<bar>)"
      using loss [OF that] by (simp add: pf_def performance_of_def filt py_sum_reals Let_def)
    moreover have "1 < ?w / \<bar>?l\<bar> \<longleftrightarrow> \<bar>?l\<bar> < ?w" using loss [OF that] by (subst pos_less_divide_eq) simp_all
    ultimately show ?thesis using loss [OF that] sum_split_signs [of ps] by auto
  qed
  let ?r = "real (length (filter (\<lambda>p. 0 < p) ps)) / real (length ps)"
  have "pf_win_rate (pf ps) = (if ps = [] then Fin 0 else Fin (?r * 100))"
    by (simp add: pf_def performance_of_def filt Let_def)
  moreover have "0 \<le> ?r * 100" by simp
  moreover have "?r * 100 \<le> 1 * 100" using rate by (rule mult_right_mono) simp
  ultimately have "Fin 0 \<le> pf_win_rate (pf ps)" "pf_win_rate (pf ps) \<le> Fin 100" by simp_all
  moreover have "pf_total_pnl (pf ps) = Fin (sum_list ps)" "pf_trade_count (pf ps) = length ps"
    "pf_final_equity (pf ps) = Fin (1 + sum_list ps)"
    using equity_from_pnls_last [of ps] by (simp_all add: pf_def performance_of_def py_sum_reals Let_def)
  ultimately show ?thesis using factor by simp
qed

section \<open>The candle engine's accounting\<close>

text \<open>The balance counts, for each sale, the distance to the price of the trade before it.\<close>

definition booked_pnl :: "engine_trade list \<Rightarrow> real" where
  "booked_pnl ts = sum_list (map (\<lambda>t. case et_pnl t of None \<Rightarrow> 0 | Some p \<Rightarrow> val_of p) ts)"

definition cash_flow :: "engine_trade list \<Rightarrow> real" where
  "cash_flow ts = sum_list (map (\<lambda>t. if et_action t = ''SELL'' then val_of (et_price t) else - val_of (et_price t)) ts)"

fun alternating :: "engine_trade list \<Rightarrow> bool" where
  "alternating (a # b # ts) = (et_action a \<noteq> et_action b \<and> alternating (b # ts))"
| "alternating _ = True"

definition engine_ok :: "real \<Rightarrow> engine \<Rightarrow> bool" where
  "engine_ok b0 en \<longleftrightarrow>
     en_balance en = Fin (b0 + booked_pnl (en_trades en)) \<and> 0 \<le> en_position en \<and>
     list_all (\<lambda>t. is_fin (et_price t) \<and> et_action t \<in> {''BUY'', ''SELL''}) (en_trades en) \<and>
     (0 < en_position en \<longrightarrow> en_trades en \<noteq> []) \<and>
     en_position en = int (length (filter (\<lambda>t. et_action t = ''BUY'') (en_trades en))) -
       int (length (filter (\<lambda>t. et_action t = ''SELL'') (en_trades en))) \<and>
     (alternating (en_trades en) \<longrightarrow>
       (if en_trades en \<noteq> [] \<and> et_action (last (en_trades en)) = ''BUY''
        then booked_pnl (en_trades en) = cash_flow (en_trades en) + val_of (et_price (last (en_trades en)))
        else booked_pnl (en_trades en) = cash_flow (en_trades en)) \<and>
       (en_trades en \<noteq> [] \<longrightarrow> et_action (hd (en_trades en)) = ''BUY''))"

lemma alternating_snoc:
  "alternating (ts @ [t]) \<longleftrightarrow> alternating ts \<and> (ts \<noteq> [] \<longrightarrow> et_action (last ts) \<noteq> et_action t)"
  by (induction ts rule: alternating.induct) auto

lemma engine_ok_step:
  assumes ok: "engine_ok b0 en" and price: "is_fin (snd candle)"
  shows "engine_ok b0 (engine_step en candle)"
proof -
  obtain signal p where c: "candle = (signal, Fin p)" using price by (cases candle) (auto simp: is_fin_iff)
  consider (buy) "signal = ''BUY''" | (sell) "signal = ''SELL''" "0 < en_position en"
    | (none) "signal \<noteq> ''BUY''" "signal = ''SELL'' \<longrightarrow> \<not> 0 < en_position en" by blast
  then show ?thesis
  proof cases
    case buy
    with ok show ?thesis
      by (auto simp: engine_ok_def c engine_step_def booked_pnl_def cash_flow_def alternating_snoc hd_append)
  next
    case sell
    then have ne: "en_trades en \<noteq> []" using ok by (simp add: engine_ok_def)
    then have "is_fin (et_price (last (en_trades en)))" "et_action (last (en_trades en)) \<in> {''BUY'', ''SELL''}"
      using ok by (auto simp: engine_ok_def list_all_iff)
    then obtain q where q: "et_price (last (en_trades en)) = Fin q" by (auto simp: is_fin_iff)
    from ok sell ne q \<open>et_action (last (en_trades en)) \<in> _\<close> show ?thesis
      by (auto simp: engine_ok_def c engine_step_def booked_pnl_def cash_flow_def alternating_snoc hd_append Let_def)
  next
    case none
    then have "engine_step en candle = en" by (auto simp: c engine_step_def)
    with ok show ?thesis by simp
  qed
qed

lemma engine_run_ok:
  "engine_ok b0 en \<Longrightarrow> list_all (\<lambda>c. is_fin (snd c)) candles \<Longrightarrow> engine_ok b0 (engine_run en candles)"
  by (induction candles arbitrary: en) (simp_all add: engine_run_def engine_ok_step)

text \<open>
  The candle engine never sells short and counts its position right. As long as purchases and sales
  alternate, its final balance is the initial one plus the cash earned, an open purchase taken at cost;
  without alternation it is not, since each sale is measured against the trade before it.
\<close>

theorem engine_accounting:
  assumes "list_all (\<lambda>c. is_fin (snd c)) candles"
  shows "let en = engine_run (new_engine (Fin b0)) candles; ts = en_trades en in
    0 \<le> en_position en \<and> en_balance en = Fin (b0 + booked_pnl ts) \<and>
    (alternating ts \<and> en_position en = 0 \<longrightarrow> en_balance en = Fin (b0 + cash_flow ts))"
proof -
  have "engine_ok b0 (new_engine (Fin b0))"
    by (simp add: engine_ok_def new_engine_def booked_pnl_def cash_flow_def)
  from engine_run_ok [OF this assms] have ok: "engine_ok b0 (engine_run (new_engine (Fin b0)) candles)" .
  let ?en = "engine_run (new_engine (Fin b0)) candles"
  have "et_action (last (en_trades ?en)) \<noteq> ''BUY''"
    if "alternating (en_trades ?en)" "en_position ?en = 0" "en_trades ?en \<noteq> []"
  proof -
    have count: "alternating ts \<Longrightarrow> ts \<noteq> [] \<Longrightarrow> et_action (hd ts) = ''BUY'' \<Longrightarrow>
        list_all (\<lambda>t. et_action t \<in> {''BUY'', ''SELL''}) ts \<Longrightarrow>
        int (length (filter (\<lambda>t. et_action t = ''BUY'') ts)) - int (length (filter (\<lambda>t. et_action t = ''SELL'') ts)) =
          (if et_action (last ts) = ''BUY'' then 1 else 0)" for ts
    proof (induction ts rule: rev_induct)
      case (snoc t ts)
      have "ts \<noteq> [] \<Longrightarrow> et_action (last ts) \<in> {''BUY'', ''SELL''}"
        using snoc.prems(4) last_in_set [of ts] by (auto simp: list_all_iff)
      with snoc show ?case by (cases "ts = []") (auto simp: alternating_snoc split: if_splits)
    qed simp
    show ?thesis using count [of "en_trades ?en"] that ok by (auto simp: engine_ok_def list_all_iff)
  qed
  then have "booked_pnl (en_trades ?en) = cash_flow (en_trades ?en)"
    if "alternating (en_trades ?en)" "en_position ?en = 0"
    using that ok unfolding engine_ok_def by metis
  with ok show ?thesis by (simp add: engine_ok_def Let_def)
qed

text \<open>Two purchases and two sales: the engine books 20 where 40 was earned.\<close>

lemma engine_misprices_pyramids:
  "en_balance (engine_run (new_engine (Fin 0))
     [(''BUY'', Fin 10), (''BUY'', Fin 20), (''SELL'', Fin 30), (''SELL'', Fin 40)]) = Fin 20 \<and>
   cash_flow (en_trades (engine_run (new_engine (Fin 0))
     [(''BUY'', Fin 10), (''BUY'', Fin 20), (''SELL'', Fin 30), (''SELL'', Fin 40)])) = 40"
  by (simp add: engine_run_def engine_step_def new_engine_def cash_flow_def Let_def)

section \<open>The replay clock\<close>

definition clock_step :: "replay_clock \<Rightarrow> datetime \<Rightarrow> replay_clock \<times> pyfloat res" where
  "clock_step c t = advance_to t c"

text \<open>The times the clock accepted, and the seconds it slept for them.\<close>

definition accepted_times :: "datetime list \<Rightarrow> pyfloat res list \<Rightarrow> datetime list" where
  "accepted_times ts rs = map fst (filter (\<lambda>(t, r). is_ok r) (zip ts rs))"

definition slept :: "pyfloat res list \<Rightarrow> real" where
  "slept rs = sum_list (map (\<lambda>r. case r of Inl _ \<Rightarrow> 0 | Inr x \<Rightarrow> val_of x) rs)"

lemma clock_run:
  assumes "run_events clock_step c ts = (c', rs)" "rk_speed c = Fin s" "rk_last c = Some l" "rk_current c = Some l"
  shows "rk_speed c' = Fin s \<and> sorted (map instant (l # accepted_times ts rs)) \<and>
    rk_last c' = Some (last (l # accepted_times ts rs)) \<and> rk_current c' = rk_last c' \<and>
    slept rs = (if 0 < s then seconds_between l (last (l # accepted_times ts rs)) / s else 0)"
  using assms
proof (induction ts arbitrary: c rs l)
  case (Cons t ts)
  obtain c1 r where st: "clock_step c t = (c1, r)" by fastforce
  obtain rs1 where rest: "run_events clock_step c1 ts = (c', rs1)" "rs = r # rs1"
    using Cons.prems(1) st by (auto simp: Let_def split: prod.splits)
  show ?case
  proof (cases "instant t < instant l")
    case True
    then have "c1 = c" "\<not> is_ok r" using st Cons.prems(3) by (auto simp: clock_step_def advance_to_def)
    with Cons.IH [of c rs1 l] Cons.prems rest True st show ?thesis
      by (cases r) (simp_all add: accepted_times_def slept_def)
  next
    case False
    have d: "0 \<le> seconds_between l t" using False by (simp add: seconds_between_def)
    have r: "r = Inr (Fin (if 0 < s then seconds_between l t / s else 0))"
      and c1: "c1 = c\<lparr>rk_last := Some t, rk_current := Some t\<rparr>"
      using st False Cons.prems(2,3) d by (auto simp: clock_step_def advance_to_def Let_def)
    have "rk_speed c' = Fin s \<and> sorted (map instant (t # accepted_times ts rs1)) \<and>
        rk_last c' = Some (last (t # accepted_times ts rs1)) \<and> rk_current c' = rk_last c' \<and>
        slept rs1 = (if 0 < s then seconds_between t (last (t # accepted_times ts rs1)) / s else 0)"
      by (rule Cons.IH [OF rest(1)]) (simp_all add: c1 Cons.prems(2))
    moreover have "accepted_times (t # ts) rs = t # accepted_times ts rs1"
      by (simp add: accepted_times_def rest(2) r)
    moreover have "slept rs = (if 0 < s then seconds_between l t / s else 0) + slept rs1"
      by (simp add: slept_def rest(2) r)
    moreover have "seconds_between l t / s + seconds_between t x / s = seconds_between l x / s" for x
      by (simp add: seconds_between_def diff_divide_distrib)
    ultimately show ?thesis using False by auto
  qed
qed (simp add: accepted_times_def slept_def seconds_between_def)

text \<open>
  Replayed time never runs backwards: the event times the clock accepts never decrease, a rejected
  one leaves it where it was, its current time is the last accepted one, and the seconds it slept in
  all are the span of the accepted times divided by the speed, or none at speed zero.
\<close>

theorem replay_clock_monotone:
  assumes "new_clock (Fin s) = Inr c" "run_events clock_step c (t0 # ts) = (c', rs)"
  shows "sorted (map instant (accepted_times (t0 # ts) rs)) \<and> hd (accepted_times (t0 # ts) rs) = t0 \<and>
    rk_current c' = Some (last (accepted_times (t0 # ts) rs)) \<and>
    slept rs = (if 0 < s then seconds_between t0 (last (accepted_times (t0 # ts) rs)) / s else 0)"
proof -
  have c: "c = \<lparr>rk_speed = Fin s, rk_current = None, rk_last = None\<rparr>"
    using assms(1) by (auto simp: new_clock_def rbind_Inr_iff)
  let ?c = "c\<lparr>rk_last := Some t0, rk_current := Some t0\<rparr>"
  have "clock_step c t0 = (?c, Inr (Fin 0))" by (simp add: c clock_step_def advance_to_def)
  then obtain rs1 where rest: "run_events clock_step ?c ts = (c', rs1)" "rs = Inr (Fin 0) # rs1"
    using assms(2) by (auto simp: Let_def split: prod.splits)
  have "accepted_times (t0 # ts) rs = t0 # accepted_times ts rs1" "slept rs = slept rs1"
    by (simp_all add: accepted_times_def slept_def rest(2))
  with clock_run [OF rest(1), of s t0] show ?thesis by (simp add: c)
qed

section \<open>Witnesses\<close>

theorem drawdown_is_largest_drop_witness:
  "\<exists>m. max_drawdown_pct (map Fin [100, 120, 90, 130]) = Fin m \<and> drop_pct 120 90 \<le> m"
proof -
  have witness_values: "[100, 120, 90, 130 :: real] \<noteq> []" "list_all ((<) 0) [100, 120, 90, 130 :: real]" by simp_all
  have at_2: "[100, 120, 90, 130 :: real] ! Suc (Suc 0) = 90" "[100, 120, 90, 130 :: real] ! Suc 0 = 120" by simp_all
  obtain m where m: "max_drawdown_pct (map Fin [100, 120, 90, 130]) = Fin m"
    and drops: "\<forall>j < length [100, 120, 90, 130 :: real]. \<forall>i \<le> j.
      drop_pct ([100, 120, 90, 130] ! i) ([100, 120, 90, 130] ! j) \<le> m"
    using drawdown_is_largest_drop [OF witness_values] by (elim exE conjE) assumption
  have "drop_pct ([100, 120, 90, 130] ! Suc 0) ([100, 120, 90, 130] ! Suc (Suc 0)) \<le> m"
    by (rule drops [rule_format]) simp_all
  with m show ?thesis unfolding at_2 by blast
qed

theorem performance_consistent_witness:
  "pf_final_equity (performance_of (equity_from_trade_pnls (map Fin [3, - 1])) (map Fin [3, - 1])) = Fin 3"
  using performance_consistent [of "[3, - 1]"] by simp

theorem engine_accounting_witness:
  "en_balance (engine_run (new_engine (Fin 100)) [(''BUY'', Fin 10), (''HOLD'', Fin 11), (''SELL'', Fin 12)]) = Fin 102"
  using engine_accounting [of "[(''BUY'', Fin 10), (''HOLD'', Fin 11), (''SELL'', Fin 12)]" 100]
  by (simp add: engine_run_def engine_step_def new_engine_def cash_flow_def Let_def)

theorem replay_clock_monotone_witness:
  "\<exists>c' rs. run_events clock_step \<lparr>rk_speed = Fin 2, rk_current = None, rk_last = None\<rparr>
       [DT 2024 1 1 0 0 0 0 None, DT 2024 1 1 0 0 8 0 None, DT 2024 1 1 0 0 4 0 None] = (c', rs) \<and>
     hd (accepted_times [DT 2024 1 1 0 0 0 0 None, DT 2024 1 1 0 0 8 0 None, DT 2024 1 1 0 0 4 0 None] rs) =
       DT 2024 1 1 0 0 0 0 None"
proof -
  obtain c' rs where run: "run_events clock_step \<lparr>rk_speed = Fin 2, rk_current = None, rk_last = None\<rparr>
       [DT 2024 1 1 0 0 0 0 None, DT 2024 1 1 0 0 8 0 None, DT 2024 1 1 0 0 4 0 None] = (c', rs)"
    by fastforce
  have "new_clock (Fin 2) = Inr \<lparr>rk_speed = Fin 2, rk_current = None, rk_last = None\<rparr>" by (simp add: new_clock_def)
  from replay_clock_monotone [OF this run] run show ?thesis by blast
qed

end
