(* ===== verification/Replay.thy ===== *)
theory Replay
  imports Live_Strategy Simulated_Exchange Backtest_Metrics
begin

text \<open>
  Replaying recorded market data (\<open>backtesting/replay_source.py\<close>,
  \<open>backtesting/replay_market_data_service.py\<close>, \<open>backtesting/strategy_replay_service.py\<close>) and the
  loop of the backtest that waits for it (\<open>backtesting/backtest_runtime.py\<close>). A line of the file enters
  as what \<open>json.loads\<close> makes of it.
\<close>

section \<open>The recorded lines\<close>

datatype replay_line = Blank | Malformed | Row pyval

record replay_record =
  rr_type :: string
  rr_time :: datetime
  rr_payload :: payload

definition at_line :: "string \<Rightarrow> nat \<Rightarrow> string \<Rightarrow> py_exc" where
  "at_line what n detail = ValueError [Txt what, Txt '' at line '', Str (show_int (int n)), Str detail]"

definition parse_replay_time :: "pyval \<Rightarrow> nat \<Rightarrow> datetime res" where
  "parse_replay_time v n =
     (case as_number v of
        Some seconds \<Rightarrow>
          fromtimestamp (if Fin 1000000000000 < seconds then seconds / Fin 1000 else seconds)
      | None \<Rightarrow>
          (case v of
             VStr s \<Rightarrow>
               (case fromisoformat (replace_Z s) of
                  None \<Rightarrow> Inl (at_line ''Invalid replay timestamp'' n [])
                | Some d \<Rightarrow> to_utc d)
           | _ \<Rightarrow> Inl (at_line ''Missing replay timestamp'' n [])))"

definition parse_row :: "nat \<Rightarrow> pyval \<Rightarrow> replay_record res" where
  "parse_row n row =
     (case row of
        VDict d \<Rightarrow>
          (let ty = str_upper (py_str (dict_get d ''event_type'' (VStr []))) in
           if ty \<notin> {''MARKET_TICK'', ''ORDERBOOK_SNAPSHOT''}
           then Inl (at_line ''Unsupported replay event type'' n ty)
           else rbind (parse_replay_time (get_val d ''timestamp'') n) (\<lambda>t.
                case get_val d ''payload'' of
                  VDict payload \<Rightarrow> Inr \<lparr>rr_type = ty, rr_time = t, rr_payload = payload\<rparr>
                | _ \<Rightarrow> Inl (at_line ''Replay payload must be a dictionary'' n [])))
      | _ \<Rightarrow> Inl (AttributeError (text_msg ''object has no attribute get'')))"

text \<open>One step of the generator: what line \<open>n\<close> yields; a blank line yields nothing.\<close>

definition parse_line :: "nat \<Rightarrow> replay_line \<Rightarrow> replay_record option res" where
  "parse_line n l =
     (case l of
        Blank \<Rightarrow> Inr None
      | Malformed \<Rightarrow> Inl (at_line ''Invalid JSON'' n [])
      | Row row \<Rightarrow> rbind (parse_row n row) (\<lambda>r. Inr (Some r)))"

section \<open>The replay service\<close>

record replay_service =
  rp_clock :: replay_clock
  rp_store :: market_store
  rp_sim :: sim_exchange
  rp_published :: "market_event list"
  rp_records :: nat
  rp_ticks :: nat
  rp_books :: nat
  rp_failed :: nat
  rp_running :: bool

definition payload_exchange :: "payload \<Rightarrow> string" where
  "payload_exchange d = py_str (dict_get d ''exchange'' (VStr ''SIMULATED''))"

text \<open>\<open>now\<close> and \<open>clock\<close> are the readings of the two clocks while the record is handled.\<close>

definition replay_tick :: "replay_record \<Rightarrow> datetime \<Rightarrow> pyfloat \<Rightarrow> replay_service \<Rightarrow> replay_service res" where
  "replay_tick r now clock s =
     rbind (dict_index (rr_payload r) ''symbol'') (\<lambda>symb.
     rbind (normalize_ticker (payload_exchange (rr_payload r)) (py_str symb) (VDict (rr_payload r)) now) (\<lambda>t0.
     let t = t0\<lparr>tk_timestamp := rr_time r\<rparr> in
     Inr (s\<lparr>rp_store := update_tick t clock (rp_store s), rp_sim := sx_update_tick t (rp_sim s),
            rp_published := rp_published s @ [TickEvent (tick_to_dict t)], rp_ticks := rp_ticks s + 1\<rparr>)))"

definition replay_orderbook :: "replay_record \<Rightarrow> datetime \<Rightarrow> pyfloat \<Rightarrow> replay_service \<Rightarrow> replay_service res" where
  "replay_orderbook r now clock s =
     rbind (dict_index (rr_payload r) ''symbol'') (\<lambda>symb.
     rbind (py_int (dict_get (rr_payload r) ''depth'' (VInt 20))) (\<lambda>depth.
     rbind (normalize_orderbook (payload_exchange (rr_payload r)) (py_str symb) (VDict (rr_payload r)) depth now) (\<lambda>b0.
     let b = b0\<lparr>ob_timestamp := rr_time r\<rparr> in
     Inr (s\<lparr>rp_store := update_orderbook b clock (rp_store s), rp_sim := sx_update_orderbook b (rp_sim s),
            rp_published := rp_published s @ [BookEvent (book_to_dict b)], rp_books := rp_books s + 1\<rparr>))))"

text \<open>The body of the loop of \<open>run\<close>: the clock moves first, and a failure is counted.\<close>

definition replay_step :: "replay_record \<Rightarrow> datetime \<Rightarrow> pyfloat \<Rightarrow> replay_service \<Rightarrow> replay_service" where
  "replay_step r now clock s =
     (case advance_to (rr_time r) (rp_clock s) of
        (c, Inl _) \<Rightarrow> s\<lparr>rp_clock := c, rp_failed := rp_failed s + 1\<rparr>
      | (c, Inr _) \<Rightarrow>
          (let s1 = s\<lparr>rp_clock := c\<rparr> in
           case (if rr_type r = ''MARKET_TICK'' then replay_tick r now clock s1
                 else if rr_type r = ''ORDERBOOK_SNAPSHOT'' then replay_orderbook r now clock s1
                 else Inr s1) of
             Inl _ \<Rightarrow> s1\<lparr>rp_failed := rp_failed s1 + 1\<rparr>
           | Inr s2 \<Rightarrow> s2\<lparr>rp_records := rp_records s2 + 1\<rparr>))"

text \<open>
  \<open>run\<close> from line \<open>n\<close> on. The service is stopped by another task after \<open>k\<close> more records, which the
  loop notices at the next one. An exception of the generator leaves \<open>run\<close> at once.
\<close>

fun replay_run ::
  "(nat \<Rightarrow> datetime) \<Rightarrow> (nat \<Rightarrow> pyfloat) \<Rightarrow> nat \<Rightarrow> nat \<Rightarrow> replay_line list \<Rightarrow> replay_service
     \<Rightarrow> replay_service \<times> unit res" where
  "replay_run now clock n k [] s = (s\<lparr>rp_running := False\<rparr>, Inr ())"
| "replay_run now clock n k (l # ls) s =
     (case parse_line n l of
        Inl e \<Rightarrow> (s\<lparr>rp_running := rp_running s \<and> k \<noteq> 0\<rparr>, Inl e)
      | Inr None \<Rightarrow> replay_run now clock (Suc n) k ls s
      | Inr (Some r) \<Rightarrow>
          (case k of
             0 \<Rightarrow> (s\<lparr>rp_running := False\<rparr>, Inr ())
           | Suc k' \<Rightarrow> replay_run now clock (Suc n) k' ls (replay_step r (now n) (clock n) s)))"

definition new_replay_service :: "replay_clock \<Rightarrow> market_store \<Rightarrow> sim_exchange \<Rightarrow> replay_service" where
  "new_replay_service c m x =
     \<lparr>rp_clock = c, rp_store = m, rp_sim = x, rp_published = [], rp_records = 0, rp_ticks = 0, rp_books = 0,
      rp_failed = 0, rp_running = True\<rparr>"

definition replay_metrics :: "replay_service \<Rightarrow> (string \<times> pyval) list" where
  "replay_metrics s =
     [(''records_processed'', VInt (int (rp_records s))), (''ticks_published'', VInt (int (rp_ticks s))),
      (''orderbooks_published'', VInt (int (rp_books s))), (''failed_records'', VInt (int (rp_failed s)))]"

section \<open>The strategy under replay\<close>

text \<open>What a strategy returns: an item of an iterable that is not a signal is \<open>None\<close>.\<close>

datatype strategy_output =
    Nothing
  | One_Signal trade_signal
  | Iterable "trade_signal option list"
  | Other_Value

definition normalize_signals :: "strategy_output \<Rightarrow> trade_signal list res" where
  "normalize_signals v =
     (case v of
        Nothing \<Rightarrow> Inr []
      | One_Signal sig \<Rightarrow> Inr [sig]
      | Iterable items \<Rightarrow>
          (if None \<in> set items
           then Inl (TypeError (text_msg ''Strategy iterable must contain TradeSignal objects''))
           else Inr (map the items))
      | Other_Value \<Rightarrow>
          Inl (TypeError (text_msg ''Strategy output must be TradeSignal, iterable[TradeSignal], or None'')))"

record 's strategy_replay =
  sr_strategy :: 's
  sr_ticks :: nat
  sr_emitted :: nat
  sr_requested :: nat
  sr_failures :: nat
  sr_published :: "order_request list"

type_synonym 's tick_method = "'s \<Rightarrow> payload \<Rightarrow> 's \<times> strategy_output res"

definition invoke_strategy :: "'s tick_method option \<Rightarrow> 's tick_method option \<Rightarrow> 's tick_method" where
  "invoke_strategy on_tick generate st d =
     (case (on_tick, generate) of
        (Some f, _) \<Rightarrow> f st d
      | (None, Some f) \<Rightarrow> f st d
      | (None, None) \<Rightarrow>
          (st, Inl (AttributeError (text_msg ''Strategy must expose on_market_tick() or generate_signal()''))))"

fun emit_signals ::
  "(string, pyfloat) pydict \<Rightarrow> (nat \<Rightarrow> string) \<Rightarrow> datetime \<Rightarrow> trade_signal list \<Rightarrow> 's strategy_replay
     \<Rightarrow> 's strategy_replay \<times> unit res" where
  "emit_signals marks ids now [] svc = (svc, Inr ())"
| "emit_signals marks ids now (sig # sigs) svc =
     (case rbind (signal_validate sig) (\<lambda>_. to_order sig (ids (sr_requested svc)) now) of
        Inl e \<Rightarrow> (svc, Inl e)
      | Inr ord \<Rightarrow>
          emit_signals marks ids now sigs
            (svc\<lparr>sr_published := sr_published svc @ [\<lparr>or_payload = VDict (encode_order ord), or_marks = marks\<rparr>],
                 sr_emitted := sr_emitted svc + 1, sr_requested := sr_requested svc + 1\<rparr>))"

definition replay_on_tick ::
  "'s tick_method \<Rightarrow> market_store \<Rightarrow> (nat \<Rightarrow> string) \<Rightarrow> datetime \<Rightarrow> 's strategy_replay \<Rightarrow> payload
     \<Rightarrow> 's strategy_replay" where
  "replay_on_tick invoke store ids now svc d =
     (case invoke (sr_strategy svc) d of
        (s', r) \<Rightarrow>
          (let svc1 = svc\<lparr>sr_ticks := sr_ticks svc + 1, sr_strategy := s'\<rparr> in
           case rbind r normalize_signals of
             Inl _ \<Rightarrow> svc1\<lparr>sr_failures := sr_failures svc1 + 1\<rparr>
           | Inr sigs \<Rightarrow>
               (case emit_signals (mark_prices store) ids now sigs svc1 of
                  (svc2, Inr _) \<Rightarrow> svc2
                | (svc2, Inl _) \<Rightarrow> svc2\<lparr>sr_failures := sr_failures svc2 + 1\<rparr>)))"

definition new_strategy_replay :: "'s \<Rightarrow> 's strategy_replay" where
  "new_strategy_replay st =
     \<lparr>sr_strategy = st, sr_ticks = 0, sr_emitted = 0, sr_requested = 0, sr_failures = 0, sr_published = []\<rparr>"

definition strategy_replay_metrics :: "'s strategy_replay \<Rightarrow> (string \<times> pyval) list" where
  "strategy_replay_metrics svc =
     [(''market_ticks_seen'', VInt (int (sr_ticks svc))), (''signals_emitted'', VInt (int (sr_emitted svc))),
      (''orders_requested'', VInt (int (sr_requested svc))), (''signal_failures'', VInt (int (sr_failures svc)))]"

section \<open>The loop of the backtest\<close>

record backtest =
  bt_ledger :: ledger
  bt_replay :: replay_service
  bt_tracker :: equity_tracker

text \<open>\<open>_record_equity_point\<close>: mark the positions and record the equity at the replayed time.\<close>

definition record_equity_point :: "datetime \<Rightarrow> backtest \<Rightarrow> backtest" where
  "record_equity_point now bt =
     (let marks = mark_prices (rp_store (bt_replay bt));
          l = mark_positions (bt_ledger bt) marks now;
          e = exposure_calculate (positions l) marks;
          unrealized = py_sum (map (\<lambda>(_, p). p_unrealized p) (positions l));
          ts = (case rk_current (rp_clock (bt_replay bt)) of None \<Rightarrow> now | Some t \<Rightarrow> t)
      in bt\<lparr>bt_ledger := l,
            bt_tracker := fst (tracker_record ts (l_realized l) unrealized (e_gross e) (e_net e) (bt_tracker bt))\<rparr>)"

text \<open>
  \<open>while replay_service.running: ...; await asyncio.sleep(0)\<close>: \<open>others\<close> is what the other tasks do while
  the loop sleeps. \<open>None\<close> means that the loop is still waiting after the given number of turns.
\<close>

fun backtest_loop :: "(backtest \<Rightarrow> backtest) \<Rightarrow> datetime \<Rightarrow> nat \<Rightarrow> backtest \<Rightarrow> backtest option" where
  "backtest_loop others now 0 bt = None"
| "backtest_loop others now (Suc n) bt =
     (if rp_running (bt_replay bt) then backtest_loop others now n (others (record_equity_point now bt))
      else Some bt)"


section \<open>The loop ends only on a clean file\<close>

lemma replay_run_result:
  assumes "replay_run now clock n k ls s = (s', r)" "length ls \<le> k" "rp_running s"
  shows "(is_ok r \<longleftrightarrow> (\<forall>i < length ls. is_ok (parse_line (n + i) (ls ! i)))) \<and> (rp_running s' \<longleftrightarrow> \<not> is_ok r)"
  using assms
proof (induction now clock n k ls s rule: replay_run.induct)
  case (2 now clock n k l ls s)
  have all: "(\<forall>i < length (l # ls). is_ok (parse_line (n + i) ((l # ls) ! i))) \<longleftrightarrow>
      is_ok (parse_line n l) \<and> (\<forall>i < length ls. is_ok (parse_line (Suc n + i) (ls ! i)))"
    by (auto simp: nth_Cons' less_Suc_eq_0_disj)
  obtain k' where k: "k = Suc k'" using 2(4) by (cases k) auto
  have run: "rp_running (replay_step rec t c s)" for rec t c
    using 2(5) by (auto simp: replay_step_def replay_tick_def replay_orderbook_def rbind_def Let_def
        split: prod.splits sum.splits)
  show ?case
  proof (cases "parse_line n l")
    case (Inl e)
    then show ?thesis unfolding all using 2(3,5) k by auto
  next
    case (Inr o1)
    then show ?thesis unfolding all using 2 k run by (cases o1) auto
  qed
qed auto

lemma backtest_loop_waits:
  assumes "\<And>b. bt_replay (others b) = bt_replay b" "rp_running (bt_replay bt)"
  shows "backtest_loop others now n bt = None"
  using assms(2) by (induction n arbitrary: bt) (simp_all add: assms(1) record_equity_point_def Let_def)

text \<open>
  C30. A line that cannot be parsed hangs the backtest. The replay of a file ends without an exception
  exactly if every line parses; if one does not, the exception leaves the replay task with the service
  still marked as running, and the loop of the backtest, which nothing else ends, waits for ever.
\<close>

theorem bad_line_hangs_backtest:
  assumes "replay_run now clock 1 (length ls) ls (new_replay_service c m x) = (s, r)"
    and "\<And>b. bt_replay (others b) = bt_replay b" "bt_replay bt = s"
  shows "(is_ok r \<longleftrightarrow> (\<forall>i < length ls. is_ok (parse_line (Suc i) (ls ! i)))) \<and>
    (is_ok r \<longrightarrow> backtest_loop others t 1 bt = Some bt) \<and>
    (\<not> is_ok r \<longrightarrow> (\<forall>n. backtest_loop others t n bt = None))"
proof -
  have run: "is_ok r \<longleftrightarrow> (\<forall>i < length ls. is_ok (parse_line (Suc i) (ls ! i)))" "rp_running s \<longleftrightarrow> \<not> is_ok r"
    using replay_run_result [OF assms(1)] by (simp_all add: new_replay_service_def)
  moreover have "backtest_loop others t n bt = None" if "\<not> is_ok r" for n
    using backtest_loop_waits [of others, OF assms(2)] that run(2) assms(3) by blast
  ultimately show ?thesis using assms(3) by auto
qed

section \<open>No look-ahead\<close>

definition seen :: "replay_clock \<Rightarrow> datetime \<Rightarrow> bool" where
  "seen c t \<longleftrightarrow> (case rk_current c of None \<Rightarrow> False | Some l \<Rightarrow> instant t \<le> instant l)"

text \<open>
  The quotes of the simulated exchange are those of the store, under the key of their exchange, and
  no quote is newer than the replayed time.
\<close>

definition replay_ok :: "replay_service \<Rightarrow> bool" where
  "replay_ok s \<longleftrightarrow> rk_current (rp_clock s) = rk_last (rp_clock s) \<and>
     (\<forall>sym t. map_of (sx_ticks (rp_sim s)) sym = Some t \<longrightarrow> tk_symbol t = sym \<and> CHR '':'' \<notin> set (tk_exchange t) \<and>
        latest_tick (tk_exchange t) sym (rp_store s) = Some t) \<and>
     (\<forall>sym b. map_of (sx_books (rp_sim s)) sym = Some b \<longrightarrow> ob_symbol b = sym \<and> CHR '':'' \<notin> set (ob_exchange b) \<and>
        latest_orderbook (ob_exchange b) sym (rp_store s) = Some b) \<and>
     (\<forall>k t. map_of (ms_ticks (rp_store s)) k = Some t \<longrightarrow> seen (rp_clock s) (tk_timestamp t)) \<and>
     (\<forall>k b. map_of (ms_books (rp_store s)) k = Some b \<longrightarrow> seen (rp_clock s) (ob_timestamp b)) \<and>
     dict_ok (ms_ticks (rp_store s)) \<and> dict_ok (ms_books (rp_store s)) \<and>
     rp_ticks s + rp_books s = rp_records s \<and> length (rp_published s) = rp_records s"


lemma seen_mono: "seen c t \<Longrightarrow> rk_current c = rk_last c \<Longrightarrow> advance_to t' c = (c', Inr x) \<Longrightarrow> seen c' t"
  by (auto simp: seen_def advance_to_def Let_def split: option.splits if_splits)

lemma advance_to_facts:
  assumes "advance_to t c = (c', r)" "rk_current c = rk_last c"
  shows "rk_current c' = rk_last c'" "is_ok r \<Longrightarrow> seen c' t" "\<not> is_ok r \<Longrightarrow> c' = c"
  using assms by (auto simp: seen_def advance_to_def Let_def split: option.splits if_splits)

lemma replay_step_ok:
  assumes "replay_ok s" "CHR '':'' \<notin> set (payload_exchange (rr_payload r))"
    and "rr_type r \<in> {''MARKET_TICK'', ''ORDERBOOK_SNAPSHOT''}"
  shows "replay_ok (replay_step r now clock s)"
proof -
  obtain c res where adv: "advance_to (rr_time r) (rp_clock s) = (c, res)" by fastforce
  have cur: "rk_current (rp_clock s) = rk_last (rp_clock s)" using assms(1) by (simp add: replay_ok_def)
  note facts = advance_to_facts [OF adv cur]
  show ?thesis
  proof (cases res)
    case (Inl e)
    then have "c = rp_clock s" using facts(3) by simp
    with assms(1) adv Inl show ?thesis by (simp add: replay_step_def replay_ok_def)
  next
    case (Inr x)
    let ?s = "s\<lparr>rp_clock := c\<rparr>"
    have mono: "seen (rp_clock s) t \<Longrightarrow> seen c t" for t using seen_mono adv cur Inr by blast
    have ok1: "replay_ok ?s" using assms(1) facts(1) mono by (simp add: replay_ok_def)
    have new: "seen c (rr_time r)" using facts(2) Inr by simp
    show ?thesis
    proof (cases "rr_type r = ''MARKET_TICK''")
      case True
      show ?thesis
      proof (cases "replay_tick r now clock ?s")
        case (Inl e)
        then show ?thesis using ok1 True adv Inr by (simp add: replay_step_def replay_ok_def)
      next
        case tick: (Inr s2)
        then obtain symb t0 where t0: "normalize_ticker (payload_exchange (rr_payload r)) symb (VDict (rr_payload r)) now = Inr t0"
            "s2 = ?s\<lparr>rp_store := update_tick (t0\<lparr>tk_timestamp := rr_time r\<rparr>) clock (rp_store s),
               rp_sim := sx_update_tick (t0\<lparr>tk_timestamp := rr_time r\<rparr>) (rp_sim s),
               rp_published := rp_published s @ [TickEvent (tick_to_dict (t0\<lparr>tk_timestamp := rr_time r\<rparr>))],
               rp_ticks := rp_ticks s + 1\<rparr>"
          by (auto simp: replay_tick_def rbind_Inr_iff Let_def)
        have name: "tk_exchange t0 = payload_exchange (rr_payload r)" using normalized_names(1) [OF t0(1)] by simp
        have "replay_step r now clock s = s2\<lparr>rp_records := rp_records s2 + 1\<rparr>"
          using True adv Inr tick by (simp add: replay_step_def)
        then show ?thesis using ok1 new assms(2)
          by (auto simp: replay_ok_def t0(2) update_tick_def sx_update_tick_def latest_tick_def latest_orderbook_def
              AList.update_conv' AList.distinct_update market_key_inj name Let_def split: if_splits)
      qed
    next
      case False
      then have ty: "rr_type r = ''ORDERBOOK_SNAPSHOT''" using assms(3) by simp
      show ?thesis
      proof (cases "replay_orderbook r now clock ?s")
        case (Inl e)
        then show ?thesis using ok1 ty adv Inr by (simp add: replay_step_def replay_ok_def)
      next
        case book: (Inr s2)
        then obtain symb depth b0 where b0:
            "normalize_orderbook (payload_exchange (rr_payload r)) symb (VDict (rr_payload r)) depth now = Inr b0"
            "s2 = ?s\<lparr>rp_store := update_orderbook (b0\<lparr>ob_timestamp := rr_time r\<rparr>) clock (rp_store s),
               rp_sim := sx_update_orderbook (b0\<lparr>ob_timestamp := rr_time r\<rparr>) (rp_sim s),
               rp_published := rp_published s @ [BookEvent (book_to_dict (b0\<lparr>ob_timestamp := rr_time r\<rparr>))],
               rp_books := rp_books s + 1\<rparr>"
          by (auto simp: replay_orderbook_def rbind_Inr_iff Let_def)
        have name: "ob_exchange b0 = payload_exchange (rr_payload r)" using normalized_names(2) [OF b0(1)] by simp
        have "replay_step r now clock s = s2\<lparr>rp_records := rp_records s2 + 1\<rparr>"
          using ty adv Inr book by (simp add: replay_step_def)
        then show ?thesis using ok1 new assms(2)
          by (auto simp: replay_ok_def b0(2) update_orderbook_def sx_update_orderbook_def latest_tick_def latest_orderbook_def
              AList.update_conv' AList.distinct_update market_key_inj name Let_def split: if_splits)
      qed
    qed
  qed
qed


lemma parse_line_record:
  assumes "parse_line n l = Inr (Some r)"
  shows "rr_type r \<in> {''MARKET_TICK'', ''ORDERBOOK_SNAPSHOT''} \<and>
    (\<exists>d. l = Row (VDict d) \<and> get_val d ''payload'' = VDict (rr_payload r))"
proof (cases l)
  case (Row row)
  with assms have row: "parse_row n row = Inr r" by (auto simp: parse_line_def rbind_Inr_iff)
  then obtain d where d: "row = VDict d" by (cases row) (auto simp: parse_row_def)
  show ?thesis
    by (cases "get_val d ''payload''") (use row in \<open>auto simp: Row d parse_row_def rbind_Inr_iff Let_def split: if_splits\<close>)
qed (use assms in \<open>auto simp: parse_line_def\<close>)

definition plain_exchanges :: "replay_line list \<Rightarrow> bool" where
  "plain_exchanges ls \<longleftrightarrow> (\<forall>l \<in> set ls. \<forall>d payload.
     l = Row (VDict d) \<and> get_val d ''payload'' = VDict payload \<longrightarrow> CHR '':'' \<notin> set (payload_exchange payload))"

lemma parse_line_exchange:
  "parse_line n l = Inr (Some r) \<Longrightarrow> plain_exchanges (l # ls) \<Longrightarrow> CHR '':'' \<notin> set (payload_exchange (rr_payload r))"
  using parse_line_record [of n l r] by (auto simp: plain_exchanges_def)

lemma replay_run_ok:
  assumes "replay_run now clock n k ls s = (s', r)" "replay_ok s" "plain_exchanges ls"
  shows "replay_ok s'"
  using assms
proof (induction now clock n k ls s rule: replay_run.induct)
  case (2 now clock n k l ls s)
  have tl: "plain_exchanges ls" using 2(5) unfolding plain_exchanges_def by (meson list.set_intros(2))
  show ?case
  proof (cases "parse_line n l")
    case (Inl e)
    with 2(3,4) show ?thesis by (auto simp: replay_ok_def)
  next
    case (Inr o1)
    show ?thesis
    proof (cases o1)
      case None
      with Inr 2 tl show ?thesis by simp
    next
      case (Some rec)
      show ?thesis
      proof (cases k)
        case 0
        with Some Inr 2(3,4) show ?thesis by (auto simp: replay_ok_def)
      next
        case (Suc k')
        have "replay_ok (replay_step rec (now n) (clock n) s)"
          using replay_step_ok [OF 2(4)] parse_line_record parse_line_exchange 2(5) Inr Some by blast
        with 2(2) [OF Inr Some Suc _ _ tl] 2(3) Inr Some Suc show ?thesis by simp
      qed
    qed
  qed
qed (auto simp: replay_ok_def)

text \<open>What \<open>mark_prices\<close> hands out comes from ticks of the store, of whatever exchange.\<close>

lemma mark_prices_from_ticks:
  assumes "(symb, price) \<in> set (mark_prices m)"
  shows "\<exists>t \<in> snd ` set (ms_ticks m). tk_symbol t = symb \<and> tick_mark t = price"
proof -
  have "\<exists>t \<in> snd ` set ts. tk_symbol t = symb \<and> tick_mark t = price"
    if "(symb, price) \<in> set (foldl (\<lambda>prices (_, t). dict_set (tk_symbol t) (tick_mark t) prices) acc ts)"
      "(symb, price) \<notin> set acc" for acc ts
    using that
  proof (induction ts arbitrary: acc)
    case (Cons x ts)
    obtain k t where x: "x = (k, t)" by fastforce
    show ?case
    proof (cases "(symb, price) \<in> set (dict_set (tk_symbol t) (tick_mark t) acc)")
      case True
      then have "symb = tk_symbol t" "price = tick_mark t"
        using Cons.prems(2) set_dict_set_subset [of "tk_symbol t" "tick_mark t" acc] by auto
      then show ?thesis by (auto simp: x)
    next
      case False
      with Cons.IH [of "dict_set (tk_symbol t) (tick_mark t) acc"] Cons.prems(1) show ?thesis by (auto simp: x)
    qed
  qed simp
  from this [of "[]" "ms_ticks m"] assms show ?thesis by (simp add: mark_prices_def)
qed

lemma replay_step_clock:
  "rk_current (rp_clock (replay_step r now clock s)) \<in> {rk_current (rp_clock s), Some (rr_time r)}"
  by (auto simp: replay_step_def replay_tick_def replay_orderbook_def advance_to_def rbind_def Let_def
      split: prod.splits sum.splits option.splits if_splits)

lemma replay_run_clock:
  assumes "replay_run now clock n k ls s = (s', r)" "rk_current (rp_clock s') = Some t"
  shows "rk_current (rp_clock s) = Some t \<or>
    (\<exists>i < length ls. \<exists>rec. parse_line (n + i) (ls ! i) = Inr (Some rec) \<and> rr_time rec = t)"
  using assms
proof (induction now clock n k ls s rule: replay_run.induct)
  case (2 now clock n k l ls s)
  have shift: "\<exists>i < length (l # ls). \<exists>rec. parse_line (n + i) ((l # ls) ! i) = Inr (Some rec) \<and> rr_time rec = t"
    if "\<exists>i < length ls. \<exists>rec. parse_line (Suc n + i) (ls ! i) = Inr (Some rec) \<and> rr_time rec = t"
    using that by (metis Suc_less_eq add_Suc add_Suc_right length_Cons nth_Cons_Suc)
  show ?case
  proof (cases "parse_line n l")
    case (Inl e)
    with 2(3,4) show ?thesis by auto
  next
    case (Inr o1)
    show ?thesis
    proof (cases o1)
      case None
      with Inr 2(1,3,4) shift show ?thesis by auto
    next
      case (Some rec)
      show ?thesis
      proof (cases k)
        case 0
        with Some Inr 2(3,4) show ?thesis by auto
      next
        case (Suc k')
        with 2(2) [OF Inr Some Suc] 2(3,4) Inr Some
        have "rk_current (rp_clock (replay_step rec (now n) (clock n) s)) = Some t \<or>
          (\<exists>i < length ls. \<exists>rec. parse_line (Suc n + i) (ls ! i) = Inr (Some rec) \<and> rr_time rec = t)" by simp
        then show ?thesis
          using shift replay_step_clock [of rec "now n" "clock n" s] Inr Some by fastforce
      qed
    qed
  qed
qed auto

text \<open>
  C29. A replay shows no future and one market. However far a replay has come, its time is that of a
  record of the file, and no tick and no order book of the market state, of whatever exchange and symbol,
  is newer; so is every mark price the strategy and the risk checks are given, which is taken from one of
  these ticks. Every quote at which the simulated exchange fills is the latest one of the market state
  under its own exchange; each processed record has published exactly one event. The names of the
  exchanges hold no colon, which separates the keys of the market state.
\<close>

theorem replay_shows_no_future:
  assumes "replay_run now clock 1 k ls (new_replay_service c m (new_sim_exchange fee bps zone)) = (s, r)"
    and "new_clock speed = Inr c" "new_market_store stale = Inr m" "plain_exchanges ls"
  shows "(\<forall>t. rk_current (rp_clock s) = Some t \<longrightarrow>
        (\<exists>i < length ls. \<exists>rec. parse_line (Suc i) (ls ! i) = Inr (Some rec) \<and> rr_time rec = t)) \<and>
    (\<forall>t \<in> snd ` set (ms_ticks (rp_store s)). seen (rp_clock s) (tk_timestamp t)) \<and>
    (\<forall>b \<in> snd ` set (ms_books (rp_store s)). seen (rp_clock s) (ob_timestamp b)) \<and>
    (\<forall>(sym, price) \<in> set (mark_prices (rp_store s)).
        \<exists>t \<in> snd ` set (ms_ticks (rp_store s)). tk_symbol t = sym \<and> tick_mark t = price) \<and>
    (\<forall>sym t. map_of (sx_ticks (rp_sim s)) sym = Some t \<longrightarrow> latest_tick (tk_exchange t) sym (rp_store s) = Some t) \<and>
    (\<forall>sym b. map_of (sx_books (rp_sim s)) sym = Some b \<longrightarrow> latest_orderbook (ob_exchange b) sym (rp_store s) = Some b) \<and>
    length (rp_published s) = rp_records s \<and> rp_ticks s + rp_books s = rp_records s"
proof -
  let ?s0 = "new_replay_service c m (new_sim_exchange fee bps zone)"
  have "replay_ok ?s0"
    using assms(2,3) by (auto simp: replay_ok_def new_replay_service_def new_sim_exchange_def new_clock_def
        new_market_store_def rbind_Inr_iff)
  then have ok: "replay_ok s" using replay_run_ok [OF assms(1) _ assms(4)] by simp
  have "rk_current (rp_clock ?s0) = None"
    using assms(2) by (auto simp: new_replay_service_def new_clock_def rbind_Inr_iff)
  then have time: "\<exists>i < length ls. \<exists>rec. parse_line (Suc i) (ls ! i) = Inr (Some rec) \<and> rr_time rec = t"
    if "rk_current (rp_clock s) = Some t" for t
    using replay_run_clock [OF assms(1) that] by simp
  have ticks: "\<forall>t \<in> snd ` set (ms_ticks (rp_store s)). seen (rp_clock s) (tk_timestamp t)"
    and books: "\<forall>b \<in> snd ` set (ms_books (rp_store s)). seen (rp_clock s) (ob_timestamp b)"
    using ok unfolding replay_ok_def by (auto simp: map_of_eq_Some_iff)
  have marks: "\<forall>(sym, price) \<in> set (mark_prices (rp_store s)).
      \<exists>t \<in> snd ` set (ms_ticks (rp_store s)). tk_symbol t = sym \<and> tick_mark t = price"
    using mark_prices_from_ticks by blast
  have sim: "(\<forall>sym t. map_of (sx_ticks (rp_sim s)) sym = Some t \<longrightarrow> latest_tick (tk_exchange t) sym (rp_store s) = Some t) \<and>
      (\<forall>sym b. map_of (sx_books (rp_sim s)) sym = Some b \<longrightarrow> latest_orderbook (ob_exchange b) sym (rp_store s) = Some b)"
    using ok by (simp add: replay_ok_def)
  have counts: "length (rp_published s) = rp_records s \<and> rp_ticks s + rp_books s = rp_records s"
    using ok by (simp add: replay_ok_def)
  from time ticks books marks sim counts show ?thesis by blast
qed

section \<open>The recorded equity\<close>

lemma run_ledger_fin:
  assumes "run_res fill_step l fs = Inr l'" "ledger_ok l" "ledger_fin l"
    "\<forall>x \<in> set fs. fill_fin (fst x)" "dust_free l fs"
  shows "ledger_fin l'"
  using assms
proof (induction fs arbitrary: l)
  case (Cons x xs)
  then obtain l1 trd where x: "fill_step l x = Inr l1" "apply_fill l (fst x) (snd x) = Inr (l1, trd)"
      and rest: "run_res fill_step l1 xs = Inr l'"
    by (auto simp: rbind_Inr_iff fill_step_Inr)
  have "ledger_fin l1" using fill_equity [of l "fst x"] Cons.prems x by auto
  moreover have "ledger_ok l1" using Cons.prems(2) x(2) by (rule apply_fill_ok_step)
  ultimately show ?case using Cons.IH [OF rest] Cons.prems x(1) by simp
qed simp

lemma marked_value:
  assumes "position_fin p" "0 < m"
  shows "p_unrealized (mark_to_market p (Fin m) now) = Fin (open_value m p)"
proof -
  obtain q a where "p_quantity p = Fin q" "p_avg_entry p = Fin a" using assms(1) by (auto simp: position_fin_def is_fin_iff)
  then show ?thesis by (auto simp: mark_to_market_def open_value_def algebra_simps not_less)
qed

definition mark_of :: "(string, pyfloat) pydict \<Rightarrow> string \<Rightarrow> real" where
  "mark_of marks s = (case map_of marks s of None \<Rightarrow> 0 | Some m \<Rightarrow> val_of m)"

text \<open>
  C31. The recorded equity is cash plus holdings. For a ledger built from finite fills that leave no
  residue, whose open positions all have a positive mark, the equity point of the backtest is the
  initial equity plus, over all fills, the mark minus the fill price times the signed quantity, less the
  fees.
\<close>

theorem recorded_equity_is_cash_and_holdings:
  assumes "run_res fill_step new_ledger fs = Inr (bt_ledger bt)"
    and "\<forall>x \<in> set fs. fill_fin (fst x)" "dust_free new_ledger fs"
    and "eq_initial (bt_tracker bt) = Fin e" "marks = mark_prices (rp_store (bt_replay bt))"
    and "\<forall>(s, p) \<in> set (l_positions (bt_ledger bt)). \<exists>m > 0. map_of marks s = Some (Fin m)"
  shows "ep_equity (last (eq_points (bt_tracker (record_equity_point now bt)))) =
    Fin (e + sum_list (map (\<lambda>x. fill_cash (mark_of marks) (fst x)) fs))"
proof -
  let ?l = "bt_ledger bt"
  have fin: "ledger_fin ?l"
    using run_ledger_fin [OF assms(1) _ _ assms(2,3)] by (simp add: ledger_fin_def new_ledger_def ledger_ok_def)
  have eq: "ledger_equity (mark_of marks) ?l = sum_list (map (\<lambda>x. fill_cash (mark_of marks) (fst x)) fs)"
    using run_equity [OF assms(1) _ _ assms(2,3)] by (simp add: ledger_fin_def new_ledger_def ledger_ok_def ledger_equity_def)
  have "map (\<lambda>(_, p). p_unrealized p) (l_positions (mark_positions ?l marks now)) =
      map Fin (map (\<lambda>(s, p). open_value (mark_of marks s) p) (l_positions ?l))"
    unfolding mark_positions_def using fin assms(6)
    by (fastforce simp: ledger_fin_def marked_value mark_of_def)
  then have un: "py_sum (map (\<lambda>(_, p). p_unrealized p) (l_positions (mark_positions ?l marks now))) =
      Fin (sum_list (map (\<lambda>(s, p). open_value (mark_of marks s) p) (l_positions ?l)))"
    by (simp only: py_sum_reals)
  obtain r where r: "l_realized ?l = Fin r" using fin by (auto simp: ledger_fin_def is_fin_iff)
  have "l_realized (mark_positions ?l marks now) = Fin r" by (simp add: mark_positions_def r)
  then have "ep_equity (last (eq_points (bt_tracker (record_equity_point now bt)))) =
      Fin e + Fin r + Fin (sum_list (map (\<lambda>(s, p). open_value (mark_of marks s) p) (l_positions ?l)))"
    using un by (simp add: record_equity_point_def tracker_record_def Let_def assms(4,5) positions_def)
  then show ?thesis using eq by (simp add: ledger_equity_def r)
qed


section \<open>Witnesses\<close>

definition tick_row :: "datetime \<Rightarrow> replay_line" where
  "tick_row t = Row (VDict
     [(''event_type'', VStr ''MARKET_TICK''), (''timestamp'', VStr (isoformat t)),
      (''payload'', VDict [(''symbol'', VStr ''BTC''), (''bid'', VFloat (Fin 99)), (''ask'', VFloat (Fin 101))])])"

definition fresh_replay :: replay_service where
  "fresh_replay = new_replay_service \<lparr>rk_speed = Fin 0, rk_current = None, rk_last = None\<rparr>
     \<lparr>ms_stale_after = Fin 1, ms_ticks = [], ms_books = [], ms_updated = []\<rparr> (new_sim_exchange (Fin 0) (Fin 0) 0)"

theorem bad_line_hangs_backtest_witness:
  "\<exists>s e. replay_run (\<lambda>_. sample_time) (\<lambda>_. Fin 0) 1 1 [Malformed] fresh_replay = (s, Inl e) \<and>
     backtest_loop id sample_time 5 \<lparr>bt_ledger = new_ledger, bt_replay = s,
       bt_tracker = \<lparr>eq_initial = Fin 100, eq_points = []\<rparr>\<rparr> = None"
proof -
  obtain s e where run: "replay_run (\<lambda>_. sample_time) (\<lambda>_. Fin 0) 1 (length [Malformed]) [Malformed] fresh_replay = (s, Inl e)"
    by (simp add: parse_line_def)
  from bad_line_hangs_backtest [OF run [unfolded fresh_replay_def], of id
      "\<lparr>bt_ledger = new_ledger, bt_replay = s, bt_tracker = \<lparr>eq_initial = Fin 100, eq_points = []\<rparr>\<rparr>"] run
  show ?thesis by auto
qed

lemma tick_row_parses:
  "parse_line n (tick_row sample_time) = Inr (Some \<lparr>rr_type = ''MARKET_TICK'', rr_time = sample_time,
     rr_payload = [(''symbol'', VStr ''BTC''), (''bid'', VFloat (Fin 99)), (''ask'', VFloat (Fin 101))]\<rparr>)"
proof -
  have "fromisoformat (replace_Z (isoformat sample_time)) = Some sample_time" "to_utc sample_time = Inr sample_time"
    by (simp_all add: replace_Z_iso fromisoformat_isoformat sample_time_def valid_datetime_def days_in_month_def to_utc_def)
  moreover have "str_upper ''MARKET_TICK'' = ''MARKET_TICK''" by (simp add: str_simps)
  ultimately show ?thesis
    by (simp add: parse_line_def tick_row_def parse_row_def parse_replay_time_def dict_simps)
qed

theorem replay_shows_no_future_witness:
  "\<exists>s r t. replay_run (\<lambda>_. sample_time) (\<lambda>_. Fin 0) 1 1 [tick_row sample_time] fresh_replay = (s, r) \<and>
     map_of (sx_ticks (rp_sim s)) ''BTC'' = Some t \<and> latest_tick ''SIMULATED'' ''BTC'' (rp_store s) = Some t"
proof -
  let ?ls = "[tick_row sample_time]"
  have "\<exists>s r t. replay_run (\<lambda>_. sample_time) (\<lambda>_. Fin 0) 1 1 ?ls fresh_replay = (s, r) \<and>
      map_of (sx_ticks (rp_sim s)) ''BTC'' = Some t \<and> tk_exchange t = ''SIMULATED''"
    by (simp add: tick_row_parses replay_step_def advance_to_def fresh_replay_def new_replay_service_def replay_tick_def
        dict_index_def payload_exchange_def dict_simps normalize_ticker_def Let_def safe_float_def extract_timestamp_def
        py_or_def tick_valid_def new_sim_exchange_def update_tick_def sx_update_tick_def)
  then obtain s r t where run: "replay_run (\<lambda>_. sample_time) (\<lambda>_. Fin 0) 1 1 ?ls fresh_replay = (s, r)"
      "map_of (sx_ticks (rp_sim s)) ''BTC'' = Some t" "tk_exchange t = ''SIMULATED''" by blast
  have "plain_exchanges ?ls"
    by (auto simp: plain_exchanges_def tick_row_def payload_exchange_def dict_simps)
  with replay_shows_no_future [OF run(1) [unfolded fresh_replay_def], of "Fin 0" "Fin 1"]
  have "latest_tick ''SIMULATED'' ''BTC'' (rp_store s) = Some t"
    using run(2,3) by (simp add: new_clock_def new_market_store_def) metis
  with run show ?thesis by blast
qed

definition marked_replay :: replay_service where
  "marked_replay = fresh_replay\<lparr>rp_store := \<lparr>ms_stale_after = Fin 1,
     ms_ticks = [(''S:ETH'', \<lparr>tk_symbol = ''ETH'', tk_exchange = ''S'', tk_bid = Fin 130, tk_ask = Fin 130,
        tk_last = Fin 130, tk_volume = Fin 0, tk_timestamp = sample_time\<rparr>)], ms_books = [], ms_updated = []\<rparr>\<rparr>"

theorem recorded_equity_is_cash_and_holdings_witness:
  "\<exists>l. run_res fill_step new_ledger sample_fills = Inr l \<and>
     ep_equity (last (eq_points (bt_tracker (record_equity_point sample_time
       \<lparr>bt_ledger = l, bt_replay = marked_replay, bt_tracker = \<lparr>eq_initial = Fin 1000, eq_points = []\<rparr>\<rparr>)))) = Fin 1037"
proof -
  have "\<exists>l. run_res fill_step new_ledger sample_fills = Inr l \<and> dust_free new_ledger sample_fills \<and>
      (\<forall>(s, p) \<in> set (l_positions l). s = ''ETH'')"
    by (simp add: Position_Ledger.sample_simps no_dust_def quantity_after_def get_position_def)
  then obtain l where l: "run_res fill_step new_ledger sample_fills = Inr l" "dust_free new_ledger sample_fills"
      "\<forall>(s, p) \<in> set (l_positions l). s = ''ETH''" by blast
  let ?bt = "\<lparr>bt_ledger = l, bt_replay = marked_replay, bt_tracker = \<lparr>eq_initial = Fin 1000, eq_points = []\<rparr>\<rparr>"
  let ?marks = "[(''ETH'', Fin 130)]"
  have marks: "mark_prices (rp_store (bt_replay ?bt)) = ?marks"
    by (simp add: marked_replay_def mark_prices_def tick_mark_def tick_mid_def py_true_def)
  have "\<forall>x \<in> set sample_fills. fill_fin (fst x)" by (simp add: sample_fills_def sample_fill_def fill_fin_def)
  moreover have "\<forall>(s, p) \<in> set (l_positions (bt_ledger ?bt)). \<exists>m > 0. map_of ?marks s = Some (Fin m)"
    using l(3) by auto
  ultimately have "ep_equity (last (eq_points (bt_tracker (record_equity_point sample_time ?bt)))) =
      Fin (1000 + sum_list (map (\<lambda>x. fill_cash (mark_of ?marks) (fst x)) sample_fills))"
    using recorded_equity_is_cash_and_holdings [of sample_fills ?bt 1000 ?marks sample_time] l(1,2) marks by simp
  also have "sum_list (map (\<lambda>x. fill_cash (mark_of ?marks) (fst x)) sample_fills) = 37"
    by (simp add: sample_fills_def sample_fill_def fill_cash_def signed_delta_def str_simps mark_of_def)
  finally show ?thesis using l(1) by auto
qed

end
