(* ===== verification/Persistence.thy ===== *)
theory Persistence
  imports Fill_Processing Kill_Switch Py_Sequences
begin

text \<open>
  What the program keeps on disk: the SQLite tables of \<open>core/database_manager.py\<close>, the portfolio file of
  \<open>core/state/portfolio_state_store.py\<close> and the risk log of
  \<open>microservices/risk_event_logger_service.py\<close>. Texts written by \<open>json.dumps\<close> are kept as the value
  that \<open>json.loads\<close> reads back: the same value with the keys of every dictionary sorted.
\<close>

section \<open>JSON\<close>

primrec json_norm :: "pyval \<Rightarrow> pyval" where
  "json_norm VNone = VNone"
| "json_norm (VBool b) = VBool b"
| "json_norm (VInt i) = VInt i"
| "json_norm (VFloat x) = VFloat x"
| "json_norm (VStr s) = VStr s"
| "json_norm (VList vs) = VList (map json_norm vs)"
| "json_norm (VDict d) = VDict (sort_key fst (map (map_prod id json_norm) d))"
| "json_norm (VMsg m) = VMsg m"

section \<open>The tables\<close>

record database =
  db_trades :: "pyval list"
  db_reports :: "pyval list"
  db_risk :: "pyval list"
  db_health :: "pyval list"

definition empty_database :: database where
  "empty_database = \<lparr>db_trades = [], db_reports = [], db_risk = [], db_health = []\<rparr>"

text \<open>
  Binding a parameter, and the values that are NULL to SQLite, which stores a NaN as NULL. A column is
  its \<open>NOT NULL\<close> flag and its value.
\<close>

definition sql_bind :: "pyval \<Rightarrow> unit res" where
  "sql_bind v =
     (case v of
        VList _ \<Rightarrow> Inl (OtherError (text_msg ''Error binding parameter: type is not supported''))
      | VDict _ \<Rightarrow> Inl (OtherError (text_msg ''Error binding parameter: type is not supported''))
      | VInt i \<Rightarrow>
          (if - (2 ^ 63) \<le> i \<and> i < 2 ^ 63 then Inr ()
           else Inl (OtherError (text_msg ''Python int too large to convert to SQLite INTEGER'')))
      | _ \<Rightarrow> Inr ())"

definition sql_null :: "pyval \<Rightarrow> bool" where
  "sql_null v \<longleftrightarrow> v = VNone \<or> v = VFloat NaN"

definition sql_insert :: "(bool \<times> pyval) list \<Rightarrow> unit res" where
  "sql_insert cols =
     rbind (run_res (\<lambda>_ (_, v). sql_bind v) () cols) (\<lambda>_.
       if list_ex (\<lambda>(not_null, v). not_null \<and> sql_null v) cols
       then Inl (OtherError (text_msg ''NOT NULL constraint failed'')) else Inr ())"

definition trade_columns :: "(string \<times> pyval) list \<Rightarrow> (bool \<times> pyval) list" where
  "trade_columns d =
     [(False, get_val d ''trade_id''), (False, get_val d ''order_id''), (True, get_val d ''symbol''),
      (True, get_val d ''side''), (True, dict_get d ''quantity'' (VFloat (Fin 0))),
      (True, dict_get d ''price'' (VFloat (Fin 0))), (True, get_val d ''exchange''),
      (True, dict_get d ''pnl'' (VFloat (Fin 0))), (True, dict_get d ''fee'' (VFloat (Fin 0))),
      (False, get_val d ''strategy_id''), (True, get_val d ''timestamp'')]"

definition db_record_trade :: "trade \<Rightarrow> database \<Rightarrow> database res" where
  "db_record_trade t db =
     rbind (sql_insert (trade_columns (trade_to_dict t)))
       (\<lambda>_. Inr (db\<lparr>db_trades := db_trades db @ [json_norm (VDict (trade_to_dict t))]\<rparr>))"

definition report_columns :: "(string \<times> pyval) list \<Rightarrow> (bool \<times> pyval) list" where
  "report_columns d =
     [(False, get_val d ''correlation_id''), (False, get_val d ''exchange_order_id''), (True, get_val d ''symbol''),
      (True, get_val d ''side''), (True, dict_get d ''requested_quantity'' (VFloat (Fin 0))),
      (True, dict_get d ''filled_quantity'' (VFloat (Fin 0))),
      (True, dict_get d ''average_fill_price'' (VFloat (Fin 0))), (True, get_val d ''status''),
      (True, get_val d ''exchange''), (True, dict_get d ''fee'' (VFloat (Fin 0))), (True, get_val d ''timestamp'')]"

definition db_record_report :: "execution_report \<Rightarrow> database \<Rightarrow> database res" where
  "db_record_report r db =
     rbind (sql_insert (report_columns (report_to_dict r)))
       (\<lambda>_. Inr (db\<lparr>db_reports := db_reports db @ [json_norm (VDict (report_to_dict r))]\<rparr>))"

definition risk_columns :: "(string \<times> pyval) list \<Rightarrow> (bool \<times> pyval) list" where
  "risk_columns d =
     [(False, get_val d ''correlation_id''), (True, dict_get d ''severity'' (VStr ''UNKNOWN'')),
      (True, dict_get d ''code'' (VStr ''UNKNOWN'')), (True, dict_get d ''message'' (VStr [])),
      (True, get_val d ''timestamp'')]"

definition db_record_risk :: "(string \<times> pyval) list \<Rightarrow> database \<Rightarrow> database res" where
  "db_record_risk d db =
     rbind (sql_insert (risk_columns d)) (\<lambda>_. Inr (db\<lparr>db_risk := db_risk db @ [json_norm (VDict d)]\<rparr>))"

definition db_record_health :: "(string \<times> pyval) list \<Rightarrow> database \<Rightarrow> database res" where
  "db_record_health d db =
     rbind (sql_insert [(True, get_val d ''captured_at''),
              (True, VInt (if truthy (dict_get d ''healthy'' (VBool False)) then 1 else 0))])
       (\<lambda>_. Inr (db\<lparr>db_health := db_health db @ [json_norm (VDict d)]\<rparr>))"

definition fetch_recent :: "string \<Rightarrow> int \<Rightarrow> database \<Rightarrow> pyval list res" where
  "fetch_recent table limit db =
     (if table \<notin> {''trades'', ''execution_reports'', ''risk_events''}
      then Inl (ValueError (text_msg ''Unsupported table requested''))
      else if limit \<le> 0 then Inl (ValueError (text_msg ''limit must be positive''))
      else Inr (take (nat limit) (rev
             (if table = ''trades'' then db_trades db
              else if table = ''execution_reports'' then db_reports db else db_risk db))))"

text \<open>The database as the fill processor sees it: whether a row is refused depends on the row alone.\<close>

definition trade_sink :: "trade sink" where
  "trade_sink t = (case db_record_trade t empty_database of Inl e \<Rightarrow> Some e | Inr _ \<Rightarrow> None)"

definition table_of :: "trade list \<Rightarrow> database" where
  "table_of ts = empty_database\<lparr>db_trades := map (\<lambda>t. json_norm (VDict (trade_to_dict t))) ts\<rparr>"

section \<open>The portfolio file\<close>

definition store_save :: "(string \<times> pyval) list \<Rightarrow> pyval option" where
  "store_save payload = Some (json_norm (VDict payload))"

definition store_load :: "pyval option \<Rightarrow> pyval" where
  "store_load file = (case file of None \<Rightarrow> VDict [] | Some v \<Rightarrow> v)"

section \<open>The risk log\<close>

record risk_logger =
  lg_lines :: "pyval list"
  lg_database :: "database option"
  lg_written :: nat

definition risk_payload :: "risk_event \<Rightarrow> datetime \<Rightarrow> (string \<times> pyval) list" where
  "risk_payload ev t =
     [(''event_type'', VStr ''RISK_BREACH''), (''correlation_id'', opt_str (re_correlation_id ev)),
      (''timestamp'', VStr (isoformat t)), (''severity'', VStr (re_severity ev)), (''code'', VStr (re_code ev)),
      (''message'', VMsg (re_message ev)), (''metadata'', VDict (re_metadata ev))]"

text \<open>The line is written before the row: a refused row leaves the line.\<close>

definition log_risk_event :: "risk_event \<times> datetime \<Rightarrow> risk_logger \<Rightarrow> risk_logger \<times> unit res" where
  "log_risk_event e lg =
     (let payload = risk_payload (fst e) (snd e);
          lg1 = lg\<lparr>lg_lines := lg_lines lg @ [json_norm (VDict payload)]\<rparr>
      in case lg_database lg of
           None \<Rightarrow> (lg1\<lparr>lg_written := lg_written lg1 + 1\<rparr>, Inr ())
         | Some db \<Rightarrow>
             (case db_record_risk payload db of
                Inl err \<Rightarrow> (lg1, Inl err)
              | Inr db' \<Rightarrow> (lg1\<lparr>lg_database := Some db', lg_written := lg_written lg1 + 1\<rparr>, Inr ())))"


section \<open>Sorted keys\<close>

lemma insort_key_map: "map h (insort_key (\<lambda>x. f (h x)) a xs) = insort_key f (h a) (map h xs)"
  by (induction xs) auto

lemma sort_key_map: "map h (sort_key (\<lambda>x. f (h x)) xs) = sort_key f (map h xs)"
  by (induction xs) (simp_all add: insort_key_map)

lemma dict_ok_sorted: "dict_ok (sort_key fst d) \<longleftrightarrow> dict_ok d"
proof -
  have "mset (map fst (sort_key fst d)) = mset (map fst d)" by (simp only: mset_map mset_sort)
  then show ?thesis by (rule mset_eq_imp_distinct_iff)
qed

lemma map_of_sorted: "dict_ok d \<Longrightarrow> map_of (sort_key fst d) = map_of d"
  by (subst map_of_inject_set) (simp_all add: dict_ok_sorted)

lemma norm_get:
  assumes "distinct (map fst d)"
  shows "map_of (sort_key fst (map (map_prod id json_norm) d)) k = map_option json_norm (map_of d k)"
proof -
  have "map fst (map (map_prod id json_norm) d) = map fst d" by simp
  with assms have "map_of (sort_key fst (map (map_prod id json_norm) d)) k = map_of (map (map_prod id json_norm) d) k"
    by (subst map_of_sorted) simp_all
  also have "\<dots> = map_option json_norm (map_of d k)" by (induction d) auto
  finally show ?thesis .
qed


lemma norm_dict_get:
  "distinct (map fst d) \<Longrightarrow> dict_get (sort_key fst (map (map_prod id json_norm) d)) k x =
    (case map_of d k of None \<Rightarrow> x | Some v \<Rightarrow> json_norm v)"
  by (simp add: dict_get_def norm_get split: option.splits)

section \<open>The portfolio survives the file\<close>

lemma restore_position_norm:
  assumes "position_ok s p" "position_saved p"
  shows "restore_position s (json_norm (VDict (position_to_dict p))) now = Some p"
proof -
  have "distinct (map fst (position_to_dict p))" by (simp add: position_to_dict_def)
  note get = norm_dict_get [OF this]
  have "restore_position s (json_norm (VDict (position_to_dict p))) now =
      restore_position s (VDict (position_to_dict p)) now"
    unfolding json_norm.simps restore_position_def pyval.case float_field_def get_val_def get
    by (simp add: position_to_dict_def dict_simps)
  with restore_position_to_dict [OF assms] show ?thesis by simp
qed

lemma stored_ledger_restores:
  assumes "ledger_ok l" "saved_times l"
  shows "restore_snapshot l0 (json_norm (VDict (ledger_snapshot l))) now =
    (l0\<lparr>l_positions := sort_key fst (l_positions l), l_realized := l_realized l\<rparr>, Inr ())"
proof -
  define enc where "enc p = json_norm (VDict (position_to_dict p))" for p
  let ?ps = "sort_key fst (l_positions l)"
  have "map (\<lambda>(s, p). (s, enc p)) ?ps = sort_key fst (map (\<lambda>(s, p). (s, enc p)) (l_positions l))"
    using sort_key_map [of "\<lambda>(s, p). (s, enc p)" fst "l_positions l"] by (simp add: case_prod_beta)
  also have "map (\<lambda>(s, p). (s, enc p)) (l_positions l) =
      map (map_prod id json_norm) (map (\<lambda>(s, p). (s, VDict (position_to_dict p))) (l_positions l))"
    by (simp add: enc_def case_prod_beta map_prod_def del: json_norm.simps)
  finally have ps: "sort_key fst (map (map_prod id json_norm) (map (\<lambda>(s, p). (s, VDict (position_to_dict p))) (l_positions l))) =
      map (\<lambda>(s, p). (s, enc p)) ?ps" by simp
  have "dict_ok ?ps"
    using assms(1) by (simp add: dict_ok_sorted ledger_ok_def)
  moreover have "\<forall>(s, p) \<in> set ?ps. restore_position s (enc p) now = Some p"
    using assms restore_position_norm unfolding enc_def by (fastforce simp: ledger_ok_def saved_times_def)
  ultimately have "restore_positions (map (\<lambda>(s, p). (s, enc p)) ?ps) now [] = ?ps"
    using restore_positions_encoded [of ?ps enc now "[]"] by simp
  moreover have "distinct (map fst (ledger_snapshot l))" by (simp add: ledger_snapshot_def)
  note get = norm_dict_get [OF this]
  ultimately show ?thesis
    unfolding json_norm.simps restore_snapshot_def pyval.case float_field_def get
    by (simp add: ledger_snapshot_def ps del: map_map)
qed


section \<open>The trade table\<close>

definition row_ok :: "trade \<Rightarrow> bool" where
  "row_ok t \<longleftrightarrow> trade_sink t = None"

lemma db_record_trade_row:
  "db_record_trade t db = (if row_ok t then Inr (db\<lparr>db_trades := db_trades db @ [json_norm (VDict (trade_to_dict t))]\<rparr>)
     else Inl (the (trade_sink t)))"
  by (auto simp: row_ok_def trade_sink_def db_record_trade_def rbind_def split: sum.splits)

text \<open>The rows the database accepts: texts or numbers that SQLite can bind, and no NaN or missing exchange.\<close>

lemma row_ok_iff:
  "row_ok t \<longleftrightarrow> is_ok (sql_bind (t_order_id t)) \<and> is_ok (sql_bind (t_exchange t)) \<and> is_ok (sql_bind (t_strategy_id t)) \<and>
     \<not> sql_null (t_exchange t) \<and> t_quantity t \<noteq> NaN \<and> t_price t \<noteq> NaN \<and> t_pnl t \<noteq> NaN \<and> t_fee t \<noteq> NaN"
proof -
  have bind: "rbind r (\<lambda>_. q) = Inr () \<longleftrightarrow> is_ok r \<and> q = Inr ()" for r q :: "unit res" by (cases r) auto
  have right: "rbind r Inr = Inr () \<longleftrightarrow> is_ok r" for r :: "unit res" by (cases r) auto
  have str: "sql_bind (VStr s) = Inr ()" "sql_bind (VFloat x) = Inr ()" "\<not> sql_null (VStr s)"
      "sql_null (VFloat x) \<longleftrightarrow> x = NaN" for s x by (simp_all add: sql_bind_def sql_null_def)
  have "row_ok t \<longleftrightarrow> sql_insert (trade_columns (trade_to_dict t)) = Inr ()"
    by (auto simp: row_ok_def trade_sink_def db_record_trade_def rbind_def split: sum.splits)
  also have "\<dots> \<longleftrightarrow> run_res (\<lambda>_ (_, v). sql_bind v) () (trade_columns (trade_to_dict t)) = Inr () \<and>
      \<not> list_ex (\<lambda>(not_null, v). not_null \<and> sql_null v) (trade_columns (trade_to_dict t))"
    by (simp add: sql_insert_def rbind_def split: sum.splits)
  also have "trade_columns (trade_to_dict t) =
      [(False, VStr (t_id t)), (False, t_order_id t), (True, VStr (t_symbol t)), (True, VStr (t_side t)),
       (True, VFloat (t_quantity t)), (True, VFloat (t_price t)), (True, t_exchange t), (True, VFloat (t_pnl t)),
       (True, VFloat (t_fee t)), (False, t_strategy_id t), (True, VStr (isoformat (t_timestamp t)))]"
    by (simp add: trade_columns_def trade_to_dict_def dict_simps)
  finally show ?thesis by (auto simp: bind right str)
qed

lemma process_fill_rows:
  assumes "process_fill p r marks strat uuid now s = (s', res)" "fp_database p = Some trade_sink"
    and "fs_trades s = filter row_ok (l_trades (fs_ledger s))"
  shows "fs_trades s' = filter row_ok (l_trades (fs_ledger s'))"
proof (cases "\<not> has_fill r \<or> r_avg_price r \<le> Fin 0 \<or> \<not> is_ok (apply_fill (fs_ledger s) (fill_of_report r strat uuid) now)")
  case True
  with assms show ?thesis by (auto simp: process_fill_def is_ok_iff split: if_splits sum.splits)
next
  case False
  then obtain l1 trd where fill: "apply_fill (fs_ledger s) (fill_of_report r strat uuid) now = Inr (l1, trd)"
    by (auto simp: is_ok_iff)
  have trades: "l_trades l1 = l_trades (fs_ledger s) @ [trd]" using fill by (auto elim: apply_fillE)
  show ?thesis
  proof (cases "trade_sink trd")
    case None
    with False fill assms trades show ?thesis
      by (auto simp: process_fill_def record_trade_def send_def row_ok_def Let_def save_state_def
          split: option.splits prod.splits sum.splits)
  next
    case (Some e)
    with False fill assms trades show ?thesis
      by (auto simp: process_fill_def record_trade_def send_def row_ok_def Let_def)
  qed
qed

text \<open>
  C33. The trade table mirrors the ledger. After any sequence of reports, failed ones included, the rows a
  query returns are the most recent trades of the ledger, newest first, each as its dictionary with
  sorted keys; the only trades that are in the ledger but not in the table are those with a NaN among
  their figures, without an exchange, or with an identifier that SQLite cannot bind.
\<close>

theorem trade_table_mirrors_ledger:
  assumes "run_events (book_step p) \<lparr>fs_ledger = new_ledger, fs_trades = [], fs_saved = None\<rparr> bs = (s, rs)"
    and "fp_database p = Some trade_sink"
  shows "run_res (\<lambda>db t. db_record_trade t db) empty_database (fs_trades s) = Inr (table_of (fs_trades s)) \<and>
    (0 < n \<longrightarrow> fetch_recent ''trades'' n (table_of (fs_trades s)) =
       Inr (take (nat n) (map (\<lambda>t. json_norm (VDict (trade_to_dict t))) (rev (filter row_ok (l_trades (fs_ledger s)))))))"
proof -
  have rows: "fs_trades s = filter row_ok (l_trades (fs_ledger s))"
    if "run_events (book_step p) s0 bs = (s, rs)" "fs_trades s0 = filter row_ok (l_trades (fs_ledger s0))" for s0
    using that
  proof (induction bs arbitrary: s0 rs)
    case (Cons b bs)
    obtain s1 r1 where b: "book_step p s0 b = (s1, r1)" by fastforce
    then have "fs_trades s1 = filter row_ok (l_trades (fs_ledger s1))"
      using process_fill_rows [OF _ assms(2)] Cons.prems(2) by (auto simp: book_step_def split: prod.splits)
    with Cons b show ?case by (auto simp: Let_def split: prod.splits)
  qed auto
  have r: "fs_trades s = filter row_ok (l_trades (fs_ledger s))"
    by (rule rows [OF assms(1)]) (simp add: new_ledger_def)
  have fill: "run_res (\<lambda>db t. db_record_trade t db) db ts =
      Inr (db\<lparr>db_trades := db_trades db @ map (\<lambda>t. json_norm (VDict (trade_to_dict t))) ts\<rparr>)"
    if "\<forall>t \<in> set ts. row_ok t" for db ts
    using that by (induction ts arbitrary: db) (simp_all add: db_record_trade_row)
  have "\<forall>t \<in> set (fs_trades s). row_ok t" using r by simp
  from fill [OF this, of empty_database] show ?thesis
    by (simp add: fetch_recent_def table_of_def empty_database_def r rev_map)
qed

section \<open>The risk log\<close>

lemma risk_row_accepted:
  "db_record_risk (risk_payload ev t) db =
     Inr (db\<lparr>db_risk := db_risk db @ [json_norm (VDict (risk_payload ev t))]\<rparr>)"
  by (cases "re_correlation_id ev")
    (simp_all add: db_record_risk_def sql_insert_def risk_columns_def risk_payload_def dict_simps sql_bind_def
      sql_null_def opt_str_def)

text \<open>
  No risk event is lost. The logger of a database handles every published risk event without an
  exception; the lines of the log and the rows of the table are the same events in the order of their
  publication, and the counter is their number.
\<close>

theorem risk_events_persisted:
  "run_events (\<lambda>lg e. log_risk_event e lg) \<lparr>lg_lines = [], lg_database = Some empty_database, lg_written = 0\<rparr> evs =
     (\<lparr>lg_lines = map (\<lambda>(ev, t). json_norm (VDict (risk_payload ev t))) evs,
       lg_database = Some (empty_database\<lparr>db_risk := map (\<lambda>(ev, t). json_norm (VDict (risk_payload ev t))) evs\<rparr>),
       lg_written = length evs\<rparr>, map (\<lambda>_. Inr ()) evs)"
proof -
  have "run_events (\<lambda>lg e. log_risk_event e lg) \<lparr>lg_lines = ls, lg_database = Some db, lg_written = n\<rparr> evs =
     (\<lparr>lg_lines = ls @ map (\<lambda>(ev, t). json_norm (VDict (risk_payload ev t))) evs,
       lg_database = Some (db\<lparr>db_risk := db_risk db @ map (\<lambda>(ev, t). json_norm (VDict (risk_payload ev t))) evs\<rparr>),
       lg_written = n + length evs\<rparr>, map (\<lambda>_. Inr ()) evs)" for ls db n
    by (induction evs arbitrary: ls db n)
      (auto simp: log_risk_event_def risk_row_accepted Let_def simp del: json_norm.simps)
  from this [of "[]" empty_database 0] show ?thesis by (simp add: empty_database_def del: json_norm.simps)
qed


section \<open>Witnesses\<close>

theorem trade_table_mirrors_ledger_witness:
  "\<exists>s rs. run_events (book_step \<lparr>fp_guard = \<lparr>g_max_gross = Fin 20, g_max_net = Fin 20, g_max_weight = Fin 1\<rparr>,
       fp_database = Some trade_sink, fp_store = (\<lambda>_. None)\<rparr>)
     \<lparr>fs_ledger = new_ledger, fs_trades = [], fs_saved = None\<rparr> [(sample_report, [], VNone, ''t'', sample_time)] = (s, rs) \<and>
     run_res (\<lambda>db t. db_record_trade t db) empty_database (fs_trades s) = Inr (table_of (fs_trades s))"
proof -
  let ?p = "\<lparr>fp_guard = \<lparr>g_max_gross = Fin 20, g_max_net = Fin 20, g_max_weight = Fin 1\<rparr>,
       fp_database = Some trade_sink, fp_store = (\<lambda>_. None)\<rparr>"
  obtain s rs where run: "run_events (book_step ?p) \<lparr>fs_ledger = new_ledger, fs_trades = [], fs_saved = None\<rparr>
      [(sample_report, [], VNone, ''t'', sample_time)] = (s, rs)" by fastforce
  from trade_table_mirrors_ledger [OF run, of 1] run show ?thesis by auto
qed

end
