(* ===== verification/Backtest_Runtime.thy ===== *)
theory Backtest_Runtime
  imports Replay Persistence
begin

text \<open>
  Building a backtest and reporting its result (\<open>backtesting/backtest_runtime.py\<close>). The database of
  the backtest is a file that outlives it, so its tables enter as they were left.
\<close>

section \<open>Building\<close>

record backtest_config =
  bc_equity :: pyfloat
  bc_speed :: pyfloat
  bc_fee :: pyfloat
  bc_slippage :: pyfloat
  bc_max_gross :: pyfloat
  bc_max_net :: pyfloat
  bc_max_weight :: pyfloat
  bc_max_order :: pyfloat
  bc_max_loss :: pyfloat
  bc_max_drawdown :: pyfloat

definition default_backtest :: backtest_config where
  "default_backtest =
     \<lparr>bc_equity = Fin 10000, bc_speed = Fin 0, bc_fee = Fin (4 / 10000), bc_slippage = Fin 2,
      bc_max_gross = Fin 3000, bc_max_net = Fin 3000, bc_max_weight = Fin 1, bc_max_order = Fin 1000,
      bc_max_loss = Fin 500, bc_max_drawdown = Fin 20\<rparr>"

record 's backtest_runtime =
  br_replay :: replay_service
  br_strategy :: "'s strategy_replay"
  br_pipeline :: "sim_exchange pipeline"
  br_ledger :: ledger
  br_kill :: kill_switch
  br_tracker :: equity_tracker

text \<open>
  The constructor, in the order of its checks. \<open>exists\<close> says whether the replay file exists, \<open>zone\<close> is
  the local time zone, \<open>allowed\<close> the variable \<open>AEGIS_EXECUTION_EXCHANGES\<close>; the sinks are the bus and
  the tables of the database.
\<close>

definition new_backtest ::
  "'s \<Rightarrow> bool \<Rightarrow> int \<Rightarrow> string \<Rightarrow> execution_report sink \<Rightarrow> (string \<times> pyval) list sink \<Rightarrow> execution_event sink \<Rightarrow>
   backtest_config \<Rightarrow> 's backtest_runtime res" where
  "new_backtest st exists zone allowed reports state_file bus c =
     (if bc_equity c \<le> Fin 0 then Inl (ValueError (text_msg ''initial_equity must be positive''))
      else if \<not> exists then Inl (OtherError (text_msg ''Replay file not found''))
      else rbind (new_clock (bc_speed c)) (\<lambda>clock.
           rbind (new_market_store (Fin 10000000)) (\<lambda>store.
           rbind (new_fee_model (bc_fee c)) (\<lambda>fee.
           rbind (new_slippage_model (bc_slippage c)) (\<lambda>bps.
           rbind (new_portfolio_guard (bc_max_gross c) (bc_max_net c) (bc_max_weight c)) (\<lambda>guard.
           rbind (new_pre_trade guard (bc_max_order c) (Fin 0)) (\<lambda>risk.
           rbind (new_kill_switch (bc_max_loss c) (bc_max_drawdown c)) (\<lambda>kill.
           rbind (new_tracker (bc_equity c)) (\<lambda>tracker.
           Inr \<lparr>br_replay = new_replay_service clock store (new_sim_exchange fee bps zone),
                br_strategy = new_strategy_replay st,
                br_pipeline =
                  \<lparr>pl_registry = reg_register ''SIMULATED'' simulated [], pl_allowed = allowed, pl_risk = risk,
                   pl_fills = \<lparr>fp_guard = guard, fp_database = Some trade_sink, fp_store = state_file\<rparr>,
                   pl_database = Some reports, pl_bus = Some bus\<rparr>,
                br_ledger = new_ledger, br_kill = kill, br_tracker = tracker\<rparr>)))))))))"

section \<open>The result\<close>

record backtest_result =
  bs_performance :: performance
  bs_curve :: "pyval list"
  bs_trades :: "pyval list"
  bs_risk_events :: "pyval list"

text \<open>What \<open>run\<close> returns once its loop has ended, from the ledger, the tracker and the database.\<close>

definition backtest_result_of :: "ledger \<Rightarrow> equity_tracker \<Rightarrow> database \<Rightarrow> backtest_result res" where
  "backtest_result_of l t db =
     rbind (calculate_performance None (Some (map (\<lambda>x. VFloat (t_pnl x)) (l_trades l)))
              (Some (map VFloat (tracker_values t)))) (\<lambda>perf.
     rbind (fetch_recent ''risk_events'' 100000 db) (\<lambda>events.
     Inr \<lparr>bs_performance = perf, bs_curve = tracker_to_dict t,
          bs_trades = map (\<lambda>x. VDict (trade_to_dict x)) (l_trades l), bs_risk_events = events\<rparr>))"

section \<open>Figures and books\<close>

lemma realized_is_trade_sum:
  assumes "run_res fill_step l fs = Inr l'" "l_realized l = py_sum (map t_pnl (l_trades l))"
  shows "l_realized l' = py_sum (map t_pnl (l_trades l'))"
  using assms
proof (induction fs arbitrary: l)
  case (Cons x xs)
  then obtain l1 trd where x: "apply_fill l (fst x) (snd x) = Inr (l1, trd)"
      and rest: "run_res fill_step l1 xs = Inr l'"
    by (auto simp: rbind_Inr_iff fill_step_Inr)
  have "l_realized l1 = py_sum (map t_pnl (l_trades l1))"
    using x Cons.prems(2) by (auto elim!: apply_fillE simp: py_sum_def)
  then show ?case using Cons.IH rest by blast
qed simp

lemma floats_of_floats: "floats_of (map VFloat xs) = Inr xs"
proof -
  have "run_res (\<lambda>xs v. rbind (py_float v) (\<lambda>x. Inr (xs @ [x]))) acc (map VFloat xs) = Inr (acc @ xs)" for acc
    by (induction xs arbitrary: acc) simp_all
  from this [of "[]"] show ?thesis by (simp add: floats_of_def)
qed

text \<open>
  The report of a backtest agrees with its books. For a ledger built from fills, computing the result
  never fails; the total profit it reports is the realized total of the ledger, its trades are those of
  the ledger, one for one, and its final equity is the last recorded point.
\<close>

theorem backtest_result_agrees_with_books:
  assumes "run_res fill_step new_ledger fs = Inr l"
  shows "\<exists>res. backtest_result_of l t db = Inr res \<and>
    pf_total_pnl (bs_performance res) = l_realized l \<and>
    pf_trade_count (bs_performance res) = length (bs_trades res) \<and> length (bs_trades res) = length fs \<and>
    (eq_points t \<noteq> [] \<longrightarrow> pf_final_equity (bs_performance res) = ep_equity (last (eq_points t)))"
proof -
  have sum: "l_realized l = py_sum (map t_pnl (l_trades l))"
    using realized_is_trade_sum [OF assms] by (simp add: new_ledger_def py_sum_def)
  have "length (l_trades l) = length (l_trades l0) + length fs" if "run_res fill_step l0 fs = Inr l" for l0
    using that
  proof (induction fs arbitrary: l0)
    case (Cons x xs)
    then obtain l1 trd where "apply_fill l0 (fst x) (snd x) = Inr (l1, trd)" "run_res fill_step l1 xs = Inr l"
      by (auto simp: rbind_Inr_iff fill_step_Inr)
    with Cons.IH show ?case by (auto elim!: apply_fillE)
  qed simp
  from this [OF assms] have len: "length (l_trades l) = length fs" by (simp add: new_ledger_def)
  have "calculate_performance None (Some (map VFloat (map t_pnl (l_trades l)))) (Some (map VFloat (tracker_values t))) =
      Inr (performance_of (tracker_values t) (map t_pnl (l_trades l)))"
    by (simp only: calculate_performance_def option.case Let_def read_series_def floats_of_floats rbind_def sum.case prod.case)
  moreover have "map (\<lambda>x. VFloat (t_pnl x)) (l_trades l) = map VFloat (map t_pnl (l_trades l))" by simp
  ultimately show ?thesis using sum len
    by (simp add: backtest_result_of_def fetch_recent_def performance_of_def Let_def tracker_values_def last_map del: map_map)
qed

text \<open>The risk events of a result are those of every backtest since the database was made.\<close>

lemma result_keeps_old_events:
  assumes "backtest_result_of l t db = Inr res" "db_risk db = earlier @ these" "length (db_risk db) \<le> 100000"
  shows "bs_risk_events res = rev these @ rev earlier"
  using assms by (auto simp: backtest_result_of_def fetch_recent_def rbind_Inr_iff)

text \<open>
  A backtest that can be built trades on the simulated exchange alone, on empty books, with the
  configured limits and fees; the built-in figures always can.
\<close>

lemma backtest_built_on_simulation:
  assumes "new_backtest st exists zone allowed reports state_file bus c = Inr br"
  shows "pl_registry (br_pipeline br) = [(''SIMULATED'', simulated)] \<and>
    rp_sim (br_replay br) = new_sim_exchange (bc_fee c) (bc_slippage c) zone \<and>
    br_ledger br = new_ledger \<and> rp_running (br_replay br) \<and> eq_initial (br_tracker br) = bc_equity c \<and>
    \<not> k_triggered (br_kill br) \<and>
    pl_risk (br_pipeline br) =
      \<lparr>pt_guard = \<lparr>g_max_gross = bc_max_gross c, g_max_net = bc_max_net c, g_max_weight = bc_max_weight c\<rparr>,
       pt_max_order = bc_max_order c, pt_min_order = Fin 0\<rparr> \<and>
    is_ok (new_backtest st True zone allowed reports state_file bus default_backtest)"
  using assms
  by (auto simp: new_backtest_def rbind_Inr_iff new_clock_def new_market_store_def new_fee_model_def new_slippage_model_def
      new_portfolio_guard_def new_pre_trade_def new_kill_switch_def new_tracker_def new_replay_service_def
      reg_register_def default_backtest_def split: if_splits)

section \<open>Witnesses\<close>

theorem backtest_result_agrees_with_books_witness:
  "\<exists>l res. run_res fill_step new_ledger sample_fills = Inr l \<and>
     backtest_result_of l \<lparr>eq_initial = Fin 100, eq_points = []\<rparr> empty_database = Inr res \<and>
     pf_total_pnl (bs_performance res) = Fin 57"
proof -
  obtain l where l: "run_res fill_step new_ledger sample_fills = Inr l" "l_realized l = Fin 57"
    using Position_Ledger.sample_run by blast
  from backtest_result_agrees_with_books [OF l(1), of "\<lparr>eq_initial = Fin 100, eq_points = []\<rparr>" empty_database] l
  show ?thesis by auto
qed

end
