(* ===== verification/Aegis_Config.thy ===== *)
theory Aegis_Config
  imports Prelude
begin

text \<open>
  The configuration (\<open>config.py\<close>): the fields of \<open>AegisConfig\<close> that the running program reads, the
  environment variables that override them, and the validation. The encrypted file is read by the
  \<open>cryptography\<close> package and enters \<open>load_config\<close> as the configuration it leaves.
\<close>

section \<open>The configuration\<close>

record aegis_config =
  cfg_binance_key :: string
  cfg_binance_secret :: string
  cfg_bybit_key :: string
  cfg_bybit_secret :: string
  cfg_okx_key :: string
  cfg_okx_secret :: string
  cfg_okx_passphrase :: string
  cfg_tg_token :: string
  cfg_tg_chat :: string
  cfg_mode :: string
  cfg_live_confirm :: string
  cfg_proxy :: string
  cfg_base_risk :: pyfloat
  cfg_max_heat :: pyfloat
  cfg_max_allocation :: pyfloat
  cfg_max_trades :: int
  cfg_tp1_frac :: pyfloat
  cfg_tp2_frac :: pyfloat
  cfg_daily_loss_pct :: pyfloat
  cfg_drawdown_pct :: pyfloat

definition default_config :: aegis_config where
  "default_config =
     \<lparr>cfg_binance_key = [], cfg_binance_secret = [], cfg_bybit_key = [], cfg_bybit_secret = [],
      cfg_okx_key = [], cfg_okx_secret = [], cfg_okx_passphrase = [], cfg_tg_token = [],
      cfg_tg_chat = [], cfg_mode = ''PAPER'', cfg_live_confirm = [], cfg_proxy = [],
      cfg_base_risk = Fin (1 / 100), cfg_max_heat = Fin (30 / 100), cfg_max_allocation = Fin (12 / 100),
      cfg_max_trades = 6, cfg_tp1_frac = Fin (40 / 100), cfg_tp2_frac = Fin (40 / 100),
      cfg_daily_loss_pct = Fin (25 / 10), cfg_drawdown_pct = Fin 12\<rparr>"

text \<open>An unset or empty variable leaves the field as it is.\<close>

definition overridden :: "env \<Rightarrow> string \<Rightarrow> string \<Rightarrow> string" where
  "overridden env name v = (case env name of Some x \<Rightarrow> (if x = [] then v else x) | None \<Rightarrow> v)"

definition load_config :: "env \<Rightarrow> aegis_config \<Rightarrow> aegis_config" where
  "load_config env c = c
     \<lparr>cfg_binance_key := overridden env ''BINANCE_API_KEY'' (cfg_binance_key c),
      cfg_binance_secret := overridden env ''BINANCE_SECRET'' (cfg_binance_secret c),
      cfg_bybit_key := overridden env ''BYBIT_API_KEY'' (cfg_bybit_key c),
      cfg_bybit_secret := overridden env ''BYBIT_SECRET'' (cfg_bybit_secret c),
      cfg_okx_key := overridden env ''OKX_API_KEY'' (cfg_okx_key c),
      cfg_okx_secret := overridden env ''OKX_SECRET'' (cfg_okx_secret c),
      cfg_okx_passphrase := overridden env ''OKX_PASSPHRASE'' (cfg_okx_passphrase c),
      cfg_tg_token := overridden env ''TG_TOKEN'' (cfg_tg_token c),
      cfg_tg_chat := overridden env ''TG_CHAT_ID'' (cfg_tg_chat c),
      cfg_mode := overridden env ''AEGIS_MODE'' (cfg_mode c),
      cfg_live_confirm := overridden env ''AEGIS_LIVE_CONFIRM'' (cfg_live_confirm c),
      cfg_proxy := overridden env ''HTTP_PROXY'' (cfg_proxy c)\<rparr>"

text \<open>The errors of a configuration, in order; none means it is valid.\<close>

definition validate_config :: "aegis_config \<Rightarrow> message list" where
  "validate_config c =
     (if cfg_mode c \<notin> {''PAPER'', ''LIVE''}
      then [[Txt ''Invalid mode: '', Str (cfg_mode c), Txt ''. Must be PAPER or LIVE.'']] else []) @
     (if cfg_mode c = ''LIVE'' then
        (if cfg_live_confirm c \<noteq> ''YES_I_ACCEPT_THE_RISK''
         then [text_msg ''live_confirm must be 'YES_I_ACCEPT_THE_RISK' for LIVE mode.''] else []) @
        (if cfg_binance_key c = [] then [text_msg ''binance_api_key is required for LIVE mode.''] else []) @
        (if cfg_binance_secret c = [] then [text_msg ''binance_secret is required for LIVE mode.''] else [])
      else []) @
     (if \<not> (Fin 0 < cfg_base_risk c \<and> cfg_base_risk c \<le> Fin (5 / 100))
      then [[Txt ''base_risk_per_trade '', Flt (cfg_base_risk c) 17, Txt '' should be in (0, 0.05].'']] else []) @
     (if \<not> (Fin 0 < cfg_max_heat c \<and> cfg_max_heat c \<le> Fin 1)
      then [text_msg ''max_portfolio_heat must be in (0, 1].''] else []) @
     (if cfg_max_trades c < 1 then [text_msg ''max_concurrent_trades must be >= 1.''] else []) @
     (if Fin 1 < cfg_tp1_frac c + cfg_tp2_frac c
      then [[Txt ''atr_tp1_frac ('', Flt (cfg_tp1_frac c) 17, Txt '') + atr_tp2_frac ('',
             Flt (cfg_tp2_frac c) 17, Txt '') > 1.0 - would result in negative remaining quantity.'']] else [])"

lemma valid_live_confirmed:
  assumes "validate_config c = []"
  shows "cfg_mode c = ''PAPER'' \<or>
    (cfg_mode c = ''LIVE'' \<and> cfg_live_confirm c = ''YES_I_ACCEPT_THE_RISK'' \<and>
     cfg_binance_key c \<noteq> [] \<and> cfg_binance_secret c \<noteq> [])"
  using assms by (auto simp: validate_config_def split: if_splits)

lemma default_config_valid: "validate_config default_config = []"
  by (simp add: validate_config_def default_config_def)

end
