(* ===== verification/Exchange_Manager.thy ===== *)
theory Exchange_Manager
  imports Aegis_Config Routing Resilience
begin

text \<open>
  The connected exchanges (\<open>exchange.py\<close>) with the retry decorator and the token bucket of
  \<open>utils.py\<close>. The ccxt package is a parameter: how a client is created, what a method call on it does
  to the world and returns, and the value of an attribute. A wrapper's bucket only delays its calls and
  is modelled on its own; the sleeps between attempts are the results of the retry loop.
\<close>

section \<open>Retries and the token bucket\<close>

text \<open>
  The attempts still allowed, counted from the first: a failure is followed by a sleep unless it was
  the last one. \<open>jitter\<close> gives the random factor of each attempt.
\<close>

fun retry_loop ::
  "('w \<Rightarrow> 'w \<times> 'a res) \<Rightarrow> (nat \<Rightarrow> pyfloat) \<Rightarrow> nat \<Rightarrow> nat \<Rightarrow> py_exc option \<Rightarrow> 'w \<Rightarrow>
   'w \<times> pyfloat list \<times> (py_exc option + 'a)" where
  "retry_loop f sleep i 0 failed w = (w, [], Inl failed)"
| "retry_loop f sleep i (Suc n) failed w =
     (case f w of
        (w1, Inr x) \<Rightarrow> (w1, [], Inr x)
      | (w1, Inl e) \<Rightarrow>
          (if n = 0 then (w1, [], Inl (Some e))
           else (case retry_loop f sleep (Suc i) n (Some e) w1 of
                   (w2, sleeps, r) \<Rightarrow> (w2, sleep i # sleeps, r))))"

definition backoff :: "pyfloat \<Rightarrow> pyfloat \<Rightarrow> (nat \<Rightarrow> pyfloat) \<Rightarrow> nat \<Rightarrow> pyfloat" where
  "backoff base max_delay jitter i = py_min (base * Fin (2 ^ i)) max_delay * jitter i"

definition utils_retry ::
  "int \<Rightarrow> pyfloat \<Rightarrow> pyfloat \<Rightarrow> (nat \<Rightarrow> pyfloat) \<Rightarrow> ('w \<Rightarrow> 'w \<times> 'a res) \<Rightarrow> 'w \<Rightarrow>
   'w \<times> pyfloat list \<times> 'a res" where
  "utils_retry max_attempts base max_delay jitter f w =
     (case retry_loop f (backoff base max_delay jitter) 0 (nat max_attempts) None w of
        (w', sleeps, Inr x) \<Rightarrow> (w', sleeps, Inr x)
      | (w', sleeps, Inl (Some e)) \<Rightarrow> (w', sleeps, Inl e)
      | (w', sleeps, Inl None) \<Rightarrow>
          (w', sleeps, Inl (TypeError (text_msg ''exceptions must derive from BaseException''))))"

text \<open>A decorated method as its caller sees it, without the sleeps.\<close>

definition retried :: "nat \<Rightarrow> ('w \<Rightarrow> 'w \<times> 'a res) \<Rightarrow> 'w \<Rightarrow> 'w \<times> 'a res" where
  "retried n f w =
     (case utils_retry (int n) (Fin 1) (Fin 60) (\<lambda>_. Fin 1) f w of (w', _, r) \<Rightarrow> (w', r))"

record token_bucket =
  tb_rate :: pyfloat
  tb_capacity :: pyfloat
  tb_tokens :: pyfloat
  tb_last :: pyfloat

definition new_token_bucket :: "pyfloat \<Rightarrow> pyfloat \<Rightarrow> pyfloat \<Rightarrow> token_bucket" where
  "new_token_bucket rate capacity now =
     \<lparr>tb_rate = rate, tb_capacity = capacity, tb_tokens = capacity, tb_last = now\<rparr>"

definition tb_refill :: "pyfloat \<Rightarrow> token_bucket \<Rightarrow> token_bucket" where
  "tb_refill now b =
     b\<lparr>tb_tokens := py_min (tb_capacity b) (tb_tokens b + (now - tb_last b) * tb_rate b), tb_last := now\<rparr>"

text \<open>One turn of the loop of \<open>consume\<close>.\<close>

definition tb_turn :: "pyfloat \<Rightarrow> pyfloat \<Rightarrow> token_bucket \<Rightarrow> token_bucket \<times> bool" where
  "tb_turn tokens now b =
     (let b1 = tb_refill now b in
      if tokens \<le> tb_tokens b1 then (b1\<lparr>tb_tokens := tb_tokens b1 - tokens\<rparr>, True) else (b1, False))"

text \<open>
  \<open>consume\<close>, driven by the clock readings of its turns: \<open>Some\<close> of its result, or \<open>None\<close> when it is
  still blocked after the last of them.
\<close>

fun tb_consume :: "pyfloat \<Rightarrow> bool \<Rightarrow> pyfloat list \<Rightarrow> token_bucket \<Rightarrow> token_bucket \<times> bool option" where
  "tb_consume tokens block [] b = (b, None)"
| "tb_consume tokens block (now # later) b =
     (case tb_turn tokens now b of
        (b1, True) \<Rightarrow> (b1, Some True)
      | (b1, False) \<Rightarrow> (if block then tb_consume tokens block later b1 else (b1, Some False)))"

section \<open>Clients and wrappers\<close>

record ('x, 'w) ccxt =
  cc_new :: "string \<Rightarrow> (string \<times> pyval) list \<Rightarrow> 'w \<Rightarrow> 'w \<times> 'x res"
  cc_call :: "'x \<Rightarrow> string \<Rightarrow> pyval list \<Rightarrow> 'w \<Rightarrow> 'w \<times> pyval res"
  cc_attr :: "'x \<Rightarrow> string \<Rightarrow> 'w \<Rightarrow> pyval option"

record 'x wrapper =
  wr_id :: string
  wr_client :: 'x
  wr_enabled :: bool

definition rate_limit_of :: "string \<Rightarrow> pyfloat \<times> pyfloat" where
  "rate_limit_of ex_id =
     (if ex_id = ''binance'' then (Fin 8, Fin 20)
      else if ex_id = ''bybit'' then (Fin 5, Fin 10)
      else if ex_id = ''okx'' then (Fin 5, Fin 10)
      else (Fin 3, Fin 6))"

definition wrapper_call :: "('x, 'w) ccxt \<Rightarrow> 'x wrapper \<Rightarrow> string \<Rightarrow> pyval list \<Rightarrow> 'w \<Rightarrow> 'w \<times> pyval res" where
  "wrapper_call cc wr method args = cc_call cc (wr_client wr) method args"

definition fetch_ticker :: "('x, 'w) ccxt \<Rightarrow> 'x wrapper \<Rightarrow> string \<Rightarrow> 'w \<Rightarrow> 'w \<times> pyval res" where
  "fetch_ticker cc wr symb = retried 4 (wrapper_call cc wr ''fetch_ticker'' [VStr symb])"

definition fetch_order_book :: "('x, 'w) ccxt \<Rightarrow> 'x wrapper \<Rightarrow> string \<Rightarrow> int \<Rightarrow> 'w \<Rightarrow> 'w \<times> pyval res" where
  "fetch_order_book cc wr symb limit =
     retried 4 (wrapper_call cc wr ''fetch_order_book'' [VStr symb, VInt limit])"

definition fetch_balance :: "('x, 'w) ccxt \<Rightarrow> 'x wrapper \<Rightarrow> 'w \<Rightarrow> 'w \<times> pyval res" where
  "fetch_balance cc wr = retried 4 (wrapper_call cc wr ''fetch_balance'' [])"

definition cancel_order :: "('x, 'w) ccxt \<Rightarrow> 'x wrapper \<Rightarrow> pyval \<Rightarrow> string \<Rightarrow> 'w \<Rightarrow> 'w \<times> pyval res" where
  "cancel_order cc wr order_id symb =
     retried 3 (wrapper_call cc wr ''cancel_order'' [order_id, VStr symb])"

definition fetch_open_orders :: "('x, 'w) ccxt \<Rightarrow> 'x wrapper \<Rightarrow> string \<Rightarrow> 'w \<Rightarrow> 'w \<times> pyval res" where
  "fetch_open_orders cc wr symb = retried 3 (wrapper_call cc wr ''fetch_open_orders'' [VStr symb])"

definition fetch_ohlcv :: "('x, 'w) ccxt \<Rightarrow> 'x wrapper \<Rightarrow> string \<Rightarrow> string \<Rightarrow> int \<Rightarrow> 'w \<Rightarrow> 'w \<times> pyval res" where
  "fetch_ohlcv cc wr symb timeframe limit =
     retried 4 (wrapper_call cc wr ''fetch_ohlcv'' [VStr symb, VStr timeframe, VInt limit])"

definition fetch_order :: "('x, 'w) ccxt \<Rightarrow> 'x wrapper \<Rightarrow> pyval \<Rightarrow> string \<Rightarrow> 'w \<Rightarrow> 'w \<times> pyval res" where
  "fetch_order cc wr order_id symb = retried 3 (wrapper_call cc wr ''fetch_order'' [order_id, VStr symb])"

text \<open>The limit parameters of an order are optional: \<open>params or {}\<close>.\<close>

definition create_typed_order ::
  "('x, 'w) ccxt \<Rightarrow> 'x wrapper \<Rightarrow> string \<Rightarrow> string \<Rightarrow> pyfloat \<Rightarrow> pyfloat option \<Rightarrow> (string \<times> pyval) list \<Rightarrow>
   'w \<Rightarrow> 'w \<times> pyval res" where
  "create_typed_order cc wr method symb amount price params =
     retried 3 (wrapper_call cc wr method
       ([VStr symb, VFloat amount] @ (case price of None \<Rightarrow> [] | Some p \<Rightarrow> [VFloat p]) @ [VDict params]))"

text \<open>\<open>create_order\<close> goes to the client directly, once, and only when execution is enabled.\<close>

definition wrapper_create_order ::
  "('x, 'w) ccxt \<Rightarrow> 'x wrapper \<Rightarrow> string \<Rightarrow> string \<Rightarrow> string \<Rightarrow> pyfloat \<Rightarrow> pyfloat option \<Rightarrow>
   'w \<Rightarrow> 'w \<times> pyval res" where
  "wrapper_create_order cc wr symb ty side amount price w =
     (if \<not> wr_enabled wr
      then (w, Inl (RuntimeError
              [Txt ''Exchange '', Str (wr_id wr), Txt '' is connected for market data only; '',
               Txt ''order execution is disabled because API credentials are missing.'']))
      else cc_call cc (wr_client wr) ''create_order''
             [VStr symb, VStr ty, VStr side, VFloat amount,
              (case price of None \<Rightarrow> VNone | Some p \<Rightarrow> VFloat p)] w)"

text \<open>\<open>v[0]\<close> and \<open>v.get(key)\<close> of an arbitrary value.\<close>

fun item0 :: "pyval \<Rightarrow> pyval res" where
  "item0 (VList (x # _)) = Inr x"
| "item0 (VStr (c # _)) = Inr (VStr [c])"
| "item0 (VList []) = Inl (OtherError (text_msg ''list index out of range''))"
| "item0 (VStr []) = Inl (OtherError (text_msg ''string index out of range''))"
| "item0 (VDict _) = Inl (KeyError ''0'')"
| "item0 _ = Inl (TypeError (text_msg ''object is not subscriptable''))"

fun method_get :: "pyval \<Rightarrow> string \<Rightarrow> pyval res" where
  "method_get (VDict d) k = Inr (get_val d k)"
| "method_get _ k = Inl (AttributeError (text_msg ''object has no attribute get''))"

text \<open>The price of the best level of one side; every exception and an empty side give none.\<close>

definition best_level :: "('x, 'w) ccxt \<Rightarrow> 'x wrapper \<Rightarrow> string \<Rightarrow> string \<Rightarrow> 'w \<Rightarrow> 'w \<times> pyfloat option" where
  "best_level cc wr side symb w =
     (case fetch_order_book cc wr symb 1 w of
        (w1, ob) \<Rightarrow>
          (w1, case rbind ob (\<lambda>b. rbind (method_get b side) (\<lambda>levels.
                   if truthy levels
                   then rbind (item0 levels) (\<lambda>l. rbind (item0 l) (\<lambda>p. rbind (py_float p) (\<lambda>x. Inr (Some x))))
                   else Inr None)) of
                 Inl _ \<Rightarrow> None
               | Inr r \<Rightarrow> r))"

definition wr_best_ask :: "('x, 'w) ccxt \<Rightarrow> 'x wrapper \<Rightarrow> string \<Rightarrow> 'w \<Rightarrow> 'w \<times> pyfloat option" where
  "wr_best_ask cc wr = best_level cc wr ''asks''"

definition wr_best_bid :: "('x, 'w) ccxt \<Rightarrow> 'x wrapper \<Rightarrow> string \<Rightarrow> 'w \<Rightarrow> 'w \<times> pyfloat option" where
  "wr_best_bid cc wr = best_level cc wr ''bids''"

text \<open>\<open>amount_to_precision\<close> and \<open>price_to_precision\<close>: the given number when the client fails.\<close>

definition to_precision ::
  "('x, 'w) ccxt \<Rightarrow> 'x wrapper \<Rightarrow> string \<Rightarrow> string \<Rightarrow> pyfloat \<Rightarrow> 'w \<Rightarrow> 'w \<times> pyfloat" where
  "to_precision cc wr method symb x w =
     (case cc_call cc (wr_client wr) method [VStr symb, VFloat x] w of
        (w1, r) \<Rightarrow> (w1, case rbind r py_float of Inl _ \<Rightarrow> x | Inr y \<Rightarrow> y))"

text \<open>The minimal notional among the filters of a market's \<open>info\<close>; a set lookup needs a hashable value.\<close>

fun notional_filter :: "pyval list \<Rightarrow> pyfloat option res" where
  "notional_filter [] = Inr None"
| "notional_filter (VDict d # items) =
     (let ty = get_val d ''filterType'' in
      case ty of
        VList _ \<Rightarrow> Inl (TypeError (text_msg ''unhashable type''))
      | VDict _ \<Rightarrow> Inl (TypeError (text_msg ''unhashable type''))
      | _ \<Rightarrow>
          (if ty \<in> {VStr ''MIN_NOTIONAL'', VStr ''NOTIONAL''}
           then (case py_float (py_or (py_or (get_val d ''minNotional'') (get_val d ''notional''))
                                      (get_val d ''minNotionalValue'')) of
                   Inr x \<Rightarrow> Inr (Some x)
                 | Inl _ \<Rightarrow> notional_filter items)
           else notional_filter items))"
| "notional_filter (_ # items) = notional_filter items"

definition market_min_notional :: "pyval \<Rightarrow> pyfloat option res" where
  "market_min_notional market =
     (case market of
        VDict m \<Rightarrow>
          rbind (method_get (py_or (get_val m ''limits'') (VDict [])) ''cost'') (\<lambda>cost.
          rbind (method_get (py_or cost (VDict [])) ''min'') (\<lambda>min_cost.
            case (if min_cost = VNone then Inl (TypeError []) else py_float min_cost) of
              Inr x \<Rightarrow> Inr (Some x)
            | Inl _ \<Rightarrow>
                (case py_or (get_val m ''info'') (VDict []) of
                   VDict info \<Rightarrow>
                     (case get_val info ''filters'' of VList items \<Rightarrow> notional_filter items | _ \<Rightarrow> Inr None)
                 | _ \<Rightarrow> Inr None)))
      | _ \<Rightarrow> Inr None)"

definition wr_min_notional ::
  "('x, 'w) ccxt \<Rightarrow> 'x wrapper \<Rightarrow> string \<Rightarrow> 'w \<Rightarrow> 'w \<times> pyfloat option res" where
  "wr_min_notional cc wr symb w =
     (case cc_call cc (wr_client wr) ''market'' [VStr symb] w of
        (w1, Inr m) \<Rightarrow> (w1, market_min_notional m)
      | (w1, Inl _) \<Rightarrow>
          (w1, case cc_attr cc (wr_client wr) ''markets'' w1 of
                 None \<Rightarrow> market_min_notional (VDict [])
               | Some (VDict ms) \<Rightarrow> market_min_notional (dict_get ms symb (VDict []))
               | Some _ \<Rightarrow> Inl (AttributeError (text_msg ''object has no attribute get''))))"

section \<open>Connecting the exchanges\<close>

record 'x manager =
  mg_exchanges :: "(string, 'x wrapper) pydict"
  mg_primary :: "'x wrapper"

definition spot_options :: pyval where
  "spot_options = VDict [(''defaultType'', VStr ''spot'')]"

definition exchange_definitions :: "aegis_config \<Rightarrow> (string \<times> (string \<times> pyval) list) list" where
  "exchange_definitions cfg =
     [(''binance'', [(''apiKey'', VStr (cfg_binance_key cfg)), (''secret'', VStr (cfg_binance_secret cfg)),
                     (''options'', spot_options)]),
      (''bybit'', [(''apiKey'', VStr (cfg_bybit_key cfg)), (''secret'', VStr (cfg_bybit_secret cfg)),
                   (''options'', spot_options)]),
      (''okx'', [(''apiKey'', VStr (cfg_okx_key cfg)), (''secret'', VStr (cfg_okx_secret cfg)),
                 (''password'', VStr (cfg_okx_passphrase cfg)), (''options'', spot_options)])]"

definition enabled_exchanges :: "env \<Rightarrow> string list" where
  "enabled_exchanges env =
     map (\<lambda>p. str_lower (str_strip p))
       (filter (\<lambda>p. str_strip p \<noteq> [])
         (split_comma (case env ''AEGIS_ENABLED_EXCHANGES'' of None \<Rightarrow> ''binance,bybit,okx'' | Some x \<Rightarrow> x)))"

definition has_credentials :: "string \<Rightarrow> (string \<times> pyval) list \<Rightarrow> bool" where
  "has_credentials ex_id creds \<longleftrightarrow>
     truthy (get_val creds ''apiKey'') \<and> truthy (get_val creds ''secret'') \<and>
     (ex_id = ''okx'' \<longrightarrow> truthy (get_val creds ''password''))"

definition public_creds :: "(string \<times> pyval) list \<Rightarrow> (string \<times> pyval) list" where
  "public_creds creds =
     (case map_of creds ''options'' of None \<Rightarrow> [] | Some v \<Rightarrow> [(''options'', v)])"

text \<open>A client, switched to the sandbox when asked to; a failure of the switch is ignored.\<close>

definition make_exchange ::
  "('x, 'w) ccxt \<Rightarrow> string \<Rightarrow> (string \<times> pyval) list \<Rightarrow> bool \<Rightarrow> string \<Rightarrow> 'w \<Rightarrow> 'w \<times> 'x res" where
  "make_exchange cc ex_id creds sandbox proxy w =
     (case cc_new cc ex_id
             (if proxy = [] then creds
              else dict_set ''proxies'' (VDict [(''http'', VStr proxy), (''https'', VStr proxy)]) creds) w of
        (w1, Inl e) \<Rightarrow> (w1, Inl e)
      | (w1, Inr x) \<Rightarrow>
          (if sandbox then (fst (cc_call cc x ''set_sandbox_mode'' [VBool True] w1), Inr x) else (w1, Inr x)))"

definition connect ::
  "('x, 'w) ccxt \<Rightarrow> string \<Rightarrow> (string \<times> pyval) list \<Rightarrow> bool \<Rightarrow> string \<Rightarrow> bool \<Rightarrow> 'w \<Rightarrow> 'w \<times> 'x wrapper res" where
  "connect cc ex_id creds sandbox proxy enabled w =
     (case make_exchange cc ex_id creds sandbox proxy w of
        (w1, Inl e) \<Rightarrow> (w1, Inl e)
      | (w1, Inr x) \<Rightarrow>
          (case cc_call cc x ''load_markets'' [] w1 of
             (w2, Inl e) \<Rightarrow> (w2, Inl e)
           | (w2, Inr _) \<Rightarrow> (w2, Inr \<lparr>wr_id = ex_id, wr_client = x, wr_enabled = enabled\<rparr>)))"

definition build_wrapper ::
  "('x, 'w) ccxt \<Rightarrow> string \<Rightarrow> (string \<times> pyval) list \<Rightarrow> bool \<Rightarrow> string \<Rightarrow> 'w \<Rightarrow> 'w \<times> 'x wrapper res" where
  "build_wrapper cc ex_id creds sandbox proxy w =
     (if has_credentials ex_id creds
      then (case connect cc ex_id creds sandbox proxy True w of
              (w1, Inr wr) \<Rightarrow> (w1, Inr wr)
            | (w1, Inl _) \<Rightarrow> connect cc ex_id (public_creds creds) sandbox proxy False w1)
      else connect cc ex_id (public_creds creds) sandbox proxy False w)"

fun connect_all ::
  "('x, 'w) ccxt \<Rightarrow> bool \<Rightarrow> string \<Rightarrow> (string \<times> (string \<times> pyval) list) list \<Rightarrow>
   (string, 'x wrapper) pydict \<Rightarrow> 'w \<Rightarrow> 'w \<times> (string, 'x wrapper) pydict" where
  "connect_all cc sandbox proxy [] acc w = (w, acc)"
| "connect_all cc sandbox proxy ((ex_id, creds) # defs) acc w =
     (case build_wrapper cc ex_id creds sandbox proxy w of
        (w1, Inl _) \<Rightarrow> connect_all cc sandbox proxy defs acc w1
      | (w1, Inr wr) \<Rightarrow> connect_all cc sandbox proxy defs (dict_set ex_id wr acc) w1)"

definition new_manager :: "('x, 'w) ccxt \<Rightarrow> env \<Rightarrow> aegis_config \<Rightarrow> 'w \<Rightarrow> 'w \<times> 'x manager res" where
  "new_manager cc env cfg w =
     (let enabled = enabled_exchanges env;
          defs = (if enabled = [] then exchange_definitions cfg
                  else filter (\<lambda>d. fst d \<in> set enabled) (exchange_definitions cfg))
      in case connect_all cc (cfg_mode cfg = ''PAPER'') (cfg_proxy cfg) defs [] w of
           (w1, []) \<Rightarrow>
             (w1, Inl (RuntimeError (text_msg ''No exchanges could be connected. Check credentials and network.'')))
         | (w1, (name, first) # rest) \<Rightarrow>
             (w1, Inr \<lparr>mg_exchanges = (name, first) # rest,
                       mg_primary = dict_get ((name, first) # rest) ''binance'' first\<rparr>))"

section \<open>Operations of the manager\<close>

text \<open>
  The loops of \<open>best_buy_exchange\<close> and \<open>best_sell_exchange\<close>: a price of zero is no price, and the first
  of equal prices stays. \<open>better_than p q\<close> says that \<open>p\<close> replaces \<open>q\<close>.
\<close>

fun best_quote ::
  "('x wrapper \<Rightarrow> 'w \<Rightarrow> 'w \<times> pyfloat option) \<Rightarrow> (pyfloat \<Rightarrow> pyfloat \<Rightarrow> bool) \<Rightarrow>
   (string \<times> 'x wrapper) list \<Rightarrow> 'x wrapper option \<times> pyfloat \<Rightarrow> 'w \<Rightarrow> 'w \<times> 'x wrapper option" where
  "best_quote quote better_than [] best w = (w, fst best)"
| "best_quote quote better_than ((_, wr) # rest) best w =
     (case quote wr w of
        (w1, Some p) \<Rightarrow>
          best_quote quote better_than rest
            (if py_true p \<and> better_than p (snd best) then (Some wr, p) else best) w1
      | (w1, None) \<Rightarrow> best_quote quote better_than rest best w1)"

definition best_buy_exchange :: "('x, 'w) ccxt \<Rightarrow> 'x manager \<Rightarrow> string \<Rightarrow> 'w \<Rightarrow> 'w \<times> 'x wrapper" where
  "best_buy_exchange cc mg symb w =
     (case best_quote (\<lambda>wr. wr_best_ask cc wr symb) (\<lambda>p q. p < q) (mg_exchanges mg) (None, PInf) w of
        (w1, None) \<Rightarrow> (w1, mg_primary mg) | (w1, Some wr) \<Rightarrow> (w1, wr))"

definition best_sell_exchange :: "('x, 'w) ccxt \<Rightarrow> 'x manager \<Rightarrow> string \<Rightarrow> 'w \<Rightarrow> 'w \<times> 'x wrapper" where
  "best_sell_exchange cc mg symb w =
     (case best_quote (\<lambda>wr. wr_best_bid cc wr symb) (\<lambda>p q. q < p) (mg_exchanges mg) (None, Fin 0) w of
        (w1, None) \<Rightarrow> (w1, mg_primary mg) | (w1, Some wr) \<Rightarrow> (w1, wr))"

text \<open>\<open>float(ticker.get("last", 0)) or None\<close>; any exception gives none.\<close>

definition last_of_ticker :: "pyval res \<Rightarrow> pyfloat option" where
  "last_of_ticker ticker =
     (case rbind ticker (\<lambda>t. case t of
             VDict d \<Rightarrow> py_float (dict_get d ''last'' (VInt 0))
           | _ \<Rightarrow> Inl (AttributeError (text_msg ''object has no attribute get''))) of
        Inl _ \<Rightarrow> None
      | Inr p \<Rightarrow> (if py_true p then Some p else None))"

fun get_prices ::
  "('x, 'w) ccxt \<Rightarrow> string \<Rightarrow> (string \<times> 'x wrapper) list \<Rightarrow> 'w \<Rightarrow> 'w \<times> (string \<times> pyfloat option) list" where
  "get_prices cc symb [] w = (w, [])"
| "get_prices cc symb ((name, wr) # rest) w =
     (case fetch_ticker cc wr symb w of
        (w1, t) \<Rightarrow> (case get_prices cc symb rest w1 of (w2, ps) \<Rightarrow> (w2, (name, last_of_ticker t) # ps)))"

text \<open>The asks and bids of all exchanges that have a non-zero one.\<close>

fun collect_quotes ::
  "('x, 'w) ccxt \<Rightarrow> string \<Rightarrow> (string \<times> 'x wrapper) list \<Rightarrow> 'w \<Rightarrow>
   'w \<times> (string \<times> pyfloat) list \<times> (string \<times> pyfloat) list" where
  "collect_quotes cc symb [] w = (w, [], [])"
| "collect_quotes cc symb ((name, wr) # rest) w =
     (case wr_best_ask cc wr symb w of (w1, ask) \<Rightarrow>
      case wr_best_bid cc wr symb w1 of (w2, bid) \<Rightarrow>
      case collect_quotes cc symb rest w2 of (w3, asks, bids) \<Rightarrow>
        (w3, (case ask of Some p \<Rightarrow> (if py_true p then (name, p) # asks else asks) | None \<Rightarrow> asks),
             (case bid of Some p \<Rightarrow> (if py_true p then (name, p) # bids else bids) | None \<Rightarrow> bids)))"

text \<open>\<open>min(d, key=d.get)\<close> and \<open>max(d, key=d.get)\<close>: the first best entry.\<close>

definition min_entry :: "('a \<times> pyfloat) list \<Rightarrow> 'a \<times> pyfloat" where
  "min_entry xs = foldl (\<lambda>b x. if snd x < snd b then x else b) (hd xs) (tl xs)"

definition max_entry :: "('a \<times> pyfloat) list \<Rightarrow> 'a \<times> pyfloat" where
  "max_entry xs = foldl (\<lambda>b x. if snd b < snd x then x else b) (hd xs) (tl xs)"

record arbitrage =
  ar_buy :: string
  ar_sell :: string
  ar_buy_price :: pyfloat
  ar_sell_price :: pyfloat
  ar_spread :: pyfloat
  ar_symbol :: string

definition arbitrage_of ::
  "string \<Rightarrow> (string \<times> pyfloat) list \<Rightarrow> (string \<times> pyfloat) list \<Rightarrow> arbitrage option" where
  "arbitrage_of symb asks bids =
     (if length asks < 2 \<or> length bids < 2 then None
      else let (buy, ask) = min_entry asks; (sell, bid) = max_entry bids; spread = (bid - ask) / ask in
           if buy = sell then None
           else if Fin (15 / 10000) < spread
           then Some \<lparr>ar_buy = buy, ar_sell = sell, ar_buy_price = ask, ar_sell_price = bid,
                      ar_spread = spread, ar_symbol = symb\<rparr>
           else None)"

definition detect_arbitrage ::
  "('x, 'w) ccxt \<Rightarrow> 'x manager \<Rightarrow> string \<Rightarrow> 'w \<Rightarrow> 'w \<times> arbitrage option" where
  "detect_arbitrage cc mg symb w =
     (case collect_quotes cc symb (mg_exchanges mg) w of (w1, asks, bids) \<Rightarrow> (w1, arbitrage_of symb asks bids))"

text \<open>\<open>float(bal.get("USDT", {}).get("free", 0))\<close>.\<close>

definition free_usdt :: "pyval \<Rightarrow> pyfloat res" where
  "free_usdt bal =
     (case bal of
        VDict d \<Rightarrow>
          (case dict_get d ''USDT'' (VDict []) of
             VDict u \<Rightarrow> py_float (dict_get u ''free'' (VInt 0))
           | _ \<Rightarrow> Inl (AttributeError (text_msg ''object has no attribute get'')))
      | _ \<Rightarrow> Inl (AttributeError (text_msg ''object has no attribute get'')))"

fun sum_balances :: "('x, 'w) ccxt \<Rightarrow> pyfloat \<Rightarrow> (string \<times> 'x wrapper) list \<Rightarrow> 'w \<Rightarrow> 'w \<times> pyfloat" where
  "sum_balances cc acc [] w = (w, acc)"
| "sum_balances cc acc ((_, wr) # rest) w =
     (case fetch_balance cc wr w of
        (w1, r) \<Rightarrow>
          (case rbind r free_usdt of
             Inl _ \<Rightarrow> sum_balances cc acc rest w1
           | Inr x \<Rightarrow> sum_balances cc (acc + x) rest w1))"

definition total_usdt_balance :: "('x, 'w) ccxt \<Rightarrow> aegis_config \<Rightarrow> 'x manager \<Rightarrow> 'w \<Rightarrow> 'w \<times> pyfloat" where
  "total_usdt_balance cc cfg mg w =
     (if cfg_mode cfg \<noteq> ''LIVE'' then (w, Fin 0) else sum_balances cc (Fin 0) (mg_exchanges mg) w)"

text \<open>
  The orders of one symbol; an exception leaves the loop over them. The order is cancelled when its
  client id starts with \<open>AEGIS-\<close>.
\<close>

fun cancel_orphans :: "('x, 'w) ccxt \<Rightarrow> 'x wrapper \<Rightarrow> string \<Rightarrow> pyval list \<Rightarrow> 'w \<Rightarrow> 'w" where
  "cancel_orphans cc wr symb [] w = w"
| "cancel_orphans cc wr symb (VDict d # orders) w =
     (case dict_get d ''clientOrderId'' (VStr []) of
        VStr cid \<Rightarrow>
          (if starts_with cid ''AEGIS-''
           then (case map_of d ''id'' of
                   None \<Rightarrow> w
                 | Some order_id \<Rightarrow>
                     (case cancel_order cc wr order_id symb w of
                        (w1, Inl _) \<Rightarrow> w1
                      | (w1, Inr _) \<Rightarrow> cancel_orphans cc wr symb orders w1))
           else cancel_orphans cc wr symb orders w)
      | _ \<Rightarrow> w)"
| "cancel_orphans cc wr symb (_ # orders) w = w"

definition reconcile_symbol :: "('x, 'w) ccxt \<Rightarrow> 'x wrapper \<Rightarrow> string \<Rightarrow> 'w \<Rightarrow> 'w" where
  "reconcile_symbol cc wr symb w =
     (case fetch_open_orders cc wr symb w of
        (w1, Inl _) \<Rightarrow> w1
      | (w1, Inr v) \<Rightarrow>
          (case iter_values v of Inl _ \<Rightarrow> w1 | Inr orders \<Rightarrow> cancel_orphans cc wr symb orders w1))"

definition reconcile_open_orders ::
  "('x, 'w) ccxt \<Rightarrow> aegis_config \<Rightarrow> 'x manager \<Rightarrow> string list \<Rightarrow> 'w \<Rightarrow> 'w" where
  "reconcile_open_orders cc cfg mg watchlist w =
     (if cfg_mode cfg \<noteq> ''LIVE'' then w
      else foldl (\<lambda>w1 (_, wr). foldl (\<lambda>w2 symb. reconcile_symbol cc wr symb w2) w1 watchlist)
             w (mg_exchanges mg))"

text \<open>\<open>symbol in markets\<close>; a client without markets raises, which counts as not available.\<close>

definition symbol_available ::
  "('x, 'w) ccxt \<Rightarrow> 'x manager \<Rightarrow> string \<Rightarrow> string \<Rightarrow> 'w \<Rightarrow> bool" where
  "symbol_available cc mg symb ex_id w =
     (case cc_attr cc (wr_client (dict_get (mg_exchanges mg) ex_id (mg_primary mg))) ''markets'' w of
        Some (VDict ms) \<Rightarrow> symb \<in> fst ` set ms
      | Some (VList xs) \<Rightarrow> VStr symb \<in> set xs
      | _ \<Rightarrow> False)"

section \<open>The exchanges the router sees\<close>

text \<open>
  The registry of the running program holds the wrappers under their names. The router's queries are
  taken to leave the world as it is.
\<close>

definition opt_val :: "pyfloat option \<Rightarrow> pyval" where
  "opt_val p = (case p of None \<Rightarrow> VNone | Some x \<Rightarrow> VFloat x)"

definition wrapper_exchange :: "('x, 'w) ccxt \<Rightarrow> 'x wrapper \<Rightarrow> 'w exchange" where
  "wrapper_exchange cc wr =
     \<lparr>x_id = wr_id wr, x_disabled = (\<not> wr_enabled wr),
      x_best_ask = Some (\<lambda>symb w. Inr (opt_val (snd (wr_best_ask cc wr symb w)))),
      x_best_bid = Some (\<lambda>symb w. Inr (opt_val (snd (wr_best_bid cc wr symb w)))),
      x_fetch_ticker = (\<lambda>symb w. snd (fetch_ticker cc wr symb w)),
      x_amount_precision =
        Some (\<lambda>symb x w. Inr (VFloat (snd (to_precision cc wr ''amount_to_precision'' symb x w)))),
      x_price_precision =
        Some (\<lambda>symb x w. Inr (VFloat (snd (to_precision cc wr ''price_to_precision'' symb x w)))),
      x_min_notional =
        Some (\<lambda>symb w. rbind (snd (wr_min_notional cc wr symb w)) (\<lambda>m. Inr (opt_val m))),
      x_create_order = wrapper_create_order cc wr\<rparr>"

definition runtime_registry :: "('x, 'w) ccxt \<Rightarrow> 'x manager \<Rightarrow> 'w registry" where
  "runtime_registry cc mg =
     foldl (\<lambda>r (name, wr). reg_register name (wrapper_exchange cc wr) r) [] (mg_exchanges mg)"

section \<open>The bucket is the limiter\<close>

definition limiter_of :: "token_bucket \<Rightarrow> limiter" where
  "limiter_of b = \<lparr>rl_rate = tb_rate b, rl_capacity = tb_capacity b, rl_tokens = tb_tokens b, rl_last = tb_last b\<rparr>"

lemma tb_turn_limiter:
  "tb_turn (Fin 1) now b = (b1, r) \<Longrightarrow> try_acquire now (limiter_of b) = (limiter_of b1, r)"
  by (auto simp: tb_turn_def tb_refill_def try_acquire_def refill_def limiter_of_def Let_def split: if_splits)

text \<open>
  C20. The token bucket of the exchange wrappers is the rate limiter of the core: a single token is
  consumed, blocking, at exactly the clock readings at which the limiter is acquired, from the same
  level to the same level, for any working limiter and any readings.
\<close>

theorem token_bucket_is_limiter:
  assumes "limiter_ok (limiter_of b)" "sorted (val_of (tb_last b) # ts)"
    and "tb_consume (Fin 1) True (map Fin ts) b = (b', r)"
    and "acquire (map Fin ts) (limiter_of b) = (l', r')"
  shows "l' = limiter_of b' \<and> is_ok r' \<and> (r = Some True \<longleftrightarrow> r' \<noteq> Inr None) \<and> (r = None \<longleftrightarrow> r' = Inr None)"
  using assms
proof (induction ts arbitrary: b)
  case (Cons t ts)
  obtain b1 ok1 where turn: "tb_turn (Fin 1) (Fin t) b = (b1, ok1)" by fastforce
  have try1: "try_acquire (Fin t) (limiter_of b) = (limiter_of b1, ok1)" by (rule tb_turn_limiter [OF turn])
  have last: "rl_last (limiter_of b) \<le> Fin t"
    using Cons.prems(1,2) by (cases "tb_last b") (auto simp: limiter_ok_def limiter_of_def)
  have "limiter_ok (limiter_of b1)" "rl_last (limiter_of b1) = Fin t"
    using try_acquire_step [OF Cons.prems(1) last] by (auto simp: try1)
  then have next1: "limiter_ok (limiter_of b1)" "tb_last b1 = Fin t" by (simp_all add: limiter_of_def)
  have acq: "acquire (map Fin (t # ts)) (limiter_of b) =
      (if ok1 then (limiter_of b1, Inr (Some (Fin t))) else acquire (map Fin ts) (limiter_of b1))"
    using acquire_turn [OF Cons.prems(1), of t "map Fin ts"] by (simp add: try1)
  show ?case
  proof (cases ok1)
    case True
    then show ?thesis using Cons.prems(3,4) acq turn by auto
  next
    case False
    then show ?thesis using Cons.IH [OF next1(1)] Cons.prems acq turn next1(2) by auto
  qed
qed auto

section \<open>Credentials\<close>

definition creds_of :: "aegis_config \<Rightarrow> string \<Rightarrow> (string \<times> pyval) list" where
  "creds_of cfg name = dict_get (exchange_definitions cfg) name []"

definition wrapper_ok :: "aegis_config \<Rightarrow> string \<Rightarrow> 'x wrapper \<Rightarrow> bool" where
  "wrapper_ok cfg name wr \<longleftrightarrow> wr_id wr = name \<and> name \<in> {''binance'', ''bybit'', ''okx''} \<and>
     (wr_enabled wr \<longrightarrow> has_credentials name (creds_of cfg name))"

lemma connect_wrapper:
  "connect cc ex_id creds sandbox proxy enabled w = (w', Inr wr) \<Longrightarrow> wr_id wr = ex_id \<and> wr_enabled wr = enabled"
  by (auto simp: connect_def split: prod.splits sum.splits)

lemma build_wrapper_ok:
  assumes "build_wrapper cc ex_id creds sandbox proxy w = (w', Inr wr)"
  shows "wr_id wr = ex_id \<and> (wr_enabled wr \<longrightarrow> has_credentials ex_id creds)"
  using assms by (auto simp: build_wrapper_def split: prod.splits sum.splits if_splits dest!: connect_wrapper)

lemma connect_all_ok:
  assumes "connect_all cc sandbox proxy defs acc w = (w', exs)"
    and "\<forall>(name, wr) \<in> set acc. wrapper_ok cfg name wr"
    and "set defs \<subseteq> set (exchange_definitions cfg)"
  shows "\<forall>(name, wr) \<in> set exs. wrapper_ok cfg name wr"
  using assms
proof (induction defs arbitrary: acc w)
  case (Cons d defs)
  obtain ex_id creds where d: "d = (ex_id, creds)" by fastforce
  obtain w1 r where b: "build_wrapper cc ex_id creds sandbox proxy w = (w1, r)" by fastforce
  have mem: "ex_id \<in> {''binance'', ''bybit'', ''okx''}" "creds_of cfg ex_id = creds"
    using Cons.prems(3) by (auto simp: d exchange_definitions_def creds_of_def dict_get_def)
  show ?case
  proof (cases r)
    case (Inl e)
    then show ?thesis using Cons.IH [of acc w1] Cons.prems by (simp add: d b)
  next
    case (Inr wr)
    have "wrapper_ok cfg ex_id wr" using build_wrapper_ok [OF b [unfolded Inr]] mem by (simp add: wrapper_ok_def)
    then have "\<forall>(name, wr) \<in> set (dict_set ex_id wr acc). wrapper_ok cfg name wr"
      using Cons.prems(2) set_dict_set_subset [of ex_id wr acc] by auto
    then show ?thesis using Cons.IH Cons.prems(1,3) by (simp add: d b Inr)
  qed
qed simp

lemma new_manager_ok:
  assumes "new_manager cc env cfg w = (w', Inr mg)"
  shows "\<forall>(name, wr) \<in> set (mg_exchanges mg). wrapper_ok cfg name wr"
proof -
  define defs where "defs = (if enabled_exchanges env = [] then exchange_definitions cfg
      else filter (\<lambda>d. fst d \<in> set (enabled_exchanges env)) (exchange_definitions cfg))"
  have sub: "set defs \<subseteq> set (exchange_definitions cfg)" by (auto simp: defs_def)
  obtain w1 exs where run: "connect_all cc (cfg_mode cfg = ''PAPER'') (cfg_proxy cfg) defs [] w = (w1, exs)" by fastforce
  have "mg_exchanges mg = exs"
    using assms by (auto simp: new_manager_def defs_def [symmetric] run Let_def split: list.splits)
  with connect_all_ok [OF run _ sub] show ?thesis by simp
qed

lemma runtime_registry_mem:
  assumes "(name, x) \<in> set (runtime_registry cc mg)"
  shows "\<exists>wr. (name, wr) \<in> set (mg_exchanges mg) \<and> x = wrapper_exchange cc wr"
proof -
  have "\<forall>(n, y) \<in> set (foldl (\<lambda>r (name, wr). reg_register name (wrapper_exchange cc wr) r) acc exs).
      (n, y) \<in> set acc \<or> (\<exists>wr. (n, wr) \<in> set exs \<and> y = wrapper_exchange cc wr)" for acc exs
  proof (induction exs arbitrary: acc)
    case (Cons e exs)
    obtain n wr where e: "e = (n, wr)" by fastforce
    show ?case
      using Cons.IH [of "dict_set n (wrapper_exchange cc wr) acc"] set_dict_set_subset [of n "wrapper_exchange cc wr" acc]
      by (fastforce simp: e reg_register_def)
  qed auto
  from this [of "[]" "mg_exchanges mg"] assms show ?thesis by (auto simp: runtime_registry_def)
qed

section \<open>The sandbox\<close>

lemma make_exchange_unswitched:
  assumes "\<And>x w. \<exists>e. cc_call cc x ''set_sandbox_mode'' [VBool True] w = (w, Inl e)"
  shows "make_exchange cc ex_id creds sandbox proxy w = make_exchange cc ex_id creds False proxy w"
proof -
  have "fst (cc_call cc x ''set_sandbox_mode'' [VBool True] w1) = w1" for x w1
    using assms [of x w1] by auto
  then show ?thesis by (auto simp: make_exchange_def split: prod.splits sum.splits)
qed

text \<open>
  C28. Paper mode trusts the sandbox switch: where the exchange library refuses it, the failure is ignored,
  and a manager built in PAPER mode is, client by client and order by order, the one of LIVE mode.
\<close>

theorem refused_sandbox_is_live:
  assumes "\<And>x w. \<exists>e. cc_call cc x ''set_sandbox_mode'' [VBool True] w = (w, Inl e)"
  shows "new_manager cc env (cfg\<lparr>cfg_mode := ''PAPER''\<rparr>) w = new_manager cc env (cfg\<lparr>cfg_mode := ''LIVE''\<rparr>) w"
proof -
  have conn: "connect cc ex_id creds sandbox proxy enabled = connect cc ex_id creds False proxy enabled"
    for ex_id creds sandbox proxy enabled
    by (rule ext) (simp only: connect_def make_exchange_unswitched [OF assms, where sandbox = sandbox])
  have build: "build_wrapper cc ex_id creds sandbox proxy w = build_wrapper cc ex_id creds False proxy w"
    for ex_id creds sandbox proxy w
    by (simp only: build_wrapper_def conn [where sandbox = sandbox])
  have run: "connect_all cc sandbox proxy defs acc w = connect_all cc False proxy defs acc w"
    for sandbox proxy defs acc w
    by (induction defs arbitrary: acc w)
      (auto simp: build [where sandbox = sandbox] split: prod.splits sum.splits)
  have "exchange_definitions (cfg\<lparr>cfg_mode := m\<rparr>) = exchange_definitions cfg" for m
    by (simp add: exchange_definitions_def)
  then show ?thesis by (simp add: new_manager_def Let_def run [where sandbox = True])
qed

section \<open>Arbitrage\<close>

lemma min_entry_least:
  assumes "xs \<noteq> []" "list_all (is_num \<circ> snd) xs"
  shows "min_entry xs \<in> set xs \<and> (\<forall>y \<in> set xs. snd (min_entry xs) \<le> snd y)"
proof -
  obtain x ys where xs: "xs = x # ys" using assms(1) by (cases xs) auto
  have num: "is_num (snd x)" "\<forall>y \<in> set ys. is_num (snd y)" using assms(2) by (auto simp: xs list_all_iff)
  have keep: "(\<lambda>b x. if snd x < snd b then x else b) = cheapest.keep" by (simp add: cheapest.keep_def fun_eq_iff)
  have best: "min_entry xs \<in> set xs" "\<forall>y \<in> set xs. \<not> snd y < snd (min_entry xs)"
    using cheapest.scan_best [OF num] by (simp_all add: min_entry_def xs keep)
  then have "is_num (snd (min_entry xs))" using assms(2) by (auto simp: list_all_iff)
  with best assms(2) show ?thesis by (auto simp: list_all_iff pyfloat_not_less)
qed

lemma max_entry_greatest:
  assumes "xs \<noteq> []" "list_all (is_num \<circ> snd) xs"
  shows "max_entry xs \<in> set xs \<and> (\<forall>y \<in> set xs. snd y \<le> snd (max_entry xs))"
proof -
  obtain x ys where xs: "xs = x # ys" using assms(1) by (cases xs) auto
  have num: "is_num (snd x)" "\<forall>y \<in> set ys. is_num (snd y)" using assms(2) by (auto simp: xs list_all_iff)
  have keep: "(\<lambda>b x. if snd b < snd x then x else b) = dearest.keep" by (simp add: dearest.keep_def fun_eq_iff)
  have best: "max_entry xs \<in> set xs" "\<forall>y \<in> set xs. \<not> snd (max_entry xs) < snd y"
    using dearest.scan_best [OF num] by (simp_all add: max_entry_def xs keep)
  then have "is_num (snd (max_entry xs))" using assms(2) by (auto simp: list_all_iff)
  with best assms(2) show ?thesis by (auto simp: list_all_iff pyfloat_not_less)
qed

text \<open>
  A detected arbitrage is one: its two venues differ, it buys at the lowest of all asks and sells at
  the highest of all bids, and for positive finite quotes the sale brings at least 0.15 percent more
  than the purchase costs. Conversely nothing is reported only if there are fewer than two quotes on a
  side, the best two are at one venue, or they are closer than that.
\<close>

theorem arbitrage_is_profitable:
  assumes "list_all (\<lambda>q. is_fin (snd q) \<and> Fin 0 < snd q) asks" "list_all (is_fin \<circ> snd) bids"
  shows "case arbitrage_of symb asks bids of
      Some a \<Rightarrow> ar_buy a \<noteq> ar_sell a \<and> (ar_buy a, ar_buy_price a) \<in> set asks \<and>
        (ar_sell a, ar_sell_price a) \<in> set bids \<and>
        (\<forall>q \<in> set asks. ar_buy_price a \<le> snd q) \<and> (\<forall>q \<in> set bids. snd q \<le> ar_sell_price a) \<and>
        val_of (ar_buy_price a) * (1 + 15 / 10000) < val_of (ar_sell_price a)
    | None \<Rightarrow> length asks < 2 \<or> length bids < 2 \<or> fst (min_entry asks) = fst (max_entry bids) \<or>
        val_of (snd (max_entry bids)) \<le> val_of (snd (min_entry asks)) * (1 + 15 / 10000)"
proof (cases "length asks < 2 \<or> length bids < 2")
  case False
  obtain buy ask where b: "min_entry asks = (buy, ask)" by fastforce
  obtain sell bid where s: "max_entry bids = (sell, bid)" by fastforce
  have some: "asks \<noteq> []" "bids \<noteq> []" using False by auto
  have num: "list_all (is_num \<circ> snd) asks" "list_all (is_num \<circ> snd) bids"
    using assms by (auto simp: list_all_iff is_fin_num)
  have best: "(buy, ask) \<in> set asks" "\<forall>q \<in> set asks. ask \<le> snd q" "(sell, bid) \<in> set bids" "\<forall>q \<in> set bids. snd q \<le> bid"
    using min_entry_least [OF some(1) num(1)] max_entry_greatest [OF some(2) num(2)] by (simp_all add: b s)
  then obtain p q where pq: "ask = Fin p" "bid = Fin q" "0 < p"
    using assms by (fastforce simp: list_all_iff is_fin_iff)
  have spread: "Fin (15 / 10000) < (bid - ask) / ask \<longleftrightarrow> p * (1 + 15 / 10000) < q"
    using pq(3) less_imp_neq [OF pq(3)] by (auto simp: pq field_simps)
  have eq: "arbitrage_of symb asks bids =
      (if buy = sell \<or> \<not> p * (1 + 15 / 10000) < q then None
       else Some \<lparr>ar_buy = buy, ar_sell = sell, ar_buy_price = ask, ar_sell_price = bid,
                  ar_spread = (bid - ask) / ask, ar_symbol = symb\<rparr>)"
    unfolding arbitrage_of_def b s Let_def prod.case spread using False by simp
  show ?thesis
    unfolding eq b s using best by (simp add: pq)
qed (auto simp: arbitrage_of_def)

section \<open>Reconciliation at start\<close>

lemma retried_Inr: "f w = (w', Inr x) \<Longrightarrow> 0 < n \<Longrightarrow> retried n f w = (w', Inr x)"
  by (cases n) (simp_all add: retried_def utils_retry_def del: of_nat_Suc)

definition orphan_ids :: "(string \<times> pyval) list list \<Rightarrow> pyval list" where
  "orphan_ids orders =
     map (\<lambda>d. get_val d ''id'')
       (filter (\<lambda>d. \<exists>cid. get_val d ''clientOrderId'' = VStr cid \<and> starts_with cid ''AEGIS-'') orders)"

lemma cancel_orphans_run:
  fixes cc :: "('x, ('x \<times> string \<times> pyval) list) ccxt"
  assumes cancel: "\<And>x s i w. cc_call cc x ''cancel_order'' [i, VStr s] w = (w @ [(x, s, i)], Inr VNone)"
    and "\<forall>d \<in> set ds. (\<exists>cid. get_val d ''clientOrderId'' = VStr cid) \<and> map_of d ''id'' \<noteq> None"
  shows "cancel_orphans cc wr symb (map VDict ds) w =
    w @ map (\<lambda>i. (wr_client wr, symb, i)) (orphan_ids ds)"
  using assms(2)
proof (induction ds arbitrary: w)
  case (Cons d ds)
  obtain cid i where d: "get_val d ''clientOrderId'' = VStr cid" "map_of d ''id'' = Some i"
    using Cons.prems by auto
  have "dict_get d ''clientOrderId'' (VStr []) = VStr cid"
    using d(1) by (auto simp: get_val_def dict_get_def split: option.splits)
  moreover have "cancel_order cc wr i symb w' = (w' @ [(wr_client wr, symb, i)], Inr VNone)" for w'
    unfolding cancel_order_def by (rule retried_Inr) (simp_all add: wrapper_call_def cancel)
  moreover have "get_val d ''id'' = i" using d(2) by (simp add: get_val_def dict_get_def)
  ultimately show ?case using Cons d by (simp add: orphan_ids_def)
qed (simp add: orphan_ids_def)

text \<open>
  At start, in LIVE mode only, exactly the open orders whose client id starts with AEGIS- are cancelled,
  each once, at the exchange and for the symbol it was listed under, in the order of the exchanges, the
  watchlist and the listings; nothing else is cancelled, and in any other mode nothing is sent at all.
  The exchange answers with a fixed list of orders, each with an id, and carries out cancellations.
\<close>

theorem reconcile_cancels_orphans:
  fixes cc :: "('x, ('x \<times> string \<times> pyval) list) ccxt"
  assumes cancel: "\<And>x s i w. cc_call cc x ''cancel_order'' [i, VStr s] w = (w @ [(x, s, i)], Inr VNone)"
    and book: "\<And>x s w. cc_call cc x ''fetch_open_orders'' [VStr s] w = (w, Inr (VList (map VDict (listed x s))))"
    and ids: "\<And>x s d. d \<in> set (listed x s) \<Longrightarrow>
      (\<exists>cid. get_val d ''clientOrderId'' = VStr cid) \<and> map_of d ''id'' \<noteq> None"
  shows "reconcile_open_orders cc cfg mg watchlist w =
    w @ (if cfg_mode cfg \<noteq> ''LIVE'' then []
         else concat (map (\<lambda>(_, wr). concat (map (\<lambda>s. map (\<lambda>i. (wr_client wr, s, i))
                (orphan_ids (listed (wr_client wr) s))) watchlist)) (mg_exchanges mg)))"
proof -
  have symb: "reconcile_symbol cc wr s w = w @ map (\<lambda>i. (wr_client wr, s, i)) (orphan_ids (listed (wr_client wr) s))"
    for wr s w
  proof -
    have "fetch_open_orders cc wr s w = (w, Inr (VList (map VDict (listed (wr_client wr) s))))"
      unfolding fetch_open_orders_def by (rule retried_Inr) (simp_all add: wrapper_call_def book)
    with cancel_orphans_run [OF cancel] ids show ?thesis by (simp add: reconcile_symbol_def)
  qed
  have watch: "foldl (\<lambda>w2 s. reconcile_symbol cc wr s w2) w ss =
      w @ concat (map (\<lambda>s. map (\<lambda>i. (wr_client wr, s, i)) (orphan_ids (listed (wr_client wr) s))) ss)" for wr w ss
    by (induction ss arbitrary: w) (simp_all add: symb)
  have run: "foldl (\<lambda>w1 (_, wr). foldl (\<lambda>w2 s. reconcile_symbol cc wr s w2) w1 watchlist) w exs =
      w @ concat (map (\<lambda>(_, wr). concat (map (\<lambda>s. map (\<lambda>i. (wr_client wr, s, i))
        (orphan_ids (listed (wr_client wr) s))) watchlist)) exs)" for w exs
    by (induction exs arbitrary: w) (auto simp: watch)
  show ?thesis unfolding reconcile_open_orders_def run by simp
qed

section \<open>Witnesses\<close>

definition sample_bucket :: token_bucket where
  "sample_bucket = \<lparr>tb_rate = Fin 1, tb_capacity = Fin 2, tb_tokens = Fin 0, tb_last = Fin 0\<rparr>"

theorem token_bucket_is_limiter_witness:
  "fst (tb_consume (Fin 1) True (map Fin [1 / 2, 3 / 2]) sample_bucket) =
     \<lparr>tb_rate = Fin 1, tb_capacity = Fin 2, tb_tokens = Fin (1 / 2), tb_last = Fin (3 / 2)\<rparr> \<and>
   snd (acquire (map Fin [1 / 2, 3 / 2]) (limiter_of sample_bucket)) \<noteq> Inr None"
proof -
  have ok: "limiter_ok (limiter_of sample_bucket)" by (simp add: limiter_ok_def limiter_of_def sample_bucket_def)
  have run: "tb_consume (Fin 1) True (map Fin [1 / 2, 3 / 2]) sample_bucket =
      (\<lparr>tb_rate = Fin 1, tb_capacity = Fin 2, tb_tokens = Fin (1 / 2), tb_last = Fin (3 / 2)\<rparr>, Some True)"
    by (simp add: sample_bucket_def tb_turn_def tb_refill_def Let_def)
  obtain l r where acq: "acquire (map Fin [1 / 2, 3 / 2]) (limiter_of sample_bucket) = (l, r)" by fastforce
  from token_bucket_is_limiter [OF ok _ run acq] show ?thesis
    unfolding run acq by (simp add: sample_bucket_def)
qed

text \<open>A library whose clients cannot be switched to a sandbox and do everything else.\<close>

definition no_sandbox :: "(string, string list) ccxt" where
  "no_sandbox =
     \<lparr>cc_new = (\<lambda>name _ w. (w, Inr name)),
      cc_call = (\<lambda>_ method _ w.
        if method = ''set_sandbox_mode'' then (w, Inl (OtherError (text_msg ''no sandbox'')))
        else (w @ [method], Inr VNone)),
      cc_attr = (\<lambda>_ _ _. None)\<rparr>"

theorem refused_sandbox_is_live_witness:
  "new_manager no_sandbox (\<lambda>_. None) (default_config\<lparr>cfg_mode := ''PAPER''\<rparr>) [] =
     new_manager no_sandbox (\<lambda>_. None) (default_config\<lparr>cfg_mode := ''LIVE''\<rparr>) []"
  by (rule refused_sandbox_is_live) (simp add: no_sandbox_def)

theorem arbitrage_is_profitable_witness:
  "\<exists>a. arbitrage_of ''BTC'' [(''A'', Fin 100), (''B'', Fin 102)] [(''A'', Fin 99), (''B'', Fin 101)] = Some a \<and>
     ar_buy a = ''A'' \<and> val_of (ar_buy_price a) * (1 + 15 / 10000) < val_of (ar_sell_price a)"
proof -
  let ?asks = "[(''A'', Fin 100), (''B'', Fin 102)]" and ?bids = "[(''A'', Fin 99), (''B'', Fin 101)]"
  obtain a where "arbitrage_of ''BTC'' ?asks ?bids = Some a" "ar_buy a = ''A''"
    by (simp add: arbitrage_of_def min_entry_def max_entry_def)
  with arbitrage_is_profitable [of ?asks ?bids "''BTC''"] show ?thesis by auto
qed

text \<open>A library that lists one order of the program and one of somebody else for every symbol.\<close>

definition listing :: "(string \<times> pyval) list list" where
  "listing = [[(''id'', VStr ''1''), (''clientOrderId'', VStr ''AEGIS-7'')],
              [(''id'', VStr ''2''), (''clientOrderId'', VStr ''web'')]]"

definition listing_library :: "(string, (string \<times> string \<times> pyval) list) ccxt" where
  "listing_library =
     \<lparr>cc_new = (\<lambda>name _ w. (w, Inr name)),
      cc_call = (\<lambda>x method args w.
        if method = ''cancel_order'' then (w @ [(x, py_str (args ! 1), args ! 0)], Inr VNone)
        else (w, Inr (VList (map VDict listing)))),
      cc_attr = (\<lambda>_ _ _. None)\<rparr>"

theorem reconcile_cancels_orphans_witness:
  "reconcile_open_orders listing_library (default_config\<lparr>cfg_mode := ''LIVE''\<rparr>)
     \<lparr>mg_exchanges = [(''okx'', \<lparr>wr_id = ''okx'', wr_client = ''c'', wr_enabled = True\<rparr>)],
      mg_primary = \<lparr>wr_id = ''okx'', wr_client = ''c'', wr_enabled = True\<rparr>\<rparr> [''BTC'', ''ETH''] [] =
   [(''c'', ''BTC'', VStr ''1''), (''c'', ''ETH'', VStr ''1'')]"
  by (subst reconcile_cancels_orphans [where listed = "\<lambda>_ _. listing"])
    (auto simp: listing_library_def listing_def orphan_ids_def starts_with_def dict_simps)

end
