(* ===== verification/Symbol_Discovery.thy ===== *)
theory Symbol_Discovery
  imports Exchange_Manager
begin

text \<open>
  The ranking of tradeable symbols (\<open>portfolio/symbol_discovery.py\<close>). The client of the primary exchange
  is a parameter, as in the exchange manager: its attributes and the effect and result of its methods; a
  method counts as present when it is an attribute. The environment enters as a function.
\<close>

section \<open>Candidates\<close>

record candidate =
  cd_symbol :: string
  cd_score :: pyfloat
  cd_volume :: pyfloat
  cd_change :: pyfloat
  cd_spread :: pyfloat

definition default_excluded :: "string list" where
  "default_excluded =
     [''USDC/USDT'', ''FDUSD/USDT'', ''TUSD/USDT'', ''BUSD/USDT'', ''DAI/USDT'', ''USDP/USDT'', ''EUR/USDT'',
      ''TRY/USDT'', ''BRL/USDT'']"

definition leveraged_markers :: "string list" where
  "leveraged_markers =
     [''UP/USDT'', ''DOWN/USDT'', ''BULL/USDT'', ''BEAR/USDT'', ''3L/USDT'', ''3S/USDT'', ''5L/USDT'', ''5S/USDT'']"

definition number_of :: "pyval \<Rightarrow> pyfloat" where
  "number_of v =
     (case v of
        VStr s \<Rightarrow> (case py_float_of_str s of None \<Rightarrow> Fin 0 | Some x \<Rightarrow> x)
      | _ \<Rightarrow> (case as_number v of None \<Rightarrow> Fin 0 | Some x \<Rightarrow> x))"

fun py_log10 :: "pyfloat \<Rightarrow> pyfloat" where
  "py_log10 (Fin r) = Fin (log 10 r)"
| "py_log10 x = x"

definition score_candidate :: "pyfloat \<Rightarrow> pyfloat \<Rightarrow> pyfloat \<Rightarrow> pyfloat" where
  "score_candidate volume change spread =
     py_log10 (py_max volume (Fin 1)) + py_min (py_max change (Fin (- 5))) (Fin 12) / Fin 3
       - py_max spread (Fin 0) / Fin 4 - py_max (change - Fin 12) (Fin 0) / Fin 2"

text \<open>The last price, or the middle of the quotes; without either there is no candidate.\<close>

definition ticker_last :: "(string \<times> pyval) list \<Rightarrow> pyfloat option" where
  "ticker_last t =
     (let last = number_of (py_or (py_or (get_val t ''last'') (get_val t ''close'')) (get_val t ''price''));
          bid = number_of (get_val t ''bid''); ask = number_of (get_val t ''ask'')
      in if last \<le> Fin 0
         then (if Fin 0 < bid \<and> Fin 0 < ask then Some ((bid + ask) / Fin 2) else None)
         else Some last)"

definition ticker_volume :: "(string \<times> pyval) list \<Rightarrow> pyfloat \<Rightarrow> pyfloat" where
  "ticker_volume t price =
     (let volume = number_of (py_or (get_val t ''quoteVolume'') (get_val t ''quote_volume'')) in
      if volume \<le> Fin 0
      then number_of (py_or (get_val t ''baseVolume'') (get_val t ''volume'')) * price else volume)"

definition ticker_change :: "(string \<times> pyval) list \<Rightarrow> pyfloat \<Rightarrow> pyfloat" where
  "ticker_change t price =
     (let change = number_of (py_or (get_val t ''percentage'') (get_val t ''change_pct''));
          open_price = number_of (get_val t ''open'')
      in if py_eq change (Fin 0) \<and> Fin 0 < open_price
         then (price - open_price) / open_price * Fin 100 else change)"

definition ticker_spread :: "(string \<times> pyval) list \<Rightarrow> pyfloat" where
  "ticker_spread t =
     (let bid = number_of (get_val t ''bid''); ask = number_of (get_val t ''ask'') in
      if Fin 0 < bid \<and> Fin 0 < ask \<and> bid \<le> ask
      then (ask - bid) / ((bid + ask) / Fin 2) * Fin 10000 else Fin 0)"

definition candidate_from_ticker :: "string \<Rightarrow> (string \<times> pyval) list \<Rightarrow> candidate option" where
  "candidate_from_ticker symb t =
     (case ticker_last t of
        None \<Rightarrow> None
      | Some price \<Rightarrow>
          (let volume = ticker_volume t price; change = ticker_change t price; spread = ticker_spread t in
           Some \<lparr>cd_symbol = symb, cd_score = score_candidate volume change spread,
                 cd_volume = volume, cd_change = change, cd_spread = spread\<rparr>))"

section \<open>Markets and tickers\<close>

type_synonym markets = "(string, pyval) pydict"

definition safe_markets :: "('x, 'w) ccxt \<Rightarrow> 'x \<Rightarrow> 'w \<Rightarrow> 'w \<times> markets" where
  "safe_markets cc x w =
     (case cc_attr cc x ''markets'' w of
        Some (VDict (m # ms)) \<Rightarrow> (w, m # ms)
      | _ \<Rightarrow>
          (case cc_call cc x ''load_markets'' [] w of
             (w1, Inr (VDict ms)) \<Rightarrow> (w1, ms)
           | (w1, _) \<Rightarrow> (w1, [])))"

text \<open>One ticker after the other, for at most sixty symbols.\<close>

fun fetch_each :: "('x, 'w) ccxt \<Rightarrow> 'x \<Rightarrow> string list \<Rightarrow> markets \<Rightarrow> 'w \<Rightarrow> 'w \<times> markets" where
  "fetch_each cc x [] acc w = (w, acc)"
| "fetch_each cc x (symb # symbs) acc w =
     (case cc_call cc x ''fetch_ticker'' [VStr symb] w of
        (w1, Inr (VDict t)) \<Rightarrow> fetch_each cc x symbs (dict_set symb (VDict t) acc) w1
      | (w1, _) \<Rightarrow> fetch_each cc x symbs acc w1)"

definition fetch_singly :: "('x, 'w) ccxt \<Rightarrow> 'x \<Rightarrow> string list \<Rightarrow> 'w \<Rightarrow> 'w \<times> markets" where
  "fetch_singly cc x symbols w =
     (if cc_attr cc x ''fetch_ticker'' w = None then (w, []) else fetch_each cc x (take 60 symbols) [] w)"

definition safe_fetch_tickers :: "('x, 'w) ccxt \<Rightarrow> 'x \<Rightarrow> string list \<Rightarrow> 'w \<Rightarrow> 'w \<times> markets" where
  "safe_fetch_tickers cc x symbols w =
     (if cc_attr cc x ''fetch_tickers'' w = None then fetch_singly cc x symbols w
      else case cc_call cc x ''fetch_tickers'' [VList (map VStr symbols)] w of
             (w1, Inr (VDict ts)) \<Rightarrow> (w1, ts)
           | (w1, Inl (TypeError _)) \<Rightarrow>
               (case cc_call cc x ''fetch_tickers'' [] w1 of
                  (w2, Inr (VDict ts)) \<Rightarrow> (w2, map (\<lambda>s. (s, dict_get ts s (VDict []))) symbols)
                | (w2, _) \<Rightarrow> fetch_singly cc x symbols w2)
           | (w1, _) \<Rightarrow> fetch_singly cc x symbols w1)"

definition is_allowed_symbol :: "string \<Rightarrow> pyval \<Rightarrow> string \<Rightarrow> string list \<Rightarrow> bool" where
  "is_allowed_symbol symb market quote excluded \<longleftrightarrow>
     str_upper symb \<notin> set excluded \<and>
     ends_with (str_upper symb) (CHR ''/'' # str_upper quote) \<and>
     (\<forall>marker \<in> set leveraged_markers. \<not> str_contains marker (str_upper symb)) \<and>
     (case market of
        VDict m \<Rightarrow> get_val m ''active'' \<noteq> VBool False \<and> get_val m ''spot'' \<noteq> VBool False
      | _ \<Rightarrow> True)"

section \<open>Selection\<close>

record discovery_limits =
  dl_quote :: string
  dl_max_symbols :: int
  dl_min_volume :: pyfloat
  dl_min_change :: pyfloat
  dl_max_change :: pyfloat
  dl_max_spread :: pyfloat
  dl_excluded :: "string list"

definition excluded_set :: "discovery_limits \<Rightarrow> string list" where
  "excluded_set dl =
     map (\<lambda>s. str_upper (str_strip s))
       (filter (\<lambda>s. str_strip s \<noteq> []) (if dl_excluded dl = [] then default_excluded else dl_excluded dl))"

definition within_limits :: "discovery_limits \<Rightarrow> candidate \<Rightarrow> bool" where
  "within_limits dl c \<longleftrightarrow>
     \<not> cd_volume c < dl_min_volume dl \<and> \<not> cd_change c < dl_min_change dl \<and>
     \<not> dl_max_change dl < cd_change c \<and> \<not> dl_max_spread dl < cd_spread c"

definition candidates_of :: "discovery_limits \<Rightarrow> markets \<Rightarrow> string list \<Rightarrow> candidate list" where
  "candidates_of dl tickers symbols =
     List.map_filter (\<lambda>symb.
       case map_of tickers symb of
         Some (VDict t) \<Rightarrow>
           (case candidate_from_ticker symb t of
              Some c \<Rightarrow> (if within_limits dl c then Some c else None)
            | None \<Rightarrow> None)
       | _ \<Rightarrow> None) symbols"

definition score_before :: "candidate \<Rightarrow> candidate \<Rightarrow> bool" where
  "score_before a b \<longleftrightarrow> cd_score b < cd_score a"

definition requested_symbols :: "env \<Rightarrow> string list" where
  "requested_symbols env =
     map (\<lambda>s. str_upper (str_strip s)) (filter (\<lambda>s. str_strip s \<noteq> [])
       (split_comma (case env ''AEGIS_SYMBOL_DISCOVERY_ALWAYS_INCLUDE'' of None \<Rightarrow> [] | Some x \<Rightarrow> x)))"

text \<open>The requested symbols that are markets and not selected yet, under the market's own spelling.\<close>

fun add_requested :: "markets \<Rightarrow> string list \<Rightarrow> string list \<Rightarrow> string list" where
  "add_requested ms [] selected = selected"
| "add_requested ms (r # rs) selected =
     (let actual = dict_get (foldl (\<lambda>d m. dict_set (str_upper (fst m)) (fst m) d) [] ms) r r in
      if r \<notin> set (map str_upper selected) \<and> actual \<in> fst ` set ms
      then add_requested ms rs (selected @ [actual]) else add_requested ms rs selected)"

definition discover_symbols ::
  "('x, 'w) ccxt \<Rightarrow> env \<Rightarrow> 'x option \<Rightarrow> discovery_limits \<Rightarrow> string list \<Rightarrow> 'w \<Rightarrow> 'w \<times> string list" where
  "discover_symbols cc env primary dl fallback w =
     (if dl_max_symbols dl \<le> 0 then (w, fallback)
      else case primary of
        None \<Rightarrow> (w, fallback)
      | Some x \<Rightarrow>
          (case safe_markets cc x w of (w1, ms) \<Rightarrow>
             (let symbols = map fst (filter (\<lambda>m. is_allowed_symbol (fst m) (snd m) (dl_quote dl) (excluded_set dl)) ms)
              in if symbols = [] then (w1, fallback)
                 else case safe_fetch_tickers cc x symbols w1 of (w2, tickers) \<Rightarrow>
                   (let ranked = sort_by score_before (candidates_of dl tickers symbols);
                        selected = map cd_symbol (take (nat (dl_max_symbols dl)) ranked);
                        chosen = add_requested ms (requested_symbols env) selected
                    in (w2, if chosen = [] then fallback else chosen)))))"

section \<open>What is selected\<close>

lemma candidate_symbol: "candidate_from_ticker symb t = Some c \<Longrightarrow> cd_symbol c = symb"
  by (auto simp: candidate_from_ticker_def Let_def split: option.splits)

lemma candidates_mem:
  assumes "c \<in> set (candidates_of dl tickers symbols)"
  shows "within_limits dl c \<and> cd_symbol c \<in> set symbols \<and>
    (\<exists>t. map_of tickers (cd_symbol c) = Some (VDict t) \<and> candidate_from_ticker (cd_symbol c) t = Some c)"
proof -
  obtain symb where symb: "symb \<in> set symbols"
      "(case map_of tickers symb of
          Some (VDict t) \<Rightarrow> (case candidate_from_ticker symb t of
              Some c \<Rightarrow> (if within_limits dl c then Some c else None) | None \<Rightarrow> None)
        | _ \<Rightarrow> None) = Some c"
    using assms unfolding candidates_of_def List.map_filter_def by auto
  then obtain t where t: "map_of tickers symb = Some (VDict t)" "candidate_from_ticker symb t = Some c" "within_limits dl c"
    by (cases "map_of tickers symb") (auto split: pyval.splits option.splits if_splits)
  with symb(1) candidate_symbol [OF t(2)] show ?thesis by simp
qed

lemma score_before_weak: "\<forall>c \<in> A. is_num (cd_score c) \<Longrightarrow> weak_order_on A score_before"
  using weak_order_on_key(2) [of A cd_score] by (simp add: score_before_def [abs_def])

lemma available_upper:
  assumes "\<forall>(k, a) \<in> set acc. str_upper a = k"
  shows "\<forall>(k, a) \<in> set (foldl (\<lambda>d m. dict_set (str_upper (fst m)) (fst m) d) acc ms). str_upper a = k"
  using assms
proof (induction ms arbitrary: acc)
  case (Cons m ms)
  have "\<forall>(k, a) \<in> set (dict_set (str_upper (fst m)) (fst m) acc). str_upper a = k"
    using Cons.prems set_dict_set_subset [of "str_upper (fst m)" "fst m" acc] by auto
  from Cons.IH [OF this] show ?case by simp
qed simp

lemma dict_of_markets_acc:
  assumes "(\<exists>a. map_of acc r = Some a \<and> a \<in> A \<and> str_upper a = r) \<or> (\<exists>m \<in> fst ` set ms. str_upper m = r)"
    and "fst ` set ms \<subseteq> A"
  shows "\<exists>a. map_of (foldl (\<lambda>d m. dict_set (str_upper (fst m)) (fst m) d) acc ms) r = Some a \<and> a \<in> A \<and> str_upper a = r"
  using assms
proof (induction ms arbitrary: acc)
  case (Cons m ms)
  have "(\<exists>a. map_of (dict_set (str_upper (fst m)) (fst m) acc) r = Some a \<and> a \<in> A \<and> str_upper a = r) \<or>
      (\<exists>m \<in> fst ` set ms. str_upper m = r)"
    using Cons.prems by (auto simp: dict_simps)
  from Cons.IH [OF this] Cons.prems(2) show ?case by simp
qed auto

lemma dict_of_markets:
  assumes "m \<in> fst ` set ms" "str_upper m = r"
  shows "\<exists>a. map_of (foldl (\<lambda>d m. dict_set (str_upper (fst m)) (fst m) d) [] ms) r = Some a \<and>
    a \<in> fst ` set ms \<and> str_upper a = r"
  using assms by (intro dict_of_markets_acc) auto

lemma add_requested_extra:
  assumes "\<forall>r \<in> set rs. str_upper r = r"
  shows "\<exists>extra. add_requested ms rs selected = selected @ extra \<and> set extra \<subseteq> fst ` set ms \<and>
    set (map str_upper extra) \<subseteq> set rs"
  using assms
proof (induction rs arbitrary: selected)
  case (Cons r rs)
  define d where "d = foldl (\<lambda>d m. dict_set (str_upper (fst m)) (fst m) d) [] ms"
  have "str_upper (dict_get d r r) = r"
    using available_upper [of "[]" ms] Cons.prems
    by (auto simp: d_def [symmetric] dict_get_def dest!: map_of_SomeD split: option.splits)
  then have up: "str_upper a = r" if "a = dict_get d r r" for a using that by simp
  have rs: "\<forall>r \<in> set rs. str_upper r = r" using Cons.prems by simp
  show ?case
  proof (cases "r \<notin> set (map str_upper selected) \<and> dict_get d r r \<in> fst ` set ms")
    case True
    obtain extra where "add_requested ms rs (selected @ [dict_get d r r]) = (selected @ [dict_get d r r]) @ extra"
        "set extra \<subseteq> fst ` set ms" "set (map str_upper extra) \<subseteq> set rs"
      using Cons.IH [OF rs] by blast
    with True up [OF refl] show ?thesis
      by (intro exI [of _ "dict_get d r r # extra"]) (simp add: d_def [symmetric] Let_def subset_insertI2)
  next
    case False
    then have "add_requested ms (r # rs) selected = add_requested ms rs selected"
      by (auto simp: d_def [symmetric] Let_def)
    with Cons.IH [OF rs, of selected] show ?thesis by auto
  qed
qed simp

lemma requested_upper: "r \<in> set (requested_symbols env) \<Longrightarrow> str_upper r = r"
  by (auto simp: requested_symbols_def)

lemma add_requested_keeps: "set selected \<subseteq> set (add_requested ms rs selected)"
proof (induction rs arbitrary: selected)
  case (Cons r rs)
  let ?a = "dict_get (foldl (\<lambda>d m. dict_set (str_upper (fst m)) (fst m) d) [] ms) r r"
  show ?case using Cons.IH [of selected] Cons.IH [of "selected @ [?a]"] by (simp add: Let_def)
qed simp

lemma add_requested_complete:
  assumes "r \<in> set rs" "m \<in> fst ` set ms" "str_upper m = r"
  shows "r \<in> set (map str_upper (add_requested ms rs selected))"
  using assms(1)
proof (induction rs arbitrary: selected)
  case (Cons r' rs)
  define d where "d = foldl (\<lambda>d m. dict_set (str_upper (fst m)) (fst m) d) [] ms"
  show ?case
  proof (cases "r' = r \<and> r \<notin> set (map str_upper selected)")
    case True
    from dict_of_markets [OF assms(2,3)] obtain a where a: "map_of d r = Some a" "a \<in> fst ` set ms" "str_upper a = r"
      unfolding d_def by blast
    then have "add_requested ms (r' # rs) selected = add_requested ms rs (selected @ [a])"
      using True by (simp add: d_def [symmetric] Let_def dict_get_def)
    then show ?thesis using add_requested_keeps [of "selected @ [a]" ms rs] a(3) by force
  next
    case False
    show ?thesis
    proof (cases "r \<in> set (map str_upper selected)")
      case True
      then show ?thesis using add_requested_keeps [of selected ms "r' # rs"] by auto
    next
      case False
      with \<open>\<not> (r' = r \<and> _)\<close> Cons.prems have "r \<in> set rs" by auto
      from Cons.IH [OF this] show ?thesis by (simp add: Let_def)
    qed
  qed
qed simp

text \<open>
  The candidates discovery has to choose from, given the markets and the tickers of the client: allowed
  markets with a ticker from which a candidate within the limits can be made.
\<close>

definition qualifies :: "discovery_limits \<Rightarrow> markets \<Rightarrow> markets \<Rightarrow> candidate \<Rightarrow> bool" where
  "qualifies dl ms tickers c \<longleftrightarrow>
     within_limits dl c \<and>
     (\<exists>market. (cd_symbol c, market) \<in> set ms \<and> is_allowed_symbol (cd_symbol c) market (dl_quote dl) (excluded_set dl)) \<and>
     (\<exists>t. map_of tickers (cd_symbol c) = Some (VDict t) \<and> candidate_from_ticker (cd_symbol c) t = Some c)"

definition allowed_symbols :: "discovery_limits \<Rightarrow> markets \<Rightarrow> string list" where
  "allowed_symbols dl ms =
     map fst (filter (\<lambda>m. is_allowed_symbol (fst m) (snd m) (dl_quote dl) (excluded_set dl)) ms)"

lemma candidates_qualify:
  "c \<in> set (candidates_of dl tickers (allowed_symbols dl ms)) \<longleftrightarrow> qualifies dl ms tickers c"
proof
  assume "c \<in> set (candidates_of dl tickers (allowed_symbols dl ms))"
  from candidates_mem [OF this] show "qualifies dl ms tickers c"
    by (auto simp: qualifies_def allowed_symbols_def)
next
  assume q: "qualifies dl ms tickers c"
  then obtain t where "map_of tickers (cd_symbol c) = Some (VDict t)" "candidate_from_ticker (cd_symbol c) t = Some c"
      "within_limits dl c" "cd_symbol c \<in> set (allowed_symbols dl ms)"
    by (force simp: qualifies_def allowed_symbols_def)
  then show "c \<in> set (candidates_of dl tickers (allowed_symbols dl ms))"
    unfolding candidates_of_def List.map_filter_def by (force intro: image_eqI [of _ _ "cd_symbol c"])
qed

lemma candidates_distinct: "distinct symbols \<Longrightarrow> distinct (map cd_symbol (candidates_of dl tickers symbols))"
proof (induction symbols)
  case (Cons symb symbols)
  have "cd_symbol c \<in> set symbols" if "c \<in> set (candidates_of dl tickers symbols)" for c
    using candidates_mem [OF that] by simp
  with Cons show ?case
    by (auto simp: candidates_of_def map_filter_simps dest: candidate_symbol split: option.splits pyval.splits)
qed (simp add: candidates_of_def map_filter_simps)

lemma discovery_runs:
  assumes "discover_symbols cc env (Some x) dl fallback w = (w', chosen)" "0 < dl_max_symbols dl"
    and "safe_markets cc x w = (w1, ms)" "allowed_symbols dl ms \<noteq> []"
    and "safe_fetch_tickers cc x (allowed_symbols dl ms) w1 = (w2, tickers)"
  obtains best extra where
    "best = take (nat (dl_max_symbols dl)) (sort_by score_before (candidates_of dl tickers (allowed_symbols dl ms)))"
    "w' = w2" "chosen = (if best = [] \<and> extra = [] then fallback else map cd_symbol best @ extra)"
    "map cd_symbol best @ extra = add_requested ms (requested_symbols env) (map cd_symbol best)"
    "set extra \<subseteq> fst ` set ms" "set (map str_upper extra) \<subseteq> set (requested_symbols env)"
proof -
  define best where
    "best = take (nat (dl_max_symbols dl)) (sort_by score_before (candidates_of dl tickers (allowed_symbols dl ms)))"
  obtain extra where extra: "add_requested ms (requested_symbols env) (map cd_symbol best) = map cd_symbol best @ extra"
      "set extra \<subseteq> fst ` set ms" "set (map str_upper extra) \<subseteq> set (requested_symbols env)"
    using add_requested_extra [of "requested_symbols env" ms] requested_upper by blast
  have "(w', chosen) = (w2, if best = [] \<and> extra = [] then fallback else map cd_symbol best @ extra)"
    using assms extra(1)
    by (auto simp: discover_symbols_def allowed_symbols_def [symmetric] best_def [symmetric] Let_def split: if_splits)
  then show thesis using extra by (intro that [OF best_def]) simp_all
qed

text \<open>
  C25. What discovery selects. Let \<open>ms\<close> be the markets the client reports and \<open>tickers\<close> its tickers for the
  allowed ones. The selection is a list of candidates, followed by requested markets; if both are empty
  it is the fallback. Every chosen candidate qualifies, none is chosen twice, and no more are chosen than
  configured. If scores are numbers they are chosen from the best score down, and a qualifying candidate
  that is left out scores no better than any chosen one and is left out only because the configured
  number is reached. Requested symbols are added whenever there is such a market; they pass no filter.
\<close>

theorem discovery_selects_best:
  assumes "discover_symbols cc env (Some x) dl fallback w = (w', chosen)" "0 < dl_max_symbols dl"
    and "safe_markets cc x w = (w1, ms)" "allowed_symbols dl ms \<noteq> []"
    and "safe_fetch_tickers cc x (allowed_symbols dl ms) w1 = (w2, tickers)"
    and "\<And>c. qualifies dl ms tickers c \<Longrightarrow> is_num (cd_score c)"
  shows "\<exists>best extra.
    chosen = (if best = [] \<and> extra = [] then fallback else map cd_symbol best @ extra) \<and>
    (\<forall>c \<in> set best. qualifies dl ms tickers c) \<and> int (length best) \<le> dl_max_symbols dl \<and>
    (dict_ok ms \<longrightarrow> distinct (map cd_symbol best)) \<and>
    sorted_wrt (\<lambda>a b. cd_score b \<le> cd_score a) best \<and>
    (\<forall>c. qualifies dl ms tickers c \<and> c \<notin> set best \<longrightarrow>
       int (length best) = dl_max_symbols dl \<and> (\<forall>b \<in> set best. cd_score c \<le> cd_score b)) \<and>
    set extra \<subseteq> fst ` set ms \<and> set (map str_upper extra) \<subseteq> set (requested_symbols env) \<and>
    (\<forall>m \<in> fst ` set ms. str_upper m \<in> set (requested_symbols env) \<longrightarrow>
       str_upper m \<in> set (map str_upper (map cd_symbol best @ extra)))"
proof -
  define cands where "cands = candidates_of dl tickers (allowed_symbols dl ms)"
  define ranked where "ranked = sort_by score_before cands"
  obtain best extra where best: "best = take (nat (dl_max_symbols dl)) ranked"
    and chosen: "chosen = (if best = [] \<and> extra = [] then fallback else map cd_symbol best @ extra)"
    and extra: "map cd_symbol best @ extra = add_requested ms (requested_symbols env) (map cd_symbol best)"
      "set extra \<subseteq> fst ` set ms" "set (map str_upper extra) \<subseteq> set (requested_symbols env)"
    using assms(1-5) unfolding ranked_def cands_def by (rule discovery_runs)
  have mset: "mset ranked = mset cands" unfolding ranked_def by (rule mset_sort_by)
  then have set: "c \<in> set ranked \<longleftrightarrow> qualifies dl ms tickers c" for c
    unfolding cands_def using candidates_qualify by (metis set_mset_mset)
  have "sorted_wrt (\<lambda>a b. \<not> score_before b a) ranked"
    unfolding ranked_def using assms(6) candidates_qualify
    by (intro sorted_sort_by score_before_weak) (simp add: cands_def)
  then have srt: "sorted_wrt (\<lambda>a b. cd_score b \<le> cd_score a) ranked"
    by (rule sorted_wrt_mono_rel [rotated]) (use assms(6) set in \<open>auto simp: score_before_def pyfloat_not_less\<close>)
  have "distinct (map cd_symbol ranked)" if "dict_ok ms"
  proof -
    have "distinct (allowed_symbols dl ms)" using that by (simp add: allowed_symbols_def distinct_map_filter)
    then have "distinct (map cd_symbol cands)" unfolding cands_def by (rule candidates_distinct)
    moreover have "mset (map cd_symbol ranked) = mset (map cd_symbol cands)" using mset by simp
    ultimately show ?thesis using mset_eq_imp_distinct_iff by blast
  qed
  then have dist: "dict_ok ms \<longrightarrow> distinct (map cd_symbol best)" by (simp add: best take_map [symmetric])
  obtain rest where rest: "mset ranked = mset best + mset rest" "rest \<noteq> [] \<longrightarrow> length best = nat (dl_max_symbols dl)"
      "\<forall>b \<in> set best. \<forall>c \<in> set rest. cd_score c \<le> cd_score b"
    using cut_ranking [OF srt, of "nat (dl_max_symbols dl)"] unfolding best by blast
  have left: "int (length best) = dl_max_symbols dl \<and> (\<forall>b \<in> set best. cd_score c \<le> cd_score b)"
    if "qualifies dl ms tickers c" "c \<notin> set best" for c
  proof -
    have "c \<in> set rest" using that set rest(1) by (metis Un_iff set_mset_mset set_mset_union)
    moreover from this have "rest \<noteq> []" by auto
    ultimately show ?thesis using rest(2,3) assms(2) by auto
  qed
  have req: "str_upper m \<in> set (map str_upper (map cd_symbol best @ extra))"
    if "m \<in> fst ` set ms" "str_upper m \<in> set (requested_symbols env)" for m
    unfolding extra(1) using that by (intro add_requested_complete) simp_all
  have len: "int (length best) \<le> dl_max_symbols dl" using assms(2) by (simp add: best)
  have mem: "\<forall>c \<in> set best. qualifies dl ms tickers c" using set by (auto simp: best dest: in_set_takeD)
  have "sorted_wrt (\<lambda>a b. cd_score b \<le> cd_score a) best" using srt by (simp add: best sorted_wrt_take)
  with chosen mem len dist left req extra(2,3) show ?thesis by blast
qed

text \<open>The leveraged-token markers are substrings: an ordinary coin whose name ends in them is left out.\<close>

lemma jupiter_is_excluded: "\<not> is_allowed_symbol ''JUP/USDT'' (VDict []) ''USDT'' default_excluded"
  by (simp add: is_allowed_symbol_def leveraged_markers_def str_simps starts_with_def)

section \<open>Witness\<close>

text \<open>Two liquid markets and a stablecoin pair.\<close>

definition sample_client :: "(unit, unit) ccxt" where
  "sample_client =
     \<lparr>cc_new = (\<lambda>_ _ w. (w, Inr ())),
      cc_call = (\<lambda>_ _ _ w. (w, Inr (VDict
        [(''BTC/USDT'', VDict [(''last'', VInt 100), (''quoteVolume'', VInt 100000000), (''percentage'', VInt 3)]),
         (''ETH/USDT'', VDict [(''last'', VInt 10), (''quoteVolume'', VInt 10000000), (''percentage'', VInt 3)])]))),
      cc_attr = (\<lambda>_ name _.
        if name = ''markets'' then Some (VDict [(''BTC/USDT'', VDict []), (''USDC/USDT'', VDict []), (''ETH/USDT'', VDict [])])
        else Some VNone)\<rparr>"

definition sample_limits :: discovery_limits where
  "sample_limits =
     \<lparr>dl_quote = ''USDT'', dl_max_symbols = 1, dl_min_volume = Fin 1000000, dl_min_change = Fin 0,
      dl_max_change = Fin 18, dl_max_spread = Fin 20, dl_excluded = []\<rparr>"

definition sample_ms :: markets where
  "sample_ms = [(''BTC/USDT'', VDict []), (''USDC/USDT'', VDict []), (''ETH/USDT'', VDict [])]"

definition sample_tickers :: markets where
  "sample_tickers =
     [(''BTC/USDT'', VDict [(''last'', VInt 100), (''quoteVolume'', VInt 100000000), (''percentage'', VInt 3)]),
      (''ETH/USDT'', VDict [(''last'', VInt 10), (''quoteVolume'', VInt 10000000), (''percentage'', VInt 3)])]"

lemma sample_markets: "safe_markets sample_client () () = ((), sample_ms)"
  by (simp add: safe_markets_def sample_client_def sample_ms_def)

lemma sample_allowed: "allowed_symbols sample_limits sample_ms = [''BTC/USDT'', ''ETH/USDT'']"
proof -
  have "is_allowed_symbol ''BTC/USDT'' (VDict []) ''USDT'' (excluded_set sample_limits)"
      "\<not> is_allowed_symbol ''USDC/USDT'' (VDict []) ''USDT'' (excluded_set sample_limits)"
      "is_allowed_symbol ''ETH/USDT'' (VDict []) ''USDT'' (excluded_set sample_limits)"
    by (simp_all add: is_allowed_symbol_def leveraged_markers_def excluded_set_def sample_limits_def default_excluded_def
        str_simps str_strip_def is_space_def starts_with_def ends_with_def dict_simps)
  then show ?thesis by (simp add: allowed_symbols_def sample_ms_def) (simp add: sample_limits_def)
qed

lemma sample_fetched:
  "safe_fetch_tickers sample_client () [''BTC/USDT'', ''ETH/USDT''] () = ((), sample_tickers)"
  by (simp add: safe_fetch_tickers_def sample_client_def sample_tickers_def)

lemma sample_candidates:
  "candidates_of sample_limits sample_tickers [''BTC/USDT'', ''ETH/USDT''] =
     [\<lparr>cd_symbol = ''BTC/USDT'', cd_score = Fin (log 10 100000000 + 1), cd_volume = Fin 100000000,
       cd_change = Fin 3, cd_spread = Fin 0\<rparr>,
      \<lparr>cd_symbol = ''ETH/USDT'', cd_score = Fin (log 10 10000000 + 1), cd_volume = Fin 10000000,
       cd_change = Fin 3, cd_spread = Fin 0\<rparr>]"
  by (simp add: candidates_of_def map_filter_simps sample_tickers_def candidate_from_ticker_def ticker_last_def
      number_of_def py_or_def ticker_volume_def ticker_change_def ticker_spread_def score_candidate_def
      within_limits_def sample_limits_def dict_simps Let_def py_eq_def)

lemma sample_qualify:
  "qualifies sample_limits sample_ms sample_tickers c \<longleftrightarrow>
     c \<in> set (candidates_of sample_limits sample_tickers [''BTC/USDT'', ''ETH/USDT''])"
  using candidates_qualify [of c sample_limits sample_tickers sample_ms] by (simp only: sample_allowed)

theorem discovery_selects_best_witness:
  "\<exists>c. qualifies sample_limits sample_ms sample_tickers c \<and>
     snd (discover_symbols sample_client (\<lambda>_. None) (Some ()) sample_limits [] ()) = [cd_symbol c] \<and>
     (\<forall>c'. qualifies sample_limits sample_ms sample_tickers c' \<longrightarrow> cd_score c' \<le> cd_score c)"
proof -
  obtain chosen where run: "discover_symbols sample_client (\<lambda>_. None) (Some ()) sample_limits [] () = ((), chosen)"
    by (metis (full_types) old.unit.exhaust surj_pair)
  have num: "is_num (cd_score c)" if "qualifies sample_limits sample_ms sample_tickers c" for c
    using that unfolding sample_qualify sample_candidates by auto
  have limits: "0 < dl_max_symbols sample_limits" "dl_max_symbols sample_limits = 1" by (simp_all add: sample_limits_def)
  have allowed: "allowed_symbols sample_limits sample_ms \<noteq> []" by (simp add: sample_allowed)
  note fetched = sample_fetched [folded sample_allowed]
  obtain best extra where sel:
      "chosen = (if best = [] \<and> extra = [] then [] else map cd_symbol best @ extra)"
      "\<forall>c \<in> set best. qualifies sample_limits sample_ms sample_tickers c" "int (length best) \<le> 1"
      "\<forall>c. qualifies sample_limits sample_ms sample_tickers c \<and> c \<notin> set best \<longrightarrow>
         int (length best) = 1 \<and> (\<forall>b \<in> set best. cd_score c \<le> cd_score b)"
      "set (map str_upper extra) \<subseteq> set (requested_symbols (\<lambda>_. None))"
    using discovery_selects_best [OF run limits(1) sample_markets allowed fetched num] unfolding limits(2) by blast
  have "extra = []" using sel(5) by (simp add: requested_symbols_def str_strip_def)
  have "\<exists>c. qualifies sample_limits sample_ms sample_tickers c" unfolding sample_qualify sample_candidates by auto
  then have "best \<noteq> []" using sel(4) by fastforce
  with sel(3) obtain b where b: "best = [b]" by (cases best) auto
  have "cd_score c \<le> cd_score b" if "qualifies sample_limits sample_ms sample_tickers c" for c
  proof (cases "c = b")
    case True
    then show ?thesis using num [OF that] by (cases "cd_score b") auto
  next
    case False
    then show ?thesis using sel(4) that b by simp
  qed
  then show ?thesis using sel(1,2) run b \<open>extra = []\<close> by (intro exI [of _ b]) simp
qed

end
