(* ===== verification/Runtime_Settings.thy ===== *)
theory Runtime_Settings
  imports Aegis_Config Routing
begin

text \<open>
  The settings of the running program (\<open>app/runtime_settings.py\<close>): the strict readers of environment
  variables, \<open>RuntimeSettings.from_config\<close> and \<open>validate\<close>. The fields of the dataclass are grouped as
  its blank lines group them; \<open>from_config\<close> evaluates the groups in this order.
\<close>

section \<open>Reading the environment\<close>

text \<open>An unset or empty variable gives the default; other text must parse, or a \<open>ValueError\<close> names it.\<close>

definition read_env :: "(string \<Rightarrow> 'a option) \<Rightarrow> string \<Rightarrow> env \<Rightarrow> string \<Rightarrow> 'a \<Rightarrow> 'a res" where
  "read_env parse what env name dflt =
     (case env name of
        None \<Rightarrow> Inr dflt
      | Some raw \<Rightarrow>
          (if raw = [] then Inr dflt
           else case parse raw of
                  None \<Rightarrow> Inl (ValueError [Str name, Txt what])
                | Some x \<Rightarrow> Inr x))"

definition parse_bool :: "string \<Rightarrow> bool option" where
  "parse_bool raw =
     (let s = str_lower (str_strip raw) in
      if s \<in> {''1'', ''true'', ''yes'', ''y'', ''on''} then Some True
      else if s \<in> {''0'', ''false'', ''no'', ''n'', ''off''} then Some False
      else None)"

definition rs_float_env :: "env \<Rightarrow> string \<Rightarrow> pyfloat \<Rightarrow> pyfloat res" where
  "rs_float_env = read_env py_float_of_str '' must be a valid float''"

definition rs_int_env :: "env \<Rightarrow> string \<Rightarrow> int \<Rightarrow> int res" where
  "rs_int_env = read_env py_int_of_str '' must be a valid integer''"

definition rs_bool_env :: "env \<Rightarrow> string \<Rightarrow> bool \<Rightarrow> bool res" where
  "rs_bool_env = read_env parse_bool '' must be a boolean-like value''"

definition rs_str_env :: "env \<Rightarrow> string \<Rightarrow> string \<Rightarrow> string" where
  "rs_str_env env name dflt = (case env name of Some x \<Rightarrow> (if x = [] then dflt else x) | None \<Rightarrow> dflt)"

definition comma_items :: "string \<Rightarrow> string list" where
  "comma_items raw = map str_strip (filter (\<lambda>p. str_strip p \<noteq> []) (split_comma raw))"

definition rs_tuple_env :: "env \<Rightarrow> string \<Rightarrow> string list \<Rightarrow> string list" where
  "rs_tuple_env env name dflt =
     (case env name of Some x \<Rightarrow> (if x = [] then dflt else comma_items x) | None \<Rightarrow> dflt)"

text \<open>
  The symbols: the variable, or the first of the named attributes of the configuration that is a
  non-empty sequence, or its single symbol. \<open>attr\<close> is \<open>getattr(cfg, name, None)\<close>.
\<close>

fun first_symbols :: "(string \<Rightarrow> pyval) \<Rightarrow> string list \<Rightarrow> string list" where
  "first_symbols attr [] =
     (if truthy (attr ''symbol'') then [str_strip (py_str (attr ''symbol''))] else [])"
| "first_symbols attr (name # names) =
     (case attr name of
        VList items \<Rightarrow>
          (let symbols = filter (\<lambda>s. s \<noteq> []) (map (\<lambda>v. str_strip (py_str v)) items) in
           if symbols \<noteq> [] then symbols else first_symbols attr names)
      | _ \<Rightarrow> first_symbols attr names)"

definition symbols_from_config :: "env \<Rightarrow> (string \<Rightarrow> pyval) \<Rightarrow> string list" where
  "symbols_from_config env attr =
     (case env ''AEGIS_MARKET_SYMBOLS'' of
        Some raw \<Rightarrow>
          (if raw = [] then first_symbols attr [''symbols'', ''markets'', ''trading_symbols'']
           else comma_items raw)
      | None \<Rightarrow> first_symbols attr [''symbols'', ''markets'', ''trading_symbols''])"

section \<open>Settings\<close>

record limit_settings =
  rs_equity :: pyfloat
  rs_max_gross :: pyfloat
  rs_max_net :: pyfloat
  rs_max_weight :: pyfloat
  rs_max_order :: pyfloat
  rs_max_daily_loss :: pyfloat
  rs_max_drawdown :: pyfloat

record market_settings =
  rs_symbols :: "string list"
  rs_poll_interval :: pyfloat
  rs_depth :: int
  rs_concurrency :: int
  rs_stale_after :: pyfloat

record service_settings =
  rs_database :: string
  rs_metrics_port :: int
  rs_monitoring_interval :: pyfloat
  rs_health_host :: string
  rs_health_port :: int
  rs_health_interval :: pyfloat

record strategy_settings =
  rs_live :: bool
  rs_target :: pyfloat
  rs_max_position :: pyfloat
  rs_window :: int
  rs_min_obs :: int
  rs_entry_z :: pyfloat
  rs_exit_z :: pyfloat
  rs_imbalance :: pyfloat
  rs_max_spread :: pyfloat
  rs_cooldown :: pyfloat
  rs_order_type :: string
  rs_min_order :: pyfloat
  rs_take_profit :: pyfloat
  rs_stop_loss :: pyfloat
  rs_min_profit :: pyfloat
  rs_max_hold :: pyfloat
  rs_exit_cooldown :: pyfloat
  rs_loss_cooldown :: pyfloat
  rs_bad_drop :: pyfloat

record discovery_settings =
  rs_discover :: bool
  rs_quote :: string
  rs_max_symbols :: int
  rs_min_volume :: pyfloat
  rs_min_change :: pyfloat
  rs_max_change :: pyfloat
  rs_discovery_spread :: pyfloat
  rs_excluded :: "string list"
  rs_refresh :: pyfloat

record runtime_settings =
  rs_limits :: limit_settings
  rs_market :: market_settings
  rs_services :: service_settings
  rs_strategy :: strategy_settings
  rs_discovery :: discovery_settings

definition read_limits :: "env \<Rightarrow> aegis_config \<Rightarrow> limit_settings res" where
  "read_limits env cfg =
     rbind (rs_float_env env ''AEGIS_REFERENCE_EQUITY'' (Fin 10000)) (\<lambda>equity.
     rbind (check_all [(equity \<le> Fin 0, ''AEGIS_REFERENCE_EQUITY must be positive'')]) (\<lambda>_.
     let gross = equity * cfg_max_heat cfg;
         weight = (if Fin 0 < cfg_max_heat cfg
                   then py_min (Fin 1) (cfg_max_allocation cfg / cfg_max_heat cfg) else Fin (40 / 100))
     in rbind (rs_float_env env ''AEGIS_MAX_GROSS_EXPOSURE'' gross) (\<lambda>max_gross.
        rbind (rs_float_env env ''AEGIS_MAX_NET_EXPOSURE'' gross) (\<lambda>max_net.
        rbind (rs_float_env env ''AEGIS_MAX_SYMBOL_WEIGHT'' weight) (\<lambda>max_weight.
        rbind (rs_float_env env ''AEGIS_MAX_ORDER_NOTIONAL'' (equity * cfg_max_allocation cfg)) (\<lambda>max_order.
        rbind (rs_float_env env ''AEGIS_MAX_DAILY_LOSS'' (equity * (cfg_daily_loss_pct cfg / Fin 100))) (\<lambda>loss.
        rbind (rs_float_env env ''AEGIS_MAX_DRAWDOWN_PCT'' (cfg_drawdown_pct cfg)) (\<lambda>drawdown.
        Inr \<lparr>rs_equity = equity, rs_max_gross = max_gross, rs_max_net = max_net, rs_max_weight = max_weight,
             rs_max_order = max_order, rs_max_daily_loss = loss, rs_max_drawdown = drawdown\<rparr>))))))))"

definition read_market :: "env \<Rightarrow> (string \<Rightarrow> pyval) \<Rightarrow> market_settings res" where
  "read_market env attr =
     rbind (rs_float_env env ''AEGIS_MARKET_POLL_INTERVAL_SECONDS'' (Fin 2)) (\<lambda>poll.
     rbind (rs_int_env env ''AEGIS_ORDERBOOK_DEPTH'' 20) (\<lambda>depth.
     rbind (rs_int_env env ''AEGIS_MARKET_FETCH_CONCURRENCY'' 8) (\<lambda>concurrency.
     rbind (rs_float_env env ''AEGIS_MARKET_STALE_AFTER_SECONDS'' (Fin 30)) (\<lambda>stale.
     Inr \<lparr>rs_symbols = symbols_from_config env attr, rs_poll_interval = poll, rs_depth = depth,
          rs_concurrency = concurrency, rs_stale_after = stale\<rparr>))))"

definition read_services :: "env \<Rightarrow> service_settings res" where
  "read_services env =
     rbind (rs_int_env env ''AEGIS_METRICS_PORT'' 9000) (\<lambda>metrics.
     rbind (rs_float_env env ''AEGIS_MONITORING_INTERVAL_SECONDS'' (Fin 5)) (\<lambda>monitoring.
     rbind (rs_int_env env ''AEGIS_HEALTH_PORT'' 8080) (\<lambda>health.
     rbind (rs_float_env env ''AEGIS_HEALTH_SNAPSHOT_INTERVAL_SECONDS'' (Fin 30)) (\<lambda>interval.
     Inr \<lparr>rs_database = rs_str_env env ''AEGIS_DATABASE_PATH'' ''data/aegis_runtime.db'',
          rs_metrics_port = metrics, rs_monitoring_interval = monitoring,
          rs_health_host = rs_str_env env ''AEGIS_HEALTH_HOST'' ''127.0.0.1'', rs_health_port = health,
          rs_health_interval = interval\<rparr>))))"

definition read_strategy :: "env \<Rightarrow> strategy_settings res" where
  "read_strategy env =
     rbind (rs_bool_env env ''AEGIS_LIVE_STRATEGY_ENABLED'' True) (\<lambda>live.
     rbind (rs_float_env env ''AEGIS_STRATEGY_TARGET_NOTIONAL'' (Fin 100)) (\<lambda>target.
     rbind (rs_float_env env ''AEGIS_STRATEGY_MAX_POSITION_NOTIONAL'' (Fin 300)) (\<lambda>max_position.
     rbind (rs_int_env env ''AEGIS_STRATEGY_ROLLING_WINDOW'' 30) (\<lambda>window.
     rbind (rs_int_env env ''AEGIS_STRATEGY_MIN_OBSERVATIONS'' 20) (\<lambda>min_obs.
     rbind (rs_float_env env ''AEGIS_STRATEGY_ENTRY_ZSCORE'' (Fin (125 / 100))) (\<lambda>entry.
     rbind (rs_float_env env ''AEGIS_STRATEGY_EXIT_ZSCORE'' (Fin (25 / 100))) (\<lambda>exit.
     rbind (rs_float_env env ''AEGIS_STRATEGY_IMBALANCE_THRESHOLD'' (Fin (20 / 100))) (\<lambda>imbalance.
     rbind (rs_float_env env ''AEGIS_STRATEGY_MAX_SPREAD_BPS'' (Fin 12)) (\<lambda>spread.
     rbind (rs_float_env env ''AEGIS_STRATEGY_COOLDOWN_SECONDS'' (Fin 20)) (\<lambda>cooldown.
     rbind (rs_float_env env ''AEGIS_STRATEGY_MIN_ORDER_NOTIONAL'' (Fin (55 / 10))) (\<lambda>min_order.
     rbind (rs_float_env env ''AEGIS_STRATEGY_TAKE_PROFIT_BPS'' (Fin 60)) (\<lambda>take_profit.
     rbind (rs_float_env env ''AEGIS_STRATEGY_STOP_LOSS_BPS'' (Fin 35)) (\<lambda>stop_loss.
     rbind (rs_float_env env ''AEGIS_STRATEGY_MIN_PROFIT_AFTER_FEE_BPS'' (Fin 18)) (\<lambda>min_profit.
     rbind (rs_float_env env ''AEGIS_STRATEGY_MAX_HOLD_SECONDS'' (Fin 900)) (\<lambda>max_hold.
     rbind (rs_float_env env ''AEGIS_STRATEGY_SYMBOL_COOLDOWN_AFTER_EXIT_SECONDS'' (Fin 900)) (\<lambda>exit_cooldown.
     rbind (rs_float_env env ''AEGIS_STRATEGY_LOSS_COOLDOWN_SECONDS'' (Fin 3600)) (\<lambda>loss_cooldown.
     rbind (rs_float_env env ''AEGIS_STRATEGY_BAD_SYMBOL_DROP_BPS'' (Fin 1200)) (\<lambda>bad_drop.
     Inr \<lparr>rs_live = live, rs_target = target, rs_max_position = max_position, rs_window = window,
          rs_min_obs = min_obs, rs_entry_z = entry, rs_exit_z = exit, rs_imbalance = imbalance,
          rs_max_spread = spread, rs_cooldown = cooldown,
          rs_order_type = str_upper (rs_str_env env ''AEGIS_STRATEGY_ORDER_TYPE'' ''MARKET''),
          rs_min_order = min_order, rs_take_profit = take_profit, rs_stop_loss = stop_loss,
          rs_min_profit = min_profit, rs_max_hold = max_hold, rs_exit_cooldown = exit_cooldown,
          rs_loss_cooldown = loss_cooldown, rs_bad_drop = bad_drop\<rparr>))))))))))))))))))"

definition read_discovery :: "env \<Rightarrow> discovery_settings res" where
  "read_discovery env =
     rbind (rs_bool_env env ''AEGIS_AUTO_SYMBOL_DISCOVERY'' False) (\<lambda>discover.
     rbind (rs_int_env env ''AEGIS_SYMBOL_DISCOVERY_MAX_SYMBOLS'' 6) (\<lambda>max_symbols.
     rbind (rs_float_env env ''AEGIS_SYMBOL_DISCOVERY_MIN_QUOTE_VOLUME'' (Fin 1000000)) (\<lambda>volume.
     rbind (rs_float_env env ''AEGIS_SYMBOL_DISCOVERY_MIN_CHANGE_PCT'' (Fin 0)) (\<lambda>min_change.
     rbind (rs_float_env env ''AEGIS_SYMBOL_DISCOVERY_MAX_CHANGE_PCT'' (Fin 18)) (\<lambda>max_change.
     rbind (rs_float_env env ''AEGIS_SYMBOL_DISCOVERY_MAX_SPREAD_BPS'' (Fin 20)) (\<lambda>spread.
     rbind (rs_float_env env ''AEGIS_SYMBOL_DISCOVERY_REFRESH_SECONDS'' (Fin 1800)) (\<lambda>refresh.
     Inr \<lparr>rs_discover = discover,
          rs_quote = str_upper (rs_str_env env ''AEGIS_SYMBOL_DISCOVERY_QUOTE'' ''USDT''),
          rs_max_symbols = max_symbols, rs_min_volume = volume, rs_min_change = min_change,
          rs_max_change = max_change, rs_discovery_spread = spread,
          rs_excluded = rs_tuple_env env ''AEGIS_SYMBOL_DISCOVERY_EXCLUDED_SYMBOLS'' [],
          rs_refresh = refresh\<rparr>)))))))"

definition from_config :: "env \<Rightarrow> (string \<Rightarrow> pyval) \<Rightarrow> aegis_config \<Rightarrow> runtime_settings res" where
  "from_config env attr cfg =
     rbind (read_limits env cfg) (\<lambda>limits.
     rbind (read_market env attr) (\<lambda>market.
     rbind (read_services env) (\<lambda>services.
     rbind (read_strategy env) (\<lambda>strat.
     rbind (read_discovery env) (\<lambda>discovery.
     Inr \<lparr>rs_limits = limits, rs_market = market, rs_services = services, rs_strategy = strat,
          rs_discovery = discovery\<rparr>)))))"

section \<open>Validation\<close>

definition validate_limits :: "limit_settings \<Rightarrow> (bool \<times> string) list" where
  "validate_limits l =
     [(rs_max_gross l \<le> Fin 0, ''max_gross_exposure must be positive''),
      (rs_max_net l \<le> Fin 0, ''max_net_exposure must be positive''),
      (\<not> (Fin 0 < rs_max_weight l \<and> rs_max_weight l \<le> Fin 1), ''max_symbol_weight must be in (0, 1]''),
      (rs_max_order l \<le> Fin 0, ''max_order_notional must be positive''),
      (rs_max_daily_loss l \<le> Fin 0, ''max_daily_loss must be positive''),
      (rs_max_drawdown l \<le> Fin 0, ''max_drawdown_pct must be positive'')]"

definition validate_market :: "market_settings \<Rightarrow> (bool \<times> string) list" where
  "validate_market m =
     [(rs_poll_interval m \<le> Fin 0, ''market_poll_interval_seconds must be positive''),
      (rs_depth m \<le> 0, ''orderbook_depth must be positive''),
      (rs_concurrency m \<le> 0, ''market_fetch_concurrency must be positive''),
      (rs_stale_after m \<le> Fin 0, ''market_stale_after_seconds must be positive'')]"

definition validate_services :: "service_settings \<Rightarrow> (bool \<times> string) list" where
  "validate_services s =
     [(rs_metrics_port s \<le> 0, ''metrics_port must be positive''),
      (rs_health_port s \<le> 0, ''health_port must be positive''),
      (rs_monitoring_interval s \<le> Fin 0, ''monitoring_interval_seconds must be positive''),
      (rs_health_interval s \<le> Fin 0, ''health_snapshot_interval_seconds must be positive'')]"

definition validate_strategy :: "strategy_settings \<Rightarrow> (bool \<times> string) list" where
  "validate_strategy s =
     [(rs_target s \<le> Fin 0, ''strategy_target_notional must be positive''),
      (rs_max_position s \<le> Fin 0, ''strategy_max_position_notional must be positive''),
      (rs_window s < 5, ''strategy_rolling_window must be at least 5''),
      (rs_min_obs s < 5, ''strategy_min_observations must be at least 5''),
      (rs_window s < rs_min_obs s, ''strategy_min_observations cannot exceed strategy_rolling_window''),
      (rs_entry_z s \<le> Fin 0, ''strategy_entry_zscore must be positive''),
      (rs_exit_z s < Fin 0, ''strategy_exit_zscore cannot be negative''),
      (rs_entry_z s \<le> rs_exit_z s, ''strategy_exit_zscore must be smaller than strategy_entry_zscore''),
      (\<not> (Fin 0 < rs_imbalance s \<and> rs_imbalance s \<le> Fin 1),
         ''strategy_imbalance_threshold must be in (0, 1]''),
      (rs_max_spread s \<le> Fin 0, ''strategy_max_spread_bps must be positive''),
      (rs_cooldown s < Fin 0, ''strategy_cooldown_seconds cannot be negative''),
      (rs_order_type s \<notin> {''MARKET'', ''LIMIT''}, ''strategy_order_type must be MARKET or LIMIT'')]"

definition validate_settings :: "runtime_settings \<Rightarrow> unit res" where
  "validate_settings s = check_all
     (validate_limits (rs_limits s) @ validate_market (rs_market s) @ validate_services (rs_services s) @
      validate_strategy (rs_strategy s))"

lemma validate_settings_ok:
  "validate_settings s = Inr () \<longleftrightarrow>
     list_all (\<lambda>c. \<not> fst c) (validate_limits (rs_limits s)) \<and> list_all (\<lambda>c. \<not> fst c) (validate_market (rs_market s)) \<and>
     list_all (\<lambda>c. \<not> fst c) (validate_services (rs_services s)) \<and>
     list_all (\<lambda>c. \<not> fst c) (validate_strategy (rs_strategy s))"
  unfolding validate_settings_def check_all_ok by (auto simp: list_all_iff)

lemmas validated_simps =
  validate_settings_ok validate_limits_def validate_market_def validate_services_def validate_strategy_def

end
