(* ===== verification/Momentum_Trap.thy ===== *)
theory Momentum_Trap
  imports Live_Strategy
begin

text \<open>
  The momentum-trap scanner: the decision of \<open>strategies/momentum_trap.py\<close> on the figures of the last
  closed candle, and the service \<open>microservices/momentum_trap_service.py\<close> that scans a symbol and
  publishes purchases. The columns the analyzer computes with pandas enter as a function from the
  candles to the figures of the last closed one (\<open>table\<close>), the exchange as its \<open>fetch_ohlcv\<close>.
\<close>

section \<open>Decision\<close>

record mt_config =
  mt_volume_multiplier :: pyfloat
  mt_wick_body :: pyfloat
  mt_rsi_min :: pyfloat
  mt_rsi_max :: pyfloat
  mt_tolerance :: pyfloat
  mt_min_candles :: nat

text \<open>The last closed candle with its columns, and the close of the one before.\<close>

record candle =
  c_timestamp :: pyfloat
  c_open :: pyfloat
  c_low :: pyfloat
  c_close :: pyfloat
  c_volume :: pyfloat
  c_support :: pyfloat
  c_avg_volume :: pyfloat
  c_ema_fast :: pyfloat
  c_ema_slow :: pyfloat
  c_rsi :: pyfloat
  c_macd :: pyfloat
  c_macd_signal :: pyfloat
  c_bb_mid :: pyfloat
  c_bb_upper :: pyfloat
  c_previous_close :: pyfloat

record mt_decision =
  md_symbol :: string
  md_buy :: bool
  md_reason :: string
  md_key :: "string option"
  md_confidence :: pyfloat
  md_price :: pyfloat
  md_metrics :: "(string \<times> pyval) list"

definition within_bps :: "pyfloat \<Rightarrow> pyfloat \<Rightarrow> pyfloat \<Rightarrow> bool" where
  "within_bps price reference tolerance =
     (if price \<le> Fin 0 \<or> reference \<le> Fin 0 then False
      else \<bar>price - reference\<bar> / reference * Fin 10000 \<le> tolerance)"

definition body_size :: "candle \<Rightarrow> pyfloat" where
  "body_size c = \<bar>c_close c - c_open c\<bar>"

definition lower_wick :: "candle \<Rightarrow> pyfloat" where
  "lower_wick c = py_min (c_open c) (c_close c) - c_low c"

definition support_broken :: "candle \<Rightarrow> bool" where
  "support_broken c \<longleftrightarrow> Fin 0 < c_support c \<and> c_low c < c_support c"

definition support_reclaimed :: "candle \<Rightarrow> bool" where
  "support_reclaimed c \<longleftrightarrow> Fin 0 < c_support c \<and> c_support c < c_close c"

definition volume_spike :: "mt_config \<Rightarrow> candle \<Rightarrow> bool" where
  "volume_spike cfg c \<longleftrightarrow>
     Fin 0 < c_avg_volume c \<and> c_avg_volume c * mt_volume_multiplier cfg \<le> c_volume c"

definition wick_rejection :: "mt_config \<Rightarrow> candle \<Rightarrow> bool" where
  "wick_rejection cfg c \<longleftrightarrow>
     py_max (body_size c) (c_close c * Fin (1 / 10000)) * mt_wick_body cfg < lower_wick c"

definition rsi_ok :: "mt_config \<Rightarrow> candle \<Rightarrow> bool" where
  "rsi_ok cfg c \<longleftrightarrow> mt_rsi_min cfg \<le> c_rsi c \<and> c_rsi c \<le> mt_rsi_max cfg"

definition not_extended :: "candle \<Rightarrow> bool" where
  "not_extended c \<longleftrightarrow> c_bb_upper c \<le> Fin 0 \<or> c_close c \<le> c_bb_upper c"

definition trap_core :: "mt_config \<Rightarrow> candle \<Rightarrow> bool" where
  "trap_core cfg c \<longleftrightarrow>
     support_broken c \<and> support_reclaimed c \<and> volume_spike cfg c \<and> wick_rejection cfg c"

definition pullback_reclaim :: "mt_config \<Rightarrow> candle \<Rightarrow> bool" where
  "pullback_reclaim cfg c \<longleftrightarrow>
     (within_bps (c_close c) (c_ema_slow c) (mt_tolerance cfg) \<or>
      (Fin 0 < c_bb_mid c \<and> within_bps (c_close c) (c_bb_mid c) (mt_tolerance cfg))) \<and>
     c_previous_close c < c_close c"

definition trend_confirmed :: "mt_config \<Rightarrow> candle \<Rightarrow> bool" where
  "trend_confirmed cfg c \<longleftrightarrow>
     c_ema_slow c < c_ema_fast c \<and> c_macd_signal c < c_macd c \<and> rsi_ok cfg c \<and> not_extended c"

definition should_buy :: "mt_config \<Rightarrow> candle \<Rightarrow> bool" where
  "should_buy cfg c \<longleftrightarrow> trend_confirmed cfg c \<and> (trap_core cfg c \<or> pullback_reclaim cfg c)"

definition decision_reason :: "mt_config \<Rightarrow> candle \<Rightarrow> string" where
  "decision_reason cfg c =
     (if should_buy cfg c then (if trap_core cfg c then ''trap_reclaim'' else ''bullish_pullback_reclaim'')
      else if trap_core cfg c \<and> \<not> trend_confirmed cfg c then ''trap_without_trend_confirmation''
      else if \<not> trap_core cfg c \<and> \<not> pullback_reclaim cfg c then ''no_entry_pattern''
      else ''trend_filters_failed'')"

definition decision_confidence :: "mt_config \<Rightarrow> candle \<Rightarrow> pyfloat" where
  "decision_confidence cfg c =
     (if \<not> should_buy cfg c then Fin 0
      else py_min (Fin 1)
        (Fin (55 / 100) + (if trap_core cfg c then Fin (20 / 100) else Fin 0) +
         (if volume_spike cfg c then Fin (8 / 100) else Fin 0) +
         (if c_macd_signal c < c_macd c then Fin (7 / 100) else Fin 0) +
         (if Fin 50 \<le> c_rsi c \<and> c_rsi c \<le> Fin 62 then Fin (5 / 100) else Fin 0)))"

definition decision_metrics :: "mt_config \<Rightarrow> candle \<Rightarrow> (string \<times> pyval) list" where
  "decision_metrics cfg c =
     [(''close'', VFloat (c_close c)), (''support'', VFloat (c_support c)), (''volume'', VFloat (c_volume c)),
      (''avg_volume'', VFloat (c_avg_volume c)), (''volume_spike'', VBool (volume_spike cfg c)),
      (''lower_wick'', VFloat (lower_wick c)), (''body_size'', VFloat (body_size c)),
      (''support_broken'', VBool (support_broken c)), (''support_reclaimed'', VBool (support_reclaimed c)),
      (''wick_rejection'', VBool (wick_rejection cfg c)), (''ema_fast'', VFloat (c_ema_fast c)),
      (''ema_slow'', VFloat (c_ema_slow c)), (''ema_bullish'', VBool (c_ema_slow c < c_ema_fast c)),
      (''rsi'', VFloat (c_rsi c)), (''rsi_ok'', VBool (rsi_ok cfg c)), (''macd'', VFloat (c_macd c)),
      (''macd_signal'', VFloat (c_macd_signal c)), (''macd_bullish'', VBool (c_macd_signal c < c_macd c)),
      (''bb_mid'', VFloat (c_bb_mid c)), (''bb_upper'', VFloat (c_bb_upper c)),
      (''not_extended'', VBool (not_extended c)), (''trap_core'', VBool (trap_core cfg c)),
      (''pullback_reclaim'', VBool (pullback_reclaim cfg c))]"

text \<open>\<open>f"momentum_trap:{symbol}:{timestamp}"\<close>, the timestamp an integer, zero when it is missing.\<close>

definition signal_key :: "string \<Rightarrow> candle \<Rightarrow> string res" where
  "signal_key symb c =
     rbind (if c_timestamp c = NaN then Inr 0 else py_int_of_float (c_timestamp c))
       (\<lambda>n. Inr (''momentum_trap:'' @ symb @ '':'' @ show_int n))"

definition too_few :: "string \<Rightarrow> string \<Rightarrow> string \<Rightarrow> nat \<Rightarrow> mt_decision" where
  "too_few symb reason metric n =
     \<lparr>md_symbol = symb, md_buy = False, md_reason = reason, md_key = None, md_confidence = Fin 0,
      md_price = Fin 0, md_metrics = [(metric, VFloat (Fin (real n)))]\<rparr>"

text \<open>\<open>table\<close> returns the number of valid candles and the figures of the last closed one.\<close>

definition analyze ::
  "mt_config \<Rightarrow> (pyval list \<Rightarrow> (nat \<times> candle) res) \<Rightarrow> string \<Rightarrow> pyval list \<Rightarrow> mt_decision res" where
  "analyze cfg table symb ohlcv =
     (if length ohlcv < mt_min_candles cfg
      then Inr (too_few symb ''not_enough_candles'' ''candles'' (length ohlcv))
      else rbind (table ohlcv) (\<lambda>(n, c).
        if n < mt_min_candles cfg then Inr (too_few symb ''not_enough_valid_candles'' ''valid_candles'' n)
        else rbind (signal_key symb c) (\<lambda>key.
          Inr \<lparr>md_symbol = symb, md_buy = should_buy cfg c, md_reason = decision_reason cfg c,
               md_key = Some key, md_confidence = decision_confidence cfg c, md_price = c_close c,
               md_metrics = decision_metrics cfg c\<rparr>)))"

text \<open>
  What the analyzer decides: a purchase needs a confirmed trend and one of the two patterns, and its
  confidence lies between 0.62 and 0.95; the reason names the case, so that a refused candle with a trap
  always lacks the trend, and no decision is made on fewer than the required candles.
\<close>

theorem momentum_decision:
  assumes "analyze cfg table symb ohlcv = Inr d"
  shows "md_symbol d = symb \<and>
    (md_buy d \<longrightarrow> mt_min_candles cfg \<le> length ohlcv \<and> (\<exists>n c. table ohlcv = Inr (n, c) \<and> mt_min_candles cfg \<le> n \<and>
       trend_confirmed cfg c \<and> (trap_core cfg c \<or> pullback_reclaim cfg c) \<and> md_price d = c_close c) \<and>
       Fin (62 / 100) \<le> md_confidence d \<and> md_confidence d \<le> Fin (95 / 100) \<and>
       md_reason d \<in> {''trap_reclaim'', ''bullish_pullback_reclaim''} \<and> md_key d \<noteq> None) \<and>
    (\<not> md_buy d \<longrightarrow> md_confidence d = Fin 0 \<and>
       md_reason d \<in> {''not_enough_candles'', ''not_enough_valid_candles'', ''trap_without_trend_confirmation'',
                       ''no_entry_pattern'', ''trend_filters_failed''})"
proof (cases "length ohlcv < mt_min_candles cfg")
  case True
  then show ?thesis using assms by (auto simp: analyze_def too_few_def)
next
  case long: False
  obtain n c where t: "table ohlcv = Inr (n, c)" using assms long by (auto simp: analyze_def rbind_Inr_iff)
  show ?thesis
  proof (cases "n < mt_min_candles cfg")
    case True
    then show ?thesis using assms long t by (auto simp: analyze_def too_few_def)
  next
    case False
    obtain key where d: "d = \<lparr>md_symbol = symb, md_buy = should_buy cfg c, md_reason = decision_reason cfg c,
        md_key = Some key, md_confidence = decision_confidence cfg c, md_price = c_close c,
        md_metrics = decision_metrics cfg c\<rparr>"
      using assms long t False by (auto simp: analyze_def rbind_Inr_iff)
    have conf: "Fin (62 / 100) \<le> decision_confidence cfg c \<and> decision_confidence cfg c \<le> Fin (95 / 100)"
      if "should_buy cfg c"
      using that by (auto simp: decision_confidence_def should_buy_def trend_confirmed_def)
    show ?thesis
      using long t False conf by (auto simp: d should_buy_def decision_reason_def decision_confidence_def)
  qed
qed

section \<open>The service\<close>

record mt_settings =
  mt_symbols :: "string list"
  mt_target :: pyfloat
  mt_order_type :: order_type
  mt_enabled :: bool
  mt_timeframe :: string
  mt_candle_limit :: int
  mt_cooldown :: pyfloat
  mt_max_spread :: pyfloat
  mt_require_mark :: bool
  mt_blocklist :: "string list"
  mt_cfg :: mt_config

text \<open>These readers differ from those of the mean-reversion strategy: only the empty text is the default.\<close>

definition mt_bool_env :: "env \<Rightarrow> string \<Rightarrow> bool \<Rightarrow> bool" where
  "mt_bool_env env name dflt =
     (case env name of
        None \<Rightarrow> dflt
      | Some raw \<Rightarrow> (if raw = [] then dflt else str_lower (str_strip raw) \<in> set truth_words))"

definition mt_float_env :: "env \<Rightarrow> string \<Rightarrow> pyfloat \<Rightarrow> pyfloat" where
  "mt_float_env env name dflt =
     (case env name of
        None \<Rightarrow> dflt
      | Some raw \<Rightarrow> (if raw = [] then dflt else case py_float_of_str raw of None \<Rightarrow> dflt | Some x \<Rightarrow> x))"

definition mt_int_env :: "env \<Rightarrow> string \<Rightarrow> int \<Rightarrow> int res" where
  "mt_int_env env name dflt =
     (case env name of
        None \<Rightarrow> Inr dflt
      | Some raw \<Rightarrow>
          (if raw = [] then Inr dflt
           else case py_float_of_str raw of
                  None \<Rightarrow> Inr dflt
                | Some x \<Rightarrow> (case py_int_of_float x of Inl (ValueError m) \<Rightarrow> Inr dflt | r \<Rightarrow> r)))"

definition env_symbols :: "env \<Rightarrow> string \<Rightarrow> string list \<Rightarrow> string list" where
  "env_symbols env name dflt =
     (let raw = str_strip (case env name of None \<Rightarrow> [] | Some s \<Rightarrow> s) in
      if raw = [] then dflt else filter (\<lambda>s. s \<noteq> []) (map str_strip (split_comma raw)))"

definition momentum_config :: "env \<Rightarrow> mt_config" where
  "momentum_config env =
     \<lparr>mt_volume_multiplier = mt_float_env env ''AEGIS_MOMENTUM_TRAP_MIN_VOLUME_MULT'' (Fin (3 / 2)),
      mt_wick_body = mt_float_env env ''AEGIS_MOMENTUM_TRAP_MIN_WICK_BODY_RATIO'' (Fin (12 / 10)),
      mt_rsi_min = Fin 45, mt_rsi_max = mt_float_env env ''AEGIS_MOMENTUM_TRAP_RSI_MAX'' (Fin 68),
      mt_tolerance = mt_float_env env ''AEGIS_MOMENTUM_TRAP_PULLBACK_TOLERANCE_BPS'' (Fin 85),
      mt_min_candles = 35\<rparr>"

definition new_momentum_settings ::
  "env \<Rightarrow> string list \<Rightarrow> pyfloat \<Rightarrow> pyfloat \<Rightarrow> pyfloat \<Rightarrow> string \<Rightarrow> mt_settings res" where
  "new_momentum_settings env symbols target max_position min_order order_type =
     rbind (type_of (str_upper order_type)) (\<lambda>ty.
     rbind (mt_int_env env ''AEGIS_MOMENTUM_TRAP_CANDLE_LIMIT'' 90) (\<lambda>limit.
     Inr \<lparr>mt_symbols = env_symbols env ''AEGIS_MOMENTUM_TRAP_SYMBOLS'' symbols,
          mt_target = py_max min_order (py_min target max_position),
          mt_order_type = ty,
          mt_enabled = mt_bool_env env ''AEGIS_MOMENTUM_TRAP_ENABLED'' False,
          mt_timeframe =
            (let s = str_strip (case env ''AEGIS_MOMENTUM_TRAP_TIMEFRAME'' of None \<Rightarrow> ''15m'' | Some x \<Rightarrow> x) in
             if s = [] then ''15m'' else s),
          mt_candle_limit = max 40 limit,
          mt_cooldown = mt_float_env env ''AEGIS_MOMENTUM_TRAP_COOLDOWN_SECONDS'' (Fin 1800),
          mt_max_spread = mt_float_env env ''AEGIS_MOMENTUM_TRAP_MAX_SPREAD_BPS'' (Fin 20),
          mt_require_mark = mt_bool_env env ''AEGIS_MOMENTUM_TRAP_REQUIRE_MARK_PRICE'' False,
          mt_blocklist = map str_upper (env_symbols env ''AEGIS_SYMBOL_BLOCKLIST'' []),
          mt_cfg = momentum_config env\<rparr>))"

record mt_state =
  mt_last_signal :: "(string, pyfloat) pydict"
  mt_keys :: "string list"
  mt_scans :: nat
  mt_errors :: nat
  mt_signals :: nat
  mt_skip_position :: nat
  mt_skip_cooldown :: nat
  mt_skip_blocklist :: nat
  mt_skip_spread :: nat
  mt_published :: "order_request list"

definition new_momentum_state :: mt_state where
  "new_momentum_state =
     \<lparr>mt_last_signal = [], mt_keys = [], mt_scans = 0, mt_errors = 0, mt_signals = 0, mt_skip_position = 0,
      mt_skip_cooldown = 0, mt_skip_blocklist = 0, mt_skip_spread = 0, mt_published = []\<rparr>"

definition momentum_on_cooldown :: "mt_settings \<Rightarrow> string \<Rightarrow> pyfloat \<Rightarrow> mt_state \<Rightarrow> bool" where
  "momentum_on_cooldown ms symb now st =
     (case map_of (mt_last_signal st) symb of None \<Rightarrow> False | Some t \<Rightarrow> now - t < mt_cooldown ms)"

text \<open>The smallest spread in basis points among the stored books of the symbol.\<close>

fun smallest_spread :: "string \<Rightarrow> pyfloat option \<Rightarrow> (string \<times> orderbook) list \<Rightarrow> pyfloat option" where
  "smallest_spread symb best [] = best"
| "smallest_spread symb best ((key, b) # rest) =
     smallest_spread symb
       (if \<not> ends_with key ('':'' @ symb) then best
        else let mid = book_mid b; spread = book_spread b
             in if mid \<le> Fin 0 \<or> spread < Fin 0 then best
                else let bps = spread / mid * Fin 10000 in
                     Some (case best of None \<Rightarrow> bps | Some x \<Rightarrow> py_min x bps)) rest"

definition spread_too_wide :: "mt_settings \<Rightarrow> market_store \<Rightarrow> string \<Rightarrow> bool" where
  "spread_too_wide ms store symb =
     (case smallest_spread symb None (ms_books store) of None \<Rightarrow> False | Some x \<Rightarrow> mt_max_spread ms < x)"

text \<open>The candles of a symbol come from \<open>fetch_ohlcv(symbol, timeframe, limit)\<close>.\<close>

type_synonym 'w ohlcv_source = "string \<Rightarrow> string \<Rightarrow> int \<Rightarrow> 'w \<Rightarrow> 'w \<times> pyval list res"

definition buy_signal :: "mt_settings \<Rightarrow> mt_decision \<Rightarrow> trade_signal" where
  "buy_signal ms d =
     \<lparr>s_symbol = md_symbol d, s_side = BUY,
      s_quantity = py_round (mt_target ms / py_max (md_price d) (Fin (1 / 10 ^ 12))) 8,
      s_type = mt_order_type ms, s_price = None, s_strategy_id = VStr ''momentum_trap_fortress'',
      s_reason = [Str (md_reason d), Txt '': close='', Flt (md_price d) 8, Txt '', confidence='',
                  Flt (md_confidence d) 2],
      s_confidence = Some (md_confidence d)\<rparr>"

definition publish_buy_signal ::
  "mt_settings \<Rightarrow> market_store \<Rightarrow> string \<Rightarrow> datetime \<Rightarrow> mt_decision \<Rightarrow> mt_state \<Rightarrow> mt_state res" where
  "publish_buy_signal ms store cid now d st =
     rbind (to_order (buy_signal ms d) cid now) (\<lambda>ord.
       Inr (st\<lparr>mt_published := mt_published st @
                 [\<lparr>or_payload = VDict (encode_order ord), or_marks = mark_prices store\<rparr>]\<rparr>))"

text \<open>The \<open>try\<close> block of \<open>_scan_symbol\<close>; an exception keeps what was done before it.\<close>

definition act_on_decision ::
  "mt_settings \<Rightarrow> market_store \<Rightarrow> string \<Rightarrow> datetime \<Rightarrow> pyfloat \<Rightarrow> string \<Rightarrow> mt_decision \<Rightarrow> mt_state \<Rightarrow> mt_state res" where
  "act_on_decision ms store cid now clock symb d st =
     (if \<not> md_buy d then Inr st
      else if (case md_key d of None \<Rightarrow> False | Some k \<Rightarrow> k \<noteq> [] \<and> k \<in> set (mt_keys st)) then Inr st
      else rbind (publish_buy_signal ms store cid now d st) (\<lambda>st1.
        let st2 = (case md_key d of
                     None \<Rightarrow> st1
                   | Some k \<Rightarrow> (if k = [] \<or> k \<in> set (mt_keys st1) then st1
                                else st1\<lparr>mt_keys := mt_keys st1 @ [k]\<rparr>))
        in Inr (st2\<lparr>mt_last_signal := dict_set symb clock (mt_last_signal st2),
                    mt_signals := mt_signals st2 + 1\<rparr>)))"

definition holds_position :: "ledger \<Rightarrow> string \<Rightarrow> bool" where
  "holds_position l symb =
     (case get_position l symb of None \<Rightarrow> False | Some p \<Rightarrow> Fin 0 < \<bar>p_quantity p\<bar>)"

definition scan_symbol ::
  "mt_settings \<Rightarrow> (pyval list \<Rightarrow> (nat \<times> candle) res) \<Rightarrow> 'w ohlcv_source option \<Rightarrow> bool \<Rightarrow> ledger \<Rightarrow>
   market_store \<Rightarrow> (nat \<Rightarrow> string) \<Rightarrow> datetime \<Rightarrow> pyfloat \<Rightarrow> string \<Rightarrow> mt_state \<times> 'w \<Rightarrow> mt_state \<times> 'w" where
  "scan_symbol ms table source active l store ids now clock symb sw =
     (case sw of (st, w) \<Rightarrow>
        if str_upper symb \<in> set (mt_blocklist ms)
        then (st\<lparr>mt_skip_blocklist := mt_skip_blocklist st + 1\<rparr>, w)
        else if \<not> active then (st, w)
        else if holds_position l symb then (st\<lparr>mt_skip_position := mt_skip_position st + 1\<rparr>, w)
        else if momentum_on_cooldown ms symb clock st
        then (st\<lparr>mt_skip_cooldown := mt_skip_cooldown st + 1\<rparr>, w)
        else if mt_require_mark ms \<and> map_of (mark_prices store) symb = None then (st, w)
        else if spread_too_wide ms store symb then (st\<lparr>mt_skip_spread := mt_skip_spread st + 1\<rparr>, w)
        else case source of
          None \<Rightarrow> (st\<lparr>mt_errors := mt_errors st + 1\<rparr>, w)
        | Some fetch \<Rightarrow>
            (case fetch symb (mt_timeframe ms) (mt_candle_limit ms) w of
               (w', r) \<Rightarrow>
                 (case rbind r (\<lambda>ohlcv. rbind (analyze (mt_cfg ms) table symb ohlcv) (\<lambda>d.
                         act_on_decision ms store (ids (mt_signals st)) now clock symb d st)) of
                    Inl e \<Rightarrow> (st\<lparr>mt_errors := mt_errors st + 1\<rparr>, w')
                  | Inr st' \<Rightarrow> (st', w'))))"

definition momentum_metrics :: "mt_settings \<Rightarrow> mt_state \<Rightarrow> (string \<times> pyval) list" where
  "momentum_metrics ms st =
     (let num = (\<lambda>k. VInt (int k)) in
      [(''enabled'', VBool (mt_enabled ms)), (''symbols'', VList (map VStr (mt_symbols ms))),
       (''timeframe'', VStr (mt_timeframe ms)), (''scans_completed'', num (mt_scans st)),
       (''scan_errors'', num (mt_errors st)), (''signals_published'', num (mt_signals st)),
       (''skipped_existing_position'', num (mt_skip_position st)),
       (''skipped_cooldown'', num (mt_skip_cooldown st)),
       (''skipped_blocklist'', num (mt_skip_blocklist st)), (''skipped_spread'', num (mt_skip_spread st)),
       (''processed_signal_keys'', num (length (mt_keys st)))])"

section \<open>What a scan may publish\<close>

lemma analyze_buy:
  assumes "analyze cfg table symb ohlcv = Inr d" "md_buy d"
  obtains n c k where "table ohlcv = Inr (n, c)" "should_buy cfg c" "md_symbol d = symb" "md_price d = c_close c"
    "md_key d = Some k" "k \<noteq> []" "md_confidence d = decision_confidence cfg c"
  using assms
  by (auto simp: analyze_def too_few_def rbind_Inr_iff signal_key_def split: if_splits)

lemma act_cases:
  assumes "act_on_decision ms store cid now clock symb d st = Inr st'" "md_key d = Some k" "k \<noteq> []"
  obtains (nothing) "st' = st"
  | (bought) req where "md_buy d" "k \<notin> set (mt_keys st)" "signal_validate (buy_signal ms d) = Inr ()"
      "mt_published st' = mt_published st @ [req]"
      "req = \<lparr>or_payload = VDict (encode_order (order_of (buy_signal ms d) cid now)), or_marks = mark_prices store\<rparr>"
      "mt_keys st' = mt_keys st @ [k]" "mt_signals st' = mt_signals st + 1"
      "mt_last_signal st' = dict_set symb clock (mt_last_signal st)"
proof (cases "md_buy d \<and> k \<notin> set (mt_keys st)")
  case False
  show thesis by (rule nothing) (use assms False in \<open>auto simp: act_on_decision_def split: if_splits\<close>)
next
  case True
  then have "rbind (publish_buy_signal ms store cid now d st) (\<lambda>st1.
        Inr ((if k \<in> set (mt_keys st1) then st1 else st1\<lparr>mt_keys := mt_keys st1 @ [k]\<rparr>)
          \<lparr>mt_last_signal := dict_set symb clock (mt_last_signal st1), mt_signals := mt_signals st1 + 1\<rparr>)) = Inr st'"
    using assms by (auto simp: act_on_decision_def Let_def rbind_Inr_iff split: if_splits)
  with True show thesis
    by (intro bought) (auto simp: publish_buy_signal_def to_order_eq rbind_Inr_iff)
qed

definition momentum_ok :: "mt_state \<Rightarrow> bool" where
  "momentum_ok st \<longleftrightarrow> distinct (mt_keys st) \<and> length (mt_keys st) = mt_signals st \<and>
     length (mt_published st) = mt_signals st"

lemma scan_cases:
  assumes "scan_symbol ms table source active l store ids now clock symb (st, w) = (st', w')"
  obtains (quiet) "mt_published st' = mt_published st" "mt_keys st' = mt_keys st" "mt_signals st' = mt_signals st"
  | (bought) d k req ohlcv where "active" "\<not> holds_position l symb" "\<not> momentum_on_cooldown ms symb clock st"
      "str_upper symb \<notin> set (mt_blocklist ms)" "\<not> spread_too_wide ms store symb"
      "analyze (mt_cfg ms) table symb ohlcv = Inr d" "md_buy d" "md_key d = Some k" "k \<notin> set (mt_keys st)"
      "signal_validate (buy_signal ms d) = Inr ()"
      "mt_published st' = mt_published st @ [req]"
      "req = \<lparr>or_payload = VDict (encode_order (order_of (buy_signal ms d) (ids (mt_signals st)) now)),
              or_marks = mark_prices store\<rparr>"
      "mt_keys st' = mt_keys st @ [k]" "mt_signals st' = mt_signals st + 1"
      "mt_last_signal st' = dict_set symb clock (mt_last_signal st)"
proof (cases "str_upper symb \<in> set (mt_blocklist ms) \<or> \<not> active \<or> holds_position l symb \<or>
    momentum_on_cooldown ms symb clock st \<or> (mt_require_mark ms \<and> map_of (mark_prices store) symb = None) \<or>
    spread_too_wide ms store symb \<or> source = None")
  case True
  then show ?thesis using assms by (intro quiet) (auto simp: scan_symbol_def split: if_splits)
next
  case False
  then obtain fetch where src: "source = Some fetch" by auto
  obtain w1 r where f: "fetch symb (mt_timeframe ms) (mt_candle_limit ms) w = (w1, r)" by fastforce
  have run: "(case rbind r (\<lambda>ohlcv. rbind (analyze (mt_cfg ms) table symb ohlcv) (\<lambda>d.
        act_on_decision ms store (ids (mt_signals st)) now clock symb d st)) of
      Inl e \<Rightarrow> (st\<lparr>mt_errors := mt_errors st + 1\<rparr>, w1) | Inr st' \<Rightarrow> (st', w1)) = (st', w')"
  proof -
    have "\<not> (mt_require_mark ms \<and> map_of (mark_prices store) symb = None)" using False by blast
    with assms False src f show ?thesis by (simp add: scan_symbol_def del: de_Morgan_conj)
  qed
  show ?thesis
  proof (cases "rbind r (\<lambda>ohlcv. rbind (analyze (mt_cfg ms) table symb ohlcv) (\<lambda>d.
        act_on_decision ms store (ids (mt_signals st)) now clock symb d st))")
    case (Inl e)
    with run show ?thesis by (intro quiet) auto
  next
    case (Inr s)
    then obtain ohlcv d where a: "analyze (mt_cfg ms) table symb ohlcv = Inr d"
      "act_on_decision ms store (ids (mt_signals st)) now clock symb d st = Inr st'"
      using run by (auto simp: rbind_Inr_iff)
    show ?thesis
    proof (cases "md_buy d")
      case False
      with a(2) show ?thesis by (intro quiet) (simp_all add: act_on_decision_def)
    next
      case True
      obtain n c k where k: "md_key d = Some k" "k \<noteq> []" using analyze_buy [OF a(1) True] by blast
      from a(2) k show ?thesis
      proof (cases rule: act_cases)
        case nothing
        then show ?thesis by (intro quiet) simp_all
      next
        case (bought req)
        then show ?thesis using \<open>\<not> (_ \<or> _)\<close> a(1) k(1) by (intro that(2)) auto
      qed
    qed
  qed
qed

text \<open>
  A scan publishes at most one request, and only a purchase that passed every guard: the kill switch
  is active, no position is held, the symbol is neither blocked nor cooling down, its spread is not too
  wide, the analyzer decided to buy, and the candle was not acted on before. The request decodes to a
  market purchase; a service configured with limit orders never publishes, because its signals carry no
  price.
\<close>

theorem momentum_scan_guarded:
  assumes "scan_symbol ms table source active l store ids now clock symb (st, w) = (st', w')"
    and "valid_datetime now" "\<forall>k. ids k \<noteq> []"
  shows "mt_published st' = mt_published st \<or>
    (\<exists>req d ohlcv. mt_published st' = mt_published st @ [req] \<and> active \<and> \<not> holds_position l symb \<and>
       \<not> momentum_on_cooldown ms symb clock st \<and> str_upper symb \<notin> set (mt_blocklist ms) \<and>
       \<not> spread_too_wide ms store symb \<and> analyze (mt_cfg ms) table symb ohlcv = Inr d \<and> md_buy d \<and>
       the (md_key d) \<notin> set (mt_keys st) \<and> the (md_key d) \<in> set (mt_keys st') \<and>
       map_of (mt_last_signal st') symb = Some clock \<and>
       mt_order_type ms = MARKET \<and>
       carries req (mark_prices store) (order_of (buy_signal ms d) (ids (mt_signals st)) now))"
  using assms(1)
proof (cases rule: scan_cases)
  case (bought d k req ohlcv)
  have "mt_order_type ms = MARKET"
    using bought(10) unfolding signal_validate_def check_all_ok
    by (cases "mt_order_type ms") (simp_all add: buy_signal_def)
  moreover have "carries req (mark_prices store) (order_of (buy_signal ms d) (ids (mt_signals st)) now)"
    unfolding bought(12) using assms(2,3) published_carries by blast
  ultimately show ?thesis using bought
    by (intro disjI2 exI [of _ req] exI [of _ d] exI [of _ ohlcv]) (simp add: dict_simps)
qed simp

text \<open>A scan as a step of a run: the outside world of each scan is part of the event.\<close>

record 'w scan =
  sc_table :: "pyval list \<Rightarrow> (nat \<times> candle) res"
  sc_source :: "'w ohlcv_source option"
  sc_active :: bool
  sc_ledger :: ledger
  sc_store :: market_store
  sc_now :: datetime
  sc_clock :: pyfloat
  sc_symbol :: string

definition scan_step :: "mt_settings \<Rightarrow> (nat \<Rightarrow> string) \<Rightarrow> mt_state \<times> 'w \<Rightarrow> 'w scan \<Rightarrow> (mt_state \<times> 'w) \<times> unit" where
  "scan_step ms ids sw e =
     (scan_symbol ms (sc_table e) (sc_source e) (sc_active e) (sc_ledger e) (sc_store e) ids (sc_now e)
        (sc_clock e) (sc_symbol e) sw, ())"

lemma momentum_ok_step:
  assumes "momentum_ok st" "scan_symbol ms table source active l store ids now clock symb (st, w) = (st', w')"
  shows "momentum_ok st'"
  using assms(2)
proof (cases rule: scan_cases)
  case quiet
  then show ?thesis using assms(1) by (simp add: momentum_ok_def)
next
  case (bought d k req ohlcv)
  then show ?thesis using assms(1) by (simp add: momentum_ok_def)
qed

interpretation momentum: event_machine "scan_step ms ids" "\<lambda>(st, w). momentum_ok st" "\<lambda>_. True" for ms ids
proof
  fix sw :: "mt_state \<times> 'b" and e :: "'b scan"
  assume "case sw of (st, w) \<Rightarrow> momentum_ok st"
  then show "case fst (scan_step ms ids sw e) of (st, w) \<Rightarrow> momentum_ok st"
    by (cases sw) (auto simp: scan_step_def intro: momentum_ok_step)
qed

text \<open>
  No candle is bought twice: over any sequence of scans, whatever the exchange, the ledger and the
  clocks do, the keys acted on are distinct and there is one for each published purchase.
\<close>

theorem momentum_one_order_per_candle:
  assumes "run_events (scan_step ms ids) (new_momentum_state, w) es = ((st, w'), outs)"
  shows "distinct (mt_keys st) \<and> length (mt_published st) = length (mt_keys st) \<and>
    mt_signals st = length (mt_published st)"
  using momentum.run_inv [of "(new_momentum_state, w)" es ms ids] assms
  by (simp add: momentum_ok_def new_momentum_state_def list_all_iff)

section \<open>Witnesses\<close>

text \<open>A candle that broke the support at 100 and closed above it with volume, in an upward trend.\<close>

definition trap_candle :: candle where
  "trap_candle =
     \<lparr>c_timestamp = Fin 900000, c_open = Fin 101, c_low = Fin 95, c_close = Fin 102, c_volume = Fin 30,
      c_support = Fin 100, c_avg_volume = Fin 10, c_ema_fast = Fin 101, c_ema_slow = Fin 100, c_rsi = Fin 55,
      c_macd = Fin 1, c_macd_signal = Fin 0, c_bb_mid = Fin 100, c_bb_upper = Fin 110,
      c_previous_close = Fin 101\<rparr>"

definition trap_settings :: mt_settings where
  "trap_settings =
     \<lparr>mt_symbols = [''A''], mt_target = Fin 102, mt_order_type = MARKET, mt_enabled = True, mt_timeframe = ''15m'',
      mt_candle_limit = 90, mt_cooldown = Fin 1800, mt_max_spread = Fin 20, mt_require_mark = False,
      mt_blocklist = [], mt_cfg = momentum_config (\<lambda>_. None)\<rparr>"

definition trap_table :: "pyval list \<Rightarrow> (nat \<times> candle) res" where
  "trap_table xs = Inr (length xs, trap_candle)"

lemma trap_buys:
  "should_buy (momentum_config (\<lambda>_. None)) trap_candle" "trap_core (momentum_config (\<lambda>_. None)) trap_candle"
  by (simp_all add: should_buy_def trend_confirmed_def trap_core_def support_broken_def support_reclaimed_def
      volume_spike_def wick_rejection_def rsi_ok_def not_extended_def body_size_def lower_wick_def
      momentum_config_def mt_float_env_def trap_candle_def)

lemma trap_analysis:
  "\<exists>d. analyze (momentum_config (\<lambda>_. None)) trap_table ''A'' (replicate 40 VNone) = Inr d \<and> md_buy d \<and>
     md_symbol d = ''A'' \<and> md_price d = Fin 102 \<and> md_confidence d = decision_confidence (momentum_config (\<lambda>_. None)) trap_candle \<and>
     (\<exists>k. md_key d = Some k \<and> k \<noteq> [])"
proof -
  have "mt_min_candles (momentum_config (\<lambda>_. None)) = 35" by (simp add: momentum_config_def)
  moreover have "c_timestamp trap_candle = Fin 900000" "c_close trap_candle = Fin 102"
    by (simp_all add: trap_candle_def)
  ultimately show ?thesis
    by (simp add: analyze_def trap_table_def trap_buys signal_key_def py_int_of_float_def)
qed

theorem momentum_decision_witness:
  "\<exists>d. analyze (momentum_config (\<lambda>_. None)) trap_table ''A'' (replicate 40 VNone) = Inr d \<and>
     Fin (62 / 100) \<le> md_confidence d \<and> md_confidence d \<le> Fin (95 / 100)"
proof -
  obtain d where d: "analyze (momentum_config (\<lambda>_. None)) trap_table ''A'' (replicate 40 VNone) = Inr d" "md_buy d"
    using trap_analysis by blast
  with momentum_decision [OF d(1)] show ?thesis by blast
qed

theorem momentum_scan_guarded_witness:
  "\<exists>st' w'. scan_symbol trap_settings trap_table (Some (\<lambda>_ _ _ w. (w, Inr (replicate 40 VNone)))) True new_ledger
      empty_store (\<lambda>_. ''id'') sample_time (Fin 0) ''A'' (new_momentum_state, ()) = (st', w') \<and>
     (mt_published st' = [] \<or> map_of (mt_last_signal st') ''A'' = Some (Fin 0))"
proof -
  obtain st' w' where run: "scan_symbol trap_settings trap_table (Some (\<lambda>_ _ _ w. (w, Inr (replicate 40 VNone))))
      True new_ledger empty_store (\<lambda>_. ''id'') sample_time (Fin 0) ''A'' (new_momentum_state, ()) = (st', w')"
    by (metis surj_pair)
  from momentum_scan_guarded [OF run sample_time_valid] run show ?thesis
    by (auto simp: new_momentum_state_def)
qed

text \<open>In that run the purchase is really published.\<close>

lemma trap_scan_publishes:
  "\<exists>st'. scan_symbol trap_settings trap_table (Some (\<lambda>_ _ _ w. (w, Inr (replicate 40 VNone)))) True new_ledger
      empty_store (\<lambda>_. ''id'') sample_time (Fin 0) ''A'' (new_momentum_state, ()) = (st', ()) \<and>
     length (mt_published st') = 1"
proof -
  obtain d k where d: "analyze (momentum_config (\<lambda>_. None)) trap_table ''A'' (replicate 40 VNone) = Inr d" "md_buy d"
    "md_symbol d = ''A''" "md_price d = Fin 102" "md_key d = Some k" "k \<noteq> []"
    "md_confidence d = decision_confidence (momentum_config (\<lambda>_. None)) trap_candle"
    using trap_analysis by blast
  have one: "round_half_even 100000000 = 100000000" using round_half_even_of_int [of 100000000] by simp
  have conf: "Fin 0 \<le> md_confidence d \<and> md_confidence d \<le> Fin 1"
    using trap_buys by (simp add: d(7) decision_confidence_def)
  have "signal_validate (buy_signal trap_settings d) = Inr ()"
    unfolding signal_validate_def check_all_ok
    using conf by (simp add: buy_signal_def trap_settings_def d one)
  then have "act_on_decision trap_settings empty_store ''id'' sample_time (Fin 0) ''A'' d new_momentum_state =
      Inr (new_momentum_state\<lparr>mt_published := [\<lparr>or_payload = VDict (encode_order
              (order_of (buy_signal trap_settings d) ''id'' sample_time)), or_marks = mark_prices empty_store\<rparr>],
            mt_keys := [k], mt_last_signal := [(''A'', Fin 0)], mt_signals := 1\<rparr>)"
    using d by (simp add: act_on_decision_def publish_buy_signal_def to_order_eq new_momentum_state_def Let_def)
  then show ?thesis using d(1)
    by (simp add: scan_symbol_def trap_settings_def new_momentum_state_def holds_position_def get_position_def
        new_ledger_def momentum_on_cooldown_def spread_too_wide_def empty_store_def)
qed

definition sample_scan :: "unit scan" where
  "sample_scan = \<lparr>sc_table = trap_table, sc_source = Some (\<lambda>_ _ _ w. (w, Inr (replicate 40 VNone))), sc_active = True,
     sc_ledger = new_ledger, sc_store = empty_store, sc_now = sample_time, sc_clock = Fin 0, sc_symbol = ''A''\<rparr>"

theorem momentum_one_order_per_candle_witness:
  "\<exists>st w' outs. run_events (scan_step trap_settings (\<lambda>_. ''id'')) (new_momentum_state, ()) [sample_scan, sample_scan] =
     ((st, w'), outs) \<and> distinct (mt_keys st)"
proof -
  obtain st w' outs where run: "run_events (scan_step trap_settings (\<lambda>_. ''id'')) (new_momentum_state, ())
      [sample_scan, sample_scan] = ((st, w'), outs)"
    by (metis surj_pair)
  with momentum_one_order_per_candle [OF run] show ?thesis by blast
qed

end
