(* ===== verification/Event_Bus.thy ===== *)
theory Event_Bus
  imports Prelude
begin

text \<open>
  The event bus (\<open>core/event_bus.py\<close>) and the life cycle of a service
  (\<open>microservices/base_service.py\<close>). A callback is a function on the world the services share; it
  returns the events it published and may raise. The dispatch loop is a coroutine with two points
  where other tasks run: before the test of its \<open>while\<close> and inside \<open>queue.get\<close>. One round of the
  loop is one call of \<open>bus_round\<close>; what other tasks publish lands in the queue between rounds.
\<close>

section \<open>State\<close>

type_synonym ('w, 'e) callback = "'e \<Rightarrow> 'w \<Rightarrow> 'w \<times> 'e list \<times> unit res"

datatype 'e item = Event 'e | Stop_Sentinel

text \<open>
  Where the loop of \<open>start\<close> stands: not running at all, about to test \<open>self.running\<close>, or blocked in
  \<open>queue.get()\<close>.
\<close>

datatype phase = Idle | Testing | Getting

record ('w, 'e) bus =
  b_subs :: "(string, ('w, 'e) callback list) pydict"
  b_queue :: "'e item list"
  b_running :: bool
  b_phase :: phase

definition new_bus :: "('w, 'e) bus" where
  "new_bus = \<lparr>b_subs = [], b_queue = [], b_running = False, b_phase = Idle\<rparr>"

section \<open>Operations\<close>

definition bus_subscribe :: "string \<Rightarrow> ('w, 'e) callback \<Rightarrow> ('w, 'e) bus \<Rightarrow> ('w, 'e) bus" where
  "bus_subscribe ty cb b = b\<lparr>b_subs := dict_set ty (dict_get (b_subs b) ty [] @ [cb]) (b_subs b)\<rparr>"

definition bus_publish :: "'e \<Rightarrow> ('w, 'e) bus \<Rightarrow> ('w, 'e) bus" where
  "bus_publish e b = b\<lparr>b_queue := b_queue b @ [Event e]\<rparr>"

definition bus_start :: "('w, 'e) bus \<Rightarrow> ('w, 'e) bus" where
  "bus_start b = (if b_running b then b else b\<lparr>b_running := True, b_phase := Testing\<rparr>)"

definition bus_stop :: "('w, 'e) bus \<Rightarrow> ('w, 'e) bus" where
  "bus_stop b =
     (if \<not> b_running b then b
      else b\<lparr>b_running := False, b_queue := b_queue b @ [Stop_Sentinel]\<rparr>)"

text \<open>
  The callbacks of one event, in the order of subscription. An exception is logged and the next
  callback is called; what a callback published before raising stays published.
\<close>

fun call_all :: "('w, 'e) callback list \<Rightarrow> 'e \<Rightarrow> 'w \<Rightarrow> 'w \<times> 'e list" where
  "call_all [] e w = (w, [])"
| "call_all (cb # cbs) e w =
     (case cb e w of (w1, out, _) \<Rightarrow> (case call_all cbs e w1 of (w2, outs) \<Rightarrow> (w2, out @ outs)))"

text \<open>\<open>etype\<close> reads \<open>event_type\<close>; an event without one is discarded.\<close>

definition dispatch ::
  "('e \<Rightarrow> string option) \<Rightarrow> (string, ('w, 'e) callback list) pydict \<Rightarrow> 'e \<Rightarrow> 'w \<Rightarrow> 'w \<times> 'e list" where
  "dispatch etype subs e w =
     (case etype e of
        None \<Rightarrow> (w, [])
      | Some ty \<Rightarrow> (if ty = [] then (w, []) else call_all (dict_get subs ty []) e w))"

definition loop_test :: "('w, 'e) bus \<Rightarrow> ('w, 'e) bus" where
  "loop_test b =
     (if b_phase b = Testing then b\<lparr>b_phase := (if b_running b then Getting else Idle)\<rparr> else b)"

definition loop_get :: "('e \<Rightarrow> string option) \<Rightarrow> ('w, 'e) bus \<times> 'w \<Rightarrow> ('w, 'e) bus \<times> 'w" where
  "loop_get etype bw =
     (case bw of (b, w) \<Rightarrow>
        if b_phase b \<noteq> Getting then (b, w)
        else case b_queue b of
          [] \<Rightarrow> (b, w)
        | Stop_Sentinel # q \<Rightarrow> (b\<lparr>b_queue := q, b_phase := Idle\<rparr>, w)
        | Event e # q \<Rightarrow>
            (case dispatch etype (b_subs b) e w of
               (w', outs) \<Rightarrow> (b\<lparr>b_queue := q @ map Event outs, b_phase := Testing\<rparr>, w')))"

definition bus_round :: "('e \<Rightarrow> string option) \<Rightarrow> ('w, 'e) bus \<times> 'w \<Rightarrow> ('w, 'e) bus \<times> 'w" where
  "bus_round etype bw = loop_get etype (loop_test (fst bw), snd bw)"

definition bus_rounds :: "('e \<Rightarrow> string option) \<Rightarrow> nat \<Rightarrow> ('w, 'e) bus \<times> 'w \<Rightarrow> ('w, 'e) bus \<times> 'w" where
  "bus_rounds etype n = bus_round etype ^^ n"

section \<open>Delivery\<close>

text \<open>What the subscribers should see: every event, in order, delivered to each callback.\<close>

fun deliver ::
  "('e \<Rightarrow> string option) \<Rightarrow> (string, ('w, 'e) callback list) pydict \<Rightarrow> 'e list \<Rightarrow> 'w \<Rightarrow> 'w \<times> 'e list" where
  "deliver etype subs [] w = (w, [])"
| "deliver etype subs (e # es) w =
     (case dispatch etype subs e w of (w1, out) \<Rightarrow>
        (case deliver etype subs es w1 of (w2, outs) \<Rightarrow> (w2, out @ outs)))"

definition looping :: "('w, 'e) bus \<Rightarrow> bool" where
  "looping b \<longleftrightarrow> b_running b \<and> b_phase b \<in> {Testing, Getting}"

lemma bus_round_event:
  assumes "looping b" "b_queue b = Event e # q" "dispatch etype (b_subs b) e w = (w1, out)"
  shows "bus_round etype (b, w) = (b\<lparr>b_queue := q @ map Event out, b_phase := Testing\<rparr>, w1)"
  using assms by (auto simp: bus_round_def loop_test_def loop_get_def looping_def)

lemma bus_rounds_Suc: "bus_rounds etype (Suc n) bw = bus_rounds etype n (bus_round etype bw)"
  by (simp add: bus_rounds_def funpow_swap1)

lemma bus_rounds_0 [simp]: "bus_rounds etype 0 bw = bw"
  by (simp add: bus_rounds_def)

lemma bus_rounds_add: "bus_rounds etype (m + n) bw = bus_rounds etype n (bus_rounds etype m bw)"
  by (simp add: bus_rounds_def funpow_add add.commute [of m])

lemma rounds_deliver:
  assumes "looping b" "b_queue b = map Event es @ q" "deliver etype (b_subs b) es w = (w', outs)"
    and "bus_rounds etype (length es) (b, w) = (b', w1)"
  shows "w1 = w' \<and> b_queue b' = q @ map Event outs \<and> looping b' \<and> b_subs b' = b_subs b \<and>
    (es \<noteq> [] \<longrightarrow> b_phase b' = Testing)"
  using assms
proof (induction es arbitrary: b w q w' outs)
  case (Cons e es)
  obtain w2 out where d: "dispatch etype (b_subs b) e w = (w2, out)" by fastforce
  obtain w3 outs' where r: "deliver etype (b_subs b) es w2 = (w3, outs')" by fastforce
  define b2 where "b2 = b\<lparr>b_queue := map Event es @ (q @ map Event out), b_phase := Testing\<rparr>"
  have step: "bus_round etype (b, w) = (b2, w2)"
    using bus_round_event [OF Cons.prems(1) _ d, of "map Event es @ q"] Cons.prems(2) by (simp add: b2_def)
  have "w1 = w3 \<and> b_queue b' = (q @ map Event out) @ map Event outs' \<and> looping b' \<and> b_subs b' = b_subs b2 \<and>
      (es \<noteq> [] \<longrightarrow> b_phase b' = Testing)"
    by (rule Cons.IH [where b = b2 and w = w2])
      (use Cons.prems r step in \<open>auto simp: b2_def looping_def bus_rounds_Suc\<close>)
  moreover have "b_phase b' = Testing" if "es = []"
    using that Cons.prems(4) step by (auto simp: bus_rounds_Suc b2_def)
  ultimately show ?case using Cons.prems(3) d r by (auto simp: b2_def)
qed auto

text \<open>
  The same, said without the bus: from the list of registrations, in the order they were made, the
  calls that are due for a list of events are one flat list, and making them one after the other, each
  in the world the previous one left, gives the world and what was published. An event without a type,
  or with an empty one, makes no call; that a callback raised changes nothing.
\<close>

definition subscribe_all :: "(string \<times> ('w, 'e) callback) list \<Rightarrow> ('w, 'e) bus \<Rightarrow> ('w, 'e) bus" where
  "subscribe_all regs b = foldl (\<lambda>b r. bus_subscribe (fst r) (snd r) b) b regs"

definition due_calls ::
  "('e \<Rightarrow> string option) \<Rightarrow> (string \<times> ('w, 'e) callback) list \<Rightarrow> 'e list \<Rightarrow> (('w, 'e) callback \<times> 'e) list" where
  "due_calls etype regs es =
     concat (map (\<lambda>e. map (\<lambda>r. (snd r, e))
       (filter (\<lambda>r. etype e = Some (fst r) \<and> fst r \<noteq> []) regs)) es)"

definition make_calls :: "(('w, 'e) callback \<times> 'e) list \<Rightarrow> 'w \<Rightarrow> 'w \<times> 'e list" where
  "make_calls calls w =
     foldl (\<lambda>(w, outs) (cb, e). case cb e w of (w', out, _) \<Rightarrow> (w', outs @ out)) (w, []) calls"

lemma make_calls_acc:
  "foldl (\<lambda>(w, outs) (cb, e). case cb e w of (w', out, _) \<Rightarrow> (w', outs @ out)) (w, acc) calls =
     (fst (make_calls calls w), acc @ snd (make_calls calls w))"
proof (induction calls arbitrary: w acc)
  case (Cons c cs)
  obtain cb e where c: "c = (cb, e)" by fastforce
  obtain w1 out r where run: "cb e w = (w1, out, r)" by (metis prod_cases3)
  show ?case using Cons.IH [of w1 "acc @ out"] Cons.IH [of w1 out] by (simp add: make_calls_def c run)
qed (simp add: make_calls_def)

lemma make_calls_simps [simp]:
  "make_calls [] w = (w, [])"
  "make_calls ((cb, e) # cs) w =
     (case cb e w of (w1, out, _) \<Rightarrow> (fst (make_calls cs w1), out @ snd (make_calls cs w1)))"
proof -
  show "make_calls [] w = (w, [])" by (simp add: make_calls_def)
  obtain w1 out r where run: "cb e w = (w1, out, r)" by (metis prod_cases3)
  have "make_calls ((cb, e) # cs) w =
      foldl (\<lambda>(w, outs) (cb, e). case cb e w of (w', out, _) \<Rightarrow> (w', outs @ out)) (w1, out) cs"
    by (simp add: make_calls_def run)
  then show "make_calls ((cb, e) # cs) w =
     (case cb e w of (w1, out, _) \<Rightarrow> (fst (make_calls cs w1), out @ snd (make_calls cs w1)))"
    by (simp add: run make_calls_acc)
qed

lemma make_calls_append:
  "make_calls (cs @ ds) w =
     (fst (make_calls ds (fst (make_calls cs w))), snd (make_calls cs w) @ snd (make_calls ds (fst (make_calls cs w))))"
  by (induction cs arbitrary: w) (auto split: prod.splits)

lemma call_all_calls: "call_all cbs e w = make_calls (map (\<lambda>cb. (cb, e)) cbs) w"
  by (induction cbs arbitrary: w) (auto split: prod.splits)

lemma subscribe_all_subs:
  "dict_get (b_subs (subscribe_all regs b)) ty [] =
     dict_get (b_subs b) ty [] @ map snd (filter (\<lambda>r. fst r = ty) regs)"
  by (induction regs arbitrary: b) (auto simp: subscribe_all_def bus_subscribe_def dict_simps)

lemma dispatch_calls:
  assumes "subs = b_subs (subscribe_all regs new_bus)"
  shows "dispatch etype subs e w = make_calls (due_calls etype regs [e]) w"
proof (cases "etype e")
  case (Some ty)
  have "dict_get subs ty [] = map snd (filter (\<lambda>r. fst r = ty) regs)"
    using subscribe_all_subs [of regs new_bus ty] by (simp add: assms new_bus_def dict_get_def)
  moreover have "filter (\<lambda>r. ty = fst r \<and> fst r \<noteq> []) regs = (if ty = [] then [] else filter (\<lambda>r. fst r = ty) regs)"
    by (induction regs) auto
  ultimately show ?thesis by (simp add: dispatch_def due_calls_def Some call_all_calls comp_def)
qed (simp add: dispatch_def due_calls_def)

lemma deliver_calls:
  assumes "subs = b_subs (subscribe_all regs new_bus)"
  shows "deliver etype subs es w = make_calls (due_calls etype regs es) w"
proof (induction es arbitrary: w)
  case (Cons e es)
  have "due_calls etype regs (e # es) = due_calls etype regs [e] @ due_calls etype regs es"
    by (simp add: due_calls_def)
  then show ?case by (simp add: Cons.IH dispatch_calls [OF assms] make_calls_append split: prod.splits)
qed (simp add: due_calls_def)

text \<open>
  C21. A running bus loses nothing and keeps the order. On a bus whose callbacks were registered by
  \<open>subscribe\<close> in the order \<open>regs\<close>, as many rounds as there are queued events make exactly the calls due for
  these events: event by event, first published first, and for each event every callback registered
  for its type, in the order of registration, whether or not an earlier one raised. What the callbacks
  published in the meantime is queued, in that order, behind what other tasks had queued, and the bus
  keeps running.
\<close>

theorem bus_delivers_in_order:
  assumes "looping b" "b_queue b = map Event es @ q" "b_subs b = b_subs (subscribe_all regs new_bus)"
  shows "\<exists>b'. bus_rounds etype (length es) (b, w) = (b', fst (make_calls (due_calls etype regs es) w)) \<and>
    looping b' \<and> b_queue b' = q @ map Event (snd (make_calls (due_calls etype regs es) w)) \<and> b_subs b' = b_subs b"
proof -
  obtain b' w1 where "bus_rounds etype (length es) (b, w) = (b', w1)" by fastforce
  with rounds_deliver [OF assms(1,2) _ this, of "fst (make_calls (due_calls etype regs es) w)"
      "snd (make_calls (due_calls etype regs es) w)"]
  show ?thesis by (simp add: deliver_calls [OF assms(3)])
qed

text \<open>A callback that never raises, whatever the given one does.\<close>

definition guarded :: "('w, 'e) callback \<Rightarrow> ('w, 'e) callback" where
  "guarded cb e w = (case cb e w of (w', out, _) \<Rightarrow> (w', out, Inr ()))"

lemma call_all_guarded: "call_all (map guarded cbs) e w = call_all cbs e w"
  by (induction cbs arbitrary: w) (auto simp: guarded_def split: prod.splits)

lemma dispatch_guarded:
  "dispatch etype (map (\<lambda>(ty, cbs). (ty, map guarded cbs)) subs) e w = dispatch etype subs e w"
proof -
  have "dict_get (map (\<lambda>(ty, cbs). (ty, map guarded cbs)) subs) ty [] = map guarded (dict_get subs ty [])" for ty
    by (induction subs) (auto simp: dict_get_def)
  then show ?thesis by (simp add: dispatch_def call_all_guarded split: option.splits)
qed

lemma deliver_guarded:
  "deliver etype (map (\<lambda>(ty, cbs). (ty, map guarded cbs)) subs) es w = deliver etype subs es w"
  by (induction es arbitrary: w) (auto simp: dispatch_guarded split: prod.splits)

text \<open>
  A raising callback is isolated: the bus behaves as if it had returned. The other callbacks of
  the event and all later events are delivered, from the same states of the world.
\<close>

theorem raising_callback_isolated:
  assumes "looping b" "b_queue b = map Event es"
  shows "snd (bus_rounds etype (length es) (b, w)) =
    snd (bus_rounds etype (length es) (b\<lparr>b_subs := map (\<lambda>(ty, cbs). (ty, map guarded cbs)) (b_subs b)\<rparr>, w))"
proof -
  obtain w' outs where d: "deliver etype (b_subs b) es w = (w', outs)" by fastforce
  obtain b1 w1 where r1: "bus_rounds etype (length es) (b, w) = (b1, w1)" by fastforce
  let ?c = "b\<lparr>b_subs := map (\<lambda>(ty, cbs). (ty, map guarded cbs)) (b_subs b)\<rparr>"
  obtain b2 w2 where r2: "bus_rounds etype (length es) (?c, w) = (b2, w2)" by fastforce
  have "w1 = w'" using rounds_deliver [OF assms(1) _ d r1, of "[]"] assms(2) by simp
  moreover have "w2 = w'"
    using rounds_deliver [of ?c es "[]" etype w w' outs b2 w2] assms d r2 deliver_guarded [of etype "b_subs b" es w]
    by (simp add: looping_def)
  ultimately show ?thesis by (simp add: r1 r2)
qed

section \<open>Stopping\<close>

lemma rounds_idle: "b_phase b = Idle \<Longrightarrow> bus_rounds etype n (b, w) = (b, w)"
  by (induction n) (simp_all add: bus_rounds_Suc bus_round_def loop_test_def loop_get_def)

text \<open>
  A bus that waits with an empty queue stops cleanly: the sentinel wakes it, nothing is left
  behind, and it can be started again.
\<close>

theorem stop_when_drained:
  assumes "b_running b" "b_phase b = Getting" "b_queue b = []"
  shows "bus_rounds etype (Suc n) (bus_stop b, w) =
    (b\<lparr>b_running := False, b_phase := Idle\<rparr>, w) \<and>
    looping (bus_start (fst (bus_rounds etype (Suc n) (bus_stop b, w))))"
proof -
  have "bus_round etype (bus_stop b, w) = (b\<lparr>b_running := False, b_phase := Idle\<rparr>, w)"
    using assms by (simp add: bus_stop_def bus_round_def loop_test_def loop_get_def)
  then show ?thesis by (simp add: bus_rounds_Suc rounds_idle bus_start_def looping_def)
qed

text \<open>
  Stopping a bus with queued events drops them: only the event the loop is already waiting for is
  delivered. The sentinel stays in the queue behind the others, so that a bus that is started again
  delivers the old events, meets it and ends with its flag still set, after which starting does nothing.
\<close>

theorem stop_drops_queued:
  assumes "b_running b" "b_phase b = Getting" "b_queue b = Event e # map Event es"
    and "dispatch etype (b_subs b) e w = (w1, out)" "deliver etype (b_subs b) es w1 = (w2, out2)"
  shows "\<exists>b1 b2. bus_rounds etype (Suc (Suc n)) (bus_stop b, w) = (b1, w1) \<and>
      b_phase b1 = Idle \<and> b_queue b1 = map Event es @ Stop_Sentinel # map Event out \<and>
    bus_rounds etype (Suc (length es + m)) (bus_start b1, w1) = (b2, w2) \<and>
      b_phase b2 = Idle \<and> bus_start b2 = b2 \<and> b_queue b2 = map Event (out @ out2)"
proof -
  define b0 where "b0 = b\<lparr>b_running := False, b_queue := map Event es @ Stop_Sentinel # map Event out\<rparr>"
  let ?b1 = "b0\<lparr>b_phase := Idle\<rparr>"
  have "bus_round etype (bus_stop b, w) = (b0\<lparr>b_phase := Testing\<rparr>, w1)"
    using assms(1-4) by (simp add: bus_stop_def bus_round_def loop_test_def loop_get_def b0_def)
  moreover have "bus_round etype (b0\<lparr>b_phase := Testing\<rparr>, w1) = (?b1, w1)"
    by (simp add: bus_round_def loop_test_def loop_get_def b0_def)
  ultimately have first: "bus_rounds etype (Suc (Suc n)) (bus_stop b, w) = (?b1, w1)"
    by (simp add: bus_rounds_Suc rounds_idle)
  let ?s = "bus_start ?b1"
  have s: "looping ?s" "b_queue ?s = map Event es @ (Stop_Sentinel # map Event out)" "b_subs ?s = b_subs b"
    by (simp_all add: bus_start_def b0_def looping_def)
  obtain b3 w3 where r: "bus_rounds etype (length es) (?s, w1) = (b3, w3)" by fastforce
  have b3: "w3 = w2" "b_queue b3 = Stop_Sentinel # map Event (out @ out2)" "looping b3"
    using rounds_deliver [OF s(1,2) _ r, of w2 out2] assms(5) s(3) by simp_all
  let ?b2 = "b3\<lparr>b_queue := map Event (out @ out2), b_phase := Idle\<rparr>"
  have "bus_round etype (b3, w2) = (?b2, w2)"
    using b3(2,3) by (auto simp: bus_round_def loop_test_def loop_get_def looping_def)
  then have "bus_rounds etype (Suc (length es + m)) (?s, w1) = (?b2, w2)"
    using bus_rounds_add [of etype "length es" "Suc m" "(?s, w1)"] r b3(1)
    by (simp add: bus_rounds_Suc rounds_idle)
  moreover have "bus_start ?b2 = ?b2" using b3(3) by (simp add: bus_start_def looping_def)
  ultimately show ?thesis
    using first by (intro exI [of _ ?b1] exI [of _ ?b2]) (simp add: b0_def)
qed

section \<open>Services\<close>

text \<open>
  \<open>BaseService\<close>: \<open>prepare\<close> and \<open>stop\<close> run the hook of the service, which may raise; the hooks are
  arguments. The clock readings are those of \<open>time.time\<close>.
\<close>

record service =
  sv_name :: string
  sv_running :: bool
  sv_started :: "pyfloat option"
  sv_heartbeat :: "pyfloat option"
  sv_prepared :: bool

definition new_service :: "string \<Rightarrow> service" where
  "new_service name =
     \<lparr>sv_name = name, sv_running = False, sv_started = None, sv_heartbeat = None, sv_prepared = False\<rparr>"

definition sv_prepare :: "pyfloat \<Rightarrow> ('w \<Rightarrow> 'w \<times> unit res) \<Rightarrow> service \<times> 'w \<Rightarrow> (service \<times> 'w) \<times> unit res" where
  "sv_prepare now on_start sw =
     (case sw of (s, w) \<Rightarrow>
        if sv_prepared s then ((s, w), Inr ())
        else (let s1 = s\<lparr>sv_running := True, sv_started := Some now, sv_heartbeat := Some now\<rparr> in
              case on_start w of
                (w', Inl e) \<Rightarrow> ((s1, w'), Inl e)
              | (w', Inr _) \<Rightarrow> ((s1\<lparr>sv_prepared := True\<rparr>, w'), Inr ())))"

definition sv_stop :: "('w \<Rightarrow> 'w \<times> unit res) \<Rightarrow> service \<times> 'w \<Rightarrow> (service \<times> 'w) \<times> unit res" where
  "sv_stop on_stop sw =
     (case sw of (s, w) \<Rightarrow>
        if \<not> sv_running s then ((s, w), Inr ())
        else (case on_stop w of (w', r) \<Rightarrow> ((s\<lparr>sv_running := False\<rparr>, w'), r)))"

definition sv_heartbeat_at :: "pyfloat \<Rightarrow> service \<Rightarrow> service" where
  "sv_heartbeat_at now s = s\<lparr>sv_heartbeat := Some now\<rparr>"

definition sv_health :: "service \<Rightarrow> (string \<times> pyval) list" where
  "sv_health s =
     (let opt = (\<lambda>x. case x of None \<Rightarrow> VNone | Some t \<Rightarrow> VFloat t) in
      [(''name'', VStr (sv_name s)), (''running'', VBool (sv_running s)), (''prepared'', VBool (sv_prepared s)),
       (''started_at'', opt (sv_started s)), (''last_heartbeat'', opt (sv_heartbeat s))])"

text \<open>A prepared service that was stopped stays prepared, so preparing it again neither runs its hook nor
  marks it as running.\<close>

lemma stopped_service_stays_stopped:
  assumes "sv_prepared s" "sv_stop on_stop (s, w) = ((s1, w1), r)"
  shows "\<not> sv_running s1 \<and> sv_prepare now on_start (s1, w1) = ((s1, w1), Inr ())"
  using assms by (auto simp: sv_stop_def sv_prepare_def split: if_splits prod.splits)

section \<open>Witnesses\<close>

definition recording :: "(nat list, nat) callback" where
  "recording e w = (w @ [e], [], Inr ())"

definition raising :: "(nat list, nat) callback" where
  "raising e w = (w, [], Inl (RuntimeError (text_msg ''no'')))"

definition sample_bus :: "nat item list \<Rightarrow> (nat list, nat) bus" where
  "sample_bus q = \<lparr>b_subs = [(''T'', [raising, recording])], b_queue = q, b_running = True, b_phase = Getting\<rparr>"

lemmas sample_bus_simps = sample_bus_def recording_def raising_def dispatch_def dict_simps

theorem bus_delivers_in_order_witness:
  "\<exists>b'. bus_rounds (\<lambda>_. Some ''T'') 2 (sample_bus [Event 7, Event 8], []) = (b', [7, 8]) \<and> b_queue b' = []"
proof -
  have "b_subs (sample_bus q) = b_subs (subscribe_all [(''T'', raising), (''T'', recording)] new_bus)" for q
    by (simp add: sample_bus_def subscribe_all_def bus_subscribe_def new_bus_def dict_simps)
  from bus_delivers_in_order [OF _ _ this, of "[Event 7, Event 8]" "[7, 8]" "[]" "\<lambda>_. Some ''T''" "[]"]
  show ?thesis
    by (auto simp: sample_bus_simps looping_def numeral_2_eq_2 due_calls_def)
qed

theorem raising_callback_isolated_witness:
  "snd (bus_rounds (\<lambda>_. Some ''T'') 2 (sample_bus [Event 7, Event 8], [])) =
   snd (bus_rounds (\<lambda>_. Some ''T'') 2
     ((sample_bus [Event 7, Event 8])\<lparr>b_subs := [(''T'', [guarded raising, guarded recording])]\<rparr>, []))"
  using raising_callback_isolated [of "sample_bus [Event 7, Event 8]" "[7, 8]" "\<lambda>_. Some ''T''" "[]"]
  by (simp add: sample_bus_def looping_def numeral_2_eq_2)

theorem stop_when_drained_witness:
  "fst (bus_rounds (\<lambda>_. Some ''T'') 1 (bus_stop (sample_bus []), [])) =
     (sample_bus [])\<lparr>b_running := False, b_phase := Idle\<rparr>"
  using stop_when_drained [of "sample_bus []" "\<lambda>_. Some ''T''" 0 "[]"] by (simp add: sample_bus_def)

theorem stop_drops_queued_witness:
  "\<exists>b1. bus_rounds (\<lambda>_. Some ''T'') 2 (bus_stop (sample_bus [Event 7, Event 8]), []) = (b1, [7]) \<and>
     b_queue b1 = [Event 8, Stop_Sentinel]"
  using stop_drops_queued [of "sample_bus [Event 7, Event 8]" 7 "[8]" "\<lambda>_. Some ''T''" "[]" "[7]" "[]" "[7, 8]" "[]" 0 0]
  by (auto simp: sample_bus_simps numeral_2_eq_2)

end
