(* ===== verification/Orchestration.thy ===== *)
theory Orchestration
  imports Event_Bus Kill_Switch Persistence Market_Data
begin

text \<open>
  Starting, stopping and watching the services: the tasks (\<open>core/task_supervisor.py\<close>), the orchestrator
  (\<open>microservices/orchestrator.py\<close>), the health report (\<open>monitoring/runtime_health.py\<close>,
  \<open>microservices/health_server_service.py\<close>) and the counters (\<open>microservices/monitoring_service.py\<close>,
  \<open>monitoring/runtime_metrics.py\<close>). What a task does between two operations of the orchestrator is an
  event that ends it; the hooks of the services act on a world they share, the bus among it.
\<close>

section \<open>Tasks\<close>

datatype task_state = Pending | Returned | Raised py_exc | Cancelled

text \<open>
  Every task the supervisor created, in order, and its dictionary, which knows the last task of a name.
  Tasks created elsewhere are none of its: the polling source (\<open>feeds/exchange_polling_source.py\<close>) starts
  its fetches by \<open>asyncio.create_task\<close> itself.
\<close>

record supervisor =
  su_tasks :: "task_state list"
  su_names :: "(string, nat) pydict"

definition new_supervisor :: supervisor where
  "new_supervisor = \<lparr>su_tasks = [], su_names = []\<rparr>"

definition create_task :: "string \<Rightarrow> supervisor \<Rightarrow> supervisor" where
  "create_task name s =
     s\<lparr>su_tasks := su_tasks s @ [Pending], su_names := dict_set name (length (su_tasks s)) (su_names s)\<rparr>"

text \<open>A task ends; its exception is only logged. A task that is done does not change any more.\<close>

definition end_task :: "nat \<Rightarrow> unit res \<Rightarrow> supervisor \<Rightarrow> supervisor" where
  "end_task i r s =
     (if i < length (su_tasks s) \<and> su_tasks s ! i = Pending
      then s\<lparr>su_tasks := (su_tasks s)[i := (case r of Inl e \<Rightarrow> Raised e | Inr _ \<Rightarrow> Returned)]\<rparr>
      else s)"

definition cancel_task :: "supervisor \<Rightarrow> nat \<Rightarrow> supervisor" where
  "cancel_task s i =
     (if i < length (su_tasks s) \<and> su_tasks s ! i = Pending
      then s\<lparr>su_tasks := (su_tasks s)[i := Cancelled]\<rparr> else s)"

definition shutdown_tasks :: "supervisor \<Rightarrow> supervisor" where
  "shutdown_tasks s = foldl cancel_task s (map snd (su_names s))"

section \<open>The orchestrator\<close>

record 'w managed =
  mv_service :: service
  mv_on_start :: "'w \<Rightarrow> 'w \<times> unit res"
  mv_on_stop :: "'w \<Rightarrow> 'w \<times> unit res"

record 'w orchestrator =
  oc_services :: "'w managed list"
  oc_supervisor :: supervisor
  oc_running :: bool

definition new_orchestrator :: "'w managed list \<Rightarrow> 'w orchestrator" where
  "new_orchestrator services = \<lparr>oc_services = services, oc_supervisor = new_supervisor, oc_running = False\<rparr>"

text \<open>The services one after the other; an exception leaves the ones behind it as they are.\<close>

fun prepare_all :: "pyfloat \<Rightarrow> 'w managed list \<Rightarrow> 'w \<Rightarrow> 'w managed list \<times> 'w \<times> unit res" where
  "prepare_all now [] w = ([], w, Inr ())"
| "prepare_all now (m # ms) w =
     (case sv_prepare now (mv_on_start m) (mv_service m, w) of
        ((s, w1), Inl e) \<Rightarrow> (m\<lparr>mv_service := s\<rparr> # ms, w1, Inl e)
      | ((s, w1), Inr _) \<Rightarrow>
          (case prepare_all now ms w1 of (ms', w2, r) \<Rightarrow> (m\<lparr>mv_service := s\<rparr> # ms', w2, r)))"

fun stop_all :: "'w managed list \<Rightarrow> 'w \<Rightarrow> 'w managed list \<times> 'w \<times> unit res" where
  "stop_all [] w = ([], w, Inr ())"
| "stop_all (m # ms) w =
     (case sv_stop (mv_on_stop m) (mv_service m, w) of
        ((s, w1), Inl e) \<Rightarrow> (m\<lparr>mv_service := s\<rparr> # ms, w1, Inl e)
      | ((s, w1), Inr _) \<Rightarrow>
          (case stop_all ms w1 of (ms', w2, r) \<Rightarrow> (m\<lparr>mv_service := s\<rparr> # ms', w2, r)))"

abbreviation mv_name :: "'w managed \<Rightarrow> string" where
  "mv_name m \<equiv> sv_name (mv_service m)"

definition oc_start :: "pyfloat \<Rightarrow> 'w orchestrator \<Rightarrow> 'w \<Rightarrow> 'w orchestrator \<times> 'w \<times> unit res" where
  "oc_start now oc w =
     (if oc_running oc then (oc, w, Inr ())
      else let bus_task = create_task ''event-bus'' (oc_supervisor oc) in
        case prepare_all now (oc_services oc) w of
          (ms, w1, Inl e) \<Rightarrow> (oc\<lparr>oc_running := True, oc_services := ms, oc_supervisor := bus_task\<rparr>, w1, Inl e)
        | (ms, w1, Inr _) \<Rightarrow>
            (oc\<lparr>oc_running := True, oc_services := ms,
                oc_supervisor := foldl (\<lambda>s m. create_task (mv_name m) s) bus_task ms\<rparr>, w1, Inr ()))"

text \<open>\<open>stop_bus\<close> is \<open>event_bus.stop()\<close>.\<close>

definition oc_stop :: "('w \<Rightarrow> 'w) \<Rightarrow> 'w orchestrator \<Rightarrow> 'w \<Rightarrow> 'w orchestrator \<times> 'w \<times> unit res" where
  "oc_stop stop_bus oc w =
     (if \<not> oc_running oc then (oc, w, Inr ())
      else case stop_all (oc_services oc) w of
        (ms, w1, Inl e) \<Rightarrow> (oc\<lparr>oc_running := False, oc_services := ms\<rparr>, w1, Inl e)
      | (ms, w1, Inr _) \<Rightarrow>
          (oc\<lparr>oc_running := False, oc_services := ms, oc_supervisor := shutdown_tasks (oc_supervisor oc)\<rparr>,
           stop_bus w1, Inr ()))"

definition oc_health :: "'w orchestrator \<Rightarrow> payload" where
  "oc_health oc =
     [(''running'', VBool (oc_running oc)),
      (''services'', VDict (foldl (\<lambda>d m. dict_set (mv_name m) (VDict (sv_health (mv_service m))) d) [] (oc_services oc)))]"

section \<open>The health report\<close>

definition health_status :: "'w orchestrator option \<Rightarrow> market_store \<Rightarrow> kill_switch \<Rightarrow> bool \<Rightarrow> pyfloat \<Rightarrow> datetime \<Rightarrow> payload" where
  "health_status oc store kill up clock now =
     (let orch = (case oc of None \<Rightarrow> [(''running'', VBool False), (''services'', VDict [])] | Some oc \<Rightarrow> oc_health oc);
          stale = stale_keys clock store;
          healthy = truthy (get_val orch ''running'') \<and> up \<and> \<not> truthy (dict_get (ks_status kill) ''triggered'' (VBool False))
      in [(''healthy'', VBool healthy), (''captured_at'', VStr (isoformat now)), (''runtime'', VDict orch),
          (''database'', VDict [(''up'', VBool up)]),
          (''market_data'', VDict [(''stale_keys'', VList (map VStr stale)), (''stale_count'', VInt (int (length stale)))]),
          (''kill_switch'', VDict (ks_status kill))])"

text \<open>One turn of the loop of the health service: the status is stored; a failure ends its task.\<close>

definition health_turn :: "'w orchestrator option \<Rightarrow> market_store \<Rightarrow> kill_switch \<Rightarrow> bool \<Rightarrow> pyfloat \<Rightarrow> datetime \<Rightarrow> database \<Rightarrow> database res" where
  "health_turn oc store kill up clock now db = db_record_health (health_status oc store kill up clock now) db"

definition healthy :: "payload \<Rightarrow> bool" where
  "healthy status \<longleftrightarrow> dict_get status ''healthy'' (VBool False) = VBool True"

section \<open>Counters\<close>

record runtime_metrics =
  rm_ticks :: nat
  rm_books :: nat
  rm_reports :: nat
  rm_risks :: "(string, nat) pydict"
  rm_stale :: int
  rm_triggered :: nat
  rm_database_up :: nat
  rm_server :: bool

definition new_metrics :: runtime_metrics where
  "new_metrics = \<lparr>rm_ticks = 0, rm_books = 0, rm_reports = 0, rm_risks = [], rm_stale = 0, rm_triggered = 0,
     rm_database_up = 0, rm_server = False\<rparr>"

text \<open>\<open>serve\<close> is \<open>start_http_server\<close>, which raises when the port is taken.\<close>

definition start_server :: "unit res \<Rightarrow> runtime_metrics \<Rightarrow> runtime_metrics res" where
  "start_server serve m = (if rm_server m then Inr m else rbind serve (\<lambda>_. Inr (m\<lparr>rm_server := True\<rparr>)))"

definition record_risk_event :: "string \<Rightarrow> runtime_metrics \<Rightarrow> runtime_metrics" where
  "record_risk_event severity m =
     m\<lparr>rm_risks := dict_set (str_upper severity) (dict_get (rm_risks m) (str_upper severity) 0 + 1) (rm_risks m)\<rparr>"

datatype seen_event = Saw_Tick | Saw_Book | Saw_Report | Saw_Risk string

definition on_seen :: "seen_event \<Rightarrow> runtime_metrics \<Rightarrow> runtime_metrics" where
  "on_seen e m =
     (case e of
        Saw_Tick \<Rightarrow> m\<lparr>rm_ticks := rm_ticks m + 1\<rparr>
      | Saw_Book \<Rightarrow> m\<lparr>rm_books := rm_books m + 1\<rparr>
      | Saw_Report \<Rightarrow> m\<lparr>rm_reports := rm_reports m + 1\<rparr>
      | Saw_Risk severity \<Rightarrow> record_risk_event severity m)"

definition monitoring_turn :: "market_store \<Rightarrow> kill_switch \<Rightarrow> bool \<Rightarrow> pyfloat \<Rightarrow> runtime_metrics \<Rightarrow> runtime_metrics" where
  "monitoring_turn store kill up clock m =
     m\<lparr>rm_stale := max 0 (int (length (stale_keys clock store))), rm_triggered := (if k_triggered kill then 1 else 0),
       rm_database_up := (if up then 1 else 0)\<rparr>"


section \<open>Tasks that run and tasks that end\<close>

definition task_of :: "'w orchestrator \<Rightarrow> string \<Rightarrow> task_state option" where
  "task_of oc name = map_option ((!) (su_tasks (oc_supervisor oc))) (map_of (su_names (oc_supervisor oc)) name)"

definition no_pending :: "supervisor \<Rightarrow> bool" where
  "no_pending s \<longleftrightarrow> Pending \<notin> set (su_tasks s)"

text \<open>The dictionary of the supervisor lists the tasks in the order of their creation.\<close>

definition registered :: "supervisor \<Rightarrow> bool" where
  "registered s \<longleftrightarrow> map snd (su_names s) = [0..<length (su_tasks s)]"

lemma create_task_fresh:
  assumes "registered s" "name \<notin> fst ` set (su_names s)"
  shows "registered (create_task name s) \<and> map fst (su_names (create_task name s)) = map fst (su_names s) @ [name] \<and>
    su_tasks (create_task name s) = su_tasks s @ [Pending]"
proof -
  have "dict_set name (length (su_tasks s)) (su_names s) = su_names s @ [(name, length (su_tasks s))]"
    using assms(2) by (simp add: dict_set_new)
  then show ?thesis using assms(1) by (simp add: registered_def create_task_def)
qed

lemma create_tasks:
  assumes "registered s" "distinct (map fst (su_names s) @ names)"
  shows "registered (foldl (\<lambda>s n. create_task n s) s names) \<and>
    map fst (su_names (foldl (\<lambda>s n. create_task n s) s names)) = map fst (su_names s) @ names \<and>
    su_tasks (foldl (\<lambda>s n. create_task n s) s names) = su_tasks s @ replicate (length names) Pending"
  using assms
proof (induction names arbitrary: s)
  case (Cons n names)
  then have "n \<notin> fst ` set (su_names s)" by auto
  note c = create_task_fresh [OF Cons.prems(1) this]
  show ?case using Cons.IH [of "create_task n s"] c Cons.prems(2) by (simp add: replicate_append_same)
qed simp

lemma length_cancel_task [simp]: "length (su_tasks (cancel_task s i)) = length (su_tasks s)"
  by (simp add: cancel_task_def)

lemma cancelled_tasks:
  "su_names (foldl cancel_task s is) = su_names s \<and>
   length (su_tasks (foldl cancel_task s is)) = length (su_tasks s) \<and>
   (\<forall>j < length (su_tasks s). su_tasks (foldl cancel_task s is) ! j =
      (if j \<in> set is \<and> su_tasks s ! j = Pending then Cancelled else su_tasks s ! j))"
proof (induction "is" arbitrary: s)
  case (Cons i "is")
  have names: "su_names (cancel_task s i) = su_names s" by (simp add: cancel_task_def)
  have "su_tasks (cancel_task s i) ! j = (if j = i \<and> su_tasks s ! j = Pending then Cancelled else su_tasks s ! j)"
    if "j < length (su_tasks s)" for j
    using that by (auto simp: cancel_task_def)
  then show ?case using Cons.IH [of "cancel_task s i"] names by auto
qed simp

lemma shutdown_registered:
  assumes "registered s"
  shows "no_pending (shutdown_tasks s) \<and> registered (shutdown_tasks s) \<and> su_names (shutdown_tasks s) = su_names s \<and>
    (\<forall>j < length (su_tasks s). su_tasks (shutdown_tasks s) ! j =
       (if su_tasks s ! j = Pending then Cancelled else su_tasks s ! j))"
proof -
  note c = cancelled_tasks [of s "map snd (su_names s)", folded shutdown_tasks_def]
  have all: "set (map snd (su_names s)) = {..<length (su_tasks s)}" using assms by (simp add: registered_def atLeast_upt)
  then have "su_tasks (shutdown_tasks s) ! j \<noteq> Pending" if "j < length (su_tasks (shutdown_tasks s))" for j
    using c that by (metis lessThan_iff task_state.distinct(5))
  then have "no_pending (shutdown_tasks s)" unfolding no_pending_def in_set_conv_nth by blast
  moreover have "registered (shutdown_tasks s)" using assms c by (simp add: registered_def)
  moreover have "su_tasks (shutdown_tasks s) ! j = (if su_tasks s ! j = Pending then Cancelled else su_tasks s ! j)"
    if "j < length (su_tasks s)" for j
    using c all that by simp
  ultimately show ?thesis using c by blast
qed

lemma end_task_registered: "registered s \<Longrightarrow> registered (end_task i r s) \<and> su_names (end_task i r s) = su_names s"
  by (simp add: registered_def end_task_def)

lemma end_tasks_registered:
  "registered s \<Longrightarrow> registered (foldl (\<lambda>s (i, r). end_task i r s) s evs) \<and>
     su_names (foldl (\<lambda>s (i, r). end_task i r s) s evs) = su_names s"
  by (induction evs arbitrary: s) (auto simp: end_task_registered)

section \<open>Starting and stopping\<close>

lemma prepare_all_names: "prepare_all now ms w = (ms', w', r) \<Longrightarrow> map mv_name ms' = map mv_name ms"
proof (induction ms arbitrary: w ms' w' r)
  case (Cons m ms)
  obtain s w1 r1 where p: "sv_prepare now (mv_on_start m) (mv_service m, w) = ((s, w1), r1)" by (metis prod.collapse)
  have "sv_name s = mv_name m" using p by (auto simp: sv_prepare_def Let_def split: if_splits prod.splits sum.splits)
  then show ?case using Cons p by (fastforce split: sum.splits prod.splits)
qed simp

lemma prepare_all_ok:
  assumes "prepare_all now ms w = (ms', w', Inr ())" "\<forall>m \<in> set ms. sv_prepared (mv_service m) \<longrightarrow> sv_running (mv_service m)"
  shows "\<forall>m \<in> set ms'. sv_prepared (mv_service m) \<and> sv_running (mv_service m)"
  using assms
proof (induction ms arbitrary: w ms')
  case (Cons m ms)
  obtain s w1 r1 where p: "sv_prepare now (mv_on_start m) (mv_service m, w) = ((s, w1), r1)" by (metis prod.collapse)
  then have r1: "r1 = Inr ()" using Cons.prems(1) by (cases r1) (auto split: prod.splits)
  obtain ms1 w2 r2 where rest: "prepare_all now ms w1 = (ms1, w2, r2)" using prod_cases3 by blast
  have "sv_prepared s \<and> sv_running s"
    using p r1 Cons.prems(2) by (auto simp: sv_prepare_def Let_def split: if_splits prod.splits sum.splits)
  then show ?case using Cons.IH [of w1 ms1] Cons.prems p r1 rest by auto
qed simp

lemma stop_all_ok:
  assumes "stop_all ms w = (ms', w', Inr ())"
  shows "map mv_name ms' = map mv_name ms \<and> (\<forall>m \<in> set ms'. \<not> sv_running (mv_service m)) \<and>
    map (sv_prepared \<circ> mv_service) ms' = map (sv_prepared \<circ> mv_service) ms"
  using assms
proof (induction ms arbitrary: w ms')
  case (Cons m ms)
  obtain s w1 r1 where p: "sv_stop (mv_on_stop m) (mv_service m, w) = ((s, w1), r1)" by (metis prod.collapse)
  then have r1: "r1 = Inr ()" using Cons.prems(1) by (cases r1) (auto split: prod.splits)
  obtain ms1 w2 r2 where rest: "stop_all ms w1 = (ms1, w2, r2)" using prod_cases3 by blast
  have "sv_name s = mv_name m \<and> \<not> sv_running s \<and> sv_prepared s = sv_prepared (mv_service m)"
    using p by (auto simp: sv_stop_def split: if_splits prod.splits)
  then show ?case using Cons.IH [of w1 ms1] Cons.prems p r1 rest by auto
qed simp

text \<open>A fresh orchestrator: no service has run, and the names of the tasks are distinct.\<close>

definition fresh_orchestrator :: "'w orchestrator \<Rightarrow> bool" where
  "fresh_orchestrator oc \<longleftrightarrow> \<not> oc_running oc \<and> oc_supervisor oc = new_supervisor \<and>
     (\<forall>m \<in> set (oc_services oc). \<not> sv_prepared (mv_service m)) \<and>
     distinct (''event-bus'' # map mv_name (oc_services oc))"

lemma fresh_start:
  assumes "fresh_orchestrator oc" "oc_start now oc w = (oc1, w1, Inr ())"
  shows "oc_running oc1 \<and> registered (oc_supervisor oc1) \<and>
    map fst (su_names (oc_supervisor oc1)) = ''event-bus'' # map mv_name (oc_services oc) \<and>
    su_tasks (oc_supervisor oc1) = replicate (Suc (length (oc_services oc))) Pending \<and>
    map mv_name (oc_services oc1) = map mv_name (oc_services oc) \<and>
    (\<forall>m \<in> set (oc_services oc1). sv_prepared (mv_service m) \<and> sv_running (mv_service m))"
proof -
  let ?bus = "create_task ''event-bus'' new_supervisor"
  obtain ms where p: "prepare_all now (oc_services oc) w = (ms, w1, Inr ())" and
      oc1: "oc_running oc1" "oc_services oc1 = ms" "oc_supervisor oc1 = foldl (\<lambda>s m. create_task (mv_name m) s) ?bus ms"
    using assms by (auto simp: oc_start_def fresh_orchestrator_def Let_def split: prod.splits sum.splits)
  note names = prepare_all_names [OF p]
  have bus: "registered ?bus" "map fst (su_names ?bus) = [''event-bus'']" "su_tasks ?bus = [Pending]"
    by (simp_all add: registered_def create_task_def new_supervisor_def dict_simps)
  have fold: "foldl (\<lambda>s m. create_task (mv_name m) s) ?bus ms = foldl (\<lambda>s n. create_task n s) ?bus (map mv_name ms)"
    by (simp add: foldl_map)
  have "distinct (map fst (su_names ?bus) @ map mv_name ms)"
    unfolding bus(2) names using assms(1) by (simp add: fresh_orchestrator_def)
  note c = create_tasks [OF bus(1) this, folded fold oc1(3)]
  have len: "length ms = length (oc_services oc)" using names by (metis length_map)
  show ?thesis using c bus names oc1(1,2) prepare_all_ok [OF p] assms(1) len
    by (simp add: fresh_orchestrator_def replicate_append_same)
qed

section \<open>A program that was started and stopped\<close>

text \<open>What the tasks do while the program runs: some of them end, in any order and with any result.\<close>

definition tasks_end :: "(nat \<times> unit res) list \<Rightarrow> 'w orchestrator \<Rightarrow> 'w orchestrator" where
  "tasks_end evs oc = oc\<lparr>oc_supervisor := foldl (\<lambda>s (i, r). end_task i r s) (oc_supervisor oc) evs\<rparr>"

lemma tasks_end_simps [simp]:
  "oc_running (tasks_end evs oc) = oc_running oc" "oc_services (tasks_end evs oc) = oc_services oc"
  by (simp_all add: tasks_end_def)

lemma stopE:
  assumes "oc_stop stop_bus oc w = (oc', w', Inr ())" "oc_running oc"
  shows "\<exists>ms w1. stop_all (oc_services oc) w = (ms, w1, Inr ()) \<and> w' = stop_bus w1 \<and>
    oc' = oc\<lparr>oc_running := False, oc_services := ms, oc_supervisor := shutdown_tasks (oc_supervisor oc)\<rparr>"
  using assms by (auto simp: oc_stop_def split: prod.splits sum.splits)

text \<open>
  C34. A stop settles what the supervisor started. If the start of a fresh program succeeds, every service
  is prepared and running under a task of its own next to that of the event bus; whatever tasks end in
  between, after a stop without exception no service is running and none of the supervisor's tasks is
  pending: a task that was pending is cancelled and one that had ended keeps its result. Tasks that were
  not created through the supervisor, such as the fetches of the polling source, are not settled by it.
\<close>

theorem stop_settles_supervised_tasks:
  assumes "fresh_orchestrator oc" "oc_start now oc w = (oc1, w1, Inr ())"
    and "oc_stop stop_bus (tasks_end evs oc1) w2 = (oc2, w3, Inr ())"
  shows "oc_running oc1 \<and> (\<forall>m \<in> set (oc_services oc1). sv_prepared (mv_service m) \<and> sv_running (mv_service m)) \<and>
    map fst (su_names (oc_supervisor oc1)) = ''event-bus'' # map mv_name (oc_services oc) \<and>
    (\<forall>name \<in> set (''event-bus'' # map mv_name (oc_services oc)). task_of oc1 name = Some Pending) \<and>
    \<not> oc_running oc2 \<and> no_pending (oc_supervisor oc2) \<and> (\<forall>m \<in> set (oc_services oc2). \<not> sv_running (mv_service m)) \<and>
    (\<forall>name t. task_of (tasks_end evs oc1) name = Some t \<longrightarrow>
       task_of oc2 name = Some (if t = Pending then Cancelled else t))"
proof -
  note s = fresh_start [OF assms(1,2)]
  let ?sup = "oc_supervisor (tasks_end evs oc1)"
  have reg: "registered ?sup" using end_tasks_registered s by (simp add: tasks_end_def)
  obtain ms w4 where stop: "stop_all (oc_services oc1) w2 = (ms, w4, Inr ())"
      "oc2 = (tasks_end evs oc1)\<lparr>oc_running := False, oc_services := ms, oc_supervisor := shutdown_tasks ?sup\<rparr>"
    using stopE [OF assms(3)] s by auto
  note d = shutdown_registered [OF reg]
  have bound: "j < length (su_tasks sup)" if "registered sup" "map_of (su_names sup) name = Some j" for sup name j
  proof -
    have "j \<in> set (map snd (su_names sup))" using that(2) by (force dest: map_of_SomeD)
    then show ?thesis using that(1) unfolding registered_def by (metis atLeastLessThan_iff set_upt)
  qed
  have "task_of oc2 name = Some (if t = Pending then Cancelled else t)"
    if "task_of (tasks_end evs oc1) name = Some t" for name t
  proof -
    from that obtain j where j: "map_of (su_names ?sup) name = Some j" "su_tasks ?sup ! j = t"
      unfolding task_of_def by blast
    then show ?thesis using d bound [OF reg j(1)] by (simp add: task_of_def stop(2))
  qed
  moreover have "task_of oc1 name = Some Pending" if "name \<in> set (''event-bus'' # map mv_name (oc_services oc))" for name
  proof -
    have "map_of (su_names (oc_supervisor oc1)) name \<noteq> None"
      using that s unfolding map_of_eq_None_iff set_map [symmetric] by metis
    then obtain j where j: "map_of (su_names (oc_supervisor oc1)) name = Some j" by blast
    have reg1: "registered (oc_supervisor oc1)" using s by blast
    have "su_tasks (oc_supervisor oc1) ! j = Pending" using bound [OF reg1 j] s by (metis length_replicate nth_replicate)
    then show ?thesis by (simp add: task_of_def j)
  qed
  ultimately show ?thesis using s d stop_all_ok [OF stop(1)] by (simp add: stop(2))
qed

lemma healthy_iff:
  "healthy (health_status oc store kill up clock now) \<longleftrightarrow>
     (case oc of None \<Rightarrow> False | Some oc \<Rightarrow> oc_running oc) \<and> up \<and> \<not> k_triggered kill"
  by (auto simp: healthy_def health_status_def Let_def oc_health_def get_val_def dict_get_def ks_status_def split: option.splits)

lemma prepared_again: "\<forall>m \<in> set ms. sv_prepared (mv_service m) \<Longrightarrow> prepare_all now ms w = (ms, w, Inr ())"
  by (induction ms) (auto simp: sv_prepare_def)

text \<open>
  C35. A restarted program is dead and healthy. After a start, any ends of tasks and a stop, the next
  start succeeds and changes nothing but the tasks: no hook is run, so no service is running and each of
  their loops ends at its first test, while the orchestrator and the health report, which looks at no
  service and no task, say that the program runs.
\<close>

theorem restarted_program_is_dead:
  assumes "fresh_orchestrator oc" "oc_start now oc w = (oc1, w1, Inr ())"
    and "oc_stop stop_bus (tasks_end evs oc1) w2 = (oc2, w3, Inr ())"
    and "oc_start later oc2 w4 = (oc3, w5, r)" "\<not> k_triggered kill"
  shows "r = Inr () \<and> w5 = w4 \<and> oc_running oc3 \<and> (\<forall>m \<in> set (oc_services oc3). \<not> sv_running (mv_service m)) \<and>
    healthy (health_status (Some (tasks_end evs' oc3)) store kill True clock t)"
proof -
  note s = fresh_start [OF assms(1,2)]
  let ?sup = "oc_supervisor (tasks_end evs oc1)"
  obtain ms w6 where stop: "stop_all (oc_services oc1) w2 = (ms, w6, Inr ())"
      "oc2 = (tasks_end evs oc1)\<lparr>oc_running := False, oc_services := ms, oc_supervisor := shutdown_tasks ?sup\<rparr>"
    using stopE [OF assms(3)] s by auto
  note f = stop_all_ok [OF stop(1)]
  have "\<forall>m \<in> set (oc_services oc1). (sv_prepared \<circ> mv_service) m" using s by simp
  then have "\<forall>b \<in> set (map (sv_prepared \<circ> mv_service) (oc_services oc1)). b" by simp
  then have "\<forall>b \<in> set (map (sv_prepared \<circ> mv_service) ms). b" using f by metis
  then have "\<forall>m \<in> set ms. sv_prepared (mv_service m)" by simp
  note again = prepared_again [OF this, of later w4]
  then have "r = Inr ()" "w5 = w4" "oc_running oc3" "oc_services oc3 = ms"
    using assms(4) by (auto simp: stop(2) oc_start_def)
  then show ?thesis using f assms(5) by (simp add: healthy_iff)
qed

lemma prepare_all_first_error:
  "prepare_all now ms w = (ms', w', Inl e) \<Longrightarrow> \<forall>m \<in> set ms. \<not> sv_prepared (mv_service m) \<Longrightarrow>
   \<exists>i < length ms. length ms' = length ms \<and>
     (\<forall>j < i. sv_prepared (mv_service (ms' ! j)) \<and> sv_running (mv_service (ms' ! j))) \<and>
     sv_running (mv_service (ms' ! i)) \<and> \<not> sv_prepared (mv_service (ms' ! i)) \<and> drop (Suc i) ms' = drop (Suc i) ms"
proof (induction ms arbitrary: w ms' w')
  case (Cons m ms)
  obtain s w1 r1 where p: "sv_prepare now (mv_on_start m) (mv_service m, w) = ((s, w1), r1)" by (metis prod.collapse)
  show ?case
  proof (cases r1)
    case (Inl e1)
    then have "sv_running s" "\<not> sv_prepared s"
      using p Cons.prems(2) by (auto simp: sv_prepare_def Let_def split: prod.splits sum.splits)
    then show ?thesis using Cons.prems(1) p Inl by (intro exI [of _ 0]) auto
  next
    case (Inr u)
    obtain ms1 w2 where rest: "prepare_all now ms w1 = (ms1, w2, Inl e)" "ms' = m\<lparr>mv_service := s\<rparr> # ms1"
      using Cons.prems(1) p Inr by (auto split: prod.splits)
    have first: "sv_running s" "sv_prepared s"
      using p Inr Cons.prems(2) by (auto simp: sv_prepare_def Let_def split: prod.splits sum.splits)
    obtain i where i: "i < length ms" "length ms1 = length ms"
        "\<forall>j < i. sv_prepared (mv_service (ms1 ! j)) \<and> sv_running (mv_service (ms1 ! j))"
        "sv_running (mv_service (ms1 ! i))" "\<not> sv_prepared (mv_service (ms1 ! i))" "drop (Suc i) ms1 = drop (Suc i) ms"
      using Cons.IH [OF rest(1)] Cons.prems(2) by auto
    then show ?thesis using first rest(2) by (intro exI [of _ "Suc i"]) (auto simp: nth_Cons split: nat.splits)
  qed
qed simp

text \<open>
  A failed start leaves a program that is healthy: if the hook of a service raises, the services before
  it are prepared without a task, the event bus has its task, a second start does nothing and succeeds,
  and the health report says that the program runs.
\<close>

theorem failed_start_is_healthy:
  assumes "fresh_orchestrator oc" "oc_start now oc w = (oc1, w1, Inl e)" "\<not> k_triggered kill"
  shows "map fst (su_names (oc_supervisor oc1)) = [''event-bus''] \<and> oc_start later oc1 w2 = (oc1, w2, Inr ()) \<and>
    (\<exists>i < length (oc_services oc). \<forall>j < i. sv_running (mv_service (oc_services oc1 ! j))) \<and>
    healthy (health_status (Some oc1) store kill True clock t)"
proof -
  obtain ms where p: "prepare_all now (oc_services oc) w = (ms, w1, Inl e)" and
      oc1: "oc1 = oc\<lparr>oc_running := True, oc_services := ms, oc_supervisor := create_task ''event-bus'' new_supervisor\<rparr>"
    using assms by (auto simp: oc_start_def fresh_orchestrator_def Let_def split: prod.splits sum.splits)
  have "\<exists>i < length (oc_services oc). \<forall>j < i. sv_running (mv_service (oc_services oc1 ! j))"
    using prepare_all_first_error [OF p] assms(1) by (auto simp: fresh_orchestrator_def oc1)
  then show ?thesis using assms(3) by (simp add: oc1 healthy_iff oc_start_def create_task_def new_supervisor_def dict_simps)
qed

section \<open>Counters\<close>

definition severity_of :: "seen_event \<Rightarrow> string option" where
  "severity_of e = (case e of Saw_Risk s \<Rightarrow> Some (str_upper s) | _ \<Rightarrow> None)"

lemma counters_count:
  "rm_ticks (fold on_seen es m) = rm_ticks m + count_list es Saw_Tick \<and>
   rm_books (fold on_seen es m) = rm_books m + count_list es Saw_Book \<and>
   rm_reports (fold on_seen es m) = rm_reports m + count_list es Saw_Report \<and>
   dict_get (rm_risks (fold on_seen es m)) s 0 = dict_get (rm_risks m) s 0 + count_list (map severity_of es) (Some s)"
proof (induction es arbitrary: m)
  case (Cons e es)
  then show ?case
    by (cases e) (auto simp: on_seen_def record_risk_event_def severity_of_def dict_get_def dict_simps)
qed simp


section \<open>Witnesses\<close>

definition sample_managed :: "bool \<Rightarrow> string \<Rightarrow> nat managed" where
  "sample_managed ok name = \<lparr>mv_service = new_service name,
     mv_on_start = (\<lambda>n. (Suc n, if ok then Inr () else Inl (OtherError (text_msg ''Address already in use'')))),
     mv_on_stop = (\<lambda>n. (Suc n, Inr ()))\<rparr>"

definition sample_program :: "bool \<Rightarrow> nat orchestrator" where
  "sample_program ok = new_orchestrator [sample_managed True ''market-data-service'', sample_managed ok ''health-server-service'']"

lemma fresh_sample: "fresh_orchestrator (sample_program ok)"
  by (simp add: fresh_orchestrator_def sample_program_def new_orchestrator_def sample_managed_def new_service_def)

definition sample_switch :: kill_switch where
  "sample_switch = \<lparr>k_max_loss = Fin 50, k_max_drawdown = Fin 20, k_daily_pnl = Fin 0, k_peak = None,
     k_triggered = False, k_reason = None, k_triggered_at = None\<rparr>"

lemma sample_start_stop:
  "\<exists>oc1 oc2 oc3. oc_start (Fin 1) (sample_program True) 0 = (oc1, 2, Inr ()) \<and>
     oc_stop Suc (tasks_end [(1, Inl (RuntimeError (text_msg ''no'')))] oc1) 2 = (oc2, 5, Inr ()) \<and>
     oc_start (Fin 9) oc2 5 = (oc3, 5, Inr ()) \<and> length (oc_services oc3) = 2 \<and>
     task_of (tasks_end [(1, Inl (RuntimeError (text_msg ''no'')))] oc1) ''market-data-service'' =
       Some (Raised (RuntimeError (text_msg ''no'')))"
  by (simp add: oc_start_def sample_program_def new_orchestrator_def sample_managed_def new_service_def sv_prepare_def Let_def
      oc_stop_def sv_stop_def tasks_end_def create_task_def new_supervisor_def dict_simps end_task_def task_of_def)

theorem stop_settles_supervised_tasks_witness:
  "\<exists>oc1 oc2 w. oc_start (Fin 1) (sample_program True) 0 = (oc1, 2, Inr ()) \<and>
     oc_stop Suc (tasks_end [(1, Inl (RuntimeError (text_msg ''no'')))] oc1) 2 = (oc2, w, Inr ()) \<and>
     no_pending (oc_supervisor oc2) \<and> task_of oc2 ''market-data-service'' = Some (Raised (RuntimeError (text_msg ''no'')))"
proof -
  obtain oc1 oc2 where run: "oc_start (Fin 1) (sample_program True) 0 = (oc1, 2, Inr ())"
      "oc_stop Suc (tasks_end [(1, Inl (RuntimeError (text_msg ''no'')))] oc1) 2 = (oc2, 5, Inr ())"
      "task_of (tasks_end [(1, Inl (RuntimeError (text_msg ''no'')))] oc1) ''market-data-service'' =
        Some (Raised (RuntimeError (text_msg ''no'')))"
    using sample_start_stop by blast
  from stop_settles_supervised_tasks [OF fresh_sample run(1,2)]
  have "no_pending (oc_supervisor oc2)"
      "task_of oc2 ''market-data-service'' = Some (Raised (RuntimeError (text_msg ''no'')))"
    using run(3) by simp_all
  with run(1,2) show ?thesis by blast
qed

theorem restarted_program_is_dead_witness:
  "\<exists>oc1 oc2 oc3. oc_start (Fin 1) (sample_program True) 0 = (oc1, 2, Inr ()) \<and>
     oc_stop Suc (tasks_end [(1, Inl (RuntimeError (text_msg ''no'')))] oc1) 2 = (oc2, 5, Inr ()) \<and>
     oc_start (Fin 9) oc2 5 = (oc3, 5, Inr ()) \<and> length (oc_services oc3) = 2 \<and>
     (\<forall>m \<in> set (oc_services oc3). \<not> sv_running (mv_service m)) \<and>
     healthy (health_status (Some oc3) sample_store sample_switch True (Fin 9) sample_day)"
proof -
  obtain oc1 oc2 oc3 where run: "oc_start (Fin 1) (sample_program True) 0 = (oc1, 2, Inr ())"
      "oc_stop Suc (tasks_end [(1, Inl (RuntimeError (text_msg ''no'')))] oc1) 2 = (oc2, 5, Inr ())"
      "oc_start (Fin 9) oc2 5 = (oc3, 5, Inr ())" "length (oc_services oc3) = 2"
    using sample_start_stop by blast
  have "\<not> k_triggered sample_switch" by (simp add: sample_switch_def)
  from restarted_program_is_dead [OF fresh_sample run(1-3) this, of "[]" sample_store "Fin 9" sample_day] run
  show ?thesis by (auto simp: tasks_end_def)
qed

theorem failed_start_is_healthy_witness:
  "\<exists>oc1 e. oc_start (Fin 1) (sample_program False) 0 = (oc1, 2, Inl e) \<and>
     healthy (health_status (Some oc1) sample_store sample_switch True (Fin 9) sample_day)"
proof -
  have "\<exists>oc1 e. oc_start (Fin 1) (sample_program False) 0 = (oc1, 2, Inl e)"
    by (simp add: oc_start_def sample_program_def new_orchestrator_def sample_managed_def new_service_def sv_prepare_def Let_def)
  then obtain oc1 e where run: "oc_start (Fin 1) (sample_program False) 0 = (oc1, 2, Inl e)" by blast
  have "\<not> k_triggered sample_switch" by (simp add: sample_switch_def)
  from failed_start_is_healthy [OF fresh_sample run this] run show ?thesis by blast
qed

end
