(* ===== verification/Polling_Source.thy ===== *)
theory Polling_Source
  imports Market_Data
begin

text \<open>
  The polling of the exchanges (\<open>feeds/exchange_polling_source.py\<close>). A client is its methods by name,
  each a function on the outside world that may raise; \<open>getattr(exchange, name, None)\<close> is the lookup.
  The tasks of a round run concurrently; the model runs them one after the other in an order that is an
  argument, the order in which \<open>as_completed\<close> hands them out.
\<close>

section \<open>State\<close>

type_synonym 'w client = "string \<Rightarrow> (pyval list \<Rightarrow> 'w \<Rightarrow> 'w \<times> pyval res) option"

record 'w polling =
  po_symbols :: "string list"
  po_interval :: pyfloat
  po_depth :: int
  po_provider :: "('w \<Rightarrow> 'w \<times> string list res) option"
  po_refresh :: pyfloat
  po_concurrency :: int
  po_last_refresh :: pyfloat
  po_running :: bool

definition new_polling ::
  "env \<Rightarrow> string list \<Rightarrow> pyfloat \<Rightarrow> int \<Rightarrow> ('w \<Rightarrow> 'w \<times> string list res) option \<Rightarrow> pyfloat \<Rightarrow> int option
     \<Rightarrow> 'w polling res" where
  "new_polling env symbols interval depth provider refresh concurrency =
     rbind (check_all [(interval \<le> Fin 0, ''poll_interval_seconds must be positive''),
                       (depth \<le> 0, ''orderbook_depth must be positive'')]) (\<lambda>_.
     rbind (case concurrency of
              Some n \<Rightarrow> Inr n
            | None \<Rightarrow>
                (case py_int_of_str (case env ''AEGIS_MARKET_FETCH_CONCURRENCY'' of None \<Rightarrow> ''8'' | Some x \<Rightarrow> x) of
                   None \<Rightarrow> Inl (ValueError (text_msg ''invalid literal for int() with base 10''))
                 | Some n \<Rightarrow> Inr n)) (\<lambda>n.
     Inr \<lparr>po_symbols = symbols, po_interval = interval, po_depth = depth, po_provider = provider,
          po_refresh = refresh, po_concurrency = max 1 n, po_last_refresh = Fin 0, po_running = False\<rparr>))"

definition stop_polling :: "'w polling \<Rightarrow> 'w polling" where
  "stop_polling p = p\<lparr>po_running := False\<rparr>"

section \<open>Fetching\<close>

text \<open>A fetch that raises and a payload that is \<open>None\<close> are the same to the caller.\<close>

definition payload_or_none :: "pyval res \<Rightarrow> pyval option" where
  "payload_or_none r = (case r of Inl _ \<Rightarrow> None | Inr v \<Rightarrow> (if v = VNone then None else Some v))"

definition safe_fetch_ticker :: "'w client \<Rightarrow> string \<Rightarrow> 'w \<Rightarrow> 'w \<times> pyval option" where
  "safe_fetch_ticker x symb w =
     (case x ''fetch_ticker'' of
        None \<Rightarrow> (w, None)
      | Some m \<Rightarrow> (case m [VStr symb] w of (w1, r) \<Rightarrow> (w1, payload_or_none r)))"

text \<open>A \<open>TypeError\<close> of the call with a depth is taken for a method without that parameter.\<close>

definition call_orderbook_method :: "(pyval list \<Rightarrow> 'w \<Rightarrow> 'w \<times> pyval res) \<Rightarrow> string \<Rightarrow> int \<Rightarrow> 'w \<Rightarrow> 'w \<times> pyval res" where
  "call_orderbook_method m symb depth w =
     (case m [VStr symb, VInt depth] w of
        (w1, Inl (TypeError _)) \<Rightarrow> m [VStr symb] w1
      | (w1, r) \<Rightarrow> (w1, r))"

fun first_method :: "'w client \<Rightarrow> string list \<Rightarrow> (pyval list \<Rightarrow> 'w \<Rightarrow> 'w \<times> pyval res) option" where
  "first_method x [] = None"
| "first_method x (name # names) = (case x name of Some m \<Rightarrow> Some m | None \<Rightarrow> first_method x names)"

definition orderbook_methods :: "string list" where
  "orderbook_methods = [''fetch_order_book'', ''fetch_orderbook'', ''get_order_book'', ''get_orderbook'']"

definition safe_fetch_orderbook :: "'w client \<Rightarrow> string \<Rightarrow> int \<Rightarrow> 'w \<Rightarrow> 'w \<times> pyval option" where
  "safe_fetch_orderbook x symb depth w =
     (case first_method x orderbook_methods of
        None \<Rightarrow> (w, None)
      | Some m \<Rightarrow> (case call_orderbook_method m symb depth w of (w1, r) \<Rightarrow> (w1, payload_or_none r)))"

definition poll_exchange_symbol :: "'w polling \<Rightarrow> string \<times> 'w client \<Rightarrow> string \<Rightarrow> 'w \<Rightarrow> 'w \<times> packet list" where
  "poll_exchange_symbol p e symb w =
     (case safe_fetch_ticker (snd e) symb w of (w1, ticker) \<Rightarrow>
        (case safe_fetch_orderbook (snd e) symb (po_depth p) w1 of (w2, book) \<Rightarrow>
           (w2, (case ticker of None \<Rightarrow> []
                 | Some v \<Rightarrow> [\<lparr>pk_kind = ''ticker'', pk_exchange = fst e, pk_symbol = symb, pk_payload = v\<rparr>]) @
                (case book of None \<Rightarrow> []
                 | Some v \<Rightarrow> [\<lparr>pk_kind = ''orderbook'', pk_exchange = fst e, pk_symbol = symb, pk_payload = v\<rparr>]))))"

section \<open>A round\<close>

text \<open>The symbols are asked for again at most once per interval; a failure keeps the list.\<close>

definition refresh_due :: "pyfloat \<Rightarrow> 'w polling \<Rightarrow> bool" where
  "refresh_due now p \<longleftrightarrow>
     po_provider p \<noteq> None \<and> \<not> po_refresh p \<le> Fin 0 \<and>
     \<not> (Fin 0 < po_last_refresh p \<and> now - po_last_refresh p < po_refresh p)"

definition refresh_symbols :: "pyfloat \<Rightarrow> 'w polling \<Rightarrow> 'w \<Rightarrow> 'w \<times> 'w polling" where
  "refresh_symbols now p w =
     (if \<not> refresh_due now p then (w, p)
      else let p1 = p\<lparr>po_last_refresh := now\<rparr> in
        case the (po_provider p) w of
          (w1, Inl _) \<Rightarrow> (w1, p1)
        | (w1, Inr symbols) \<Rightarrow>
            (let next_symbols = filter (\<lambda>s. str_strip s \<noteq> []) symbols in
             (w1, if next_symbols = [] then p1 else p1\<lparr>po_symbols := next_symbols\<rparr>)))"

definition poll_jobs :: "(string \<times> 'w client) list \<Rightarrow> 'w polling \<Rightarrow> ((string \<times> 'w client) \<times> string) list" where
  "poll_jobs reg p = concat (map (\<lambda>e. map (\<lambda>s. (e, s)) (po_symbols p)) reg)"

text \<open>
  The tasks in the order of their completion. Once the source is stopped, after \<open>k\<close> of them, the
  packets of the others are dropped, but their calls are still made.
\<close>

fun run_jobs :: "'w polling \<Rightarrow> nat \<Rightarrow> ((string \<times> 'w client) \<times> string) list \<Rightarrow> 'w \<Rightarrow> 'w \<times> packet list" where
  "run_jobs p k [] w = (w, [])"
| "run_jobs p k ((e, symb) # jobs) w =
     (case poll_exchange_symbol p e symb w of (w1, ps) \<Rightarrow>
        (case run_jobs p (k - 1) jobs w1 of (w2, rest) \<Rightarrow> (w2, (if k = 0 then [] else ps) @ rest)))"

definition poll_round ::
  "(string \<times> 'w client) list \<Rightarrow> (((string \<times> 'w client) \<times> string) list \<Rightarrow> ((string \<times> 'w client) \<times> string) list) \<Rightarrow>
   nat \<Rightarrow> pyfloat \<Rightarrow> 'w polling \<Rightarrow> 'w \<Rightarrow> 'w \<times> 'w polling \<times> packet list" where
  "poll_round reg order k now p w =
     (case refresh_symbols now p w of (w1, p1) \<Rightarrow>
        (case run_jobs p1 k (order (poll_jobs reg p1)) w1 of (w2, ps) \<Rightarrow> (w2, p1, ps)))"


section \<open>What a round yields\<close>

lemma poll_exchange_symbol_packets:
  assumes "poll_exchange_symbol p e symb w = (w', ps)"
  shows "length ps \<le> 2 \<and> (\<forall>pk \<in> set ps. pk_symbol pk = symb \<and> pk_exchange pk = fst e \<and>
    pk_kind pk \<in> {''ticker'', ''orderbook''} \<and> pk_payload pk \<noteq> VNone)"
proof -
  have some: "safe_fetch_ticker x s u = (u', Some v) \<Longrightarrow> v \<noteq> VNone"
    "safe_fetch_orderbook x s d u = (u', Some v) \<Longrightarrow> v \<noteq> VNone" for x :: "'a client" and s d u u' v
    by (auto simp: safe_fetch_ticker_def safe_fetch_orderbook_def payload_or_none_def
        split: option.splits prod.splits sum.splits if_splits)
  show ?thesis using assms some by (fastforce simp: poll_exchange_symbol_def split: prod.splits option.splits)
qed

lemma run_jobs_packets:
  assumes "run_jobs p k jobs w = (w', ps)"
  shows "length ps \<le> 2 * min k (length jobs) \<and> (\<forall>pk \<in> set ps. \<exists>e symb. (e, symb) \<in> set jobs \<and> pk_symbol pk = symb \<and>
    pk_exchange pk = fst e \<and> pk_kind pk \<in> {''ticker'', ''orderbook''} \<and> pk_payload pk \<noteq> VNone)"
  using assms
proof (induction p k jobs w arbitrary: w' ps rule: run_jobs.induct)
  case (2 p k e symb jobs w)
  obtain w1 ps1 where one: "poll_exchange_symbol p e symb w = (w1, ps1)" by fastforce
  obtain w2 rest where more: "run_jobs p (k - 1) jobs w1 = (w2, rest)" by fastforce
  have ps: "ps = (if k = 0 then [] else ps1) @ rest" using 2(2) one more by simp
  note IH = 2(1) [OF one [symmetric] more]
  have "length rest \<le> 2 * min (k - 1) (length jobs)" using IH by blast
  then have "length ps \<le> 2 * min k (Suc (length jobs))"
    using poll_exchange_symbol_packets [OF one] by (cases k) (auto simp: ps)
  moreover have "\<exists>e' s'. (e', s') \<in> set ((e, symb) # jobs) \<and> pk_symbol pk = s' \<and> pk_exchange pk = fst e' \<and>
      pk_kind pk \<in> {''ticker'', ''orderbook''} \<and> pk_payload pk \<noteq> VNone" if "pk \<in> set ps" for pk
  proof (cases "pk \<in> set rest")
    case True
    with IH show ?thesis by (meson list.set_intros(2))
  next
    case False
    with that have "pk \<in> set ps1" by (auto simp: ps split: if_splits)
    with poll_exchange_symbol_packets [OF one] have "pk_symbol pk = symb \<and> pk_exchange pk = fst e \<and>
        pk_kind pk \<in> {''ticker'', ''orderbook''} \<and> pk_payload pk \<noteq> VNone" by blast
    then show ?thesis by (intro exI [of _ e] exI [of _ symb]) simp
  qed
  ultimately show ?case by simp
qed simp

definition reorders :: "('a list \<Rightarrow> 'a list) \<Rightarrow> bool" where
  "reorders order \<longleftrightarrow> (\<forall>xs. mset (order xs) = mset xs)"

lemma length_poll_jobs: "length (poll_jobs reg p) = length reg * length (po_symbols p)"
  by (induction reg) (simp_all add: poll_jobs_def)

lemma poll_round_packets:
  assumes "poll_round reg order k now p w = (w', p', ps)" "reorders order"
  shows "length ps \<le> 2 * min k (length reg * length (po_symbols p')) \<and>
    (\<forall>pk \<in> set ps. pk_symbol pk \<in> set (po_symbols p') \<and> pk_exchange pk \<in> fst ` set reg \<and>
       pk_kind pk \<in> {''ticker'', ''orderbook''} \<and> pk_payload pk \<noteq> VNone)"
proof -
  obtain w1 where run: "run_jobs p' k (order (poll_jobs reg p')) w1 = (w', ps)"
    using assms(1) by (auto simp: poll_round_def split: prod.splits)
  have mset: "mset (order (poll_jobs reg p')) = mset (poll_jobs reg p')" using assms(2) by (simp add: reorders_def)
  then have "length (order (poll_jobs reg p')) = length reg * length (po_symbols p')"
    "set (order (poll_jobs reg p')) = set (poll_jobs reg p')"
    using length_poll_jobs [of reg p'] by (metis size_mset, metis set_mset_mset)
  moreover have "e \<in> set reg \<and> symb \<in> set (po_symbols p')" if "(e, symb) \<in> set (poll_jobs reg p')" for e symb
    using that by (auto simp: poll_jobs_def)
  ultimately show ?thesis using run_jobs_packets [OF run] by (metis image_eqI)
qed

section \<open>Dropped symbols\<close>

lemma on_packet_other:
  assumes "pk_symbol pk \<noteq> symb" "CHR '':'' \<notin> set (pk_exchange pk)" "CHR '':'' \<notin> set e"
  shows "latest_tick e symb (mk_store (on_packet pk now clock s)) = latest_tick e symb (mk_store s) \<and>
    latest_orderbook e symb (mk_store (on_packet pk now clock s)) = latest_orderbook e symb (mk_store s)"
proof -
  have key: "market_key e symb \<noteq> market_key (pk_exchange pk) (pk_symbol pk)"
    using assms by (auto simp: market_key_inj)
  show ?thesis
    using key
    by (auto simp: on_packet_def handle_ticker_def handle_orderbook_def rbind_def latest_tick_def latest_orderbook_def
        update_tick_def update_orderbook_def AList.update_conv' Let_def dest!: normalized_names split: sum.splits)
qed

text \<open>
  A dropped symbol is frozen. Once the refreshed list of symbols no longer holds a symbol, no round
  yields a packet for it, in whatever order its fetches complete, and the market state keeps its last
  tick and order book: a position in it is neither marked nor, since its strategy acts on order books,
  ever closed.
\<close>

theorem dropped_symbol_is_frozen:
  assumes "poll_round reg order k now p w = (w', p', ps)" "reorders order"
    and "symb \<notin> set (po_symbols p')" "\<forall>e \<in> set reg. CHR '':'' \<notin> set (fst e)" "CHR '':'' \<notin> set exch"
  shows "(\<forall>pk \<in> set ps. pk_symbol pk \<noteq> symb) \<and>
    latest_tick exch symb (mk_store (fold (\<lambda>pk. on_packet pk t clock) ps svc)) = latest_tick exch symb (mk_store svc) \<and>
    latest_orderbook exch symb (mk_store (fold (\<lambda>pk. on_packet pk t clock) ps svc)) =
      latest_orderbook exch symb (mk_store svc)"
proof -
  have pk: "\<forall>pk \<in> set ps. pk_symbol pk \<noteq> symb \<and> CHR '':'' \<notin> set (pk_exchange pk)"
    using poll_round_packets [OF assms(1,2)] assms(3,4) by fastforce
  moreover have "latest_tick exch symb (mk_store (fold (\<lambda>pk. on_packet pk t clock) ps svc)) = latest_tick exch symb (mk_store svc) \<and>
      latest_orderbook exch symb (mk_store (fold (\<lambda>pk. on_packet pk t clock) ps svc)) = latest_orderbook exch symb (mk_store svc)"
    using pk by (induction ps arbitrary: svc) (simp_all add: on_packet_other assms(5))
  ultimately show ?thesis by blast
qed

definition sample_client :: "nat client" where
  "sample_client name =
     (if name = ''fetch_ticker'' then Some (\<lambda>args n. (Suc n, Inr (VDict sample_book_dict)))
      else if name = ''get_order_book'' then Some (\<lambda>args n. (Suc n, Inr (VDict sample_book_dict))) else None)"

definition sample_polling :: "nat polling" where
  "sample_polling = \<lparr>po_symbols = [''ETH/USDT''], po_interval = Fin 1, po_depth = 5,
     po_provider = Some (\<lambda>n. (n, Inr [''BTC/USDT'', '' ''])), po_refresh = Fin 60, po_concurrency = 8,
     po_last_refresh = Fin 0, po_running = True\<rparr>"

definition sample_feed :: market_service where
  "sample_feed = \<lparr>mk_depth = 5, mk_store = sample_store, mk_published = [], mk_ticks = 0, mk_books = 0, mk_failures = 0\<rparr>"

lemma sample_refresh:
  "refresh_symbols (Fin 1) sample_polling w = (w, sample_polling\<lparr>po_symbols := [''BTC/USDT''], po_last_refresh := Fin 1\<rparr>)"
  by (simp add: refresh_symbols_def refresh_due_def sample_polling_def str_strip_def is_space_def)

lemma sample_poll:
  "poll_exchange_symbol p (''kraken'', sample_client) symb n =
     (Suc (Suc n),
      [\<lparr>pk_kind = ''ticker'', pk_exchange = ''kraken'', pk_symbol = symb, pk_payload = VDict sample_book_dict\<rparr>,
       \<lparr>pk_kind = ''orderbook'', pk_exchange = ''kraken'', pk_symbol = symb, pk_payload = VDict sample_book_dict\<rparr>])"
  by (simp add: poll_exchange_symbol_def safe_fetch_ticker_def safe_fetch_orderbook_def orderbook_methods_def
      payload_or_none_def call_orderbook_method_def sample_client_def)

lemma sample_round:
  "poll_round [(''kraken'', sample_client)] (\<lambda>xs. xs) 9 (Fin 1) sample_polling 0 =
     (2, sample_polling\<lparr>po_symbols := [''BTC/USDT''], po_last_refresh := Fin 1\<rparr>,
      [\<lparr>pk_kind = ''ticker'', pk_exchange = ''kraken'', pk_symbol = ''BTC/USDT'', pk_payload = VDict sample_book_dict\<rparr>,
       \<lparr>pk_kind = ''orderbook'', pk_exchange = ''kraken'', pk_symbol = ''BTC/USDT'', pk_payload = VDict sample_book_dict\<rparr>])"
  by (simp add: poll_round_def sample_refresh poll_jobs_def sample_poll)

theorem dropped_symbol_is_frozen_witness:
  "latest_tick ''kraken'' ''ETH/USDT'' (mk_store (fold (\<lambda>pk. on_packet pk sample_day (Fin 1))
       (snd (snd (poll_round [(''kraken'', sample_client)] (\<lambda>xs. xs) 9 (Fin 1) sample_polling 0))) sample_feed)) =
     latest_tick ''kraken'' ''ETH/USDT'' sample_store"
  using dropped_symbol_is_frozen [OF sample_round, of "''ETH/USDT''" "''kraken''" sample_day "Fin 1" sample_feed]
  unfolding sample_round by (simp add: reorders_def sample_polling_def sample_feed_def)

section \<open>Refreshing the symbols\<close>

text \<open>The readings of the clock at which the provider was asked.\<close>

fun refresh_calls :: "pyfloat list \<Rightarrow> 'w polling \<Rightarrow> 'w \<Rightarrow> pyfloat list \<times> 'w polling" where
  "refresh_calls [] p w = ([], p)"
| "refresh_calls (now # later) p w =
     (case refresh_symbols now p w of (w1, p1) \<Rightarrow>
        (case refresh_calls later p1 w1 of (ts, p2) \<Rightarrow> (if refresh_due now p then now # ts else ts, p2)))"

lemma refresh_symbols_facts:
  assumes "refresh_symbols now p w = (w', p')"
  shows "po_last_refresh p' = (if refresh_due now p then now else po_last_refresh p) \<and> po_refresh p' = po_refresh p \<and>
    po_provider p' = po_provider p \<and> (po_symbols p \<noteq> [] \<longrightarrow> po_symbols p' \<noteq> [])"
  using assms by (auto simp: refresh_symbols_def Let_def split: prod.splits sum.splits if_splits)

lemma refresh_calls_spaced:
  assumes "refresh_calls (map Fin ts) p w = (cs, p')" "po_refresh p = Fin d" "po_last_refresh p = Fin l" "0 < l"
    and "\<forall>t \<in> set ts. 0 < t"
  shows "(\<exists>xs. cs = map Fin xs \<and> successively (\<lambda>a b. a + d \<le> b) (l # xs)) \<and> (po_symbols p \<noteq> [] \<longrightarrow> po_symbols p' \<noteq> [])"
  using assms
proof (induction ts arbitrary: p w cs l)
  case (Cons t ts)
  obtain w1 p1 where r: "refresh_symbols (Fin t) p w = (w1, p1)" by fastforce
  obtain cs1 where rest: "refresh_calls (map Fin ts) p1 w1 = (cs1, p')"
      "cs = (if refresh_due (Fin t) p then Fin t # cs1 else cs1)"
    using Cons.prems(1) r by (auto split: prod.splits)
  note f = refresh_symbols_facts [OF r]
  show ?case
  proof (cases "refresh_due (Fin t) p")
    case True
    then have "l + d \<le> t" using Cons.prems(2-4) by (auto simp: refresh_due_def)
    moreover obtain xs where "cs1 = map Fin xs" "successively (\<lambda>a b. a + d \<le> b) (t # xs)" "po_symbols p1 \<noteq> [] \<longrightarrow> po_symbols p' \<noteq> []"
      using Cons.IH [OF rest(1), of t] f True Cons.prems by auto
    ultimately show ?thesis using rest(2) True f by (intro conjI exI [of _ "t # xs"]) auto
  next
    case False
    then show ?thesis using Cons.IH [OF rest(1), of l] f Cons.prems rest(2) by auto
  qed
qed auto

text \<open>
  The exchange is not asked for symbols more often than configured. Over any sequence of rounds the
  times at which the provider is asked are at least the refresh interval apart, even when it fails, and
  a list that was not empty never becomes empty.
\<close>

theorem symbol_refreshes_spaced:
  assumes "refresh_calls (map Fin ts) p w = (cs, p')" "po_refresh p = Fin d" "po_last_refresh p = Fin 0"
    and "\<forall>t \<in> set ts. 0 < t"
  shows "(\<exists>xs. cs = map Fin xs \<and> successively (\<lambda>a b. a + d \<le> b) xs) \<and> (po_symbols p \<noteq> [] \<longrightarrow> po_symbols p' \<noteq> [])"
proof (cases ts)
  case (Cons t ts')
  obtain w1 p1 where r: "refresh_symbols (Fin t) p w = (w1, p1)" by fastforce
  obtain cs1 where rest: "refresh_calls (map Fin ts') p1 w1 = (cs1, p')"
      "cs = (if refresh_due (Fin t) p then Fin t # cs1 else cs1)"
    using assms(1) r Cons by (auto split: prod.splits)
  note f = refresh_symbols_facts [OF r]
  show ?thesis
  proof (cases "refresh_due (Fin t) p")
    case True
    with refresh_calls_spaced [OF rest(1), of d t] f assms Cons rest(2) show ?thesis
      by (auto intro: exI [of _ "t # _"])
  next
    case False
    then have never: "po_provider p = None \<or> po_refresh p \<le> Fin 0" using assms(3) by (auto simp: refresh_due_def)
    have "refresh_calls us q u = ([], q)" if "po_provider q = None \<or> po_refresh q \<le> Fin 0" for us and q :: "'a polling" and u
      using that by (induction us arbitrary: u) (auto simp: refresh_symbols_def refresh_due_def)
    with never assms(1) have "cs = []" "p' = p" by auto
    then show ?thesis by simp
  qed
qed (use assms in auto)


theorem symbol_refreshes_spaced_witness:
  "\<exists>cs p' xs. refresh_calls [Fin 1, Fin 2, Fin 61] sample_polling 0 = (cs, p') \<and> cs = map Fin xs \<and>
     successively (\<lambda>a b. a + 60 \<le> b) xs \<and> po_symbols p' \<noteq> []"
proof -
  obtain cs p' where run: "refresh_calls (map Fin [1, 2, 61]) sample_polling 0 = (cs, p')" by fastforce
  have "(\<exists>xs. cs = map Fin xs \<and> successively (\<lambda>a b. a + 60 \<le> b) xs) \<and> po_symbols p' \<noteq> []"
    using symbol_refreshes_spaced [OF run, of 60] by (simp add: sample_polling_def)
  with run show ?thesis by (auto simp del: refresh_calls.simps)
qed

end
