(* ===== verification/Runtime.thy ===== *)
theory Runtime
  imports Symbol_Discovery Runtime_Settings Momentum_Trap Orchestration Polling_Source
begin

text \<open>
  The composition of the running program (\<open>RuntimeContainer.build\<close> in \<open>app/runtime_container.py\<close>): from
  the configuration, the environment and the saved portfolio to the components, in the order in which
  the code builds them. The exchange library is a parameter, as are the calls to the database and the
  event bus. Servers, metrics and the orchestrator hold no trading state and are left out.
\<close>

section \<open>Building the components\<close>

record ('x, 'w) runtime =
  rt_settings :: runtime_settings
  rt_manager :: "'x manager"
  rt_symbols :: "string list"
  rt_source :: "'w polling"
  rt_store :: market_store
  rt_ledger :: ledger
  rt_guard :: portfolio_guard
  rt_pipeline :: "'w pipeline"
  rt_kill :: kill_switch
  rt_strategy :: "strategy option"
  rt_momentum :: mt_settings

record build_input =
  bi_env :: env
  bi_stored :: aegis_config  \<comment> \<open>the configuration after the encrypted file\<close>
  bi_state :: "pyval res"  \<comment> \<open>\<open>state_store.load()\<close>\<close>
  bi_database :: "trade sink"
  bi_reports :: "execution_report sink"
  bi_state_file :: "(string \<times> pyval) list sink"
  bi_bus :: "execution_event sink"
  bi_now :: datetime

definition strategy_config :: "strategy_settings \<Rightarrow> mr_config" where
  "strategy_config s =
     \<lparr>mc_target = rs_target s, mc_max_position = rs_max_position s, mc_window = rs_window s,
      mc_min_obs = rs_min_obs s, mc_entry_z = rs_entry_z s, mc_exit_z = rs_exit_z s,
      mc_imbalance = rs_imbalance s, mc_max_spread = rs_max_spread s, mc_cooldown = rs_cooldown s,
      mc_order_type = rs_order_type s, mc_min_order = rs_min_order s, mc_take_profit = rs_take_profit s,
      mc_stop_loss = rs_stop_loss s, mc_min_profit = rs_min_profit s, mc_max_hold = rs_max_hold s,
      mc_exit_cooldown = rs_exit_cooldown s, mc_loss_cooldown = rs_loss_cooldown s,
      mc_bad_drop = rs_bad_drop s\<rparr>"

definition discovery_limits_of :: "discovery_settings \<Rightarrow> discovery_limits" where
  "discovery_limits_of d =
     \<lparr>dl_quote = rs_quote d, dl_max_symbols = rs_max_symbols d, dl_min_volume = rs_min_volume d,
      dl_min_change = rs_min_change d, dl_max_change = rs_max_change d,
      dl_max_spread = rs_discovery_spread d, dl_excluded = rs_excluded d\<rparr>"

text \<open>The valid configuration, or the error that joins its problems.\<close>

definition checked_config :: "env \<Rightarrow> aegis_config \<Rightarrow> aegis_config res" where
  "checked_config env stored =
     (let cfg = load_config env stored; errors = validate_config cfg in
      if errors \<noteq> []
      then Inl (RuntimeError (Txt ''Configuration validation failed: '' #
             concat (map (\<lambda>m. m @ [Txt '' | '']) (butlast errors)) @ last errors))
      else Inr cfg)"

definition checked_settings :: "env \<Rightarrow> aegis_config \<Rightarrow> runtime_settings res" where
  "checked_settings env cfg =
     rbind (from_config env (\<lambda>_. VNone) cfg) (\<lambda>s. rbind (validate_settings s) (\<lambda>_. Inr s))"

text \<open>
  The symbols traded: discovered if that is enabled, with the configured ones as the fallback. They
  replace the configured symbols in the settings.
\<close>

definition runtime_symbols ::
  "('x, 'w) ccxt \<Rightarrow> env \<Rightarrow> runtime_settings \<Rightarrow> 'x manager \<Rightarrow> 'w \<Rightarrow> 'w \<times> string list" where
  "runtime_symbols cc env s mg w =
     (if rs_discover (rs_discovery s)
      then discover_symbols cc env (Some (wr_client (mg_primary mg))) (discovery_limits_of (rs_discovery s))
             (rs_symbols (rs_market s)) w
      else (w, rs_symbols (rs_market s)))"

definition restored_ledger :: "pyval res \<Rightarrow> datetime \<Rightarrow> ledger res" where
  "restored_ledger state now =
     rbind state (\<lambda>v. case v of
         VDict d \<Rightarrow>
           (case restore_snapshot new_ledger (dict_get d ''portfolio'' (VDict [])) now of
              (l, Inr _) \<Rightarrow> Inr l
            | (_, Inl e) \<Rightarrow> Inl e)
       | _ \<Rightarrow> Inl (AttributeError (text_msg ''object has no attribute get'')))"

text \<open>
  The polling source. Its provider repeats the discovery, with the symbols traded since the start as
  the fallback.
\<close>

definition symbols_provider ::
  "('x, 'w) ccxt \<Rightarrow> env \<Rightarrow> runtime_settings \<Rightarrow> 'x manager \<Rightarrow> ('w \<Rightarrow> 'w \<times> string list res) option" where
  "symbols_provider cc env s mg =
     (if rs_discover (rs_discovery s)
      then Some (\<lambda>w. apsnd Inr (discover_symbols cc env (Some (wr_client (mg_primary mg)))
                                  (discovery_limits_of (rs_discovery s)) (rs_symbols (rs_market s)) w))
      else None)"

definition market_source ::
  "('x, 'w) ccxt \<Rightarrow> env \<Rightarrow> runtime_settings \<Rightarrow> 'x manager \<Rightarrow> 'w polling res" where
  "market_source cc env s mg =
     new_polling env (rs_symbols (rs_market s)) (rs_poll_interval (rs_market s)) (rs_depth (rs_market s))
       (symbols_provider cc env s mg) (rs_refresh (rs_discovery s)) (Some (rs_concurrency (rs_market s)))"

definition assemble ::
  "('x, 'w) ccxt \<Rightarrow> build_input \<Rightarrow> runtime_settings \<Rightarrow> 'x manager \<Rightarrow> string list \<Rightarrow> ('x, 'w) runtime res" where
  "assemble cc bi s0 mg symbols =
     (let s = s0\<lparr>rs_market := (rs_market s0)\<lparr>rs_symbols := symbols\<rparr>\<rparr>;
          limits = rs_limits s; strat = rs_strategy s in
      if symbols = [] then Inl (RuntimeError (text_msg ''No market symbols configured.''))
      else rbind (market_source cc (bi_env bi) s mg) (\<lambda>source.
           rbind (new_market_store (rs_stale_after (rs_market s))) (\<lambda>store.
           rbind (new_portfolio_guard (rs_max_gross limits) (rs_max_net limits) (rs_max_weight limits)) (\<lambda>guard.
           rbind (restored_ledger (bi_state bi) (bi_now bi)) (\<lambda>l.
           rbind (new_pre_trade guard (rs_max_order limits) (rs_min_order strat)) (\<lambda>risk.
           rbind (new_kill_switch (rs_max_daily_loss limits) (rs_max_drawdown limits)) (\<lambda>kill.
           rbind (if rs_live strat
                  then rbind (new_strategy (strategy_config strat) (bi_env bi)) (\<lambda>st. Inr (Some st))
                  else Inr None) (\<lambda>live.
           rbind (new_momentum_settings (bi_env bi) symbols (rs_target strat) (rs_max_position strat)
                    (rs_min_order strat) (rs_order_type strat)) (\<lambda>momentum.
           Inr \<lparr>rt_settings = s, rt_manager = mg, rt_symbols = symbols, rt_source = source, rt_store = store, rt_ledger = l,
                rt_guard = guard,
                rt_pipeline =
                  \<lparr>pl_registry = runtime_registry cc mg,
                   pl_allowed = (case bi_env bi ''AEGIS_EXECUTION_EXCHANGES'' of None \<Rightarrow> [] | Some x \<Rightarrow> x),
                   pl_risk = risk,
                   pl_fills = \<lparr>fp_guard = guard, fp_database = Some (bi_database bi),
                               fp_store = bi_state_file bi\<rparr>,
                   pl_database = Some (bi_reports bi), pl_bus = Some (bi_bus bi)\<rparr>,
                rt_kill = kill, rt_strategy = live, rt_momentum = momentum\<rparr>)))))))))"

definition build_runtime :: "('x, 'w) ccxt \<Rightarrow> build_input \<Rightarrow> 'w \<Rightarrow> 'w \<times> ('x, 'w) runtime res" where
  "build_runtime cc bi w =
     (case rbind (checked_config (bi_env bi) (bi_stored bi)) (\<lambda>cfg.
             rbind (checked_settings (bi_env bi) cfg) (\<lambda>s. Inr (cfg, s))) of
        Inl e \<Rightarrow> (w, Inl e)
      | Inr (cfg, s) \<Rightarrow>
          (case new_manager cc (bi_env bi) cfg w of
             (w1, Inl e) \<Rightarrow> (w1, Inl e)
           | (w1, Inr mg) \<Rightarrow>
               (case runtime_symbols cc (bi_env bi) s mg w1 of
                  (w2, symbols) \<Rightarrow> (w2, assemble cc bi s mg symbols))))"

section \<open>The services\<close>

text \<open>
  The services in the order in which they are prepared and stopped; a program without the live strategy
  has no service for it. The hooks of a service act on the world of the program.
\<close>

definition service_names :: "('x, 'w) runtime \<Rightarrow> string list" where
  "service_names rt =
     [''market-data-service''] @ (if rt_strategy rt = None then [] else [''live-strategy-service'']) @
     [''momentum-trap-service'', ''execution-service'', ''risk-service'', ''risk-event-logger-service'',
      ''monitoring-service'', ''health-server-service'']"

definition runtime_orchestrator ::
  "(string \<Rightarrow> 's \<Rightarrow> 's \<times> unit res) \<Rightarrow> (string \<Rightarrow> 's \<Rightarrow> 's \<times> unit res) \<Rightarrow> ('x, 'w) runtime \<Rightarrow> 's orchestrator" where
  "runtime_orchestrator starts stops rt =
     new_orchestrator (map (\<lambda>n. \<lparr>mv_service = new_service n, mv_on_start = starts n, mv_on_stop = stops n\<rparr>) (service_names rt))"

lemma runtime_orchestrator_fresh: "fresh_orchestrator (runtime_orchestrator starts stops rt)"
  by (auto simp: fresh_orchestrator_def runtime_orchestrator_def new_orchestrator_def new_service_def service_names_def comp_def)

section \<open>What a start establishes\<close>

lemma checked_config_Inr:
  "checked_config env stored = Inr cfg \<longleftrightarrow> cfg = load_config env stored \<and> validate_config cfg = []"
  by (auto simp: checked_config_def Let_def)

lemma checked_settings_Inr:
  "checked_settings env cfg = Inr s \<longleftrightarrow> from_config env (\<lambda>_. VNone) cfg = Inr s \<and> validate_settings s = Inr ()"
  by (auto simp: checked_settings_def rbind_Inr_iff)

lemma build_runtimeE:
  assumes "build_runtime cc bi w = (w', Inr rt)"
  obtains cfg s mg w1 where "cfg = load_config (bi_env bi) (bi_stored bi)" "validate_config cfg = []"
    "from_config (bi_env bi) (\<lambda>_. VNone) cfg = Inr s" "validate_settings s = Inr ()"
    "new_manager cc (bi_env bi) cfg w = (w1, Inr mg)" "assemble cc bi s mg (rt_symbols rt) = Inr rt"
    "runtime_symbols cc (bi_env bi) s mg w1 = (w', rt_symbols rt)" "rt_manager rt = mg"
proof -
  obtain cfg s where c: "checked_config (bi_env bi) (bi_stored bi) = Inr cfg" "checked_settings (bi_env bi) cfg = Inr s"
    using assms by (auto simp: build_runtime_def rbind_def split: sum.splits)
  obtain w1 mg where m: "new_manager cc (bi_env bi) cfg w = (w1, Inr mg)"
    using assms c by (auto simp: build_runtime_def split: prod.splits sum.splits)
  obtain symbols where a: "runtime_symbols cc (bi_env bi) s mg w1 = (w', symbols)" "assemble cc bi s mg symbols = Inr rt"
    using assms c m by (auto simp: build_runtime_def split: prod.splits)
  have "rt_symbols rt = symbols" "rt_manager rt = mg"
    using a(2) by (auto simp: assemble_def rbind_Inr_iff Let_def split: if_splits)
  with a m c show thesis by (intro that [of cfg s w1 mg]) (auto simp: checked_config_Inr checked_settings_Inr)
qed

lemma assembleE:
  assumes "assemble cc bi s0 mg symbols = Inr rt"
  obtains guard risk where
    "symbols \<noteq> []" "rt_settings rt = s0\<lparr>rs_market := (rs_market s0)\<lparr>rs_symbols := symbols\<rparr>\<rparr>"
    "new_portfolio_guard (rs_max_gross (rs_limits s0)) (rs_max_net (rs_limits s0)) (rs_max_weight (rs_limits s0)) = Inr guard"
    "new_pre_trade guard (rs_max_order (rs_limits s0)) (rs_min_order (rs_strategy s0)) = Inr risk"
    "restored_ledger (bi_state bi) (bi_now bi) = Inr (rt_ledger rt)"
    "new_kill_switch (rs_max_daily_loss (rs_limits s0)) (rs_max_drawdown (rs_limits s0)) = Inr (rt_kill rt)"
    "rt_guard rt = guard" "pl_risk (rt_pipeline rt) = risk" "fp_guard (pl_fills (rt_pipeline rt)) = guard"
    "pl_registry (rt_pipeline rt) = runtime_registry cc mg"
    "rt_strategy rt = None \<or> (\<exists>st. rt_strategy rt = Some st \<and>
       new_strategy (strategy_config (rs_strategy s0)) (bi_env bi) = Inr st)"
  using assms
  by (auto simp: assemble_def rbind_Inr_iff Let_def split: if_splits)

lemma built_guard:
  "new_portfolio_guard gross net weight = Inr g \<Longrightarrow>
    g = \<lparr>g_max_gross = gross, g_max_net = net, g_max_weight = weight\<rparr>"
  by (auto simp: new_portfolio_guard_def rbind_Inr_iff)

lemma built_pre_trade:
  "new_pre_trade g most least = Inr v \<Longrightarrow> v = \<lparr>pt_guard = g, pt_max_order = most, pt_min_order = least\<rparr>"
  by (auto simp: new_pre_trade_def rbind_Inr_iff)

text \<open>
  C7. A program that starts is consistent. Its settings are valid; one guard with the configured limits
  serves the validator and the fill processor, and the validator has the configured order sizes; the kill
  switch is active with the configured limits; there is a symbol to trade; and a live strategy, if any,
  is the one of the settings, in its initial invariant.
\<close>

theorem started_runtime_consistent:
  assumes "build_runtime cc bi w = (w', Inr rt)"
  shows "validate_settings (rt_settings rt) = Inr () \<and> rt_symbols rt \<noteq> [] \<and>
    rt_guard rt = \<lparr>g_max_gross = rs_max_gross (rs_limits (rt_settings rt)),
      g_max_net = rs_max_net (rs_limits (rt_settings rt)),
      g_max_weight = rs_max_weight (rs_limits (rt_settings rt))\<rparr> \<and>
    pl_risk (rt_pipeline rt) = \<lparr>pt_guard = rt_guard rt, pt_max_order = rs_max_order (rs_limits (rt_settings rt)),
      pt_min_order = rs_min_order (rs_strategy (rt_settings rt))\<rparr> \<and>
    fp_guard (pl_fills (rt_pipeline rt)) = rt_guard rt \<and>
    \<not> k_triggered (rt_kill rt) \<and> k_max_loss (rt_kill rt) = rs_max_daily_loss (rs_limits (rt_settings rt)) \<and>
    k_max_drawdown (rt_kill rt) = rs_max_drawdown (rs_limits (rt_settings rt)) \<and>
    (case rt_strategy rt of None \<Rightarrow> True
     | Some st \<Rightarrow> mr_inv 0 (strategy_config (rs_strategy (rt_settings rt))) (st_set st) st)"
proof -
  obtain s mg where s: "validate_settings s = Inr ()" "assemble cc bi s mg (rt_symbols rt) = Inr rt"
    using assms by (rule build_runtimeE)
  obtain guard risk where a: "rt_symbols rt \<noteq> []"
      "rt_settings rt = s\<lparr>rs_market := (rs_market s)\<lparr>rs_symbols := rt_symbols rt\<rparr>\<rparr>"
      "new_portfolio_guard (rs_max_gross (rs_limits s)) (rs_max_net (rs_limits s)) (rs_max_weight (rs_limits s)) = Inr guard"
      "new_pre_trade guard (rs_max_order (rs_limits s)) (rs_min_order (rs_strategy s)) = Inr risk"
      "new_kill_switch (rs_max_daily_loss (rs_limits s)) (rs_max_drawdown (rs_limits s)) = Inr (rt_kill rt)"
      "rt_guard rt = guard" "pl_risk (rt_pipeline rt) = risk" "fp_guard (pl_fills (rt_pipeline rt)) = guard"
      "rt_strategy rt = None \<or> (\<exists>st. rt_strategy rt = Some st \<and>
         new_strategy (strategy_config (rs_strategy s)) (bi_env bi) = Inr st)"
    using s(2) by (rule assembleE)
  have "validate_settings (rt_settings rt) = Inr ()"
    using s(1) by (simp add: a(2) validated_simps)
  moreover have "guard = \<lparr>g_max_gross = rs_max_gross (rs_limits s), g_max_net = rs_max_net (rs_limits s),
      g_max_weight = rs_max_weight (rs_limits s)\<rparr>" "risk = \<lparr>pt_guard = guard, pt_max_order = rs_max_order (rs_limits s),
      pt_min_order = rs_min_order (rs_strategy s)\<rparr>"
    using built_guard [OF a(3)] built_pre_trade [OF a(4)] by auto
  moreover have kill: "rt_kill rt = \<lparr>k_max_loss = rs_max_daily_loss (rs_limits s),
      k_max_drawdown = rs_max_drawdown (rs_limits s), k_daily_pnl = Fin 0, k_peak = None, k_triggered = False,
      k_reason = None, k_triggered_at = None\<rparr>"
    using a(5) unfolding new_kill_switch_def rbind_Inr_iff by (elim exE conjE) (simp only: sum.inject)
  moreover have "case rt_strategy rt of None \<Rightarrow> True
      | Some st \<Rightarrow> mr_inv 0 (strategy_config (rs_strategy s)) (st_set st) st"
    using a(9) new_strategy_inv(3) by auto
  ultimately show ?thesis using a(1,6-8) by (simp add: a(2) split: option.splits)
qed

text \<open>
  Valid settings are enough to build every component but two: the polling source, the market store,
  the guard and the kill switch never refuse them. The order validator and the strategy still do, exactly
  for the figures that \<open>validate\<close> does not look at.
\<close>

theorem validated_settings_construct:
  assumes "validate_settings s = Inr ()"
  shows "is_ok (market_source cc env s mg) \<and> is_ok (new_market_store (rs_stale_after (rs_market s))) \<and>
    is_ok (new_portfolio_guard (rs_max_gross (rs_limits s)) (rs_max_net (rs_limits s)) (rs_max_weight (rs_limits s))) \<and>
    is_ok (new_kill_switch (rs_max_daily_loss (rs_limits s)) (rs_max_drawdown (rs_limits s))) \<and>
    (is_ok (new_pre_trade g (rs_max_order (rs_limits s)) (rs_min_order (rs_strategy s))) \<longleftrightarrow>
      \<not> rs_min_order (rs_strategy s) < Fin 0 \<and> \<not> rs_max_order (rs_limits s) < rs_min_order (rs_strategy s)) \<and>
    (config_checks (strategy_config (rs_strategy s)) = Inr () \<longleftrightarrow>
      \<not> rs_min_order (rs_strategy s) < Fin 0 \<and> \<not> rs_max_position (rs_strategy s) < rs_min_order (rs_strategy s) \<and>
      \<not> rs_take_profit (rs_strategy s) \<le> Fin 0 \<and> \<not> rs_stop_loss (rs_strategy s) \<le> Fin 0 \<and>
      \<not> rs_min_profit (rs_strategy s) < Fin 0 \<and> \<not> rs_max_hold (rs_strategy s) < Fin 0 \<and>
      \<not> rs_exit_cooldown (rs_strategy s) < Fin 0 \<and> \<not> rs_loss_cooldown (rs_strategy s) < Fin 0 \<and>
      \<not> rs_bad_drop (rs_strategy s) < Fin 0)"
proof -
  note v = assms [unfolded validated_simps, simplified]
  have upper: "rs_order_type (rs_strategy s) \<in> {''MARKET'', ''LIMIT''} \<Longrightarrow>
      str_upper (rs_order_type (rs_strategy s)) \<in> {''MARKET'', ''LIMIT''}"
    by (auto simp: str_simps)
  have poll: "is_ok (market_source cc env s mg)"
    using v by (simp add: market_source_def new_polling_def)
  moreover have "is_ok (new_market_store (rs_stale_after (rs_market s)))"
      "is_ok (new_portfolio_guard (rs_max_gross (rs_limits s)) (rs_max_net (rs_limits s)) (rs_max_weight (rs_limits s)))"
      "is_ok (new_kill_switch (rs_max_daily_loss (rs_limits s)) (rs_max_drawdown (rs_limits s)))"
    using v by (simp_all add: new_market_store_def new_portfolio_guard_def new_kill_switch_def)
  moreover have "is_ok (new_pre_trade g (rs_max_order (rs_limits s)) (rs_min_order (rs_strategy s))) \<longleftrightarrow>
      \<not> rs_min_order (rs_strategy s) < Fin 0 \<and> \<not> rs_max_order (rs_limits s) < rs_min_order (rs_strategy s)"
    using v by (simp add: new_pre_trade_def)
  moreover have "config_checks (strategy_config (rs_strategy s)) = Inr () \<longleftrightarrow>
      \<not> rs_min_order (rs_strategy s) < Fin 0 \<and> \<not> rs_max_position (rs_strategy s) < rs_min_order (rs_strategy s) \<and>
      \<not> rs_take_profit (rs_strategy s) \<le> Fin 0 \<and> \<not> rs_stop_loss (rs_strategy s) \<le> Fin 0 \<and>
      \<not> rs_min_profit (rs_strategy s) < Fin 0 \<and> \<not> rs_max_hold (rs_strategy s) < Fin 0 \<and>
      \<not> rs_exit_cooldown (rs_strategy s) < Fin 0 \<and> \<not> rs_loss_cooldown (rs_strategy s) < Fin 0 \<and>
      \<not> rs_bad_drop (rs_strategy s) < Fin 0"
    unfolding config_checks_def check_all_ok using v upper by (auto simp: strategy_config_def)
  ultimately show ?thesis by blast
qed

text \<open>
  C5. Orders leave the running program only with consent and credentials. If a submission changes the
  world outside, the program runs in PAPER mode or in LIVE mode with the confirmation phrase and the
  Binance keys; the change is that of a single \<open>create_order\<close> with the symbol, type and side of the
  order; and it is made on a connected exchange for which the configuration holds all credentials.
\<close>

theorem orders_need_consent_and_credentials:
  assumes "build_runtime cc bi w = (w0, Inr rt)" "cfg = load_config (bi_env bi) (bi_stored bi)"
    and "submit (rt_pipeline rt) ord marks uuid now ps = (ps', res)" "ps_world ps' \<noteq> ps_world ps"
  shows "(cfg_mode cfg = ''PAPER'' \<or>
      (cfg_mode cfg = ''LIVE'' \<and> cfg_live_confirm cfg = ''YES_I_ACCEPT_THE_RISK'' \<and>
       cfg_binance_key cfg \<noteq> [] \<and> cfg_binance_secret cfg \<noteq> [])) \<and>
    (\<exists>name wr amount price.
      (name, wr) \<in> set (mg_exchanges (rt_manager rt)) \<and> has_credentials name (creds_of cfg name) \<and>
      ps_world ps' = fst (cc_call cc (wr_client wr) ''create_order''
        [VStr (o_symbol ord), VStr (str_lower (type_value (o_type ord))),
         VStr (str_lower (side_value (o_side ord))), VFloat amount, opt_val price] (ps_world ps)))"
proof -
  obtain s mg w1 where b: "validate_config cfg = []" "new_manager cc (bi_env bi) cfg w = (w1, Inr mg)"
      "assemble cc bi s mg (rt_symbols rt) = Inr rt" "rt_manager rt = mg"
    by (rule build_runtimeE [OF assms(1)]) (use assms(2) in auto)
  have reg: "pl_registry (rt_pipeline rt) = runtime_registry cc mg" using b(3) by (rule assembleE)
  have "ps' \<noteq> ps" using assms(4) by auto
  then obtain x price and ord1 :: order where sent:
      "find_best_exchange (pl_registry (rt_pipeline rt)) (pl_allowed (rt_pipeline rt)) (o_symbol ord)
         (side_value (o_side ord)) (ps_world ps) = Inr (x, price)"
      "ps_world ps' = fst (x_create_order x (o_symbol ord) (str_lower (type_value (o_type ord)))
         (str_lower (side_value (o_side ord))) (o_quantity ord1) (o_price ord1) (ps_world ps))"
    using sent_only_approved [OF assms(3)] by blast
  obtain name where x: "(name, x) \<in> set (runtime_registry cc mg)" "\<not> x_disabled x"
    using found_registered [OF sent(1)] by (auto simp: reg)
  obtain wr where wr: "(name, wr) \<in> set (mg_exchanges mg)" "x = wrapper_exchange cc wr"
    using runtime_registry_mem [OF x(1)] by blast
  have "wr_enabled wr" using x(2) by (simp add: wr(2) wrapper_exchange_def)
  moreover from this have "has_credentials name (creds_of cfg name)"
    using new_manager_ok [OF b(2)] wr(1) by (auto simp: wrapper_ok_def)
  ultimately have "\<exists>name wr amount price.
      (name, wr) \<in> set (mg_exchanges (rt_manager rt)) \<and> has_credentials name (creds_of cfg name) \<and>
      ps_world ps' = fst (cc_call cc (wr_client wr) ''create_order''
        [VStr (o_symbol ord), VStr (str_lower (type_value (o_type ord))),
         VStr (str_lower (side_value (o_side ord))), VFloat amount, opt_val price] (ps_world ps))"
    using wr sent(2) by (auto simp: b(4) wrapper_exchange_def wrapper_create_order_def opt_val_def)
  with valid_live_confirmed [OF b(1)] show ?thesis by blast
qed

lemma processed_ledger_restores:
  assumes "process_fill p r marks strat uuid now s = (s', Inr res)" "fr_processed res"
    and "ledger_ok (fs_ledger s)" "saved_times (fs_ledger s)" "now_saved now" "fs_saved s' = Some payload"
  shows "restored_ledger (Inr (store_load (store_save payload))) now' =
    Inr (new_ledger\<lparr>l_positions := sort_key fst (l_positions (fs_ledger s')), l_realized := l_realized (fs_ledger s')\<rparr>)"
proof -
  obtain e bs where payload: "payload = state_payload (fs_ledger s') e bs r" "ledger_ok (fs_ledger s')"
      "saved_times (fs_ledger s')"
    using processed_state [OF assms(1-5)] assms(6) by (metis option.inject)
  have "distinct (map fst payload)" by (simp add: payload(1) state_payload_def)
  then have "dict_get (sort_key fst (map (map_prod id json_norm) payload)) ''portfolio'' (VDict []) =
      json_norm (VDict (ledger_snapshot (fs_ledger s')))"
    by (subst norm_dict_get) (simp_all add: payload(1) state_payload_def del: json_norm.simps)
  with stored_ledger_restores [OF payload(2,3)] show ?thesis
    by (simp add: restored_ledger_def store_load_def store_save_def del: json_norm.simps(7))
      (simp add: new_ledger_def)
qed

text \<open>
  C23. A restart keeps the portfolio. After a processed report, a program started from the file that was
  saved holds exactly the positions and the realized total of the ledger that wrote it, with the
  positions in the order of their symbols.
\<close>

theorem restart_keeps_portfolio:
  assumes "process_fill p r marks strat uuid now s = (s', Inr res)" "fr_processed res"
    and "ledger_ok (fs_ledger s)" "saved_times (fs_ledger s)" "now_saved now"
    and "fs_saved s' = Some payload" "bi_state bi = Inr (store_load (store_save payload))"
    and "build_runtime cc bi w = (w', Inr rt)"
  shows "l_positions (rt_ledger rt) = sort_key fst (l_positions (fs_ledger s')) \<and>
    (\<forall>symb. get_position (rt_ledger rt) symb = get_position (fs_ledger s') symb) \<and>
    l_realized (rt_ledger rt) = l_realized (fs_ledger s')"
proof -
  obtain st mg where "assemble cc bi st mg (rt_symbols rt) = Inr rt"
    using assms(8) by (rule build_runtimeE)
  then have "restored_ledger (Inr (store_load (store_save payload))) (bi_now bi) = Inr (rt_ledger rt)"
    unfolding assms(7) [symmetric] by (rule assembleE)
  then have "rt_ledger rt =
      new_ledger\<lparr>l_positions := sort_key fst (l_positions (fs_ledger s')), l_realized := l_realized (fs_ledger s')\<rparr>"
    using processed_ledger_restores [OF assms(1-6), of "bi_now bi"] by simp
  moreover have "dict_ok (l_positions (fs_ledger s'))"
    using processed_state [OF assms(1-5)] by (auto simp: ledger_ok_def)
  ultimately show ?thesis by (simp add: get_position_def map_of_sorted)
qed

section \<open>The default limits\<close>

lemma lone_order_weight:
  assumes "is_fin price" "is_fin (o_quantity ord)" "g_max_weight (pt_guard v) < Fin 1"
  shows "\<not> d_allowed (pre_trade_validate v ord price [] marks m)"
proof -
  obtain p q where pq: "price = Fin p" "o_quantity ord = Fin q" using assms(1,2) by (auto simp: is_fin_iff)
  show ?thesis
  proof (cases "0 < p \<and> 0 < q")
    case True
    then have "projection ord price [] marks = (Fin (q * p), if o_side ord = BUY then Fin (q * p) else Fin (- (q * p)), Fin 1)"
      by (simp add: projection_def exposure_calculate_def order_notional_def pq Let_def)
    then show ?thesis using assms(3) by (simp add: pre_trade_validate_def pre_trade_reasons_def Let_def)
  next
    case False
    then show ?thesis by (auto simp: pre_trade_validate_def pre_trade_reasons_def Let_def pq split: prod.split)
  qed
qed

text \<open>
  C12. The default configuration cannot trade. Without AEGIS_MAX_SYMBOL_WEIGHT the limit on a symbol's share
  of the gross exposure is 0.12 / 0.30, and the first order of an empty portfolio is all of it: the
  validator of a program started from the defaults refuses every order, whatever its finite size and
  price, while there is no position.
\<close>

theorem default_weight_refuses_first_order:
  assumes "build_runtime cc bi w = (w', Inr rt)" "bi_stored bi = default_config"
    and "bi_env bi ''AEGIS_MAX_SYMBOL_WEIGHT'' = None"
    and "is_fin price" "is_fin (o_quantity ord)"
  shows "\<not> d_allowed (pre_trade_validate (pl_risk (rt_pipeline rt)) ord price [] marks m)"
proof -
  obtain cfg s mg where s: "cfg = load_config (bi_env bi) (bi_stored bi)" "from_config (bi_env bi) (\<lambda>_. VNone) cfg = Inr s"
      "assemble cc bi s mg (rt_symbols rt) = Inr rt"
    using assms(1) by (rule build_runtimeE)
  then have "rs_max_weight (rs_limits s) = Fin (2 / 5)"
    using assms(2,3) by (auto simp: from_config_def read_limits_def rbind_Inr_iff Let_def rs_float_env_def read_env_def
      load_config_def default_config_def)
  moreover obtain guard risk where b: "new_portfolio_guard (rs_max_gross (rs_limits s)) (rs_max_net (rs_limits s)) (rs_max_weight (rs_limits s)) = Inr guard"
      "new_pre_trade guard (rs_max_order (rs_limits s)) (rs_min_order (rs_strategy s)) = Inr risk"
      "pl_risk (rt_pipeline rt) = risk"
    using s(3) by (rule assembleE)
  ultimately have "g_max_weight (pt_guard (pl_risk (rt_pipeline rt))) = Fin (2 / 5)"
    using built_guard [OF b(1)] built_pre_trade [OF b(2)] by auto
  then show ?thesis by (intro lone_order_weight assms) simp
qed

section \<open>Witnesses\<close>


text \<open>The variables of a program with one symbol and one exchange, with or without the weight limit.\<close>

definition btc_env :: "bool \<Rightarrow> env" where
  "btc_env relaxed name =
     (if name = ''AEGIS_MARKET_SYMBOLS'' then Some ''BTC/USDT''
      else if name = ''AEGIS_ENABLED_EXCHANGES'' then Some ''binance''
      else if name = ''BINANCE_API_KEY'' then Some ''key''
      else if name = ''BINANCE_SECRET'' then Some ''secret''
      else if name = ''AEGIS_MAX_SYMBOL_WEIGHT'' \<and> relaxed then Some ''1.00''
      else None)"

text \<open>A library whose clients quote an ask, record the order they get and then fail.\<close>

definition quoting_library :: "(string, string list) ccxt" where
  "quoting_library =
     \<lparr>cc_new = (\<lambda>name _ w. (w, Inr name)),
      cc_call = (\<lambda>_ method _ w.
        if method = ''fetch_order_book''
        then (w, Inr (VDict [(''asks'', VList [VList [VFloat (Fin 100), VFloat (Fin 1)]])]))
        else if method = ''create_order'' then (w @ [method], Inl (OtherError []))
        else if method = ''market'' then (w, Inr (VDict []))
        else if method = ''load_markets'' then (w, Inr VNone)
        else (w, Inl (OtherError []))),
      cc_attr = (\<lambda>_ _ _. None)\<rparr>"

definition sample_input :: "bool \<Rightarrow> pyval res \<Rightarrow> build_input" where
  "sample_input relaxed state =
     \<lparr>bi_env = btc_env relaxed, bi_stored = default_config, bi_state = state,
      bi_database = (\<lambda>_. None), bi_reports = (\<lambda>_. None), bi_state_file = (\<lambda>_. None),
      bi_bus = (\<lambda>_. None), bi_now = sample_time\<rparr>"

lemmas reader_defs = rs_float_env_def rs_int_env_def rs_bool_env_def read_env_def rs_str_env_def rs_tuple_env_def btc_env_def

definition sample_cfg :: aegis_config where
  "sample_cfg = default_config\<lparr>cfg_binance_key := ''key'', cfg_binance_secret := ''secret''\<rparr>"

lemma sample_cfg: "checked_config (btc_env relaxed) default_config = Inr sample_cfg"
  by (simp add: checked_config_def Let_def load_config_def overridden_def btc_env_def sample_cfg_def
    default_config_def validate_config_def)

lemma one_float: "py_float_of_str ''1.00'' = Some (Fin 1)"
  by (simp add: py_float_of_str_def parse_decimal_def str_simps str_strip_def is_space_def span_digits.simps is_digit_def char_of_eq_iff digits_val_def digit_val_def parse_exponent_def scale10_def)

definition sample_weight :: "bool \<Rightarrow> pyfloat" where
  "sample_weight relaxed = (if relaxed then Fin 1 else Fin (2/5))"

lemma sample_weight_ok: "\<not> sample_weight relaxed \<le> Fin 0" "sample_weight relaxed \<le> Fin 1" "Fin 0 < sample_weight relaxed"
  "\<not> Fin 1 < sample_weight relaxed"
  by (simp_all add: sample_weight_def)

lemma btc_limits: "read_limits (btc_env relaxed) sample_cfg = Inr
  \<lparr>rs_equity = Fin 10000, rs_max_gross = Fin 3000, rs_max_net = Fin 3000, rs_max_weight = sample_weight relaxed,
   rs_max_order = Fin 1200, rs_max_daily_loss = Fin 250, rs_max_drawdown = Fin 12\<rparr>"
  by (simp add: read_limits_def reader_defs  sample_cfg_def default_config_def Let_def one_float sample_weight_def)

lemma btc_market: "read_market (btc_env relaxed) (\<lambda>_. VNone) = Inr
  \<lparr>rs_symbols = [''BTC/USDT''], rs_poll_interval = Fin 2, rs_depth = 20, rs_concurrency = 8, rs_stale_after = Fin 30\<rparr>"
  by (simp add: read_market_def reader_defs symbols_from_config_def comma_items_def split_comma.simps
    str_strip_def is_space_def)

lemma btc_services: "\<exists>s. read_services (btc_env relaxed) = Inr s \<and> list_all (\<lambda>c. \<not> fst c) (validate_services s)"
  by (simp add: read_services_def reader_defs validate_services_def)

lemma btc_strategy: "\<exists>s. read_strategy (btc_env relaxed) = Inr s \<and> list_all (\<lambda>c. \<not> fst c) (validate_strategy s) \<and>
   rs_min_order s = Fin (11/2) \<and> rs_target s = Fin 100 \<and> rs_max_position s = Fin 300 \<and>
    rs_order_type s = ''MARKET'' \<and> config_checks (strategy_config s) = Inr ()"
  by (simp add: read_strategy_def reader_defs validate_strategy_def str_simps config_checks_def strategy_config_def )

lemma btc_discovery: "\<exists>s. read_discovery (btc_env relaxed) = Inr s \<and> \<not> rs_discover s"
  by (simp add: read_discovery_def reader_defs)

lemma btc_strategy_settings: "str_upper (mc_order_type c) = ''MARKET'' \<Longrightarrow> \<exists>e. read_settings c (btc_env relaxed) = Inr e"
  by (simp add: read_settings_def reader_defs int_env_def type_of_def Let_def)

lemma btc_momentum: "\<exists>m. new_momentum_settings (btc_env relaxed) [''BTC/USDT''] (Fin 100) (Fin 300) (Fin (11/2)) ''MARKET'' = Inr m"
  by (simp add: new_momentum_settings_def mt_int_env_def reader_defs str_simps type_of_def)

definition sample_wrapper :: "string wrapper" where
  "sample_wrapper = \<lparr>wr_id = ''binance'', wr_client = ''binance'', wr_enabled = True\<rparr>"

lemma btc_manager: "new_manager quoting_library (btc_env relaxed) sample_cfg [] =
    ([], Inr \<lparr>mg_exchanges = [(''binance'', sample_wrapper)], mg_primary = sample_wrapper\<rparr>)"
  by (simp add: new_manager_def btc_env_def enabled_exchanges_def str_simps exchange_definitions_def
     build_wrapper_def has_credentials_def connect_def make_exchange_def quoting_library_def
     sample_cfg_def default_config_def dict_simps sample_wrapper_def str_strip_def is_space_def split_comma.simps)


lemma btc_pre_trade: "new_pre_trade g (Fin 1200) (Fin (11/2)) = Inr \<lparr>pt_guard = g, pt_max_order = Fin 1200, pt_min_order = Fin (11/2)\<rparr>"
  by (simp add: new_pre_trade_def)

lemma sample_start:
  assumes "restored_ledger state sample_time = Inr l"
  shows "\<exists>rt. build_runtime quoting_library (sample_input relaxed state) [] = ([], Inr rt) \<and> rt_ledger rt = l \<and>
    mg_exchanges (rt_manager rt) = [(''binance'', sample_wrapper)] \<and>
    pl_registry (rt_pipeline rt) = [(''binance'', wrapper_exchange quoting_library sample_wrapper)] \<and>
    pl_allowed (rt_pipeline rt) = [] \<and>
    pt_guard (pl_risk (rt_pipeline rt)) = rt_guard rt \<and> pt_max_order (pl_risk (rt_pipeline rt)) = Fin 1200 \<and> pt_min_order (pl_risk (rt_pipeline rt)) = Fin (11/2) \<and>
    rt_guard rt = \<lparr>g_max_gross = Fin 3000, g_max_net = Fin 3000, g_max_weight = sample_weight relaxed\<rparr>"
proof -
  obtain serv where serv: "read_services (btc_env relaxed) = Inr serv" "list_all (\<lambda>c. \<not> fst c) (validate_services serv)"
    using btc_services by blast
  obtain strat where strat: "read_strategy (btc_env relaxed) = Inr strat" "list_all (\<lambda>c. \<not> fst c) (validate_strategy strat)"
      "rs_min_order strat = Fin (11/2)" "rs_target strat = Fin 100" "rs_max_position strat = Fin 300"
      "rs_order_type strat = ''MARKET''" "config_checks (strategy_config strat) = Inr ()"
    using btc_strategy by blast
  obtain disc where disc: "read_discovery (btc_env relaxed) = Inr disc" "\<not> rs_discover disc"
    using btc_discovery by blast
  obtain s where s: "checked_settings (btc_env relaxed) sample_cfg = Inr s" "rs_discovery s = disc" "rs_strategy s = strat"
      "rs_limits s = \<lparr>rs_equity = Fin 10000, rs_max_gross = Fin 3000, rs_max_net = Fin 3000, rs_max_weight = sample_weight relaxed,
        rs_max_order = Fin 1200, rs_max_daily_loss = Fin 250, rs_max_drawdown = Fin 12\<rparr>"
      "rs_market s = \<lparr>rs_symbols = [''BTC/USDT''], rs_poll_interval = Fin 2, rs_depth = 20, rs_concurrency = 8,
        rs_stale_after = Fin 30\<rparr>"
    using serv strat disc
    by (simp add: checked_settings_def from_config_def btc_limits btc_market validate_settings_ok validate_limits_def validate_market_def rbind_Inr_iff sample_weight_ok)
  obtain e where "read_settings (strategy_config strat) (btc_env relaxed) = Inr e"
    using btc_strategy_settings [of "strategy_config strat"] strat(6) by (auto simp: strategy_config_def str_simps)
  then obtain st where st: "new_strategy (strategy_config strat) (btc_env relaxed) = Inr st"
    using strat by (simp add: new_strategy_def)
  obtain m where m: "new_momentum_settings (btc_env relaxed) [''BTC/USDT''] (Fin 100) (Fin 300) (Fin (11/2)) ''MARKET'' = Inr m"
    using btc_momentum by blast
  have asm: "\<exists>rt. assemble quoting_library (sample_input relaxed state) s
      \<lparr>mg_exchanges = [(''binance'', sample_wrapper)], mg_primary = sample_wrapper\<rparr> [''BTC/USDT''] = Inr rt \<and> rt_ledger rt = l \<and>
    mg_exchanges (rt_manager rt) = [(''binance'', sample_wrapper)] \<and>
    pl_registry (rt_pipeline rt) = [(''binance'', wrapper_exchange quoting_library sample_wrapper)] \<and>
    pl_allowed (rt_pipeline rt) = [] \<and>
    pt_guard (pl_risk (rt_pipeline rt)) = rt_guard rt \<and> pt_max_order (pl_risk (rt_pipeline rt)) = Fin 1200 \<and> pt_min_order (pl_risk (rt_pipeline rt)) = Fin (11/2) \<and>
    rt_guard rt = \<lparr>g_max_gross = Fin 3000, g_max_net = Fin 3000, g_max_weight = sample_weight relaxed\<rparr>"
    by (simp add: assemble_def Let_def market_source_def new_polling_def s strat st m assms new_market_store_def new_portfolio_guard_def sample_weight_ok
       btc_pre_trade new_kill_switch_def sample_input_def runtime_registry_def reg_register_def dict_simps)
      (simp add: btc_env_def)
  show ?thesis
    using asm disc(2) by (auto simp: build_runtime_def sample_input_def sample_cfg s btc_manager runtime_symbols_def)
qed

lemma fresh_ledger: "restored_ledger (Inr (VDict [])) now = Inr new_ledger"
  by (simp add: restored_ledger_def dict_simps restore_snapshot_def new_ledger_def dict_get_def float_field_def)

theorem started_runtime_consistent_witness:
  "\<exists>rt. build_runtime quoting_library (sample_input True (Inr (VDict []))) [] = ([], Inr rt) \<and>
    validate_settings (rt_settings rt) = Inr () \<and> rt_guard rt = fp_guard (pl_fills (rt_pipeline rt))"
proof -
  obtain rt where run: "build_runtime quoting_library (sample_input True (Inr (VDict []))) [] = ([], Inr rt)"
    using sample_start [OF fresh_ledger] by blast
  from started_runtime_consistent [OF run] run show ?thesis by auto
qed

theorem validated_settings_construct_witness:
  "\<exists>s. validate_settings s = Inr () \<and> is_ok (new_market_store (rs_stale_after (rs_market s)))"
proof -
  obtain rt where run: "build_runtime quoting_library (sample_input True (Inr (VDict []))) [] = ([], Inr rt)"
    using sample_start [OF fresh_ledger] by blast
  then obtain s where "validate_settings s = Inr ()" by (rule build_runtimeE)
  from this validated_settings_construct [OF this] show ?thesis by blast
qed

lemma sample_quote:
  "find_best_exchange [(''binance'', wrapper_exchange quoting_library sample_wrapper)] [] ''BTC/USDT'' ''BUY'' [] =
    Inr (wrapper_exchange quoting_library sample_wrapper, Fin 100)"
  by (simp add: find_best_exchange_def reg_all_def wrapper_exchange_def sample_wrapper_def quoting_library_def usable_quote_def
    skipped_def extract_price_def allowed_exchanges_def str_strip_def py_true_def str_simps wr_best_ask_def best_level_def
    fetch_order_book_def retried_Inr wrapper_call_def dict_simps opt_val_def)

definition btc_order :: order where
  "btc_order = new_order ''BTC/USDT'' BUY (Fin 2) MARKET None VNone ''cid'' sample_time"

lemma sample_sent:
  assumes "pl_registry pl = [(''binance'', wrapper_exchange quoting_library sample_wrapper)]" "pl_allowed pl = []"
    "pl_risk pl = \<lparr>pt_guard = \<lparr>g_max_gross = Fin 3000, g_max_net = Fin 3000, g_max_weight = Fin 1\<rparr>,
       pt_max_order = Fin 1200, pt_min_order = Fin (11/2)\<rparr>"
  shows "ps_world (fst (submit pl btc_order [] ''t'' sample_time
    \<lparr>ps_world = [], ps_fills = empty_fill_state, ps_reports = [], ps_events = []\<rparr>)) = [''create_order'']"
proof -
  let ?x = "wrapper_exchange quoting_library sample_wrapper"
  let ?ps = "\<lparr>ps_world = [], ps_fills = empty_fill_state, ps_reports = [], ps_events = []\<rparr>"
  have ask: "x_amount_precision ?x = Some (\<lambda>symb x w. Inr (VFloat x))" "x_price_precision ?x = Some (\<lambda>symb x w. Inr (VFloat x))"
     "x_min_notional ?x = Some (\<lambda>symb w. Inr VNone)"
    by (simp_all add: wrapper_exchange_def to_precision_def quoting_library_def wr_min_notional_def market_min_notional_def dict_simps
      opt_val_def py_or_def)
  have prep: "prepare_order pl [] ?ps btc_order = (btc_order\<lparr>o_status := VALIDATED\<rparr>,
      Inr (?x, \<lparr>d_allowed = True, d_reasons = [], d_gross = Fin 200, d_net = Fin 200, d_weight = Fin 1\<rparr>))"
    by (simp add: prepare_order_def andthen_run move_order_def btc_order_def new_order_def validate_order_def
      assms sample_quote)
    (simp add: andthen_def apply_precision_def update_by_def precise_amount_def precise_price_def ask
      query_def exchange_min_notional_def empty_fill_state_def new_ledger_def positions_def
      pre_trade_validate_def projection_def exposure_calculate_def order_notional_def pre_trade_reasons_def
      effective_min_def Let_def)
  have "sent ?x (btc_order\<lparr>o_status := VALIDATED\<rparr>) [] = ([''create_order''], Inl (OtherError []))"
    by (simp add: sent_def wrapper_exchange_def wrapper_create_order_def sample_wrapper_def quoting_library_def)
  then show ?thesis
    by (simp add: submit_def prep send_order_eq)
qed

theorem default_weight_refuses_first_order_witness:
  "\<exists>rt. build_runtime quoting_library (sample_input False (Inr (VDict []))) [] = ([], Inr rt) \<and>
    \<not> d_allowed (pre_trade_validate (pl_risk (rt_pipeline rt)) btc_order (Fin 100) [] [] None)"
proof -
  obtain rt where run: "build_runtime quoting_library (sample_input False (Inr (VDict []))) [] = ([], Inr rt)"
    using sample_start [OF fresh_ledger] by blast
  from default_weight_refuses_first_order [OF run, of "Fin 100" btc_order] run show ?thesis
    by (auto simp: sample_input_def btc_env_def btc_order_def new_order_def)
qed

theorem orders_need_consent_and_credentials_witness:
  "\<exists>rt ps' res. build_runtime quoting_library (sample_input True (Inr (VDict []))) [] = ([], Inr rt) \<and>
    submit (rt_pipeline rt) btc_order [] ''t'' sample_time
      \<lparr>ps_world = [], ps_fills = empty_fill_state, ps_reports = [], ps_events = []\<rparr> = (ps', res) \<and>
    ps_world ps' = [''create_order''] \<and> (\<exists>name wr. (name, wr) \<in> set (mg_exchanges (rt_manager rt)))"
proof -
  obtain rt where run: "build_runtime quoting_library (sample_input True (Inr (VDict []))) [] = ([], Inr rt)"
      "pl_registry (rt_pipeline rt) = [(''binance'', wrapper_exchange quoting_library sample_wrapper)]"
      "pl_allowed (rt_pipeline rt) = []" "pt_max_order (pl_risk (rt_pipeline rt)) = Fin 1200"
      "pt_min_order (pl_risk (rt_pipeline rt)) = Fin (11 / 2)" "pt_guard (pl_risk (rt_pipeline rt)) = rt_guard rt"
      "rt_guard rt = \<lparr>g_max_gross = Fin 3000, g_max_net = Fin 3000, g_max_weight = Fin 1\<rparr>"
    using sample_start [OF fresh_ledger, of True] by (auto simp: sample_weight_def)
  let ?ps = "\<lparr>ps_world = [], ps_fills = empty_fill_state, ps_reports = [], ps_events = []\<rparr>"
  obtain ps' res where sub: "submit (rt_pipeline rt) btc_order [] ''t'' sample_time ?ps = (ps', res)" by fastforce
  moreover have "ps_world ps' = [''create_order'']"
    using sample_sent [OF run(2,3)] run(4-7) sub by (cases "pl_risk (rt_pipeline rt)") auto
  ultimately show ?thesis
    using orders_need_consent_and_credentials [OF run(1) refl sub] run(1) by auto
qed

text \<open>The payload that a first fill saves.\<close>

theorem restart_keeps_portfolio_witness:
  "\<exists>s' res payload rt. process_fill (sample_processor None) sample_report [] VNone ''t'' sample_time
      empty_fill_state = (s', Inr res) \<and> fs_saved s' = Some payload \<and>
    build_runtime quoting_library (sample_input True (Inr (store_load (store_save payload)))) [] = ([], Inr rt) \<and>
    get_position (rt_ledger rt) ''BTC'' = get_position (fs_ledger s') ''BTC''"
proof -
  have "\<exists>s' res. process_fill (sample_processor None) sample_report [] VNone ''t'' sample_time
      empty_fill_state = (s', Inr res) \<and> fr_processed res"
    by (simp add: process_simps Let_def str_simps)
  then obtain s' res where run: "process_fill (sample_processor None) sample_report [] VNone ''t'' sample_time
      empty_fill_state = (s', Inr res)" "fr_processed res" by blast
  have ok: "ledger_ok (fs_ledger empty_fill_state)" "saved_times (fs_ledger empty_fill_state)" "now_saved sample_time"
    by (simp_all add: empty_fill_state_def new_ledger_def ledger_ok_def saved_times_def now_saved_def
        sample_time_def valid_datetime_def days_in_month_def)
  obtain payload where saved: "fs_saved s' = Some payload" using processed_state [OF run ok] by blast
  obtain l where "restored_ledger (Inr (store_load (store_save payload))) sample_time = Inr l"
    using processed_ledger_restores [OF run ok saved] by blast
  then obtain rt where start: "build_runtime quoting_library (sample_input True (Inr (store_load (store_save payload)))) [] = ([], Inr rt)"
    using sample_start by blast
  from restart_keeps_portfolio [OF run ok saved _ start] run(1) saved start show ?thesis
    by (auto simp: sample_input_def)
qed

end
