(* ===== verification/Legacy_Risk.thy ===== *)
theory Legacy_Risk
  imports Prelude
begin

text \<open>
  The risk manager of the legacy trading program (\<open>risk.py\<close>): loss limits and pauses, position sizing,
  running statistics, the slippage blacklist. Readings of the clock are arguments; a call that reads it
  twice gets one reading.
\<close>

section \<open>State\<close>

text \<open>The fields of the configuration that the risk manager reads.\<close>

record risk_rules =
  ru_stop_mult :: pyfloat
  ru_tp1_mult :: pyfloat
  ru_tp2_mult :: pyfloat
  ru_base_risk :: pyfloat
  ru_kelly_fraction :: pyfloat
  ru_max_heat :: pyfloat
  ru_max_allocation :: pyfloat
  ru_ml_threshold :: pyfloat
  ru_max_losses :: int
  ru_daily_loss_pct :: pyfloat
  ru_weekly_loss_pct :: pyfloat
  ru_drawdown_pct :: pyfloat
  ru_lock_hours :: pyfloat
  ru_max_slippage :: pyfloat
  ru_time_stop :: int

record legacy_trade =
  lt_symbol :: string
  lt_entry :: pyfloat
  lt_qty :: pyfloat
  lt_initial_qty :: pyfloat
  lt_stop :: pyfloat
  lt_tp1 :: pyfloat
  lt_tp2 :: pyfloat
  lt_atr_entry :: pyfloat
  lt_atr :: pyfloat
  lt_risk :: pyfloat
  lt_entry_fee :: pyfloat
  lt_signal :: string
  lt_time :: pyfloat
  lt_bar :: int
  lt_tp1_taken :: bool
  lt_tp2_taken :: bool
  lt_trail :: bool
  lt_early_trail :: bool
  lt_mode :: string

record risk_manager =
  lr_peak :: pyfloat
  lr_equity_peak :: pyfloat
  lr_daily_start :: pyfloat
  lr_weekly_start :: pyfloat
  lr_trades_today :: int
  lr_wins :: int
  lr_losses :: int
  lr_consecutive :: int
  lr_daily_stop :: bool
  lr_weekly_reduced :: bool
  lr_locked_until :: pyfloat
  lr_pause_until :: pyfloat
  lr_breakers :: int
  lr_trades :: int
  lr_total_wins :: int
  lr_total_losses :: int
  lr_avg_win :: pyfloat
  lr_avg_loss :: pyfloat
  lr_win_rate :: pyfloat
  lr_expectancy :: pyfloat
  lr_slippage :: "(string, pyfloat list) pydict"
  lr_blacklist :: "(string, pyfloat) pydict"
  lr_bars :: int

definition new_risk_manager :: risk_manager where
  "new_risk_manager =
     \<lparr>lr_peak = Fin 0, lr_equity_peak = Fin 0, lr_daily_start = Fin 0, lr_weekly_start = Fin 0, lr_trades_today = 0,
      lr_wins = 0, lr_losses = 0, lr_consecutive = 0, lr_daily_stop = False, lr_weekly_reduced = False,
      lr_locked_until = Fin 0, lr_pause_until = Fin 0, lr_breakers = 0, lr_trades = 0, lr_total_wins = 0,
      lr_total_losses = 0, lr_avg_win = Fin 0, lr_avg_loss = Fin 0, lr_win_rate = Fin 0, lr_expectancy = Fin 0,
      lr_slippage = [], lr_blacklist = [], lr_bars = 0\<rparr>"

abbreviation float_of_int :: "int \<Rightarrow> pyfloat" where
  "float_of_int i \<equiv> Fin (of_int i)"

section \<open>Loss limits\<close>

definition check_daily_loss :: "risk_rules \<Rightarrow> pyfloat \<Rightarrow> risk_manager \<Rightarrow> risk_manager \<times> bool" where
  "check_daily_loss ru equity m =
     (if lr_daily_stop m then (m, True)
      else if lr_daily_start m \<le> Fin 0 then (m, False)
      else if ru_daily_loss_pct ru \<le> (lr_daily_start m - equity) / lr_daily_start m * Fin 100
      then (m\<lparr>lr_daily_stop := True\<rparr>, True)
      else (m, False))"

definition check_weekly_loss :: "risk_rules \<Rightarrow> pyfloat \<Rightarrow> risk_manager \<Rightarrow> risk_manager \<times> bool" where
  "check_weekly_loss ru equity m =
     (if lr_weekly_start m \<le> Fin 0 then (m, False)
      else if ru_weekly_loss_pct ru \<le> (lr_weekly_start m - equity) / lr_weekly_start m * Fin 100
      then (m\<lparr>lr_weekly_reduced := True\<rparr>, True)
      else (m\<lparr>lr_weekly_reduced := False\<rparr>, False))"

definition check_historical_drawdown :: "risk_rules \<Rightarrow> pyfloat \<Rightarrow> pyfloat \<Rightarrow> risk_manager \<Rightarrow> risk_manager \<times> bool" where
  "check_historical_drawdown ru now equity m =
     (if lr_peak m \<le> Fin 0 then (m, False)
      else if now < lr_locked_until m then (m, True)
      else if ru_drawdown_pct ru \<le> (lr_peak m - equity) / lr_peak m * Fin 100
      then (m\<lparr>lr_locked_until := now + ru_lock_hours ru * Fin 3600\<rparr>, True)
      else (m, False))"

datatype halt = Historical_Drawdown | Daily_Loss | Paused pyfloat

definition is_trading_halted :: "risk_rules \<Rightarrow> pyfloat \<Rightarrow> pyfloat \<Rightarrow> risk_manager \<Rightarrow> risk_manager \<times> halt option" where
  "is_trading_halted ru now equity m =
     (case check_historical_drawdown ru now equity m of
        (m1, True) \<Rightarrow> (m1, Some Historical_Drawdown)
      | (m1, False) \<Rightarrow>
          (case check_daily_loss ru equity m1 of
             (m2, True) \<Rightarrow> (m2, Some Daily_Loss)
           | (m2, False) \<Rightarrow>
               (m2, if now < lr_pause_until m2 then Some (Paused ((lr_pause_until m2 - now) / Fin 3600)) else None)))"

definition on_loss :: "risk_rules \<Rightarrow> pyfloat \<Rightarrow> risk_manager \<Rightarrow> risk_manager" where
  "on_loss ru now m =
     (let m1 = m\<lparr>lr_losses := lr_losses m + 1, lr_total_losses := lr_total_losses m + 1,
                 lr_consecutive := lr_consecutive m + 1\<rparr>
      in if ru_max_losses ru \<le> lr_consecutive m1
         then m1\<lparr>lr_breakers := lr_breakers m1 + 1,
                 lr_pause_until := now + float_of_int (min (4 * (lr_breakers m1 + 1)) 48 * 3600),
                 lr_consecutive := 0\<rparr>
         else m1)"

definition on_win :: "risk_manager \<Rightarrow> risk_manager" where
  "on_win m = m\<lparr>lr_wins := lr_wins m + 1, lr_total_wins := lr_total_wins m + 1, lr_consecutive := 0\<rparr>"

section \<open>Position sizing\<close>

definition dynamic_risk :: "risk_rules \<Rightarrow> pyfloat \<Rightarrow> risk_manager \<Rightarrow> pyfloat" where
  "dynamic_risk ru equity m =
     (let base = ru_base_risk ru in
      if lr_peak m \<le> Fin 0 then base
      else let dd = (lr_peak m - equity) / lr_peak m in
        if Fin (7/100) < dd then base * Fin (40/100)
        else if Fin (5/100) < dd then base * Fin (60/100)
        else if Fin (3/100) < dd then base * Fin (80/100)
        else base)"

definition kelly :: "risk_rules \<Rightarrow> pyfloat \<Rightarrow> pyfloat \<Rightarrow> pyfloat \<Rightarrow> pyfloat" where
  "kelly ru win_rate avg_win avg_loss =
     (if py_eq avg_loss (Fin 0) then Fin 0
      else let b = avg_win / avg_loss; q = Fin 1 - win_rate;
               k = (win_rate * b - q) / py_max b (Fin (1 / 10 ^ 10))
           in py_max (Fin 0) (py_min (k * ru_kelly_fraction ru) (Fin (5/100))))"

record sizing =
  sz_amount :: pyfloat
  sz_stop :: pyfloat
  sz_tp1 :: pyfloat
  sz_tp2 :: pyfloat
  sz_risk :: pyfloat

text \<open>The share of the equity at risk, after all its adjustments.\<close>

definition risk_share :: "risk_rules \<Rightarrow> pyfloat \<Rightarrow> pyfloat \<Rightarrow> pyfloat \<Rightarrow> pyfloat \<Rightarrow> risk_manager \<Rightarrow> pyfloat" where
  "risk_share ru equity ml_prob corr atr_rel m =
     (let r0 = dynamic_risk ru equity m;
          r1 = (if 20 \<le> lr_trades m \<and> Fin 0 < lr_avg_loss m \<and> Fin 0 < lr_avg_win m
                then py_min r0 (kelly ru (lr_win_rate m) (lr_avg_win m) (lr_avg_loss m)) else r0);
          r2 = (if ml_prob < ru_ml_threshold ru then r1 * Fin (1/2)
                else if Fin (72/100) < ml_prob then r1 * Fin (115/100) else r1);
          r3 = (if lr_weekly_reduced m then r2 * Fin (1/2) else r2);
          r4 = r3 * corr
      in if Fin (2/100) < atr_rel then r4 * Fin (1/2) else r4)"

definition position_size ::
  "risk_rules \<Rightarrow> pyfloat \<Rightarrow> pyfloat \<Rightarrow> pyfloat \<Rightarrow> pyfloat \<Rightarrow> pyfloat \<Rightarrow> pyfloat \<Rightarrow> risk_manager \<Rightarrow> sizing option res" where
  "position_size ru price atr equity open_risk ml_prob corr m =
     (let stop_distance = ru_stop_mult ru * atr in
      if stop_distance < price * Fin (1/1000) then Inr None
      else rbind (py_div atr price) (\<lambda>atr_rel.
        let share = risk_share ru equity ml_prob corr atr_rel m;
            liquid = py_max (Fin 0) (equity - open_risk);
            units = (if Fin 0 < stop_distance then liquid * share / stop_distance else Fin 0);
            usd = py_min (units * price) (liquid * ru_max_allocation ru)
        in if usd < Fin 10 then Inr None
           else rbind (py_div usd price) (\<lambda>amount.
             let new_risk = amount * stop_distance in
             if liquid * ru_max_heat ru < open_risk + new_risk then Inr None
             else Inr (Some \<lparr>sz_amount = amount, sz_stop = price - stop_distance, sz_tp1 = price + ru_tp1_mult ru * atr,
                             sz_tp2 = price + ru_tp2_mult ru * atr, sz_risk = new_risk\<rparr>))))"

section \<open>Statistics\<close>

definition update_stats :: "pyfloat \<Rightarrow> pyfloat \<Rightarrow> risk_manager \<Rightarrow> risk_manager" where
  "update_stats pnl r m =
     (let m1 = m\<lparr>lr_trades := lr_trades m + 1\<rparr>;
          m2 = (if Fin 0 < pnl
                then m1\<lparr>lr_avg_win := lr_avg_win m1 + (r - lr_avg_win m1) / float_of_int (max (lr_total_wins m1) 1)\<rparr>
                else m1\<lparr>lr_avg_loss := lr_avg_loss m1 + (\<bar>r\<bar> - lr_avg_loss m1) / float_of_int (max (lr_total_losses m1) 1)\<rparr>)
      in if 0 < lr_trades m2
         then let rate = float_of_int (lr_total_wins m2) / float_of_int (lr_trades m2)
              in m2\<lparr>lr_win_rate := rate, lr_expectancy := rate * lr_avg_win m2 - (Fin 1 - rate) * lr_avg_loss m2\<rparr>
         else m2)"

section \<open>Slippage\<close>

definition record_slippage :: "risk_rules \<Rightarrow> pyfloat \<Rightarrow> string \<Rightarrow> pyfloat \<Rightarrow> pyfloat \<Rightarrow> risk_manager \<Rightarrow> risk_manager" where
  "record_slippage ru now symb expected actual m =
     (let slip = \<bar>actual - expected\<bar> / py_max expected (Fin (1 / 10 ^ 10));
          h0 = dict_get (lr_slippage m) symb [] @ [slip];
          hist = (if 20 < length h0 then drop 1 h0 else h0);
          avg = py_sum hist / Fin (real (length hist));
          m1 = m\<lparr>lr_slippage := dict_set symb hist (lr_slippage m)\<rparr>
      in if ru_max_slippage ru < avg \<and> 5 \<le> length hist
         then m1\<lparr>lr_blacklist := dict_set symb (now + Fin 86400) (lr_blacklist m1)\<rparr> else m1)"

definition is_blacklisted :: "pyfloat \<Rightarrow> string \<Rightarrow> risk_manager \<Rightarrow> risk_manager \<times> bool" where
  "is_blacklisted now symb m =
     (if now < dict_get (lr_blacklist m) symb (Fin 0) then (m, True)
      else (m\<lparr>lr_blacklist := dict_pop symb (lr_blacklist m)\<rparr>, False))"

section \<open>Time stop and resets\<close>

definition should_time_stop :: "risk_rules \<Rightarrow> legacy_trade \<Rightarrow> risk_manager \<Rightarrow> bool" where
  "should_time_stop ru t m \<longleftrightarrow> ru_time_stop ru \<le> lr_bars m - lt_bar t"

definition reset_daily :: "pyfloat \<Rightarrow> risk_manager \<Rightarrow> risk_manager" where
  "reset_daily equity m =
     m\<lparr>lr_trades_today := 0, lr_wins := 0, lr_losses := 0, lr_daily_stop := False, lr_daily_start := equity, lr_bars := 0\<rparr>"

definition reset_weekly :: "pyfloat \<Rightarrow> risk_manager \<Rightarrow> risk_manager" where
  "reset_weekly equity m = m\<lparr>lr_weekly_start := equity, lr_weekly_reduced := False\<rparr>"

definition update_equity_peaks :: "pyfloat \<Rightarrow> risk_manager \<Rightarrow> risk_manager" where
  "update_equity_peaks equity m =
     (let m1 = (if lr_equity_peak m < equity then m\<lparr>lr_equity_peak := equity\<rparr> else m)
      in if lr_peak m1 < equity then m1\<lparr>lr_peak := equity\<rparr> else m1)"


section \<open>Sizing respects the limits\<close>

definition finite_rules :: "risk_rules \<Rightarrow> bool" where
  "finite_rules ru \<longleftrightarrow> list_all is_fin [ru_stop_mult ru, ru_tp1_mult ru, ru_tp2_mult ru, ru_base_risk ru,
     ru_kelly_fraction ru, ru_max_heat ru, ru_max_allocation ru] \<and> Fin 0 \<le> ru_base_risk ru"

definition finite_stats :: "risk_manager \<Rightarrow> bool" where
  "finite_stats m \<longleftrightarrow> list_all is_fin [lr_peak m, lr_avg_win m, lr_avg_loss m, lr_win_rate m]"

lemma dynamic_risk_bounds:
  assumes "ru_base_risk ru = Fin b" "0 \<le> b" "is_fin (lr_peak m)"
  shows "\<exists>d. dynamic_risk ru (Fin e) m = Fin d \<and> 0 \<le> d \<and> d \<le> b"
proof -
  obtain p where p: "lr_peak m = Fin p" using assms(3) by (auto simp: is_fin_iff)
  have "dynamic_risk ru (Fin e) m \<in> {Fin b, Fin (b * (40/100)), Fin (b * (60/100)), Fin (b * (80/100))}"
    using assms(1) by (auto simp: dynamic_risk_def p Let_def)
  then show ?thesis using assms(2) by auto
qed

lemma kelly_bounds:
  assumes "is_fin (ru_kelly_fraction ru)" "is_fin w" "is_fin aw" "is_fin al" "Fin 0 < al"
  shows "\<exists>k. kelly ru w aw al = Fin k \<and> 0 \<le> k \<and> k \<le> 5/100"
proof -
  obtain f w' x y where v: "ru_kelly_fraction ru = Fin f" "w = Fin w'" "aw = Fin x" "al = Fin y" "0 < y"
    using assms by (auto simp: is_fin_iff)
  have pos: "0 < max (x / y) (1 / 10 ^ 10)" by (rule less_le_trans [OF _ max.cobounded2]) simp
  define k where "k = (w' * (x / y) - (1 - w')) / max (x / y) (1 / 10 ^ 10) * f"
  have "al \<noteq> Fin 0" "max (x / y) (1 / 10 ^ 10) \<noteq> 0" "y \<noteq> 0" using v(4,5) pos by simp_all
  then have "kelly ru w aw al = Fin (max 0 (min k (5/100)))"
    by (simp add: kelly_def v py_eq_def Let_def k_def)
  then show ?thesis by auto
qed

lemma risk_share_bounds:
  assumes "finite_rules ru" "finite_stats m" "0 \<le> c"
  shows "\<exists>sh. risk_share ru (Fin e) ml (Fin c) atr_rel m = Fin sh \<and> 0 \<le> sh \<and> sh \<le> val_of (ru_base_risk ru) * (115/100) * c"
proof -
  obtain b where b: "ru_base_risk ru = Fin b" "0 \<le> b" using assms(1) by (auto simp: finite_rules_def is_fin_iff)
  obtain d where d: "dynamic_risk ru (Fin e) m = Fin d" "0 \<le> d" "d \<le> b"
    using dynamic_risk_bounds [OF b] assms(2) by (auto simp: finite_stats_def)
  define r1 where "r1 = (if 20 \<le> lr_trades m \<and> Fin 0 < lr_avg_loss m \<and> Fin 0 < lr_avg_win m
      then py_min (Fin d) (kelly ru (lr_win_rate m) (lr_avg_win m) (lr_avg_loss m)) else Fin d)"
  have "\<exists>x. r1 = Fin x \<and> 0 \<le> x \<and> x \<le> b"
    using d kelly_bounds [of ru "lr_win_rate m" "lr_avg_win m" "lr_avg_loss m"] assms(1,2)
    by (auto simp: r1_def finite_rules_def finite_stats_def)
  then obtain x where x: "r1 = Fin x" "0 \<le> x" "x \<le> b" by blast
  define r2 where "r2 = (if ml < ru_ml_threshold ru then r1 * Fin (1/2) else if Fin (72/100) < ml then r1 * Fin (115/100) else r1)"
  have "r2 \<in> {Fin x, Fin (x * (1/2)), Fin (x * (115/100))}" by (auto simp: r2_def x(1))
  then have "\<exists>y. r2 = Fin y \<and> 0 \<le> y \<and> y \<le> b * (115/100)" using x(2,3)
    by (intro exI [of _ "val_of r2"]) auto
  then obtain y where y: "r2 = Fin y" "0 \<le> y" "y \<le> b * (115/100)" by blast
  define r3 where "r3 = (if lr_weekly_reduced m then r2 * Fin (1/2) else r2)"
  have "r3 \<in> {Fin y, Fin (y * (1/2))}" by (auto simp: r3_def y(1))
  then have "\<exists>z. r3 = Fin z \<and> 0 \<le> z \<and> z \<le> b * (115/100)" using y(2,3)
    by (intro exI [of _ "val_of r3"]) auto
  then obtain z where z: "r3 = Fin z" "0 \<le> z" "z \<le> b * (115/100)" by blast
  have zc: "0 \<le> z * c" "z * c \<le> b * (115/100) * c"
    by (rule mult_nonneg_nonneg [OF z(2) assms(3)], rule mult_right_mono [OF z(3) assms(3)])
  have share: "risk_share ru (Fin e) ml (Fin c) atr_rel m = (if Fin (2/100) < atr_rel then r3 * Fin c * Fin (1/2) else r3 * Fin c)"
    by (simp add: risk_share_def Let_def d(1) r1_def r2_def r3_def)
  define w where "w = z * c"
  have "r3 * Fin c = Fin w" by (simp add: z(1) w_def)
  then have "risk_share ru (Fin e) ml (Fin c) atr_rel m = Fin (if Fin (2/100) < atr_rel then w * (1/2) else w)"
    by (simp add: share)
  moreover have "0 \<le> w" "w \<le> b * (115/100) * c" using zc by (simp_all add: w_def)
  ultimately show ?thesis by (auto simp: b(1))
qed

text \<open>
  C36. A position is never larger than the limits allow. If the sizing answers with a position, its
  notional is at least 10 and at most the allowed share of the equity not at risk, the loss at its stop
  together with the open risk stays within the allowed heat, and that loss is at most the base risk,
  raised by at most 15% and scaled by the correlation, on that equity.
\<close>

theorem sized_position_within_limits:
  assumes "position_size ru (Fin p) (Fin a) (Fin e) (Fin o1) ml (Fin c) m = Inr (Some z)"
    and "finite_rules ru" "finite_stats m" "0 < p" "0 \<le> c"
  defines "free \<equiv> max 0 (e - o1)"
  shows "\<exists>q d. sz_amount z = Fin q \<and> sz_stop z = Fin (p - d) \<and> sz_risk z = Fin (q * d) \<and> p / 1000 \<le> d \<and>
    10 \<le> q * p \<and> q * p \<le> free * val_of (ru_max_allocation ru) \<and>
    o1 + q * d \<le> free * val_of (ru_max_heat ru) \<and> q * d \<le> free * (val_of (ru_base_risk ru) * (115/100) * c)"
proof -
  obtain s t1 t2 h al where v: "ru_stop_mult ru = Fin s" "ru_max_heat ru = Fin h" "ru_max_allocation ru = Fin al"
      "ru_tp1_mult ru = Fin t1" "ru_tp2_mult ru = Fin t2"
    using assms(2) by (auto simp: finite_rules_def is_fin_iff)
  obtain sh where sh: "risk_share ru (Fin e) ml (Fin c) (Fin (a / p)) m = Fin sh" "0 \<le> sh"
      "sh \<le> val_of (ru_base_risk ru) * (115/100) * c"
    using risk_share_bounds [OF assms(2,3,5)] by blast
  define d where "d = s * a"
  define usd where "usd = min (free * sh * p / d) (free * al)"
  have d: "p / 1000 \<le> d" using assms(1) by (auto simp: position_size_def Let_def v d_def split: if_splits)
  then have dpos: "0 < d" using assms(4) by (smt (verit) divide_pos_pos)
  have size: "10 \<le> usd \<and> o1 + usd / p * d \<le> free * h \<and>
      z = \<lparr>sz_amount = Fin (usd / p), sz_stop = Fin (p - d), sz_tp1 = Fin (p + t1 * a), sz_tp2 = Fin (p + t2 * a),
           sz_risk = Fin (usd / p * d)\<rparr>"
    using assms(1,4) dpos
    by (auto simp: position_size_def Let_def v sh(1) d_def [symmetric] usd_def free_def [symmetric] split: if_splits)
  have "usd \<le> free * sh * p / d" by (simp add: usd_def)
  then have "usd / p * d \<le> free * sh" using dpos assms(4) by (simp add: field_simps)
  also have "free * sh \<le> free * (val_of (ru_base_risk ru) * (115/100) * c)"
    by (rule mult_left_mono [OF sh(3)]) (simp add: free_def)
  finally have risk: "usd / p * d \<le> free * (val_of (ru_base_risk ru) * (115/100) * c)" "usd \<le> free * al"
    by (simp_all add: usd_def)
  show ?thesis
  proof (rule exI [of _ "usd / p"], rule exI [of _ d], intro conjI)
    show "usd / p * d \<le> free * (val_of (ru_base_risk ru) * (115/100) * c)" by (rule risk(1))
  qed (use size d risk(2) assms(4) v in auto)
qed


section \<open>The running statistics are exact\<close>

text \<open>What the program does with the profit and the multiple of a closed trade.\<close>

definition count_trade :: "risk_rules \<Rightarrow> pyfloat \<Rightarrow> pyfloat \<Rightarrow> pyfloat \<Rightarrow> risk_manager \<Rightarrow> risk_manager" where
  "count_trade ru now pnl r m = update_stats pnl r (if Fin 0 < pnl then on_win m else on_loss ru now m)"

definition mean :: "real list \<Rightarrow> real" where
  "mean xs = (if xs = [] then 0 else sum_list xs / real (length xs))"

lemma mean_snoc: "mean (xs @ [x]) = mean xs + (x - mean xs) / real (length xs + 1)"
proof (cases "xs = []")
  case False
  define n s where "n = real (length xs)" and "s = sum_list xs"
  have "n > 0" using False by (simp add: n_def)
  then have "(s + x) / (n + 1) = s / n + (x - s / n) / (n + 1)" by (simp add: divide_simps) (simp add: algebra_simps)
  then show ?thesis using False by (simp add: mean_def n_def s_def add.commute)
qed (simp add: mean_def)

definition won :: "(real \<times> real) list \<Rightarrow> real list" where
  "won cs = map snd (filter (\<lambda>c. 0 < fst c) cs)"

definition lost :: "(real \<times> real) list \<Rightarrow> real list" where
  "lost cs = map (\<lambda>c. \<bar>snd c\<bar>) (filter (\<lambda>c. \<not> 0 < fst c) cs)"

definition stats_exact :: "(real \<times> real) list \<Rightarrow> risk_manager \<Rightarrow> bool" where
  "stats_exact cs m \<longleftrightarrow> lr_trades m = int (length cs) \<and> lr_total_wins m = int (length (won cs)) \<and>
     lr_total_losses m = int (length (lost cs)) \<and> lr_avg_win m = Fin (mean (won cs)) \<and> lr_avg_loss m = Fin (mean (lost cs)) \<and>
     (cs \<noteq> [] \<longrightarrow> lr_win_rate m = Fin (real (length (won cs)) / real (length cs)) \<and>
        lr_expectancy m = Fin ((sum_list (won cs) - sum_list (lost cs)) / real (length cs)))"

lemma won_lost_length: "length cs = length (won cs) + length (lost cs)"
  by (simp add: won_def lost_def sum_length_filter_compl)

lemma expectancy_weighted:
  assumes "n = length (ws :: real list) + length ls" "0 < n"
  shows "real (length ws) / real n * mean ws - (1 - real (length ws) / real n) * mean ls = (sum_list ws - sum_list ls) / real n"
proof -
  have first: "real (length ws) / real n * mean ws = sum_list ws / real n" by (simp add: mean_def)
  have "real n \<noteq> 0" "real (length ls) = real n - real (length ws)" using assms(2) by (simp, simp add: assms(1))
  then have "1 - real (length ws) / real n = real (length ls) / real n" by (simp add: diff_divide_distrib)
  then have "(1 - real (length ws) / real n) * mean ls = sum_list ls / real n" by (simp add: mean_def)
  then show ?thesis using first by (simp add: diff_divide_distrib)
qed

lemma on_loss_stats:
  "lr_trades (on_loss ru now m) = lr_trades m" "lr_total_wins (on_loss ru now m) = lr_total_wins m"
  "lr_total_losses (on_loss ru now m) = lr_total_losses m + 1" "lr_avg_win (on_loss ru now m) = lr_avg_win m"
  "lr_avg_loss (on_loss ru now m) = lr_avg_loss m"
  by (simp_all add: on_loss_def Let_def)

lemma count_trade_exact:
  assumes "stats_exact cs m"
  shows "stats_exact (cs @ [(pnl, r)]) (count_trade ru now (Fin pnl) (Fin r) m)"
proof (cases "0 < pnl")
  case True
  have lists: "won (cs @ [(pnl, r)]) = won cs @ [r]" "lost (cs @ [(pnl, r)]) = lost cs" using True by (simp_all add: won_def lost_def)
  have avg: "lr_avg_win (on_win m) + (Fin r - lr_avg_win (on_win m)) / float_of_int (max (lr_total_wins (on_win m)) 1) = Fin (mean (won cs @ [r]))"
    using assms by (simp add: stats_exact_def on_win_def mean_snoc add.commute)
  note w = expectancy_weighted [of "length cs + 1" "won cs @ [r]" "lost cs"]
  show ?thesis using assms True won_lost_length [of cs] w avg unfolding stats_exact_def lists count_trade_def update_stats_def Let_def
    by (simp add: on_win_def add.commute)
next
  case False
  have lists: "won (cs @ [(pnl, r)]) = won cs" "lost (cs @ [(pnl, r)]) = lost cs @ [\<bar>r\<bar>]" using False by (simp_all add: won_def lost_def)
  have avg: "lr_avg_loss m + (Fin \<bar>r\<bar> - lr_avg_loss m) / float_of_int (max (lr_total_losses m + 1) 1) = Fin (mean (lost cs @ [\<bar>r\<bar>]))"
    using assms by (simp add: stats_exact_def mean_snoc add.commute)
  note w = expectancy_weighted [of "length cs + 1" "won cs" "lost cs @ [\<bar>r\<bar>]"]
  show ?thesis using assms False won_lost_length [of cs] w avg unfolding stats_exact_def lists count_trade_def update_stats_def Let_def
    by (simp add: on_loss_stats add.commute)
qed

text \<open>
  The running statistics are exact. After any sequence of closed trades the averages, which are
  updated one trade at a time, are the means over all winning and all losing trades, the rate is the
  share of the winning ones, and the expectancy is the sum of the multiples won less those lost, per
  trade.
\<close>

theorem running_statistics_exact:
  "stats_exact cs (foldl (\<lambda>m (pnl, r). count_trade ru now (Fin pnl) (Fin r) m) new_risk_manager cs)"
proof (induction cs rule: rev_induct)
  case Nil
  show ?case by (simp add: stats_exact_def new_risk_manager_def won_def lost_def mean_def)
next
  case (snoc c cs)
  then show ?case using count_trade_exact by (cases c) simp
qed


section \<open>Halts\<close>

datatype risk_op =
    Check pyfloat pyfloat  \<comment> \<open>\<open>is_trading_halted\<close> at a time and an equity\<close>
  | Closed pyfloat pyfloat pyfloat
  | Weekly_Check pyfloat
  | Peaks pyfloat
  | Slipped pyfloat string pyfloat pyfloat
  | Ask_Blacklist pyfloat string
  | Daily_Reset pyfloat
  | Weekly_Reset pyfloat

fun risk_step :: "risk_rules \<Rightarrow> risk_manager \<Rightarrow> risk_op \<Rightarrow> risk_manager \<times> halt option option" where
  "risk_step ru m (Check now e) = apsnd Some (is_trading_halted ru now e m)"
| "risk_step ru m (Closed now pnl r) = (count_trade ru now pnl r m, None)"
| "risk_step ru m (Weekly_Check e) = (fst (check_weekly_loss ru e m), None)"
| "risk_step ru m (Peaks e) = (update_equity_peaks e m, None)"
| "risk_step ru m (Slipped now s x a) = (record_slippage ru now s x a m, None)"
| "risk_step ru m (Ask_Blacklist now s) = (fst (is_blacklisted now s m), None)"
| "risk_step ru m (Daily_Reset e) = (reset_daily e m, None)"
| "risk_step ru m (Weekly_Reset e) = (reset_weekly e m, None)"

fun op_equity :: "risk_op \<Rightarrow> pyfloat option" where
  "op_equity (Check now e) = Some e"
| "op_equity (Peaks e) = Some e"
| "op_equity _ = None"

lemma count_trade_frame:
  "lr_peak (count_trade ru now pnl r m) = lr_peak m \<and> lr_daily_stop (count_trade ru now pnl r m) = lr_daily_stop m"
  by (simp add: count_trade_def update_stats_def on_win_def on_loss_def Let_def)

lemma risk_step_daily_stop:
  assumes "lr_daily_stop m" "risk_step ru m op = (m', out)" "\<And>e. op \<noteq> Daily_Reset e"
  shows "lr_daily_stop m' \<and> out \<noteq> Some None"
  using assms
  by (cases op) (auto simp: is_trading_halted_def check_historical_drawdown_def check_daily_loss_def count_trade_frame
      check_weekly_loss_def update_equity_peaks_def record_slippage_def is_blacklisted_def reset_weekly_def Let_def
      split: if_splits prod.splits bool.splits)

text \<open>The drawdown of an equity against a peak reaches the limit.\<close>

definition deep :: "risk_rules \<Rightarrow> real \<Rightarrow> pyfloat \<Rightarrow> bool" where
  "deep ru p e \<longleftrightarrow> (\<exists>x d. e = Fin x \<and> ru_drawdown_pct ru = Fin d \<and> 0 \<le> d \<and> d \<le> (p - x) / p * 100)"

lemma risk_step_deep:
  assumes "lr_peak m = Fin p" "0 < p" "risk_step ru m op = (m', out)" "\<And>e. op_equity op = Some e \<Longrightarrow> deep ru p e"
  shows "lr_peak m' = Fin p \<and> (\<forall>h. out = Some h \<longrightarrow> h = Some Historical_Drawdown)"
proof -
  have low: "\<not> Fin p < e" if "deep ru p e" for e
    using that assms(2) by (auto simp: deep_def) (smt (verit, ccfv_SIG) divide_neg_pos)
  show ?thesis
  proof (cases op)
    case (Check now e)
    then have "deep ru p e" using assms(4) by simp
    then show ?thesis using assms(1-3) Check
      by (auto simp: is_trading_halted_def check_historical_drawdown_def deep_def split: if_splits prod.splits bool.splits)
  next
    case (Peaks e)
    then have "\<not> Fin p < e" using assms(4) low by simp
    then show ?thesis using assms(1,3) Peaks by (auto simp: update_equity_peaks_def Let_def)
  qed (use assms(1,3) in \<open>auto simp: count_trade_frame check_weekly_loss_def record_slippage_def is_blacklisted_def
      reset_weekly_def reset_daily_def Let_def split: if_splits\<close>)
qed

text \<open>Both are runs of an event machine under an invariant.\<close>

interpretation stopped: event_machine "risk_step ru" lr_daily_stop "\<lambda>op. \<forall>e. op \<noteq> Daily_Reset e" for ru
  by unfold_locales (metis risk_step_daily_stop prod.collapse)

interpretation locked: event_machine "risk_step ru" "\<lambda>m. lr_peak m = Fin p \<and> 0 < p"
    "\<lambda>op. \<forall>e. op_equity op = Some e \<longrightarrow> deep ru p e" for ru p
  by unfold_locales (metis risk_step_deep prod.collapse)

lemma list_all2_right: "list_all2 (\<lambda>_. Q) xs ys \<Longrightarrow> y \<in> set ys \<Longrightarrow> Q y"
  by (auto simp: list_all2_conv_all_nth in_set_conv_nth)

text \<open>
  A halt ends only by a reset or a recovery. Once the daily limit has been hit every later check
  halts until the next daily reset; and as long as every equity stays at the drawdown limit below the
  historical peak every check halts for that reason: the lock of the configured hours renews itself,
  whatever else happens in between, since the peak never falls and a halted program opens no trades.
\<close>

theorem halts_persist:
  assumes "run_events (risk_step ru) m ops = (m', outs)"
  shows "(lr_daily_stop m \<longrightarrow> (\<forall>e. Daily_Reset e \<notin> set ops) \<longrightarrow> lr_daily_stop m' \<and> Some None \<notin> set outs) \<and>
    (\<forall>p. lr_peak m = Fin p \<longrightarrow> 0 < p \<longrightarrow> (\<forall>op \<in> set ops. \<forall>e. op_equity op = Some e \<longrightarrow> deep ru p e) \<longrightarrow>
       lr_peak m' = Fin p \<and> (\<forall>h. Some h \<in> set outs \<longrightarrow> h = Some Historical_Drawdown))"
proof (intro conjI impI allI)
  have run: "fst (run_events (risk_step ru) m ops) = m'" "snd (run_events (risk_step ru) m ops) = outs" by (simp_all add: assms)
  {
    assume stop: "lr_daily_stop m" "\<forall>e. Daily_Reset e \<notin> set ops"
    then have ok: "list_all (\<lambda>op. \<forall>e. op \<noteq> Daily_Reset e) ops" by (auto simp: list_all_iff)
    show "lr_daily_stop m'" using stopped.run_inv [OF stop(1) ok, of ru] by (simp add: run)
    have "list_all2 (\<lambda>_ out. out \<noteq> Some None) ops outs"
      unfolding run(2) [symmetric]
      by (rule stopped.run_outcomes [OF stop(1) ok]) (metis risk_step_daily_stop prod.collapse)
    then show "Some None \<notin> set outs" using list_all2_right [of "\<lambda>out. out \<noteq> Some None"] by blast
  }
  fix p
  assume deep: "lr_peak m = Fin p" "0 < p" "\<forall>op \<in> set ops. \<forall>e. op_equity op = Some e \<longrightarrow> deep ru p e"
  then have ok: "lr_peak m = Fin p \<and> 0 < p" "list_all (\<lambda>op. \<forall>e. op_equity op = Some e \<longrightarrow> deep ru p e) ops"
    by (simp_all add: list_all_iff)
  show "lr_peak m' = Fin p" using locked.run_inv [OF ok] by (simp add: run)
  have all: "list_all2 (\<lambda>_ out. \<forall>h. out = Some h \<longrightarrow> h = Some Historical_Drawdown) ops outs"
    unfolding run(2) [symmetric] by (rule locked.run_outcomes [OF ok]) (metis risk_step_deep prod.collapse)
  show "h = Some Historical_Drawdown" if "Some h \<in> set outs" for h using list_all2_right [OF all that] by blast
qed

section \<open>Witnesses\<close>

text \<open>The defaults of the configuration.\<close>

definition default_rules :: risk_rules where
  "default_rules = \<lparr>ru_stop_mult = Fin 2, ru_tp1_mult = Fin (15/10), ru_tp2_mult = Fin (25/10), ru_base_risk = Fin (1/100),
     ru_kelly_fraction = Fin (25/100), ru_max_heat = Fin (30/100), ru_max_allocation = Fin (12/100),
     ru_ml_threshold = Fin (58/100), ru_max_losses = 4, ru_daily_loss_pct = Fin (25/10), ru_weekly_loss_pct = Fin 5,
     ru_drawdown_pct = Fin 12, ru_lock_hours = Fin 48, ru_max_slippage = Fin (2/1000), ru_time_stop = 3\<rparr>"

theorem sized_position_within_limits_witness:
  "\<exists>z. position_size default_rules (Fin 100) (Fin 1) (Fin 10000) (Fin 0) (Fin (6/10)) (Fin 1) new_risk_manager = Inr (Some z) \<and>
     (\<exists>q d. sz_amount z = Fin q \<and> sz_risk z = Fin (q * d) \<and> q * 100 \<le> 1200 \<and> q * d \<le> 3000)"
proof -
  have "\<exists>z. position_size default_rules (Fin 100) (Fin 1) (Fin 10000) (Fin 0) (Fin (6/10)) (Fin 1) new_risk_manager = Inr (Some z)"
    by (simp add: position_size_def default_rules_def new_risk_manager_def risk_share_def dynamic_risk_def Let_def)
  then obtain z where z: "position_size default_rules (Fin 100) (Fin 1) (Fin 10000) (Fin 0) (Fin (6/10)) (Fin 1) new_risk_manager = Inr (Some z)"
    by blast
  have fin: "finite_rules default_rules" "finite_stats new_risk_manager"
    by (simp_all add: finite_rules_def default_rules_def finite_stats_def new_risk_manager_def)
  obtain q d where "sz_amount z = Fin q" "sz_risk z = Fin (q * d)" "q * 100 \<le> max 0 (10000 - 0) * val_of (ru_max_allocation default_rules)"
      "0 + q * d \<le> max 0 (10000 - 0) * val_of (ru_max_heat default_rules)"
    using sized_position_within_limits [OF z fin] by auto
  then show ?thesis using z by (intro exI [of _ z] conjI exI [of _ q] exI [of _ d]) (simp_all add: default_rules_def)
qed

theorem halts_persist_witness:
  "\<exists>m' h1 h2. run_events (risk_step default_rules) (new_risk_manager\<lparr>lr_peak := Fin 100\<rparr>)
       [Check (Fin 0) (Fin 80), Peaks (Fin 80), Check (Fin 1000000) (Fin 80)] = (m', [Some h1, None, Some h2]) \<and>
     h2 = Some Historical_Drawdown"
proof -
  let ?ops = "[Check (Fin 0) (Fin 80), Peaks (Fin 80), Check (Fin 1000000) (Fin 80)]"
  obtain m' outs where run: "run_events (risk_step default_rules) (new_risk_manager\<lparr>lr_peak := Fin 100\<rparr>) ?ops = (m', outs)"
    by fastforce
  have "deep default_rules 100 (Fin 80)" by (simp add: deep_def default_rules_def)
  then have "\<forall>h. Some h \<in> set outs \<longrightarrow> h = Some Historical_Drawdown"
    using halts_persist [OF run] by (auto simp: new_risk_manager_def)
  moreover have "\<exists>h1 h2. outs = [Some h1, None, Some h2]" using run by (auto simp: Let_def apsnd_def map_prod_def split: prod.splits)
  ultimately show ?thesis using run by auto
qed

end
