(* ===== verification/Legacy_Execution.thy ===== *)
theory Legacy_Execution
  imports Legacy_Risk Exchange_Manager Exchange_Reports
begin

text \<open>
  The order execution of the legacy trading program (\<open>execution.py\<close>): simulated fills, limit orders that
  are repriced until a deadline, the market fallback. The exchange is its methods by name, each a function
  on the outside world; the clock is read off that world and advanced by sleeping. The two loops of a live
  order get fuel; that some fuel is enough is a theorem.
\<close>

section \<open>The exchange and the clock\<close>

record 'w outside =
  ow_call :: "string \<Rightarrow> pyval list \<Rightarrow> 'w \<Rightarrow> 'w \<times> pyval res"
  ow_now :: "'w \<Rightarrow> real"
  ow_sleep :: "real \<Rightarrow> 'w \<Rightarrow> 'w"

record exec_rules =
  ex_mode :: string
  ex_confirm :: string
  ex_slippage :: pyfloat
  ex_cancel_secs :: real
  ex_adjust_secs :: real

text \<open>
  \<open>client_id\<close> of \<open>_live_market_order\<close>: the method has no variable of that name, nor has the module.
\<close>

definition client_id :: "string res" where
  "client_id = Inl (OtherError (text_msg ''NameError: name 'client_id' is not defined''))"

section \<open>Single calls\<close>

text \<open>The state of an order is asked for up to three times; the sleeps between are left out.\<close>

definition check_order :: "'w outside \<Rightarrow> pyval \<Rightarrow> string \<Rightarrow> 'w \<Rightarrow> 'w \<times> pyval res" where
  "check_order ow order_id symb = retried 3 (ow_call ow ''fetch_order'' [order_id, VStr symb])"

definition cancel_quietly :: "'w outside \<Rightarrow> pyval \<Rightarrow> string \<Rightarrow> 'w \<Rightarrow> 'w" where
  "cancel_quietly ow order_id symb w = fst (ow_call ow ''cancel_order'' [order_id, VStr symb] w)"

definition touch_price :: "'w outside \<Rightarrow> string \<Rightarrow> string \<Rightarrow> 'w \<Rightarrow> 'w \<times> pyfloat option" where
  "touch_price ow symb side w =
     (let levels = (if side = ''buy'' then ''asks'' else ''bids'') in
      case ow_call ow ''fetch_order_book'' [VStr symb, VInt 1] w of
        (w1, ob) \<Rightarrow>
          (w1, case rbind ob (\<lambda>b.
                 if side \<notin> {''buy'', ''sell''} then Inr None
                 else rbind (method_get b levels) (\<lambda>ls.
                   if truthy ls
                   then rbind (item0 ls) (\<lambda>l. rbind (item0 l) (\<lambda>p. rbind (py_float p) (\<lambda>x. Inr (Some x))))
                   else Inr None)) of
                 Inl _ \<Rightarrow> None
               | Inr r \<Rightarrow> r))"

definition place_limit_order :: "'w outside \<Rightarrow> string \<Rightarrow> string \<Rightarrow> pyfloat \<Rightarrow> pyfloat \<Rightarrow> string \<Rightarrow> 'w \<Rightarrow> 'w \<times> pyval option" where
  "place_limit_order ow symb side amount price cid w =
     (case ow_call ow (if side = ''buy'' then ''create_limit_buy_order'' else ''create_limit_sell_order'')
             [VStr symb, VFloat amount, VFloat price, VDict [(''clientOrderId'', VStr cid)]] w of
        (w1, Inl _) \<Rightarrow> (w1, None)
      | (w1, Inr v) \<Rightarrow> (w1, if v = VNone then None else Some v))"

text \<open>
  The market order: the arguments are evaluated before the call, and every exception gives \<open>None\<close>. After
  the order its state is asked for once more.
\<close>

definition live_market_order :: "'w outside \<Rightarrow> string \<Rightarrow> string \<Rightarrow> pyfloat \<Rightarrow> 'w \<Rightarrow> 'w \<times> pyval option" where
  "live_market_order ow symb side amount w =
     (case client_id of
        Inl _ \<Rightarrow> (w, None)
      | Inr cid \<Rightarrow>
          (case ow_call ow (if side = ''buy'' then ''create_market_buy_order'' else ''create_market_sell_order'')
                  [VStr symb, VFloat amount, VDict [(''clientOrderId'', VStr cid)]] w of
             (w1, Inl _) \<Rightarrow> (w1, None)
           | (w1, Inr v) \<Rightarrow>
               (case v of
                  VDict d \<Rightarrow>
                    (case dict_index d ''id'' of
                       Inl _ \<Rightarrow> (ow_sleep ow (1/2) w1, None)
                     | Inr order_id \<Rightarrow>
                         (case check_order ow order_id symb (ow_sleep ow (1/2) w1) of
                            (w2, Inl _) \<Rightarrow> (w2, None)
                          | (w2, Inr st) \<Rightarrow>
                              (case (if truthy st then st else v) of VDict d' \<Rightarrow> (w2, Some (VDict d')) | _ \<Rightarrow> (w2, None))))
                | _ \<Rightarrow> (ow_sleep ow (1/2) w1, None))))"

section \<open>A simulated fill\<close>

definition paper_fill ::
  "exec_rules \<Rightarrow> risk_rules \<Rightarrow> pyfloat \<Rightarrow> string \<Rightarrow> string \<Rightarrow> string \<Rightarrow> pyfloat \<Rightarrow> pyfloat \<Rightarrow> risk_manager
     \<Rightarrow> risk_manager \<times> payload" where
  "paper_fill ex ru now hex symb side amount expected m =
     (let price = (if side = ''buy'' then expected * (Fin 1 + ex_slippage ex) else expected * (Fin 1 - ex_slippage ex));
          cost = price * amount;
          fee = cost * Fin (1/1000)
      in (record_slippage ru now symb expected price m,
          [(''id'', VStr (''PAPER-'' @ hex)), (''symbol'', VStr symb), (''side'', VStr side), (''filled'', VFloat amount),
           (''average'', VFloat price), (''cost'', VFloat cost),
           (''fee'', VDict [(''cost'', VFloat fee), (''currency'', VStr ''USDT'')]), (''status'', VStr ''closed'')]))"

section \<open>A live order\<close>

datatype polled = Timed_Out | No_Status | Filled_With payload | Was_Cancelled

text \<open>\<open>s.get('status')\<close> of a status that may be anything.\<close>

fun poll_fill :: "nat \<Rightarrow> 'w outside \<Rightarrow> real \<Rightarrow> pyval \<Rightarrow> string \<Rightarrow> 'w \<Rightarrow> ('w \<times> polled res) option" where
  "poll_fill 0 ow until order_id symb w = None"
| "poll_fill (Suc n) ow until order_id symb w =
     (if \<not> ow_now ow w < until then Some (w, Inr Timed_Out)
      else case check_order ow order_id symb (ow_sleep ow (1/4) w) of
        (w1, Inl e) \<Rightarrow> Some (w1, Inl e)
      | (w1, Inr VNone) \<Rightarrow> Some (w1, Inr No_Status)
      | (w1, Inr (VDict d)) \<Rightarrow>
          (if get_val d ''status'' \<in> {VStr ''closed'', VStr ''filled''} then Some (w1, Inr (Filled_With d))
           else if get_val d ''status'' = VStr ''canceled'' then Some (w1, Inr Was_Cancelled)
           else poll_fill n ow until order_id symb w1)
      | (w1, Inr _) \<Rightarrow> Some (w1, Inl (AttributeError (text_msg ''object has no attribute get''))))"

text \<open>After the loop: a resting order is cancelled, and the market is tried.\<close>

definition market_fallback ::
  "'w outside \<Rightarrow> string \<Rightarrow> string \<Rightarrow> pyfloat \<Rightarrow> pyval \<Rightarrow> risk_manager \<Rightarrow> 'w \<Rightarrow> 'w \<times> risk_manager \<times> pyval option res" where
  "market_fallback ow symb side amount order_id m w =
     (let w1 = (if truthy order_id then cancel_quietly ow order_id symb w else w) in
      case live_market_order ow symb side amount w1 of (w2, r) \<Rightarrow> (w2, m, Inr r))"

text \<open>The order is repriced while the deadline lasts; \<open>cids\<close> are the client identifiers of the rounds.\<close>

fun live_loop ::
  "nat \<Rightarrow> 'w outside \<Rightarrow> exec_rules \<Rightarrow> risk_rules \<Rightarrow> (nat \<Rightarrow> string) \<Rightarrow> real \<Rightarrow> string \<Rightarrow> string \<Rightarrow> pyfloat \<Rightarrow> pyfloat
     \<Rightarrow> pyval \<Rightarrow> risk_manager \<Rightarrow> 'w \<Rightarrow> ('w \<times> risk_manager \<times> pyval option res) option" where
  "live_loop 0 ow ex ru cids deadline symb side amount expected order_id m w = None"
| "live_loop (Suc n) ow ex ru cids deadline symb side amount expected order_id m w =
     (if \<not> ow_now ow w < deadline then Some (market_fallback ow symb side amount order_id m w)
      else case touch_price ow symb side w of
        (w1, None) \<Rightarrow> Some (market_fallback ow symb side amount order_id m w1)
      | (w1, Some touch) \<Rightarrow>
          (let w2 = (if order_id \<noteq> VNone then cancel_quietly ow order_id symb w1 else w1) in
           case place_limit_order ow symb side amount touch (''AEGIS-'' @ cids n) w2 of
             (w3, None) \<Rightarrow> Some (market_fallback ow symb side amount VNone m w3)
           | (w3, Some r) \<Rightarrow>
               (case method_get r ''id'' of
                  Inl e \<Rightarrow> Some (w3, m, Inl e)
                | Inr new_id \<Rightarrow>
                    (case poll_fill (Suc n) ow (min (ow_now ow w3 + ex_adjust_secs ex) deadline) new_id symb w3 of
                       None \<Rightarrow> None
                     | Some (w4, Inl e) \<Rightarrow> Some (w4, m, Inl e)
                     | Some (w4, Inr (Filled_With d)) \<Rightarrow>
                         Some (w4, case as_number (dict_get d ''average'' (VFloat touch)) of
                                     None \<Rightarrow> (m, Inl (TypeError (text_msg ''unsupported format string'')))
                                   | Some avg \<Rightarrow>
                                       (record_slippage ru (Fin (ow_now ow w4)) symb expected avg m, Inr (Some (VDict d))))
                     | Some (w4, Inr Was_Cancelled) \<Rightarrow>
                         live_loop n ow ex ru cids deadline symb side amount expected VNone m w4
                     | Some (w4, Inr _) \<Rightarrow>
                         live_loop n ow ex ru cids deadline symb side amount expected new_id m w4))))"

definition live_order ::
  "nat \<Rightarrow> 'w outside \<Rightarrow> exec_rules \<Rightarrow> risk_rules \<Rightarrow> (nat \<Rightarrow> string) \<Rightarrow> string \<Rightarrow> string \<Rightarrow> pyfloat \<Rightarrow> pyfloat
     \<Rightarrow> risk_manager \<Rightarrow> 'w \<Rightarrow> ('w \<times> risk_manager \<times> pyval option res) option" where
  "live_order n ow ex ru cids symb side amount expected m w =
     live_loop n ow ex ru cids (ow_now ow w + ex_cancel_secs ex) symb side amount expected VNone m w"

definition execute_buy ::
  "nat \<Rightarrow> 'w outside \<Rightarrow> exec_rules \<Rightarrow> risk_rules \<Rightarrow> (nat \<Rightarrow> string) \<Rightarrow> string \<Rightarrow> pyfloat \<Rightarrow> pyfloat
     \<Rightarrow> risk_manager \<Rightarrow> 'w \<Rightarrow> ('w \<times> risk_manager \<times> pyval option res) option" where
  "execute_buy n ow ex ru cids symb amount expected m w =
     (if ex_mode ex = ''PAPER''
      then (case paper_fill ex ru (Fin (ow_now ow w)) (cids 0) symb ''buy'' amount expected m of
              (m', d) \<Rightarrow> Some (w, m', Inr (Some (VDict d))))
      else if ex_confirm ex \<noteq> ''YES_I_ACCEPT_THE_RISK'' then Some (w, m, Inr None)
      else live_order n ow ex ru cids symb ''buy'' amount expected m w)"

definition execute_sell ::
  "'w outside \<Rightarrow> exec_rules \<Rightarrow> risk_rules \<Rightarrow> string \<Rightarrow> string \<Rightarrow> pyfloat \<Rightarrow> pyfloat \<Rightarrow> risk_manager \<Rightarrow> 'w
     \<Rightarrow> 'w \<times> risk_manager \<times> pyval option" where
  "execute_sell ow ex ru hex symb amount expected m w =
     (if ex_mode ex = ''PAPER''
      then (case paper_fill ex ru (Fin (ow_now ow w)) hex symb ''sell'' amount expected m of
              (m', d) \<Rightarrow> (w, m', Some (VDict d)))
      else if ex_confirm ex \<noteq> ''YES_I_ACCEPT_THE_RISK'' then (w, m, None)
      else (case live_market_order ow symb ''sell'' amount w of (w', r) \<Rightarrow> (w', m, r)))"

section \<open>Orders left over\<close>

text \<open>
  \<open>reconcile_open_orders\<close>: in the live mode every order whose client identifier starts with \<open>AEGIS-\<close> is
  cancelled; a cancellation that fails is only logged, any other exception leaves the symbol.
\<close>

fun cancel_leftovers :: "'w outside \<Rightarrow> string \<Rightarrow> pyval list \<Rightarrow> 'w \<Rightarrow> 'w" where
  "cancel_leftovers ow symb [] w = w"
| "cancel_leftovers ow symb (VDict d # orders) w =
     (case dict_get d ''clientOrderId'' (VStr []) of
        VStr cid \<Rightarrow>
          (if starts_with cid ''AEGIS-''
           then (case map_of d ''id'' of
                   None \<Rightarrow> w
                 | Some order_id \<Rightarrow> cancel_leftovers ow symb orders (cancel_quietly ow order_id symb w))
           else cancel_leftovers ow symb orders w)
      | _ \<Rightarrow> w)"
| "cancel_leftovers ow symb (_ # orders) w = w"

definition reconcile_leftovers :: "'w outside \<Rightarrow> exec_rules \<Rightarrow> string list \<Rightarrow> 'w \<Rightarrow> 'w" where
  "reconcile_leftovers ow ex watchlist w =
     (if ex_mode ex \<noteq> ''LIVE'' then w
      else foldl (\<lambda>w1 symb.
             case ow_call ow ''fetch_open_orders'' [VStr symb] w1 of
               (w2, Inl _) \<Rightarrow> w2
             | (w2, Inr v) \<Rightarrow> (case iter_values v of Inl _ \<Rightarrow> w2 | Inr orders \<Rightarrow> cancel_leftovers ow symb orders w2))
             w watchlist)"

section \<open>Live exits\<close>

lemma live_market_order_fails: "live_market_order ow symb side amount w = (w, None)"
  by (simp add: live_market_order_def client_id_def)

lemma live_loop_result:
  assumes "live_loop n ow ex ru cids deadline symb side amount expected order_id m w = Some (w', m', Inr (Some v))"
  shows "\<exists>d. v = VDict d \<and> get_val d ''status'' \<in> {VStr ''closed'', VStr ''filled''}"
proof -
  have poll: "get_val d ''status'' \<in> {VStr ''closed'', VStr ''filled''}"
    if "poll_fill k ow t i s u = Some (u', Inr (Filled_With d))" for k t i s u u' d
    using that by (induction k arbitrary: u) (auto split: if_splits prod.splits sum.splits pyval.splits)
  show ?thesis
    using assms
  proof (induction n arbitrary: order_id w)
    case (Suc n)
    from Suc.prems show ?case
      by (auto simp: market_fallback_def live_market_order_fails Let_def simp del: poll_fill.simps
          split: if_splits prod.splits option.splits sum.splits polled.splits dest!: poll Suc.IH)
  qed simp
qed

text \<open>
  A live program never sells. Outside the paper mode a sale sends nothing, whatever the exchange
  would answer, and reports no fill; a live purchase reports a fill only for a limit order that the
  exchange reported as closed or filled, since its market fallback fails in the same way.
\<close>

theorem live_program_never_sells:
  assumes "ex_mode ex \<noteq> ''PAPER''"
  shows "execute_sell ow ex ru hex symb amount expected m w = (w, m, None) \<and>
    (\<forall>w' m' v. execute_buy n ow ex ru cids symb amount expected m w = Some (w', m', Inr (Some v)) \<longrightarrow>
      ex_confirm ex = ''YES_I_ACCEPT_THE_RISK'' \<and>
      (\<exists>d. v = VDict d \<and> get_val d ''status'' \<in> {VStr ''closed'', VStr ''filled''}))"
proof (intro conjI allI impI)
  show "execute_sell ow ex ru hex symb amount expected m w = (w, m, None)"
    using assms by (simp add: execute_sell_def live_market_order_fails)
  fix w' m' v
  assume "execute_buy n ow ex ru cids symb amount expected m w = Some (w', m', Inr (Some v))"
  then have "ex_confirm ex = ''YES_I_ACCEPT_THE_RISK''" "live_order n ow ex ru cids symb ''buy'' amount expected m w = Some (w', m', Inr (Some v))"
    using assms by (simp_all add: execute_buy_def split: if_splits)
  then show "ex_confirm ex = ''YES_I_ACCEPT_THE_RISK''"
      "\<exists>d. v = VDict d \<and> get_val d ''status'' \<in> {VStr ''closed'', VStr ''filled''}"
    unfolding live_order_def by (blast, elim conjE live_loop_result)
qed

section \<open>A live order ends\<close>

text \<open>Calls do not turn the clock back, and sleeping takes at least the time asked for.\<close>

definition clock_ok :: "'w outside \<Rightarrow> bool" where
  "clock_ok ow \<longleftrightarrow> (\<forall>meth args w. ow_now ow w \<le> ow_now ow (fst (ow_call ow meth args w))) \<and>
     (\<forall>d w. ow_now ow w + d \<le> ow_now ow (ow_sleep ow d w))"

lemma retry_loop_clock:
  assumes "\<And>w. t w \<le> t (fst (f w))" "retry_loop f sl i n fl w = (w', ss, r)"
  shows "t w \<le> (t w' :: real)"
  using assms(2)
proof (induction n arbitrary: i fl w w' ss r)
  case (Suc n)
  obtain w1 x where one: "f w = (w1, x)" by fastforce
  have "t w \<le> t w1" using assms(1) [of w] by (simp add: one)
  moreover have "t w1 \<le> t w'"
    using Suc one by (auto split: sum.splits if_splits prod.splits intro: order_refl)
  ultimately show ?case by linarith
qed simp

lemma clock_facts:
  assumes "clock_ok ow"
  shows "check_order ow i s w = (w', r) \<Longrightarrow> ow_now ow w \<le> ow_now ow w'"
    "ow_now ow w \<le> ow_now ow (cancel_quietly ow i s w)"
    "touch_price ow s side w = (w', tp) \<Longrightarrow> ow_now ow w \<le> ow_now ow w'"
    "place_limit_order ow s side a x cid w = (w', l) \<Longrightarrow> ow_now ow w \<le> ow_now ow w'"
    "ow_now ow w + d \<le> ow_now ow (ow_sleep ow d w)"
proof -
  have call: "ow_now ow u \<le> ow_now ow (fst (ow_call ow meth args u))" for meth args u
    using assms by (simp add: clock_ok_def)
  then have call': "ow_call ow meth args u = (u', x) \<Longrightarrow> ow_now ow u \<le> ow_now ow u'" for meth args u u' x
    by (metis fst_conv)
  show "ow_now ow w + d \<le> ow_now ow (ow_sleep ow d w)" using assms by (simp add: clock_ok_def)
  show "ow_now ow w \<le> ow_now ow (cancel_quietly ow i s w)" by (simp add: cancel_quietly_def call)
  show "check_order ow i s w = (w', r) \<Longrightarrow> ow_now ow w \<le> ow_now ow w'"
    using retry_loop_clock [of "ow_now ow", OF call]
    by (auto simp: check_order_def retried_def utils_retry_def split: prod.splits sum.splits option.splits)
  show "touch_price ow s side w = (w', tp) \<Longrightarrow> ow_now ow w \<le> ow_now ow w'"
    by (auto simp: touch_price_def Let_def dest: call' split: prod.splits)
  show "place_limit_order ow s side a x cid w = (w', l) \<Longrightarrow> ow_now ow w \<le> ow_now ow w'"
    by (auto simp: place_limit_order_def dest: call' split: prod.splits sum.splits)
qed

lemma poll_fill_ends:
  assumes "clock_ok ow" "until - ow_now ow w \<le> real b / 4" "b < n"
  shows "\<exists>w' r. poll_fill n ow until i s w = Some (w', r) \<and> ow_now ow w \<le> ow_now ow w' \<and>
    (ow_now ow w < until \<longrightarrow> ow_now ow w + 1/4 \<le> ow_now ow w')"
  using assms(2,3)
proof (induction b arbitrary: n w)
  case 0
  then show ?case by (cases n) auto
next
  case (Suc b)
  obtain k where n: "n = Suc k" "b < k" using Suc.prems(2) by (cases n) auto
  show ?case
  proof (cases "ow_now ow w < until")
    case True
    obtain w1 st where st: "check_order ow i s (ow_sleep ow (1/4) w) = (w1, st)" by fastforce
    have t: "ow_now ow w + 1/4 \<le> ow_now ow w1"
      using clock_facts(1) [OF assms(1) st] clock_facts(5) [OF assms(1), of w "1/4"] by linarith
    then have "until - ow_now ow w1 \<le> real b / 4" using Suc.prems(1) by (simp add: field_simps)
    from Suc.IH [OF this n(2)] obtain w2 r where
      "poll_fill k ow until i s w1 = Some (w2, r)" "ow_now ow w1 \<le> ow_now ow w2" by blast
    then show ?thesis using t True st n(1)
      by (cases st) (auto split: pyval.splits)
  qed (simp add: n(1))
qed

lemma live_loop_ends:
  assumes "clock_ok ow" "0 < ex_adjust_secs ex"
  shows "deadline - ow_now ow w \<le> real b / 4 \<Longrightarrow> b < n \<Longrightarrow>
    live_loop n ow ex ru cids deadline symb side amount expected order_id m w \<noteq> None"
proof (induction n arbitrary: b order_id w)
  case (Suc n)
  show ?case
  proof (cases "ow_now ow w < deadline")
    case True
    obtain w1 tp where tp: "touch_price ow symb side w = (w1, tp)" by fastforce
    define w2 where "w2 = (if order_id \<noteq> VNone then cancel_quietly ow order_id symb w1 else w1)"
    show ?thesis
    proof (cases tp)
      case (Some touch)
      obtain w3 l where l: "place_limit_order ow symb side amount touch (''AEGIS-'' @ cids n) w2 = (w3, l)" by fastforce
      have t3: "ow_now ow w \<le> ow_now ow w3"
        using clock_facts(3) [OF assms(1) tp] clock_facts(4) [OF assms(1) l] clock_facts(2) [OF assms(1), of w1 order_id symb]
        by (auto simp: w2_def split: if_splits)
      let ?until = "min (ow_now ow w3 + ex_adjust_secs ex) deadline"
      have "?until - ow_now ow w3 \<le> real b / 4" using t3 Suc.prems(1) by (auto simp: min_def)
      note poll = poll_fill_ends [OF assms(1) this Suc.prems(2)]
      have again: "live_loop n ow ex ru cids deadline symb side amount expected i m w4 \<noteq> None"
        if "ow_now ow w3 \<le> ow_now ow w4" "ow_now ow w3 < ?until \<longrightarrow> ow_now ow w3 + 1/4 \<le> ow_now ow w4" for i w4
      proof -
        obtain b' where b: "b = Suc b'" using True Suc.prems(1) by (cases b) auto
        have "deadline - ow_now ow w4 \<le> real b' / 4"
        proof (cases "ow_now ow w3 < deadline")
          case True
          then have "ow_now ow w3 + 1/4 \<le> ow_now ow w4" using that(2) assms(2) by simp
          then show ?thesis using t3 Suc.prems(1) by (simp add: b field_simps)
        next
          case False
          moreover have "0 \<le> real b' / 4" by simp
          ultimately show ?thesis using that(1) by linarith
        qed
        then show ?thesis using Suc.IH b Suc.prems(2) by simp
      qed
      show ?thesis
      proof (cases l)
        case (Some r)
        show ?thesis
        proof (cases "method_get r ''id''")
          case (Inr new_id)
          obtain w4 pr where pr: "poll_fill (Suc n) ow ?until new_id symb w3 = Some (w4, pr)"
              "ow_now ow w3 \<le> ow_now ow w4" "ow_now ow w3 < ?until \<longrightarrow> ow_now ow w3 + 1/4 \<le> ow_now ow w4"
            using poll [of new_id symb] by blast
          show ?thesis using True tp \<open>tp = Some touch\<close> l Some Inr pr(1) again [OF pr(2,3)]
            by (auto simp: w2_def [symmetric] Let_def simp del: poll_fill.simps split: sum.splits polled.splits)
        qed (use True tp \<open>tp = Some touch\<close> l Some in \<open>simp add: w2_def [symmetric] Let_def\<close>)
      qed (use True tp \<open>tp = Some touch\<close> l in \<open>simp add: w2_def [symmetric] Let_def\<close>)
    qed (use True tp in simp)
  qed simp
qed simp

text \<open>
  C37. A live purchase returns: with an interval between repricings that is positive, a clock that never
  goes back and sleeps that last, four rounds for each second until the deadline are enough.
\<close>

theorem live_buy_returns:
  assumes "clock_ok ow" "0 < ex_adjust_secs ex" "ex_cancel_secs ex \<le> real b / 4"
  shows "execute_buy (Suc b) ow ex ru cids symb amount expected m w \<noteq> None"
proof -
  have "live_order (Suc b) ow ex ru cids symb ''buy'' amount expected m w \<noteq> None"
    unfolding live_order_def by (rule live_loop_ends [OF assms(1,2), of _ _ b]) (use assms(3) in simp_all)
  then show ?thesis by (auto simp: execute_buy_def split: prod.splits)
qed


section \<open>Witnesses\<close>

text \<open>An exchange that fills every limit order at once; its world is the time.\<close>

definition quick_exchange :: "real outside" where
  "quick_exchange =
     \<lparr>ow_call = (\<lambda>meth args t.
        (t, Inr (if meth = ''fetch_order_book'' then VDict [(''asks'', VList [VList [VInt 100, VInt 1]])]
                 else VDict [(''id'', VStr ''7''), (''status'', VStr ''closed''), (''average'', VInt 100)]))),
      ow_now = (\<lambda>t. t), ow_sleep = (\<lambda>d t. t + d)\<rparr>"

definition live_rules :: exec_rules where
  "live_rules = \<lparr>ex_mode = ''LIVE'', ex_confirm = ''YES_I_ACCEPT_THE_RISK'', ex_slippage = Fin (2/1000),
     ex_cancel_secs = 10, ex_adjust_secs = 2\<rparr>"

lemma quick_clock: "clock_ok quick_exchange"
  by (simp add: clock_ok_def quick_exchange_def)

theorem live_buy_returns_witness:
  "execute_buy (Suc 40) quick_exchange live_rules default_rules (\<lambda>_. ''id'') ''BTC/USDT'' (Fin 1) (Fin 100)
     new_risk_manager 0 \<noteq> None"
  by (rule live_buy_returns [OF quick_clock]) (simp_all add: live_rules_def)

lemma quick_fill:
  "\<exists>m' v. execute_buy (Suc n) quick_exchange live_rules default_rules cids ''BTC/USDT'' (Fin 1) (Fin 100) m 0 =
     Some (1/4, m', Inr (Some v))"
  by (simp add: execute_buy_def live_order_def live_rules_def touch_price_def quick_exchange_def Let_def place_limit_order_def
      check_order_def retried_def utils_retry_def dict_simps numeral_3_eq_3)

theorem live_program_never_sells_witness:
  "execute_sell quick_exchange live_rules default_rules ''h'' ''BTC/USDT'' (Fin 1) (Fin 100) new_risk_manager 0 =
     (0, new_risk_manager, None) \<and>
   (\<exists>m' d. execute_buy (Suc 40) quick_exchange live_rules default_rules (\<lambda>_. ''id'') ''BTC/USDT'' (Fin 1) (Fin 100)
     new_risk_manager 0 = Some (1/4, m', Inr (Some (VDict d))) \<and> get_val d ''status'' \<in> {VStr ''closed'', VStr ''filled''})"
proof -
  have live: "ex_mode live_rules \<noteq> ''PAPER''" by (simp add: live_rules_def)
  note facts = live_program_never_sells [OF live, of quick_exchange default_rules]
  obtain m' v where buy: "execute_buy (Suc 40) quick_exchange live_rules default_rules (\<lambda>_. ''id'') ''BTC/USDT'' (Fin 1) (Fin 100)
     new_risk_manager 0 = Some (1/4, m', Inr (Some v))" using quick_fill by blast
  then obtain d where "v = VDict d" "get_val d ''status'' \<in> {VStr ''closed'', VStr ''filled''}" using facts by blast
  then show ?thesis using facts buy by blast
qed

end
