(* ===== verification/Signal_Fusion.thy ===== *)
theory Signal_Fusion
  imports Py_Statistics
begin

text \<open>
  Signals of the older program: the technical conditions and the cache of candles (\<open>market_data.py\<close>), the
  fusion of the signals with its weights and the score of a cointegrated pair (\<open>models.py\<close>), the cached
  figures of sentiment (\<open>sentiment.py\<close>). A row of features is a dictionary in which a missing figure is
  not-a-number; the answer of a web service is an argument. Mean and deviation of numpy are those of the
  population, \<open>exp\<close> is the real one.
\<close>

section \<open>Technical conditions\<close>

record signal_rules =
  sr_volatility_cap :: pyfloat
  sr_adx :: pyfloat
  sr_bull_min :: pyfloat
  sr_bull_max :: pyfloat
  sr_range_bear :: pyfloat

type_synonym feature_row = "(string, pyfloat) pydict"

definition figure :: "feature_row \<Rightarrow> string \<Rightarrow> pyfloat" where
  "figure row col = dict_get row col NaN"

definition is_trend :: "signal_rules \<Rightarrow> feature_row \<Rightarrow> bool" where
  "is_trend ru row \<longleftrightarrow>
     (let adx = figure row ''adx''; rsi = figure row ''rsi''; sma = figure row ''sma200'';
          ema = figure row ''ema_diff''; macd = figure row ''macd_hist''; adx1 = figure row ''adx_1h'';
          cloud = figure row ''close_vs_ichimoku_cloud''
      in sr_adx ru < adx \<and> figure row ''minus_di'' < figure row ''plus_di'' \<and>
         rsi \<noteq> NaN \<and> sr_bull_min ru \<le> rsi \<and> rsi \<le> sr_bull_max ru \<and>
         sma \<noteq> NaN \<and> sma < figure row ''c'' \<and> ema \<noteq> NaN \<and> Fin 0 < ema \<and> macd \<noteq> NaN \<and> Fin 0 < macd \<and>
         (adx1 = NaN \<or> sr_adx ru * Fin (8/10) < adx1) \<and> (cloud = NaN \<or> Fin 0 \<le> cloud))"

definition is_range :: "signal_rules \<Rightarrow> feature_row \<Rightarrow> bool" where
  "is_range ru row \<longleftrightarrow>
     (let rsi = figure row ''rsi''; bb = figure row ''bb_pct''; rsi1 = figure row ''rsi_14_1h''
      in figure row ''adx'' < Fin 22 \<and> rsi \<noteq> NaN \<and> rsi < sr_range_bear ru \<and> bb \<noteq> NaN \<and> bb < Fin (1/10) \<and>
         (rsi1 = NaN \<or> rsi1 < Fin 40))"

definition is_breakout :: "feature_row \<Rightarrow> bool" where
  "is_breakout row \<longleftrightarrow>
     (let bb = figure row ''bb_pct''; macd = figure row ''macd_hist''
      in Fin 0 < figure row ''vol_spike'' \<and> bb \<noteq> NaN \<and> Fin (95/100) < bb \<and> Fin 30 < figure row ''adx'' \<and>
         macd \<noteq> NaN \<and> Fin 0 < macd)"

definition validate_signal :: "signal_rules \<Rightarrow> bool \<Rightarrow> string \<Rightarrow> feature_row \<Rightarrow> string option" where
  "validate_signal ru btc_bullish symb row =
     (let atr_rel = figure row ''atr_rel'' in
      if atr_rel \<noteq> NaN \<and> sr_volatility_cap ru < atr_rel then None
      else if symb \<noteq> ''BTC/USDT'' \<and> \<not> btc_bullish then None
      else if is_trend ru row then Some ''TREND''
      else if is_range ru row then Some ''RANGE''
      else if is_breakout row then Some ''BREAKOUT''
      else None)"

section \<open>Fusion\<close>

fun py_sigmoid :: "pyfloat \<Rightarrow> pyfloat" where
  "py_sigmoid (Fin x) = Fin (1 / (1 + exp (- x)))"
| "py_sigmoid PInf = Fin 1"
| "py_sigmoid NInf = Fin 0"
| "py_sigmoid NaN = NaN"

definition tech_score :: "string option \<Rightarrow> pyfloat" where
  "tech_score sig =
     (if sig = Some ''TREND'' then Fin (80/100) else if sig = Some ''BREAKOUT'' then Fin (70/100)
      else if sig = Some ''RANGE'' then Fin (65/100) else Fin 0)"

record fusion =
  fu_pnl :: "(string, pyfloat list) pydict"
  fu_weights :: "(string, pyfloat) pydict"

definition new_fusion :: fusion where
  "new_fusion =
     \<lparr>fu_pnl = [(''technical'', []), (''ml'', []), (''ob'', [])],
      fu_weights = [(''technical'', Fin (40/100)), (''ml'', Fin (45/100)), (''ob'', Fin (15/100))]\<rparr>"

definition clip01 :: "pyfloat \<Rightarrow> pyfloat" where
  "clip01 x = (if x < Fin 0 then Fin 0 else if Fin 1 < x then Fin 1 else x)"

definition weight_of :: "fusion \<Rightarrow> string \<Rightarrow> pyfloat res" where
  "weight_of f k = (case map_of (fu_weights f) k of None \<Rightarrow> Inl (KeyError k) | Some w \<Rightarrow> Inr w)"

definition fuse :: "pyfloat \<Rightarrow> string option \<Rightarrow> pyfloat \<Rightarrow> pyfloat \<Rightarrow> pyfloat option \<Rightarrow> fusion \<Rightarrow> pyfloat res" where
  "fuse zscore sig ml_prob imb pairs_z f =
     rbind (weight_of f ''technical'') (\<lambda>wt. rbind (weight_of f ''ml'') (\<lambda>wm. rbind (weight_of f ''ob'') (\<lambda>wo.
       let fused = wt * tech_score sig + wm * ml_prob + wo * py_sigmoid ((imb - Fin 1) * Fin 2);
           boosted = (case pairs_z of
               None \<Rightarrow> fused
             | Some z \<Rightarrow> if z < - zscore then py_min (Fin 1) (fused + Fin (5/100)) else fused)
       in Inr (clip01 boosted))))"

definition model_sharpe :: "pyfloat list \<Rightarrow> pyfloat" where
  "model_sharpe pnl =
     (if length pnl < 5 then Fin 1
      else (let r = last_n 50 pnl; sd = pstdev r in if py_eq sd (Fin 0) then Fin 0 else py_mean r / sd))"

definition update_weights :: "fusion \<Rightarrow> fusion" where
  "update_weights f =
     (let sharpes = map (\<lambda>(k, pnl). (k, model_sharpe pnl)) (fu_pnl f);
          low = py_min_list (map snd sharpes);
          shifted = (if low < Fin 0 then map (\<lambda>(k, v). (k, v - low + Fin (1/100))) sharpes else sharpes);
          sum = py_sum (map snd shifted);
          total' = (if py_true sum then sum else Fin 1)
      in f\<lparr>fu_weights := map (\<lambda>(k, v). (k, v / total')) shifted\<rparr>)"

definition record_trade_pnl :: "string \<Rightarrow> pyfloat \<Rightarrow> fusion \<Rightarrow> fusion" where
  "record_trade_pnl model pnl f =
     (let l = dict_get (fu_pnl f) model [] @ [pnl]
      in f\<lparr>fu_pnl := dict_set model (if 200 < length l then tl l else l) (fu_pnl f)\<rparr>)"

section \<open>Pairs\<close>

record pair_figures =
  pf_mean :: pyfloat
  pf_std :: pyfloat

definition pair_signal :: "(string \<times> string, pair_figures) pydict \<Rightarrow> string \<Rightarrow> string \<Rightarrow> pyfloat \<Rightarrow> pyfloat \<Rightarrow> pyfloat option" where
  "pair_signal pairs s1 s2 p1 p2 =
     (let key = (if map_of pairs (s1, s2) \<noteq> None then (s1, s2) else (s2, s1)) in
      case map_of pairs key of
        None \<Rightarrow> None
      | Some f \<Rightarrow> Some ((p1 - p2 - pf_mean f) / py_max (pf_std f) (Fin (1 / 10 ^ 10))))"

section \<open>The cache of candles\<close>

type_synonym 'd ohlcv_cache = "(string, 'd \<times> real) pydict"

definition cache_ttl :: "string \<Rightarrow> real" where
  "cache_ttl tf =
     (if tf = ''1m'' then 60 else if tf = ''5m'' then 300 else if tf = ''15m'' then 900
      else if tf = ''1h'' then 3600 else if tf = ''4h'' then 14400 else 60)"

definition cache_key :: "string \<Rightarrow> string \<Rightarrow> string" where
  "cache_key symb tf = symb @ ''_'' @ tf"

definition cache_get :: "real \<Rightarrow> string \<Rightarrow> string \<Rightarrow> 'd ohlcv_cache \<Rightarrow> 'd option" where
  "cache_get now symb tf c =
     (case map_of c (cache_key symb tf) of
        None \<Rightarrow> None
      | Some (d, t) \<Rightarrow> if now - t < cache_ttl tf then Some d else None)"

definition cache_set :: "real \<Rightarrow> string \<Rightarrow> string \<Rightarrow> 'd \<Rightarrow> 'd ohlcv_cache \<Rightarrow> 'd ohlcv_cache" where
  "cache_set now symb tf d c = dict_set (cache_key symb tf) (d, now) c"

definition evict_expired :: "real \<Rightarrow> 'd ohlcv_cache \<Rightarrow> 'd ohlcv_cache" where
  "evict_expired now c = filter (\<lambda>(k, (d, t)). \<not> 14400 * 2 < now - t) c"

definition min_bars :: "string \<Rightarrow> nat" where
  "min_bars tf =
     (if tf = ''15m'' then 400 else if tf = ''1h'' then 200 else if tf = ''4h'' then 100 else 300)"

text \<open>
  \<open>fetch_ohlcv\<close>: the exchange gives rows for a limit, or fails; the two clock readings are those of the
  lookup and of the storing.
\<close>

definition fetch_frame ::
  "real \<Rightarrow> real \<Rightarrow> (nat \<Rightarrow> 'r list res) \<Rightarrow> string \<Rightarrow> string \<Rightarrow> nat option \<Rightarrow> 'r list ohlcv_cache \<Rightarrow>
   'r list ohlcv_cache \<times> 'r list option" where
  "fetch_frame now later exch symb tf limit c =
     (case cache_get now symb tf c of
        Some d \<Rightarrow> (c, Some d)
      | None \<Rightarrow>
          (case exch (case limit of Some n \<Rightarrow> (if n = 0 then min_bars tf else n) | None \<Rightarrow> min_bars tf) of
             Inl _ \<Rightarrow> (c, None)
           | Inr rows \<Rightarrow>
               (if length rows < 20 then (c, None) else (cache_set later symb tf rows c, Some rows))))"

section \<open>Sentiment\<close>

type_synonym ttl_cache = "(string, pyval \<times> real) pydict"

definition ttl_get :: "real \<Rightarrow> string \<Rightarrow> ttl_cache \<Rightarrow> pyval" where
  "ttl_get now k c = (case map_of c k of None \<Rightarrow> VNone | Some (v, expiry) \<Rightarrow> if now < expiry then v else VNone)"

definition ttl_set :: "real \<Rightarrow> string \<Rightarrow> pyval \<Rightarrow> real \<Rightarrow> ttl_cache \<Rightarrow> ttl_cache" where
  "ttl_set now k v ttl c = dict_set k (v, now + ttl) c"

text \<open>
  The pattern of the getters: a cached value, else one read from the answer and kept, else a default. The
  answer is a dictionary or nothing; what reads it may raise.
\<close>

definition cached_figure ::
  "real \<Rightarrow> string \<Rightarrow> real \<Rightarrow> (payload \<Rightarrow> pyfloat option res) \<Rightarrow> pyfloat \<Rightarrow> payload option \<Rightarrow> ttl_cache \<Rightarrow>
   ttl_cache \<times> pyfloat res" where
  "cached_figure now key ttl read dflt answer c =
     (case ttl_get now key c of
        VFloat x \<Rightarrow> (c, Inr x)
      | _ \<Rightarrow>
          (case answer of
             None \<Rightarrow> (c, Inr dflt)
           | Some d \<Rightarrow>
               (case (if d = [] then Inr None else read d) of
                  Inl e \<Rightarrow> (c, Inl e)
                | Inr None \<Rightarrow> (c, Inr dflt)
                | Inr (Some x) \<Rightarrow> (ttl_set now key (VFloat x) ttl c, Inr x))))"

definition dict_field :: "pyval \<Rightarrow> string \<Rightarrow> pyval \<Rightarrow> pyval res" where
  "dict_field v k dflt =
     (case v of VDict d \<Rightarrow> Inr (dict_get d k dflt) | _ \<Rightarrow> Inl (AttributeError (text_msg ''object has no attribute get'')))"

definition first_item :: "pyval \<Rightarrow> pyval res" where
  "first_item v =
     (case v of VList (x # _) \<Rightarrow> Inr x | VList [] \<Rightarrow> Inl (OtherError (text_msg ''list index out of range''))
      | VDict _ \<Rightarrow> Inl (KeyError ''0'') | _ \<Rightarrow> Inl (TypeError (text_msg ''object is not subscriptable'')))"

definition read_fear_greed :: "payload \<Rightarrow> pyfloat option res" where
  "read_fear_greed d =
     (if truthy (get_val d ''data'')
      then rbind (first_item (get_val d ''data'')) (\<lambda>r. rbind (dict_field r ''value'' (VInt 50)) (\<lambda>v.
        rbind (py_float v) (\<lambda>x. Inr (Some x))))
      else Inr None)"

definition get_fear_greed :: "real \<Rightarrow> payload option \<Rightarrow> ttl_cache \<Rightarrow> ttl_cache \<times> pyfloat res" where
  "get_fear_greed now = cached_figure now ''fear_greed'' 3600 read_fear_greed (Fin 50)"

definition fear_greed_normalised :: "pyfloat \<Rightarrow> pyfloat" where
  "fear_greed_normalised x = (x - Fin 50) / Fin 50"

definition read_dominance :: "payload \<Rightarrow> pyfloat option res" where
  "read_dominance d =
     (if truthy (get_val d ''data'')
      then rbind (dict_field (get_val d ''data'') ''market_cap_percentage'' (VDict [])) (\<lambda>m.
        rbind (dict_field m ''btc'' (VInt 50)) (\<lambda>v. rbind (py_float v) (\<lambda>x. Inr (Some (x / Fin 100)))))
      else Inr None)"

definition get_btc_dominance :: "real \<Rightarrow> payload option \<Rightarrow> ttl_cache \<Rightarrow> ttl_cache \<times> pyfloat res" where
  "get_btc_dominance now = cached_figure now ''btc_dominance'' 600 read_dominance (Fin (1/2))"

definition read_mktcap_change :: "payload \<Rightarrow> pyfloat option res" where
  "read_mktcap_change d =
     (if truthy (get_val d ''data'')
      then rbind (dict_field (get_val d ''data'') ''market_cap_change_percentage_24h_usd'' (VInt 0)) (\<lambda>v.
        rbind (py_float v) (\<lambda>x. Inr (Some x)))
      else Inr None)"

definition get_mktcap_change :: "real \<Rightarrow> payload option \<Rightarrow> ttl_cache \<Rightarrow> ttl_cache \<times> pyfloat res" where
  "get_mktcap_change now = cached_figure now ''mktcap_change'' 600 read_mktcap_change (Fin 0)"

section \<open>Signals\<close>

lemma signal_kind:
  assumes "validate_signal ru btc symb row = Some sig"
  shows "sig = ''TREND'' \<and> is_trend ru row \<or> sig = ''RANGE'' \<and> is_range ru row \<or> sig = ''BREAKOUT'' \<and> is_breakout row"
    "symb = ''BTC/USDT'' \<or> btc" "\<not> sr_volatility_cap ru < figure row ''atr_rel''"
  using assms unfolding validate_signal_def Let_def by (simp_all split: if_splits) auto

lemma conditions_need_adx:
  "is_trend ru row \<Longrightarrow> figure row ''adx'' \<noteq> NaN" "is_range ru row \<Longrightarrow> figure row ''adx'' \<noteq> NaN"
  "is_breakout row \<Longrightarrow> figure row ''adx'' \<noteq> NaN"
  unfolding is_trend_def is_range_def is_breakout_def Let_def by (metis NaN_less)+

text \<open>With a threshold of at least 22 the conditions of a trend and of a range exclude each other.\<close>

lemma trend_excludes_range:
  "sr_adx ru = Fin a \<Longrightarrow> 22 \<le> a \<Longrightarrow> is_trend ru row \<Longrightarrow> \<not> is_range ru row"
  by (cases "figure row ''adx''") (auto simp: is_trend_def is_range_def Let_def)

section \<open>Weights\<close>

abbreviation fused_models :: "string set" where
  "fused_models \<equiv> {''technical'', ''ml'', ''ob''}"

definition fusion_ok :: "fusion \<Rightarrow> bool" where
  "fusion_ok f \<longleftrightarrow> fused_models \<subseteq> fst ` set (fu_pnl f) \<and> fused_models \<subseteq> fst ` set (fu_weights f)"

lemma new_fusion_ok: "fusion_ok new_fusion"
  by (simp add: fusion_ok_def new_fusion_def)

lemma update_weights_keys: "map fst (fu_weights (update_weights f)) = map fst (fu_pnl f)"
  by (auto simp: update_weights_def Let_def comp_def case_prod_unfold)

lemma update_weights_ok: "fusion_ok f \<Longrightarrow> fusion_ok (update_weights f)"
proof -
  have "fst ` set (fu_weights (update_weights f)) = fst ` set (fu_pnl f)"
    using arg_cong [OF update_weights_keys, of set] by simp
  then show "fusion_ok f \<Longrightarrow> fusion_ok (update_weights f)"
    by (simp add: fusion_ok_def) (simp add: update_weights_def Let_def)
qed

lemma record_trade_pnl_ok: "fusion_ok f \<Longrightarrow> fusion_ok (record_trade_pnl model pnl f)"
  by (auto simp: fusion_ok_def record_trade_pnl_def Let_def AList.dom_update)

lemma clip01_range: "x \<noteq> NaN \<Longrightarrow> Fin 0 \<le> clip01 x \<and> clip01 x \<le> Fin 1"
  by (cases x) (auto simp: clip01_def)

text \<open>The operations of a fusion: the recording of a profit and the update of the weights.\<close>

datatype fusion_op = Record_Pnl string pyfloat | Update_Weights

fun fusion_run :: "fusion_op list \<Rightarrow> fusion \<Rightarrow> fusion" where
  "fusion_run [] f = f"
| "fusion_run (Record_Pnl model pnl # os) f = fusion_run os (record_trade_pnl model pnl f)"
| "fusion_run (Update_Weights # os) f = fusion_run os (update_weights f)"

lemma fusion_run_ok: "fusion_ok f \<Longrightarrow> fusion_ok (fusion_run os f)"
  by (induction os f rule: fusion_run.induct) (auto simp: record_trade_pnl_ok update_weights_ok)

theorem fusion_always_answers:
  "\<exists>x. fuse zscore sig prob imb z (fusion_run os new_fusion) = Inr x \<and> (x = NaN \<or> Fin 0 \<le> x \<and> x \<le> Fin 1)"
proof -
  have "fusion_ok (fusion_run os new_fusion)" by (rule fusion_run_ok [OF new_fusion_ok])
  then have "map_of (fu_weights (fusion_run os new_fusion)) k \<noteq> None" if "k \<in> fused_models" for k
    using that unfolding fusion_ok_def by (auto simp: map_of_eq_None_iff)
  then obtain wt wm wo where "map_of (fu_weights (fusion_run os new_fusion)) ''technical'' = Some wt"
    "map_of (fu_weights (fusion_run os new_fusion)) ''ml'' = Some wm"
    "map_of (fu_weights (fusion_run os new_fusion)) ''ob'' = Some wo" by (metis insertCI not_None_eq)
  moreover have "clip01 x = NaN \<or> Fin 0 \<le> clip01 x \<and> clip01 x \<le> Fin 1" for x
    using clip01_range [of x] by (cases "x = NaN") (simp_all add: clip01_def)
  ultimately show ?thesis by (auto simp: fuse_def weight_of_def Let_def)
qed

text \<open>Finite profits give weights that are not negative and sum to one, unless all of them are zero.\<close>

lemma py_sqrt_fin: "is_fin (py_sqrt x) \<longleftrightarrow> is_fin x"
  by (cases x) auto

lemma is_fin_sum: "list_all is_fin xs \<Longrightarrow> is_fin (py_sum xs)"
  by (simp add: py_sum_fin)

lemma py_mean_fin: "list_all is_fin xs \<Longrightarrow> xs \<noteq> [] \<Longrightarrow> is_fin (py_mean xs)"
  unfolding py_mean_def by (intro is_fin_divide is_fin_sum) simp_all

lemma pstdev_fin: "list_all is_fin xs \<Longrightarrow> xs \<noteq> [] \<Longrightarrow> is_fin (pstdev xs)"
  unfolding pstdev_def Let_def py_sqrt_fin
  by (intro is_fin_divide is_fin_sum) (auto simp: list_all_iff py_mean_fin)

lemma model_sharpe_fin:
  assumes "list_all is_fin pnl" shows "is_fin (model_sharpe pnl)"
proof (cases "length pnl < 5")
  case False
  then have "list_all is_fin (last_n 50 pnl)" "last_n 50 pnl \<noteq> []"
    using assms by (auto simp: last_n_def list_all_iff dest: in_set_dropD)
  then show ?thesis using False
    by (auto simp: model_sharpe_def Let_def py_eq_def py_mean_fin pstdev_fin intro!: is_fin_divide)
qed (simp add: model_sharpe_def)

lemma py_min_list_le:
  "list_all is_fin (x # xs) \<Longrightarrow> is_fin (foldl py_min x xs) \<and> (\<forall>y \<in> set (x # xs). foldl py_min x xs \<le> y)"
proof (induction xs arbitrary: x)
  case (Cons z zs)
  then have fin: "is_fin x" "is_fin z" "is_fin (py_min x z)" by (auto simp: py_min_def)
  then have IH: "is_fin (foldl py_min (py_min x z) zs)" "\<forall>y \<in> set (py_min x z # zs). foldl py_min (py_min x z) zs \<le> y"
    using Cons by auto
  have "py_min x z \<le> x" "py_min x z \<le> z" using fin by (auto simp: is_fin_iff)
  then show ?case using IH by (auto intro: pyfloat_le_trans)
qed (auto simp: is_fin_num)

text \<open>The sharpes after the shift: finite and not negative.\<close>

lemma shifted_sharpes:
  fixes sharpes :: "(string \<times> pyfloat) list"
  assumes fin: "list_all (\<lambda>(k, v). is_fin v) sharpes"
    and shifted: "shifted = (if py_min_list (map snd sharpes) < Fin 0
       then map (\<lambda>(k, v). (k, v - py_min_list (map snd sharpes) + Fin (1/100))) sharpes else sharpes)"
  shows "list_all (\<lambda>(k, v). is_fin v \<and> Fin 0 \<le> v) shifted"
proof (cases sharpes)
  case Nil
  then show ?thesis by (simp add: shifted)
next
  case (Cons p ps)
  let ?low = "py_min_list (map snd sharpes)"
  have "list_all is_fin (map snd sharpes)" using fin by (auto simp: list_all_iff)
  then have low: "is_fin ?low" "\<forall>y \<in> set (map snd sharpes). ?low \<le> y"
    using py_min_list_le [of "snd p" "map snd ps"] by (auto simp: py_min_list_def Cons)
  then obtain l where l: "?low = Fin l" by (auto simp: is_fin_iff)
  have "is_fin w \<and> Fin 0 \<le> w" if mem: "(k, w) \<in> set shifted" for k w
  proof (cases "?low < Fin 0")
    case True
    then have "shifted = map (\<lambda>(k, v). (k, v - ?low + Fin (1/100))) sharpes" by (simp add: shifted)
    then obtain v where v: "(k, v) \<in> set sharpes" "w = v - ?low + Fin (1/100)" using mem by auto
    then have "is_fin v" "?low \<le> v" using fin low(2) by (auto simp: list_all_iff)
    then show ?thesis by (auto simp: v(2) l is_fin_iff)
  next
    case False
    then have v: "(k, w) \<in> set sharpes" using mem by (simp add: shifted)
    then have "is_fin w" "?low \<le> w" using fin low(2) by (auto simp: list_all_iff)
    then show ?thesis using False by (auto simp: l is_fin_iff)
  qed
  then show ?thesis by (auto simp: list_all_iff)
qed

theorem weights_sum_to_one_or_vanish:
  assumes "list_all (\<lambda>(k, pnl). list_all is_fin pnl) (fu_pnl f)"
  shows "list_all (\<lambda>(k, w). Fin 0 \<le> w) (fu_weights (update_weights f)) \<and>
    (py_sum (map snd (fu_weights (update_weights f))) = Fin 1 \<or>
     list_all (\<lambda>(k, w). w = Fin 0) (fu_weights (update_weights f)))"
proof -
  define sharpes where "sharpes = map (\<lambda>(k, pnl). (k, model_sharpe pnl)) (fu_pnl f)"
  define shifted where "shifted = (if py_min_list (map snd sharpes) < Fin 0
       then map (\<lambda>(k, v). (k, v - py_min_list (map snd sharpes) + Fin (1/100))) sharpes else sharpes)"
  have "list_all (\<lambda>(k, v). is_fin v) sharpes"
    using assms by (auto simp: sharpes_def list_all_iff model_sharpe_fin)
  from shifted_sharpes [OF this shifted_def] have sh: "list_all (\<lambda>(k, v). is_fin v \<and> Fin 0 \<le> v) shifted" .
  define vs where "vs = map (\<lambda>(k, v). val_of v) shifted"
  have nonneg: "\<forall>x \<in> set vs. 0 \<le> x" using sh by (auto simp: vs_def list_all_iff is_fin_iff)
  have sum: "py_sum (map snd shifted) = Fin (sum_list vs)"
    using sh by (subst py_sum_fin) (auto simp: list_all_iff vs_def comp_def case_prod_unfold)
  have w: "fu_weights (update_weights f) =
      map (\<lambda>(k, v). (k, v / (if py_true (Fin (sum_list vs)) then Fin (sum_list vs) else Fin 1))) shifted"
    by (simp add: update_weights_def Let_def sharpes_def [symmetric] shifted_def [symmetric] sum [symmetric])
  show ?thesis
  proof (cases "sum_list vs = 0")
    case True
    then have "\<forall>x \<in> set vs. x = 0" using nonneg by (simp add: sum_list_nonneg_eq_0_iff)
    then have "v = Fin 0" if "(k, v) \<in> set shifted" for k v
      using that sh by (fastforce simp: vs_def list_all_iff is_fin_iff)
    then have "list_all (\<lambda>(k, w). w = Fin 0) (fu_weights (update_weights f))"
      using True by (fastforce simp: w list_all_iff py_true_def)
    then show ?thesis by (auto simp: list_all_iff)
  next
    case False
    moreover have "0 \<le> sum_list vs" using nonneg by (intro sum_list_nonneg) auto
    ultimately have pos: "0 < sum_list vs" by simp
    then have ws: "fu_weights (update_weights f) = map (\<lambda>(k, v). (k, Fin (val_of v / sum_list vs))) shifted"
      using sh by (auto simp: w list_all_iff py_true_def is_fin_iff)
    have "py_sum (map snd (fu_weights (update_weights f))) = Fin (sum_list (map (\<lambda>x. x / sum_list vs) vs))"
      unfolding ws by (subst py_sum_fin) (auto simp: list_all_iff vs_def comp_def case_prod_unfold)
    also have "sum_list (map (\<lambda>x. x / sum_list vs) vs) = sum_list vs / sum_list vs"
      using sum_list_over [of "\<lambda>x. x"] by simp
    finally show ?thesis using pos sh by (auto simp: w list_all_iff py_true_def is_fin_iff)
  qed
qed

text \<open>
  Profits that do not vary count as a ratio of zero: when that holds for every model, all weights vanish
  and the fusion answers zero for ever.
\<close>

theorem constant_profits_silence_fusion:
  assumes flat: "list_all (\<lambda>(k, pnl). 5 \<le> length pnl \<and> pstdev (last_n 50 pnl) = Fin 0) (fu_pnl f)" "fu_pnl f \<noteq> []"
    and ok: "fusion_ok f" and fin: "is_fin prob" "is_fin imb"
  shows "fuse zscore sig prob imb None (update_weights f) = Inr (Fin 0)"
proof -
  have sharpes: "map (\<lambda>(k, pnl). (k, model_sharpe pnl)) (fu_pnl f) = map (\<lambda>(k, pnl). (k, Fin 0)) (fu_pnl f)"
    using flat(1) by (auto simp: list_all_iff model_sharpe_def Let_def py_eq_def)
  have zeros: "map snd (map (\<lambda>(k, pnl). (k, Fin 0)) (fu_pnl f)) = replicate (length (fu_pnl f)) (Fin 0)"
    by (simp add: comp_def case_prod_unfold map_replicate_const)
  have low: "py_min_list (replicate n (Fin 0)) = Fin 0" if "0 < n" for n
  proof -
    have "foldl py_min (Fin 0) (replicate k (Fin 0)) = Fin 0" for k by (induction k) simp_all
    then show ?thesis using that by (cases n) (simp_all add: py_min_list_def)
  qed
  have sum: "py_sum (replicate n (Fin 0)) = Fin 0" for n by (induction n) simp_all
  have sum': "py_sum (map (\<lambda>x. Fin 0) xs) = Fin 0" for xs :: "(string \<times> pyfloat list) list" by (induction xs) simp_all
  have "fu_weights (update_weights f) = map (\<lambda>(k, pnl). (k, Fin 0)) (fu_pnl f)"
    unfolding update_weights_def Let_def sharpes zeros using flat(2)
    by (simp add: low sum sum' py_true_def comp_def case_prod_unfold)
  moreover have "map_of (map (\<lambda>(k, pnl). (k, Fin 0)) d) k = map_option (\<lambda>_. Fin 0) (map_of d k)" for d :: "(string \<times> pyfloat list) list" and k
    by (induction d) auto
  moreover have "map_of (fu_pnl f) k \<noteq> None" if "k \<in> fused_models" for k
    using ok that unfolding fusion_ok_def by (auto simp: map_of_eq_None_iff)
  ultimately have w: "weight_of (update_weights f) k = Inr (Fin 0)" if "k \<in> fused_models" for k
    using that by (fastforce simp: weight_of_def split: option.splits)
  obtain s where s: "py_sigmoid ((imb - Fin 1) * Fin 2) = Fin s" using fin(2) by (auto simp: is_fin_iff)
  have "is_fin (tech_score sig)" by (simp add: tech_score_def)
  then obtain t where t: "tech_score sig = Fin t" by (auto simp: is_fin_iff)
  from fin(1) show ?thesis by (auto simp: fuse_def w s t clip01_def is_fin_iff)
qed

section \<open>Caches\<close>

lemma cache_get_set:
  "cache_get now symb tf (cache_set t symb tf d c) = (if now - t < cache_ttl tf then Some d else None)"
  by (simp add: cache_get_def cache_set_def dict_simps)

text \<open>What is evicted could not be served any more.\<close>

lemma evict_keeps_served:
  assumes "dict_ok c"
  shows "cache_get now symb tf (evict_expired now c) = cache_get now symb tf c"
proof (cases "map_of c (cache_key symb tf)")
  case None
  then have "map_of (evict_expired now c) (cache_key symb tf) = None"
    by (auto simp: evict_expired_def map_of_eq_None_iff)
  with None show ?thesis by (simp add: cache_get_def)
next
  case (Some p)
  obtain d t where p: "p = (d, t)" by (cases p)
  have ok: "dict_ok (evict_expired now c)" using assms by (simp add: evict_expired_def distinct_map_filter)
  have mem: "(cache_key symb tf, d, t) \<in> set c" using Some p by (auto dest: map_of_SomeD)
  show ?thesis
  proof (cases "14400 * 2 < now - t")
    case True
    then have "\<not> now - t < cache_ttl tf" by (auto simp: cache_ttl_def)
    moreover have "map_of (evict_expired now c) (cache_key symb tf) = None"
      using True eq_key_imp_eq_value [OF assms mem] by (fastforce simp: evict_expired_def map_of_eq_None_iff)
    ultimately show ?thesis by (simp add: cache_get_def Some p)
  next
    case False
    then have "(cache_key symb tf, d, t) \<in> set (evict_expired now c)" using mem by (auto simp: evict_expired_def)
    then have "map_of (evict_expired now c) (cache_key symb tf) = Some (d, t)" using ok by (intro map_of_is_SomeI) auto
    then show ?thesis by (simp add: cache_get_def Some p)
  qed
qed

text \<open>A cached frame is served whatever number of rows is asked for.\<close>

theorem cached_frame_ignores_limit:
  assumes "fetch_frame t t' exch symb tf (Some 20) [] = (c, Some rows)" "now - t' < cache_ttl tf"
  shows "fetch_frame now later exch' symb tf (Some n) c = (c, Some rows)"
proof -
  have "c = cache_set t' symb tf rows []"
    using assms(1) by (auto simp: fetch_frame_def cache_get_def split: sum.splits if_splits)
  then show ?thesis using assms(2) by (simp add: fetch_frame_def cache_get_set)
qed

text \<open>A figure that was read is not fetched again before it expires.\<close>

lemma cached_figure_kept:
  assumes "cached_figure t key ttl read dflt answer [] = (c, Inr x)" "c \<noteq> []" "now < t + ttl"
  shows "cached_figure now key ttl read dflt answer' c = (c, Inr x)"
  using assms
  by (auto simp: cached_figure_def ttl_get_def ttl_set_def split: option.splits sum.splits if_splits)

end
