(* ===== verification/Legacy_Trading.thy ===== *)
theory Legacy_Trading
  imports Legacy_Execution Signal_Fusion
begin

text \<open>
  The trades of the legacy trading program (\<open>AegisPro\<close> in \<open>main_legacy.py\<close>): the balance, the partial and
  full exits of a trade and the turn of its main loop. The prices and indicators of a turn, the exchange
  and the database of trades are arguments; notifications, the dashboard and the learned models are left
  out.
\<close>

section \<open>State\<close>

record bot_rules =
  br_exec :: exec_rules
  br_risk :: risk_rules
  br_tp1_frac :: pyfloat
  br_tp2_frac :: pyfloat
  br_early_trigger :: pyfloat
  br_cooldown :: int

record 'w bot =
  bo_balance :: pyfloat
  bo_daily :: pyfloat
  bo_cooldowns :: "(string, pyfloat) pydict"
  bo_trades :: "(string, legacy_trade) pydict"
  bo_risk :: risk_manager
  bo_fusion :: fusion
  bo_world :: 'w

text \<open>A row of the trade table; the database may refuse it.\<close>

record log_row =
  lw_action :: string
  lw_symbol :: string
  lw_price :: pyfloat
  lw_qty :: pyfloat
  lw_pnl :: pyfloat

type_synonym log_sink = "log_row \<Rightarrow> py_exc option"

definition paper :: "bot_rules \<Rightarrow> bool" where
  "paper br \<longleftrightarrow> ex_mode (br_exec br) = ''PAPER''"

definition open_risk :: "'w bot \<Rightarrow> pyfloat" where
  "open_risk b =
     foldl (\<lambda>acc (_, t). let risk = (lt_entry t - lt_stop t) * lt_qty t in if Fin 0 < risk then acc + risk else acc)
       (Fin 0) (bo_trades b)"

text \<open>
  \<open>equity\<close>: the generator names its loop variable \<open>_sym\<close> and reads \<open>sym\<close>, which does not exist.
\<close>

definition equity_of :: "pyfloat \<Rightarrow> 'w bot \<Rightarrow> pyfloat res" where
  "equity_of base b =
     (if bo_trades b = [] then Inr base
      else Inl (OtherError (text_msg ''NameError: name 'sym' is not defined'')))"

section \<open>Exits\<close>

definition result_average :: "pyval \<Rightarrow> pyfloat \<Rightarrow> pyfloat res" where
  "result_average v price =
     (case v of VDict d \<Rightarrow> py_float (dict_get d ''average'' (VFloat price))
      | _ \<Rightarrow> Inl (AttributeError (text_msg ''object has no attribute get'')))"

definition result_fee :: "pyval \<Rightarrow> pyfloat res" where
  "result_fee v =
     (case v of
        VDict d \<Rightarrow>
          (case dict_get d ''fee'' (VDict []) of
             VDict f \<Rightarrow> py_float (dict_get f ''cost'' (VInt 0))
           | _ \<Rightarrow> Inl (AttributeError (text_msg ''object has no attribute get'')))
      | _ \<Rightarrow> Inl (AttributeError (text_msg ''object has no attribute get'')))"

definition sell :: "'w outside \<Rightarrow> bot_rules \<Rightarrow> string \<Rightarrow> string \<Rightarrow> pyfloat \<Rightarrow> pyfloat \<Rightarrow> 'w bot \<Rightarrow> 'w bot \<times> pyval option" where
  "sell ow br hex symb qty price b =
     (case execute_sell ow (br_exec br) (br_risk br) hex symb qty price (bo_risk b) (bo_world b) of
        (w, m, r) \<Rightarrow> (b\<lparr>bo_world := w, bo_risk := m\<rparr>, (case r of Some v \<Rightarrow> if truthy v then Some v else None | None \<Rightarrow> None)))"

text \<open>The trade is changed before its row is written, and so is the balance.\<close>

definition partial_close ::
  "'w outside \<Rightarrow> bot_rules \<Rightarrow> log_sink \<Rightarrow> string \<Rightarrow> string \<Rightarrow> pyfloat \<Rightarrow> pyfloat \<Rightarrow> string
     \<Rightarrow> 'w bot \<times> legacy_trade \<Rightarrow> ('w bot \<times> legacy_trade) \<times> bool res" where
  "partial_close ow br db hex symb qty price reason bt =
     (case bt of (b, t) \<Rightarrow>
        if qty \<le> Fin 0 \<or> lt_qty t \<le> Fin 0 then ((b, t), Inr False)
        else let q = py_min qty (lt_qty t) in
          case sell ow br hex symb q price b of
            (b1, None) \<Rightarrow> ((b1, t), Inr False)
          | (b1, Some v) \<Rightarrow>
              (case rbind (result_average v price) (\<lambda>fill. rbind (result_fee v) (\<lambda>fee. Inr (fill, fee))) of
                 Inl e \<Rightarrow> ((b1, t), Inl e)
               | Inr (fill, fee) \<Rightarrow>
                   (let pnl = (fill - lt_entry t) * q - fee;
                        b2 = b1\<lparr>bo_balance := (if paper br then bo_balance b1 + fill * q else bo_balance b1),
                               bo_daily := bo_daily b1 + pnl\<rparr>;
                        t2 = t\<lparr>lt_qty := lt_qty t - q\<rparr>
                    in case db \<lparr>lw_action = reason, lw_symbol = symb, lw_price = fill, lw_qty = q, lw_pnl = pnl\<rparr> of
                         Some e \<Rightarrow> ((b2, t2), Inl e)
                       | None \<Rightarrow> ((b2, t2), Inr True))))"

text \<open>The exits of a trade, one after the other; each sees the changes of those before it.\<close>

definition exit_tp1 ::
  "'w outside \<Rightarrow> bot_rules \<Rightarrow> log_sink \<Rightarrow> string \<Rightarrow> string \<Rightarrow> pyfloat \<Rightarrow> ('w bot \<times> legacy_trade, unit) step" where
  "exit_tp1 ow br db hex symb price bt =
     (let t = snd bt in
      if \<not> lt_tp1_taken t \<and> lt_tp1 t \<le> price
      then case partial_close ow br db hex symb (lt_qty t * br_tp1_frac br) price ''TP1'' bt of
             (bt1, Inl e) \<Rightarrow> (bt1, Inl e)
           | (bt1, Inr False) \<Rightarrow> (bt1, Inr ())
           | ((b1, t1), Inr True) \<Rightarrow>
               ((b1, t1\<lparr>lt_tp1_taken := True, lt_stop := py_max (lt_stop t1) (lt_entry t1 * Fin (1001/1000)), lt_trail := True\<rparr>), Inr ())
      else (bt, Inr ()))"

definition exit_tp2 ::
  "'w outside \<Rightarrow> bot_rules \<Rightarrow> log_sink \<Rightarrow> string \<Rightarrow> string \<Rightarrow> pyfloat \<Rightarrow> ('w bot \<times> legacy_trade, unit) step" where
  "exit_tp2 ow br db hex symb price bt =
     (let t = snd bt in
      if lt_tp1_taken t \<and> \<not> lt_tp2_taken t \<and> lt_tp2 t \<le> price
      then case partial_close ow br db hex symb (lt_qty t * br_tp2_frac br) price ''TP2'' bt of
             (bt1, Inl e) \<Rightarrow> (bt1, Inl e)
           | (bt1, Inr False) \<Rightarrow> (bt1, Inr ())
           | ((b1, t1), Inr True) \<Rightarrow> ((b1, t1\<lparr>lt_tp2_taken := True\<rparr>), Inr ())
      else (bt, Inr ()))"

definition trail_stops :: "bot_rules \<Rightarrow> pyfloat \<Rightarrow> pyfloat \<Rightarrow> legacy_trade \<Rightarrow> legacy_trade" where
  "trail_stops br atr price t =
     (let profit = (price - lt_entry t) / py_max (lt_atr_entry t) (Fin (1 / 10 ^ 10));
          t1 = (if \<not> lt_early_trail t \<and> br_early_trigger br \<le> profit
                then t\<lparr>lt_early_trail := True, lt_stop := py_max (lt_stop t) (lt_entry t + Fin (1/1000) * lt_entry t)\<rparr> else t)
      in if lt_trail t1 then t1\<lparr>lt_stop := py_max (lt_stop t1) (price - Fin 2 * atr)\<rparr> else t1)"

definition check_trade_exits ::
  "'w outside \<Rightarrow> bot_rules \<Rightarrow> log_sink \<Rightarrow> string \<Rightarrow> string \<Rightarrow> pyfloat \<Rightarrow> ('w bot \<times> legacy_trade, string option) step" where
  "check_trade_exits ow br db hex symb price bt =
     (let atr = lt_atr (snd bt) in
      if price \<le> lt_stop (snd bt) then (bt, Inr (Some ''STOP_LOSS''))
      else case andthen (exit_tp1 ow br db hex symb price) (\<lambda>_. exit_tp2 ow br db hex symb price) bt of
             (bt1, Inl e) \<Rightarrow> (bt1, Inl e)
           | ((b1, t1), Inr _) \<Rightarrow>
               (let t2 = trail_stops br atr price t1;
                    action = (if should_time_stop (br_risk br) t2 (bo_risk b1) \<and> (price - lt_entry t2) * lt_qty t2 \<le> Fin 0
                              then Some ''TIME_STOP'' else None)
                in ((b1, t2), Inr action)))"

section \<open>Closing\<close>

text \<open>Up to three attempts; what each returns, the last one if none succeeded.\<close>

fun sell_attempts ::
  "nat \<Rightarrow> 'w outside \<Rightarrow> bot_rules \<Rightarrow> string \<Rightarrow> string \<Rightarrow> pyfloat \<Rightarrow> pyfloat \<Rightarrow> 'w bot \<Rightarrow> 'w bot \<times> pyval option" where
  "sell_attempts 0 ow br hex symb qty price b = (b, None)"
| "sell_attempts (Suc n) ow br hex symb qty price b =
     (case sell ow br hex symb qty price b of
        (b1, Some v) \<Rightarrow> (b1, Some v)
      | (b1, None) \<Rightarrow>
          sell_attempts n ow br hex symb qty price (b1\<lparr>bo_world := ow_sleep ow 2 (bo_world b1)\<rparr>))"

definition close_trade ::
  "'w outside \<Rightarrow> bot_rules \<Rightarrow> log_sink \<Rightarrow> string \<Rightarrow> string \<Rightarrow> string \<Rightarrow> pyfloat \<Rightarrow> ('w bot, unit) step" where
  "close_trade ow br db hex symb reason price b =
     (case map_of (bo_trades b) symb of
        None \<Rightarrow> (b, Inr ())
      | Some t \<Rightarrow>
          (case sell_attempts 3 ow br hex symb (lt_qty t) price b of
             (b1, None) \<Rightarrow> (b1, Inr ())
           | (b1, Some v) \<Rightarrow>
               (case rbind (result_average v price) (\<lambda>fill. rbind (result_fee v) (\<lambda>fee. Inr (fill, fee))) of
                  Inl e \<Rightarrow> (b1, Inl e)
                | Inr (fill, fee) \<Rightarrow>
                    (let now = Fin (ow_now ow (bo_world b1));
                         pnl = (fill - lt_entry t) * lt_qty t - lt_entry_fee t - fee;
                         r = pnl / py_max (lt_risk t) (Fin (1 / 10 ^ 6));
                         m = record_slippage (br_risk br) now symb price fill (count_trade (br_risk br) now pnl r (bo_risk b1));
                         b2 = b1\<lparr>bo_balance := (if paper br then bo_balance b1 + fill * lt_qty t else bo_balance b1),
                                 bo_daily := bo_daily b1 + pnl, bo_risk := m,
                                 bo_fusion := record_trade_pnl (if lt_signal t \<noteq> [] then ''technical'' else ''ml'') pnl (bo_fusion b1),
                                 bo_cooldowns := (if pnl < Fin 0
                                    then dict_set symb (now + float_of_int (br_cooldown br)) (bo_cooldowns b1) else bo_cooldowns b1)\<rparr>
                     in case db \<lparr>lw_action = reason, lw_symbol = symb, lw_price = fill, lw_qty = lt_qty t, lw_pnl = pnl\<rparr> of
                          Some e \<Rightarrow> (b2, Inl e)
                        | None \<Rightarrow> (b2\<lparr>bo_trades := dict_pop symb (bo_trades b2)\<rparr>, Inr ())))))"

section \<open>One turn\<close>

text \<open>
  The prices of a turn and the indicator, which may be missing or raise. An exception of a trade skips
  this trade; its object keeps what was changed before.
\<close>

definition manage_trade ::
  "'w outside \<Rightarrow> bot_rules \<Rightarrow> log_sink \<Rightarrow> string \<Rightarrow> (string \<Rightarrow> pyfloat) \<Rightarrow> (string \<Rightarrow> pyfloat option res) \<Rightarrow>
   'w bot \<times> (string \<times> string \<times> pyfloat) list \<Rightarrow> string \<times> legacy_trade \<Rightarrow> 'w bot \<times> (string \<times> string \<times> pyfloat) list" where
  "manage_trade ow br db hex prices atrs acc st =
     (case (acc, st) of ((b, closing), (symb, t)) \<Rightarrow>
        let price = prices symb in
        if price \<le> Fin 0 then (b, closing)
        else case atrs symb of
          Inl _ \<Rightarrow> (b, closing)
        | Inr a \<Rightarrow>
            (let t1 = (case a of None \<Rightarrow> t | Some x \<Rightarrow> t\<lparr>lt_atr := x\<rparr>) in
             case check_trade_exits ow br db hex symb price (b, t1) of
               ((b1, t2), r) \<Rightarrow>
                 (b1\<lparr>bo_trades := dict_set symb t2 (bo_trades b1)\<rparr>,
                  (case r of Inr (Some action) \<Rightarrow> closing @ [(symb, action, price)] | _ \<Rightarrow> closing))))"

definition manage_open_positions ::
  "'w outside \<Rightarrow> bot_rules \<Rightarrow> log_sink \<Rightarrow> string \<Rightarrow> (string \<Rightarrow> pyfloat) \<Rightarrow> (string \<Rightarrow> pyfloat option res) \<Rightarrow> 'w bot \<Rightarrow> 'w bot \<times> unit res" where
  "manage_open_positions ow br db hex prices atrs b =
     (case foldl (manage_trade ow br db hex prices atrs) (b, []) (bo_trades b) of
        (b1, closing) \<Rightarrow>
          foldl (\<lambda>(b, r) (symb, action, price).
                   case r of Inl e \<Rightarrow> (b, Inl e) | Inr _ \<Rightarrow> close_trade ow br db hex symb action price b)
            (b1, Inr ()) closing)"

text \<open>
  The beginning of a turn: the bar is counted and the equity read. \<open>rest\<close> is the turn after that.
\<close>

definition legacy_tick :: "pyfloat \<Rightarrow> (pyfloat \<Rightarrow> 'w bot \<Rightarrow> 'w bot \<times> unit res) \<Rightarrow> 'w bot \<Rightarrow> 'w bot \<times> unit res" where
  "legacy_tick base rest b =
     (let b1 = b\<lparr>bo_risk := (bo_risk b)\<lparr>lr_bars := lr_bars (bo_risk b) + 1\<rparr>\<rparr> in
      case equity_of base b1 of
        Inl e \<Rightarrow> (b1, Inl e)
      | Inr equity \<Rightarrow> rest equity b1)"


section \<open>Paper sales\<close>

text \<open>Finite figures of the rules, and a database that accepts every row.\<close>

definition finite_bot :: "bot_rules \<Rightarrow> bool" where
  "finite_bot br \<longleftrightarrow> is_fin (ex_slippage (br_exec br)) \<and> is_fin (br_tp1_frac br) \<and> is_fin (br_tp2_frac br)"

lemma paper_sell:
  assumes "paper br" "is_fin (ex_slippage (br_exec br))" "is_fin price" "is_fin qty"
  shows "\<exists>b' v f. sell ow br hex symb qty price b = (b', Some v) \<and> result_average v x = Inr (Fin f) \<and>
    result_fee v = Inr (Fin (f * val_of qty / 1000)) \<and> bo_balance b' = bo_balance b \<and> bo_daily b' = bo_daily b \<and>
    bo_trades b' = bo_trades b"
proof -
  obtain s p q where v: "ex_slippage (br_exec br) = Fin s" "price = Fin p" "qty = Fin q" using assms(2-4) by (auto simp: is_fin_iff)
  show ?thesis
    using assms(1)
    by (simp add: sell_def execute_sell_def paper_def paper_fill_def Let_def v result_average_def result_fee_def dict_simps)
qed

text \<open>What a trade and the books keep while it is sold in parts.\<close>

definition trade_ok :: "real \<Rightarrow> real \<Rightarrow> pyfloat \<Rightarrow> real \<Rightarrow> 'w bot \<times> legacy_trade \<Rightarrow> bool" where
  "trade_ok k e ef q0 bt \<longleftrightarrow> lt_entry_fee (snd bt) = ef \<and> (\<exists>bal day q. bo_balance (fst bt) = Fin bal \<and> bo_daily (fst bt) = Fin day \<and>
     lt_qty (snd bt) = Fin q \<and> 0 \<le> q \<and> q \<le> q0 \<and> lt_entry (snd bt) = Fin e \<and> k = day - bal * (999/1000) - e * q)"

lemma partial_close_ok:
  assumes "paper br" "finite_bot br" "is_fin price" "is_fin part" "trade_ok k e ef q0 bt"
    and "partial_close ow br db hex symb (lt_qty (snd bt) * part) price reason bt = (bt', r)"
  shows "trade_ok k e ef q0 bt' \<and> snd bt' = (snd bt)\<lparr>lt_qty := lt_qty (snd bt')\<rparr>"
proof -
  obtain b t where bt: "bt = (b, t)" by fastforce
  obtain bal day q where ok: "bo_balance b = Fin bal" "bo_daily b = Fin day" "lt_qty t = Fin q" "0 \<le> q" "q \<le> q0"
      "lt_entry t = Fin e" "k = day - bal * (999/1000) - e * q" "lt_entry_fee t = ef"
    using assms(5) by (auto simp: trade_ok_def bt)
  obtain fr where fr: "part = Fin fr" using assms(4) by (auto simp: is_fin_iff)
  define n where "n = min (q * fr) q"
  show ?thesis
  proof (cases "q * fr \<le> 0 \<or> q \<le> 0")
    case True
    then show ?thesis using assms(5,6) by (auto simp: bt partial_close_def ok(3) fr)
  next
    case False
    then have n: "0 < n" "n \<le> q" by (auto simp: n_def)
    obtain b1 v f where s: "sell ow br hex symb (Fin n) price b = (b1, Some v)" "result_average v price = Inr (Fin f)"
        "result_fee v = Inr (Fin (f * n / 1000))" "bo_balance b1 = Fin bal" "bo_daily b1 = Fin day"
      using paper_sell [OF assms(1) _ assms(3), of "Fin n" ow hex symb b price] assms(2) ok by (auto simp: finite_bot_def)
    have eq: "day + ((f - e) * n - f * n / 1000) - (bal + f * n) * (999/1000) - e * (q - n) = day - bal * (999/1000) - e * q"
      by (simp add: field_simps)
    show ?thesis
      using assms(6) False s n ok assms(1) eq
      by (auto simp: bt partial_close_def fr Let_def n_def [symmetric] trade_ok_def split: option.splits)
  qed
qed

lemma exits_ok:
  assumes "paper br" "finite_bot br" "is_fin price"
  shows "keeps (trade_ok k e ef q0) (exit_tp1 ow br db hex symb price)" "keeps (trade_ok k e ef q0) (exit_tp2 ow br db hex symb price)"
proof -
  have tp: "is_fin (br_tp1_frac br)" "is_fin (br_tp2_frac br)" using assms(2) by (simp_all add: finite_bot_def)
  note part = partial_close_ok [OF assms]
  show "keeps (trade_ok k e ef q0) (exit_tp1 ow br db hex symb price)"
  proof (rule keepsI)
    fix bt bt' r
    assume ok: "trade_ok k e ef q0 bt" "exit_tp1 ow br db hex symb price bt = (bt', r)"
    obtain bt1 r1 where p: "partial_close ow br db hex symb (lt_qty (snd bt) * br_tp1_frac br) price ''TP1'' bt = (bt1, r1)" by fastforce
    show "trade_ok k e ef q0 bt'" using part [OF tp(1) ok(1) p] ok p
      by (auto simp: exit_tp1_def Let_def trade_ok_def split: if_splits sum.splits bool.splits prod.splits)
  qed
  show "keeps (trade_ok k e ef q0) (exit_tp2 ow br db hex symb price)"
  proof (rule keepsI)
    fix bt bt' r
    assume ok: "trade_ok k e ef q0 bt" "exit_tp2 ow br db hex symb price bt = (bt', r)"
    obtain bt1 r1 where p: "partial_close ow br db hex symb (lt_qty (snd bt) * br_tp2_frac br) price ''TP2'' bt = (bt1, r1)" by fastforce
    show "trade_ok k e ef q0 bt'" using part [OF tp(2) ok(1) p] ok p
      by (auto simp: exit_tp2_def Let_def trade_ok_def split: if_splits sum.splits bool.splits prod.splits)
  qed
qed

lemma trail_stops_ok: "trade_ok k e ef q0 (b, trail_stops br atr price t) \<longleftrightarrow> trade_ok k e ef q0 (b, t)"
  by (simp add: trade_ok_def trail_stops_def Let_def)

lemma check_exits_ok:
  assumes "paper br" "finite_bot br" "is_fin price"
  shows "keeps (trade_ok k e ef q0) (check_trade_exits ow br db hex symb price)"
proof (rule keepsI)
  fix bt bt' r
  assume ok: "trade_ok k e ef q0 bt" "check_trade_exits ow br db hex symb price bt = (bt', r)"
  obtain b1 t1 r1 where both: "andthen (exit_tp1 ow br db hex symb price) (\<lambda>_. exit_tp2 ow br db hex symb price) bt = ((b1, t1), r1)"
    by (metis prod.collapse)
  have "trade_ok k e ef q0 (b1, t1)"
    using keepsD [OF keeps_andthen [OF exits_ok(1) exits_ok(2), OF assms assms] ok(1) both] .
  then show "trade_ok k e ef q0 bt'" using ok both
    by (auto simp: check_trade_exits_def Let_def trail_stops_ok split: if_splits sum.splits)
qed


section \<open>The life of a trade\<close>

text \<open>The turns of one trade: a price and, if there is one, a new indicator for each.\<close>

definition trade_turns ::
  "'w outside \<Rightarrow> bot_rules \<Rightarrow> log_sink \<Rightarrow> string \<Rightarrow> string \<Rightarrow> (real \<times> pyfloat option) list \<Rightarrow> 'w bot \<times> legacy_trade \<Rightarrow> 'w bot \<times> legacy_trade" where
  "trade_turns ow br db hex symb turns bt =
     foldl (\<lambda>(b, t) (p, a). fst (check_trade_exits ow br db hex symb (Fin p)
        (b, case a of None \<Rightarrow> t | Some x \<Rightarrow> t\<lparr>lt_atr := x\<rparr>))) bt turns"

lemma trade_turns_keep:
  assumes "\<And>p. keeps P (check_trade_exits ow br db hex symb (Fin p))" "\<And>b t x. P (b, t) \<Longrightarrow> P (b, t\<lparr>lt_atr := x\<rparr>)"
    and "P bt"
  shows "P (trade_turns ow br db hex symb turns bt)"
  unfolding trade_turns_def
  using assms(3)
proof (induction turns arbitrary: bt)
  case (Cons turn turns)
  obtain b t p a where s: "bt = (b, t)" "turn = (p, a)" by fastforce
  let ?bt = "(b, case a of None \<Rightarrow> t | Some x \<Rightarrow> t\<lparr>lt_atr := x\<rparr>)"
  have "P ?bt" using Cons.prems assms(2) by (cases a) (simp_all add: s)
  then have "P (fst (check_trade_exits ow br db hex symb (Fin p) ?bt))" using assms(1) by (simp add: keeps_def)
  from Cons.IH [OF this] show ?case by (simp add: s)
qed simp

text \<open>
  A simulated trade is booked for its proceeds. Sell a trade in any turns, at any prices, and then
  close it: the profit booked is 99.9\% of what the sales added to the balance, less the cost of the
  trade and the fee of its entry. The balance itself is never charged a fee, so it ends above the booked
  profit by the fees of all sales and of the entry.
\<close>

theorem paper_trade_books:
  assumes "paper br" "finite_bot br" "trade_turns ow br db hex symb turns (b, t) = (b1, t1)"
    and "bo_balance b = Fin bal" "bo_daily b = Fin day" "lt_qty t = Fin q" "0 \<le> q" "lt_entry t = Fin e" "lt_entry_fee t = Fin ef"
    and "close_trade ow br db hex symb reason (Fin p) (b1\<lparr>bo_trades := dict_set symb t1 (bo_trades b1)\<rparr>) = (b2, Inr ())"
  shows "\<exists>bal2 day2. bo_balance b2 = Fin bal2 \<and> bo_daily b2 = Fin day2 \<and>
    day2 - day = (bal2 - bal) * (999/1000) - e * q - ef \<and> symb \<notin> fst ` set (bo_trades b2)"
proof -
  define k where "k = day - bal * (999/1000) - e * q"
  have start: "trade_ok k e (Fin ef) q (b, t)" using assms(4-9) by (simp add: trade_ok_def k_def)
  have "trade_ok k e (Fin ef) q (trade_turns ow br db hex symb turns (b, t))"
    by (rule trade_turns_keep [of "trade_ok k e (Fin ef) q", OF check_exits_ok [OF assms(1,2)] _ start])
      (simp_all add: trade_ok_def)
  then obtain bal1 day1 q1 where one: "bo_balance b1 = Fin bal1" "bo_daily b1 = Fin day1" "lt_qty t1 = Fin q1"
      "lt_entry t1 = Fin e" "k = day1 - bal1 * (999/1000) - e * q1" "lt_entry_fee t1 = Fin ef"
    by (auto simp: trade_ok_def assms(3))
  let ?b = "b1\<lparr>bo_trades := dict_set symb t1 (bo_trades b1)\<rparr>"
  obtain b3 v f where s: "sell ow br hex symb (Fin q1) (Fin p) ?b = (b3, Some v)" "result_average v (Fin p) = Inr (Fin f)"
      "result_fee v = Inr (Fin (f * q1 / 1000))" "bo_balance b3 = Fin bal1" "bo_daily b3 = Fin day1"
    using paper_sell [OF assms(1), of "Fin p" "Fin q1" ow hex symb ?b "Fin p"] assms(2) one by (auto simp: finite_bot_def)
  have attempt: "sell_attempts 3 ow br hex symb (Fin q1) (Fin p) ?b = (b3, Some v)" by (simp add: numeral_3_eq_3 s(1))
  have "map_of (bo_trades ?b) symb = Some t1" by (simp add: dict_simps)
  then have "bo_balance b2 = Fin (bal1 + f * q1)" "bo_daily b2 = Fin (day1 + ((f - e) * q1 - ef - f * q1 / 1000))"
      "symb \<notin> fst ` set (bo_trades b2)"
    using assms(1,10) attempt s one
    by (auto simp: close_trade_def Let_def dict_simps dict_pop_mem split: option.splits)
  moreover have "day1 + ((f - e) * q1 - ef - f * q1 / 1000) - day = (bal1 + f * q1 - bal) * (999/1000) - e * q - ef"
    using one(5) by (simp add: k_def field_simps)
  ultimately show ?thesis by blast
qed

section \<open>Stops\<close>

lemma partial_close_frame:
  "partial_close ow br db hex symb qty price reason bt = (bt', r) \<Longrightarrow> lt_stop (snd bt') = lt_stop (snd bt)"
  by (auto simp: partial_close_def Let_def split: if_splits prod.splits option.splits sum.splits)

lemma exits_stop:
  assumes "is_num s"
  shows "keeps (\<lambda>bt. s \<le> lt_stop (snd bt)) (exit_tp1 ow br db hex symb price)"
    "keeps (\<lambda>bt. s \<le> lt_stop (snd bt)) (exit_tp2 ow br db hex symb price)"
    "s \<le> lt_stop t \<Longrightarrow> s \<le> lt_stop (trail_stops br atr price t)"
proof -
  have max: "s \<le> x \<Longrightarrow> s \<le> py_max x y" for x y
    using py_max_ge(1) [of x y] by (meson pyfloat_le_trans pyfloat_leD_num)
  show "keeps (\<lambda>bt. s \<le> lt_stop (snd bt)) (exit_tp1 ow br db hex symb price)"
    by (rule keepsI) (auto simp: exit_tp1_def Let_def max split: if_splits sum.splits bool.splits prod.splits
        dest!: partial_close_frame)
  show "keeps (\<lambda>bt. s \<le> lt_stop (snd bt)) (exit_tp2 ow br db hex symb price)"
    by (rule keepsI) (auto simp: exit_tp2_def Let_def max split: if_splits sum.splits bool.splits prod.splits
        dest!: partial_close_frame)
  show "s \<le> lt_stop t \<Longrightarrow> s \<le> lt_stop (trail_stops br atr price t)"
    by (simp add: trail_stops_def Let_def max)
qed

text \<open>The stop of a trade only rises, in every mode and whatever the sales and the database answer.\<close>

theorem stops_only_rise:
  assumes "is_num (lt_stop t)" "trade_turns ow br db hex symb turns (b, t) = (b1, t1)"
  shows "lt_stop t \<le> lt_stop t1"
proof -
  let ?P = "\<lambda>bt. lt_stop t \<le> lt_stop (snd bt)"
  have keep: "keeps ?P (check_trade_exits ow br db hex symb price)" for price
  proof (rule keepsI)
    fix bt :: "'a bot \<times> legacy_trade" and bt' r
    assume ok: "?P bt" "check_trade_exits ow br db hex symb price bt = (bt', r)"
    obtain b2 t2 r1 where both: "andthen (exit_tp1 ow br db hex symb price) (\<lambda>_. exit_tp2 ow br db hex symb price) bt = ((b2, t2), r1)"
      by (metis prod.collapse)
    have "?P (b2, t2)" using keepsD [OF keeps_andthen [OF exits_stop(1,2) [OF assms(1)]] ok(1) both] .
    then show "?P bt'" using ok both exits_stop(3) [OF assms(1)]
      by (auto simp: check_trade_exits_def Let_def split: if_splits sum.splits)
  qed
  have "?P (trade_turns ow br db hex symb turns (b, t))"
    by (rule trade_turns_keep [of ?P, OF keep]) (use assms(1) in simp_all)
  then show ?thesis by (simp add: assms(2))
qed

section \<open>The program with an open trade\<close>

text \<open>
  An open trade stops the legacy program. With a trade open every turn of its loop raises before any
  exit is looked at, so that no number of turns changes the trades or the balance; and were a trade to be
  closed outside the paper mode, the sale would fail three times and leave it as it is, without an error.
\<close>

theorem open_trade_stops_program:
  assumes "bo_trades b \<noteq> []"
  shows "bo_trades (((\<lambda>b. fst (legacy_tick base rest b)) ^^ n) b) = bo_trades b \<and>
    bo_balance (((\<lambda>b. fst (legacy_tick base rest b)) ^^ n) b) = bo_balance b \<and>
    \<not> is_ok (snd (legacy_tick base rest (((\<lambda>b. fst (legacy_tick base rest b)) ^^ n) b))) \<and>
    (\<not> paper br \<longrightarrow> (\<exists>w. close_trade ow br db hex symb reason price b = (b\<lparr>bo_world := w\<rparr>, Inr ())))"
proof -
  have one: "bo_trades (fst (legacy_tick base rest c)) = bo_trades c \<and> bo_balance (fst (legacy_tick base rest c)) = bo_balance c \<and>
      \<not> is_ok (snd (legacy_tick base rest c))" if "bo_trades c \<noteq> []" for c
    using that by (simp add: legacy_tick_def equity_of_def Let_def)
  have many: "bo_trades (((\<lambda>b. fst (legacy_tick base rest b)) ^^ n) b) = bo_trades b \<and>
      bo_balance (((\<lambda>b. fst (legacy_tick base rest b)) ^^ n) b) = bo_balance b"
    by (induction n) (use one assms in auto)
  have fail: "sell ow br hex symb qty price c = (c, None)" if "\<not> paper br" for qty and c
    using that by (cases c) (simp add: sell_def execute_sell_def paper_def live_market_order_fails)
  have attempts: "\<exists>w. sell_attempts m ow br hex symb qty price c = (c\<lparr>bo_world := w\<rparr>, None)" if "\<not> paper br" for m qty and c
  proof (induction m arbitrary: c)
    case 0
    show ?case by (intro exI [of _ "bo_world c"]) simp
  next
    case (Suc m)
    show ?case using Suc.IH [of "c\<lparr>bo_world := ow_sleep ow 2 (bo_world c)\<rparr>"] by (auto simp: fail [OF that])
  qed
  have "\<exists>w. close_trade ow br db hex symb reason price b = (b\<lparr>bo_world := w\<rparr>, Inr ())" if "\<not> paper br"
  proof (cases "map_of (bo_trades b) symb")
    case None
    then show ?thesis by (intro exI [of _ "bo_world b"]) (simp add: close_trade_def)
  next
    case (Some t)
    then show ?thesis using attempts [OF that, of 3 "lt_qty t" b] by (auto simp: close_trade_def)
  qed
  then show ?thesis using many one assms by auto
qed


section \<open>Witnesses\<close>

definition paper_rules :: bot_rules where
  "paper_rules = \<lparr>br_exec = live_rules\<lparr>ex_mode := ''PAPER''\<rparr>, br_risk = default_rules, br_tp1_frac = Fin (40/100),
     br_tp2_frac = Fin (40/100), br_early_trigger = Fin (1/2), br_cooldown = 300\<rparr>"

definition sample_trade :: legacy_trade where
  "sample_trade = \<lparr>lt_symbol = ''BTC/USDT'', lt_entry = Fin 100, lt_qty = Fin 2, lt_initial_qty = Fin 2, lt_stop = Fin 98,
     lt_tp1 = Fin 102, lt_tp2 = Fin 103, lt_atr_entry = Fin 1, lt_atr = Fin 1, lt_risk = Fin 4, lt_entry_fee = Fin (1/5), lt_signal = ''TREND'', lt_time = Fin 0,
     lt_bar = 0, lt_tp1_taken = False, lt_tp2_taken = False, lt_trail = False, lt_early_trail = False, lt_mode = ''PAPER''\<rparr>"

definition sample_bot :: "real bot" where
  "sample_bot = \<lparr>bo_balance = Fin 1000, bo_daily = Fin 0, bo_cooldowns = [], bo_trades = [(''BTC/USDT'', sample_trade)],
     bo_risk = new_risk_manager, bo_fusion = new_fusion, bo_world = 0\<rparr>"

theorem stops_only_rise_witness:
  "lt_stop sample_trade \<le> lt_stop (snd (trade_turns quick_exchange paper_rules (\<lambda>_. None) ''h'' ''BTC/USDT''
     [(102, None), (103, Some (Fin 2))] (sample_bot, sample_trade)))"
proof -
  obtain b1 t1 where run: "trade_turns quick_exchange paper_rules (\<lambda>_. None) ''h'' ''BTC/USDT''
     [(102, None), (103, Some (Fin 2))] (sample_bot, sample_trade) = (b1, t1)" by fastforce
  have "is_num (lt_stop sample_trade)" by (simp add: sample_trade_def)
  from stops_only_rise [OF this run] show ?thesis by (simp add: run)
qed

theorem open_trade_stops_program_witness:
  "bo_trades (((\<lambda>b. fst (legacy_tick (Fin 1000) (\<lambda>_ b. (b, Inr ())) b)) ^^ 3) sample_bot) = [(''BTC/USDT'', sample_trade)]"
proof -
  have "bo_trades sample_bot \<noteq> []" by (simp add: sample_bot_def)
  from open_trade_stops_program [OF this, where base = "Fin 1000" and rest = "\<lambda>_ b. (b, Inr ())" and n = 3]
  show ?thesis by (simp add: sample_bot_def)
qed

lemma sample_closed:
  assumes "paper br" "finite_bot br" "trade_ok k e ef q0 (b1, t1)" "is_fin ef"
  shows "\<exists>b2. close_trade ow br (\<lambda>_. None) hex symb reason (Fin p) (b1\<lparr>bo_trades := dict_set symb t1 (bo_trades b1)\<rparr>) = (b2, Inr ())"
proof -
  let ?b = "b1\<lparr>bo_trades := dict_set symb t1 (bo_trades b1)\<rparr>"
  obtain q where q: "lt_qty t1 = Fin q" using assms(3) by (auto simp: trade_ok_def)
  obtain b3 v f where s: "sell ow br hex symb (Fin q) (Fin p) ?b = (b3, Some v)" "result_average v (Fin p) = Inr (Fin f)"
      "result_fee v = Inr (Fin (f * q / 1000))"
    using paper_sell [OF assms(1), of "Fin p" "Fin q" ow hex symb ?b "Fin p"] assms(2) by (auto simp: finite_bot_def)
  have "sell_attempts 3 ow br hex symb (Fin q) (Fin p) ?b = (b3, Some v)" by (simp add: numeral_3_eq_3 s(1))
  then show ?thesis using s q by (simp add: close_trade_def Let_def dict_simps)
qed

theorem paper_trade_books_witness:
  "\<exists>b1 t1 b2 bal2 day2. trade_turns quick_exchange paper_rules (\<lambda>_. None) ''h'' ''BTC/USDT'' [(102, None), (103, Some (Fin 2))]
       (sample_bot, sample_trade) = (b1, t1) \<and>
     close_trade quick_exchange paper_rules (\<lambda>_. None) ''h'' ''BTC/USDT'' ''EXIT'' (Fin 105)
       (b1\<lparr>bo_trades := dict_set ''BTC/USDT'' t1 (bo_trades b1)\<rparr>) = (b2, Inr ()) \<and>
     bo_balance b2 = Fin bal2 \<and> bo_daily b2 = Fin day2 \<and> day2 = (bal2 - 1000) * (999/1000) - 200 - 1/5"
proof -
  have rules: "paper paper_rules" "finite_bot paper_rules"
    by (simp_all add: paper_def paper_rules_def live_rules_def finite_bot_def)
  let ?turns = "[(102 :: real, None), (103, Some (Fin 2))]"
  obtain b1 t1 where run: "trade_turns quick_exchange paper_rules (\<lambda>_. None) ''h'' ''BTC/USDT'' ?turns (sample_bot, sample_trade) = (b1, t1)"
    by fastforce
  have start: "trade_ok (0 - 1000 * (999/1000) - 100 * 2) 100 (Fin (1/5)) 2 (sample_bot, sample_trade)"
    by (simp add: trade_ok_def sample_bot_def sample_trade_def)
  have ok: "trade_ok (0 - 1000 * (999/1000) - 100 * 2) 100 (Fin (1/5)) 2 (b1, t1)"
    unfolding run [symmetric]
    by (rule trade_turns_keep [of "trade_ok (0 - 1000 * (999/1000) - 100 * 2) 100 (Fin (1/5)) 2", OF check_exits_ok [OF rules] _ start])
      (simp_all add: trade_ok_def)
  have "is_fin (Fin (1/5))" by simp
  from sample_closed [OF rules ok this, of quick_exchange "''h''" "''BTC/USDT''" "''EXIT''" 105] obtain b2 where closed:
    "close_trade quick_exchange paper_rules (\<lambda>_. None) ''h'' ''BTC/USDT'' ''EXIT'' (Fin 105)
       (b1\<lparr>bo_trades := dict_set ''BTC/USDT'' t1 (bo_trades b1)\<rparr>) = (b2, Inr ())" by blast
  show ?thesis
    using paper_trade_books [OF rules run _ _ _ _ _ _ closed, of 1000 0 2 100 "1/5"] run closed
    by (auto simp: sample_bot_def sample_trade_def)
qed

end
