(* ===== verification/Market_Maker.thy ===== *)
theory Market_Maker
  imports Legacy_Execution Py_Statistics
begin

text \<open>
  The market maker (\<open>market_maker.py\<close>): the quotes of the Avellaneda-Stoikov model, the cycle that
  cancels, computes and places them, the tracking of fills. The exchange and the clock are the functions on
  an outside world of \<open>Legacy_Execution\<close>; the random part of an order's identifier is an argument. The
  logarithm and the square root are the real ones.
\<close>

section \<open>The quotes\<close>

definition min_viable_spread :: pyfloat where "min_viable_spread = Fin (3/1000)"
definition max_inventory_usd :: pyfloat where "max_inventory_usd = Fin 500"
definition quote_lifetime :: real where "quote_lifetime = 8"

record mm_quote =
  mq_symbol :: string
  mq_bid :: pyfloat
  mq_ask :: pyfloat
  mq_bid_qty :: pyfloat
  mq_ask_qty :: pyfloat
  mq_bid_id :: pyval
  mq_ask_id :: pyval
  mq_placed :: real
  mq_inventory :: pyfloat

definition as_gamma :: real where "as_gamma = 1/10"
definition as_k :: real where "as_k = 3/2"

definition compute_quotes :: "pyfloat \<Rightarrow> pyfloat \<Rightarrow> pyfloat \<Rightarrow> pyfloat \<Rightarrow> pyfloat \<times> pyfloat" where
  "compute_quotes mid vol inventory time_left =
     (if mid \<le> Fin 0 \<or> vol \<le> Fin 0 then
        (let half = mid * Fin (1/1000) in (mid - half, mid + half))
      else
        (let sigma2 = vol * vol;
             dt = py_max time_left (Fin (1/100));
             reservation = mid - inventory * Fin as_gamma * sigma2 * dt;
             spread0 = Fin as_gamma * sigma2 * dt + Fin (2 / as_gamma) * Fin (ln (1 + as_gamma / as_k));
             spread = py_max spread0 (mid * min_viable_spread);
             bid0 = reservation - spread / Fin 2;
             ask0 = reservation + spread / Fin 2;
             (bid, ask) =
               (if ask0 \<le> bid0 then (mid * (Fin 1 - min_viable_spread / Fin 2), mid * (Fin 1 + min_viable_spread / Fin 2))
                else (bid0, ask0))
         in (py_round bid 8, py_round ask 8)))"

section \<open>The market maker\<close>

record market_maker =
  mm_mode :: string
  mm_quotes :: "(string, mm_quote) pydict"
  mm_start :: real
  mm_enabled :: bool

definition new_market_maker :: "string \<Rightarrow> real \<Rightarrow> market_maker" where
  "new_market_maker mode now = \<lparr>mm_mode = mode, mm_quotes = [], mm_start = now, mm_enabled = False\<rparr>"

definition mm_viable :: "pyfloat \<Rightarrow> pyfloat \<Rightarrow> bool \<Rightarrow> bool" where
  "mm_viable spread_pct atr_rel in_directional =
     (if in_directional then False
      else if spread_pct < min_viable_spread then False
      else if Fin 2 < atr_rel then False
      else True)"

text \<open>A limit order: its identifier, or nothing.\<close>

definition mm_place :: "'w outside \<Rightarrow> string \<Rightarrow> string \<Rightarrow> string \<Rightarrow> pyfloat \<Rightarrow> pyfloat \<Rightarrow> market_maker \<Rightarrow> 'w \<Rightarrow> 'w \<times> pyval" where
  "mm_place ow hex symb side qty price m w =
     (if mm_mode m = ''PAPER'' then (w, VStr (''PAPER-MM-'' @ take 8 hex))
      else (case ow_call ow (if side = ''buy'' then ''create_limit_buy_order'' else ''create_limit_sell_order'')
                   [VStr symb, VFloat qty, VFloat price,
                    VDict [(''clientOrderId'', VStr (''AEGIS-MM-'' @ take 10 hex))]] w of
              (w1, r) \<Rightarrow> (w1, case rbind r (\<lambda>order. method_get order ''id'') of Inl _ \<Rightarrow> VNone | Inr v \<Rightarrow> v)))"

text \<open>
  The orders of a stale quote are cancelled, except for those of paper trading; an identifier that is not
  a text has no \<open>startswith\<close>.
\<close>

fun cancel_ids :: "'w outside \<Rightarrow> string \<Rightarrow> pyval list \<Rightarrow> 'w \<Rightarrow> 'w \<times> unit res" where
  "cancel_ids ow symb [] w = (w, Inr ())"
| "cancel_ids ow symb (i # ids) w =
     (if \<not> truthy i then cancel_ids ow symb ids w
      else (case i of
              VStr s \<Rightarrow>
                cancel_ids ow symb ids
                  (if take 5 s = ''PAPER'' then w else fst (ow_call ow ''cancel_order'' [i, VStr symb] w))
            | _ \<Rightarrow> (w, Inl (AttributeError (text_msg ''object has no attribute startswith'')))))"

definition cancel_stale :: "'w outside \<Rightarrow> string \<Rightarrow> market_maker \<Rightarrow> 'w \<Rightarrow> 'w \<times> market_maker \<times> unit res" where
  "cancel_stale ow symb m w =
     (case map_of (mm_quotes m) symb of
        None \<Rightarrow> (w, m, Inr ())
      | Some q \<Rightarrow>
          (if ow_now ow w - mq_placed q < quote_lifetime then (w, m, Inr ())
           else (case cancel_ids ow symb [mq_bid_id q, mq_ask_id q] w of
                   (w1, Inl e) \<Rightarrow> (w1, m, Inl e)
                 | (w1, Inr _) \<Rightarrow> (w1, m\<lparr>mm_quotes := dict_pop symb (mm_quotes m)\<rparr>, Inr ()))))"

text \<open>The best prices of a book; an exception here leaves the cycle.\<close>

definition top_price :: "pyval \<Rightarrow> pyfloat res" where
  "top_price levels = rbind (item0 levels) (\<lambda>l. rbind (item0 l) py_float)"

definition book_top :: "pyval \<Rightarrow> (pyfloat \<times> pyfloat) option res" where
  "book_top ob =
     rbind (method_get ob ''bids'') (\<lambda>bids.
     if \<not> truthy bids then Inr None
     else rbind (method_get ob ''asks'') (\<lambda>asks.
     if \<not> truthy asks then Inr None
     else rbind (top_price bids) (\<lambda>b. rbind (top_price asks) (\<lambda>a. Inr (Some (b, a))))))"

text \<open>
  From the prices to the orders: the viability gate, the cap of the inventory, the quotes and the
  quantities. \<open>elapsed % 3600\<close> of floats is the remainder below the divisor.
\<close>

definition time_left_at :: "real \<Rightarrow> real \<Rightarrow> pyfloat" where
  "time_left_at start now =
     (let e = now - start; elapsed = e - 3600 * of_int \<lfloor>e / 3600\<rfloor>
      in py_max (Fin (1/100)) (Fin 1 - Fin elapsed / Fin 3600))"

definition quote_sizes :: "pyfloat \<Rightarrow> pyfloat \<Rightarrow> pyfloat \<Rightarrow> (pyfloat \<times> pyfloat) option res" where
  "quote_sizes equity bid ask =
     (let usd = equity * Fin (1/100) in
      rbind (py_div usd bid) (\<lambda>bq. rbind (py_div usd ask) (\<lambda>aq.
        let bid_qty = py_round bq 6; ask_qty = py_round aq 6
        in if bid_qty * bid < Fin 10 \<or> ask_qty * ask < Fin 10 then Inr None
           else Inr (Some (bid_qty, ask_qty)))))"

definition plan_quotes ::
  "pyfloat \<Rightarrow> pyfloat \<Rightarrow> pyfloat \<Rightarrow> pyfloat \<Rightarrow> bool \<Rightarrow> pyfloat \<Rightarrow> pyfloat \<Rightarrow> (pyfloat \<times> pyfloat \<times> pyfloat \<times> pyfloat) option res" where
  "plan_quotes b a equity atr in_directional inventory time_left =
     (let mid = (b + a) / Fin 2 in
      rbind (py_div (a - b) mid) (\<lambda>spread_pct.
      rbind (py_div atr mid) (\<lambda>rel.
        let sigma = rel * py_sqrt (Fin (365 * 96)); atr_rel = rel * Fin 100 in
        if \<not> mm_viable spread_pct atr_rel in_directional then Inr None
        else if max_inventory_usd < \<bar>inventory * mid\<bar> then Inr None
        else
          (let (bid, ask) = compute_quotes mid sigma inventory time_left in
           rbind (quote_sizes equity bid ask) (\<lambda>sizes.
             case sizes of None \<Rightarrow> Inr None | Some (bq, aq) \<Rightarrow> Inr (Some (bid, ask, bq, aq)))))))"

definition inventory_of :: "string \<Rightarrow> market_maker \<Rightarrow> pyfloat" where
  "inventory_of symb m = (case map_of (mm_quotes m) symb of None \<Rightarrow> Fin 0 | Some q \<Rightarrow> mq_inventory q)"

text \<open>The last part of a cycle: the two orders and the quote that remembers them.\<close>

definition place_quotes ::
  "'w outside \<Rightarrow> string \<Rightarrow> string \<Rightarrow> string \<Rightarrow> pyfloat \<times> pyfloat \<times> pyfloat \<times> pyfloat \<Rightarrow> market_maker \<Rightarrow> 'w \<Rightarrow>
   'w \<times> market_maker \<times> mm_quote option" where
  "place_quotes ow hex1 hex2 symb plan m w =
     (case plan of (bid, ask, bq, aq) \<Rightarrow>
      (let (w1, bo) = mm_place ow hex1 symb ''buy'' bq bid m w;
           (w2, ao) = mm_place ow hex2 symb ''sell'' aq ask m w1
       in if \<not> truthy bo \<and> \<not> truthy ao then (w2, m, None)
          else
            (let q = \<lparr>mq_symbol = symb, mq_bid = bid, mq_ask = ask, mq_bid_qty = bq, mq_ask_qty = aq,
                       mq_bid_id = bo, mq_ask_id = ao, mq_placed = ow_now ow w2, mq_inventory = inventory_of symb m\<rparr>
             in (w2, m\<lparr>mm_quotes := dict_set symb q (mm_quotes m)\<rparr>, Some q))))"

definition mm_cycle ::
  "'w outside \<Rightarrow> string \<Rightarrow> string \<Rightarrow> string \<Rightarrow> pyfloat \<Rightarrow> pyfloat \<Rightarrow> bool \<Rightarrow> market_maker \<Rightarrow> 'w \<Rightarrow>
   'w \<times> market_maker \<times> mm_quote option res" where
  "mm_cycle ow hex1 hex2 symb equity atr in_directional m w =
     (case cancel_stale ow symb m w of
        (w1, m1, Inl e) \<Rightarrow> (w1, m1, Inl e)
      | (w1, m1, Inr _) \<Rightarrow>
          (case ow_call ow ''fetch_order_book'' [VStr symb, VInt 5] w1 of
             (w2, Inl _) \<Rightarrow> (w2, m1, Inr None)
           | (w2, Inr ob) \<Rightarrow>
               (case book_top ob of
                  Inl e \<Rightarrow> (w2, m1, Inl e)
                | Inr None \<Rightarrow> (w2, m1, Inr None)
                | Inr (Some (b, a)) \<Rightarrow>
                    (case plan_quotes b a equity atr in_directional (inventory_of symb m1)
                            (time_left_at (mm_start m1) (ow_now ow w2)) of
                       Inl e \<Rightarrow> (w2, m1, Inl e)
                     | Inr None \<Rightarrow> (w2, m1, Inr None)
                     | Inr (Some plan) \<Rightarrow>
                         (case place_quotes ow hex1 hex2 symb plan m1 w2 of (w3, m3, r) \<Rightarrow> (w3, m3, Inr r))))))"

section \<open>Fills, shutdown, inventory\<close>

text \<open>What the order of one side adds to the profit and the inventory; every exception adds nothing.\<close>

definition side_fill :: "string \<Rightarrow> pyfloat \<Rightarrow> pyval res \<Rightarrow> pyfloat \<times> pyfloat" where
  "side_fill side price r =
     (case rbind r (\<lambda>order. case order of
              VDict d \<Rightarrow> py_float (dict_get d ''filled'' (VInt 0))
            | _ \<Rightarrow> Inl (AttributeError (text_msg ''object has no attribute get''))) of
        Inl _ \<Rightarrow> (Fin 0, Fin 0)
      | Inr filled \<Rightarrow>
          (if filled \<le> Fin 0 then (Fin 0, Fin 0)
           else (let fee = filled * price * Fin (1/1000) in
                 if side = ''buy'' then (- fee, filled) else (filled * price - fee, - filled))))"

fun sum_fills :: "'w outside \<Rightarrow> string \<Rightarrow> (string \<times> pyval \<times> pyfloat) list \<Rightarrow> pyfloat \<Rightarrow> pyfloat \<Rightarrow> 'w \<Rightarrow> 'w \<times> pyfloat \<times> pyfloat" where
  "sum_fills ow symb [] pnl delta w = (w, pnl, delta)"
| "sum_fills ow symb ((side, i, price) # rest) pnl delta w =
     (if \<not> truthy i then sum_fills ow symb rest pnl delta w
      else (case ow_call ow ''fetch_order'' [i, VStr symb] w of
              (w1, r) \<Rightarrow> (case side_fill side price r of
                 (dp, di) \<Rightarrow> sum_fills ow symb rest (pnl + dp) (delta + di) w1)))"

definition quote_orders :: "mm_quote \<Rightarrow> (string \<times> pyval \<times> pyfloat) list" where
  "quote_orders q = [(''buy'', mq_bid_id q, mq_bid q), (''sell'', mq_ask_id q, mq_ask q)]"

definition check_fills :: "'w outside \<Rightarrow> string \<Rightarrow> market_maker \<Rightarrow> 'w \<Rightarrow> 'w \<times> market_maker \<times> (pyfloat \<times> pyfloat)" where
  "check_fills ow symb m w =
     (case map_of (mm_quotes m) symb of
        None \<Rightarrow> (w, m, (Fin 0, Fin 0))
      | Some q \<Rightarrow>
          (case sum_fills ow symb (quote_orders q) (Fin 0) (Fin 0) w of
             (w1, pnl, delta) \<Rightarrow>
               (w1,
                if delta \<noteq> Fin 0
                then m\<lparr>mm_quotes := dict_set symb (q\<lparr>mq_inventory := mq_inventory q + delta\<rparr>) (mm_quotes m)\<rparr>
                else m,
                (pnl, delta))))"

text \<open>
  \<open>cancel_all\<close>. A bound method takes no attributes, so that the assignment of the first turn raises.
\<close>

definition force_expire :: "unit res" where
  "force_expire = Inl (AttributeError (text_msg ''method object has no attribute __wrapped__''))"

fun cancel_each :: "'w outside \<Rightarrow> string list \<Rightarrow> market_maker \<Rightarrow> 'w \<Rightarrow> 'w \<times> market_maker \<times> unit res" where
  "cancel_each ow [] m w = (w, m, Inr ())"
| "cancel_each ow (s # ss) m w =
     (case force_expire of
        Inl e \<Rightarrow> (w, m, Inl e)
      | Inr _ \<Rightarrow>
          (case cancel_stale ow s m w of
             (w1, m1, Inl e) \<Rightarrow> (w1, m1, Inl e)
           | (w1, m1, Inr _) \<Rightarrow> cancel_each ow ss m1 w1))"

definition mm_cancel_all :: "'w outside \<Rightarrow> market_maker \<Rightarrow> 'w \<Rightarrow> 'w \<times> market_maker \<times> unit res" where
  "mm_cancel_all ow m w = cancel_each ow (map fst (mm_quotes m)) m w"

definition active_symbols :: "market_maker \<Rightarrow> string list" where
  "active_symbols m = map fst (mm_quotes m)"

definition total_inventory_usd :: "(string, pyfloat) pydict \<Rightarrow> market_maker \<Rightarrow> pyfloat" where
  "total_inventory_usd prices m =
     foldl (\<lambda>acc (s, q). acc + \<bar>mq_inventory q\<bar> * dict_get prices s (Fin 0)) (Fin 0) (mm_quotes m)"

section \<open>The quotes: centre and width\<close>

definition as_reservation :: "real \<Rightarrow> real \<Rightarrow> real \<Rightarrow> real \<Rightarrow> real" where
  "as_reservation m v i t = m - i * as_gamma * (v * v) * max t (1/100)"

definition as_spread :: "real \<Rightarrow> real \<Rightarrow> real \<Rightarrow> real" where
  "as_spread m v t = max (as_gamma * (v * v) * max t (1/100) + 2 / as_gamma * ln (1 + as_gamma / as_k)) (m * (3/1000))"

lemma compute_quotes_Fin:
  assumes "0 < m" "0 < v"
  shows "compute_quotes (Fin m) (Fin v) (Fin i) (Fin t) =
    (py_round (Fin (as_reservation m v i t - as_spread m v t / 2)) 8,
     py_round (Fin (as_reservation m v i t + as_spread m v t / 2)) 8)"
proof -
  have "0 < as_spread m v t" using assms by (simp add: as_spread_def less_max_iff_disj)
  with assms show ?thesis
    by (simp add: compute_quotes_def Let_def as_reservation_def as_spread_def min_viable_spread_def py_max_Fin
        algebra_simps)
qed

lemma centre_and_width:
  fixes b a r s e :: real
  assumes "\<bar>b - (r - s / 2)\<bar> \<le> e / 2" "\<bar>a - (r + s / 2)\<bar> \<le> e / 2"
  shows "\<bar>(b + a) / 2 - r\<bar> \<le> e \<and> \<bar>(a - b) - s\<bar> \<le> e"
  using assms by (auto simp: abs_le_iff field_simps)

lemma quotes_straddle_reservation:
  assumes pos: "0 < m" "0 < v"
    and quotes: "compute_quotes (Fin m) (Fin v) (Fin i) (Fin t) = (Fin b, Fin a)"
  shows "\<bar>(b + a) / 2 - as_reservation m v i t\<bar> \<le> 1 / 10 ^ 8"
    "\<bar>(a - b) - as_spread m v t\<bar> \<le> 1 / 10 ^ 8"
proof -
  let ?r = "as_reservation m v i t" and ?s = "as_spread m v t"
  have eq: "Fin b = py_round (Fin (?r - ?s / 2)) 8" "Fin a = py_round (Fin (?r + ?s / 2)) 8"
    using quotes compute_quotes_Fin [OF pos, of i t] by simp_all
  have "\<bar>b - (?r - ?s / 2)\<bar> \<le> 1 / (2 * 10 ^ 8)" "\<bar>a - (?r + ?s / 2)\<bar> \<le> 1 / (2 * 10 ^ 8)"
    using py_round_close [of "?r - ?s / 2" 8] py_round_close [of "?r + ?s / 2" 8] unfolding eq [symmetric] by simp_all
  then have "\<bar>b - (?r - ?s / 2)\<bar> \<le> 1 / 10 ^ 8 / 2" "\<bar>a - (?r + ?s / 2)\<bar> \<le> 1 / 10 ^ 8 / 2" by simp_all
  then show "\<bar>(b + a) / 2 - ?r\<bar> \<le> 1 / 10 ^ 8" "\<bar>(a - b) - ?s\<bar> \<le> 1 / 10 ^ 8"
    using centre_and_width [of b ?r ?s "1 / 10 ^ 8" a] by blast+
qed

text \<open>The logarithmic part of the width does not scale with the price: it is over 1.2 units of it.\<close>

lemma as_log_bounds: "61/50 \<le> 2 / as_gamma * ln (1 + as_gamma / as_k)" "2 / as_gamma * ln (1 + as_gamma / as_k) \<le> 4/3"
proof -
  have "(1/15::real) - (1/15)\<^sup>2 \<le> ln (1 + 1/15)" by (rule ln_one_plus_pos_lower_bound) simp_all
  moreover have "ln (1 + 1/15) \<le> (1/15::real)" by (rule ln_add_one_self_le_self) simp
  ultimately show "61/50 \<le> 2 / as_gamma * ln (1 + as_gamma / as_k)" "2 / as_gamma * ln (1 + as_gamma / as_k) \<le> 4/3"
    by (simp_all add: as_gamma_def as_k_def power2_eq_square)
qed

lemma quotes_are_ordered:
  assumes "0 < m" "0 < v" "compute_quotes (Fin m) (Fin v) (Fin i) (Fin t) = (Fin b, Fin a)"
  shows "1 < a - b"
proof -
  have "61/50 \<le> as_spread m v t"
    using as_log_bounds(1) assms(1,2)
    by (simp add: as_spread_def le_max_iff_disj as_gamma_def add_increasing)
  then show ?thesis using quotes_straddle_reservation(2) [OF assms] by (auto simp: abs_if split: if_splits)
qed

section \<open>What a placed quote has passed\<close>

lemma plan_quotes_guarded:
  assumes "plan_quotes b a equity atr dir inventory tleft = Inr (Some (bid, ask, bq, aq))"
  shows "\<not> dir" "\<not> (a - b) / ((b + a) / Fin 2) < min_viable_spread"
    "\<not> max_inventory_usd < \<bar>inventory * ((b + a) / Fin 2)\<bar>"
    "\<not> bq * bid < Fin 10" "\<not> aq * ask < Fin 10"
  using assms
  by (auto simp: plan_quotes_def quote_sizes_def mm_viable_def Let_def rbind_Inr_iff py_div_def
      split: if_splits option.splits prod.splits)

lemma place_quotes_Some:
  assumes "place_quotes ow h1 h2 symb (bid, ask, bq, aq) m w = (w', m', Some q)"
  shows "mq_inventory q = inventory_of symb m" "map_of (mm_quotes m') symb = Some q"
    "mq_bid q = bid" "mq_ask q = ask" "mq_bid_qty q = bq" "mq_ask_qty q = aq"
  using assms by (auto simp: place_quotes_def Let_def dict_simps split: prod.splits if_splits)

lemma mm_cycle_Some:
  assumes "mm_cycle ow h1 h2 symb equity atr dir m w = (w', m', Inr (Some q))"
  obtains w1 m1 w2 ob b a bid ask bq aq where
    "cancel_stale ow symb m w = (w1, m1, Inr ())"
    "ow_call ow ''fetch_order_book'' [VStr symb, VInt 5] w1 = (w2, Inr ob)" "book_top ob = Inr (Some (b, a))"
    "plan_quotes b a equity atr dir (inventory_of symb m1) (time_left_at (mm_start m1) (ow_now ow w2))
       = Inr (Some (bid, ask, bq, aq))"
    "place_quotes ow h1 h2 symb (bid, ask, bq, aq) m1 w2 = (w', m', Some q)"
  using assms by (auto simp: mm_cycle_def split: prod.splits sum.splits option.splits)

lemma placed_quote_is_guarded:
  assumes "mm_cycle ow h1 h2 symb equity atr dir m w = (w', m', Inr (Some q))"
  shows "\<not> dir" "\<not> mq_bid_qty q * mq_bid q < Fin 10" "\<not> mq_ask_qty q * mq_ask q < Fin 10"
    "map_of (mm_quotes m') symb = Some q"
  using assms
  by (auto elim!: mm_cycle_Some dest: plan_quotes_guarded place_quotes_Some)

section \<open>What a cycle loses\<close>

lemma cancel_stale_fresh:
  "map_of (mm_quotes m) symb = Some q \<Longrightarrow> ow_now ow w - mq_placed q < quote_lifetime \<Longrightarrow>
   cancel_stale ow symb m w = (w, m, Inr ())"
  by (simp add: cancel_stale_def)

lemma cancel_stale_old:
  "map_of (mm_quotes m) symb = Some q \<Longrightarrow> \<not> ow_now ow w - mq_placed q < quote_lifetime \<Longrightarrow>
   cancel_stale ow symb m w = (w1, m1, Inr ()) \<Longrightarrow> inventory_of symb m1 = Fin 0"
  by (auto simp: cancel_stale_def inventory_of_def dict_simps split: prod.splits sum.splits)

text \<open>Two exchanges that differ in nothing but what a cancellation does.\<close>

definition differ_in_cancel :: "'w outside \<Rightarrow> 'w outside \<Rightarrow> bool" where
  "differ_in_cancel ow ow' \<longleftrightarrow>
     ow_now ow = ow_now ow' \<and> (\<forall>meth. meth \<noteq> ''cancel_order'' \<longrightarrow> ow_call ow meth = ow_call ow' meth)"

lemma mm_place_cong: "differ_in_cancel ow ow' \<Longrightarrow> mm_place ow = mm_place ow'"
  by (intro ext) (simp add: mm_place_def differ_in_cancel_def)

lemma place_quotes_cong:
  assumes "differ_in_cancel ow ow'" shows "place_quotes ow = place_quotes ow'"
proof -
  have now: "ow_now ow = ow_now ow'" using assms by (simp add: differ_in_cancel_def)
  show ?thesis by (intro ext) (unfold place_quotes_def now mm_place_cong [OF assms], rule refl)
qed

lemma fresh_cycle_never_cancels:
  assumes "differ_in_cancel ow ow'" "map_of (mm_quotes m) symb = Some q" "ow_now ow w - mq_placed q < quote_lifetime"
  shows "mm_cycle ow h1 h2 symb equity atr dir m w = mm_cycle ow' h1 h2 symb equity atr dir m w"
proof -
  have now: "ow_now ow = ow_now ow'" and book: "ow_call ow ''fetch_order_book'' = ow_call ow' ''fetch_order_book''"
    using assms(1) by (simp_all add: differ_in_cancel_def)
  have "cancel_stale ow symb m w = cancel_stale ow' symb m w"
    using assms(2,3) cancel_stale_fresh [OF assms(2), of ow w] cancel_stale_fresh [OF assms(2), of ow' w]
    by (simp add: now)
  then show ?thesis
    unfolding mm_cycle_def now book place_quotes_cong [OF assms(1)] by (rule arg_cong)
qed

text \<open>
  A new quote for a symbol that has one forgets the old one: either the old one was stale and its
  inventory counts as nothing, or its orders are still at the exchange and were not cancelled.
\<close>

theorem requote_loses_inventory_or_orders:
  assumes "map_of (mm_quotes m) symb = Some q"
    and "mm_cycle ow h1 h2 symb equity atr dir m w = (w', m', Inr (Some q'))"
  shows "map_of (mm_quotes m') symb = Some q' \<and>
    (mq_inventory q' = Fin 0 \<or>
     (mq_inventory q' = mq_inventory q \<and>
      (\<forall>ow'. differ_in_cancel ow ow' \<longrightarrow> mm_cycle ow' h1 h2 symb equity atr dir m w = (w', m', Inr (Some q')))))"
proof -
  obtain w1 m1 w2 bid ask bq aq where st: "cancel_stale ow symb m w = (w1, m1, Inr ())"
    and pl: "place_quotes ow h1 h2 symb (bid, ask, bq, aq) m1 w2 = (w', m', Some q')"
    by (rule mm_cycle_Some [OF assms(2)]) blast
  have q': "mq_inventory q' = inventory_of symb m1" "map_of (mm_quotes m') symb = Some q'"
    using place_quotes_Some [OF pl] by blast+
  show ?thesis
  proof (cases "ow_now ow w - mq_placed q < quote_lifetime")
    case True
    then have "m1 = m" using cancel_stale_fresh [OF assms(1) True] st by simp
    then have "mq_inventory q' = mq_inventory q" using q' assms(1) by (simp add: inventory_of_def)
    then show ?thesis using q' fresh_cycle_never_cancels [OF _ assms(1) True] assms(2) by metis
  qed (use cancel_stale_old [OF assms(1) _ st] q' in auto)
qed

section \<open>Fills and shutdown\<close>

definition answers_same :: "'w outside \<Rightarrow> bool" where
  "answers_same ow \<longleftrightarrow> (\<forall>args w w'. snd (ow_call ow ''fetch_order'' args w) = snd (ow_call ow ''fetch_order'' args w'))"

lemma sum_fills_same:
  "answers_same ow \<Longrightarrow> snd (sum_fills ow symb os pnl delta w) = snd (sum_fills ow symb os pnl delta w')"
proof (induction os arbitrary: pnl delta w w')
  case (Cons p os)
  obtain side i price where o: "p = (side, i, price)" by (cases p)
  have "snd (ow_call ow ''fetch_order'' [i, VStr symb] w) = snd (ow_call ow ''fetch_order'' [i, VStr symb] w')"
    using Cons.prems unfolding answers_same_def by blast
  with Cons.IH [OF Cons.prems] show ?case by (auto simp: o split: prod.splits)
qed simp

text \<open>
  The fills of an order are not remembered: as long as the exchange answers the same, each look adds them
  again to the inventory.
\<close>

theorem fills_are_counted_again:
  assumes "answers_same ow" "map_of (mm_quotes m) symb = Some q"
    and "check_fills ow symb m w = (w1, m1, (pnl, delta))"
  shows "\<exists>w2 m2. check_fills ow symb m1 w1 = (w2, m2, (pnl, delta)) \<and>
    (delta \<noteq> Fin 0 \<longrightarrow> inventory_of symb m2 = mq_inventory q + delta + delta)"
proof -
  obtain w2 where first: "sum_fills ow symb (quote_orders q) (Fin 0) (Fin 0) w = (w1, pnl, delta)"
    and m1: "m1 = (if delta \<noteq> Fin 0
       then m\<lparr>mm_quotes := dict_set symb (q\<lparr>mq_inventory := mq_inventory q + delta\<rparr>) (mm_quotes m)\<rparr> else m)"
    using assms(2,3) by (auto simp: check_fills_def split: prod.splits)
  obtain w2 where again: "sum_fills ow symb (quote_orders q) (Fin 0) (Fin 0) w1 = (w2, pnl, delta)"
    using sum_fills_same [OF assms(1), of symb "quote_orders q" "Fin 0" "Fin 0" w1 w] first by (metis prod.collapse snd_conv)
  have orders: "quote_orders (q\<lparr>mq_inventory := x\<rparr>) = quote_orders q" for x by (simp add: quote_orders_def)
  show ?thesis
    using again orders assms(2) by (auto simp: check_fills_def m1 dict_simps inventory_of_def)
qed

text \<open>The shutdown of a market maker with quotes raises before anything is cancelled.\<close>

theorem shutdown_cancels_no_quote:
  "mm_quotes m \<noteq> [] \<Longrightarrow>
   mm_cancel_all ow m w = (w, m, Inl (AttributeError (text_msg ''method object has no attribute __wrapped__'')))"
  by (cases "mm_quotes m") (auto simp: mm_cancel_all_def force_expire_def)

section \<open>Cheap symbols\<close>

text \<open>
  Under a price of 0.6 the width alone puts the bid below zero: the quantity of the purchase is negative
  as well, and their product passes the check of the minimal notional.
\<close>

lemma cheap_spread:
  fixes m v t :: real
  assumes "0 < m" "m \<le> 3/5" "v * v \<le> 15" "t \<le> 1"
  shows "61/50 \<le> as_spread m v t" "as_spread m v t \<le> 3"
proof -
  let ?x = "as_gamma * (v * v) * max t (1/100)"
  have "0 \<le> ?x" by (simp add: as_gamma_def)
  moreover have "v * v * max t (1/100) \<le> 15 * 1" using assms(3,4) by (intro mult_mono) auto
  then have "?x \<le> 3/2" by (simp add: as_gamma_def)
  ultimately show "61/50 \<le> as_spread m v t" "as_spread m v t \<le> 3"
    using as_log_bounds assms(1,2) unfolding as_spread_def by linarith+
qed

lemma cheap_quotes:
  assumes "0 < m" "m \<le> 3/5" "0 < v" "v * v \<le> 15" "t \<le> 1"
  obtains b a where "compute_quotes (Fin m) (Fin v) (Fin 0) (Fin t) = (Fin b, Fin a)"
    "-2 \<le> b" "b < -1/1000" "1/2 \<le> a" "a \<le> 3"
proof -
  obtain b a where q: "compute_quotes (Fin m) (Fin v) (Fin 0) (Fin t) = (Fin b, Fin a)"
    unfolding compute_quotes_Fin [OF assms(1,3)] py_round.simps by blast
  have r: "as_reservation m v 0 t = m" by (simp add: as_reservation_def)
  have e: "1 / 10 ^ 8 \<le> (1/10000 :: real)" by simp
  note c = quotes_straddle_reservation [OF assms(1,3) q, unfolded r]
  have "(b + a) / 2 - m \<le> 1/10000" "m - (b + a) / 2 \<le> 1/10000"
    "(a - b) - as_spread m v t \<le> 1/10000" "as_spread m v t - (a - b) \<le> 1/10000"
    using order_trans [OF c(1) e] order_trans [OF c(2) e] unfolding abs_le_iff by simp_all
  then have "-2 \<le> b" "b < -1/1000" "1/2 \<le> a" "a \<le> 3"
    using cheap_spread [OF assms(1,2,4,5)] assms(1,2) by (simp_all add: field_simps)
  with q that show thesis by blast
qed

text \<open>A quantity is rounded to six digits; at a price of at most three its value stays at the amount to quote.\<close>

lemma rounded_value:
  fixes usd p :: real
  assumes "p \<noteq> 0" "\<bar>p\<bar> \<le> 3"
  shows "\<bar>val_of (py_round (Fin (usd / p)) 6) * p - usd\<bar> \<le> 1/100000"
proof -
  let ?q = "val_of (py_round (Fin (usd / p)) 6)"
  have "?q * p - usd = (?q - usd / p) * p" using assms(1) by (simp add: left_diff_distrib)
  then have "\<bar>?q * p - usd\<bar> = \<bar>?q - usd / p\<bar> * \<bar>p\<bar>" by (simp add: abs_mult)
  also have "\<dots> \<le> 1 / (2 * 10 ^ 6) * 3"
    using py_round_close [of "usd / p" 6] assms(2) by (intro mult_mono) auto
  finally show ?thesis by simp
qed

lemma cheap_sizes:
  assumes "-2 \<le> b" "b < -1/1000" "1/2 \<le> a" "a \<le> 3" "1001 \<le> equity"
  obtains bq aq where "quote_sizes (Fin equity) (Fin b) (Fin a) = Inr (Some (Fin bq, Fin aq))" "bq < 0" "0 < aq"
proof -
  let ?usd = "equity / 100"
  define bq aq where "bq = val_of (py_round (Fin (?usd / b)) 6)" and "aq = val_of (py_round (Fin (?usd / a)) 6)"
  have bv: "\<bar>bq * b - ?usd\<bar> \<le> 1/100000" and av: "\<bar>aq * a - ?usd\<bar> \<le> 1/100000"
    unfolding bq_def aq_def using assms by (intro rounded_value; auto)+
  then have "10 \<le> bq * b" "10 \<le> aq * a" using assms(5) by linarith+
  moreover from this have "0 < bq * b" "0 < aq * a" by linarith+
  then have "bq < 0" "0 < aq" using assms by (auto simp: zero_less_mult_iff)
  moreover have "py_round (Fin (?usd / b)) 6 = Fin bq" "py_round (Fin (?usd / a)) 6 = Fin aq"
    by (simp_all add: bq_def aq_def)
  ultimately show thesis
    using that [of bq aq] assms by (auto simp: quote_sizes_def py_div_def Let_def not_less)
qed

theorem cheap_symbol_is_bid_below_zero:
  assumes prices: "0 < b" "b < a" "(b + a) / 2 \<le> 3/5" "3/1000 * ((b + a) / 2) \<le> a - b"
    and atr: "0 < atr" "atr \<le> (b + a) / 2 / 50" and equity: "1001 \<le> equity" and time: "t \<le> 1"
  shows "\<exists>bid ask bq aq.
    plan_quotes (Fin b) (Fin a) (Fin equity) (Fin atr) False (Fin 0) (Fin t) = Inr (Some (Fin bid, Fin ask, Fin bq, Fin aq)) \<and>
    bid < 0 \<and> bq < 0 \<and> 0 < ask \<and> 0 < aq"
proof -
  define m v where "m = (b + a) / 2" and "v = atr / m * sqrt (365 * 96)"
  have m: "0 < m" "m \<le> 3/5" using prices by (simp_all add: m_def)
  have rel: "0 < atr / m" "atr / m \<le> 1/50" using atr m by (simp_all add: m_def field_simps)
  have v: "0 < v" unfolding v_def using rel(1) by (rule mult_pos_pos) simp
  have "v * v = (atr / m) * (atr / m) * (365 * 96)" by (simp add: v_def)
  also have "(atr / m) * (atr / m) \<le> 1/50 * (1/50)" using rel by (intro mult_mono) auto
  finally have vv: "v * v \<le> 15" by simp
  obtain bid ask where q: "compute_quotes (Fin m) (Fin v) (Fin 0) (Fin t) = (Fin bid, Fin ask)"
    and b: "-2 \<le> bid" "bid < -1/1000" "1/2 \<le> ask" "ask \<le> 3" by (rule cheap_quotes [OF m v vv time])
  obtain bq aq where s: "quote_sizes (Fin equity) (Fin bid) (Fin ask) = Inr (Some (Fin bq, Fin aq))" "bq < 0" "0 < aq"
    by (rule cheap_sizes [OF b equity])
  have rich: "\<not> (a - b) / m < 3/1000" using prices m by (simp add: m_def not_less field_simps)
  have "x \<le> 1/50 \<Longrightarrow> \<not> 2 < x * 100" for x :: real by simp
  with rel(2) have calm: "\<not> 2 < atr / m * 100" by blast
  have mid: "(Fin b + Fin a) / Fin 2 = Fin m" by (simp add: m_def)
  have divs: "py_div (Fin (a - b)) (Fin m) = Inr (Fin ((a - b) / m))" "py_div (Fin atr) (Fin m) = Inr (Fin (atr / m))"
    using m by simp_all
  have sigma: "Fin (atr / m) * py_sqrt (Fin (365 * 96)) = Fin v" by (simp add: v_def)
  have "plan_quotes (Fin b) (Fin a) (Fin equity) (Fin atr) False (Fin 0) (Fin t) = Inr (Some (Fin bid, Fin ask, Fin bq, Fin aq))"
    unfolding plan_quotes_def mid Let_def minus_Fin divs rbind_simps sigma q
    using m rich calm s(1) by (simp add: mm_viable_def min_viable_spread_def max_inventory_usd_def)
  then show ?thesis using b s by auto
qed

section \<open>Paper trading\<close>

text \<open>The identifiers of paper orders, an invariant of a market maker in paper mode.\<close>

definition paper_id :: "pyval \<Rightarrow> bool" where
  "paper_id v \<longleftrightarrow> (\<exists>s. v = VStr s \<and> take 5 s = ''PAPER'')"

definition paper_maker :: "market_maker \<Rightarrow> bool" where
  "paper_maker m \<longleftrightarrow> mm_mode m = ''PAPER'' \<and> dict_ok (mm_quotes m) \<and>
     (\<forall>(s, q) \<in> set (mm_quotes m). paper_id (mq_bid_id q) \<and> paper_id (mq_ask_id q))"

text \<open>Two exchanges with the same clock and the same order books.\<close>

definition same_books :: "'w outside \<Rightarrow> 'w outside \<Rightarrow> bool" where
  "same_books ow ow' \<longleftrightarrow> ow_now ow = ow_now ow' \<and> ow_call ow ''fetch_order_book'' = ow_call ow' ''fetch_order_book''"

lemma cancel_ids_paper: "list_all paper_id ids \<Longrightarrow> cancel_ids ow symb ids w = (w, Inr ())"
  by (induction ids arbitrary: w) (auto simp: paper_id_def)

lemma paper_lookup:
  "paper_maker m \<Longrightarrow> map_of (mm_quotes m) symb = Some q \<Longrightarrow> paper_id (mq_bid_id q) \<and> paper_id (mq_ask_id q)"
  by (auto simp: paper_maker_def dest: map_of_SomeD)

lemma cancel_stale_paper:
  assumes "paper_maker m"
  obtains m' where "cancel_stale ow symb m w = (w, m', Inr ())" "paper_maker m'"
    "\<And>ow'. ow_now ow = ow_now ow' \<Longrightarrow> cancel_stale ow' symb m w = (w, m', Inr ())"
proof (cases "\<exists>q. map_of (mm_quotes m) symb = Some q \<and> \<not> ow_now ow w - mq_placed q < quote_lifetime")
  case True
  then obtain q where q: "map_of (mm_quotes m) symb = Some q" "\<not> ow_now ow w - mq_placed q < quote_lifetime" by blast
  let ?m = "m\<lparr>mm_quotes := dict_pop symb (mm_quotes m)\<rparr>"
  have "list_all paper_id [mq_bid_id q, mq_ask_id q]" using paper_lookup [OF assms q(1)] by simp
  note ids = cancel_ids_paper [OF this]
  have "paper_maker ?m" using assms by (auto simp: paper_maker_def dict_pop_mem dict_simps distinct_removeAll)
  moreover have "cancel_stale ow' symb m w = (w, ?m, Inr ())" if "ow_now ow = ow_now ow'" for ow'
    using q that by (simp add: cancel_stale_def ids del: cancel_ids.simps)
  ultimately show thesis using that by blast
next
  case False
  then have "cancel_stale ow' symb m w = (w, m, Inr ())" if "ow_now ow = ow_now ow'" for ow'
    using that by (auto simp: cancel_stale_def split: option.splits)
  with that assms show thesis by blast
qed

lemma mm_place_paper:
  "mm_mode m = ''PAPER'' \<Longrightarrow> mm_place ow h symb side qty price m w = (w, VStr (''PAPER-MM-'' @ take 8 h))"
  by (simp add: mm_place_def)

lemma place_quotes_paper:
  assumes "paper_maker m"
  obtains m' q where "place_quotes ow h1 h2 symb plan m w = (w, m', Some q)" "paper_maker m'"
    "\<And>ow'. ow_now ow = ow_now ow' \<Longrightarrow> place_quotes ow' h1 h2 symb plan m w = (w, m', Some q)"
proof -
  obtain bid ask bq aq where plan: "plan = (bid, ask, bq, aq)" by (cases plan)
  have mode: "mm_mode m = ''PAPER''" using assms by (simp add: paper_maker_def)
  let ?q = "\<lparr>mq_symbol = symb, mq_bid = bid, mq_ask = ask, mq_bid_qty = bq, mq_ask_qty = aq,
     mq_bid_id = VStr (''PAPER-MM-'' @ take 8 h1), mq_ask_id = VStr (''PAPER-MM-'' @ take 8 h2),
     mq_placed = ow_now ow w, mq_inventory = inventory_of symb m\<rparr>"
  let ?m = "m\<lparr>mm_quotes := dict_set symb ?q (mm_quotes m)\<rparr>"
  have "paper_maker ?m"
    using assms by (auto simp: paper_maker_def dict_set_mem dict_simps paper_id_def)
  moreover have "place_quotes ow' h1 h2 symb plan m w = (w, ?m, Some ?q)" if "ow_now ow = ow_now ow'" for ow'
    using that by (simp add: place_quotes_def plan mm_place_paper [OF mode] Let_def)
  ultimately show thesis using that by blast
qed

text \<open>
  In paper mode a cycle looks at the order book and the clock and at nothing else: it sends neither orders
  nor cancellations, whatever they would do.
\<close>

theorem paper_cycle_only_reads:
  assumes "paper_maker m" "same_books ow ow'"
  shows "mm_cycle ow h1 h2 symb equity atr dir m w = mm_cycle ow' h1 h2 symb equity atr dir m w \<and>
    paper_maker (fst (snd (mm_cycle ow h1 h2 symb equity atr dir m w)))"
proof -
  have now: "ow_now ow = ow_now ow'" and book: "ow_call ow ''fetch_order_book'' = ow_call ow' ''fetch_order_book''"
    using assms(2) by (simp_all add: same_books_def)
  obtain m1 where st: "cancel_stale ow symb m w = (w, m1, Inr ())" "paper_maker m1"
    "cancel_stale ow' symb m w = (w, m1, Inr ())" using cancel_stale_paper [OF assms(1)] now by metis
  obtain w2 r where b: "ow_call ow' ''fetch_order_book'' [VStr symb, VInt 5] w = (w2, r)" by fastforce
  have placed: "place_quotes ow h1 h2 symb plan m1 w2 = place_quotes ow' h1 h2 symb plan m1 w2"
    "paper_maker (fst (snd (place_quotes ow' h1 h2 symb plan m1 w2)))" for plan
    using place_quotes_paper [OF st(2), of ow h1 h2 symb plan w2] now by (metis, metis fst_conv snd_conv)
  show ?thesis
    using st(2) placed
    by (auto simp: mm_cycle_def st book b now split: sum.splits option.splits prod.splits) (metis fst_conv snd_conv)+
qed

end
