(* ===== verification/Order_Book_Stream.thy ===== *)
theory Order_Book_Stream
  imports Exchange_Reports Py_Sequences
begin

text \<open>
  The order books kept by \<open>websocket_ob.py\<close>: the figures of a snapshot (volumes, imbalance, spreads,
  toxicity, price impact) and the manager that stores the snapshots of the streams and of the REST
  fallback. What the stream of ccxt delivers is an argument; threads and the event loop are left out: a turn
  of a watcher is a step.
\<close>

section \<open>A snapshot\<close>

record ob_snapshot =
  os_symbol :: string
  os_bids :: "(pyfloat \<times> pyfloat) list"
  os_asks :: "(pyfloat \<times> pyfloat) list"
  os_time :: pyfloat
  os_exchange :: string

definition os_best_bid :: "ob_snapshot \<Rightarrow> pyfloat option" where
  "os_best_bid s = (case os_bids s of [] \<Rightarrow> None | l # _ \<Rightarrow> Some (fst l))"

definition os_best_ask :: "ob_snapshot \<Rightarrow> pyfloat option" where
  "os_best_ask s = (case os_asks s of [] \<Rightarrow> None | l # _ \<Rightarrow> Some (fst l))"

text \<open>The two best prices where both are there and neither is zero.\<close>

definition os_touch :: "ob_snapshot \<Rightarrow> (pyfloat \<times> pyfloat) option" where
  "os_touch s =
     (case (os_best_bid s, os_best_ask s) of
        (Some b, Some a) \<Rightarrow> (if py_true b \<and> py_true a then Some (b, a) else None)
      | _ \<Rightarrow> None)"

definition os_mid :: "ob_snapshot \<Rightarrow> pyfloat option" where
  "os_mid s = map_option (\<lambda>(b, a). (b + a) / Fin 2) (os_touch s)"

definition os_spread :: "ob_snapshot \<Rightarrow> pyfloat option" where
  "os_spread s = map_option (\<lambda>(b, a). a - b) (os_touch s)"

definition os_spread_pct :: "ob_snapshot \<Rightarrow> pyfloat" where
  "os_spread_pct s =
     (case (os_mid s, os_spread s) of
        (Some m, Some d) \<Rightarrow> (if py_true m \<and> py_true d then d / m else Fin 0)
      | _ \<Rightarrow> Fin 0)"

definition os_bid_volume :: "int \<Rightarrow> ob_snapshot \<Rightarrow> pyfloat" where
  "os_bid_volume depth s = py_sum (map snd (py_prefix depth (os_bids s)))"

definition os_ask_volume :: "int \<Rightarrow> ob_snapshot \<Rightarrow> pyfloat" where
  "os_ask_volume depth s = py_sum (map snd (py_prefix depth (os_asks s)))"

definition os_imbalance :: "int \<Rightarrow> ob_snapshot \<Rightarrow> pyfloat" where
  "os_imbalance depth s =
     (let av = os_ask_volume depth s in if Fin 0 < av then os_bid_volume depth s / av else Fin 1)"

definition bid_depth_ratio :: "int \<Rightarrow> ob_snapshot \<Rightarrow> pyfloat" where
  "bid_depth_ratio depth s =
     (let t = os_bid_volume depth s + os_ask_volume depth s
      in if Fin 0 < t then os_bid_volume depth s / t else Fin (1/2))"

definition vwap_spread :: "int \<Rightarrow> ob_snapshot \<Rightarrow> pyfloat" where
  "vwap_spread depth s =
     (if os_bids s = [] \<or> os_asks s = [] then Fin 0
      else
        (let n = nat (min depth (min (int (length (os_bids s))) (int (length (os_asks s)))));
             (ws, tw) = foldl (\<lambda>(ws, tw) ((bp, bq), (ap, aq)).
                 (let w = (bq + aq) / Fin 2 in (ws + (ap - bp) * w, tw + w)))
               (Fin 0, Fin 0) (zip (take n (os_bids s)) (take n (os_asks s)))
         in if Fin 0 < tw then ws / tw else Fin 0))"

definition toxicity_of :: "pyfloat \<Rightarrow> pyfloat" where
  "toxicity_of imb = \<bar>imb - Fin 1\<bar> / py_max imb (Fin 1 / py_max imb (Fin (1/1000000)))"

definition order_flow_toxicity :: "ob_snapshot \<Rightarrow> pyfloat" where
  "order_flow_toxicity s = toxicity_of (os_imbalance 10 s)"

text \<open>The walk of a market order over the levels: what remains of it and the weighted sum of the prices.\<close>

fun walk_levels :: "(pyfloat \<times> pyfloat) list \<Rightarrow> pyfloat \<Rightarrow> pyfloat \<Rightarrow> pyfloat \<times> pyfloat" where
  "walk_levels [] remaining wsum = (remaining, wsum)"
| "walk_levels ((price, qty) # ls) remaining wsum =
     (let fill = py_min remaining (qty * price);
          wsum1 = wsum + fill * price;
          remaining1 = remaining - fill
      in if remaining1 \<le> Fin 0 then (remaining1, wsum1) else walk_levels ls remaining1 wsum1)"

definition price_impact :: "string \<Rightarrow> pyfloat \<Rightarrow> ob_snapshot \<Rightarrow> pyfloat res" where
  "price_impact side usd s =
     (case os_mid s of
        None \<Rightarrow> Inr (Fin 0)
      | Some mid \<Rightarrow>
          (if \<not> py_true mid then Inr (Fin 0)
           else
             (let (remaining, wsum) = walk_levels (if side = ''buy'' then os_asks s else os_bids s) usd (Fin 0) in
              if Fin 0 < remaining then Inr (Fin (2/100))
              else rbind (py_div wsum usd) (\<lambda>avg.
                Inr (if side = ''buy'' then (avg - mid) / mid else (mid - avg) / mid)))))"

definition to_feature_dict :: "ob_snapshot \<Rightarrow> (string \<times> pyfloat) list res" where
  "to_feature_dict s =
     rbind (price_impact ''buy'' (Fin 1000) s) (\<lambda>ib. rbind (price_impact ''sell'' (Fin 1000) s) (\<lambda>is.
       Inr [(''ob_imbalance'', os_imbalance 10 s), (''bid_depth_ratio'', bid_depth_ratio 10 s),
            (''ask_depth_ratio'', Fin 1 - bid_depth_ratio 10 s), (''spread_pct'', os_spread_pct s),
            (''vwap_spread'', vwap_spread 5 s), (''ob_toxicity'', order_flow_toxicity s),
            (''price_impact_buy'', ib), (''price_impact_sell'', is)]))"

section \<open>The manager\<close>

record ob_manager =
  obm_books :: "(string, ob_snapshot) pydict"
  obm_symbols :: "string list"
  obm_thread :: "string list option"  \<comment> \<open>the symbols the thread of the streams was started with\<close>
  obm_running :: bool

definition new_ob_manager :: ob_manager where
  "new_ob_manager = \<lparr>obm_books = [], obm_symbols = [], obm_thread = None, obm_running = False\<rparr>"

definition book_depth :: int where "book_depth = 20"
definition stale_secs :: pyfloat where "stale_secs = Fin 10"

definition get_book :: "pyfloat \<Rightarrow> string \<Rightarrow> ob_manager \<Rightarrow> ob_snapshot option" where
  "get_book now symb m =
     (case map_of (obm_books m) symb of
        None \<Rightarrow> None
      | Some b \<Rightarrow> (if stale_secs < now - os_time b then None else Some b))"

definition neutral_features :: "(string \<times> pyfloat) list" where
  "neutral_features =
     [(''ob_imbalance'', Fin 1), (''bid_depth_ratio'', Fin (1/2)), (''ask_depth_ratio'', Fin (1/2)),
      (''spread_pct'', Fin (1/1000)), (''vwap_spread'', Fin 0), (''ob_toxicity'', Fin 0),
      (''price_impact_buy'', Fin (1/1000)), (''price_impact_sell'', Fin (1/1000))]"

definition get_ob_features :: "pyfloat \<Rightarrow> string \<Rightarrow> ob_manager \<Rightarrow> (string \<times> pyfloat) list res" where
  "get_ob_features now symb m =
     (case get_book now symb m of Some b \<Rightarrow> to_feature_dict b | None \<Rightarrow> Inr neutral_features)"

definition obm_is_running :: "bool \<Rightarrow> ob_manager \<Rightarrow> bool" where
  "obm_is_running alive m \<longleftrightarrow> obm_running m \<and> obm_thread m \<noteq> None \<and> alive"

definition obm_start :: "bool \<Rightarrow> string list \<Rightarrow> ob_manager \<Rightarrow> ob_manager" where
  "obm_start has_pro symbols m =
     (if \<not> has_pro then m
      else m\<lparr>obm_symbols := take 20 symbols, obm_running := True, obm_thread := Some symbols\<rparr>)"

definition obm_stop :: "ob_manager \<Rightarrow> ob_manager" where
  "obm_stop m = m\<lparr>obm_running := False\<rparr>"

text \<open>\<open>for p, q in ...\<close>: an entry has to unpack into two values.\<close>

definition price_qty :: "pyval \<Rightarrow> (pyfloat \<times> pyfloat) res" where
  "price_qty v =
     rbind (iter_values v) (\<lambda>xs. case xs of
         [p, q] \<Rightarrow> rbind (py_float p) (\<lambda>x. rbind (py_float q) (\<lambda>y. Inr (x, y)))
       | _ \<Rightarrow> Inl (ValueError (text_msg ''wrong number of values to unpack'')))"

fun map_res :: "('a \<Rightarrow> 'b res) \<Rightarrow> 'a list \<Rightarrow> 'b list res" where
  "map_res f [] = Inr []"
| "map_res f (x # xs) = rbind (f x) (\<lambda>y. rbind (map_res f xs) (\<lambda>ys. Inr (y # ys)))"

definition raw_side :: "payload \<Rightarrow> string \<Rightarrow> (pyfloat \<times> pyfloat) list res" where
  "raw_side ob side =
     rbind (dict_index ob side) (\<lambda>v. case v of
         VList xs \<Rightarrow> map_res price_qty (py_prefix book_depth xs)
       | VStr cs \<Rightarrow> map_res price_qty (map (\<lambda>c. VStr [c]) (py_prefix book_depth cs))
       | _ \<Rightarrow> Inl (TypeError (text_msg ''object is not subscriptable'')))"

definition snapshot_of :: "string \<Rightarrow> pyfloat \<Rightarrow> payload \<Rightarrow> ob_snapshot res" where
  "snapshot_of symb now ob =
     rbind (raw_side ob ''bids'') (\<lambda>bids. rbind (raw_side ob ''asks'') (\<lambda>asks.
       Inr \<lparr>os_symbol = symb, os_bids = bids, os_asks = asks, os_time = now, os_exchange = ''binance''\<rparr>))"

definition store_snapshot_of :: "string \<Rightarrow> pyfloat \<Rightarrow> payload res \<Rightarrow> ob_manager \<Rightarrow> ob_manager" where
  "store_snapshot_of symb now r m =
     (case rbind r (snapshot_of symb now) of
        Inl _ \<Rightarrow> m
      | Inr s \<Rightarrow> m\<lparr>obm_books := dict_set symb s (obm_books m)\<rparr>)"

text \<open>
  \<open>rest_update\<close>, and one turn of \<open>_watch_symbol\<close> while the manager runs: what the stream delivers is
  stored, a failure (answered by five seconds of sleep) leaves the book as it was.
\<close>

definition rest_update :: "pyfloat \<Rightarrow> string \<Rightarrow> payload res \<Rightarrow> ob_manager \<Rightarrow> ob_manager" where
  "rest_update now symb r m = store_snapshot_of symb now r m"

datatype streamed = Stream_Cancelled | Streamed "payload res"

definition watch_turn :: "pyfloat \<Rightarrow> string \<Rightarrow> streamed \<Rightarrow> ob_manager \<Rightarrow> ob_manager \<times> bool" where
  "watch_turn now symb x m =
     (case x of
        Stream_Cancelled \<Rightarrow> (m, False)
      | Streamed r \<Rightarrow> (store_snapshot_of symb now r m, obm_running m))"

text \<open>
  A watcher over what the stream delivers: for each turn whether the manager was stopped while it waited,
  the clock reading and the delivery. A stopped manager ends it.
\<close>

fun watch_symbol :: "string \<Rightarrow> (bool \<times> pyfloat \<times> streamed) list \<Rightarrow> ob_manager \<Rightarrow> ob_manager" where
  "watch_symbol symb [] m = m"
| "watch_symbol symb ((stopped, now, x) # xs) m =
     (if \<not> obm_running m then m
      else (case watch_turn now symb x (if stopped then obm_stop m else m) of
              (m1, go) \<Rightarrow> if go then watch_symbol symb xs m1 else m1))"

text \<open>The symbols the thread streams: one watcher for each symbol of its argument.\<close>

definition streamed_symbols :: "ob_manager \<Rightarrow> string list" where
  "streamed_symbols m = (case obm_thread m of None \<Rightarrow> [] | Some ss \<Rightarrow> ss)"

section \<open>Toxicity\<close>

lemma toxicity_buy: "1 \<le> x \<Longrightarrow> toxicity_of (Fin x) = Fin (1 - 1 / x)"
proof -
  assume x: "1 \<le> x"
  then have "1 / max x (1/1000000) \<le> 1" by (simp add: max_def)
  with x have "max x (1 / max x (1/1000000)) = x" by (intro max_absorb1) (rule order_trans)
  with x show ?thesis by (simp add: toxicity_of_def diff_divide_distrib)
qed

lemma toxicity_sell:
  assumes "0 \<le> x" "x \<le> 1"
  shows "toxicity_of (Fin x) = Fin ((1 - x) * max x (1/1000000))"
proof -
  let ?y = "max x (1/1000000)"
  have y: "0 < ?y" "x \<le> ?y" "?y \<le> 1" using assms by auto
  have "x * ?y \<le> 1 * 1" using y assms by (intro mult_mono) auto
  then have "x \<le> 1 / ?y" using y(1) by (simp add: pos_le_divide_eq)
  then have "max x (1 / ?y) = 1 / ?y" by simp
  moreover have "1 / ?y \<noteq> 0" using y(1) by simp
  ultimately show ?thesis using assms y(1) by (simp add: toxicity_of_def)
qed

text \<open>
  The measure lies between 0 and 1 but is not symmetric: pressure of buyers approaches 1, that of sellers
  never exceeds a quarter and falls to nothing as the book becomes one-sided.
\<close>

theorem toxicity_misses_sell_pressure:
  assumes "0 \<le> x"
  shows "\<exists>y. toxicity_of (Fin x) = Fin y \<and> 0 \<le> y \<and> y < 1 \<and> (x \<le> 1 \<longrightarrow> y \<le> 1/4) \<and> (x \<le> 1/1000 \<longrightarrow> y \<le> 1/1000)"
proof (cases "1 \<le> x")
  case True
  then show ?thesis by (auto simp: toxicity_buy)
next
  case False
  let ?y = "max x (1/1000000)"
  have y: "0 \<le> ?y" "?y \<le> 1" using assms False by auto
  have "x * (1 - x) \<le> 1/4" using zero_le_power2 [of "x - 1/2"] by (simp add: power2_eq_square algebra_simps)
  moreover have "(1 - x) * (1/1000000) \<le> 1 * (1/1000000)" using assms by (intro mult_right_mono) auto
  ultimately have "(1 - x) * ?y \<le> 1/4" by (auto simp: max_def mult.commute)
  moreover have "(1 - x) * ?y \<le> 1 * ?y" using assms y by (intro mult_right_mono) auto
  ultimately show ?thesis using toxicity_sell [OF assms] False y by auto
qed

section \<open>The walk over the levels\<close>

abbreviation fin_levels :: "(real \<times> real) list \<Rightarrow> (pyfloat \<times> pyfloat) list" where
  "fin_levels ls \<equiv> map (\<lambda>(p, q). (Fin p, Fin q)) ls"

text \<open>The money the levels take, and the units a walk with that money buys.\<close>

definition notional_of :: "(real \<times> real) list \<Rightarrow> real" where
  "notional_of ls = sum_list (map (\<lambda>(p, q). p * q) ls)"

fun units_for :: "(real \<times> real) list \<Rightarrow> real \<Rightarrow> real" where
  "units_for [] r = 0"
| "units_for ((p, q) # ls) r = (let f = min r (q * p) in f / p + (if r - f \<le> 0 then 0 else units_for ls (r - f)))"

definition good_levels :: "real \<Rightarrow> real \<Rightarrow> (real \<times> real) list \<Rightarrow> bool" where
  "good_levels lo hi ls \<longleftrightarrow> (\<forall>(p, q) \<in> set ls. 0 < lo \<and> lo \<le> p \<and> p \<le> hi \<and> 0 \<le> q)"

lemma good_levels_simps:
  "good_levels lo hi []"
  "good_levels lo hi ((p, q) # ls) \<longleftrightarrow> 0 < lo \<and> lo \<le> p \<and> p \<le> hi \<and> 0 \<le> q \<and> good_levels lo hi ls"
  by (auto simp: good_levels_def)

lemma notional_of_simps: "notional_of [] = 0" "notional_of ((p, q) # ls) = p * q + notional_of ls"
  by (simp_all add: notional_of_def)

lemma notional_nonneg: "good_levels lo hi ls \<Longrightarrow> 0 \<le> notional_of ls"
  by (induction ls) (auto simp: good_levels_simps notional_of_simps)

lemma walk_levels_Fin:
  assumes "good_levels lo hi ls" "0 < r"
  shows "\<exists>w'. walk_levels (fin_levels ls) (Fin r) (Fin w) = (Fin (max 0 (r - notional_of ls)), Fin w') \<and>
    lo * min r (notional_of ls) \<le> w' - w \<and> w' - w \<le> hi * min r (notional_of ls)"
  using assms
proof (induction ls arbitrary: r w)
  case (Cons l ls)
  obtain p q where l: "l = (p, q)" by (cases l)
  have good: "0 < lo" "lo \<le> p" "p \<le> hi" "0 \<le> q" "good_levels lo hi ls"
    using Cons.prems by (auto simp: l good_levels_simps)
  note nn = notional_nonneg [OF good(5)]
  let ?f = "min r (q * p)"
  have f: "0 \<le> ?f" using good Cons.prems(2) by simp
  have step: "lo * ?f \<le> ?f * p" "?f * p \<le> hi * ?f"
    using f good by (simp_all add: mult.commute [of _ p] mult_right_mono)
  show ?case
  proof (cases "r \<le> q * p")
    case True
    with Cons.prems(2) nn step show ?thesis by (simp add: l notional_of_simps Let_def min_def mult.commute)
  next
    case False
    then have "0 < r - q * p" by simp
    from Cons.IH [OF good(5) this, of "w + q * p * p"] obtain w' where
      w': "walk_levels (fin_levels ls) (Fin (r - q * p)) (Fin (w + q * p * p)) = (Fin (max 0 (r - q * p - notional_of ls)), Fin w')"
      "lo * min (r - q * p) (notional_of ls) \<le> w' - (w + q * p * p)"
      "w' - (w + q * p * p) \<le> hi * min (r - q * p) (notional_of ls)" by blast
    have split: "min r (q * p + notional_of ls) = q * p + min (r - q * p) (notional_of ls)"
      by (simp add: min_def)
    from False step w' show ?thesis
      by (simp add: l notional_of_simps split distrib_left Let_def diff_diff_eq mult.commute [of p q])
  qed
qed (simp add: notional_of_simps)

text \<open>
  The impact of a purchase the book can fill lies between those of its best and its worst level; what it
  cannot fill counts as two percent.
\<close>

lemma os_mid_Fin:
  "os_bids s = (Fin bp, bq) # bs \<Longrightarrow> os_asks s = (Fin ap, aq) # as \<Longrightarrow> bp \<noteq> 0 \<Longrightarrow> ap \<noteq> 0 \<Longrightarrow>
   os_mid s = Some (Fin ((bp + ap) / 2))"
  by (simp add: os_mid_def os_touch_def os_best_bid_def os_best_ask_def py_true_def)

theorem buy_impact_bounds:
  assumes book: "os_bids s = (Fin bp, bq) # bs" "os_asks s = fin_levels ((ap, aq) # ls)"
    and prices: "0 < bp" "bp \<le> ap" "good_levels ap hi ((ap, aq) # ls)" and usd: "0 < usd"
  shows "\<exists>x. price_impact ''buy'' (Fin usd) s = Inr (Fin x) \<and>
    (if usd \<le> notional_of ((ap, aq) # ls)
     then (ap - (bp + ap) / 2) / ((bp + ap) / 2) \<le> x \<and> x \<le> (hi - (bp + ap) / 2) / ((bp + ap) / 2)
     else x = 2/100)"
proof -
  define m where "m = (bp + ap) / 2"
  have "ap \<noteq> 0" "m > 0" using prices by (auto simp: m_def good_levels_simps)
  then have mid: "os_mid s = Some (Fin m)"
    using os_mid_Fin [OF book(1), of ap "Fin aq"] book(2) prices(1) by (simp add: m_def)
  obtain w' where walk: "walk_levels (os_asks s) (Fin usd) (Fin 0) = (Fin (max 0 (usd - notional_of ((ap, aq) # ls))), Fin w')"
    and w': "ap * min usd (notional_of ((ap, aq) # ls)) \<le> w'" "w' \<le> hi * min usd (notional_of ((ap, aq) # ls))"
    using walk_levels_Fin [OF prices(3) usd, of 0] unfolding book(2) by auto
  show ?thesis
  proof (cases "usd \<le> notional_of ((ap, aq) # ls)")
    case True
    then have "ap \<le> w' / usd" "w' / usd \<le> hi" using w' usd by (simp_all add: pos_le_divide_eq pos_divide_le_eq)
    then have "(ap - m) / m \<le> (w' / usd - m) / m" "(w' / usd - m) / m \<le> (hi - m) / m"
      using \<open>m > 0\<close> by (simp_all add: divide_right_mono)
    moreover have "price_impact ''buy'' (Fin usd) s = Inr (Fin ((w' / usd - m) / m))"
      using True usd \<open>m > 0\<close> by (simp add: price_impact_def mid walk py_true_def)
    ultimately show ?thesis using True by (simp add: m_def)
  next
    case False
    then have "price_impact ''buy'' (Fin usd) s = Inr (Fin (2/100))"
      using \<open>m > 0\<close> by (simp add: price_impact_def mid walk py_true_def)
    with False show ?thesis by (intro exI [of _ "2/100"]) simp
  qed
qed

text \<open>
  The average price is weighted by money, not by units: it is never below the price really paid per unit,
  so the slippage of a purchase is overestimated.
\<close>

lemma weights_step:
  fixes F W U f p :: real
  assumes "0 \<le> F" "0 \<le> W" "0 \<le> U" "0 \<le> f" "0 < p" "F * F \<le> W * U"
  shows "(F + f) * (F + f) \<le> (W + f * p) * (U + f / p)"
proof -
  have "0 \<le> (W / p - U * p)\<^sup>2" by simp
  then have "4 * (W * U) \<le> (W / p + U * p)\<^sup>2" using assms(5) by (simp add: power2_eq_square field_simps)
  moreover have "(2 * F)\<^sup>2 = 4 * (F * F)" by (simp add: power2_eq_square)
  ultimately have "(2 * F)\<^sup>2 \<le> (W / p + U * p)\<^sup>2" using assms(6) by linarith
  then have "2 * F \<le> W / p + U * p" by (rule power2_le_imp_le) (use assms in auto)
  then have "f * (2 * F) \<le> f * (W / p + U * p)" using assms(4) by (rule mult_left_mono)
  moreover have "(W + f * p) * (U + f / p) = W * U + f * (W / p + U * p) + f * f"
    using assms(5) by (simp add: field_simps)
  ultimately show ?thesis using assms(6) by (simp add: algebra_simps)
qed

lemma walk_levels_weights:
  assumes "good_levels lo hi ls" "0 < r" "0 \<le> F" "0 \<le> W" "0 \<le> U" "F * F \<le> W * U"
    and "walk_levels (fin_levels ls) (Fin r) (Fin W) = (Fin r', Fin W')" "r \<le> notional_of ls"
  shows "(F + r) * (F + r) \<le> W' * (U + units_for ls r)"
  using assms
proof (induction ls arbitrary: r F W U)
  case (Cons l ls)
  obtain p q where l: "l = (p, q)" by (cases l)
  have good: "0 < p" "0 \<le> q" "good_levels lo hi ls" using Cons.prems(1) by (auto simp: l good_levels_simps)
  let ?f = "min r (q * p)"
  have f: "0 \<le> ?f" using good Cons.prems(2) by simp
  note step = weights_step [OF Cons.prems(3,4,5) f good(1) Cons.prems(6)]
  show ?case
  proof (cases "r \<le> q * p")
    case True
    then show ?thesis using step Cons.prems(2,7) by (simp add: l Let_def min_def)
  next
    case False
    then have m: "?f = q * p" "0 < r - q * p" by simp_all
    have "(F + q * p + (r - q * p)) * (F + q * p + (r - q * p)) \<le> W' * (U + q * p / p + units_for ls (r - q * p))"
    proof (rule Cons.IH [OF good(3) m(2)])
      show "(F + q * p) * (F + q * p) \<le> (W + q * p * p) * (U + q * p / p)" using step unfolding m(1) .
      show "walk_levels (fin_levels ls) (Fin (r - q * p)) (Fin (W + q * p * p)) = (Fin r', Fin W')"
        using Cons.prems(7) False by (simp add: l Let_def)
      show "r - q * p \<le> notional_of ls" using Cons.prems(8) by (simp add: l notional_of_simps mult.commute)
    qed (use good Cons.prems in auto)
    then show ?thesis using False by (simp add: l Let_def min_def add.assoc)
  qed
qed (auto simp: notional_of_simps)

theorem buy_average_is_overestimated:
  assumes "good_levels lo hi ls" "0 < usd" "usd \<le> notional_of ls"
    and "walk_levels (fin_levels ls) (Fin usd) (Fin 0) = (Fin r', Fin w)"
  shows "usd * usd \<le> w * units_for ls usd"
  using walk_levels_weights [OF assms(1,2), of 0 0 0 r' w] assms(3,4) by simp

section \<open>Books that are served\<close>

lemma get_book_fresh:
  assumes "get_book now symb m = Some b"
  shows "map_of (obm_books m) symb = Some b" "\<not> Fin 10 < now - os_time b"
  using assms by (auto simp: get_book_def stale_secs_def split: option.splits if_splits)

lemma stored_book_is_served:
  assumes "snapshot_of symb (Fin t) ob = Inr s" "now - t \<le> 10"
  shows "get_book (Fin now) symb (rest_update (Fin t) symb (Inr ob) m) = Some s"
proof -
  have "os_time s = Fin t" using assms(1) by (auto simp: snapshot_of_def rbind_Inr_iff)
  with assms show ?thesis
    by (simp add: rest_update_def store_snapshot_of_def get_book_def stale_secs_def dict_simps)
qed

lemma store_keeps_others:
  "other \<noteq> symb \<Longrightarrow> map_of (obm_books (store_snapshot_of symb now r m)) other = map_of (obm_books m) other"
  by (auto simp: store_snapshot_of_def dict_simps split: sum.splits)

lemma failed_update_keeps_book: "rbind r (snapshot_of symb now) = Inl e \<Longrightarrow> store_snapshot_of symb now r m = m"
  by (simp add: store_snapshot_of_def)

lemma length_map_res: "map_res f xs = Inr ys \<Longrightarrow> length ys = length xs"
  by (induction xs arbitrary: ys) (auto simp: rbind_Inr_iff)

lemma raw_side_depth: "raw_side ob side = Inr ls \<Longrightarrow> length ls \<le> 20"
proof -
  assume "raw_side ob side = Inr ls"
  then obtain v where "(case v of VList xs \<Rightarrow> map_res price_qty (py_prefix book_depth xs)
      | VStr cs \<Rightarrow> map_res price_qty (map (\<lambda>c. VStr [c]) (py_prefix book_depth cs))
      | _ \<Rightarrow> Inl (TypeError (text_msg ''object is not subscriptable''))) = Inr ls"
    unfolding raw_side_def rbind_Inr_iff by blast
  then show ?thesis by (cases v) (auto simp: book_depth_def py_prefix_def dest: length_map_res)
qed

text \<open>Every stored book is for its symbol and has at most twenty levels on a side.\<close>

definition books_ok :: "ob_manager \<Rightarrow> bool" where
  "books_ok m \<longleftrightarrow> (\<forall>s b. map_of (obm_books m) s = Some b \<longrightarrow>
     os_symbol b = s \<and> length (os_bids b) \<le> 20 \<and> length (os_asks b) \<le> 20)"

lemma store_books_ok: "books_ok m \<Longrightarrow> books_ok (store_snapshot_of symb now r m)"
  by (auto simp: books_ok_def store_snapshot_of_def dict_simps snapshot_of_def rbind_Inr_iff
      dest: raw_side_depth split: sum.splits if_splits)

lemma obm_stop_books [simp]: "obm_books (obm_stop m) = obm_books m" "obm_running (obm_stop m) = False"
  by (simp_all add: obm_stop_def)

lemma store_running [simp]: "obm_running (store_snapshot_of symb now r m) = obm_running m"
  by (simp add: store_snapshot_of_def split: sum.splits)

theorem watched_books_stay_ok: "books_ok m \<Longrightarrow> books_ok (watch_symbol symb xs m)"
proof (induction symb xs m rule: watch_symbol.induct)
  case (2 symb stopped now x xs m)
  have "books_ok (if stopped then obm_stop m else m)" using "2.prems" by (auto simp: books_ok_def)
  then have "books_ok (fst (watch_turn now symb x (if stopped then obm_stop m else m)))"
    by (auto simp: watch_turn_def store_books_ok split: streamed.splits)
  with "2.IH" "2.prems" show ?case by (auto split: prod.splits)
qed simp

text \<open>A stop ends a watcher at its next turn, cancellations and failures of the stream included.\<close>

theorem stop_ends_watcher:
  "watch_symbol symb ((True, now, x) # xs) m = watch_symbol symb [(True, now, x)] m"
  by (auto simp: watch_turn_def split: streamed.splits prod.splits)

text \<open>The cap of twenty symbols is recorded but the thread gets the list as it came.\<close>

theorem symbol_cap_is_ignored:
  "streamed_symbols (obm_start True symbols m) = symbols \<and> length (obm_symbols (obm_start True symbols m)) \<le> 20"
  by (simp add: obm_start_def streamed_symbols_def)

end
