(* ===== verification/Portfolio_Support.thy ===== *)
theory Portfolio_Support
  imports Py_Statistics
begin

text \<open>
  The small calculators beside the trading path: capital allocation and strategy weights
  (\<open>portfolio/capital_allocator.py\<close>, \<open>strategy_weights.py\<close>), the book of the portfolio manager
  (\<open>portfolio/portfolio_manager.py\<close>, \<open>portfolio_risk.py\<close>), position sizes (\<open>risk/adaptive_position_sizing.py\<close>),
  spreads and liquidity (\<open>strategies/smart_spread.py\<close>, \<open>ai/liquidity_scorer.py\<close>), regimes and the choice of
  a strategy (\<open>ai/regime_detector.py\<close>, \<open>ai/strategy_selector.py\<close>) and the detector of price differences
  (\<open>strategies/arbitrage_detector.py\<close>). A dictionary without repeated keys stands for each argument that is
  one; the strategies of the allocator may repeat.
\<close>

section \<open>Capital and weights\<close>

definition allocate :: "pyfloat \<Rightarrow> string list \<Rightarrow> (string, pyfloat) pydict" where
  "allocate balance strategies =
     (let weight = Fin (1 / real (max (length strategies) 1))
      in foldl (\<lambda>d s. dict_set s (balance * weight) d) [] strategies)"

definition strategy_weights :: "(string, pyfloat) pydict \<Rightarrow> (string, pyfloat) pydict" where
  "strategy_weights performance =
     (let t = py_sum (map (\<lambda>(k, v). py_max v (Fin 0)) performance) in
      if py_eq t (Fin 0) then map (\<lambda>(k, v). (k, Fin 0)) performance
      else map (\<lambda>(k, v). (k, py_max v (Fin 0) / t)) performance)"

section \<open>The portfolio manager\<close>

type_synonym held = "(string, pyfloat \<times> pyfloat) pydict"  \<comment> \<open>quantity and price\<close>

definition update_position :: "string \<Rightarrow> pyfloat \<Rightarrow> pyfloat \<Rightarrow> held \<Rightarrow> held" where
  "update_position symb quantity price h = dict_set symb (quantity, price) h"

definition held_exposure :: "held \<Rightarrow> pyfloat" where
  "held_exposure h = foldl (\<lambda>acc (s, (q, p)). acc + q * p) (Fin 0) h"

definition max_position_check :: "pyfloat \<Rightarrow> pyfloat \<Rightarrow> pyfloat \<Rightarrow> bool res" where
  "max_position_check portfolio_value position_value max_pct =
     rbind (py_div position_value portfolio_value) (\<lambda>x. Inr (x \<le> max_pct))"

definition adaptive_size :: "pyfloat \<Rightarrow> pyfloat \<Rightarrow> pyfloat \<Rightarrow> pyfloat \<Rightarrow> pyfloat res" where
  "adaptive_size base_risk balance volatility stop_distance =
     (let adjusted = base_risk / py_max volatility (Fin (1/1000));
          risk_amount = balance * adjusted
      in rbind (py_div risk_amount stop_distance) (\<lambda>size. Inr (py_max size (Fin 0))))"

section \<open>Spreads, liquidity, regimes\<close>

definition smart_spread :: "pyfloat \<Rightarrow> pyfloat \<Rightarrow> pyfloat \<Rightarrow> pyfloat" where
  "smart_spread base volatility liquidity =
     (let spread = base * (Fin 1 + volatility)
      in if liquidity < Fin 1000 then spread * Fin (3/2) else spread)"

definition liquidity_score :: "pyfloat \<Rightarrow> pyfloat \<Rightarrow> pyfloat \<Rightarrow> pyfloat" where
  "liquidity_score bid_volume ask_volume spread = (bid_volume + ask_volume) / py_max spread (Fin (1/10000))"

fun price_returns :: "pyfloat list \<Rightarrow> pyfloat list res" where
  "price_returns (p # q # ps) =
     rbind (py_div (q - p) p) (\<lambda>r. rbind (price_returns (q # ps)) (\<lambda>rs. Inr (r # rs)))"
| "price_returns _ = Inr []"

text \<open>\<open>statistics.stdev\<close> wants two values: two prices give one return and its exception.\<close>

definition detect_regime :: "pyfloat \<Rightarrow> pyfloat list \<Rightarrow> string res" where
  "detect_regime threshold prices =
     (if length prices < 2 then Inr ''UNKNOWN''
      else rbind (price_returns prices) (\<lambda>rs.
        if length rs < 2 then Inl (OtherError (text_msg ''stdev requires at least two data points''))
        else Inr (if threshold < stdev rs then ''HIGH_VOLATILITY'' else ''NORMAL'')))"

definition select_strategy :: "string \<Rightarrow> string" where
  "select_strategy regime = (if regime = ''HIGH_VOLATILITY'' then ''MARKET_MAKING'' else ''TREND_FOLLOWING'')"

section \<open>Price differences\<close>

record price_gap =
  pg_buy :: string
  pg_sell :: string
  pg_pct :: pyfloat

definition gap_of :: "pyfloat \<Rightarrow> string \<times> pyfloat \<Rightarrow> string \<times> pyfloat \<Rightarrow> price_gap option res" where
  "gap_of threshold e1 e2 =
     (case (e1, e2) of ((x1, p1), (x2, p2)) \<Rightarrow>
        rbind (py_div \<bar>p1 - p2\<bar> (py_min p1 p2)) (\<lambda>d.
          let pct = d * Fin 100 in
          if threshold \<le> pct
          then Inr (Some \<lparr>pg_buy = (if p1 < p2 then x1 else x2), pg_sell = (if p1 < p2 then x2 else x1), pg_pct = pct\<rparr>)
          else Inr None))"

fun gaps_from :: "pyfloat \<Rightarrow> string \<times> pyfloat \<Rightarrow> (string \<times> pyfloat) list \<Rightarrow> price_gap list res" where
  "gaps_from threshold e [] = Inr []"
| "gaps_from threshold e (f # fs) =
     rbind (gap_of threshold e f) (\<lambda>g. rbind (gaps_from threshold e fs) (\<lambda>gs.
       Inr (case g of None \<Rightarrow> gs | Some o1 \<Rightarrow> o1 # gs)))"

fun detect_gaps :: "pyfloat \<Rightarrow> (string, pyfloat) pydict \<Rightarrow> price_gap list res" where
  "detect_gaps threshold [] = Inr []"
| "detect_gaps threshold (e # es) =
     rbind (gaps_from threshold e es) (\<lambda>gs. rbind (detect_gaps threshold es) (\<lambda>hs. Inr (gs @ hs)))"

section \<open>Capital and weights add up\<close>

lemma allocate_fold:
  "foldl (\<lambda>d s. dict_set s x d) d ss = d @ map (\<lambda>s. (s, x)) ss"
  if "distinct (map fst d @ ss)" for d :: "(string, pyfloat) pydict"
  using that
proof (induction ss arbitrary: d)
  case (Cons s ss)
  then have "dict_set s x d = d @ [(s, x)]" by (intro dict_set_new) auto
  with Cons show ?case by simp
qed simp

theorem allocation_spends_the_balance:
  assumes "distinct ss" "ss \<noteq> []"
  shows "map fst (allocate (Fin b) ss) = ss \<and> py_sum (map snd (allocate (Fin b) ss)) = Fin b"
proof -
  let ?n = "length ss"
  have n: "1 \<le> ?n" using assms(2) by (cases ss) auto
  have a: "allocate (Fin b) ss = map (\<lambda>s. (s, Fin (b * (1 / real ?n)))) ss"
    using assms(1) n allocate_fold [of "[]" ss] by (simp add: allocate_def max_def)
  have "py_sum (map snd (allocate (Fin b) ss)) = Fin (sum_list (map (\<lambda>s. b / real ?n) ss))"
    unfolding a by (subst py_sum_fin) (auto simp: list_all_iff comp_def)
  also have "sum_list (map (\<lambda>s. b / real ?n) ss) = b" using assms(2) by (simp add: sum_list_triv)
  finally show ?thesis by (simp add: a comp_def)
qed

lemma member_le_sum:
  fixes x :: real
  shows "x \<in> set xs \<Longrightarrow> \<forall>y \<in> set xs. 0 \<le> y \<Longrightarrow> x \<le> sum_list xs"
proof (induction xs)
  case (Cons y ys)
  then have "0 \<le> sum_list ys" by (intro sum_list_nonneg) auto
  with Cons show ?case by fastforce
qed simp

lemma sum_positive_parts:
  fixes d :: "(string \<times> real) list"
  shows "py_sum (map (\<lambda>(k, v). py_max v (Fin 0)) (map (\<lambda>(k, v). (k, Fin v)) d)) = Fin (sum_list (map (\<lambda>(k, v). max v 0) d))"
  by (induction d) auto

theorem weights_are_a_distribution:
  fixes d :: "(string \<times> real) list"
  assumes "\<exists>(k, v) \<in> set d. 0 < v"
  shows "list_all (\<lambda>(k, w). Fin 0 \<le> w \<and> w \<le> Fin 1) (strategy_weights (map (\<lambda>(k, v). (k, Fin v)) d)) \<and>
    py_sum (map snd (strategy_weights (map (\<lambda>(k, v). (k, Fin v)) d))) = Fin 1"
proof -
  let ?d = "map (\<lambda>(k, v). (k, Fin v)) d" and ?t = "sum_list (map (\<lambda>(k, v). max v 0) d)"
  have nonneg: "\<forall>x \<in> set (map (\<lambda>(k, v :: real). max v 0) d). 0 \<le> x" by auto
  have le: "max v 0 \<le> ?t" if "(k, v) \<in> set d" for k v
  proof (rule member_le_sum [OF _ nonneg])
    show "max v 0 \<in> set (map (\<lambda>(k, v). max v 0) d)" using that by (auto simp: image_iff intro: bexI [of _ "(k, v)"])
  qed
  obtain k v where "(k, v) \<in> set d" "0 < v" using assms by auto
  then have t: "0 < ?t" using le [of k v] by simp
  then have w: "strategy_weights ?d = map (\<lambda>(k, v). (k, Fin (max v 0 / ?t))) d"
    unfolding strategy_weights_def sum_positive_parts Let_def by (auto simp: py_eq_def comp_def)
  have "py_sum (map snd (strategy_weights ?d)) = Fin (sum_list (map (\<lambda>(k, v). max v 0 / ?t) d))"
    unfolding w by (subst py_sum_fin) (auto simp: list_all_iff comp_def case_prod_unfold)
  also have "sum_list (map (\<lambda>(k, v). max v 0 / ?t) d) = ?t / ?t"
    by (simp add: sum_list_over case_prod_unfold)
  also have "\<dots> = 1" using t by simp
  finally show ?thesis using le t by (auto simp: w list_all_iff divide_le_eq_1)
qed

section \<open>Sizes, regimes and differences\<close>

lemma adaptive_size_nonneg: "adaptive_size r b v d = Inr x \<Longrightarrow> x \<noteq> NaN \<Longrightarrow> Fin 0 \<le> x"
  by (auto simp: adaptive_size_def Let_def rbind_Inr_iff py_max_def)
    (metis NaN_le(2) pyfloat_not_less is_num_def is_num_Fin(1))

text \<open>
  The risk is divided by the volatility: as long as that is under the base of one percent, more than the
  whole balance is put at risk.
\<close>

theorem calm_market_risks_more_than_balance:
  assumes "0 < balance" "0 < stop" "0 \<le> vol" "vol < base" "1/1000 < base"
  shows "\<exists>size. adaptive_size (Fin base) (Fin balance) (Fin vol) (Fin stop) = Inr (Fin size) \<and> balance < size * stop"
proof -
  let ?x = "balance * (base / max vol (1/1000))"
  have m: "0 < max vol (1/1000)" "max vol (1/1000) < base" using assms by auto
  then have "1 < base / max vol (1/1000)" by simp
  then have more: "balance * 1 < ?x" using assms(1) by (intro mult_strict_left_mono)
  moreover have "adaptive_size (Fin base) (Fin balance) (Fin vol) (Fin stop) = Inr (Fin (max (?x / stop) 0))"
    using assms m by (simp add: adaptive_size_def Let_def py_div_def)
  moreover from more have "0 \<le> ?x" using assms(1) by simp
  then have "max (?x / stop) 0 = ?x / stop" using assms(2) by (intro max_absorb1 divide_nonneg_pos)
  ultimately show ?thesis using more assms(2) by (intro exI [of _ "?x / stop"]) simp
qed

text \<open>Two prices are the length the check lets through and the deviation refuses.\<close>

theorem two_prices_raise:
  "p \<noteq> Fin 0 \<Longrightarrow> detect_regime threshold [p, q] = Inl (OtherError (text_msg ''stdev requires at least two data points''))"
  by (simp add: detect_regime_def)

lemma length_price_returns: "price_returns ps = Inr rs \<Longrightarrow> length rs = length ps - 1"
  by (induction ps arbitrary: rs rule: price_returns.induct) (auto simp: rbind_Inr_iff)

lemma detect_regime_returns:
  "price_returns ps = Inr rs \<Longrightarrow> 3 \<le> length ps \<Longrightarrow>
   detect_regime threshold ps = Inr (if threshold < stdev rs then ''HIGH_VOLATILITY'' else ''NORMAL'')"
  using length_price_returns [of ps rs] by (simp add: detect_regime_def)

lemma gaps_from_set:
  "gaps_from t e fs = Inr gs \<Longrightarrow> set gs = {g. \<exists>f \<in> set fs. gap_of t e f = Inr (Some g)}"
  by (induction fs arbitrary: gs) (fastforce simp: rbind_Inr_iff split: option.splits)+

lemma detect_gaps_set:
  "detect_gaps t es = Inr gs \<Longrightarrow>
   set gs = {g. \<exists>i j. i < j \<and> j < length es \<and> gap_of t (es ! i) (es ! j) = Inr (Some g)}"
proof (induction es arbitrary: gs)
  case (Cons e es)
  then obtain g1 g2 where g: "gaps_from t e es = Inr g1" "detect_gaps t es = Inr g2" "gs = g1 @ g2"
    by (auto simp: rbind_Inr_iff)
  let ?P = "\<lambda>g xs i j. i < j \<and> j < length xs \<and> gap_of t (xs ! i) (xs ! j) = Inr (Some g)"
  have step: "(\<exists>i j. ?P g (e # es) i j) \<longleftrightarrow> (\<exists>j. j < length es \<and> gap_of t e (es ! j) = Inr (Some g)) \<or> (\<exists>i j. ?P g es i j)" for g
  proof
    assume "\<exists>i j. ?P g (e # es) i j"
    then obtain i j where "?P g (e # es) i j" by blast
    then show "(\<exists>j. j < length es \<and> gap_of t e (es ! j) = Inr (Some g)) \<or> (\<exists>i j. ?P g es i j)"
      by (cases i; cases j) auto
  next
    assume "(\<exists>j. j < length es \<and> gap_of t e (es ! j) = Inr (Some g)) \<or> (\<exists>i j. ?P g es i j)"
    then show "\<exists>i j. ?P g (e # es) i j"
    proof (elim disjE exE)
      fix j assume "j < length es \<and> gap_of t e (es ! j) = Inr (Some g)"
      then show ?thesis by (intro exI [of _ 0] exI [of _ "Suc j"]) simp
    next
      fix i j assume "?P g es i j"
      then show ?thesis by (intro exI [of _ "Suc i"] exI [of _ "Suc j"]) simp
    qed
  qed
  have mem: "(\<exists>f \<in> set es. gap_of t e f = Inr (Some x)) \<longleftrightarrow> (\<exists>j. j < length es \<and> gap_of t e (es ! j) = Inr (Some x))" for x
    by (metis in_set_conv_nth)
  show ?case
    by (simp only: g(3) set_append gaps_from_set [OF g(1)] Cons.IH [OF g(2)] set_eq_iff Un_iff mem_Collect_eq step mem) simp
qed simp

lemma gap_of_positive:
  assumes "0 < p1" "0 < p2"
  shows "gap_of (Fin t) (x1, Fin p1) (x2, Fin p2) =
    Inr (if t \<le> \<bar>p1 - p2\<bar> / min p1 p2 * 100
      then Some \<lparr>pg_buy = (if p1 < p2 then x1 else x2), pg_sell = (if p1 < p2 then x2 else x1),
                 pg_pct = Fin (\<bar>p1 - p2\<bar> / min p1 p2 * 100)\<rparr>
      else None)"
  using assms by (simp add: gap_of_def Let_def py_div_def min_def)

text \<open>
  On positive prices the detector reports exactly the pairs that differ by the threshold, to be bought
  where the price is lower.
\<close>

theorem gaps_are_exact:
  assumes pos: "\<forall>(x, p) \<in> set ps. 0 < p"
    and gaps: "detect_gaps (Fin t) (map (\<lambda>(x, p). (x, Fin p)) ps) = Inr gs"
  shows "set gs = {g. \<exists>i j. i < j \<and> j < length ps \<and>
     (let (x1, p1) = ps ! i; (x2, p2) = ps ! j; d = \<bar>p1 - p2\<bar> / min p1 p2 * 100 in
        t \<le> d \<and> g = \<lparr>pg_buy = (if p1 < p2 then x1 else x2), pg_sell = (if p1 < p2 then x2 else x1), pg_pct = Fin d\<rparr>)}"
proof -
  have "gap_of (Fin t) (map (\<lambda>(x, p). (x, Fin p)) ps ! i) (map (\<lambda>(x, p). (x, Fin p)) ps ! j) = Inr (Some g) \<longleftrightarrow>
     (let (x1, p1) = ps ! i; (x2, p2) = ps ! j; d = \<bar>p1 - p2\<bar> / min p1 p2 * 100 in
        t \<le> d \<and> g = \<lparr>pg_buy = (if p1 < p2 then x1 else x2), pg_sell = (if p1 < p2 then x2 else x1), pg_pct = Fin d\<rparr>)"
    if "i < j" "j < length ps" for g i j
  proof -
    obtain x1 p1 x2 p2 where e: "ps ! i = (x1, p1)" "ps ! j = (x2, p2)" by fastforce
    have "ps ! i \<in> set ps" "ps ! j \<in> set ps" using that by auto
    then have "0 < p1" "0 < p2" using pos by (auto simp: e)
    then show ?thesis using that by (auto simp: e gap_of_positive Let_def)
  qed
  then show ?thesis
    unfolding detect_gaps_set [OF gaps] length_map by (intro Collect_cong ex_cong1) blast
qed

lemma gaps_from_total: "\<forall>(x, p) \<in> set (e # ps). \<exists>r. p = Fin r \<and> 0 < r \<Longrightarrow> \<exists>gs. gaps_from (Fin t) e ps = Inr gs"
proof (induction ps)
  case (Cons f ps)
  then obtain x1 p1 x2 p2 where "e = (x1, Fin p1)" "f = (x2, Fin p2)" "0 < p1" "0 < p2" by (cases e; cases f) auto
  moreover obtain gs where "gaps_from (Fin t) e ps = Inr gs" using Cons by auto
  ultimately show ?case by (simp add: gap_of_positive)
qed simp

theorem gaps_returned: "\<forall>(x, p) \<in> set ps. \<exists>r. p = Fin r \<and> 0 < r \<Longrightarrow> \<exists>gs. detect_gaps (Fin t) ps = Inr gs"
proof (induction ps)
  case (Cons e ps)
  then obtain g1 g2 where "gaps_from (Fin t) e ps = Inr g1" "detect_gaps (Fin t) ps = Inr g2"
    using gaps_from_total [OF Cons.prems, of t] by auto
  then show ?case by simp
qed simp

end
