(* ===== verification/Bar_Backtest.thy ===== *)
theory Bar_Backtest
  imports Py_Statistics
begin

text \<open>
  The bar-by-bar backtester (\<open>backtest.py\<close>). The features of a bar, the signal, the learned model and the
  fusion come from the module \<open>data\<close>, which the repository does not have, and from a trained model: they are
  functions of the index of the bar. A data frame is the list of its bars; the standard deviation of numpy is
  that of the population.
\<close>

section \<open>Bars, rules, positions\<close>

record ohlc =
  oh_open :: pyfloat
  oh_high :: pyfloat
  oh_low :: pyfloat
  oh_close :: pyfloat

record bb_rules =
  bb_ml_threshold :: pyfloat
  bb_fused_threshold :: pyfloat
  bb_stop_mult :: pyfloat
  bb_tp1_mult :: pyfloat
  bb_tp2_mult :: pyfloat
  bb_tp1_frac :: pyfloat
  bb_tp2_frac :: pyfloat
  bb_base_risk :: pyfloat
  bb_time_stop :: int

text \<open>The features of the bars up to an index, the signal found in them, the learned model and the fusion.\<close>

record bb_oracle =
  bo_row :: "nat \<Rightarrow> (string, pyfloat) pydict option"
  bo_signal :: "(string, pyfloat) pydict \<Rightarrow> string option"
  bo_model :: "((string, pyfloat) pydict \<Rightarrow> pyfloat) option"
  bo_fuse :: "(string \<Rightarrow> pyfloat \<Rightarrow> pyfloat \<Rightarrow> pyfloat) option"

record bb_position =
  bp_entry :: pyfloat
  bp_qty :: pyfloat
  bp_initial :: pyfloat
  bp_stop :: pyfloat
  bp_tp1 :: pyfloat
  bp_tp2 :: pyfloat
  bp_atr :: pyfloat
  bp_risk :: pyfloat
  bp_fee :: pyfloat
  bp_tp1_taken :: bool
  bp_tp2_taken :: bool
  bp_trail :: bool
  bp_bar :: nat
  bp_signal :: string

definition taker_fee :: pyfloat where "taker_fee = Fin (1/1000)"
definition bar_slippage :: pyfloat where "bar_slippage = Fin (5/10000)"

section \<open>Exits\<close>

definition take_tp1 :: "bb_rules \<Rightarrow> ohlc \<Rightarrow> bb_position \<Rightarrow> bb_position" where
  "take_tp1 ru bar p =
     (if \<not> bp_tp1_taken p \<and> bp_tp1 p \<le> oh_high bar
      then p\<lparr>bp_tp1_taken := True, bp_qty := bp_qty p * (Fin 1 - bb_tp1_frac ru), bp_trail := True,
             bp_stop := py_max (bp_stop p) (bp_entry p)\<rparr>
      else p)"

definition take_tp2 :: "bb_rules \<Rightarrow> ohlc \<Rightarrow> bb_position \<Rightarrow> bb_position res" where
  "take_tp2 ru bar p =
     (if bp_tp1_taken p \<and> \<not> bp_tp2_taken p \<and> bp_tp2 p \<le> oh_high bar
      then rbind (py_div (bb_tp2_frac ru) (Fin 1 - bb_tp1_frac ru + Fin (1 / 10 ^ 9))) (\<lambda>x.
        Inr (p\<lparr>bp_tp2_taken := True, bp_qty := bp_qty p * (Fin 1 - x)\<rparr>))
      else Inr p)"

definition trail_stop :: "ohlc \<Rightarrow> bb_position \<Rightarrow> bb_position" where
  "trail_stop bar p =
     (if bp_trail p then p\<lparr>bp_stop := py_max (bp_stop p) (oh_high bar - Fin 2 * bp_atr p)\<rparr> else p)"

definition bb_check_exit :: "bb_rules \<Rightarrow> ohlc \<Rightarrow> nat \<Rightarrow> bb_position \<Rightarrow> (bb_position \<times> (pyfloat \<times> string) option) res" where
  "bb_check_exit ru bar i p =
     (if oh_low bar \<le> bp_stop p then Inr (p, Some (bp_stop p, ''STOP''))
      else rbind (take_tp2 ru bar (take_tp1 ru bar p)) (\<lambda>p2.
        let p3 = trail_stop bar p2 in
        if bp_trail p3 \<and> oh_low bar \<le> bp_stop p3 then Inr (p3, Some (bp_stop p3, ''TRAIL_STOP''))
        else if bb_time_stop ru \<le> int i - int (bp_bar p3) \<and> (oh_close bar - bp_entry p3) * bp_qty p3 \<le> Fin 0
        then Inr (p3, Some (oh_close bar * (Fin 1 - bar_slippage), ''TIME_STOP''))
        else Inr (p3, None)))"

definition fill_price_of :: "pyfloat \<Rightarrow> string \<Rightarrow> pyfloat" where
  "fill_price_of price reason =
     (if reason \<in> {''STOP'', ''TRAIL_STOP'', ''TP1'', ''TP2''} then price else price * (Fin 1 - bar_slippage))"

definition bb_close :: "bb_position \<Rightarrow> pyfloat \<Rightarrow> string \<Rightarrow> pyfloat \<Rightarrow> pyfloat \<times> pyfloat" where
  "bb_close p price reason equity =
     (let fill = fill_price_of price reason;
          gross = (fill - bp_entry p) * bp_qty p;
          fee = fill * bp_qty p * taker_fee;
          net = gross - fee - bp_fee p
      in (equity + net, net))"

section \<open>Entries\<close>

definition bb_filters :: "bb_rules \<Rightarrow> bb_oracle \<Rightarrow> (string, pyfloat) pydict \<Rightarrow> string option" where
  "bb_filters ru orc row =
     (case bo_signal orc row of
        None \<Rightarrow> None
      | Some sig \<Rightarrow>
          (let prob = (case bo_model orc of None \<Rightarrow> Fin (1/2) | Some m \<Rightarrow> m row) in
           if bo_model orc \<noteq> None \<and> prob < bb_ml_threshold ru then None
           else (case bo_fuse orc of
                   None \<Rightarrow> Some sig
                 | Some fuse \<Rightarrow>
                     (let imb0 = dict_get row ''ob_imbalance'' (Fin 1);
                          imb = (if imb0 = NaN then Fin 1 else imb0)
                      in if fuse sig prob imb < bb_fused_threshold ru then None else Some sig))))"

text \<open>The position a signal opens at the next bar; too large or too small a cost opens none.\<close>

definition bb_open :: "bb_rules \<Rightarrow> nat \<Rightarrow> (string, pyfloat) pydict \<Rightarrow> string \<Rightarrow> ohlc \<Rightarrow> ohlc \<Rightarrow> pyfloat \<Rightarrow> bb_position option" where
  "bb_open ru i row sig bar nxt equity =
     (let entry = oh_open nxt * (Fin 1 + bar_slippage);
          atr = dict_get row ''atr'' (oh_close bar * Fin (1/100));
          dist = bb_stop_mult ru * atr;
          risk = equity * bb_base_risk ru;
          qty = (if Fin 0 < dist then risk / dist else Fin 0);
          cost = qty * entry;
          fee = cost * taker_fee
      in if equity * Fin (95/100) < cost \<or> cost < Fin 10 then None
         else Some \<lparr>bp_entry = entry, bp_qty = qty, bp_initial = qty, bp_stop = entry - dist,
                    bp_tp1 = entry + bb_tp1_mult ru * atr, bp_tp2 = entry + bb_tp2_mult ru * atr, bp_atr = atr,
                    bp_risk = risk, bp_fee = fee, bp_tp1_taken = False, bp_tp2_taken = False, bp_trail = False,
                    bp_bar = i, bp_signal = sig\<rparr>)"

definition bb_entry :: "bb_rules \<Rightarrow> bb_oracle \<Rightarrow> nat \<Rightarrow> ohlc \<Rightarrow> ohlc \<Rightarrow> pyfloat \<Rightarrow> bb_position option" where
  "bb_entry ru orc i bar nxt equity =
     (case bo_row orc i of
        None \<Rightarrow> None
      | Some row \<Rightarrow>
          (case bb_filters ru orc row of None \<Rightarrow> None | Some sig \<Rightarrow> bb_open ru i row sig bar nxt equity))"

section \<open>The run\<close>

record bb_state =
  bs_equity :: pyfloat
  bs_peak :: pyfloat
  bs_position :: "bb_position option"
  bs_total :: nat
  bs_wins :: nat
  bs_losses :: nat
  bs_gross_wins :: pyfloat
  bs_gross_losses :: pyfloat
  bs_win_r :: pyfloat
  bs_loss_r :: pyfloat
  bs_max_dd :: pyfloat
  bs_returns :: "pyfloat list"
  bs_trades :: "payload list"
  bs_curve :: "pyfloat list"

definition bb_start :: "pyfloat \<Rightarrow> pyfloat list \<Rightarrow> bb_state" where
  "bb_start capital curve =
     \<lparr>bs_equity = capital, bs_peak = capital, bs_position = None, bs_total = 0, bs_wins = 0, bs_losses = 0,
      bs_gross_wins = Fin 0, bs_gross_losses = Fin 0, bs_win_r = Fin 0, bs_loss_r = Fin 0, bs_max_dd = Fin 0,
      bs_returns = [], bs_trades = [], bs_curve = curve\<rparr>"

text \<open>
  The books of a closed trade: the counters, the return relative to the equity, the peak and the drawdown.
  The tick replay keeps the same books.
\<close>

definition bb_book :: "payload \<Rightarrow> bb_position \<Rightarrow> pyfloat \<Rightarrow> pyfloat \<Rightarrow> bb_state \<Rightarrow> bb_state res" where
  "bb_book row p equity pnl s =
     (let r = pnl / py_max (bp_risk p) (Fin (1 / 10 ^ 6));
          peak = py_max (bs_peak s) equity;
          s1 = (if Fin 0 < pnl
                then s\<lparr>bs_wins := Suc (bs_wins s), bs_gross_wins := bs_gross_wins s + pnl, bs_win_r := bs_win_r s + r\<rparr>
                else s\<lparr>bs_losses := Suc (bs_losses s), bs_gross_losses := bs_gross_losses s + \<bar>pnl\<bar>,
                       bs_loss_r := bs_loss_r s + \<bar>r\<bar>\<rparr>)
      in rbind (py_div (peak - equity) peak) (\<lambda>x.
           Inr (s1\<lparr>bs_equity := equity, bs_peak := peak, bs_position := None, bs_total := Suc (bs_total s),
                   bs_max_dd := py_max (bs_max_dd s) (x * Fin 100),
                   bs_returns := bs_returns s @ [pnl / py_max equity (Fin 1)],
                   bs_trades := bs_trades s @ [row]\<rparr>)))"

definition exit_row :: "nat \<Rightarrow> string \<Rightarrow> string \<Rightarrow> pyfloat \<Rightarrow> pyfloat \<Rightarrow> bb_position \<Rightarrow> payload" where
  "exit_row i symb reason price pnl p =
     [(''i'', VInt (int i)), (''symbol'', VStr symb), (''action'', VStr reason), (''price'', VFloat price),
      (''pnl'', VFloat pnl), (''r'', VFloat (pnl / py_max (bp_risk p) (Fin (1 / 10 ^ 6))))]"

definition bb_manage :: "bb_rules \<Rightarrow> string \<Rightarrow> nat \<Rightarrow> ohlc \<Rightarrow> bb_state \<Rightarrow> bb_state res" where
  "bb_manage ru symb i bar s =
     (case bs_position s of
        None \<Rightarrow> Inr s
      | Some p \<Rightarrow>
          rbind (bb_check_exit ru bar i p) (\<lambda>(p1, ex).
            case ex of
              None \<Rightarrow> Inr (s\<lparr>bs_position := Some p1\<rparr>)
            | Some (price, reason) \<Rightarrow>
                (case bb_close p1 price reason (bs_equity s) of
                   (equity, pnl) \<Rightarrow> bb_book (exit_row i symb reason price pnl p1) p1 equity pnl s)))"

text \<open>A bar on which nothing is held and nothing is opened adds no point to the curve.\<close>

definition add_point :: "bb_state \<Rightarrow> bb_state" where
  "add_point s = s\<lparr>bs_curve := bs_curve s @ [bs_equity s]\<rparr>"

definition bb_step :: "bb_rules \<Rightarrow> bb_oracle \<Rightarrow> string \<Rightarrow> nat \<Rightarrow> nat \<Rightarrow> ohlc \<Rightarrow> ohlc \<Rightarrow> bb_state \<Rightarrow> bb_state res" where
  "bb_step ru orc symb n i bar nxt s =
     rbind (bb_manage ru symb i bar s) (\<lambda>s1.
       if bs_position s1 = None \<and> i + 2 < n
       then (case bb_entry ru orc i bar nxt (bs_equity s1) of
               None \<Rightarrow> Inr s1
             | Some p \<Rightarrow> Inr (add_point (s1\<lparr>bs_position := Some p, bs_equity := bs_equity s1 - bp_fee p\<rparr>)))
       else Inr (add_point s1))"

definition warm_up :: nat where "warm_up = 210"

definition bb_loop :: "bb_rules \<Rightarrow> bb_oracle \<Rightarrow> string \<Rightarrow> ohlc list \<Rightarrow> bb_state \<Rightarrow> bb_state res" where
  "bb_loop ru orc symb bars s =
     run_res (\<lambda>s i. bb_step ru orc symb (length bars) i (bars ! i) (bars ! Suc i) s) s [warm_up..<length bars - 1]"

definition bb_force_close :: "ohlc list \<Rightarrow> bb_state \<Rightarrow> bb_state" where
  "bb_force_close bars s =
     (case bs_position s of
        None \<Rightarrow> s
      | Some p \<Rightarrow>
          (case bb_close p (oh_close (List.last bars)) ''END'' (bs_equity s) of
             (equity, pnl) \<Rightarrow>
               (let s1 = (if Fin 0 < pnl
                     then s\<lparr>bs_wins := Suc (bs_wins s), bs_gross_wins := bs_gross_wins s + pnl\<rparr>
                     else s\<lparr>bs_losses := Suc (bs_losses s), bs_gross_losses := bs_gross_losses s + \<bar>pnl\<bar>\<rparr>)
                in s1\<lparr>bs_equity := equity, bs_total := Suc (bs_total s),
                      bs_trades := bs_trades s @ [[(''i'', VInt (int (length bars) - 1)), (''action'', VStr ''END''),
                        (''pnl'', VFloat pnl)]]\<rparr>)))"

section \<open>The result\<close>

record bb_result =
  br_symbol :: string
  br_total :: nat
  br_wins :: nat
  br_losses :: nat
  br_gross_pnl :: pyfloat
  br_net_pnl :: pyfloat
  br_total_fees :: pyfloat
  br_sharpe :: pyfloat
  br_sortino :: pyfloat
  br_max_dd :: pyfloat
  br_profit_factor :: pyfloat
  br_win_rate :: pyfloat
  br_avg_win_r :: pyfloat
  br_avg_loss_r :: pyfloat
  br_expectancy :: pyfloat
  br_trades :: "payload list"
  br_curve :: "pyfloat list"

definition empty_result :: "string \<Rightarrow> pyfloat list \<Rightarrow> bb_result" where
  "empty_result symb curve =
     \<lparr>br_symbol = symb, br_total = 0, br_wins = 0, br_losses = 0, br_gross_pnl = Fin 0, br_net_pnl = Fin 0,
      br_total_fees = Fin 0, br_sharpe = Fin 0, br_sortino = Fin 0, br_max_dd = Fin 0, br_profit_factor = Fin 0,
      br_win_rate = Fin 0, br_avg_win_r = Fin 0, br_avg_loss_r = Fin 0, br_expectancy = Fin 0, br_trades = [],
      br_curve = curve\<rparr>"

text \<open>A division of numpy, which gives a not-a-number or infinite value where Python raises, is guarded.\<close>

definition bb_sharpe :: "pyfloat list \<Rightarrow> pyfloat" where
  "bb_sharpe rs =
     (if length rs < 5 then Fin 0
      else (let sd = pstdev rs in if sd = Fin 0 then Fin 0 else py_mean rs / sd * py_sqrt (Fin 252)))"

definition bb_sortino :: "pyfloat list \<Rightarrow> pyfloat" where
  "bb_sortino rs =
     (if length rs < 5 then Fin 0
      else (let down = filter (\<lambda>r. r < Fin 0) rs in
            if down = [] then PInf
            else (let sd = pstdev down in if sd = Fin 0 then Fin 0 else py_mean rs / sd * py_sqrt (Fin 252))))"

definition per_count :: "pyfloat \<Rightarrow> nat \<Rightarrow> pyfloat" where
  "per_count x n = (if 0 < n then x / Fin (real n) else x)"

definition bb_statistics :: "string \<Rightarrow> pyfloat \<Rightarrow> bb_state \<Rightarrow> bb_result" where
  "bb_statistics symb capital s =
     (let net = bs_equity s - capital;
          gross = bs_gross_wins s - bs_gross_losses s;
          rate = (if 0 < bs_total s then Fin (real (bs_wins s) / real (bs_total s)) else Fin 0);
          aw = per_count (bs_win_r s) (bs_wins s);
          al = per_count (bs_loss_r s) (bs_losses s)
      in \<lparr>br_symbol = symb, br_total = bs_total s, br_wins = bs_wins s, br_losses = bs_losses s,
          br_gross_pnl = gross, br_net_pnl = net, br_total_fees = gross - net,
          br_sharpe = bb_sharpe (bs_returns s), br_sortino = bb_sortino (bs_returns s), br_max_dd = bs_max_dd s,
          br_profit_factor = bs_gross_wins s / py_max (bs_gross_losses s) (Fin (1 / 10 ^ 10)),
          br_win_rate = rate, br_avg_win_r = aw, br_avg_loss_r = al,
          br_expectancy = (if 0 < bs_total s then rate * aw - (Fin 1 - rate) * al else Fin 0),
          br_trades = bs_trades s, br_curve = bs_curve s\<rparr>)"

definition bb_run :: "bb_rules \<Rightarrow> bb_oracle \<Rightarrow> string \<Rightarrow> pyfloat \<Rightarrow> ohlc list \<Rightarrow> bb_result res" where
  "bb_run ru orc symb capital bars =
     (if length bars < warm_up + 20 then Inr (empty_result symb [capital])
      else rbind (bb_loop ru orc symb bars (bb_start capital [capital])) (\<lambda>s.
        Inr (bb_statistics symb capital (bb_force_close bars s))))"

definition live_failures :: "bb_result \<Rightarrow> string list" where
  "live_failures r =
     (if br_sharpe r < Fin (3/2) then [''Sharpe''] else []) @
     (if Fin 15 < br_max_dd r then [''MaxDD''] else []) @
     (if br_profit_factor r < Fin (3/2) then [''ProfitFactor''] else []) @
     (if br_total r < 30 then [''Trades''] else [])"

definition meets_live_criteria :: "bb_result \<Rightarrow> bool" where
  "meets_live_criteria r \<longleftrightarrow> live_failures r = []"

text \<open>The batch over several symbols: those without enough bars are skipped.\<close>

fun bb_batch :: "bb_rules \<Rightarrow> (string \<Rightarrow> bb_oracle) \<Rightarrow> pyfloat \<Rightarrow> (string \<times> ohlc list option) list \<Rightarrow> (string \<times> bb_result) list res" where
  "bb_batch ru orc capital [] = Inr []"
| "bb_batch ru orc capital ((symb, frame) # rest) =
     (case frame of
        None \<Rightarrow> bb_batch ru orc capital rest
      | Some bars \<Rightarrow>
          (if length bars < 250 then bb_batch ru orc capital rest
           else rbind (bb_run ru (orc symb) symb capital bars) (\<lambda>r.
             rbind (bb_batch ru orc capital rest) (\<lambda>rs. Inr ((symb, r) # rs)))))"

section \<open>Finite data\<close>

definition bar_fin :: "ohlc \<Rightarrow> bool" where
  "bar_fin b \<longleftrightarrow> is_fin (oh_open b) \<and> is_fin (oh_high b) \<and> is_fin (oh_low b) \<and> is_fin (oh_close b)"

definition rules_fin :: "bb_rules \<Rightarrow> bool" where
  "rules_fin ru \<longleftrightarrow> is_fin (bb_stop_mult ru) \<and> is_fin (bb_tp1_mult ru) \<and> is_fin (bb_tp2_mult ru) \<and>
     is_fin (bb_tp1_frac ru) \<and> is_fin (bb_tp2_frac ru) \<and> is_fin (bb_base_risk ru) \<and>
     Fin 1 - bb_tp1_frac ru + Fin (1 / 10 ^ 9) \<noteq> Fin 0"

definition pos_fin :: "bb_position \<Rightarrow> bool" where
  "pos_fin p \<longleftrightarrow> is_fin (bp_entry p) \<and> is_fin (bp_qty p) \<and> is_fin (bp_stop p) \<and> is_fin (bp_tp1 p) \<and>
     is_fin (bp_tp2 p) \<and> is_fin (bp_atr p) \<and> is_fin (bp_risk p) \<and> is_fin (bp_fee p)"

definition oracle_fin :: "bb_oracle \<Rightarrow> bool" where
  "oracle_fin orc \<longleftrightarrow> (\<forall>i row. bo_row orc i = Some row \<longrightarrow> (\<forall>k x. map_of row k = Some x \<longrightarrow> is_fin x))"

lemma is_fin_max [simp]: "is_fin a \<Longrightarrow> is_fin b \<Longrightarrow> is_fin (py_max a b)"
  by (simp add: py_max_def)

lemma take_tp1_fin: "rules_fin ru \<Longrightarrow> pos_fin p \<Longrightarrow> pos_fin (take_tp1 ru bar p)"
  by (simp add: take_tp1_def pos_fin_def rules_fin_def)

lemma take_tp2_fin:
  assumes "rules_fin ru" "pos_fin p"
  obtains p' where "take_tp2 ru bar p = Inr p'" "pos_fin p'"
proof -
  have "is_fin (bb_tp2_frac ru / (Fin 1 - bb_tp1_frac ru + Fin (1 / 10 ^ 9)))"
    using assms(1) unfolding rules_fin_def by (intro is_fin_divide) simp_all
  then have "is_fin (bp_qty p * (Fin 1 - bb_tp2_frac ru / (Fin 1 - bb_tp1_frac ru + Fin (1 / 10 ^ 9))))"
    using assms(2) by (simp add: pos_fin_def)
  then have "\<exists>p'. take_tp2 ru bar p = Inr p' \<and> pos_fin p'"
    using assms by (simp add: take_tp2_def pos_fin_def rules_fin_def)
  with that show thesis by blast
qed

lemma trail_stop_fin: "bar_fin bar \<Longrightarrow> pos_fin p \<Longrightarrow> pos_fin (trail_stop bar p)"
  by (simp add: trail_stop_def pos_fin_def bar_fin_def)

lemma bb_check_exit_fin:
  assumes "rules_fin ru" "bar_fin bar" "pos_fin p"
  obtains p' ex where "bb_check_exit ru bar i p = Inr (p', ex)" "pos_fin p'"
    "\<forall>x r. ex = Some (x, r) \<longrightarrow> is_fin x"
proof -
  obtain p2 where p2: "take_tp2 ru bar (take_tp1 ru bar p) = Inr p2" "pos_fin p2"
    by (rule take_tp2_fin [OF assms(1) take_tp1_fin [OF assms(1,3)]])
  let ?p3 = "trail_stop bar p2"
  have p3: "pos_fin ?p3" by (rule trail_stop_fin [OF assms(2) p2(2)])
  have "is_fin (oh_close bar * (Fin 1 - bar_slippage))" using assms(2) by (simp add: bar_fin_def bar_slippage_def)
  then have "\<exists>p' ex. bb_check_exit ru bar i p = Inr (p', ex) \<and> pos_fin p' \<and> (\<forall>x r. ex = Some (x, r) \<longrightarrow> is_fin x)"
    using p3 assms(3) by (simp add: bb_check_exit_def p2(1) Let_def pos_fin_def)
  then show thesis using that by blast
qed

lemma bb_open_fin:
  assumes "rules_fin ru" "bar_fin bar" "bar_fin nxt" "is_fin equity" "\<forall>k x. map_of row k = Some x \<longrightarrow> is_fin x"
    and "bb_open ru i row sig bar nxt equity = Some p"
  shows "pos_fin p"
proof -
  let ?atr = "dict_get row ''atr'' (oh_close bar * Fin (1/100))"
  have atr: "is_fin ?atr" using assms(2,5) by (auto simp: dict_get_def bar_fin_def split: option.splits)
  have "is_fin (if Fin 0 < bb_stop_mult ru * ?atr then equity * bb_base_risk ru / (bb_stop_mult ru * ?atr) else Fin 0)"
    using assms(1,4) atr by (auto simp: rules_fin_def intro!: is_fin_divide)
  then show ?thesis
    using assms atr by (auto simp: bb_open_def Let_def pos_fin_def rules_fin_def bar_fin_def bar_slippage_def
        taker_fee_def split: if_splits)
qed

lemma bb_entry_fin:
  assumes "rules_fin ru" "oracle_fin orc" "bar_fin bar" "bar_fin nxt" "is_fin equity"
    and "bb_entry ru orc i bar nxt equity = Some p"
  shows "pos_fin p"
proof -
  obtain row sig where row: "bo_row orc i = Some row" and op: "bb_open ru i row sig bar nxt equity = Some p"
    using assms(6) by (auto simp: bb_entry_def split: option.splits)
  have "\<forall>k x. map_of row k = Some x \<longrightarrow> is_fin x" using assms(2) row unfolding oracle_fin_def by blast
  then show ?thesis using bb_open_fin [OF assms(1,3,4,5) _ op] by blast
qed

section \<open>The books of a run\<close>

text \<open>
  The equity is the capital with the gross wins and without the gross losses and a sum of fees; the
  counters add up, and the peak is positive, so that no drawdown divides by zero.
\<close>

definition books_balance :: "real \<Rightarrow> real \<Rightarrow> bb_state \<Rightarrow> bool" where
  "books_balance capital fees s \<longleftrightarrow>
     is_fin (bs_equity s) \<and> is_fin (bs_gross_wins s) \<and> is_fin (bs_gross_losses s) \<and> is_fin (bs_peak s) \<and>
     val_of (bs_equity s) = capital + val_of (bs_gross_wins s) - val_of (bs_gross_losses s) - fees \<and>
     0 < val_of (bs_peak s) \<and> bs_total s = bs_wins s + bs_losses s \<and> length (bs_trades s) = bs_total s \<and>
     (\<forall>p. bs_position s = Some p \<longrightarrow> pos_fin p)"

lemma bb_close_fin:
  assumes "pos_fin p" "is_fin price" "is_fin equity"
  obtains pnl where "bb_close p price reason equity = (equity + pnl, pnl)" "is_fin pnl"
  using assms by (auto simp: bb_close_def Let_def fill_price_of_def bar_slippage_def taker_fee_def pos_fin_def)

lemma bb_book_balance:
  assumes "books_balance capital fees s" "is_fin pnl" "pos_fin p"
  obtains s' where "bb_book row p (bs_equity s + pnl) pnl s = Inr s'" "books_balance capital fees s'"
    "bs_position s' = None"
proof -
  obtain e gw gl pk x where fin: "bs_equity s = Fin e" "bs_gross_wins s = Fin gw" "bs_gross_losses s = Fin gl"
    "bs_peak s = Fin pk" "pnl = Fin x" using assms(1,2) by (auto simp: books_balance_def is_fin_iff)
  have pk: "0 < pk" using assms(1) by (simp add: books_balance_def fin)
  then have peak: "max pk (e + x) \<noteq> 0" by auto
  have eq: "e = capital + gw - gl - fees" using assms(1) by (simp add: books_balance_def fin)
  have "\<exists>s'. bb_book row p (bs_equity s + pnl) pnl s = Inr s' \<and> books_balance capital fees s' \<and> bs_position s' = None"
    using assms(1) pk peak eq by (simp add: bb_book_def Let_def fin books_balance_def less_max_iff_disj)
  then show thesis using that by blast
qed

lemma bb_manage_balance:
  assumes "rules_fin ru" "bar_fin bar" "books_balance capital fees s"
  obtains s' where "bb_manage ru symb i bar s = Inr s'" "books_balance capital fees s'"
proof (cases "bs_position s")
  case None
  with that assms(3) show thesis by (simp add: bb_manage_def)
next
  case (Some p)
  then have p: "pos_fin p" using assms(3) by (simp add: books_balance_def)
  obtain p1 ex where ce: "bb_check_exit ru bar i p = Inr (p1, ex)" "pos_fin p1" "\<forall>x r. ex = Some (x, r) \<longrightarrow> is_fin x"
    by (rule bb_check_exit_fin [OF assms(1,2) p, where i = i])
  show thesis
  proof (cases ex)
    case None
    with that [of "s\<lparr>bs_position := Some p1\<rparr>"] Some ce assms(3) show thesis by (simp add: bb_manage_def books_balance_def)
  next
    case ex: (Some pr)
    obtain price reason where pr: "pr = (price, reason)" by (cases pr)
    have "is_fin price" using ce(3) ex pr by blast
    moreover have "is_fin (bs_equity s)" using assms(3) by (simp add: books_balance_def)
    ultimately obtain pnl where cl: "bb_close p1 price reason (bs_equity s) = (bs_equity s + pnl, pnl)" "is_fin pnl"
      by (rule bb_close_fin [OF ce(2)])
    obtain s' where "bb_book (exit_row i symb reason price pnl p1) p1 (bs_equity s + pnl) pnl s = Inr s'"
      "books_balance capital fees s'" by (rule bb_book_balance [OF assms(3) cl(2) ce(2)])
    with that Some ce(1) ex pr cl(1) show thesis by (simp add: bb_manage_def)
  qed
qed

text \<open>The entry fee a bar charges, and those of a run.\<close>

definition step_fee :: "bb_rules \<Rightarrow> bb_oracle \<Rightarrow> string \<Rightarrow> nat \<Rightarrow> nat \<Rightarrow> ohlc \<Rightarrow> ohlc \<Rightarrow> bb_state \<Rightarrow> real" where
  "step_fee ru orc symb n i bar nxt s =
     (case bb_manage ru symb i bar s of
        Inl _ \<Rightarrow> 0
      | Inr s1 \<Rightarrow>
          (if bs_position s1 = None \<and> i + 2 < n
           then (case bb_entry ru orc i bar nxt (bs_equity s1) of None \<Rightarrow> 0 | Some p \<Rightarrow> val_of (bp_fee p))
           else 0))"

fun entry_fees :: "bb_rules \<Rightarrow> bb_oracle \<Rightarrow> string \<Rightarrow> ohlc list \<Rightarrow> nat list \<Rightarrow> bb_state \<Rightarrow> real" where
  "entry_fees ru orc symb bars [] s = 0"
| "entry_fees ru orc symb bars (i # is) s =
     step_fee ru orc symb (length bars) i (bars ! i) (bars ! Suc i) s +
     (case bb_step ru orc symb (length bars) i (bars ! i) (bars ! Suc i) s of
        Inl _ \<Rightarrow> 0
      | Inr s1 \<Rightarrow> entry_fees ru orc symb bars is s1)"

lemma add_point_balance [simp]: "books_balance capital fees (add_point s) = books_balance capital fees s"
  by (simp add: add_point_def books_balance_def)

lemma enter_balance:
  assumes "books_balance capital fees s" "pos_fin p"
  shows "books_balance capital (fees + val_of (bp_fee p)) (s\<lparr>bs_position := Some p, bs_equity := bs_equity s - bp_fee p\<rparr>)"
  using assms by (simp add: books_balance_def pos_fin_def)

lemma bb_step_balance:
  assumes "rules_fin ru" "oracle_fin orc" "bar_fin bar" "bar_fin nxt" "books_balance capital fees s"
  obtains s' where "bb_step ru orc symb n i bar nxt s = Inr s'"
    "books_balance capital (fees + step_fee ru orc symb n i bar nxt s) s'"
proof -
  obtain s1 where s1: "bb_manage ru symb i bar s = Inr s1" "books_balance capital fees s1"
    by (rule bb_manage_balance [OF assms(1,3,5)])
  have eq: "is_fin (bs_equity s1)" using s1(2) by (simp add: books_balance_def)
  have "pos_fin p" if "bb_entry ru orc i bar nxt (bs_equity s1) = Some p" for p
    by (rule bb_entry_fin [OF assms(1-4) eq that])
  then have "\<exists>s'. bb_step ru orc symb n i bar nxt s = Inr s' \<and>
      books_balance capital (fees + step_fee ru orc symb n i bar nxt s) s'"
    using s1(2) by (auto simp: bb_step_def step_fee_def s1(1) enter_balance split: option.splits)
  then show thesis using that by blast
qed

lemma bb_loop_balance:
  assumes "rules_fin ru" "oracle_fin orc" "list_all bar_fin bars"
    and "\<forall>i \<in> set is. Suc i < length bars" "books_balance capital fees s"
  shows "\<exists>s'. run_res (\<lambda>s i. bb_step ru orc symb (length bars) i (bars ! i) (bars ! Suc i) s) s is = Inr s' \<and>
    books_balance capital (fees + entry_fees ru orc symb bars is s) s'"
  using assms(4,5)
proof (induction "is" arbitrary: s fees)
  case (Cons i js)
  then have "bar_fin (bars ! i)" "bar_fin (bars ! Suc i)" using assms(3) by (auto simp: list_all_iff)
  then obtain s1 where s1: "bb_step ru orc symb (length bars) i (bars ! i) (bars ! Suc i) s = Inr s1"
    "books_balance capital (fees + step_fee ru orc symb (length bars) i (bars ! i) (bars ! Suc i) s) s1"
    using bb_step_balance [OF assms(1,2) _ _ Cons.prems(2)] by metis
  then show ?case using Cons.IH [OF _ s1(2)] Cons.prems(1) by (simp add: add.assoc)
qed simp

lemma bb_force_close_balance:
  assumes "books_balance capital fees s" "is_fin (oh_close (List.last bars))"
  shows "books_balance capital fees (bb_force_close bars s)"
proof (cases "bs_position s")
  case None
  with assms show ?thesis by (simp add: bb_force_close_def)
next
  case (Some p)
  then have p: "pos_fin p" and e: "is_fin (bs_equity s)" using assms(1) by (simp_all add: books_balance_def)
  obtain pnl where cl: "bb_close p (oh_close (List.last bars)) ''END'' (bs_equity s) = (bs_equity s + pnl, pnl)" "is_fin pnl"
    by (rule bb_close_fin [OF p assms(2) e])
  then obtain x where x: "pnl = Fin x" by (auto simp: is_fin_iff)
  show ?thesis using assms(1) cl Some p by (auto simp: bb_force_close_def Let_def books_balance_def x)
qed

lemma start_balance: "0 < capital \<Longrightarrow> books_balance capital 0 (bb_start (Fin capital) curve)"
  by (simp add: books_balance_def bb_start_def)

text \<open>
  A run over finite data always returns. Its net result is the gross one, in which every trade already
  carries both of its fees, less the entry fees once more; the fees it reports are just these.
\<close>

theorem backtest_charges_entries_twice:
  assumes "rules_fin ru" "oracle_fin orc" "list_all bar_fin bars" "0 < capital" "230 \<le> length bars"
  shows "\<exists>r gross. bb_run ru orc symb (Fin capital) bars = Inr r \<and> br_gross_pnl r = Fin gross \<and>
    br_total_fees r = Fin (entry_fees ru orc symb bars [210..<length bars - 1] (bb_start (Fin capital) [Fin capital])) \<and>
    br_net_pnl r = Fin (gross - entry_fees ru orc symb bars [210..<length bars - 1] (bb_start (Fin capital) [Fin capital])) \<and>
    br_total r = br_wins r + br_losses r \<and> length (br_trades r) = br_total r"
proof -
  let ?s0 = "bb_start (Fin capital) [Fin capital]" and ?is = "[210..<length bars - 1]"
  let ?f = "entry_fees ru orc symb bars ?is ?s0"
  have "\<forall>i \<in> set ?is. Suc i < length bars" by auto
  from bb_loop_balance [OF assms(1-3) this start_balance [OF assms(4)], of symb "[Fin capital]"] obtain s where
    s: "bb_loop ru orc symb bars ?s0 = Inr s" "books_balance capital ?f s"
    by (auto simp: bb_loop_def warm_up_def)
  have "List.last bars \<in> set bars" using assms(5) by (intro last_in_set) auto
  then have "is_fin (oh_close (List.last bars))" using assms(3) by (auto simp: list_all_iff bar_fin_def)
  note fin = bb_force_close_balance [OF s(2) this]
  let ?t = "bb_force_close bars s"
  obtain e gw gl where eq: "bs_equity ?t = Fin e" "bs_gross_wins ?t = Fin gw" "bs_gross_losses ?t = Fin gl"
    using fin by (auto simp: books_balance_def is_fin_iff)
  then have "e = capital + gw - gl - ?f" "bs_total ?t = bs_wins ?t + bs_losses ?t" "length (bs_trades ?t) = bs_total ?t"
    using fin by (auto simp: books_balance_def)
  moreover have "bb_run ru orc symb (Fin capital) bars = Inr (bb_statistics symb (Fin capital) ?t)"
    using assms(5) by (simp add: bb_run_def warm_up_def s(1))
  ultimately show ?thesis by (simp add: bb_statistics_def Let_def eq)
qed

section \<open>What the fills assume\<close>

text \<open>
  Where the first target is reached and the position stays open, the quantity shrinks and nothing is
  booked: the equity keeps neither the proceeds nor the profit of the part that was sold.
\<close>

theorem partial_profit_is_not_booked:
  assumes pos: "bs_position s = Some p" "\<not> bp_tp1_taken p" "bp_tp1 p \<le> oh_high bar"
    and kept: "bb_manage ru symb i bar s = Inr s'" "bs_position s' = Some p'" and late: "\<not> bp_tp2 p \<le> oh_high bar"
  shows "bp_qty p' = bp_qty p * (Fin 1 - bb_tp1_frac ru) \<and> s' = s\<lparr>bs_position := Some p'\<rparr>"
proof -
  have t1: "take_tp1 ru bar p = p\<lparr>bp_tp1_taken := True, bp_qty := bp_qty p * (Fin 1 - bb_tp1_frac ru), bp_trail := True,
      bp_stop := py_max (bp_stop p) (bp_entry p)\<rparr>" (is "_ = ?p1") using pos by (simp add: take_tp1_def)
  have t2: "take_tp2 ru bar ?p1 = Inr ?p1" using late by (simp add: take_tp2_def)
  obtain q ex where q: "bb_check_exit ru bar i p = Inr (q, ex)"
    "(case ex of None \<Rightarrow> Inr (s\<lparr>bs_position := Some q\<rparr>)
      | Some (price, reason) \<Rightarrow>
          (case bb_close q price reason (bs_equity s) of
             (equity, pnl) \<Rightarrow> bb_book (exit_row i symb reason price pnl q) q equity pnl s)) = Inr s'"
    using kept(1) pos(1) by (auto simp: bb_manage_def rbind_Inr_iff)
  have "ex = None"
  proof (rule ccontr)
    assume "ex \<noteq> None"
    then have "bs_position s' = None"
      using q(2) by (auto simp: bb_book_def Let_def rbind_Inr_iff split: prod.splits)
    with kept(2) show False by simp
  qed
  then have "bp_qty q = bp_qty ?p1"
    using q(1) by (auto simp: bb_check_exit_def t1 t2 Let_def trail_stop_def split: if_splits)
  then show ?thesis using q(2) \<open>ex = None\<close> kept(2) by auto
qed

text \<open>A bar wholly below the stop still fills at the stop, a price nobody traded at.\<close>

theorem stop_fills_above_the_market:
  assumes "oh_low bar \<le> oh_high bar" "oh_high bar < bp_stop p"
  shows "bb_check_exit ru bar i p = Inr (p, Some (bp_stop p, ''STOP''))" "oh_high bar < fill_price_of (bp_stop p) ''STOP''"
proof -
  have "oh_low bar \<le> bp_stop p" using assms by (meson pyfloat_le_trans pyfloat_less_le)
  then show "bb_check_exit ru bar i p = Inr (p, Some (bp_stop p, ''STOP''))" by (simp add: bb_check_exit_def)
  show "oh_high bar < fill_price_of (bp_stop p) ''STOP''" using assms(2) by (simp add: fill_price_of_def)
qed

text \<open>A time stop pays the slippage twice.\<close>

lemma time_stop_slips_twice:
  "bb_check_exit ru bar i p = Inr (q, Some (x, ''TIME_STOP'')) \<Longrightarrow>
   fill_price_of x ''TIME_STOP'' = oh_close bar * (Fin 1 - bar_slippage) * (Fin 1 - bar_slippage)"
  by (auto simp: bb_check_exit_def rbind_Inr_iff Let_def fill_price_of_def split: if_splits)

text \<open>The stop of a position is never lowered.\<close>

lemma take_tp_stop:
  assumes "is_num (bp_stop p)"
  shows "bp_stop p \<le> bp_stop (take_tp1 ru bar p)" "take_tp2 ru bar q = Inr q' \<Longrightarrow> bp_stop q' = bp_stop q"
  using assms by (auto simp: take_tp1_def take_tp2_def py_max_ge rbind_Inr_iff split: if_splits)

theorem stop_is_never_lowered:
  assumes "bb_check_exit ru bar i p = Inr (p', ex)" "is_num (bp_stop p)"
  shows "bp_stop p \<le> bp_stop p'"
proof (cases "oh_low bar \<le> bp_stop p")
  case True
  with assms show ?thesis by (auto simp: bb_check_exit_def)
next
  case False
  then obtain q where q: "take_tp2 ru bar (take_tp1 ru bar p) = Inr q" "p' = trail_stop bar q"
    using assms(1) by (auto simp: bb_check_exit_def rbind_Inr_iff Let_def split: if_splits)
  have le: "bp_stop p \<le> bp_stop q" using take_tp_stop [OF assms(2)] q(1) by metis
  then have "bp_stop q \<le> bp_stop p'" using pyfloat_leD_num [OF le] by (simp add: q(2) trail_stop_def py_max_ge)
  with le show ?thesis by (rule pyfloat_le_trans)
qed

end
