(* ===== verification/Tick_Replay.thy ===== *)
theory Tick_Replay
  imports Bar_Backtest Py_Sequences
begin

text \<open>
  The store of ticks (\<open>TickDB\<close> of \<open>db.py\<close>) and the tick-level backtester built on it (\<open>tick_replay.py\<close>):
  simulated fills, exits on the ticks of a bar, the run. A table of the database is the list of its rows in
  the order of insertion; the draws of the random generator are arguments, those of a run given for each bar.
\<close>

section \<open>The store of ticks\<close>

record tick_row =
  tk_ts :: int
  tk_price :: pyfloat
  tk_qty :: pyfloat
  tk_side :: string

type_synonym tick_db = "(string, tick_row list) pydict"

definition tick_table :: "string \<Rightarrow> string" where
  "tick_table symb = ''ticks_'' @ map (\<lambda>c. if c = CHR ''/'' \<or> c = CHR ''-'' then CHR ''_'' else c) symb"

definition ensure_table :: "string \<Rightarrow> tick_db \<Rightarrow> tick_db" where
  "ensure_table symb db = (if map_of db (tick_table symb) = None then dict_set (tick_table symb) [] db else db)"

text \<open>SQLite stores a not-a-number as NULL, which the columns refuse.\<close>

definition insert_tick :: "string \<Rightarrow> int \<Rightarrow> pyfloat \<Rightarrow> pyfloat \<Rightarrow> string \<Rightarrow> tick_db \<Rightarrow> tick_db \<times> unit res" where
  "insert_tick symb ts price qty side db =
     (let db1 = ensure_table symb db in
      if price = NaN \<or> qty = NaN then (db1, Inl (OtherError (text_msg ''NOT NULL constraint failed'')))
      else (dict_set (tick_table symb)
              (dict_get db1 (tick_table symb) [] @ [\<lparr>tk_ts = ts, tk_price = price, tk_qty = qty, tk_side = side\<rparr>]) db1,
            Inr ()))"

definition by_time :: "tick_row list \<Rightarrow> tick_row list" where
  "by_time = sort_by (\<lambda>a b. tk_ts a < tk_ts b)"

definition get_ticks :: "string \<Rightarrow> int \<Rightarrow> nat \<Rightarrow> tick_db \<Rightarrow> tick_db \<times> tick_row list" where
  "get_ticks symb since limit db =
     (let db1 = ensure_table symb db in
      (db1, take limit (by_time (filter (\<lambda>t. since < tk_ts t) (dict_get db1 (tick_table symb) [])))))"

section \<open>Simulated fills\<close>

record sim_fill =
  sf_ts :: int
  sf_price :: pyfloat
  sf_qty :: pyfloat
  sf_side :: string
  sf_latency :: pyfloat
  sf_queue :: nat
  sf_partial :: bool

abbreviation ts_float :: "tick_row \<Rightarrow> pyfloat" where
  "ts_float t \<equiv> Fin (of_int (tk_ts t))"

definition latency_of :: "pyfloat \<Rightarrow> pyfloat" where
  "latency_of draw = py_max (Fin 1) draw"

definition market_fill :: "pyfloat \<Rightarrow> pyfloat \<Rightarrow> tick_row list \<Rightarrow> string \<Rightarrow> pyfloat \<Rightarrow> int \<Rightarrow> sim_fill option" where
  "market_fill draw slip ticks side qty request =
     (let latency = latency_of draw; target = Fin (of_int request) + latency in
      case filter (\<lambda>t. target \<le> ts_float t) ticks of
        [] \<Rightarrow> None
      | t # _ \<Rightarrow>
          Some \<lparr>sf_ts = tk_ts t, sf_price = tk_price t * (if side = ''buy'' then Fin 1 + slip else Fin 1 - slip),
                sf_qty = qty, sf_side = side, sf_latency = latency, sf_queue = 0, sf_partial = False\<rparr>)"

definition through_limit :: "string \<Rightarrow> pyfloat \<Rightarrow> tick_row \<Rightarrow> bool" where
  "through_limit side price t \<longleftrightarrow>
     (side = ''buy'' \<and> tk_price t \<le> price) \<or> (side = ''sell'' \<and> price \<le> tk_price t)"

fun scan_limit :: "string \<Rightarrow> pyfloat \<Rightarrow> pyfloat \<Rightarrow> pyfloat \<Rightarrow> pyfloat \<Rightarrow> pyfloat \<Rightarrow> tick_row list \<Rightarrow> tick_row option" where
  "scan_limit side price placed expire ahead seen [] = None"
| "scan_limit side price placed expire ahead seen (t # ts) =
     (if ts_float t < placed then scan_limit side price placed expire ahead seen ts
      else if expire < ts_float t then None
      else if through_limit side price t
      then (let seen1 = seen + tk_qty t in
            if ahead \<le> seen1 then Some t else scan_limit side price placed expire ahead seen1 ts)
      else scan_limit side price placed expire ahead seen ts)"

definition limit_fill ::
  "pyfloat \<Rightarrow> nat \<Rightarrow> tick_row list \<Rightarrow> string \<Rightarrow> pyfloat \<Rightarrow> pyfloat \<Rightarrow> int \<Rightarrow> pyfloat \<Rightarrow> sim_fill option" where
  "limit_fill draw queue ticks side qty price request timeout =
     (let latency = latency_of draw; placed = Fin (of_int request) + latency; ahead = Fin (real queue) * (qty * Fin (1/5)) in
      map_option (\<lambda>t. \<lparr>sf_ts = tk_ts t, sf_price = price, sf_qty = qty, sf_side = side, sf_latency = latency,
                       sf_queue = queue, sf_partial = False\<rparr>)
        (scan_limit side price placed (placed + timeout) ahead (Fin 0) ticks))"

section \<open>Exits on ticks\<close>

definition tick_targets :: "pyfloat \<Rightarrow> bb_position \<Rightarrow> bb_position" where
  "tick_targets x p =
     (let p1 = (if \<not> bp_tp1_taken p \<and> bp_tp1 p \<le> x
                then p\<lparr>bp_tp1_taken := True, bp_stop := py_max (bp_stop p) (bp_entry p)\<rparr> else p)
      in if bp_tp1_taken p1 \<and> \<not> bp_tp2_taken p1 \<and> bp_tp2 p1 \<le> x then p1\<lparr>bp_tp2_taken := True\<rparr> else p1)"

fun exit_on_ticks :: "bb_position \<Rightarrow> tick_row list \<Rightarrow> bb_position \<times> (pyfloat \<times> string) option" where
  "exit_on_ticks p [] = (p, None)"
| "exit_on_ticks p (t # ts) =
     (if tk_price t \<le> bp_stop p then (p, Some (tk_price t, ''STOP''))
      else
        (let p1 = tick_targets (tk_price t) p in
         if bp_tp1_taken p1
         then (let p2 = p1\<lparr>bp_stop := py_max (bp_stop p1) (tk_price t - Fin 2 * bp_atr p1)\<rparr> in
               if tk_price t \<le> bp_stop p2 then (p2, Some (bp_stop p2, ''TRAIL_STOP'')) else exit_on_ticks p2 ts)
         else exit_on_ticks p1 ts))"

definition check_exit_tick :: "bb_position \<Rightarrow> tick_row list \<Rightarrow> bb_position \<times> (pyfloat \<times> string) option" where
  "check_exit_tick p ticks = exit_on_ticks p (by_time ticks)"

section \<open>The run\<close>

definition maker_fee :: pyfloat where "maker_fee = Fin (2/10000)"

record tick_bar = ohlc +
  tb_ts :: int

record draws =
  dr_limit :: pyfloat
  dr_queue :: nat
  dr_market :: pyfloat
  dr_slip :: pyfloat

definition tick_filters :: "bb_rules \<Rightarrow> bb_oracle \<Rightarrow> (string, pyfloat) pydict \<Rightarrow> string option" where
  "tick_filters ru orc row =
     (case bo_signal orc row of
        None \<Rightarrow> None
      | Some sig \<Rightarrow>
          (if (case bo_model orc of None \<Rightarrow> Fin (1/2) | Some m \<Rightarrow> m row) < bb_ml_threshold ru then None else Some sig))"

text \<open>The entry: a limit order just under the close, else a market order, and the rate of the fee.\<close>

definition entry_fill :: "draws \<Rightarrow> tick_row list \<Rightarrow> pyfloat \<Rightarrow> int \<Rightarrow> sim_fill option \<times> pyfloat" where
  "entry_fill d ticks price request =
     (if ticks \<noteq> []
      then (let f = (case limit_fill (dr_limit d) (dr_queue d) ticks ''buy'' (Fin 1) (price * Fin (9999/10000)) request (Fin 10000) of
                       Some f \<Rightarrow> Some f
                     | None \<Rightarrow> market_fill (dr_market d) (dr_slip d) ticks ''buy'' (Fin 1) request)
            in (f, case f of Some x \<Rightarrow> (if sf_partial x then taker_fee else maker_fee) | None \<Rightarrow> taker_fee))
      else (market_fill (dr_market d) (dr_slip d) [] ''buy'' (Fin 1) request, taker_fee))"

definition tick_open :: "bb_rules \<Rightarrow> nat \<Rightarrow> (string, pyfloat) pydict \<Rightarrow> string \<Rightarrow> draws \<Rightarrow> tick_row list \<Rightarrow> tick_bar \<Rightarrow> pyfloat \<Rightarrow> bb_position option" where
  "tick_open ru i row sig d ticks bar equity =
     (let price = oh_close bar;
          atr = dict_get row ''atr'' (price * Fin (1/100));
          (f, rate) = entry_fill d ticks price (tb_ts bar + 100);
          entry = (case f of Some x \<Rightarrow> sf_price x | None \<Rightarrow> price * Fin (10005/10000));
          risk = equity * bb_base_risk ru;
          dist = bb_stop_mult ru * atr;
          qty = (if Fin 0 < dist then risk / dist else Fin 0);
          cost = qty * entry;
          fee = cost * rate
      in if equity * Fin (95/100) < cost \<or> cost < Fin 10 then None
         else Some \<lparr>bp_entry = entry, bp_qty = qty, bp_initial = qty, bp_stop = entry - dist,
                    bp_tp1 = entry + bb_tp1_mult ru * atr, bp_tp2 = entry + bb_tp2_mult ru * atr, bp_atr = atr,
                    bp_risk = risk, bp_fee = fee, bp_tp1_taken = False, bp_tp2_taken = False, bp_trail = False,
                    bp_bar = i, bp_signal = sig\<rparr>)"

definition tick_entry :: "bb_rules \<Rightarrow> bb_oracle \<Rightarrow> nat \<Rightarrow> draws \<Rightarrow> tick_row list \<Rightarrow> tick_bar \<Rightarrow> pyfloat \<Rightarrow> bb_position option" where
  "tick_entry ru orc i d ticks bar equity =
     (case bo_row orc i of
        None \<Rightarrow> None
      | Some row \<Rightarrow>
          (case tick_filters ru orc row of None \<Rightarrow> None | Some sig \<Rightarrow> tick_open ru i row sig d ticks bar equity))"

definition tick_exit_row :: "nat \<Rightarrow> string \<Rightarrow> pyfloat \<Rightarrow> bb_position \<Rightarrow> payload" where
  "tick_exit_row i reason pnl p =
     [(''i'', VInt (int i)), (''action'', VStr reason), (''pnl'', VFloat pnl),
      (''r'', VFloat (pnl / py_max (bp_risk p) (Fin (1 / 10 ^ 6))))]"

definition tick_manage :: "nat \<Rightarrow> tick_row list \<Rightarrow> bb_state \<Rightarrow> bb_state res" where
  "tick_manage i ticks s =
     (case bs_position s of
        None \<Rightarrow> Inr s
      | Some p \<Rightarrow>
          (case check_exit_tick p ticks of
             (p1, None) \<Rightarrow> Inr (s\<lparr>bs_position := Some p1\<rparr>)
           | (p1, Some (price, reason)) \<Rightarrow>
               (let fee = price * bp_qty p1 * maker_fee;
                    pnl = (price - bp_entry p1) * bp_qty p1 - fee - bp_fee p1
                in bb_book (tick_exit_row i reason pnl p1) p1 (bs_equity s + pnl) pnl s)))"

definition bar_ticks :: "string \<Rightarrow> tick_bar \<Rightarrow> tick_db \<Rightarrow> tick_row list" where
  "bar_ticks symb bar db = snd (get_ticks symb (tb_ts bar) 2000 db)"

definition tick_step :: "bb_rules \<Rightarrow> bb_oracle \<Rightarrow> tick_db \<Rightarrow> string \<Rightarrow> nat \<Rightarrow> nat \<Rightarrow> draws \<Rightarrow> tick_bar \<Rightarrow> bb_state \<Rightarrow> bb_state res" where
  "tick_step ru orc db symb n i d bar s =
     (let ticks = bar_ticks symb bar db in
      rbind (tick_manage i ticks s) (\<lambda>s1.
        if bs_position s1 = None \<and> i + 2 < n
        then (case tick_entry ru orc i d ticks bar (bs_equity s1) of
                None \<Rightarrow> Inr s1
              | Some p \<Rightarrow> Inr (add_point (s1\<lparr>bs_position := Some p, bs_equity := bs_equity s1 - bp_fee p\<rparr>)))
        else Inr (add_point s1)))"

definition tick_force_close :: "tick_bar list \<Rightarrow> bb_state \<Rightarrow> bb_state" where
  "tick_force_close bars s =
     (case bs_position s of
        None \<Rightarrow> s
      | Some p \<Rightarrow>
          (let price = oh_close (List.last bars);
               fee = price * bp_qty p * taker_fee;
               pnl = (price - bp_entry p) * bp_qty p - fee
           in s\<lparr>bs_equity := bs_equity s + pnl, bs_total := Suc (bs_total s),
                bs_wins := (if Fin 0 < pnl then Suc (bs_wins s) else bs_wins s),
                bs_losses := (if Fin 0 < pnl then bs_losses s else Suc (bs_losses s))\<rparr>))"

definition tick_statistics :: "string \<Rightarrow> pyfloat \<Rightarrow> bb_state \<Rightarrow> bb_result" where
  "tick_statistics symb capital s =
     (let rate = Fin (real (bs_wins s) / real (max (bs_total s) 1));
          aw = per_count (bs_win_r s) (bs_wins s);
          al = per_count (bs_loss_r s) (bs_losses s)
      in (empty_result symb (bs_curve s))
         \<lparr>br_total := bs_total s, br_wins := bs_wins s, br_losses := bs_losses s,
          br_net_pnl := bs_equity s - capital,
          br_profit_factor := bs_gross_wins s / py_max (bs_gross_losses s) (Fin (1 / 10 ^ 10)),
          br_win_rate := rate, br_avg_win_r := aw, br_avg_loss_r := al,
          br_expectancy := rate * aw - (Fin 1 - rate) * al, br_sharpe := bb_sharpe (bs_returns s),
          br_max_dd := bs_max_dd s, br_trades := bs_trades s\<rparr>)"

text \<open>A symbol without ticks is run bar by bar.\<close>

definition run_tick_level ::
  "bb_rules \<Rightarrow> bb_oracle \<Rightarrow> tick_db \<Rightarrow> (nat \<Rightarrow> draws) \<Rightarrow> string \<Rightarrow> pyfloat \<Rightarrow> tick_bar list \<Rightarrow> bb_result res" where
  "run_tick_level ru orc db d symb capital bars =
     (if bars = [] then Inl (OtherError (text_msg ''index 0 is out of bounds''))
      else if snd (get_ticks symb (tb_ts (hd bars)) 5 db) = []
      then bb_run ru orc symb capital (map ohlc.truncate bars)
      else if length bars < warm_up + 20 then Inr (empty_result symb [])
      else rbind (run_res (\<lambda>s i. tick_step ru orc db symb (length bars) i (d i) (bars ! i) s)
                   (bb_start capital []) [warm_up..<length bars - 1])
             (\<lambda>s. Inr (tick_statistics symb capital (tick_force_close bars s))))"

section \<open>The store delivers in order\<close>

lemma by_time_sorted: "sorted_wrt (\<lambda>a b. tk_ts a \<le> tk_ts b) (by_time ts)"
proof -
  have "weak_order_on (set ts) (\<lambda>a b. tk_ts a < tk_ts b)" by (auto simp: weak_order_on_def)
  from sorted_sort_by [OF this] show ?thesis by (simp add: by_time_def not_less)
qed

lemma mset_by_time: "mset (by_time ts) = mset ts"
  by (simp add: by_time_def)

lemma insert_tick_table:
  assumes "insert_tick symb ts price qty side db = (db', Inr ())"
  shows "map_of db' (tick_table symb) =
    Some (dict_get db (tick_table symb) [] @ [\<lparr>tk_ts = ts, tk_price = price, tk_qty = qty, tk_side = side\<rparr>])"
  using assms
  by (auto simp: insert_tick_def Let_def ensure_table_def dict_simps dict_get_def split: if_splits option.splits)

text \<open>
  The ticks asked for are later than the given time, in order, and are all of them where the limit allows;
  where a bar ends plays no part, so a bar also gets the ticks of the bars after it.
\<close>

theorem ticks_run_past_the_bar:
  assumes "get_ticks symb since limit db = (db', ts)"
  shows "sorted_wrt (\<lambda>a b. tk_ts a \<le> tk_ts b) ts \<and> (\<forall>t \<in> set ts. since < tk_ts t) \<and>
    (length (filter (\<lambda>t. since < tk_ts t) (dict_get db (tick_table symb) [])) \<le> limit \<longrightarrow>
       mset ts = mset (filter (\<lambda>t. since < tk_ts t) (dict_get db (tick_table symb) [])))"
proof -
  let ?rows = "filter (\<lambda>t. since < tk_ts t) (dict_get db (tick_table symb) [])"
  have same: "dict_get (ensure_table symb db) (tick_table symb) [] = dict_get db (tick_table symb) []"
    by (auto simp: ensure_table_def dict_simps dict_get_def split: option.splits)
  have ts: "ts = take limit (by_time ?rows)" using assms by (simp add: get_ticks_def Let_def same)
  have set: "set (by_time ?rows) = set ?rows" using mset_by_time [of ?rows] by (metis set_mset_mset)
  have len: "length (by_time ?rows) = length ?rows" using mset_by_time [of ?rows] by (metis size_mset)
  show ?thesis
    using by_time_sorted [of ?rows] set len mset_by_time [of ?rows] set_take_subset [of limit "by_time ?rows"]
    by (auto simp: ts intro: sorted_wrt_take)
qed

section \<open>Fills\<close>

lemma scan_limit_Some:
  "scan_limit side price placed expire ahead seen ts = Some t \<Longrightarrow>
   t \<in> set ts \<and> \<not> ts_float t < placed \<and> \<not> expire < ts_float t \<and> through_limit side price t"
  by (induction side price placed expire ahead seen ts rule: scan_limit.induct)
    (auto simp: Let_def split: if_splits)

theorem limit_fill_was_traded:
  assumes "limit_fill draw queue ticks side qty price request timeout = Some f"
  shows "sf_price f = price \<and> sf_qty f = qty \<and>
    (\<exists>t \<in> set ticks. tk_ts t = sf_ts f \<and> through_limit side price t \<and>
       \<not> ts_float t < Fin (of_int request) + latency_of draw \<and>
       \<not> Fin (of_int request) + latency_of draw + timeout < ts_float t)"
  using assms by (auto simp: limit_fill_def Let_def dest!: scan_limit_Some)

lemma market_fill_late:
  assumes "market_fill draw slip ticks side qty request = Some f" "draw \<noteq> NaN"
  shows "\<exists>t \<in> set ticks. tk_ts t = sf_ts f \<and> request + 1 \<le> sf_ts f"
proof -
  obtain t rest where t: "filter (\<lambda>t. Fin (of_int request) + latency_of draw \<le> ts_float t) ticks = t # rest" "sf_ts f = tk_ts t"
    using assms(1) by (auto simp: market_fill_def Let_def split: list.splits)
  then have "t \<in> set ticks" "Fin (of_int request) + latency_of draw \<le> ts_float t"
    using list.set_intros(1) [of t rest] unfolding t(1) [symmetric] by simp_all
  moreover have "real_of_int request + 1 \<le> of_int (tk_ts t) \<Longrightarrow> request + 1 \<le> tk_ts t"
    by (metis of_int_1 of_int_add of_int_le_iff)
  ultimately show ?thesis
    using t(2) assms(2) by (cases draw) (auto simp: latency_of_def py_max_def intro!: bexI [of _ t] split: if_splits)
qed

text \<open>No simulated fill is partial, so the fee of the maker is charged for the market orders, too.\<close>

theorem every_fill_pays_the_maker_fee:
  assumes "entry_fill d ticks price request = (Some f, rate)" "ticks \<noteq> []"
  shows "rate = maker_fee"
  using assms
  by (auto simp: entry_fill_def Let_def limit_fill_def market_fill_def split: option.splits list.splits)

section \<open>No trailing exit\<close>

text \<open>
  A tick that is above the stop stays above the raised stop, so that every exit on ticks is reported as
  the initial stop, at the price of the tick.
\<close>

lemma tick_targets_stop:
  assumes "bp_stop p < Fin x" "bp_entry p < bp_tp1 p"
  shows "bp_stop (tick_targets (Fin x) p) < Fin x"
proof -
  have "bp_entry p < Fin x" if "bp_tp1 p \<le> Fin x"
    using that assms(2) by (cases "bp_entry p"; cases "bp_tp1 p") auto
  then show ?thesis using assms(1) by (auto simp: tick_targets_def Let_def py_max_def)
qed

lemma tick_targets_same [simp]:
  "bp_entry (tick_targets x p) = bp_entry p" "bp_tp1 (tick_targets x p) = bp_tp1 p" "bp_atr (tick_targets x p) = bp_atr p"
  by (simp_all add: tick_targets_def Let_def)

lemma trail_below: "0 < a \<Longrightarrow> s < Fin x \<Longrightarrow> py_max s (Fin x - Fin 2 * Fin a) < Fin x"
  by (auto simp: py_max_def)

theorem tick_exits_are_never_trailing:
  assumes "check_exit_tick p ticks = (p', Some (price, reason))"
    and "bp_entry p < bp_tp1 p" "bp_atr p = Fin a" "0 < a" "is_num (bp_stop p)"
    and "list_all (\<lambda>t. is_fin (tk_price t)) ticks"
  shows "reason = ''STOP'' \<and> (\<exists>t \<in> set ticks. price = tk_price t)"
proof -
  have exits: "reason = ''STOP'' \<and> (\<exists>t \<in> set ts. price = tk_price t)"
    if "exit_on_ticks p ts = (p', Some (price, reason))" "bp_entry p < bp_tp1 p" "bp_atr p = Fin a" "is_num (bp_stop p)"
      "list_all (\<lambda>t. is_fin (tk_price t)) ts" for ts
    using that
  proof (induction p ts rule: exit_on_ticks.induct)
    case (2 p t ts)
    obtain x where x: "tk_price t = Fin x" using "2.prems"(5) by (auto simp: is_fin_iff)
    show ?case
    proof (cases "tk_price t \<le> bp_stop p")
      case True
      with "2.prems"(1) show ?thesis by simp
    next
      case False
      let ?p1 = "tick_targets (tk_price t) p"
      let ?p2 = "?p1\<lparr>bp_stop := py_max (bp_stop ?p1) (tk_price t - Fin 2 * bp_atr ?p1)\<rparr>"
      have "bp_stop p < Fin x" using False "2.prems"(4) by (simp add: x pyfloat_not_le)
      then have s1: "bp_stop ?p1 < Fin x" using tick_targets_stop "2.prems"(2) by (simp add: x)
      have s2: "bp_stop ?p2 < Fin x" using trail_below [OF assms(4) s1] "2.prems"(3) by (simp add: x)
      then have above: "\<not> tk_price t \<le> bp_stop ?p2" unfolding x using pyfloat_not_less pyfloat_lessD_num by (metis pyfloat_less_le pyfloat_not_le)
      have num: "is_num (bp_stop ?p1)" "is_num (bp_stop ?p2)" using s1 s2 pyfloat_lessD_num by blast+
      show ?thesis
      proof (cases "bp_tp1_taken ?p1")
        case True
        have "exit_on_ticks ?p2 ts = (p', Some (price, reason))"
          using "2.prems"(1) False True above by (simp add: Let_def)
        then have "reason = ''STOP'' \<and> (\<exists>t \<in> set ts. price = tk_price t)"
          using "2.IH"(1) [OF False refl True refl above] "2.prems" num(2) by simp
        then show ?thesis by auto
      next
        case no: False
        have "exit_on_ticks ?p1 ts = (p', Some (price, reason))" using "2.prems"(1) False no by (simp add: Let_def)
        then have "reason = ''STOP'' \<and> (\<exists>t \<in> set ts. price = tk_price t)"
          using "2.IH"(2) [OF False refl no] "2.prems" num(1) by simp
        then show ?thesis by auto
      qed
    qed
  qed simp
  have "set (by_time ticks) = set ticks" using mset_by_time [of ticks] by (metis set_mset_mset)
  with exits [of "by_time ticks"] assms show ?thesis by (simp add: check_exit_tick_def list_all_iff)
qed

end
