(* ===== verification/Trading_Env.thy ===== *)
theory Trading_Env
  imports Py_Statistics
begin

text \<open>
  The environment and the replay buffer of the reinforcement learner (\<open>rl_agent.py\<close>). An episode is the list
  of its closing prices with the rows of features; the arrays of numpy are lists, their rounding to 32 bits is
  not modelled. The network and its training belong to the torch package.
\<close>

section \<open>The environment\<close>

record env_rules =
  en_columns :: "string list"
  en_capital :: pyfloat

record trading_env =
  en_rows :: "((string, pyfloat) pydict \<times> pyfloat) list"
  en_idx :: nat
  en_cash :: pyfloat
  en_position :: pyfloat
  en_entry :: pyfloat
  en_returns :: "pyfloat list"

definition env_fee :: pyfloat where "env_fee = Fin (1/1000)"
definition env_slip :: pyfloat where "env_slip = Fin (5/10000)"
definition reward_scale :: pyfloat where "reward_scale = Fin 100"

text \<open>\<open>df.iloc[i]\<close>, which raises beyond the last row.\<close>

definition row_at :: "nat \<Rightarrow> trading_env \<Rightarrow> ((string, pyfloat) pydict \<times> pyfloat) res" where
  "row_at i e =
     (if i < length (en_rows e) then Inr (en_rows e ! i)
      else Inl (OtherError (text_msg ''single positional indexer is out-of-bounds'')))"

definition env_equity :: "trading_env \<Rightarrow> pyfloat res" where
  "env_equity e = rbind (row_at (en_idx e) e) (\<lambda>(row, price). Inr (en_cash e + en_position e * price))"

definition env_obs :: "env_rules \<Rightarrow> trading_env \<Rightarrow> pyfloat list res" where
  "env_obs ru e =
     rbind (row_at (en_idx e) e) (\<lambda>(row, price). rbind (env_equity e) (\<lambda>eq.
       Inr (map (\<lambda>col. let v = dict_get row col (Fin 0) in if v = NaN then Fin 0 else v) (en_columns ru) @
            [Fin (if Fin 0 < en_position e then 1 else 0), (eq - en_capital ru) / py_max (en_capital ru) (Fin 1)])))"

definition env_reset :: "env_rules \<Rightarrow> ((string, pyfloat) pydict \<times> pyfloat) list \<Rightarrow> trading_env \<times> pyfloat list res" where
  "env_reset ru rows =
     (let e = \<lparr>en_rows = rows, en_idx = 50, en_cash = en_capital ru, en_position = Fin 0, en_entry = Fin 0, en_returns = []\<rparr>
      in (e, env_obs ru e))"

definition sharpe_reward :: "pyfloat \<Rightarrow> trading_env \<Rightarrow> pyfloat" where
  "sharpe_reward step_ret e =
     (if length (en_returns e) < 5 then step_ret
      else (let r = last_n 50 (en_returns e) in py_mean r / (pstdev r + Fin (1 / 10 ^ 8))))"

text \<open>
  The purchase and the sale, each with the penalty of its fee. A division by a price of zero raises.
\<close>

definition env_buy :: "pyfloat \<Rightarrow> pyfloat \<Rightarrow> trading_env \<Rightarrow> (trading_env \<times> pyfloat) res" where
  "env_buy price prev e =
     (let buy_price = price * (Fin 1 + env_slip) in
      rbind (py_div (en_cash e * Fin (95/100)) buy_price) (\<lambda>units.
        let cost = units * buy_price; fee = cost * env_fee
        in Inr (e\<lparr>en_cash := en_cash e - (cost + fee), en_position := units, en_entry := buy_price\<rparr>,
                - fee / py_max prev (Fin 1))))"

definition env_sell :: "pyfloat \<Rightarrow> pyfloat \<Rightarrow> trading_env \<Rightarrow> trading_env \<times> pyfloat" where
  "env_sell price prev e =
     (let proceeds = en_position e * (price * (Fin 1 - env_slip)); fee = proceeds * env_fee
      in (e\<lparr>en_cash := en_cash e + (proceeds - fee), en_position := Fin 0\<rparr>, - fee / py_max prev (Fin 1)))"

definition env_act :: "int \<Rightarrow> pyfloat \<Rightarrow> pyfloat \<Rightarrow> trading_env \<Rightarrow> (trading_env \<times> pyfloat) res" where
  "env_act action price prev e =
     (if action = 1 \<and> py_eq (en_position e) (Fin 0) then env_buy price prev e
      else if action = 2 \<and> Fin 0 < en_position e then Inr (env_sell price prev e)
      else Inr (e, Fin 0))"

definition env_force_close :: "trading_env \<Rightarrow> trading_env" where
  "env_force_close e =
     (let close_price = snd (List.last (en_rows e)) * (Fin 1 - env_slip);
          fee = en_position e * close_price * env_fee
      in e\<lparr>en_cash := en_cash e + (en_position e * close_price - fee), en_position := Fin 0\<rparr>)"

definition env_done :: "trading_env \<Rightarrow> bool" where
  "env_done e \<longleftrightarrow> length (en_rows e) - 1 \<le> en_idx e"

definition env_advance :: "trading_env \<Rightarrow> trading_env" where
  "env_advance e =
     (let e1 = e\<lparr>en_idx := Suc (en_idx e)\<rparr>
      in if env_done e1 \<and> Fin 0 < en_position e1 then env_force_close e1 else e1)"

definition action_name :: "int \<Rightarrow> string res" where
  "action_name a =
     (if a = 0 then Inr ''HOLD'' else if a = 1 then Inr ''BUY'' else if a = 2 then Inr ''SELL''
      else Inl (KeyError (show_int a)))"

record env_result =
  er_obs :: "pyfloat list"
  er_reward :: pyfloat
  er_done :: bool
  er_equity :: pyfloat
  er_action :: string

text \<open>One step: the changed environment and the result, or what it raises.\<close>

definition env_step :: "env_rules \<Rightarrow> int \<Rightarrow> trading_env \<Rightarrow> (trading_env \<times> env_result) res" where
  "env_step ru action e =
     rbind (row_at (en_idx e) e) (\<lambda>(row, price).
     rbind (env_equity e) (\<lambda>prev.
     rbind (env_act action price prev e) (\<lambda>(e1, penalty).
     let e2 = env_advance e1 in
     rbind (env_equity e2) (\<lambda>eq.
       let step_ret = (eq - prev) / py_max prev (Fin 1);
           e3 = e2\<lparr>en_returns := en_returns e2 @ [step_ret]\<rparr>;
           reward = sharpe_reward step_ret e3 + penalty
       in rbind (action_name action) (\<lambda>name. rbind (env_obs ru e3) (\<lambda>obs.
            Inr (e3, \<lparr>er_obs = obs, er_reward = reward * reward_scale, er_done = env_done e3, er_equity = eq,
                      er_action = name\<rparr>)))))))"

section \<open>The replay buffer\<close>

type_synonym 's transition = "'s \<times> int \<times> pyfloat \<times> 's \<times> bool"

definition push_transition :: "nat \<Rightarrow> 's transition list \<Rightarrow> 's transition \<Rightarrow> 's transition list" where
  "push_transition capacity buf t = push_bounded capacity buf t"

section \<open>The books of an episode\<close>

text \<open>Positive prices and finite books: the cash stays positive, the position is never negative.\<close>

definition env_ok :: "trading_env \<Rightarrow> bool" where
  "env_ok e \<longleftrightarrow> (\<exists>c q. en_cash e = Fin c \<and> 0 < c \<and> en_position e = Fin q \<and> 0 \<le> q) \<and>
     (\<forall>(row, price) \<in> set (en_rows e). \<exists>p. price = Fin p \<and> 0 < p)"

lemma env_buy_Fin:
  assumes "Fin p * (Fin 1 + env_slip) = Fin b" "b \<noteq> 0" "en_cash e = Fin c" "u = c * (95/100) / b"
  shows "env_buy (Fin p) prev e =
    Inr (e\<lparr>en_cash := Fin (c - (u * b + u * b * (1/1000))), en_position := Fin u, en_entry := Fin b\<rparr>,
         Fin (- (u * b * (1/1000))) / py_max prev (Fin 1))"
  unfolding env_buy_def assms(1,3) Let_def using assms(2) by (simp add: py_div_def env_fee_def assms(4))

lemma env_buy_ok:
  assumes "env_ok e" "0 < p"
  obtains e' pen where "env_buy (Fin p) prev e = Inr (e', pen)" "env_ok e'" "en_rows e' = en_rows e" "en_idx e' = en_idx e"
proof -
  obtain c q where c: "en_cash e = Fin c" "0 < c" using assms(1) by (auto simp: env_ok_def)
  define b u where "b = p * (1 + 5/10000)" and "u = c * (95/100) / b"
  have b: "0 < b" "b \<noteq> 0" using assms(2) by (auto simp: b_def)
  have ub: "u * b = c * (95/100)" "0 \<le> u" using b c(2) by (simp_all add: u_def)
  have "Fin p * (Fin 1 + env_slip) = Fin b" by (simp add: b_def env_slip_def)
  note buy = env_buy_Fin [OF this b(2) c(1) u_def, of prev, unfolded ub(1)]
  have "env_ok (e\<lparr>en_cash := Fin (c - (c * (95/100) + c * (95/100) * (1/1000))), en_position := Fin u, en_entry := Fin b\<rparr>)"
    using assms(1) c ub(2) unfolding env_ok_def
    by (intro conjI exI [of _ "c - (c * (95/100) + c * (95/100) * (1/1000))"] exI [of _ u]) simp_all
  with that [OF buy] show thesis by simp
qed

lemma net_sale: "0 < c \<Longrightarrow> 0 \<le> x \<Longrightarrow> 0 < c + (x - x * (1/1000))" for c x :: real
  by linarith

lemma env_sell_ok:
  assumes "env_ok e" "price = Fin p" "0 < p"
  shows "env_ok (fst (env_sell price prev e))"
proof -
  obtain c q where c: "en_cash e = Fin c" "0 < c" "en_position e = Fin q" "0 \<le> q" using assms(1) by (auto simp: env_ok_def)
  have "0 \<le> q * (p * (1 - 5/10000))" using c(4) assms(3) by simp
  note net_sale [OF c(2) this]
  with assms(1) show ?thesis by (simp add: env_sell_def Let_def env_ok_def c assms(2) env_slip_def env_fee_def)
qed

lemma env_sell_same [simp]:
  "en_rows (fst (env_sell price prev e)) = en_rows e" "en_idx (fst (env_sell price prev e)) = en_idx e"
  by (simp_all add: env_sell_def Let_def)

lemma env_act_ok:
  assumes "env_ok e" "price = Fin p" "0 < p"
  obtains e' pen where "env_act action price prev e = Inr (e', pen)" "env_ok e'" "en_rows e' = en_rows e" "en_idx e' = en_idx e"
proof (cases "action = 1 \<and> py_eq (en_position e) (Fin 0)")
  case True
  obtain e' pen where "env_buy price prev e = Inr (e', pen)" "env_ok e'" "en_rows e' = en_rows e" "en_idx e' = en_idx e"
    unfolding assms(2) by (rule env_buy_ok [OF assms(1,3)])
  with True that show thesis by (simp add: env_act_def)
next
  case no: False
  show thesis
  proof (cases "action = 2 \<and> Fin 0 < en_position e")
    case True
    obtain e' pen where s: "env_sell price prev e = (e', pen)" by fastforce
    then have "env_ok e'" "en_rows e' = en_rows e" "en_idx e' = en_idx e"
      using env_sell_ok [OF assms, of prev] env_sell_same [of price prev e] by simp_all
    with that s no True show thesis by (simp add: env_act_def)
  next
    case False
    then have "env_act action price prev e = Inr (e, Fin 0)" using no by (auto simp: env_act_def)
    with that assms(1) show thesis by blast
  qed
qed

lemma env_force_close_ok:
  assumes "env_ok e" "en_rows e \<noteq> []"
  shows "env_ok (env_force_close e)"
proof -
  obtain c q where c: "en_cash e = Fin c" "0 < c" "en_position e = Fin q" "0 \<le> q" using assms(1) by (auto simp: env_ok_def)
  obtain p where p: "snd (List.last (en_rows e)) = Fin p" "0 < p"
    using assms(1) last_in_set [OF assms(2)] by (fastforce simp: env_ok_def)
  have "0 \<le> q * (p * (1 - 5/10000))" using c(4) p by simp
  note net_sale [OF c(2) this]
  with assms(1) show ?thesis by (simp add: env_force_close_def Let_def env_ok_def c p env_slip_def env_fee_def)
qed

lemma env_advance_same [simp]: "en_rows (env_advance e) = en_rows e" "en_idx (env_advance e) = Suc (en_idx e)"
  by (simp_all add: env_advance_def env_force_close_def Let_def)

lemma env_advance_ok:
  assumes "env_ok e" "en_rows e \<noteq> []"
  shows "env_ok (env_advance e)"
proof -
  let ?e = "e\<lparr>en_idx := Suc (en_idx e)\<rparr>"
  have "env_ok ?e" "en_rows ?e \<noteq> []" using assms by (simp_all add: env_ok_def)
  then show ?thesis using env_force_close_ok [of ?e] by (simp add: env_advance_def Let_def)
qed

text \<open>
  From a solvent environment every action of the three steps to a solvent one, as long as a further row is
  there; behind the last row the step raises.
\<close>

theorem env_stays_solvent:
  assumes "env_ok e" "Suc (en_idx e) < length (en_rows e)" "action \<in> {0, 1, 2}"
  shows "\<exists>e' r. env_step ru action e = Inr (e', r) \<and> env_ok e' \<and> en_idx e' = Suc (en_idx e) \<and>
    length (er_obs r) = length (en_columns ru) + 2 \<and> er_done r = (length (en_rows e) \<le> en_idx e + 2)"
proof -
  obtain row price where row: "en_rows e ! en_idx e = (row, price)" by fastforce
  have "(row, price) \<in> set (en_rows e)" using assms(2) nth_mem [of "en_idx e" "en_rows e"] row by simp
  then obtain p where p: "price = Fin p" "0 < p" using assms(1) by (auto simp: env_ok_def)
  obtain c q where c: "en_cash e = Fin c" "en_position e = Fin q" using assms(1) by (auto simp: env_ok_def)
  have at0: "row_at (en_idx e) e = Inr (row, price)" using assms(2) by (simp add: row_at_def row)
  have eq0: "env_equity e = Inr (Fin (c + q * p))" by (simp add: env_equity_def at0 p c)
  obtain e1 pen where e1: "env_act action price (Fin (c + q * p)) e = Inr (e1, pen)" "env_ok e1"
    "en_rows e1 = en_rows e" "en_idx e1 = en_idx e" by (rule env_act_ok [OF assms(1) p])
  have "en_rows e1 \<noteq> []" using e1(3) assms(2) by auto
  then have e2: "env_ok (env_advance e1)" using env_advance_ok e1(2) by blast
  obtain row2 price2 where row2: "en_rows e ! Suc (en_idx e) = (row2, price2)" by fastforce
  have at2: "row_at (Suc (en_idx e)) (env_advance e1) = Inr (row2, price2)"
    using assms(2) by (simp add: row_at_def e1 row2)
  let ?e2 = "env_advance e1"
  define x where "x = en_cash ?e2 + en_position ?e2 * price2"
  have eq2: "env_equity ?e2 = Inr x" by (simp add: env_equity_def at2 e1 x_def)
  let ?e3 = "?e2\<lparr>en_returns := en_returns ?e2 @ [(x - Fin (c + q * p)) / py_max (Fin (c + q * p)) (Fin 1)]\<rparr>"
  have at3: "row_at (en_idx ?e3) ?e3 = Inr (row2, price2)"
    using assms(2) by (simp add: row_at_def e1 row2)
  have eq3: "env_equity ?e3 = Inr x" using at3 by (simp add: env_equity_def x_def)
  obtain obs where obs: "env_obs ru ?e3 = Inr obs" "length obs = length (en_columns ru) + 2"
    unfolding env_obs_def at3 eq3 by simp
  obtain name where name: "action_name action = Inr name" using assms(3) by (auto simp: action_name_def)
  have "env_ok ?e3" using e2 by (simp add: env_ok_def)
  moreover have "env_done ?e3 \<longleftrightarrow> length (en_rows e) \<le> en_idx e + 2" by (auto simp: env_done_def e1)
  ultimately show ?thesis
    using obs name by (simp add: env_step_def at0 eq0 e1 eq2 Let_def)
qed

text \<open>
  A purchase is paid three times over: the slippage and the fee lower the equity of the step, and the
  penalty takes the same fee off the reward once more.
\<close>

theorem fee_lowers_the_reward_twice:
  assumes "env_ok e" "length (en_returns e) < 4" "Suc (Suc (en_idx e)) < length (en_rows e)"
    and "en_position e = Fin 0" "en_cash e = Fin c" "1 \<le> c"
    and rows: "en_rows e ! en_idx e = (row, Fin p)" "en_rows e ! Suc (en_idx e) = (row', Fin p')" "0 < p"
  shows "\<exists>e' r units fee. env_step ru 1 e = Inr (e', r) \<and> en_position e' = Fin units \<and>
    fee = 95/100 * c / 1000 \<and> er_equity r = Fin (c + units * (p' - p * (1 + 5/10000)) - fee) \<and>
    er_reward r = Fin (100 * ((units * (p' - p * (1 + 5/10000)) - fee) / c - fee / c))"
proof -
  define b units where "b = p * (1 + 5/10000)" and "units = c * (95/100) / b"
  have b: "b \<noteq> 0" using rows(3) by (simp add: b_def)
  have ub: "units * b = c * (95/100)" using b by (simp add: units_def)
  let ?e1 = "e\<lparr>en_cash := Fin (c - (c * (95/100) + c * (95/100) * (1/1000))), en_position := Fin units, en_entry := Fin b\<rparr>"
  have at0: "row_at (en_idx e) e = Inr (row, Fin p)" using assms(3) rows by (simp add: row_at_def)
  have eq0: "env_equity e = Inr (Fin c)" by (simp add: env_equity_def at0 assms(4,5))
  have "Fin p * (Fin 1 + env_slip) = Fin b" by (simp add: b_def env_slip_def)
  note bought = env_buy_Fin [OF this b assms(5) units_def, of "Fin c", unfolded ub]
  have buy: "env_act 1 (Fin p) (Fin c) e = Inr (?e1, Fin (- (c * (95/100) * (1/1000)) / c))"
    unfolding env_act_def bought using assms(6) by (simp add: assms(4) py_eq_def max_def)
  let ?e2 = "?e1\<lparr>en_idx := Suc (en_idx e)\<rparr>"
  have "\<not> length (en_rows e) - Suc 0 \<le> Suc (en_idx e)" using assms(3) by arith
  then have adv: "env_advance ?e1 = ?e2" by (simp add: env_advance_def env_done_def Let_def)
  let ?x = "c - (c * (95/100) + c * (95/100) * (1/1000)) + units * p'"
  have at2: "row_at (Suc (en_idx e)) ?e2 = Inr (row', Fin p')" using assms(3) rows by (simp add: row_at_def)
  have eq2: "env_equity ?e2 = Inr (Fin ?x)" using at2 by (simp add: env_equity_def)
  let ?ret = "(?x - c) / c"
  have ret: "(Fin ?x - Fin c) / py_max (Fin c) (Fin 1) = Fin ?ret" using assms(6) by (simp add: max_def)
  let ?e3 = "?e2\<lparr>en_returns := en_returns e @ [Fin ?ret]\<rparr>"
  have at3: "row_at (en_idx ?e3) ?e3 = Inr (row', Fin p')" using assms(3) rows by (simp add: row_at_def)
  have eq3: "env_equity ?e3 = Inr (Fin ?x)" using at3 by (simp add: env_equity_def)
  obtain obs where obs: "env_obs ru ?e3 = Inr obs" unfolding env_obs_def at3 eq3 by simp
  have shr: "sharpe_reward (Fin ?ret) ?e3 = Fin ?ret" using assms(2) by (simp add: sharpe_reward_def)
  have step: "env_step ru 1 e = Inr (?e3, \<lparr>er_obs = obs,
      er_reward = (Fin ?ret + Fin (- (c * (95/100) * (1/1000)) / c)) * reward_scale, er_done = env_done ?e3,
      er_equity = Fin ?x, er_action = ''BUY''\<rparr>)"
    unfolding env_step_def at0 rbind_simps prod.case eq0 buy Let_def adv eq2 ret
    using obs shr by (simp add: action_name_def)
  have x: "?x = c + units * (p' - b) - 95/100 * c / 1000"
    unfolding right_diff_distrib ub by simp
  let ?fee = "95/100 * c / 1000"
  let ?r = "\<lparr>er_obs = obs, er_reward = (Fin ?ret + Fin (- (c * (95/100) * (1/1000)) / c)) * reward_scale,
      er_done = env_done ?e3, er_equity = Fin ?x, er_action = ''BUY''\<rparr>"
  have ret': "?ret = (units * (p' - b) - ?fee) / c" unfolding x by simp
  have "er_equity ?r = Fin (c + units * (p' - b) - ?fee)" unfolding x [symmetric] by simp
  moreover have "er_reward ?r = Fin (100 * ((units * (p' - b) - ?fee) / c - ?fee / c))"
    unfolding ret' by (simp add: reward_scale_def)
  moreover have "en_position ?e3 = Fin units" by simp
  ultimately show ?thesis unfolding b_def [symmetric] using step by blast
qed

lemma push_transition_bound: "length (push_transition n buf t) \<le> n"
  by (simp add: push_transition_def push_bounded_def last_n_def)

end
