(* ===== verification/Metrics_Registry.thy ===== *)
theory Metrics_Registry
  imports Py_Sequences Py_Statistics
begin

text \<open>
  The registry of metrics (\<open>metrics/metrics_registry.py\<close>), what the exporter reads from its keys
  (\<open>monitoring/prometheus/exporter.py\<close>), and the collectors that count for themselves
  (\<open>core/metrics/metrics_collector.py\<close>, \<open>core/latency/latency_tracker.py\<close>,
  \<open>monitoring/execution_analytics.py\<close>). Labels are texts; clock readings are arguments; the lock makes each
  operation one step. The metric families themselves belong to the Prometheus package.
\<close>

section \<open>Keys\<close>

type_synonym labels = "(string, string) pydict"

fun join_with :: "string \<Rightarrow> string list \<Rightarrow> string" where
  "join_with sep [] = []"
| "join_with sep [s] = s"
| "join_with sep (s # t # ts) = s @ sep @ join_with sep (t # ts)"

definition label_text :: "string \<times> string \<Rightarrow> string" where
  "label_text p = fst p @ ''='' @ snd p"

definition metric_key :: "string \<Rightarrow> labels \<Rightarrow> string" where
  "metric_key name ls =
     (if ls = [] then name
      else name @ ''{'' @ join_with '','' (map label_text (sort_key fst ls)) @ ''}'')"

text \<open>
  \<open>re.search\<close> of a brace, one character or more, and a closing brace at the end: the leftmost opening brace
  with something between. A newline in a key is left out.
\<close>

definition closed_label :: "string \<Rightarrow> string option" where
  "closed_label s = (if 2 \<le> length s \<and> List.last s = CHR ''}'' then Some (butlast s) else None)"

fun find_label :: "string \<Rightarrow> (string \<times> string) option" where
  "find_label [] = None"
| "find_label (c # s) =
     (case (if c = CHR ''{'' then closed_label s else None) of
        Some l \<Rightarrow> Some ([], l)
      | None \<Rightarrow> map_option (\<lambda>(b, l). (c # b, l)) (find_label s))"

text \<open>\<open>part.partition("=")\<close>: what comes before and after the first sign, all and nothing where there is none.\<close>

definition partition_eq :: "string \<Rightarrow> string \<times> string" where
  "partition_eq s = (takeWhile (\<lambda>c. c \<noteq> CHR ''='') s, drop 1 (dropWhile (\<lambda>c. c \<noteq> CHR ''='') s))"

definition parse_labels :: "string \<Rightarrow> labels" where
  "parse_labels s =
     foldl (\<lambda>d part. case partition_eq part of (k, v) \<Rightarrow> dict_set (str_strip k) (str_strip v) d) [] (split_comma s)"

definition parse_key :: "string \<Rightarrow> string \<times> labels" where
  "parse_key key = (case find_label key of None \<Rightarrow> (key, []) | Some (base, l) \<Rightarrow> (base, parse_labels l))"

definition safe_name :: "string \<Rightarrow> string" where
  "safe_name raw = map (\<lambda>c. let n = of_char c :: nat in
     if (48 \<le> n \<and> n \<le> 57) \<or> (65 \<le> n \<and> n \<le> 90) \<or> (97 \<le> n \<and> n \<le> 122) \<or> n = 95 then c else CHR ''_'') raw"

section \<open>The registry\<close>

record registry_state =
  mr_counts :: "(string, pyfloat) pydict"
  mr_gauges :: "(string, pyfloat) pydict"
  mr_histograms :: "(string, pyfloat list) pydict"
  mr_stamps :: "(string, pyfloat) pydict"

definition new_registry :: registry_state where
  "new_registry = \<lparr>mr_counts = [], mr_gauges = [], mr_histograms = [], mr_stamps = []\<rparr>"

definition increment :: "string \<Rightarrow> pyfloat \<Rightarrow> labels \<Rightarrow> pyfloat \<Rightarrow> registry_state \<Rightarrow> registry_state" where
  "increment name x ls now m =
     (let k = metric_key name ls
      in m\<lparr>mr_counts := dict_set k (dict_get (mr_counts m) k (Fin 0) + x) (mr_counts m),
           mr_stamps := dict_set k now (mr_stamps m)\<rparr>)"

definition get_counter :: "string \<Rightarrow> labels \<Rightarrow> registry_state \<Rightarrow> pyfloat" where
  "get_counter name ls m = dict_get (mr_counts m) (metric_key name ls) (Fin 0)"

definition set_gauge :: "string \<Rightarrow> pyfloat \<Rightarrow> labels \<Rightarrow> pyfloat \<Rightarrow> registry_state \<Rightarrow> registry_state" where
  "set_gauge name x ls now m =
     (let k = metric_key name ls
      in m\<lparr>mr_gauges := dict_set k x (mr_gauges m), mr_stamps := dict_set k now (mr_stamps m)\<rparr>)"

definition get_gauge :: "string \<Rightarrow> labels \<Rightarrow> registry_state \<Rightarrow> pyfloat option" where
  "get_gauge name ls m = map_of (mr_gauges m) (metric_key name ls)"

definition observe :: "string \<Rightarrow> pyfloat \<Rightarrow> labels \<Rightarrow> pyfloat \<Rightarrow> registry_state \<Rightarrow> registry_state" where
  "observe name x ls now m =
     (let k = metric_key name ls
      in m\<lparr>mr_histograms := dict_set k (dict_get (mr_histograms m) k [] @ [x]) (mr_histograms m),
           mr_stamps := dict_set k now (mr_stamps m)\<rparr>)"

definition get_histogram :: "string \<Rightarrow> labels \<Rightarrow> registry_state \<Rightarrow> pyfloat list" where
  "get_histogram name ls m = dict_get (mr_histograms m) (metric_key name ls) []"

record summary =
  su_count :: nat
  su_sum :: pyfloat
  su_min :: pyfloat
  su_max :: pyfloat
  su_mean :: pyfloat
  su_p50 :: pyfloat
  su_p95 :: pyfloat
  su_p99 :: pyfloat

definition percentile :: "pyfloat list \<Rightarrow> nat \<Rightarrow> pyfloat" where
  "percentile xs percent = xs ! (length xs * percent div 100)"

definition summarize :: "pyfloat list \<Rightarrow> summary option" where
  "summarize data =
     (if data = [] then None
      else (let s = sort_by (<) data in
        Some \<lparr>su_count = length s, su_sum = py_sum s, su_min = hd s, su_max = List.last s,
              su_mean = py_sum s / Fin (real (length s)), su_p50 = percentile s 50, su_p95 = percentile s 95,
              su_p99 = percentile s 99\<rparr>))"

definition histogram_summary :: "string \<Rightarrow> labels \<Rightarrow> registry_state \<Rightarrow> summary option" where
  "histogram_summary name ls m = summarize (get_histogram name ls m)"

definition metrics_snapshot :: "pyfloat \<Rightarrow> registry_state \<Rightarrow> (string, pyfloat) pydict \<times> (string, pyfloat) pydict \<times> (string, nat) pydict \<times> pyfloat" where
  "metrics_snapshot now m = (mr_counts m, mr_gauges m, map (\<lambda>(k, xs). (k, length xs)) (mr_histograms m), now)"

definition reset_metrics :: "registry_state \<Rightarrow> registry_state" where
  "reset_metrics m = new_registry"

text \<open>
  What a scrape gathers: values of one base name belong together, in the order of their first key; a
  histogram gives its summary under its own key.
\<close>

definition grouped :: "(string, pyfloat) pydict \<Rightarrow> (string, (labels \<times> pyfloat) list) pydict" where
  "grouped d = foldl (\<lambda>g (key, x). case parse_key key of
       (base, ls) \<Rightarrow> dict_set base (dict_get g base [] @ [(ls, x)]) g) [] d"

definition scraped_histograms :: "registry_state \<Rightarrow> (string \<times> labels \<times> summary) list" where
  "scraped_histograms m =
     List.map_filter (\<lambda>(key, xs). case parse_key key of (base, ls) \<Rightarrow>
       map_option (\<lambda>su. (safe_name base, ls, su)) (histogram_summary key [] m)) (mr_histograms m)"

section \<open>Other collectors\<close>

record collector =
  co_counts :: "(string, int) pydict"
  co_latency :: "pyfloat list"

definition new_collector :: collector where
  "new_collector =
     \<lparr>co_counts = [(''orders_sent'', 0), (''orders_failed'', 0), (''ws_reconnects'', 0), (''exceptions'', 0)],
      co_latency = []\<rparr>"

text \<open>The list of latencies is a metric as well: adding one to it raises.\<close>

definition collector_increment :: "string \<Rightarrow> collector \<Rightarrow> collector res" where
  "collector_increment key c =
     (if key = ''latency_ms'' then Inl (TypeError (text_msg ''int object is not iterable''))
      else (case map_of (co_counts c) key of
              None \<Rightarrow> Inr c
            | Some n \<Rightarrow> Inr (c\<lparr>co_counts := dict_set key (n + 1) (co_counts c)\<rparr>)))"

definition record_latency :: "pyfloat \<Rightarrow> collector \<Rightarrow> collector" where
  "record_latency x c =
     (let l = co_latency c @ [x] in c\<lparr>co_latency := (if 1000 < length l then last_n 1000 l else l)\<rparr>)"

definition average_latency :: "collector \<Rightarrow> pyfloat" where
  "average_latency c =
     py_round (if co_latency c = [] then Fin 0 else py_sum (co_latency c) / Fin (real (length (co_latency c)))) 3"

text \<open>The tracker holds the start of a measurement; a second stop gives nothing.\<close>

definition tracker_stop :: "pyfloat \<Rightarrow> pyfloat option \<Rightarrow> pyfloat option \<times> pyfloat option" where
  "tracker_stop now t = (case t of None \<Rightarrow> (None, None) | Some s \<Rightarrow> (None, Some ((now - s) * Fin 1000)))"

record analytics =
  an_latencies :: "pyfloat list"
  an_slippages :: "pyfloat list"

definition analytics_summary :: "analytics \<Rightarrow> pyfloat \<times> pyfloat \<times> pyfloat" where
  "analytics_summary a =
     (if an_latencies a = [] then Fin 0 else py_mean (an_latencies a),
      if an_slippages a = [] then Fin 0 else py_mean (an_slippages a),
      if an_latencies a = [] then Fin 0 else py_max_list (an_latencies a))"

section \<open>Keys are read back\<close>

text \<open>Texts without the signs of the syntax and without surrounding white space.\<close>

definition plain_text :: "string \<Rightarrow> bool" where
  "plain_text s \<longleftrightarrow> str_strip s = s \<and> (\<forall>c \<in> set s. c \<notin> {CHR '','', CHR ''='', CHR ''{'', CHR ''}''})"

lemma split_comma_plain: "CHR '','' \<notin> set s \<Longrightarrow> split_comma s = [s]"
  by (induction s) auto

lemma split_comma_append: "CHR '','' \<notin> set s \<Longrightarrow> split_comma (s @ CHR '','' # t) = s # split_comma t"
  by (induction s) auto

lemma split_join:
  "\<forall>s \<in> set ss. CHR '','' \<notin> set s \<Longrightarrow> ss \<noteq> [] \<Longrightarrow> split_comma (join_with '','' ss) = ss"
  by (induction "'',''" ss rule: join_with.induct) (auto simp: split_comma_plain split_comma_append)

lemma partition_label: "CHR ''='' \<notin> set k \<Longrightarrow> partition_eq (k @ ''='' @ v) = (k, v)"
  by (induction k) (auto simp: partition_eq_def)

text \<open>The last brace is the closing one, the first one opens the labels.\<close>

lemma find_label_key:
  assumes "CHR ''{'' \<notin> set name" "l \<noteq> []"
  shows "find_label (name @ ''{'' @ l @ ''}'') = Some (name, l)"
  using assms by (induction name) (auto simp: closed_label_def Suc_le_eq)

lemma find_label_none: "CHR ''{'' \<notin> set name \<Longrightarrow> find_label name = None"
  by (induction name) auto

lemma parse_labels_plain:
  assumes "\<forall>(k, v) \<in> set ls. plain_text k \<and> plain_text v" "ls \<noteq> []" "distinct (map fst ls)"
  shows "parse_labels (join_with '','' (map label_text ls)) = ls"
proof -
  have "\<forall>s \<in> set (map label_text ls). CHR '','' \<notin> set s"
    using assms(1) by (fastforce simp: label_text_def plain_text_def)
  then have split: "split_comma (join_with '','' (map label_text ls)) = map label_text ls"
    using assms(2) by (intro split_join) simp_all
  have part: "partition_eq (label_text p) = p" "str_strip (fst p) = fst p" "str_strip (snd p) = snd p"
    if "p \<in> set ls" for p
  proof -
    have plain: "plain_text (fst p)" "plain_text (snd p)" using assms(1) that by auto
    then have "CHR ''='' \<notin> set (fst p)" by (auto simp: plain_text_def)
    from partition_label [OF this, of "snd p"] show "partition_eq (label_text p) = p" by (simp add: label_text_def)
    show "str_strip (fst p) = fst p" "str_strip (snd p) = snd p" using plain by (simp_all add: plain_text_def)
  qed
  let ?f = "\<lambda>d part. case partition_eq part of (k, v) \<Rightarrow> dict_set (str_strip k) (str_strip v) d"
  have "foldl ?f d (map label_text xs) = d @ xs"
    if "set xs \<subseteq> set ls" "distinct (map fst (d @ xs))" for d xs
    using that
  proof (induction xs arbitrary: d)
    case (Cons x xs)
    then have "?f d (label_text x) = d @ [x]" using part [of x] by (auto simp: case_prod_unfold dict_set_new)
    with Cons.IH [of "d @ [x]"] Cons.prems show ?case by simp
  qed simp
  from this [of ls "[]"] show ?thesis using assms(3) by (simp add: parse_labels_def split)
qed

lemma join_with_not_empty: "ss \<noteq> [] \<Longrightarrow> \<forall>s \<in> set ss. s \<noteq> [] \<Longrightarrow> join_with sep ss \<noteq> []"
  by (induction sep ss rule: join_with.induct) auto

text \<open>The exporter reads the name and the labels back from the key the registry made of them.\<close>

theorem metric_key_roundtrip:
  assumes "plain_text name" "\<forall>(k, v) \<in> set ls. plain_text k \<and> plain_text v" "distinct (map fst ls)"
  shows "parse_key (metric_key name ls) = (name, sort_key fst ls)"
proof (cases "ls = []")
  case True
  have "CHR ''{'' \<notin> set name" using assms(1) unfolding plain_text_def by blast
  then have "find_label name = None" by (rule find_label_none)
  then show ?thesis using True by (simp add: metric_key_def parse_key_def)
next
  case False
  let ?ls = "sort_key fst ls"
  have ne: "?ls \<noteq> []" using False by (metis length_sort length_0_conv)
  have plain: "\<forall>(k, v) \<in> set ?ls. plain_text k \<and> plain_text v" using assms(2) by simp
  have "mset (map fst ?ls) = mset (map fst ls)" by (simp add: mset_map)
  then have dist: "distinct (map fst ?ls)" using assms(3) by (metis mset_eq_imp_distinct_iff)
  have "CHR ''{'' \<notin> set name" using assms(1) unfolding plain_text_def by blast
  moreover have "join_with '','' (map label_text ?ls) \<noteq> []"
    using ne by (intro join_with_not_empty) (auto simp: label_text_def)
  ultimately have "find_label (metric_key name ls) = Some (name, join_with '','' (map label_text ?ls))"
    using False find_label_key by (simp add: metric_key_def)
  then show ?thesis using parse_labels_plain [OF plain ne dist] by (simp add: parse_key_def)
qed

section \<open>Counters and histograms\<close>

text \<open>A counter is the sum of its increments, whatever else happens to the registry.\<close>

datatype metric_op = Inc string pyfloat labels pyfloat | Gauge string pyfloat labels pyfloat | Obs string pyfloat labels pyfloat

fun metric_run :: "metric_op list \<Rightarrow> registry_state \<Rightarrow> registry_state" where
  "metric_run [] m = m"
| "metric_run (Inc n x ls t # os) m = metric_run os (increment n x ls t m)"
| "metric_run (Gauge n x ls t # os) m = metric_run os (set_gauge n x ls t m)"
| "metric_run (Obs n x ls t # os) m = metric_run os (observe n x ls t m)"

fun increments_of :: "string \<Rightarrow> metric_op list \<Rightarrow> pyfloat list" where
  "increments_of k [] = []"
| "increments_of k (Inc n x ls t # os) = (if metric_key n ls = k then x # increments_of k os else increments_of k os)"
| "increments_of k (_ # os) = increments_of k os"

theorem counter_is_sum_of_increments:
  "get_counter name ls (metric_run os m) = get_counter name ls m + py_sum (increments_of (metric_key name ls) os)"
  by (induction os m rule: metric_run.induct)
    (auto simp: get_counter_def increment_def set_gauge_def observe_def Let_def dict_simps pyfloat_plus_assoc)

text \<open>The figures of a summary are values of the histogram, in order.\<close>

theorem summary_is_ordered:
  assumes "summarize data = Some su" "list_all is_num data"
  shows "su_count su = length data \<and> su_min su \<le> su_p50 su \<and> su_p50 su \<le> su_p95 su \<and> su_p95 su \<le> su_p99 su \<and>
    su_p99 su \<le> su_max su \<and> {su_min su, su_p50 su, su_p95 su, su_p99 su, su_max su} \<subseteq> set data"
proof -
  let ?s = "sort_by (<) data"
  have ne: "data \<noteq> []" using assms(1) by (auto simp: summarize_def)
  have set: "set ?s = set data" using mset_sort_by [of "(<)" data] by (metis set_mset_mset)
  have len: "length ?s = length data" using mset_sort_by [of "(<)" data] by (metis size_mset)
  have num: "\<forall>x \<in> set data. is_num x" using assms(2) by (simp add: list_all_iff)
  then have "weak_order_on (set data) (<)" using weak_order_on_key(1) [of "set data" "\<lambda>x. x"] by simp
  from sorted_sort_by [OF this] have wrt: "sorted_wrt (\<lambda>a b. \<not> b < a) ?s" .
  then have sorted: "?s ! i \<le> ?s ! j" if "i \<le> j" "j < length data" for i j
  proof -
    have "?s ! i \<in> set ?s" "?s ! j \<in> set ?s" using that len by (simp_all only: nth_mem)
    then have both: "is_num (?s ! j)" "is_num (?s ! i)" using num set by simp_all
    moreover have "\<not> ?s ! j < ?s ! i"
      using that wrt len both by (cases "i = j") (auto simp: sorted_wrt_iff_nth_less pyfloat_not_less)
    ultimately show ?thesis using pyfloat_not_less by blast
  qed
  let ?n = "length data"
  have i: "?n * 50 div 100 \<le> ?n * 95 div 100" "?n * 95 div 100 \<le> ?n * 99 div 100" "?n * 99 div 100 \<le> ?n - 1"
    "?n - 1 < ?n" using ne by (auto simp: div_le_mono) linarith?
  have ends: "hd ?s = ?s ! 0" "List.last ?s = ?s ! (?n - 1)" using ne len by (metis hd_conv_nth length_0_conv, metis last_conv_nth length_0_conv)
  have su: "su = \<lparr>su_count = ?n, su_sum = py_sum ?s, su_min = ?s ! 0, su_max = ?s ! (?n - 1),
      su_mean = py_sum ?s / Fin (real ?n), su_p50 = ?s ! (?n * 50 div 100), su_p95 = ?s ! (?n * 95 div 100),
      su_p99 = ?s ! (?n * 99 div 100)\<rparr>"
    using assms(1) ne by (simp add: summarize_def Let_def percentile_def len ends)
  have mem: "?s ! j \<in> set data" if "j < ?n" for j using that set len nth_mem [of j ?s] by simp
  define a b c d where "a = ?n * 50 div 100" and "b = ?n * 95 div 100" and "c = ?n * 99 div 100" and "d = ?n - 1"
  have "0 \<le> a" "a \<le> b" "b \<le> c" "c \<le> d" "a < ?n" "b < ?n" "c < ?n" "d < ?n" "0 < ?n"
    using i unfolding a_def b_def c_def d_def by linarith+
  then show ?thesis
    unfolding su a_def [symmetric] b_def [symmetric] c_def [symmetric] d_def [symmetric] using sorted mem by simp
qed

lemma collector_latency_bound: "length (co_latency c) \<le> 1000 \<Longrightarrow> length (co_latency (record_latency x c)) \<le> 1000"
  by (simp add: record_latency_def Let_def last_n_def)

lemma tracker_stops_once: "tracker_stop now' (fst (tracker_stop now t)) = (None, None)"
  by (simp add: tracker_stop_def split: option.splits)

end
