(* ===== verification/Launcher.thy ===== *)
theory Launcher
  imports Aegis_Config Persistence Py_Sequences
begin

text \<open>
  The controller (\<open>main.py\<close>): the environment file, the choice of the credentials for the mode, the
  report of profits, the watch screen and the check of the entry points. Texts of files and answers of
  HTTP requests are arguments; the environment of the process is the state that its steps change. A
  \<open>SystemExit\<close> is an \<open>OtherError\<close>.
\<close>

section \<open>The environment file\<close>

text \<open>Reading translates the ends of lines; \<open>splitlines\<close> then splits at each of them.\<close>

fun universal_newlines :: "string \<Rightarrow> string" where
  "universal_newlines [] = []"
| "universal_newlines [c] = [if c = CHR 0x0D then CHR 0x0A else c]"
| "universal_newlines (c # d # cs) =
     (if c = CHR 0x0D then CHR 0x0A # universal_newlines (if d = CHR 0x0A then cs else d # cs)
      else c # universal_newlines (d # cs))"

definition is_line_end :: "char \<Rightarrow> bool" where
  "is_line_end c \<longleftrightarrow> c \<in> {CHR 0x0A, CHR 0x0B, CHR 0x0C, CHR 0x0D, CHR 0x1C, CHR 0x1D, CHR 0x1E}"

fun split_lines :: "string \<Rightarrow> string list" where
  "split_lines [] = []"
| "split_lines (c # cs) =
     (if is_line_end c then [] # split_lines cs
      else (case split_lines cs of
              [] \<Rightarrow> [[c]]
            | l # ls \<Rightarrow> (c # l) # ls))"

text \<open>Quotes of one kind around a value are taken off.\<close>

definition unquote :: "string \<Rightarrow> string" where
  "unquote v =
     (if 2 \<le> length v \<and> ((hd v = CHR 0x22 \<and> List.last v = CHR 0x22) \<or> (hd v = CHR 0x27 \<and> List.last v = CHR 0x27))
      then butlast (List.tl v) else v)"

text \<open>A line with a setting: not empty, no comment, with an equals sign, at the first of which it is split.\<close>

definition env_entry :: "string \<Rightarrow> (string \<times> string) option" where
  "env_entry raw =
     (let line = str_strip raw in
      if line = [] \<or> hd line = CHR ''#'' \<or> CHR ''='' \<notin> set line then None
      else Some (str_strip (takeWhile (\<lambda>c. c \<noteq> CHR ''='') line),
                 unquote (str_strip (drop 1 (dropWhile (\<lambda>c. c \<noteq> CHR ''='') line)))))"

text \<open>\<open>os.environ[name] = value\<close>: the system refuses an empty name and a null character.\<close>

definition set_env :: "string \<Rightarrow> string \<Rightarrow> (env, unit) step" where
  "set_env name v env =
     (if CHR 0x00 \<in> set name \<or> CHR 0x00 \<in> set v then (env, Inl (ValueError (text_msg ''embedded null byte'')))
      else if name = [] then (env, Inl (OtherError (text_msg ''[Errno 22] Invalid argument'')))
      else (env(name \<mapsto> v), Inr ()))"

fun load_lines :: "string list \<Rightarrow> (env, unit) step" where
  "load_lines [] = query (\<lambda>_. Inr ())"
| "load_lines (raw # raws) =
     (case env_entry raw of
        None \<Rightarrow> load_lines raws
      | Some (name, v) \<Rightarrow> andthen (set_env name v) (\<lambda>_. load_lines raws))"

definition load_env_file :: "string option \<Rightarrow> (env, unit) step" where
  "load_env_file file =
     (case file of None \<Rightarrow> query (\<lambda>_. Inr ()) | Some s \<Rightarrow> load_lines (split_lines (universal_newlines s)))"

section \<open>Choosing the credentials\<close>

definition env_text :: "env \<Rightarrow> string \<Rightarrow> string" where
  "env_text env name = str_strip (case env name of None \<Rightarrow> [] | Some v \<Rightarrow> v)"

definition launch_mode :: "env \<Rightarrow> string" where
  "launch_mode env =
     (let m = str_upper (str_strip (case env ''AEGIS_MODE'' of None \<Rightarrow> ''PAPER'' | Some v \<Rightarrow> v)) in
      if m = [] then ''PAPER'' else m)"

definition system_exit :: "message \<Rightarrow> 'a res" where
  "system_exit m = Inl (OtherError m)"

record profile =
  pf_name :: string
  pf_test_key :: string
  pf_test_secret :: string
  pf_live_key :: string
  pf_live_secret :: string
  pf_key :: string
  pf_secret :: string
  pf_required :: bool

definition select_profile :: "string \<Rightarrow> profile \<Rightarrow> (env, unit) step" where
  "select_profile mode p env =
     (let key = env_text env (if mode = ''PAPER'' then pf_test_key p else pf_live_key p);
          secret = env_text env (if mode = ''PAPER'' then pf_test_secret p else pf_live_secret p)
      in if mode = ''LIVE'' \<and> pf_required p \<and> (key = [] \<or> secret = [])
         then (env, system_exit [Str (pf_name p), Txt '' LIVE credentials missing. Fill '', Str (pf_live_key p),
                 Txt '' and '', Str (pf_live_secret p), Txt ''.''])
         else andthen (set_env (pf_key p) key) (\<lambda>_. set_env (pf_secret p) secret) env)"

definition binance_profile :: profile where
  "binance_profile = \<lparr>pf_name = ''Binance'', pf_test_key = ''BINANCE_TESTNET_API_KEY'',
     pf_test_secret = ''BINANCE_TESTNET_SECRET'', pf_live_key = ''BINANCE_LIVE_API_KEY'',
     pf_live_secret = ''BINANCE_LIVE_SECRET'', pf_key = ''BINANCE_API_KEY'', pf_secret = ''BINANCE_SECRET'',
     pf_required = True\<rparr>"

definition bybit_profile :: profile where
  "bybit_profile = \<lparr>pf_name = ''Bybit'', pf_test_key = ''BYBIT_TESTNET_API_KEY'',
     pf_test_secret = ''BYBIT_TESTNET_SECRET'', pf_live_key = ''BYBIT_LIVE_API_KEY'',
     pf_live_secret = ''BYBIT_LIVE_SECRET'', pf_key = ''BYBIT_API_KEY'', pf_secret = ''BYBIT_SECRET'',
     pf_required = False\<rparr>"

definition okx_profile :: profile where
  "okx_profile = \<lparr>pf_name = ''OKX'', pf_test_key = ''OKX_TESTNET_API_KEY'',
     pf_test_secret = ''OKX_TESTNET_SECRET'', pf_live_key = ''OKX_LIVE_API_KEY'',
     pf_live_secret = ''OKX_LIVE_SECRET'', pf_key = ''OKX_API_KEY'', pf_secret = ''OKX_SECRET'',
     pf_required = False\<rparr>"

definition okx_phrase :: "string \<Rightarrow> env \<Rightarrow> string" where
  "okx_phrase mode env =
     (let pick = (\<lambda>a b. if env_text env a = [] then env_text env b else env_text env a) in
      if mode = ''PAPER'' then pick ''OKX_TESTNET_PASSPHRASE'' ''OKX_TESTNET_PASSWORD''
      else pick ''OKX_LIVE_PASSPHRASE'' ''OKX_LIVE_PASSWORD'')"

definition confirm_live :: "string \<Rightarrow> (env, unit) step" where
  "confirm_live mode = query (\<lambda>env.
     if mode = ''LIVE'' \<and> env_text env ''AEGIS_LIVE_CONFIRM'' \<noteq> ''YES_I_ACCEPT_THE_RISK''
     then system_exit (text_msg ''LIVE mode blocked. Set AEGIS_LIVE_CONFIRM=YES_I_ACCEPT_THE_RISK only when you truly accept the risk.'') else Inr ())"

definition set_phrase :: "string \<Rightarrow> (env, unit) step" where
  "set_phrase mode env =
     (let s = okx_phrase mode env
      in andthen (set_env ''OKX_PASSPHRASE'' s) (\<lambda>_. set_env ''OKX_PASSWORD'' s) env)"

definition select_exchange_profiles :: "(env, unit) step" where
  "select_exchange_profiles env =
     (let mode = launch_mode env in
      if mode \<notin> {''PAPER'', ''LIVE''}
      then (env, system_exit [Txt ''Invalid AEGIS_MODE='', Str mode, Txt ''. Use PAPER or LIVE.''])
      else andthen (set_env ''AEGIS_MODE'' mode) (\<lambda>_. andthen (confirm_live mode)
        (\<lambda>_. andthen (select_profile mode binance_profile) (\<lambda>_. andthen (select_profile mode bybit_profile)
        (\<lambda>_. andthen (select_profile mode okx_profile) (\<lambda>_. set_phrase mode))))) env)"

definition bootstrap :: "string option \<Rightarrow> (env, unit) step" where
  "bootstrap file = andthen (load_env_file file) (\<lambda>_. select_exchange_profiles)"

section \<open>The report of profits\<close>

text \<open>The database file: absent, without a table of trades, or its columns and rows.\<close>

datatype trade_file = No_File | No_Table | Trade_Table "string list" "payload list"

record profit_report =
  pr_trades :: nat
  pr_buys :: nat
  pr_sells :: nat
  pr_pnl :: pyfloat
  pr_fees :: pyfloat
  pr_net :: pyfloat

text \<open>\<open>COUNT(*) ... WHERE UPPER(side)=...\<close>, and \<open>COALESCE(SUM(column), 0)\<close>, where a not-a-number is NULL.\<close>

definition count_side :: "string \<Rightarrow> payload list \<Rightarrow> nat" where
  "count_side side rows =
     length (filter (\<lambda>r. case get_val r ''side'' of VStr s \<Rightarrow> str_upper s = side | _ \<Rightarrow> False) rows)"

definition column_sum :: "string \<Rightarrow> payload list \<Rightarrow> pyfloat" where
  "column_sum col rows =
     (let s = py_sum (List.map_filter (\<lambda>r. as_number (get_val r col)) rows) in if s = NaN then Fin 0 else s)"

definition command_profit :: "trade_file \<Rightarrow> profit_report option" where
  "command_profit file =
     (case file of
        Trade_Table columns rows \<Rightarrow>
          (let has = (\<lambda>col. col \<in> set columns);
               pnl = (if has ''pnl'' then column_sum ''pnl'' rows else Fin 0);
               fees = (if has ''fee'' then column_sum ''fee'' rows else Fin 0)
           in Some \<lparr>pr_trades = length rows,
                pr_buys = (if has ''side'' then count_side ''BUY'' rows else 0),
                pr_sells = (if has ''side'' then count_side ''SELL'' rows else 0),
                pr_pnl = pnl, pr_fees = fees, pr_net = pnl - fees\<rparr>)
      | _ \<Rightarrow> None)"

section \<open>The watch screen and the doctor\<close>

text \<open>\<open>d[key]\<close> on an answer, and \<open>d.get(key)\<close>; other values have no keys.\<close>

definition watch_item :: "pyval \<Rightarrow> string \<Rightarrow> pyval res" where
  "watch_item v k =
     (case v of
        VDict d \<Rightarrow> (case map_of d k of None \<Rightarrow> Inl (KeyError k) | Some x \<Rightarrow> Inr x)
      | _ \<Rightarrow> Inl (TypeError (text_msg ''not subscriptable by a text'')))"

definition dict_of :: "pyval \<Rightarrow> payload res" where
  "dict_of v = (case v of VDict d \<Rightarrow> Inr d | _ \<Rightarrow> Inl (AttributeError (text_msg ''no attribute 'get'')))"

definition watch_rows :: "pyval \<Rightarrow> pyval list res" where
  "watch_rows health =
     rbind (watch_item health ''runtime'') (\<lambda>rt. rbind (watch_item rt ''services'') (\<lambda>services.
     rbind (watch_item services ''live-strategy-service'') (\<lambda>st. rbind (watch_item st ''metrics'') (\<lambda>strategy.
     rbind (watch_item services ''execution-service'') (\<lambda>ex. rbind (watch_item ex ''metrics'') (\<lambda>execution.
     rbind (dict_of strategy) (\<lambda>s. rbind (dict_of (dict_get s ''strategy'' (VDict []))) (\<lambda>inner.
     rbind (dict_of execution) (\<lambda>e. Inr
       [get_val s ''market_ticks_seen'', get_val s ''orderbooks_seen'', get_val inner ''signals_generated'',
        get_val s ''order_requests_published'', get_val e ''received_requests'',
        get_val e ''accepted_requests'', get_val e ''rejected_requests'', get_val e ''failed_requests''])))))))))"

text \<open>The files of the entry points and the text each must hold; any failure exits with 1.\<close>

definition doctor_table :: "(string \<times> string) list" where
  "doctor_table =
     [(''main.py'', ''AEGIS v2 unified controller''),
      (''runtime_main.py'', ''main(['' @ [CHR 0x22] @ ''run'' @ [CHR 0x22] @ ''])''),
      (''backtest_runtime_main.py'', ''main(['' @ [CHR 0x22] @ ''backtest-runtime'' @ [CHR 0x22] @ '']''),
      (''scripts/start_runtime.ps1'', ''python main.py --env-file $EnvFile run''),
      (''scripts/production_readiness.ps1'', ''python main.py --env-file $EnvFile readiness''),
      (''scripts/verify_runtime_endpoints.ps1'', ''python main.py verify''),
      (''Dockerfile'', ''['' @ [CHR 0x22] @ ''python'' @ [CHR 0x22] @ '', '' @ [CHR 0x22] @ ''main.py'' @ [CHR 0x22] @
         '', '' @ [CHR 0x22] @ ''run'' @ [CHR 0x22] @ '']''),
      (''aegis-pro.service'', ''main.py run''),
      (''RUN_AEGIS.ps1'', ''python main.py run'')]"

definition doctor_checks :: "(string \<Rightarrow> string option) \<Rightarrow> (string \<times> bool) list" where
  "doctor_checks files =
     (let svc = ''deploy/new/templates/aegis-pro.service.j2'';
          has = (\<lambda>(path, text). (path, case files path of None \<Rightarrow> False | Some s \<Rightarrow> str_contains text s))
      in map has (doctor_table @ (if files svc = None then [] else [(svc, ''main.py run'')])))"

definition command_doctor :: "(string \<Rightarrow> string option) \<Rightarrow> unit res" where
  "command_doctor files =
     (if \<forall>c \<in> set (doctor_checks files). snd c then Inr () else system_exit (text_msg ''1''))"


section \<open>The environment file is read back\<close>

text \<open>A line of the file for a variable, its value in quotes.\<close>

definition env_line :: "string \<times> string \<Rightarrow> string" where
  "env_line p = fst p @ ''='' @ [CHR 0x22] @ snd p @ [CHR 0x22]"

definition plain_line :: "string \<times> string \<Rightarrow> bool" where
  "plain_line p \<longleftrightarrow> fst p \<noteq> [] \<and> str_strip (fst p) = fst p \<and> hd (fst p) \<noteq> CHR ''#'' \<and> CHR ''='' \<notin> set (fst p) \<and>
     (\<forall>c \<in> set (fst p) \<union> set (snd p). \<not> is_line_end c \<and> c \<noteq> CHR 0x00)"

lemma newlines_plain: "CHR 0x0D \<notin> set s \<Longrightarrow> universal_newlines s = s"
  by (induction s rule: universal_newlines.induct) auto

lemma split_lines_append: "\<forall>c \<in> set l. \<not> is_line_end c \<Longrightarrow> split_lines (l @ CHR 0x0A # s) = l # split_lines s"
  by (induction l) (auto simp: is_line_end_def)

lemma split_lines_concat:
  "\<forall>l \<in> set ls. \<forall>c \<in> set l. \<not> is_line_end c \<Longrightarrow> split_lines (concat (map (\<lambda>l. l @ [CHR 0x0A]) ls)) = ls"
  by (induction ls) (simp_all add: split_lines_append)

lemma strip_inner: "a \<noteq> [] \<Longrightarrow> \<not> is_space (hd a) \<Longrightarrow> \<not> is_space (List.last a) \<Longrightarrow> str_strip a = a"
proof -
  assume a: "a \<noteq> []" "\<not> is_space (hd a)" "\<not> is_space (List.last a)"
  have keep: "dropWhile is_space x = x" if "x \<noteq> []" "\<not> is_space (hd x)" for x using that by (cases x) auto
  have "dropWhile is_space a = a" "dropWhile is_space (rev a) = rev a" using a by (simp_all add: keep hd_rev)
  then show ?thesis by (simp add: str_strip_def)
qed

lemma strip_fixed: "str_strip a = a \<Longrightarrow> a \<noteq> [] \<Longrightarrow> \<not> is_space (hd a)"
proof
  assume a: "str_strip a = a" "a \<noteq> []" "is_space (hd a)"
  then have "length (dropWhile is_space a) < length a" by (cases a) (auto simp: le_imp_less_Suc length_dropWhile_le)
  moreover have "length (str_strip a) \<le> length (dropWhile is_space a)"
    unfolding str_strip_def by (metis length_dropWhile_le length_rev)
  ultimately show False using a(1) by simp
qed

lemma unquote_quoted [simp]: "unquote (CHR 0x22 # v @ [CHR 0x22]) = v"
  by (simp add: unquote_def)

lemma env_entry_line:
  assumes "plain_line p" shows "env_entry (env_line p) = Some p"
proof -
  obtain n v where p: "p = (n, v)" by fastforce
  have n: "n \<noteq> []" "str_strip n = n" "hd n \<noteq> CHR ''#''" "CHR ''='' \<notin> set n" using assms by (auto simp: plain_line_def p)
  have q: "str_strip (CHR 0x22 # v @ [CHR 0x22]) = CHR 0x22 # v @ [CHR 0x22]"
    by (rule strip_inner) (simp_all add: is_space_def)
  have "str_strip (env_line p) = env_line p"
    using n strip_fixed [OF n(2,1)] by (intro strip_inner) (simp_all add: env_line_def p is_space_def)
  moreover have "takeWhile (\<lambda>c. c \<noteq> CHR ''='') (n @ CHR ''='' # r) = n \<and>
      dropWhile (\<lambda>c. c \<noteq> CHR ''='') (n @ CHR ''='' # r) = CHR ''='' # r" for r
    using n(4) by (induction n) auto
  ultimately show ?thesis using n q by (simp add: env_entry_def Let_def p env_line_def)
qed

theorem env_file_roundtrip:
  assumes "\<forall>p \<in> set ps. plain_line p"
  shows "load_env_file (Some (concat (map (\<lambda>p. env_line p @ [CHR 0x0A]) ps))) env = (env ++ map_of (rev ps), Inr ())"
proof -
  have line: "\<not> is_line_end c" if "p \<in> set ps" "c \<in> set (env_line p)" for p c
    using assms that by (auto simp: plain_line_def env_line_def is_line_end_def)
  let ?f = "concat (map (\<lambda>p. env_line p @ [CHR 0x0A]) ps)"
  have "CHR 0x0D \<notin> set (env_line p)" if "p \<in> set ps" for p using line [OF that, of "CHR 0x0D"] by (auto simp: is_line_end_def)
  then have "CHR 0x0D \<notin> set ?f" by auto
  moreover have "split_lines ?f = map env_line ps"
    using split_lines_concat [of "map env_line ps"] line by (simp add: comp_def)
  moreover have "load_lines (map env_line ps) env = (env ++ map_of (rev ps), Inr ())"
    using assms
  proof (induction ps arbitrary: env)
    case (Cons p ps)
    obtain n v where p: "p = (n, v)" by fastforce
    have "set_env n v env = (env(n \<mapsto> v), Inr ())" using Cons.prems by (auto simp: set_env_def plain_line_def p)
    then show ?case using Cons by (simp add: env_entry_line andthen_def p map_add_assoc)
  qed (simp add: query_def)
  ultimately show ?thesis by (simp add: load_env_file_def newlines_plain)
qed


section \<open>The credentials of the mode\<close>

lemma set_env_Inr: "set_env name v env = (env', Inr ()) \<longleftrightarrow>
    CHR 0x00 \<notin> set name \<and> CHR 0x00 \<notin> set v \<and> name \<noteq> [] \<and> env' = env(name \<mapsto> v)"
  by (auto simp: set_env_def)

lemma select_profile_Inr: "select_profile mode p env = (env', Inr ()) \<longleftrightarrow>
    (let key = env_text env (if mode = ''PAPER'' then pf_test_key p else pf_live_key p);
         secret = env_text env (if mode = ''PAPER'' then pf_test_secret p else pf_live_secret p)
     in \<not> (mode = ''LIVE'' \<and> pf_required p \<and> (key = [] \<or> secret = [])) \<and> pf_key p \<noteq> [] \<and> pf_secret p \<noteq> [] \<and>
       CHR 0x00 \<notin> set (pf_key p) \<union> set (pf_secret p) \<union> set key \<union> set secret \<and>
       env' = env(pf_key p \<mapsto> key, pf_secret p \<mapsto> secret))"
  by (auto simp: select_profile_def Let_def andthen_Inr set_env_Inr system_exit_def)

lemma env_text_update [simp]: "env_text (env(k \<mapsto> v)) n = (if n = k then str_strip v else env_text env n)"
  by (simp add: env_text_def)

text \<open>The variables a launch sets, from the environment before it.\<close>

definition chosen :: "env \<Rightarrow> string \<Rightarrow> string \<Rightarrow> string" where
  "chosen env test live = env_text env (if launch_mode env = ''PAPER'' then test else live)"

definition launched :: "env \<Rightarrow> env" where
  "launched env = env(''AEGIS_MODE'' \<mapsto> launch_mode env,
     ''BINANCE_API_KEY'' \<mapsto> chosen env ''BINANCE_TESTNET_API_KEY'' ''BINANCE_LIVE_API_KEY'',
     ''BINANCE_SECRET'' \<mapsto> chosen env ''BINANCE_TESTNET_SECRET'' ''BINANCE_LIVE_SECRET'',
     ''BYBIT_API_KEY'' \<mapsto> chosen env ''BYBIT_TESTNET_API_KEY'' ''BYBIT_LIVE_API_KEY'',
     ''BYBIT_SECRET'' \<mapsto> chosen env ''BYBIT_TESTNET_SECRET'' ''BYBIT_LIVE_SECRET'',
     ''OKX_API_KEY'' \<mapsto> chosen env ''OKX_TESTNET_API_KEY'' ''OKX_LIVE_API_KEY'',
     ''OKX_SECRET'' \<mapsto> chosen env ''OKX_TESTNET_SECRET'' ''OKX_LIVE_SECRET'',
     ''OKX_PASSPHRASE'' \<mapsto> okx_phrase (launch_mode env) env,
     ''OKX_PASSWORD'' \<mapsto> okx_phrase (launch_mode env) env)"

lemmas profile_simps = binance_profile_def bybit_profile_def okx_profile_def

lemma select_launched:
  assumes "select_exchange_profiles env = (env', Inr ())"
  shows "env' = launched env" "launch_mode env \<in> {''PAPER'', ''LIVE''}"
    "launch_mode env = ''LIVE'' \<Longrightarrow> env_text env ''AEGIS_LIVE_CONFIRM'' = ''YES_I_ACCEPT_THE_RISK'' \<and>
       chosen env ''BINANCE_TESTNET_API_KEY'' ''BINANCE_LIVE_API_KEY'' \<noteq> [] \<and>
       chosen env ''BINANCE_TESTNET_SECRET'' ''BINANCE_LIVE_SECRET'' \<noteq> []"
proof -
  let ?m = "launch_mode env"
  show mode: "?m \<in> {''PAPER'', ''LIVE''}"
    using assms by (auto simp: select_exchange_profiles_def Let_def system_exit_def split: if_splits)
  define e0 where "e0 = env(''AEGIS_MODE'' \<mapsto> ?m)"
  from assms mode obtain e1 e2 e3 where steps: "confirm_live ?m e0 = (e0, Inr ())"
      "select_profile ?m binance_profile e0 = (e1, Inr ())" "select_profile ?m bybit_profile e1 = (e2, Inr ())"
      "select_profile ?m okx_profile e2 = (e3, Inr ())" "set_phrase ?m e3 = (env', Inr ())"
    by (auto simp: select_exchange_profiles_def Let_def andthen_Inr set_env_Inr e0_def confirm_live_def query_iff
        split: if_splits)
  have e1: "e1 = e0(''BINANCE_API_KEY'' \<mapsto> chosen env ''BINANCE_TESTNET_API_KEY'' ''BINANCE_LIVE_API_KEY'',
      ''BINANCE_SECRET'' \<mapsto> chosen env ''BINANCE_TESTNET_SECRET'' ''BINANCE_LIVE_SECRET'')"
    using steps(2) by (auto simp: select_profile_Inr Let_def profile_simps chosen_def e0_def)
  have e2: "e2 = e1(''BYBIT_API_KEY'' \<mapsto> chosen env ''BYBIT_TESTNET_API_KEY'' ''BYBIT_LIVE_API_KEY'',
      ''BYBIT_SECRET'' \<mapsto> chosen env ''BYBIT_TESTNET_SECRET'' ''BYBIT_LIVE_SECRET'')"
    using steps(3) by (auto simp: select_profile_Inr Let_def profile_simps chosen_def e1 e0_def)
  have e3: "e3 = e2(''OKX_API_KEY'' \<mapsto> chosen env ''OKX_TESTNET_API_KEY'' ''OKX_LIVE_API_KEY'',
      ''OKX_SECRET'' \<mapsto> chosen env ''OKX_TESTNET_SECRET'' ''OKX_LIVE_SECRET'')"
    using steps(4) by (auto simp: select_profile_Inr Let_def profile_simps chosen_def e2 e1 e0_def)
  have "okx_phrase ?m e3 = okx_phrase ?m env" by (simp add: okx_phrase_def e3 e2 e1 e0_def)
  then show "env' = launched env"
    using steps(5) by (auto simp: set_phrase_def Let_def andthen_Inr set_env_Inr launched_def e3 e2 e1 e0_def)
  show "env_text env ''AEGIS_LIVE_CONFIRM'' = ''YES_I_ACCEPT_THE_RISK'' \<and>
      chosen env ''BINANCE_TESTNET_API_KEY'' ''BINANCE_LIVE_API_KEY'' \<noteq> [] \<and>
      chosen env ''BINANCE_TESTNET_SECRET'' ''BINANCE_LIVE_SECRET'' \<noteq> []" if live: "?m = ''LIVE''"
    using steps(1,2) live
    by (auto simp: confirm_live_def query_iff system_exit_def e0_def select_profile_Inr Let_def profile_simps
        chosen_def split: if_splits)
qed


text \<open>What a launch in PAPER mode does not read, and environments that agree on all else.\<close>

definition live_names :: "string set" where
  "live_names = {''BINANCE_LIVE_API_KEY'', ''BINANCE_LIVE_SECRET'', ''BYBIT_LIVE_API_KEY'', ''BYBIT_LIVE_SECRET'',
     ''OKX_LIVE_API_KEY'', ''OKX_LIVE_SECRET'', ''OKX_LIVE_PASSPHRASE'', ''OKX_LIVE_PASSWORD''}"

definition agree :: "env \<Rightarrow> env \<Rightarrow> bool" where
  "agree e1 e2 \<longleftrightarrow> (\<forall>n. n \<notin> live_names \<longrightarrow> e1 n = e2 n)"

definition ends_alike :: "env \<times> unit res \<Rightarrow> env \<times> unit res \<Rightarrow> bool" where
  "ends_alike x y \<longleftrightarrow> snd x = snd y \<and> agree (fst x) (fst y)"

lemma agree_text: "agree e1 e2 \<Longrightarrow> n \<notin> live_names \<Longrightarrow> env_text e1 n = env_text e2 n"
  by (simp add: agree_def env_text_def)

lemma set_env_alike: "agree e1 e2 \<Longrightarrow> ends_alike (set_env n v e1) (set_env n v e2)"
  by (auto simp: ends_alike_def set_env_def agree_def)

lemma andthen_alike:
  assumes "ends_alike (m e1) (m e2)" "\<And>f1 f2. agree f1 f2 \<Longrightarrow> ends_alike (k f1) (k f2)"
  shows "ends_alike (andthen m (\<lambda>_::unit. k) e1) (andthen m (\<lambda>_. k) e2)"
  using assms(1) assms(2) [of "fst (m e1)" "fst (m e2)"]
  by (auto simp: ends_alike_def andthen_def split: prod.splits sum.splits)

lemma select_profile_alike:
  assumes "agree e1 e2" "pf_test_key p \<notin> live_names" "pf_test_secret p \<notin> live_names"
  shows "ends_alike (select_profile ''PAPER'' p e1) (select_profile ''PAPER'' p e2)"
  using agree_text [OF assms(1,2)] agree_text [OF assms(1,3)]
  by (auto simp: select_profile_def Let_def intro!: andthen_alike set_env_alike assms(1))

lemma set_phrase_alike: "agree e1 e2 \<Longrightarrow> ends_alike (set_phrase ''PAPER'' e1) (set_phrase ''PAPER'' e2)"
  using agree_text [of e1 e2 "''OKX_TESTNET_PASSPHRASE''"] agree_text [of e1 e2 "''OKX_TESTNET_PASSWORD''"]
  by (auto simp: set_phrase_def okx_phrase_def Let_def live_names_def intro!: andthen_alike set_env_alike)

text \<open>
  C39. A launch in PAPER mode is blind to the live credentials. Two environments that agree on all variables
  but those of the live credentials end alike: with the same exception or none, and in environments
  that again agree on all others, those the program reads among them.
\<close>

theorem paper_launch_ignores_live_credentials:
  assumes "launch_mode e1 = ''PAPER''" "agree e1 e2"
  shows "ends_alike (select_exchange_profiles e1) (select_exchange_profiles e2)"
proof -
  have "e1 ''AEGIS_MODE'' = e2 ''AEGIS_MODE''" using assms(2) by (simp add: agree_def live_names_def)
  then have mode: "launch_mode e2 = ''PAPER''" using assms(1) by (simp add: launch_mode_def)
  have confirm: "ends_alike (confirm_live ''PAPER'' f1) (confirm_live ''PAPER'' f2)" if "agree f1 f2" for f1 f2
    using that by (simp add: ends_alike_def confirm_live_def query_def)
  show ?thesis
    unfolding select_exchange_profiles_def assms(1) mode Let_def
    by (simp, intro andthen_alike set_env_alike confirm select_profile_alike set_phrase_alike assms(2))
      (simp_all add: profile_simps live_names_def)
qed

text \<open>
  What the configuration of the program then holds: a mode with its consent, and in LIVE mode the
  credentials of Binance. In PAPER mode a testnet key that is not set hides nothing: the key that the
  encrypted file stores, a live one perhaps, remains.
\<close>

theorem launched_configuration:
  assumes "bootstrap file env = (env', Inr ())"
  shows "(cfg_mode (load_config env' stored) = ''PAPER'' \<or>
      cfg_mode (load_config env' stored) = ''LIVE'' \<and> env_text env' ''AEGIS_LIVE_CONFIRM'' = ''YES_I_ACCEPT_THE_RISK'' \<and>
        cfg_binance_key (load_config env' stored) \<noteq> [] \<and> cfg_binance_secret (load_config env' stored) \<noteq> []) \<and>
    (env_text env' ''BINANCE_TESTNET_API_KEY'' = [] \<longrightarrow> cfg_mode (load_config env' stored) = ''PAPER'' \<longrightarrow>
       cfg_binance_key (load_config env' stored) = cfg_binance_key stored)"
proof -
  obtain e where sel: "select_exchange_profiles e = (env', Inr ())"
    using assms by (auto simp: bootstrap_def andthen_Inr)
  note l = select_launched [OF sel]
  have mode: "cfg_mode (load_config env' stored) = launch_mode e"
    using l(2) by (auto simp: l(1) load_config_def overridden_def launched_def)
  have "env_text env' ''BINANCE_TESTNET_API_KEY'' = env_text e ''BINANCE_TESTNET_API_KEY''"
    "env_text env' ''AEGIS_LIVE_CONFIRM'' = env_text e ''AEGIS_LIVE_CONFIRM''"
    by (simp_all add: l(1) launched_def)
  with l(2,3) mode show ?thesis
    by (auto simp: load_config_def overridden_def l(1) launched_def chosen_def)
qed

lemma strip_strip [simp]: "str_strip (str_strip s) = str_strip s"
proof (cases "str_strip s = []")
  case False
  let ?d = "dropWhile is_space s"
  have d: "?d \<noteq> []" "\<exists>x \<in> set ?d. \<not> is_space x"
  proof -
    show ne: "?d \<noteq> []"
    proof
      assume e: "?d = []"
      show False using False unfolding str_strip_def e by simp
    qed
    then have "\<not> is_space (hd ?d)" using hd_dropWhile by blast
    then show "\<exists>x \<in> set ?d. \<not> is_space x" by (rule bexI) (simp only: hd_in_set ne not_False_eq_True)
  qed
  have u: "?d = str_strip s @ rev (takeWhile is_space (rev ?d))"
    unfolding str_strip_def by (metis rev_append rev_rev_ident takeWhile_dropWhile_id)
  have "\<not> is_space (hd (str_strip s))"
    using False d(1) u hd_dropWhile [of is_space s] by (metis hd_append2)
  moreover have "\<not> is_space (List.last (str_strip s))"
    using False unfolding str_strip_def by (metis hd_dropWhile hd_rev rev_is_Nil_conv rev_rev_ident)
  ultimately show ?thesis using False by (intro strip_inner)
next
  case True
  have "str_strip [] = []" by (simp add: str_strip_def)
  then show ?thesis by (simp only: True)
qed

text \<open>Launching again changes nothing.\<close>

theorem launch_is_idempotent:
  assumes "select_exchange_profiles env = (env', Inr ())"
  shows "launched env' = env'"
proof -
  note l = select_launched [OF assms]
  have mode: "launch_mode env' = launch_mode env"
  proof -
    have "env' ''AEGIS_MODE'' = Some (launch_mode env)" by (simp add: l(1) launched_def)
    moreover have "str_upper (str_strip ''PAPER'') = ''PAPER''" "str_upper (str_strip ''LIVE'') = ''LIVE''" by code_simp+
    ultimately show ?thesis using l(2) by (auto simp: launch_mode_def [of env'] simp del: strip_strip)
  qed
  have same: "env_text env' n = env_text env n"
    if "n \<notin> {''AEGIS_MODE'', ''BINANCE_API_KEY'', ''BINANCE_SECRET'', ''BYBIT_API_KEY'', ''BYBIT_SECRET'', ''OKX_API_KEY'',
      ''OKX_SECRET'', ''OKX_PASSPHRASE'', ''OKX_PASSWORD''}" for n
    using that by (simp add: l(1) launched_def)
  have "launched env' = env'(''AEGIS_MODE'' \<mapsto> launch_mode env,
     ''BINANCE_API_KEY'' \<mapsto> chosen env ''BINANCE_TESTNET_API_KEY'' ''BINANCE_LIVE_API_KEY'',
     ''BINANCE_SECRET'' \<mapsto> chosen env ''BINANCE_TESTNET_SECRET'' ''BINANCE_LIVE_SECRET'',
     ''BYBIT_API_KEY'' \<mapsto> chosen env ''BYBIT_TESTNET_API_KEY'' ''BYBIT_LIVE_API_KEY'',
     ''BYBIT_SECRET'' \<mapsto> chosen env ''BYBIT_TESTNET_SECRET'' ''BYBIT_LIVE_SECRET'',
     ''OKX_API_KEY'' \<mapsto> chosen env ''OKX_TESTNET_API_KEY'' ''OKX_LIVE_API_KEY'',
     ''OKX_SECRET'' \<mapsto> chosen env ''OKX_TESTNET_SECRET'' ''OKX_LIVE_SECRET'',
     ''OKX_PASSPHRASE'' \<mapsto> okx_phrase (launch_mode env) env,
     ''OKX_PASSWORD'' \<mapsto> okx_phrase (launch_mode env) env)"
    by (simp add: launched_def [of env'] chosen_def mode same okx_phrase_def)
  also have "\<dots> = env'" by (rule ext) (simp add: l(1) launched_def)
  finally show ?thesis .
qed


section \<open>The report of profits\<close>

lemma process_fill_realized:
  assumes "process_fill p r marks strat uuid now s = (s', res)"
    and "l_realized (fs_ledger s) = py_sum (map t_pnl (l_trades (fs_ledger s)))"
  shows "l_realized (fs_ledger s') = py_sum (map t_pnl (l_trades (fs_ledger s')))"
proof (cases "\<not> has_fill r \<or> r_avg_price r \<le> Fin 0 \<or> \<not> is_ok (apply_fill (fs_ledger s) (fill_of_report r strat uuid) now)")
  case True
  with assms show ?thesis by (auto simp: process_fill_def is_ok_iff split: if_splits sum.splits)
next
  case False
  then obtain l1 trd where fill: "apply_fill (fs_ledger s) (fill_of_report r strat uuid) now = Inr (l1, trd)"
    by (auto simp: is_ok_iff)
  have "l_realized l1 = py_sum (map t_pnl (l_trades l1))"
    using fill by (cases rule: apply_fillE) (simp add: assms(2) py_sum_append)
  with False fill assms(1) show ?thesis
    by (auto simp: process_fill_def record_trade_def send_def Let_def save_state_def
        split: option.splits prod.splits sum.splits)
qed

lemma booked_tables:
  assumes "run_events (book_step p) s bs = (s', rs)" "fp_database p = Some trade_sink"
    and "fs_trades s = filter row_ok (l_trades (fs_ledger s))"
    and "l_realized (fs_ledger s) = py_sum (map t_pnl (l_trades (fs_ledger s)))"
  shows "fs_trades s' = filter row_ok (l_trades (fs_ledger s')) \<and>
    l_realized (fs_ledger s') = py_sum (map t_pnl (l_trades (fs_ledger s')))"
  using assms(1,3,4)
proof (induction bs arbitrary: s rs)
  case (Cons b bs)
  obtain s1 r1 where b: "book_step p s b = (s1, r1)" by fastforce
  then have "fs_trades s1 = filter row_ok (l_trades (fs_ledger s1))"
    "l_realized (fs_ledger s1) = py_sum (map t_pnl (l_trades (fs_ledger s1)))"
    using process_fill_rows [OF _ assms(2) Cons.prems(2)] process_fill_realized [OF _ Cons.prems(3)]
    by (auto simp: book_step_def split: prod.splits)
  with Cons b show ?case by (auto simp: Let_def split: prod.splits)
qed auto

text \<open>The rows of the table as the report reads them.\<close>

definition table_columns :: "string list" where
  "table_columns = [''id'', ''trade_id'', ''order_id'', ''symbol'', ''side'', ''quantity'', ''price'', ''exchange'',
     ''pnl'', ''fee'', ''strategy_id'', ''timestamp'', ''payload_json'']"

definition trade_file_of :: "database \<Rightarrow> trade_file" where
  "trade_file_of db = Trade_Table table_columns (map (\<lambda>v. case v of VDict d \<Rightarrow> d | _ \<Rightarrow> []) (db_trades db))"

lemma trade_row_get:
  fixes t :: trade
  defines "row \<equiv> sort_key fst (map (map_prod id json_norm) (trade_to_dict t))"
  shows "get_val row ''pnl'' = VFloat (t_pnl t)" "get_val row ''fee'' = VFloat (t_fee t)"
    "get_val row ''side'' = VStr (t_side t)"
proof -
  have "distinct (map fst (trade_to_dict t))" by (simp add: trade_to_dict_def)
  note get = norm_dict_get [OF this]
  show "get_val row ''pnl'' = VFloat (t_pnl t)" "get_val row ''fee'' = VFloat (t_fee t)"
    "get_val row ''side'' = VStr (t_side t)"
    unfolding row_def get_val_def get by (simp_all add: trade_to_dict_def dict_simps)
qed

text \<open>
  What the fills of a run earn before any fee, said from the position before each fill: on the quantity
  the fill closes of it, the difference between its price and the average entry, with the sign of the
  position. A fill that opens or adds to a position earns nothing.
\<close>

definition gross_profit :: "position option \<Rightarrow> pyfloat \<Rightarrow> pyfloat \<Rightarrow> pyfloat" where
  "gross_profit pos delta price =
     (case pos of
        None \<Rightarrow> Fin 0
      | Some p \<Rightarrow>
          (let q = p_quantity p in
           if \<bar>q\<bar> \<le> EPSILON \<or> (Fin 0 < q \<and> Fin 0 < delta) \<or> (q < Fin 0 \<and> delta < Fin 0) then Fin 0
           else (if Fin 0 < q then price - p_avg_entry p else p_avg_entry p - price) * py_min \<bar>q\<bar> \<bar>delta\<bar>))"

definition report_delta :: "execution_report \<Rightarrow> pyfloat" where
  "report_delta r = (if str_upper (r_side r) = ''BUY'' then r_filled r else - r_filled r)"

fun gross_profits :: "processor \<Rightarrow> fill_state \<Rightarrow> booking list \<Rightarrow> pyfloat list" where
  "gross_profits p s [] = []"
| "gross_profits p s (b # bs) =
     (if bookable (fst b)
      then [gross_profit (get_position (fs_ledger s) (r_symbol (fst b))) (report_delta (fst b)) (r_avg_price (fst b))]
      else []) @ gross_profits p (fst (book_step p s b)) bs"

lemma apply_signed_fill_gross:
  "snd (apply_signed_fill p d price fee) = gross_profit (Some p) d price - fee"
proof -
  have "Fin 0 - fee = - fee" by (cases fee) (simp_all add: minus_pyfloat_def)
  then show ?thesis by (simp add: apply_signed_fill_def gross_profit_def Let_def)
qed

lemma apply_fill_gross:
  assumes "apply_fill l (fill_of_report r strat uuid) now = Inr (l1, t)"
  shows "t_pnl t = gross_profit (get_position l (r_symbol r)) (report_delta r) (r_avg_price r) - t_fee t"
  using assms
proof (cases rule: apply_fillE)
  case (1 p1 pnl)
  have "gross_profit (Some (start_position l (fill_of_report r strat uuid) now)) d x =
      gross_profit (get_position l (r_symbol r)) d x" for d x
    by (simp add: start_position_def get_position_def fill_of_report_def gross_profit_def new_position_def
        split: option.splits)
  moreover have "t_fee t = r_fee r" using apply_report_trade(1) [OF assms] by (simp add: booked_as_def)
  moreover have "signed_delta (fill_of_report r strat uuid) = report_delta r"
    by (simp add: signed_delta_def fill_of_report_def report_delta_def)
  ultimately show ?thesis
    using apply_signed_fill_gross [of "start_position l (fill_of_report r strat uuid) now" "report_delta r" "r_avg_price r" "r_fee r"]
      1(2,6) by (simp add: fill_of_report_def)
qed

lemma book_step_gross:
  assumes "book_step p s b = (s', res)"
  shows "\<exists>ts. l_trades (fs_ledger s') = l_trades (fs_ledger s) @ ts \<and>
    list_all2 (\<lambda>g t. t_pnl t = g - t_fee t) (gross_profits p s [b]) ts"
proof -
  obtain r marks strat uuid now where b: "b = (r, marks, strat, uuid, now)" by (metis prod_cases5)
  have run: "process_fill p r marks strat uuid now s = (s', res)" using assms by (simp add: book_step_def b)
  obtain ts where ts: "l_trades (fs_ledger s') = l_trades (fs_ledger s) @ ts" "call_outcome p b res ts"
    using process_fill_outcome [OF run] by (auto simp: b)
  show ?thesis
  proof (cases "bookable r")
    case False
    then have "ts = []" using ts(2) by (auto simp: call_outcome_def b split: if_splits)
    then show ?thesis using ts(1) False by (simp add: b)
  next
    case True
    then obtain l1 t where fill: "apply_fill (fs_ledger s) (fill_of_report r strat uuid) now = Inr (l1, t)"
      using apply_report_ok [of "fs_ledger s" r strat uuid now] by (auto simp: bookable_def is_ok_iff)
    have "l_trades (fs_ledger s') = l_trades l1"
      using run True fill
      by (auto simp: bookable_def process_fill_def Let_def record_trade_def send_def save_state_def
          split: option.splits prod.splits sum.splits)
    then show ?thesis using apply_fill_gross [OF fill] apply_report_trade(2) [OF fill] True by (simp add: b)
  qed
qed

lemma run_gross:
  assumes "run_events (book_step p) s bs = (s', rs)"
  shows "\<exists>ts. l_trades (fs_ledger s') = l_trades (fs_ledger s) @ ts \<and>
    list_all2 (\<lambda>g t. t_pnl t = g - t_fee t) (gross_profits p s bs) ts"
  using assms
proof (induction bs arbitrary: s rs)
  case (Cons b bs)
  obtain s1 r1 where b: "book_step p s b = (s1, r1)" by fastforce
  obtain ts where "l_trades (fs_ledger s1) = l_trades (fs_ledger s) @ ts"
      "list_all2 (\<lambda>g t. t_pnl t = g - t_fee t) (gross_profits p s [b]) ts"
    using book_step_gross [OF b] by blast
  moreover obtain us where "l_trades (fs_ledger s') = l_trades (fs_ledger s1) @ us"
      "list_all2 (\<lambda>g t. t_pnl t = g - t_fee t) (gross_profits p s1 bs) us"
    using Cons b by (fastforce simp: Let_def split: prod.splits)
  moreover have "gross_profits p s (b # bs) = gross_profits p s [b] @ gross_profits p s1 bs" by (simp add: b)
  ultimately show ?case by (intro exI [of _ "ts @ us"]) (simp add: list_all2_appendI del: gross_profits.simps)
qed simp

text \<open>Subtracting each fee from its profit is subtracting the fees from the sum.\<close>

lemma sum_of_net:
  assumes "list_all2 (\<lambda>g t. t_pnl t = g - t_fee t) gs ts" "\<forall>t \<in> set ts. is_fin (t_pnl t) \<and> is_fin (t_fee t)"
  shows "py_sum (map t_pnl ts) = py_sum gs - py_sum (map t_fee ts)"
proof -
  have "py_sum (map t_pnl ts) = py_sum gs - py_sum (map t_fee ts) \<and> is_fin (py_sum gs) \<and> is_fin (py_sum (map t_fee ts))"
    using assms
  proof (induction rule: list_all2_induct)
    case (Cons g gs t ts)
    from Cons.prems have "is_fin (g - t_fee t)" "is_fin (t_fee t)" using Cons.hyps(1) by simp_all
    then obtain x f where x: "g = Fin x" "t_fee t = Fin f" by (cases g; cases "t_fee t") (auto simp: minus_pyfloat_def)
    moreover obtain y h where "py_sum gs = Fin y" "py_sum (map t_fee ts) = Fin h"
      using Cons.IH Cons.prems by (auto simp: is_fin_iff)
    ultimately show ?case using Cons.IH Cons.prems Cons.hyps(1) by simp
  qed simp
  then show ?thesis by simp
qed

text \<open>
  C38. The report of profits takes the fees off twice. After any sequence of reports whose trades are in the
  table, let the gross profit be the sum, over the booked fills, of what each earns by its price alone on
  the position before it. The profit of the report is the realized profit of the ledger, which is the
  gross profit less all fees; its net result subtracts the same fees a second time.
\<close>

theorem profit_report_counts_fees_twice:
  assumes "run_events (book_step p) \<lparr>fs_ledger = new_ledger, fs_trades = [], fs_saved = None\<rparr> bs = (s, rs)"
    and "fp_database p = Some trade_sink"
    and "\<forall>t \<in> set (l_trades (fs_ledger s)). row_ok t \<and> is_fin (t_pnl t) \<and> is_fin (t_fee t)"
  shows "\<exists>rep gross fees. command_profit (trade_file_of (table_of (fs_trades s))) = Some rep \<and>
    gross = py_sum (gross_profits p \<lparr>fs_ledger = new_ledger, fs_trades = [], fs_saved = None\<rparr> bs) \<and>
    fees = py_sum (map t_fee (l_trades (fs_ledger s))) \<and>
    pr_trades rep = length (l_trades (fs_ledger s)) \<and> pr_fees rep = fees \<and>
    pr_pnl rep = l_realized (fs_ledger s) \<and> pr_pnl rep = gross - fees \<and> pr_net rep = gross - fees - fees"
proof -
  let ?ts = "l_trades (fs_ledger s)"
  let ?row = "\<lambda>t. sort_key fst (map (map_prod id json_norm) (trade_to_dict t))"
  have tables: "fs_trades s = filter row_ok ?ts" "l_realized (fs_ledger s) = py_sum (map t_pnl ?ts)"
    using booked_tables [OF assms(1,2)] by (simp_all add: new_ledger_def)
  have "fs_trades s = ?ts" using tables(1) assms(3) by (simp add: filter_id_conv)
  then have rows: "trade_file_of (table_of (fs_trades s)) = Trade_Table table_columns (map ?row ?ts)"
    by (simp add: trade_file_of_def table_of_def)
  have sum: "column_sum ''pnl'' (map ?row ts) = py_sum (map t_pnl ts)" "column_sum ''fee'' (map ?row ts) = py_sum (map t_fee ts)"
    if "\<forall>t \<in> set ts. is_fin (t_pnl t) \<and> is_fin (t_fee t)" for ts
  proof -
    have "List.map_filter (\<lambda>r. as_number (get_val r ''pnl'')) (map ?row ts) = map t_pnl ts"
      "List.map_filter (\<lambda>r. as_number (get_val r ''fee'')) (map ?row ts) = map t_fee ts"
      by (induction ts) (simp_all add: trade_row_get)
    moreover have "is_fin (py_sum (map t_pnl ts))" "is_fin (py_sum (map t_fee ts))"
      using that by (subst py_sum_fin; force simp: list_all_iff)+
    ultimately show "column_sum ''pnl'' (map ?row ts) = py_sum (map t_pnl ts)"
      "column_sum ''fee'' (map ?row ts) = py_sum (map t_fee ts)"
      by (auto simp: column_sum_def is_fin_iff)
  qed
  obtain ts where ts: "?ts = [] @ ts"
      "list_all2 (\<lambda>g t. t_pnl t = g - t_fee t)
         (gross_profits p \<lparr>fs_ledger = new_ledger, fs_trades = [], fs_saved = None\<rparr> bs) ts"
    using run_gross [OF assms(1)] by (auto simp: new_ledger_def)
  then have gross: "py_sum (map t_pnl ?ts) =
      py_sum (gross_profits p \<lparr>fs_ledger = new_ledger, fs_trades = [], fs_saved = None\<rparr> bs) - py_sum (map t_fee ?ts)"
    using sum_of_net [OF ts(2)] assms(3) by simp
  show ?thesis
    using sum [of ?ts] assms(3) by (simp add: command_profit_def rows Let_def table_columns_def tables(2) gross)
qed


section \<open>Witnesses\<close>

lemma default_launch_mode: "env ''AEGIS_MODE'' = None \<Longrightarrow> launch_mode env = ''PAPER''"
proof -
  have "str_upper (str_strip ''PAPER'') = ''PAPER''" by code_simp
  then show "env ''AEGIS_MODE'' = None \<Longrightarrow> launch_mode env = ''PAPER''" by (simp add: launch_mode_def)
qed

theorem paper_launch_ignores_live_credentials_witness:
  "ends_alike (select_exchange_profiles [''BINANCE_LIVE_API_KEY'' \<mapsto> ''key'', ''BINANCE_LIVE_SECRET'' \<mapsto> ''secret''])
     (select_exchange_profiles Map.empty)"
  by (rule paper_launch_ignores_live_credentials)
    (simp_all add: default_launch_mode agree_def live_names_def)

definition table_processor :: processor where
  "table_processor = (sample_processor None)\<lparr>fp_database := Some trade_sink\<rparr>"

text \<open>Two bought at 5 and sold at 8, each time for a fee of one: six earned, four realized, two reported.\<close>

definition sample_round_trip :: "booking list" where
  "sample_round_trip =
     [(sample_report\<lparr>r_fee := Fin 1\<rparr>, [], VNone, ''t'', sample_time),
      (sample_report\<lparr>r_fee := Fin 1, r_side := ''SELL'', r_avg_price := Fin 8\<rparr>, [], VNone, ''u'', sample_time)]"

lemma book_step_ledger:
  assumes "bookable r" "apply_fill (fs_ledger s) (fill_of_report r strat uuid) now = Inr (l1, t)" "row_ok t"
  shows "fs_ledger (fst (book_step table_processor s (r, marks, strat, uuid, now))) = mark_positions l1 marks now"
  using assms
  by (auto simp: book_step_def bookable_def process_fill_def Let_def record_trade_def send_def save_state_def row_ok_def
      table_processor_def sample_processor_def split: option.splits prod.splits sum.splits)

theorem profit_report_counts_fees_twice_witness:
  "\<exists>s rs rep. run_events (book_step table_processor) \<lparr>fs_ledger = new_ledger, fs_trades = [], fs_saved = None\<rparr>
       sample_round_trip = (s, rs) \<and>
     command_profit (trade_file_of (table_of (fs_trades s))) = Some rep \<and>
     pr_trades rep = 2 \<and> pr_pnl rep = Fin 4 \<and> pr_fees rep = Fin 2 \<and> pr_net rep = Fin 2"
proof -
  let ?s = "\<lparr>fs_ledger = new_ledger, fs_trades = [], fs_saved = None\<rparr>"
  let ?b1 = "(sample_report\<lparr>r_fee := Fin 1\<rparr>, [], VNone, ''t'', sample_time)"
  let ?b2 = "(sample_report\<lparr>r_fee := Fin 1, r_side := ''SELL'', r_avg_price := Fin 8\<rparr>, [], VNone, ''u'', sample_time)"
  have mark: "mark_positions l [] now = l" for l now by (simp add: mark_positions_def case_prod_beta)
  have bk: "bookable (fst ?b1)" "bookable (fst ?b2)"
    by (simp_all add: bookable_def sample_report_def has_fill_def str_simps)
  have "\<exists>l1 t l2 u.
      apply_fill new_ledger (fill_of_report (fst ?b1) VNone ''t'') sample_time = Inr (l1, t) \<and> row_ok t \<and>
      apply_fill l1 (fill_of_report (fst ?b2) VNone ''u'') sample_time = Inr (l2, u) \<and> row_ok u \<and>
      get_position l1 ''BTC'' = Some \<lparr>p_symbol = ''BTC'', p_quantity = Fin 2, p_avg_entry = Fin 5, p_realized = Fin 0,
        p_unrealized = Fin 0, p_updated_at = sample_time\<rparr> \<and>
      l_trades l2 = [t, u] \<and> t_pnl t = Fin (- 1) \<and> t_pnl u = Fin 5 \<and> t_fee t = Fin 1 \<and> t_fee u = Fin 1"
    by (simp add: process_simps Let_def str_simps row_ok_iff sql_bind_def sql_null_def dict_simps get_position_def)
  then obtain l1 t l2 u where fill:
      "apply_fill new_ledger (fill_of_report (fst ?b1) VNone ''t'') sample_time = Inr (l1, t)" "row_ok t"
      "apply_fill l1 (fill_of_report (fst ?b2) VNone ''u'') sample_time = Inr (l2, u)" "row_ok u"
      "get_position l1 ''BTC'' = Some \<lparr>p_symbol = ''BTC'', p_quantity = Fin 2, p_avg_entry = Fin 5, p_realized = Fin 0,
        p_unrealized = Fin 0, p_updated_at = sample_time\<rparr>"
      "l_trades l2 = [t, u]" "t_pnl t = Fin (- 1)" "t_pnl u = Fin 5" "t_fee t = Fin 1" "t_fee u = Fin 1"
    by blast
  define s1 where "s1 = fst (book_step table_processor ?s ?b1)"
  define s2 where "s2 = fst (book_step table_processor s1 ?b2)"
  have l1: "fs_ledger s1 = l1" unfolding s1_def
    using book_step_ledger [OF bk(1), of ?s VNone "''t''" sample_time l1 t "[]"] fill(1,2) by (simp add: mark)
  have l2: "fs_ledger s2 = l2" unfolding s2_def
    using book_step_ledger [OF bk(2), of s1 VNone "''u''" sample_time l2 u "[]"] fill(3,4) by (simp add: mark l1)
  obtain rs where run: "run_events (book_step table_processor) ?s sample_round_trip = (s2, rs)"
    unfolding sample_round_trip_def s2_def s1_def
    by (cases "book_step table_processor ?s ?b1"; cases "book_step table_processor (fst (book_step table_processor ?s ?b1)) ?b2")
      simp
  have gross: "gross_profits table_processor ?s sample_round_trip = [Fin 0, Fin 6]"
  proof -
    let ?g = "\<lambda>s r. gross_profit (get_position (fs_ledger s) (r_symbol r)) (report_delta r) (r_avg_price r)"
    have "gross_profits table_processor ?s sample_round_trip = [?g ?s (fst ?b1), ?g s1 (fst ?b2)]"
      unfolding s1_def sample_round_trip_def using bk by simp
    moreover have "?g ?s (fst ?b1) = Fin 0" by (simp add: gross_profit_def get_position_def new_ledger_def)
    moreover have "?g s1 (fst ?b2) = Fin 6"
      unfolding l1
      by (simp add: sample_report_def fill(5) gross_profit_def report_delta_def str_simps EPSILON_def py_min_def)
    ultimately show ?thesis by simp
  qed
  have sink: "fp_database table_processor = Some trade_sink" by (simp add: table_processor_def)
  have rows: "\<forall>t \<in> set (l_trades (fs_ledger s2)). row_ok t \<and> is_fin (t_pnl t) \<and> is_fin (t_fee t)"
    using fill by (simp add: l2)
  from profit_report_counts_fees_twice [OF run sink rows] show ?thesis
    using run fill by (auto simp: l2 gross)
qed

end
