(* ===== verification/Legacy_Program.thy ===== *)
theory Legacy_Program
  imports Legacy_Trading
begin

text \<open>
  The loop of the legacy trading program (\<open>AegisPro\<close> in \<open>main_legacy.py\<close>): looking for entries, a whole turn,
  the resets of a day and a week, and the state it keeps in a file over restarts. What pandas and the
  learned model make of the market in a turn is the \<open>insight\<close> of the turn; a database sink may refuse a row. The
  threads that train models, notifications and the backup of the database are left out.
\<close>

section \<open>State and surroundings\<close>

record program_rules =
  pr_bot :: bot_rules
  pr_signal :: signal_rules
  pr_zscore :: pyfloat
  pr_threshold :: pyfloat
  pr_watchlist :: "string list"
  pr_max_trades :: nat
  pr_max_daily :: int

text \<open>
  The bars fetched for a symbol, its feature row, the probability of the model, the daily bars of bitcoin
  with their average, last prices, indicators of open trades, and whether the program still runs when a
  symbol is reached.
\<close>

record insight =
  in_bars :: "string \<Rightarrow> nat option res"
  in_row :: "string \<Rightarrow> feature_row option res"
  in_model :: "feature_row \<Rightarrow> pyfloat res"
  in_bitcoin :: "(nat \<times> pyfloat \<times> pyfloat) option res"
  in_prices :: "string \<Rightarrow> pyfloat"
  in_atrs :: "string \<Rightarrow> pyfloat option res"
  in_running :: "string \<Rightarrow> bool"
  in_base :: pyfloat
  in_ids :: "string \<Rightarrow> nat \<Rightarrow> string"

record signal_row =
  sg_symbol :: string
  sg_signal :: "string option"
  sg_model :: pyfloat
  sg_imbalance :: pyfloat
  sg_fused :: pyfloat
  sg_action :: string

record buy_row =
  by_symbol :: string
  by_price :: pyfloat
  by_qty :: pyfloat
  by_fee :: pyfloat

record performance_row =
  pw_date :: string
  pw_trades :: int
  pw_wins :: int
  pw_losses :: int
  pw_pnl :: pyfloat

record sinks =
  sk_trade :: log_sink
  sk_buy :: "buy_row \<Rightarrow> py_exc option"
  sk_signal :: "signal_row \<Rightarrow> py_exc option"
  sk_equity :: "pyfloat \<Rightarrow> py_exc option"
  sk_performance :: "performance_row \<Rightarrow> py_exc option"

record 'w program =
  pg_bot :: "'w bot"
  pg_day :: string
  pg_week :: "string option"
  pg_file :: "pyval option"

definition written :: "py_exc option \<Rightarrow> unit res" where
  "written e = (case e of None \<Rightarrow> Inr () | Some x \<Rightarrow> Inl x)"

text \<open>The comprehensions that name their loop variable \<open>_sym\<close> and read \<open>sym\<close>.\<close>

definition sym_error :: "'a res" where
  "sym_error = Inl (OtherError (text_msg ''NameError: name 'sym' is not defined''))"

section \<open>Entries\<close>

definition btc_bullish :: "(nat \<times> pyfloat \<times> pyfloat) option res \<Rightarrow> bool" where
  "btc_bullish frame =
     (case frame of
        Inr (Some (bars, sma, latest)) \<Rightarrow> if bars < 50 then True else sma < latest
      | _ \<Rightarrow> True)"

definition result_filled :: "pyval \<Rightarrow> pyfloat \<Rightarrow> pyfloat res" where
  "result_filled v amount =
     (case v of VDict d \<Rightarrow> py_float (dict_get d ''filled'' (VFloat amount))
      | _ \<Rightarrow> Inl (AttributeError (text_msg ''object has no attribute get'')))"

text \<open>
  After the purchase: its figures are read before anything is registered, and the trade is registered
  before its row is written.
\<close>

definition register_entry ::
  "program_rules \<Rightarrow> sinks \<Rightarrow> string \<Rightarrow> string \<Rightarrow> pyfloat \<Rightarrow> sizing \<Rightarrow> pyfloat \<Rightarrow> pyval \<Rightarrow> pyfloat \<Rightarrow> ('w bot, unit) step" where
  "register_entry pr sk symb sig atr z price v now b =
     (case rbind (result_average v price) (\<lambda>fill. rbind (result_filled v (sz_amount z)) (\<lambda>qty.
             rbind (result_fee v) (\<lambda>fee. Inr (fill, qty, fee)))) of
        Inl e \<Rightarrow> (b, Inl e)
      | Inr (fill, qty, fee) \<Rightarrow>
          (let t = \<lparr>lt_symbol = symb, lt_entry = fill, lt_qty = qty, lt_initial_qty = qty, lt_stop = sz_stop z,
                    lt_tp1 = sz_tp1 z, lt_tp2 = sz_tp2 z, lt_atr_entry = atr, lt_atr = atr, lt_risk = sz_risk z,
                    lt_entry_fee = fee, lt_signal = sig, lt_time = now, lt_bar = lr_bars (bo_risk b),
                    lt_tp1_taken = False, lt_tp2_taken = False, lt_trail = False, lt_early_trail = False,
                    lt_mode = ex_mode (br_exec (pr_bot pr))\<rparr>;
               b1 = b\<lparr>bo_balance := (if paper (pr_bot pr) then bo_balance b - fill * qty else bo_balance b),
                      bo_trades := dict_set symb t (bo_trades b),
                      bo_risk := (bo_risk b)\<lparr>lr_trades_today := lr_trades_today (bo_risk b) + 1\<rparr>\<rparr>
           in (b1, written (sk_buy sk \<lparr>by_symbol = symb, by_price = fill, by_qty = qty, by_fee = fee\<rparr>))))"

text \<open>What is known of a symbol before an order: no result, or its signal, probability, price and indicator.\<close>

definition assess ::
  "program_rules \<Rightarrow> sinks \<Rightarrow> insight \<Rightarrow> fusion \<Rightarrow> bool \<Rightarrow> string \<Rightarrow> (string \<times> pyfloat \<times> pyfloat \<times> pyfloat) option res" where
  "assess pr sk ins f bullish symb =
     rbind (in_bars ins symb) (\<lambda>bars.
       if (case bars of None \<Rightarrow> True | Some k \<Rightarrow> k < 210) then Inr None
       else rbind (in_row ins symb) (\<lambda>r.
         case r of None \<Rightarrow> Inr None
         | Some row \<Rightarrow>
             (let sig = validate_signal (pr_signal pr) bullish symb row;
                  imb0 = dict_get row ''ob_imbalance'' (Fin 1);
                  imb = (if imb0 = NaN then Fin 1 else imb0)
              in rbind (in_model ins row) (\<lambda>ml. rbind (fuse (pr_zscore pr) sig ml imb None f) (\<lambda>fused.
                   let action = (if sig \<noteq> None \<and> pr_threshold pr \<le> fused then ''TRADE'' else ''SKIP'') in
                   rbind (written (sk_signal sk \<lparr>sg_symbol = symb, sg_signal = sig, sg_model = ml,
                            sg_imbalance = imb, sg_fused = fused, sg_action = action\<rparr>)) (\<lambda>_.
                     case sig of
                       None \<Rightarrow> Inr None
                     | Some s \<Rightarrow>
                         (if fused < pr_threshold pr then Inr None
                          else let price = dict_get row ''c'' (Fin 0)
                               in Inr (Some (s, ml, price, dict_get row ''atr'' (price * Fin (1/100)))))))))))"

text \<open>\<open>_evaluate_symbol\<close>; \<open>None\<close> is a live order that has not returned within its fuel.\<close>

definition evaluate_symbol ::
  "nat \<Rightarrow> 'w outside \<Rightarrow> program_rules \<Rightarrow> sinks \<Rightarrow> insight \<Rightarrow> pyfloat \<Rightarrow> bool \<Rightarrow> string \<Rightarrow> 'w bot \<Rightarrow> ('w bot \<times> unit res) option" where
  "evaluate_symbol n ow pr sk ins equity bullish symb b =
     (case assess pr sk ins (bo_fusion b) bullish symb of
        Inl e \<Rightarrow> Some (b, Inl e)
      | Inr None \<Rightarrow> Some (b, Inr ())
      | Inr (Some (sig, ml, price, atr)) \<Rightarrow>
          (case position_size (br_risk (pr_bot pr)) price atr equity (open_risk b) ml (Fin 1) (bo_risk b) of
             Inl e \<Rightarrow> Some (b, Inl e)
           | Inr None \<Rightarrow> Some (b, Inr ())
           | Inr (Some z) \<Rightarrow>
               (case execute_buy n ow (br_exec (pr_bot pr)) (br_risk (pr_bot pr)) (in_ids ins symb) symb (sz_amount z) price
                       (bo_risk b) (bo_world b) of
                  None \<Rightarrow> None
                | Some (w, m, r) \<Rightarrow>
                    (let b1 = b\<lparr>bo_world := w, bo_risk := m\<rparr> in
                     case r of
                       Inl e \<Rightarrow> Some (b1, Inl e)
                     | Inr None \<Rightarrow> Some (b1, Inr ())
                     | Inr (Some v) \<Rightarrow>
                         (if \<not> truthy v then Some (b1, Inr ())
                          else Some (register_entry pr sk symb sig atr z price v (Fin (ow_now ow w)) b1))))))"

text \<open>The scan of the watchlist; an exception of a symbol is logged and the next one is looked at.\<close>

fun scan_entries ::
  "nat \<Rightarrow> 'w outside \<Rightarrow> program_rules \<Rightarrow> sinks \<Rightarrow> insight \<Rightarrow> pyfloat \<Rightarrow> bool \<Rightarrow> string list \<Rightarrow> 'w bot \<Rightarrow> 'w bot option" where
  "scan_entries n ow pr sk ins equity bullish [] b = Some b"
| "scan_entries n ow pr sk ins equity bullish (symb # symbs) b =
     (if \<not> in_running ins symb then Some b
      else if map_of (bo_trades b) symb \<noteq> None then scan_entries n ow pr sk ins equity bullish symbs b
      else case is_blacklisted (Fin (ow_now ow (bo_world b))) symb (bo_risk b) of
        (m, True) \<Rightarrow> scan_entries n ow pr sk ins equity bullish symbs (b\<lparr>bo_risk := m\<rparr>)
      | (m, False) \<Rightarrow>
          (let b1 = b\<lparr>bo_risk := m\<rparr> in
           if Fin (ow_now ow (bo_world b1)) < dict_get (bo_cooldowns b1) symb (Fin 0)
           then scan_entries n ow pr sk ins equity bullish symbs b1
           else if pr_max_trades pr \<le> length (bo_trades b1) then Some b1
           else case evaluate_symbol n ow pr sk ins equity bullish symb b1 of
             None \<Rightarrow> None
           | Some (b2, _) \<Rightarrow> scan_entries n ow pr sk ins equity bullish symbs b2))"

section \<open>Resets\<close>

text \<open>The day is noted before yesterday's figures are written.\<close>

definition maybe_daily_reset :: "sinks \<Rightarrow> string \<Rightarrow> pyfloat \<Rightarrow> ('w program, unit) step" where
  "maybe_daily_reset sk today equity g =
     (if today = pg_day g then (g, Inr ())
      else let g1 = g\<lparr>pg_day := today\<rparr>; b = pg_bot g; m = bo_risk b in
        case (if 0 < lr_trades m
              then written (sk_performance sk \<lparr>pw_date = today, pw_trades = lr_trades_today m, pw_wins = lr_wins m,
                     pw_losses = lr_losses m, pw_pnl = bo_daily b\<rparr>)
              else Inr ()) of
          Inl e \<Rightarrow> (g1, Inl e)
        | Inr _ \<Rightarrow> (g1\<lparr>pg_bot := b\<lparr>bo_risk := reset_daily equity m, bo_daily := Fin 0\<rparr>\<rparr>, Inr ()))"

definition maybe_weekly_reset :: "nat \<Rightarrow> string \<Rightarrow> pyfloat \<Rightarrow> 'w program \<Rightarrow> 'w program" where
  "maybe_weekly_reset weekday week equity g =
     (if pg_week g = Some week \<or> weekday \<noteq> 0 then g
      else g\<lparr>pg_week := Some week, pg_bot := (pg_bot g)\<lparr>bo_risk := reset_weekly equity (bo_risk (pg_bot g))\<rparr>\<rparr>)"


section \<open>The state file\<close>

definition saved_state :: "string \<Rightarrow> 'w bot \<Rightarrow> payload" where
  "saved_state now b =
     (let m = bo_risk b in
      [(''paper_balance'', VFloat (bo_balance b)), (''daily_pnl'', VFloat (bo_daily b)), (''peak_equity'', VFloat (lr_peak m)),
       (''total_trades'', VInt (lr_trades m)), (''total_wins'', VInt (lr_total_wins m)),
       (''total_losses'', VInt (lr_total_losses m)), (''avg_win_r'', VFloat (lr_avg_win m)),
       (''avg_loss_r'', VFloat (lr_avg_loss m)), (''win_rate'', VFloat (lr_win_rate m)),
       (''cooldowns'', VDict (map (\<lambda>(k, v). (k, VFloat v)) (bo_cooldowns b))), (''active_trades'', VDict []),
       (''saved_at'', VStr now)])"

text \<open>The payload is built before anything is written; with a trade open building it raises.\<close>

definition save_positions :: "string \<Rightarrow> ('w program, unit) step" where
  "save_positions now g =
     (if bo_trades (pg_bot g) = [] then (g\<lparr>pg_file := Some (VDict (saved_state now (pg_bot g)))\<rparr>, Inr ())
      else (g, sym_error))"

definition push_dashboard :: "'w bot \<Rightarrow> unit res" where
  "push_dashboard b = (if bo_trades b = [] then Inr () else sym_error)"

text \<open>One trade of the file; an exception skips it.\<close>

definition needed :: "payload \<Rightarrow> string \<Rightarrow> pyfloat res" where
  "needed td k = (case map_of td k of None \<Rightarrow> Inl (KeyError k) | Some v \<Rightarrow> py_float v)"

definition text_field :: "payload \<Rightarrow> string \<Rightarrow> string \<Rightarrow> string" where
  "text_field td k dflt = (case map_of td k of None \<Rightarrow> dflt | Some v \<Rightarrow> py_str v)"

definition loaded_trade :: "string \<Rightarrow> pyfloat \<Rightarrow> string \<Rightarrow> pyval \<Rightarrow> legacy_trade res" where
  "loaded_trade mode now symb v =
     (case v of
        VDict td \<Rightarrow>
          rbind (needed td ''entry_price'') (\<lambda>entry. rbind (needed td ''qty'') (\<lambda>qty.
          rbind (needed td ''initial_qty'') (\<lambda>initial. rbind (needed td ''stop_loss'') (\<lambda>stop.
          rbind (needed td ''tp1'') (\<lambda>tp1. rbind (needed td ''tp2'') (\<lambda>tp2.
          rbind (needed td ''atr_entry'') (\<lambda>atr_entry.
          rbind (case map_of td ''current_atr'' of None \<Rightarrow> needed td ''atr_entry'' | Some x \<Rightarrow> py_float x) (\<lambda>atr.
          rbind (needed td ''risk_dollars'') (\<lambda>risk.
          rbind (py_float (dict_get td ''entry_fee'' (VInt 0))) (\<lambda>fee.
          rbind (py_float (dict_get td ''entry_time'' (VFloat now))) (\<lambda>time.
          rbind (py_int (dict_get td ''entry_bar_index'' (VInt 0))) (\<lambda>bar.
          let flag = (\<lambda>k. truthy (dict_get td k (VBool False))) in
          Inr \<lparr>lt_symbol = symb, lt_entry = entry, lt_qty = qty, lt_initial_qty = initial, lt_stop = stop, lt_tp1 = tp1,
               lt_tp2 = tp2, lt_atr_entry = atr_entry, lt_atr = atr, lt_risk = risk, lt_entry_fee = fee,
               lt_signal = text_field td ''signal_type'' [], lt_time = time, lt_bar = bar,
               lt_tp1_taken = flag ''tp1_taken'', lt_tp2_taken = flag ''tp2_taken'', lt_trail = flag ''trail_activated'',
               lt_early_trail = flag ''early_trail'', lt_mode = text_field td ''mode'' mode\<rparr>))))))))))))
      | _ \<Rightarrow> Inl (TypeError (text_msg ''not subscriptable by a text'')))"

definition load_trades :: "string \<Rightarrow> pyfloat \<Rightarrow> payload \<Rightarrow> (string, legacy_trade) pydict \<Rightarrow> (string, legacy_trade) pydict" where
  "load_trades mode now d trades =
     foldl (\<lambda>acc (symb, v). case loaded_trade mode now symb v of Inl _ \<Rightarrow> acc | Inr t \<Rightarrow> dict_set symb t acc) trades d"

fun load_cooldowns :: "payload \<Rightarrow> (string, pyfloat) pydict \<Rightarrow> (string, pyfloat) pydict res" where
  "load_cooldowns [] acc = Inr acc"
| "load_cooldowns ((k, v) # d) acc = rbind (py_float v) (\<lambda>x. load_cooldowns d (dict_set k x acc))"

definition items_of :: "pyval \<Rightarrow> payload res" where
  "items_of v = (case v of VDict d \<Rightarrow> Inr d | _ \<Rightarrow> Inl (AttributeError (text_msg ''object has no attribute items'')))"

text \<open>Baselines that are not set are taken from the balance, the peak or the default.\<close>

definition with_baselines :: "'w bot \<Rightarrow> 'w bot" where
  "with_baselines b =
     (let m = bo_risk b;
          base = (if py_true (bo_balance b) then bo_balance b else if py_true (lr_peak m) then lr_peak m else Fin 10000);
          m1 = (if lr_daily_start m \<le> Fin 0 then m\<lparr>lr_daily_start := base\<rparr> else m);
          m2 = (if lr_weekly_start m1 \<le> Fin 0 then m1\<lparr>lr_weekly_start := lr_daily_start m1\<rparr> else m1)
      in b\<lparr>bo_risk := m2\<rparr>)"

definition load_state :: "string \<Rightarrow> pyfloat \<Rightarrow> pyval option \<Rightarrow> 'w bot \<Rightarrow> 'w bot res" where
  "load_state mode now file b =
     (case (case file of None \<Rightarrow> VDict [] | Some v \<Rightarrow> v) of
        VDict d \<Rightarrow>
          (if d = [] then Inr b
           else
             rbind (py_float (dict_get d ''paper_balance'' (VFloat (Fin 10000)))) (\<lambda>balance.
             rbind (py_float (dict_get d ''daily_pnl'' (VFloat (Fin 0)))) (\<lambda>daily.
             rbind (py_float (dict_get d ''peak_equity'' (VFloat (Fin 0)))) (\<lambda>peak.
             rbind (py_int (dict_get d ''total_trades'' (VInt 0))) (\<lambda>trades.
             rbind (py_int (dict_get d ''total_wins'' (VInt 0))) (\<lambda>wins.
             rbind (py_int (dict_get d ''total_losses'' (VInt 0))) (\<lambda>losses.
             rbind (py_float (dict_get d ''avg_win_r'' (VFloat (Fin 0)))) (\<lambda>avg_win.
             rbind (py_float (dict_get d ''avg_loss_r'' (VFloat (Fin 0)))) (\<lambda>avg_loss.
             rbind (py_float (dict_get d ''win_rate'' (VFloat (Fin 0)))) (\<lambda>rate.
             rbind (items_of (dict_get d ''cooldowns'' (VDict []))) (\<lambda>cool.
             rbind (load_cooldowns cool []) (\<lambda>cooldowns.
             rbind (items_of (dict_get d ''active_trades'' (VDict []))) (\<lambda>active.
               Inr (with_baselines (b\<lparr>bo_balance := balance, bo_daily := daily, bo_cooldowns := cooldowns,
                 bo_trades := load_trades mode now active (bo_trades b),
                 bo_risk := (bo_risk b)\<lparr>lr_peak := peak, lr_trades := trades, lr_total_wins := wins,
                   lr_total_losses := losses, lr_avg_win := avg_win, lr_avg_loss := avg_loss,
                   lr_win_rate := rate\<rparr>\<rparr>)))))))))))))))
      | v \<Rightarrow> (if truthy v then Inl (AttributeError (text_msg ''object has no attribute get'')) else Inr b))"

text \<open>A new object, and the file read into it.\<close>

definition new_bot :: "'w \<Rightarrow> 'w bot" where
  "new_bot w = \<lparr>bo_balance = Fin 10000, bo_daily = Fin 0, bo_cooldowns = [], bo_trades = [], bo_risk = new_risk_manager,
     bo_fusion = new_fusion, bo_world = w\<rparr>"

definition start_program :: "program_rules \<Rightarrow> pyfloat \<Rightarrow> 'w \<Rightarrow> pyval option \<Rightarrow> 'w program res" where
  "start_program pr now w file =
     rbind (load_state (ex_mode (br_exec (pr_bot pr))) now file (new_bot w)) (\<lambda>b.
       Inr \<lparr>pg_bot = b, pg_day = [], pg_week = None, pg_file = file\<rparr>)"

section \<open>A turn\<close>

text \<open>The calendar of a turn: the date, the day and number of the week, and the time stamp of the file.\<close>

record calendar =
  ca_date :: string
  ca_weekday :: nat
  ca_week :: string
  ca_stamp :: string

definition base_balance :: "program_rules \<Rightarrow> pyfloat \<Rightarrow> 'w bot \<Rightarrow> pyfloat" where
  "base_balance pr usdt b = (if paper (pr_bot pr) then bo_balance b else if Fin 0 < usdt then usdt else bo_balance b)"

definition on_bot :: "('w bot \<Rightarrow> 'w bot) \<Rightarrow> 'w program \<Rightarrow> 'w program" where
  "on_bot f g = g\<lparr>pg_bot := f (pg_bot g)\<rparr>"

text \<open>After the resets: the peaks, the row of the equity curve, the weights of the fusion.\<close>

definition settle_turn :: "sinks \<Rightarrow> calendar \<Rightarrow> pyfloat \<Rightarrow> ('w program, unit) step" where
  "settle_turn sk ca equity =
     andthen (maybe_daily_reset sk (ca_date ca) equity) (\<lambda>_ g.
       let g1 = on_bot (\<lambda>b. b\<lparr>bo_risk := update_equity_peaks equity (bo_risk b)\<rparr>)
                  (maybe_weekly_reset (ca_weekday ca) (ca_week ca) equity g)
       in case written (sk_equity sk equity) of
            Inl e \<Rightarrow> (g1, Inl e)
          | Inr _ \<Rightarrow> (on_bot (\<lambda>b. b\<lparr>bo_fusion := update_weights (bo_fusion b)\<rparr>) g1, Inr ()))"

definition manage_all :: "'w outside \<Rightarrow> program_rules \<Rightarrow> sinks \<Rightarrow> string \<Rightarrow> insight \<Rightarrow> ('w program, unit) step" where
  "manage_all ow pr sk hex ins g =
     (case manage_open_positions ow (pr_bot pr) (sk_trade sk) hex (in_prices ins) (in_atrs ins) (pg_bot g) of
        (b, r) \<Rightarrow> (g\<lparr>pg_bot := b\<rparr>, r))"

definition look_for_entries ::
  "nat \<Rightarrow> 'w outside \<Rightarrow> program_rules \<Rightarrow> sinks \<Rightarrow> insight \<Rightarrow> pyfloat \<Rightarrow> 'w bot \<Rightarrow> 'w bot option" where
  "look_for_entries n ow pr sk ins equity b =
     (if length (bo_trades b) < pr_max_trades pr \<and> lr_trades_today (bo_risk b) < pr_max_daily pr
      then scan_entries n ow pr sk ins equity (btc_bullish (in_bitcoin ins)) (pr_watchlist pr) b
      else Some b)"

definition trading_turn ::
  "nat \<Rightarrow> 'w outside \<Rightarrow> program_rules \<Rightarrow> sinks \<Rightarrow> string \<Rightarrow> insight \<Rightarrow> calendar \<Rightarrow> pyfloat \<Rightarrow> 'w program \<Rightarrow> ('w program \<times> unit res) option" where
  "trading_turn n ow pr sk hex ins ca equity g =
     (case is_trading_halted (br_risk (pr_bot pr)) (Fin (ow_now ow (bo_world (pg_bot g)))) equity (bo_risk (pg_bot g)) of
        (m, halt) \<Rightarrow>
          (let g1 = on_bot (\<lambda>b. b\<lparr>bo_risk := m\<rparr>) g in
           case manage_all ow pr sk hex ins g1 of
             (g2, Inl e) \<Rightarrow> Some (g2, Inl e)
           | (g2, Inr _) \<Rightarrow>
               (if halt \<noteq> None then Some (g2, push_dashboard (pg_bot g2))
                else case look_for_entries n ow pr sk ins equity (pg_bot g2) of
                  None \<Rightarrow> None
                | Some b \<Rightarrow>
                    Some (andthen (save_positions (ca_stamp ca)) (\<lambda>_. query (\<lambda>g. push_dashboard (pg_bot g))) (g2\<lparr>pg_bot := b\<rparr>)))))"

definition program_turn ::
  "nat \<Rightarrow> 'w outside \<Rightarrow> program_rules \<Rightarrow> sinks \<Rightarrow> string \<Rightarrow> insight \<Rightarrow> calendar \<Rightarrow> 'w program \<Rightarrow> ('w program \<times> unit res) option" where
  "program_turn n ow pr sk hex ins ca g =
     (let g1 = on_bot (\<lambda>b. b\<lparr>bo_risk := (bo_risk b)\<lparr>lr_bars := lr_bars (bo_risk b) + 1\<rparr>\<rparr>) g in
      case equity_of (base_balance pr (in_base ins) (pg_bot g1)) (pg_bot g1) of
        Inl e \<Rightarrow> Some (g1, Inl e)
      | Inr equity \<Rightarrow>
          (case settle_turn sk ca equity g1 of
             (g2, Inl e) \<Rightarrow> Some (g2, Inl e)
           | (g2, Inr _) \<Rightarrow> trading_turn n ow pr sk hex ins ca equity g2))"

text \<open>The loop logs an exception of a turn and goes on; while it sleeps other things happen outside.\<close>

fun program_run ::
  "nat \<Rightarrow> 'w outside \<Rightarrow> program_rules \<Rightarrow> sinks \<Rightarrow> (string \<times> insight \<times> calendar) list \<Rightarrow> 'w program \<Rightarrow> 'w program option" where
  "program_run n ow pr sk [] g = Some g"
| "program_run n ow pr sk ((hex, ins, ca) # turns) g =
     (case program_turn n ow pr sk hex ins ca g of
        None \<Rightarrow> None
      | Some (g1, _) \<Rightarrow> program_run n ow pr sk turns g1)"

definition shutdown_program :: "string \<Rightarrow> ('w program, unit) step" where
  "shutdown_program = save_positions"


section \<open>A trade is never saved\<close>

text \<open>The files the program writes hold no trade.\<close>

definition no_trade_saved :: "pyval option \<Rightarrow> bool" where
  "no_trade_saved file \<longleftrightarrow> (case file of None \<Rightarrow> True | Some v \<Rightarrow> (\<exists>now (b :: unit bot). v = VDict (saved_state now b)))"

lemma saved_state_world: "saved_state now b = saved_state now
    \<lparr>bo_balance = bo_balance b, bo_daily = bo_daily b, bo_cooldowns = bo_cooldowns b, bo_trades = [], bo_risk = bo_risk b,
     bo_fusion = bo_fusion b, bo_world = ()\<rparr>"
  by (simp add: saved_state_def)

lemma save_positions_file: "save_positions now g = (g', r) \<Longrightarrow> no_trade_saved (pg_file g) \<Longrightarrow> no_trade_saved (pg_file g')"
  using saved_state_world [of now "pg_bot g"]
  by (auto simp: save_positions_def no_trade_saved_def split: if_splits) (rule exI, rule exI, rule refl)

lemma settle_turn_frame:
  "settle_turn sk ca equity g = (g', r) \<Longrightarrow> pg_file g' = pg_file g \<and> bo_trades (pg_bot g') = bo_trades (pg_bot g)"
  by (auto simp: settle_turn_def andthen_def maybe_daily_reset_def maybe_weekly_reset_def on_bot_def Let_def
      split: if_splits sum.splits prod.splits)

lemma turn_file:
  assumes "program_turn n ow pr sk hex ins ca g = Some (g', r)" "no_trade_saved (pg_file g)"
  shows "no_trade_saved (pg_file g')"
proof -
  define g1 where "g1 = on_bot (\<lambda>b. b\<lparr>bo_risk := (bo_risk b)\<lparr>lr_bars := lr_bars (bo_risk b) + 1\<rparr>\<rparr>) g"
  have g1: "no_trade_saved (pg_file g1)" using assms(2) by (simp add: g1_def on_bot_def)
  have keep: "no_trade_saved (pg_file g2)" if "settle_turn sk ca equity g1 = (g2, r1)" for equity g2 r1
    using settle_turn_frame [OF that] g1 by simp
  have trade: "no_trade_saved (pg_file g4)"
    if t: "trading_turn n ow pr sk hex ins ca equity g3 = Some (g4, r1)" "no_trade_saved (pg_file g3)" for equity g3 g4 r1
    using t save_positions_file
    by (auto simp: trading_turn_def manage_all_def on_bot_def andthen_def query_def split: prod.splits sum.splits
        if_splits option.splits) fastforce+
  show ?thesis
    using assms(1) keep trade g1
    by (auto simp: program_turn_def Let_def g1_def [symmetric] split: sum.splits prod.splits)
qed

lemma run_file:
  "program_run n ow pr sk turns g = Some g' \<Longrightarrow> no_trade_saved (pg_file g) \<Longrightarrow> no_trade_saved (pg_file g')"
proof (induction turns arbitrary: g)
  case (Cons turn turns)
  obtain hex ins ca where "turn = (hex, ins, ca)" by (cases turn)
  with Cons turn_file show ?case by (fastforce split: option.splits prod.splits)
qed simp

lemma load_cooldowns_floats: "load_cooldowns (map (\<lambda>(k, v). (k, VFloat v)) d) acc = Inr (foldl (\<lambda>a (k, v). dict_set k v a) acc d)"
  by (induction d arbitrary: acc) auto

lemma load_saved:
  "load_state mode t (Some (VDict (saved_state now b))) b0 =
     Inr (with_baselines (b0\<lparr>bo_balance := bo_balance b, bo_daily := bo_daily b,
       bo_cooldowns := foldl (\<lambda>a (k, v). dict_set k v a) [] (bo_cooldowns b),
       bo_risk := (bo_risk b0)\<lparr>lr_peak := lr_peak (bo_risk b), lr_trades := lr_trades (bo_risk b),
         lr_total_wins := lr_total_wins (bo_risk b), lr_total_losses := lr_total_losses (bo_risk b),
         lr_avg_win := lr_avg_win (bo_risk b), lr_avg_loss := lr_avg_loss (bo_risk b),
         lr_win_rate := lr_win_rate (bo_risk b)\<rparr>\<rparr>))"
  by (simp add: load_state_def saved_state_def Let_def dict_get_def items_of_def load_cooldowns_floats py_int_def
      load_trades_def)

lemma turn_with_trade:
  assumes "bo_trades (pg_bot g) \<noteq> []"
  shows "\<exists>g' e. program_turn n ow pr sk hex ins ca g = Some (g', Inl e) \<and> pg_file g' = pg_file g \<and>
    bo_trades (pg_bot g') = bo_trades (pg_bot g) \<and> bo_balance (pg_bot g') = bo_balance (pg_bot g)"
  using assms by (simp add: program_turn_def equity_of_def Let_def on_bot_def)

text \<open>
  C40. No trade survives a restart, and none is managed. Whatever the program does in any turns from an empty
  file, a program started from its file has no open trade; and once it holds a trade, each further turn
  raises and leaves trades, balance and file as they are.
\<close>

theorem trades_are_forgotten:
  assumes "start_program pr t0 w None = Inr g0" "program_run n ow pr sk turns g0 = Some g"
  shows "(\<exists>g1. start_program pr t w1 (pg_file g) = Inr g1 \<and> bo_trades (pg_bot g1) = []) \<and>
    (bo_trades (pg_bot g) \<noteq> [] \<longrightarrow>
       (\<exists>g2. program_run n ow pr sk later g = Some g2 \<and> pg_file g2 = pg_file g \<and>
         bo_trades (pg_bot g2) = bo_trades (pg_bot g) \<and> bo_balance (pg_bot g2) = bo_balance (pg_bot g)))"
proof -
  have "no_trade_saved (pg_file g0)" using assms(1)
    by (auto simp: start_program_def no_trade_saved_def rbind_Inr_iff)
  from run_file [OF assms(2) this] have saved: "no_trade_saved (pg_file g)" .
  have "\<exists>g1. start_program pr t w1 (pg_file g) = Inr g1 \<and> bo_trades (pg_bot g1) = []"
  proof (cases "pg_file g")
    case None
    then show ?thesis by (simp add: start_program_def load_state_def new_bot_def)
  next
    case (Some v)
    with saved obtain now and b :: "unit bot" where v: "v = VDict (saved_state now b)" by (auto simp: no_trade_saved_def)
    then show ?thesis by (simp add: start_program_def Some load_saved with_baselines_def Let_def new_bot_def)
  qed
  moreover have "\<exists>g2. program_run n ow pr sk later g = Some g2 \<and> pg_file g2 = pg_file g \<and>
      bo_trades (pg_bot g2) = bo_trades (pg_bot g) \<and> bo_balance (pg_bot g2) = bo_balance (pg_bot g)"
    if "bo_trades (pg_bot g) \<noteq> []" for g
    using that
  proof (induction later arbitrary: g)
    case (Cons turn turns)
    obtain hex ins ca where t: "turn = (hex, ins, ca)" by (cases turn)
    obtain g' e where g': "program_turn n ow pr sk hex ins ca g = Some (g', Inl e)" "pg_file g' = pg_file g"
        "bo_trades (pg_bot g') = bo_trades (pg_bot g)" "bo_balance (pg_bot g') = bo_balance (pg_bot g)"
      using turn_with_trade [OF Cons.prems] by blast
    then have "bo_trades (pg_bot g') \<noteq> []" using Cons.prems by simp
    from Cons.IH [OF this] g' show ?case by (simp add: t)
  qed simp
  ultimately show ?thesis by blast
qed


section \<open>Entries\<close>

lemma register_entry_trades:
  assumes "register_entry pr sk symb sig atr z price v now b = (b', r)"
  shows "(b' = b \<and> \<not> is_ok r) \<or> (\<exists>t. bo_trades b' = dict_set symb t (bo_trades b) \<and> lt_stop t = sz_stop z \<and>
    lt_tp1 t = sz_tp1 z \<and> lt_tp2 t = sz_tp2 z \<and> lt_signal t = sig \<and> \<not> lt_tp1_taken t \<and> \<not> lt_trail t)"
  using assms by (auto simp: register_entry_def Let_def split: sum.splits prod.splits)

lemma assessE:
  assumes "assess pr sk ins f bullish symb = Inr (Some (s, ml, price, atr))"
  obtains k row imb fused where "in_bars ins symb = Inr (Some k)" "210 \<le> k" "in_row ins symb = Inr (Some row)"
    "validate_signal (pr_signal pr) bullish symb row = Some s" "in_model ins row = Inr ml"
    "fuse (pr_zscore pr) (Some s) ml imb None f = Inr fused" "\<not> fused < pr_threshold pr"
    "price = dict_get row ''c'' (Fin 0)" "atr = dict_get row ''atr'' (price * Fin (1/100))"
proof -
  obtain k where k: "in_bars ins symb = Inr (Some k)" "210 \<le> k"
    using assms by (auto simp: assess_def rbind_Inr_iff not_less split: option.splits if_splits)
  obtain row where row: "in_row ins symb = Inr (Some row)"
    using assms k by (auto simp: assess_def rbind_Inr_iff split: option.splits)
  define imb where "imb = (if dict_get row ''ob_imbalance'' (Fin 1) = NaN then Fin 1 else dict_get row ''ob_imbalance'' (Fin 1))"
  obtain ml' where ml: "in_model ins row = Inr ml'"
    using assms k row by (auto simp: assess_def Let_def rbind_Inr_iff)
  obtain fused where fused: "fuse (pr_zscore pr) (validate_signal (pr_signal pr) bullish symb row) ml' imb None f = Inr fused"
    using assms k row ml by (auto simp: assess_def Let_def rbind_Inr_iff imb_def)
  have rest: "validate_signal (pr_signal pr) bullish symb row = Some s \<and> ml' = ml \<and> \<not> fused < pr_threshold pr \<and>
      price = dict_get row ''c'' (Fin 0) \<and> atr = dict_get row ''atr'' (price * Fin (1/100))"
    using assms k row ml fused
    by (auto simp: assess_def Let_def rbind_Inr_iff imb_def [symmetric] split: option.splits if_splits)
  with k row ml fused that show ?thesis by metis
qed

text \<open>
  An entry has passed every filter. If looking at a symbol changes the open trades, one trade of this
  symbol was set, from 210 bars or more, on a technical signal, with a fused probability that is not
  below the threshold, and with the stop and the targets of its sizing.
\<close>

theorem entries_pass_the_filters:
  assumes "evaluate_symbol n ow pr sk ins equity bullish symb b = Some (b', r)" "bo_trades b' \<noteq> bo_trades b"
  shows "\<exists>row s ml imb fused z t. (\<exists>k. in_bars ins symb = Inr (Some k) \<and> 210 \<le> k) \<and> in_row ins symb = Inr (Some row) \<and>
    validate_signal (pr_signal pr) bullish symb row = Some s \<and> in_model ins row = Inr ml \<and>
    fuse (pr_zscore pr) (Some s) ml imb None (bo_fusion b) = Inr fused \<and> \<not> fused < pr_threshold pr \<and>
    position_size (br_risk (pr_bot pr)) (dict_get row ''c'' (Fin 0)) (dict_get row ''atr'' (dict_get row ''c'' (Fin 0) * Fin (1/100)))
      equity (open_risk b) ml (Fin 1) (bo_risk b) = Inr (Some z) \<and>
    bo_trades b' = dict_set symb t (bo_trades b) \<and> lt_stop t = sz_stop z \<and> lt_tp1 t = sz_tp1 z \<and> lt_tp2 t = sz_tp2 z"
proof -
  obtain s ml price atr where a: "assess pr sk ins (bo_fusion b) bullish symb = Inr (Some (s, ml, price, atr))"
    using assms by (auto simp: evaluate_symbol_def split: sum.splits option.splits)
  obtain z where z: "position_size (br_risk (pr_bot pr)) price atr equity (open_risk b) ml (Fin 1) (bo_risk b) = Inr (Some z)"
    using assms by (auto simp: evaluate_symbol_def a split: sum.splits option.splits)
  obtain v now b1 where "register_entry pr sk symb s atr z price v now b1 = (b', r)" "bo_trades b1 = bo_trades b"
    using assms by (auto simp: evaluate_symbol_def a z Let_def split: sum.splits option.splits prod.splits if_splits)
  with assms(2) register_entry_trades obtain t where t: "bo_trades b' = dict_set symb t (bo_trades b)" "lt_stop t = sz_stop z"
      "lt_tp1 t = sz_tp1 z" "lt_tp2 t = sz_tp2 z" by metis
  show ?thesis by (rule assessE [OF a]) (use z t in blast)
qed

text \<open>A purchase may also be lost: what is not a number where the average should be raises after it.\<close>

theorem purchase_without_average_is_lost:
  assumes "assess pr sk ins (bo_fusion b) bullish symb = Inr (Some (s, ml, price, atr))"
    and "position_size (br_risk (pr_bot pr)) price atr equity (open_risk b) ml (Fin 1) (bo_risk b) = Inr (Some z)"
    and "execute_buy n ow (br_exec (pr_bot pr)) (br_risk (pr_bot pr)) (in_ids ins symb) symb (sz_amount z) price
           (bo_risk b) (bo_world b) = Some (w, m, Inr (Some (VDict d)))"
    and "map_of d ''average'' = Some VNone"
  shows "\<exists>b' e. evaluate_symbol n ow pr sk ins equity bullish symb b = Some (b', Inl e) \<and> bo_world b' = w \<and>
    bo_trades b' = bo_trades b \<and> bo_balance b' = bo_balance b"
proof -
  have "d \<noteq> []" using assms(4) by auto
  then show ?thesis
    using assms by (simp add: evaluate_symbol_def Let_def register_entry_def result_average_def dict_get_def)
qed

text \<open>
  A probability that is not a number is traded. With such an answer of the model the fused probability is
  none either, the log says that the signal is skipped, and the symbol goes on to an order.
\<close>

theorem nan_probability_is_traded:
  assumes "in_bars ins symb = Inr (Some k)" "210 \<le> k" "in_row ins symb = Inr (Some row)"
    and "validate_signal (pr_signal pr) bullish symb row = Some s" "in_model ins row = Inr NaN" "fusion_ok f"
    and "\<And>r. sg_action r = ''SKIP'' \<Longrightarrow> sk_signal sk r = None"
  shows "\<exists>price atr. assess pr sk ins f bullish symb = Inr (Some (s, NaN, price, atr))"
proof -
  have "\<exists>w. map_of (fu_weights f) k = Some w" if "k \<in> fused_models" for k
    using assms(6) that map_of_eq_None_iff [of "fu_weights f" k] by (cases "map_of (fu_weights f) k") (auto simp: fusion_ok_def)
  then obtain wt wm wo where w: "map_of (fu_weights f) ''technical'' = Some wt" "map_of (fu_weights f) ''ml'' = Some wm"
      "map_of (fu_weights f) ''ob'' = Some wo" by fastforce
  have nan: "x * NaN = NaN" "x + NaN = NaN" "NaN + x = NaN" for x by (cases x; simp)+
  have "fuse zs sig NaN imb None f = Inr NaN" for zs sig imb
    by (simp add: fuse_def weight_of_def w clip01_def nan)
  then show ?thesis using assms by (simp add: assess_def Let_def written_def)
qed

section \<open>The number of trades\<close>

lemma evaluate_symbol_length:
  assumes "evaluate_symbol n ow pr sk ins equity bullish symb b = Some (b', r)"
  shows "length (bo_trades b') \<le> Suc (length (bo_trades b))"
proof -
  have set: "length (dict_set symb t d) \<le> Suc (length d)" for t and d :: "(string, legacy_trade) pydict"
    by (induction d) auto
  have "length (bo_trades b2) \<le> Suc (length (bo_trades b1))"
    if "register_entry pr sk symb s atr z price v now b1 = (b2, r2)" for s atr z price v now b1 b2 r2
    using register_entry_trades [OF that] set by auto
  note step = this
  have "length (bo_trades b2) \<le> Suc (length (bo_trades b))"
    if "register_entry pr sk symb s atr z price v now (b\<lparr>bo_world := w, bo_risk := m\<rparr>) = (b2, r2)" for s atr z price v now w m b2 r2
    using step [OF that] by simp
  with assms show ?thesis
    by (auto simp: evaluate_symbol_def Let_def split: sum.splits option.splits prod.splits if_splits)
qed

theorem open_trades_bounded:
  assumes "scan_entries n ow pr sk ins equity bullish symbs b = Some b'"
  shows "length (bo_trades b') \<le> max (pr_max_trades pr) (length (bo_trades b))"
  using assms
proof (induction symbs arbitrary: b)
  case (Cons symb symbs)
  have one: "length (bo_trades b') \<le> max (pr_max_trades pr) (length (bo_trades b1))"
    if "evaluate_symbol n ow pr sk ins equity bullish symb b1 = Some (b2, r)" "\<not> pr_max_trades pr \<le> length (bo_trades b1)"
      "scan_entries n ow pr sk ins equity bullish symbs b2 = Some b'" for b1 b2 r
    using evaluate_symbol_length [OF that(1)] Cons.IH [OF that(3)] that(2) by linarith
  obtain m black where m: "is_blacklisted (Fin (ow_now ow (bo_world b))) symb (bo_risk b) = (m, black)" by fastforce
  from Cons.prems one [of "b\<lparr>bo_risk := m\<rparr>"] Cons.IH show ?case
    by (cases black) (fastforce simp: m Let_def split: if_splits option.splits)+
qed simp

section \<open>A restart lifts the limits\<close>

text \<open>
  A restart lifts the stop of the day. Whatever the file holds, a program started from it is neither
  locked nor paused, and in its first turn the loss of the day is measured from the equity of this turn,
  so that no positive limit is reached.
\<close>

lemma with_baselines_frame [simp]:
  "lr_locked_until (bo_risk (with_baselines b)) = lr_locked_until (bo_risk b)"
  "lr_pause_until (bo_risk (with_baselines b)) = lr_pause_until (bo_risk b)"
  by (simp_all add: with_baselines_def Let_def)

lemma load_state_frame:
  assumes "load_state mode now file b = Inr b'"
  shows "lr_locked_until (bo_risk b') = lr_locked_until (bo_risk b) \<and> lr_pause_until (bo_risk b') = lr_pause_until (bo_risk b)"
proof (cases "case file of None \<Rightarrow> VDict [] | Some v \<Rightarrow> v")
  case (VDict d)
  show ?thesis
  proof (cases "d = []")
    case False
    have elim: P if "rbind m f = Inr y" "\<And>x. f x = Inr y \<Longrightarrow> P" for P and m :: "'x res" and f and y :: "'b bot"
      using that by (auto simp: rbind_Inr_iff)
    from assms VDict False show ?thesis
      unfolding load_state_def by (simp, elim elim) auto
  qed (use assms VDict in \<open>simp add: load_state_def\<close>)
qed (use assms in \<open>simp_all add: load_state_def split: if_splits\<close>)

theorem restart_lifts_the_daily_stop:
  assumes "start_program pr t w file = Inr g0" "equity = Fin e" "0 < e" "Fin 0 < ru_daily_loss_pct ru"
    and "settle_turn sk ca equity g0 = (g1, Inr ())" "ca_date ca \<noteq> []"
  shows "\<not> snd (check_daily_loss ru equity (bo_risk (pg_bot g1))) \<and> lr_locked_until (bo_risk (pg_bot g1)) = Fin 0 \<and>
    lr_pause_until (bo_risk (pg_bot g1)) = Fin 0"
proof -
  have fresh: "lr_locked_until (bo_risk (pg_bot g0)) = Fin 0" "lr_pause_until (bo_risk (pg_bot g0)) = Fin 0" "pg_day g0 = []"
    using assms(1) by (auto simp: start_program_def rbind_Inr_iff new_bot_def new_risk_manager_def dest!: load_state_frame)
  obtain gd where gd: "maybe_daily_reset sk (ca_date ca) equity g0 = (gd, Inr ())"
      "bo_risk (pg_bot g1) = update_equity_peaks equity (bo_risk (pg_bot (maybe_weekly_reset (ca_weekday ca) (ca_week ca) equity gd)))"
    using assms(5)
    by (cases "written (sk_equity sk equity)") (auto simp: settle_turn_def andthen_Inr Let_def on_bot_def split: sum.splits)
  have "bo_risk (pg_bot gd) = reset_daily equity (bo_risk (pg_bot g0))"
    using gd(1) fresh(3) assms(6) by (auto simp: maybe_daily_reset_def Let_def split: if_splits sum.splits)
  then have "lr_daily_start (bo_risk (pg_bot g1)) = equity" "\<not> lr_daily_stop (bo_risk (pg_bot g1))"
    "lr_locked_until (bo_risk (pg_bot g1)) = Fin 0" "lr_pause_until (bo_risk (pg_bot g1)) = Fin 0"
    using fresh by (simp_all add: gd(2) update_equity_peaks_def maybe_weekly_reset_def reset_weekly_def reset_daily_def Let_def)
  then show ?thesis using assms(2-4)
    by (cases "ru_daily_loss_pct ru") (auto simp: check_daily_loss_def)
qed


section \<open>Witnesses\<close>

text \<open>In the paper mode every turn returns.\<close>

lemma paper_evaluation_returns: "paper (pr_bot pr) \<Longrightarrow> evaluate_symbol n ow pr sk ins equity bullish symb b \<noteq> None"
  by (auto simp: evaluate_symbol_def execute_buy_def paper_def Let_def split: sum.splits option.splits prod.splits)

lemma paper_scan_returns: "paper (pr_bot pr) \<Longrightarrow> scan_entries n ow pr sk ins equity bullish symbs b \<noteq> None"
proof (induction symbs arbitrary: b)
  case (Cons symb symbs)
  obtain m black where m: "is_blacklisted (Fin (ow_now ow (bo_world b))) symb (bo_risk b) = (m, black)" by fastforce
  from Cons paper_evaluation_returns [OF Cons.prems, of n ow sk ins equity bullish symb "b\<lparr>bo_risk := m\<rparr>"] show ?case
    by (cases black) (auto simp: m Let_def)
qed simp

lemma paper_turn_returns:
  assumes "paper (pr_bot pr)" shows "program_turn n ow pr sk hex ins ca g \<noteq> None"
proof -
  note scan = paper_scan_returns [OF assms]
  show ?thesis
    by (auto simp: program_turn_def trading_turn_def look_for_entries_def scan Let_def split: sum.splits prod.splits option.splits)
qed

lemma paper_run_returns: "paper (pr_bot pr) \<Longrightarrow> \<exists>g'. program_run n ow pr sk turns g = Some g'"
proof (induction turns arbitrary: g)
  case (Cons turn turns)
  obtain hex ins ca where t: "turn = (hex, ins, ca)" by (cases turn)
  obtain g1 r where "program_turn n ow pr sk hex ins ca g = Some (g1, r)" using paper_turn_returns [OF Cons.prems] by fast
  with Cons show ?case by (simp add: t)
qed simp

text \<open>A market in which the program buys bitcoin, and one turn of it.\<close>

definition sample_rules :: program_rules where
  "sample_rules = \<lparr>pr_bot = paper_rules, pr_signal = \<lparr>sr_volatility_cap = Fin (8/100), sr_adx = Fin 25, sr_bull_min = Fin 40,
       sr_bull_max = Fin 70, sr_range_bear = Fin 30\<rparr>, pr_zscore = Fin 2, pr_threshold = Fin (1/2),
     pr_watchlist = [''BTC/USDT''], pr_max_trades = 6, pr_max_daily = 20\<rparr>"

definition sample_row :: feature_row where
  "sample_row = [(''c'', Fin 100), (''atr'', Fin 1), (''vol_spike'', Fin 1), (''bb_pct'', Fin (99/100)), (''adx'', Fin 31),
     (''macd_hist'', Fin 1), (''ob_imbalance'', Fin 1)]"

definition sample_insight :: insight where
  "sample_insight = \<lparr>in_bars = (\<lambda>_. Inr (Some 500)), in_row = (\<lambda>_. Inr (Some sample_row)), in_model = (\<lambda>_. Inr (Fin (9/10))),
     in_bitcoin = Inr None, in_prices = (\<lambda>_. Fin 100), in_atrs = (\<lambda>_. Inr None), in_running = (\<lambda>_. True), in_base = Fin 0,
     in_ids = (\<lambda>_ _. ''id'')\<rparr>"

definition sample_calendar :: calendar where
  "sample_calendar = \<lparr>ca_date = ''2026-01-05'', ca_weekday = 0, ca_week = ''2'', ca_stamp = ''2026-01-05T00:00:00Z''\<rparr>"

definition open_sinks :: sinks where
  "open_sinks = \<lparr>sk_trade = (\<lambda>_. None), sk_buy = (\<lambda>_. None), sk_signal = (\<lambda>_. None), sk_equity = (\<lambda>_. None),
     sk_performance = (\<lambda>_. None)\<rparr>"

theorem trades_are_forgotten_witness:
  "\<exists>g0 g g1. start_program sample_rules (Fin 0) 0 None = Inr g0 \<and>
     program_run 9 quick_exchange sample_rules open_sinks [(''h'', sample_insight, sample_calendar)] g0 = Some g \<and>
     start_program sample_rules (Fin 1) (1 :: real) (pg_file g) = Inr g1 \<and> bo_trades (pg_bot g1) = []"
proof -
  obtain g0 where g0: "start_program sample_rules (Fin 0) (0 :: real) None = Inr g0"
    by (simp add: start_program_def load_state_def)
  have "paper (pr_bot sample_rules)" by (simp add: sample_rules_def paper_def paper_rules_def)
  from paper_run_returns [OF this] obtain g where g:
    "program_run 9 quick_exchange sample_rules open_sinks [(''h'', sample_insight, sample_calendar)] g0 = Some g" by blast
  from trades_are_forgotten [OF g0 g, of "Fin 1" "1 :: real"] g0 g show ?thesis by blast
qed

lemma sample_assessed:
  "assess sample_rules open_sinks sample_insight new_fusion True ''BTC/USDT'' =
     Inr (Some (''BREAKOUT'', Fin (9/10), Fin 100, Fin 1))"
  by (simp add: assess_def sample_insight_def sample_rules_def sample_row_def validate_signal_def figure_def dict_get_def
      is_trend_def is_range_def is_breakout_def Let_def fuse_def weight_of_def new_fusion_def tech_score_def clip01_def
      written_def open_sinks_def)

end
