(* ===== verification/Spec2Isabelle.thy ===== *)
theory Spec2Isabelle
  imports Resilience Reconciliation Backtest_Runtime Runtime Legacy_Trading
    Market_Maker Order_Book_Stream Portfolio_Support Tick_Replay Signal_Fusion Trading_Env Metrics_Registry
    Launcher Legacy_Program
begin

text \<open>
  A verification library for AEGIS Fortress Pro, an automated trading program. All paths below are
  relative to \<open>src/\<close>.

  \<^bold>\<open>The program.\<close> \<open>app/runtime_container.py\<close> builds the running program: from the configuration
  (\<open>config.py\<close>), the environment (\<open>app/runtime_settings.py\<close>) and the saved portfolio it makes the
  connections to the exchanges (\<open>exchange.py\<close>), the source of market data (\<open>feeds/\<close>), the ledger
  (\<open>portfolio/position_ledger.py\<close>), the checks of risk (\<open>risk/\<close>), the execution pipeline (\<open>execution/\<close>),
  the strategies and the services around an event bus (\<open>core/event_bus.py\<close>, \<open>microservices/\<close>). Market
  data flows from the polling source over the normalizer into the market state and onto the bus; the live
  strategy answers an order book with signals, which its service turns into order requests; the execution
  service decodes a request and submits it to the pipeline, which validates the order, asks the router for
  an exchange, checks the risk, sends the order, normalizes the response and books the fill; reports go
  back to the bus, where the risk service trips the kill switch on a breach. A backtest
  (\<open>backtesting/\<close>) runs the same pipeline against a simulated exchange fed from recorded data.
  \<open>main_legacy.py\<close> with \<open>risk.py\<close> and \<open>execution.py\<close> is an older program of the repository.

  \<^bold>\<open>The theories.\<close> Each models its files function by function, under the names of the source.

  \<^item> Python: \<open>Py_Float\<close> (floats with infinities and NaN, comparisons as in Python), \<open>Py_Time\<close>
    (\<open>datetime\<close>, instants, ISO texts), \<open>Py_Sequences\<close> (stable sorting, slices, substrings),
    \<open>Py_Statistics\<close> (mean and deviation), \<open>Prelude\<close> (exceptions as \<open>py_exc + 'a\<close>, steps that keep their
    effects when they raise, dictionaries as association lists in the order of insertion, dynamically
    typed values \<open>pyval\<close>, texts and numbers read from texts, machines of events).
  \<^item> Orders: \<open>Orders\<close> (\<open>models/\<close>), \<open>Order_Lifecycle\<close> (\<open>execution/order_state_machine.py\<close>,
    \<open>execution_validator.py\<close>), \<open>Exchange_Reports\<close> (\<open>execution/exchange_response_normalizer.py\<close>,
    \<open>order_event_codec.py\<close>).
  \<^item> Books and risk: \<open>Position_Ledger\<close> (\<open>models/position.py\<close>, \<open>portfolio/position_ledger.py\<close>),
    \<open>Risk_Checks\<close> (\<open>portfolio/exposure_engine.py\<close>, \<open>risk/portfolio_guard.py\<close>, \<open>risk/pre_trade_risk.py\<close>),
    \<open>Kill_Switch\<close> (\<open>risk/kill_switch.py\<close>, \<open>microservices/risk_service.py\<close>), \<open>Reconciliation\<close>
    (\<open>risk/reconciliation.py\<close>), \<open>Fill_Processing\<close> (\<open>execution/fill_processor.py\<close>), \<open>Persistence\<close>
    (\<open>core/database_manager.py\<close>, \<open>core/state/portfolio_state_store.py\<close>,
    \<open>microservices/risk_event_logger_service.py\<close>).
  \<^item> Execution: \<open>Routing\<close> (\<open>core/exchange_registry.py\<close>, \<open>core/smart_order_router.py\<close>),
    \<open>Execution_Pipeline\<close> (\<open>execution/execution_pipeline.py\<close>, \<open>execution_gateway.py\<close>,
    \<open>microservices/execution_service.py\<close>), \<open>Exchange_Manager\<close> (\<open>exchange.py\<close> and the retry decorator and
    token bucket of \<open>utils.py\<close>), \<open>Resilience\<close> (rate limiter, circuit breaker, retries and failover of
    \<open>core/\<close>).
  \<^item> Market data: \<open>Market_Data\<close> (normalizer, state store and service), \<open>Polling_Source\<close>
    (\<open>feeds/exchange_polling_source.py\<close>), \<open>Symbol_Discovery\<close> (\<open>portfolio/symbol_discovery.py\<close>).
  \<^item> Strategies: \<open>Mean_Reversion\<close> (\<open>strategies/mean_reversion_imbalance.py\<close>), \<open>Live_Strategy\<close>
    (\<open>microservices/live_strategy_service.py\<close>), \<open>Momentum_Trap\<close> (\<open>strategies/momentum_trap.py\<close> and its
    service).
  \<^item> Backtests: \<open>Simulated_Exchange\<close>, \<open>Replay\<close>, \<open>Backtest_Metrics\<close>, \<open>Backtest_Runtime\<close>
    (\<open>backtesting/\<close>), \<open>Bar_Backtest\<close> (\<open>backtest.py\<close>), \<open>Tick_Replay\<close> (\<open>tick_replay.py\<close>, the tick store of \<open>db.py\<close>).
  \<^item> Signals and quotes: \<open>Signal_Fusion\<close> (conditions and candle cache of \<open>market_data.py\<close>, fusion of
    \<open>models.py\<close>, figures of \<open>sentiment.py\<close>), \<open>Market_Maker\<close> (\<open>market_maker.py\<close>), \<open>Order_Book_Stream\<close>
    (\<open>websocket_ob.py\<close>), \<open>Portfolio_Support\<close> (helpers of \<open>portfolio/\<close>, \<open>risk/\<close>, \<open>strategies/\<close> and \<open>ai/\<close>),
    \<open>Trading_Env\<close> (the environment of \<open>rl_agent.py\<close>).
  \<^item> The program as a whole: \<open>Aegis_Config\<close>, \<open>Runtime_Settings\<close>, \<open>Runtime\<close> (\<open>config.py\<close>, \<open>app/\<close>),
    \<open>Event_Bus\<close> (\<open>core/event_bus.py\<close>, \<open>microservices/base_service.py\<close>), \<open>Orchestration\<close>
    (\<open>microservices/orchestrator.py\<close>, \<open>core/task_supervisor.py\<close>, the health report and counters of
    \<open>monitoring/\<close>), \<open>Metrics_Registry\<close> (\<open>metrics/\<close> and the exporter), \<open>Launcher\<close> (\<open>main.py\<close>).
  \<^item> The older program: \<open>Legacy_Risk\<close> (\<open>risk.py\<close>), \<open>Legacy_Execution\<close> (\<open>execution.py\<close>), \<open>Legacy_Trading\<close>
    and \<open>Legacy_Program\<close> (trades and loop of \<open>main_legacy.py\<close>). Packages of the names \<open>risk\<close> and \<open>execution\<close> shadow its modules, so that it does not
    start as the repository stands; its code is modelled as written.

  \<^bold>\<open>State and operations.\<close> An object is a record of its attributes, a method a function that returns the
  changed record; a method that may raise returns a sum, with the state where effects remain after the
  exception. A class of the interface of another component (an exchange, a database, the bus, the clock)
  is a record of functions or an argument, instantiated by the model of the component that provides it
  where the program composes them, as \<open>Runtime\<close> does with the wrappers of \<open>Exchange_Manager\<close>, the pipeline of
  \<open>Execution_Pipeline\<close> and the restored ledger of \<open>Persistence\<close>.

  \<^bold>\<open>What the lemmas show.\<close> The ledger conserves equity, keeps its invariant and returns from its saved form;
  an approved order keeps the limits of the guard, and no order is sent without approval of that very
  order; the results of a submission are classified with their effects on the books; every call of
  the fill processor books its own report and no other; the router, the discovery and the arbitrage scan
  choose what they should, and a normalized order book keeps the best levels; the kill switch trips exactly
  on its conditions; the strategy spaces its entries, filters them and closes exactly its positions; the
  limiter keeps its rate in every window and the breaker agrees with a small specification; the bus makes
  the calls its registrations ask for, in order; a replay shows no future; a restart keeps the portfolio; a
  started program is consistent and sends orders only with consent and credentials; a stop settles the
  tasks of the supervisor, not those the polling source creates itself. Several theorems state what the code
  does where it does not do what it means to: dead restarts that report to be healthy, a line of a replay
  that hangs a backtest, symbols frozen when discovery drops them, fills hidden by a failing bus, default
  limits that refuse every first order, a profit report that takes fees off twice, an older program that
  forgets its trades.

  \<^bold>\<open>Interfaces.\<close> \<open>event_machine\<close> (an object that handles events under an invariant; interpreted on the
  mean-reversion strategy, the momentum service and the legacy risk manager), \<open>lifecycle\<close> (order states),
  \<open>position_book\<close> (the ledger), \<open>latch\<close> (the kill switch), \<open>preference\<close> (the comparison of quotes, for
  purchases and for sales), \<open>metered\<close> (the rate limiter) and \<open>venue\<close> (the simulated exchange) are locales;
  the properties use the facts of their interpretations.

  \<^bold>\<open>Idealisations.\<close> Arithmetic on finite floats is exact: rounding, signed zeros and overflow of a finite
  result are not modelled, and so are the means and deviations of the statistics module and the logarithm.
  A call reads the clock once; readings, random identifiers and jitter are arguments. A list is sorted by
  a stable sort on keys that are ordered. JSON is the value it denotes, with its keys sorted. The digits
  of a float inside a message are kept as the float and its format. A coroutine is a step between its
  awaits; tasks that run concurrently enter as an order of completion, as packets that arrive, or as what
  other tasks do while one sleeps. Logging and metrics labels have no effect.

  \<^bold>\<open>Bounds and fuel.\<close> The loops of the models are structural, except for those that wait on other tasks:
  \<open>backtest_loop\<close>, \<open>tb_consume\<close>, \<open>bus_rounds\<close>, \<open>poll_fill\<close> and \<open>live_loop\<close> count their turns.
  \<open>acquire_returns\<close>, \<open>bus_delivers_in_order\<close>, \<open>bad_line_hangs_backtest\<close> and \<open>live_buy_returns\<close> say how
  many turns are enough, or that none are.

  \<^bold>\<open>Not modelled.\<close> Code whose meaning is that of a library the repository only calls: the pandas features
  (\<open>features_extended.py\<close>, the feature engine of \<open>market_data.py\<close>), training and inference of the learned models
  (\<open>models.py\<close>, \<open>rl_agent.py\<close>), the news scores of \<open>sentiment.py\<close>, the encrypted trade database of \<open>db.py\<close>; of
  \<open>strategies/momentum_trap.py\<close> the columns of a data frame. Where modelled code uses their results, these
  are arguments. Pages, reports and notifications (\<open>monitor.py\<close>, \<open>monitoring/health_server.py\<close>,
  \<open>reports/\<close>), supervision of sockets and processes (\<open>core/async_ws_manager.py\<close>, \<open>watchdog.py\<close>), the commands of
  \<open>main.py\<close> that only run other programs, scripts and deployment (\<open>scripts/\<close>, \<open>deploy/\<close>), log formatting,
  the tests. Small helpers that nothing calls (\<open>core/state_manager.py\<close>, \<open>core/cache_manager.py\<close> and the like).
  The manifest lists them with their reasons.
\<close>

end
